(* ===== verification/Prelude.thy ===== *)
theory Prelude
  imports Main "HOL-Library.Word"
begin

unbundle bit_operations_syntax

text \<open>
  Shared vocabulary of the development: bytes and Go strings, the result type of fallible
  Go code, checked indexing and slicing, big-endian integers, hexadecimal text, UTF-8 and
  UTF-16 conversion, and the string helpers of the Go standard library that the modelled
  packages call.  Facts that several components use are declared here, as simplification
  rules or in the collections \<open>go_defs\<close> (definitions to unfold when a closed term is
  evaluated) and \<open>res_simps\<close> (inversion of results).
\<close>

named_theorems go_defs
named_theorems res_simps

subsection \<open>Bytes, strings, results\<close>

text \<open>
  A Go string is an immutable sequence of bytes; a rune is a code point.  Text literals of
  the source are written \<open>str ''...''\<close>.
\<close>

type_synonym byte = "8 word"
type_synonym gostring = "byte list"
type_synonym rune = nat

definition str :: "string \<Rightarrow> gostring" where
  "str s = map of_char s"

text \<open>
  A Go function that returns \<open>(value, error)\<close> becomes a value of \<open>('e, 'a) res\<close>:
  \<open>Inr\<close> the value, \<open>Inl (Fail e)\<close> the error, \<open>Inl Panic\<close> the run-time panic of an
  index or slice expression out of range, and \<open>Inl Hang\<close> a call that does not return.
\<close>

datatype 'e fault = Panic | Hang | Fail 'e

type_synonym ('e, 'a) res = "'e fault + 'a"

fun rbind :: "('e, 'a) res \<Rightarrow> ('a \<Rightarrow> ('e, 'b) res) \<Rightarrow> ('e, 'b) res" where
  "rbind (Inl e) f = Inl e"
| "rbind (Inr x) f = f x"

lemma rbind_Inr_iff [res_simps]:
  "rbind m f = Inr y \<longleftrightarrow> (\<exists>x. m = Inr x \<and> f x = Inr y)"
  by (cases m) auto

lemma rbind_Inl_iff [res_simps]:
  "rbind m f = Inl e \<longleftrightarrow> m = Inl e \<or> (\<exists>x. m = Inr x \<and> f x = Inl e)"
  by (cases m) auto

lemma rbind_split:
  "P (rbind m f) \<longleftrightarrow> (\<forall>e. m = Inl e \<longrightarrow> P (Inl e)) \<and> (\<forall>x. m = Inr x \<longrightarrow> P (f x))"
  by (cases m) auto

lemma rbind_split_asm:
  "P (rbind m f) \<longleftrightarrow> \<not> ((\<exists>e. m = Inl e \<and> \<not> P (Inl e)) \<or> (\<exists>x. m = Inr x \<and> \<not> P (f x)))"
  by (cases m) auto

lemma rbind_cong [fundef_cong]:
  "m = m' \<Longrightarrow> (\<And>x. m' = Inr x \<Longrightarrow> f x = g x) \<Longrightarrow> rbind m f = rbind m' g"
  by (cases m') auto

text \<open>A result is safe if the code returned it: a value or an error, no panic, no hang.\<close>

definition safe :: "('e, 'a) res \<Rightarrow> bool" where
  "safe r \<longleftrightarrow> r \<noteq> Inl Panic \<and> r \<noteq> Inl Hang"

lemma safe_simps [simp]:
  "safe (Inr x)" "safe (Inl (Fail e))" "\<not> safe (Inl Panic)" "\<not> safe (Inl Hang)"
  by (simp_all add: safe_def)

lemma safe_rbind [intro]:
  "safe m \<Longrightarrow> (\<And>x. m = Inr x \<Longrightarrow> safe (f x)) \<Longrightarrow> safe (rbind m f)"
  by (cases m) (auto simp: safe_def)

lemma safe_rbind_iff [simp]:
  "safe m \<Longrightarrow> safe (rbind m f) \<longleftrightarrow> (\<forall>x. m = Inr x \<longrightarrow> safe (f x))"
  by (cases m) (auto simp: safe_def)

lemma safe_not_crash [dest]:
  "m = Inl Panic \<Longrightarrow> safe m \<Longrightarrow> False" "m = Inl Hang \<Longrightarrow> safe m \<Longrightarrow> False"
  by simp_all

lemma safe_Inl_iff: "safe (Inl f) \<longleftrightarrow> (\<exists>e. f = Fail e)"
  by (cases f) auto

text \<open>The value of a loop that may not end (\<open>None\<close>: it does not).\<close>

definition of_loop :: "'a option \<Rightarrow> ('e, 'a) res" where
  "of_loop r = (case r of None \<Rightarrow> Inl Hang | Some x \<Rightarrow> Inr x)"

lemma of_loop_Some [simp]: "of_loop (Some x) = Inr x"
  by (simp add: of_loop_def)

text \<open>A loop over a list that stops at the first error.\<close>

fun rmap :: "('a \<Rightarrow> ('e, 'b) res) \<Rightarrow> 'a list \<Rightarrow> ('e, 'b list) res" where
  "rmap f [] = Inr []"
| "rmap f (x # xs) = rbind (f x) (\<lambda>y. rbind (rmap f xs) (\<lambda>ys. Inr (y # ys)))"

lemma rmap_Inr_iff [res_simps]:
  "rmap f xs = Inr ys \<longleftrightarrow> list_all2 (\<lambda>x y. f x = Inr y) xs ys"
  by (induction xs arbitrary: ys) (auto simp: list_all2_Cons1 res_simps)

lemma rmap_cong [fundef_cong]:
  "xs = ys \<Longrightarrow> (\<And>x. x \<in> set ys \<Longrightarrow> f x = g x) \<Longrightarrow> rmap f xs = rmap g ys"
  by (induction xs arbitrary: ys) (auto cong: rbind_cong)

lemma rmap_map: "rmap f (map h xs) = rmap (\<lambda>x. f (h x)) xs"
  by (induction xs) simp_all

lemma safe_rmap: "(\<And>x. x \<in> set xs \<Longrightarrow> safe (f x)) \<Longrightarrow> safe (rmap f xs)"
  by (induction xs) simp_all

lemma rmap_ok: "(\<And>x. x \<in> set xs \<Longrightarrow> f x = Inr (g x)) \<Longrightarrow> rmap f xs = Inr (map g xs)"
  by (induction xs) auto

text \<open>
  Indexing and slicing with Go's run-time checks.  A slice expression may reach up to the
  capacity of its operand; every slice of the modelled code is bounded by its length
  first, which is what the panic-freedom theorems establish, so the length is the bound
  used here.
\<close>

definition idx :: "'a list \<Rightarrow> nat \<Rightarrow> ('e, 'a) res" where
  "idx xs i = (if i < length xs then Inr (xs ! i) else Inl Panic)"

definition slice :: "'a list \<Rightarrow> nat \<Rightarrow> nat \<Rightarrow> ('e, 'a list) res" where
  "slice xs a b =
     (if a \<le> b \<and> b \<le> length xs then Inr (take (b - a) (drop a xs)) else Inl Panic)"

lemma idx_ok [simp]: "i < length xs \<Longrightarrow> idx xs i = Inr (xs ! i)"
  by (simp add: idx_def)

lemma slice_ok [simp]:
  "a \<le> b \<Longrightarrow> b \<le> length xs \<Longrightarrow> slice xs a b = Inr (take (b - a) (drop a xs))"
  by (simp add: slice_def)

lemma idx_Inr_iff [res_simps]: "idx xs i = Inr x \<longleftrightarrow> i < length xs \<and> x = xs ! i"
  by (auto simp: idx_def)

lemma slice_Inr_iff [res_simps]:
  "slice xs a b = Inr ys \<longleftrightarrow> a \<le> b \<and> b \<le> length xs \<and> ys = take (b - a) (drop a xs)"
  by (auto simp: slice_def)

lemma safe_idx_iff [simp]: "safe (idx xs i) \<longleftrightarrow> i < length xs"
  by (simp add: idx_def)

lemma safe_slice_iff [simp]: "safe (slice xs a b) \<longleftrightarrow> a \<le> b \<and> b \<le> length xs"
  by (simp add: slice_def)

subsection \<open>Big-endian integers\<close>

definition be16 :: "byte \<Rightarrow> byte \<Rightarrow> 16 word" where
  "be16 a b = push_bit 8 (ucast a) OR ucast b"

definition be32 :: "byte \<Rightarrow> byte \<Rightarrow> byte \<Rightarrow> byte \<Rightarrow> 32 word" where
  "be32 a b c d =
     push_bit 24 (ucast a) OR push_bit 16 (ucast b) OR push_bit 8 (ucast c) OR ucast d"

definition put_be16 :: "16 word \<Rightarrow> byte list" where
  "put_be16 v = [ucast (drop_bit 8 v), ucast v]"

definition put_be32 :: "32 word \<Rightarrow> byte list" where
  "put_be32 v = [ucast (drop_bit 24 v), ucast (drop_bit 16 v), ucast (drop_bit 8 v), ucast v]"

text \<open>\<open>binary.BigEndian.Uint16(xs[i:i+2])\<close> and \<open>Uint32(xs[i:i+4])\<close>.\<close>

definition u16_at :: "byte list \<Rightarrow> nat \<Rightarrow> ('e, 16 word) res" where
  "u16_at xs i = rbind (slice xs i (i + 2)) (\<lambda>b. Inr (be16 (b ! 0) (b ! 1)))"

definition u32_at :: "byte list \<Rightarrow> nat \<Rightarrow> ('e, 32 word) res" where
  "u32_at xs i = rbind (slice xs i (i + 4)) (\<lambda>b. Inr (be32 (b ! 0) (b ! 1) (b ! 2) (b ! 3)))"

lemma u16_at_ok [simp]:
  "i + 2 \<le> length xs \<Longrightarrow> u16_at xs i = Inr (be16 (xs ! i) (xs ! (i + 1)))"
  by (simp add: u16_at_def)

lemma u32_at_ok [simp]:
  "i + 4 \<le> length xs \<Longrightarrow>
   u32_at xs i = Inr (be32 (xs ! i) (xs ! (i + 1)) (xs ! (i + 2)) (xs ! (i + 3)))"
  by (simp add: u32_at_def)

lemma length_put_be [simp]: "length (put_be16 v) = 2" "length (put_be32 w) = 4"
  by (simp_all add: put_be16_def put_be32_def)

lemma byte_bit_high [simp]: "8 \<le> n \<Longrightarrow> \<not> bit (b :: byte) n"
  using bit_imp_le_length [of b n] by auto

lemma be16_put [simp]: "be16 (ucast (drop_bit 8 v)) (ucast v) = v"
  by (rule bit_word_eqI) (auto simp: be16_def bit_simps)

lemma be32_put [simp]:
  "be32 (ucast (drop_bit 24 v)) (ucast (drop_bit 16 v)) (ucast (drop_bit 8 v)) (ucast v) = v"
proof (rule bit_word_eqI)
  fix n
  assume "n < LENGTH(32)"
  then show "bit (be32 (ucast (drop_bit 24 v)) (ucast (drop_bit 16 v))
      (ucast (drop_bit 8 v)) (ucast v)) n = bit v n"
    by (cases "n < 8"; cases "n < 16"; cases "n < 24") (auto simp: be32_def bit_simps)
qed

lemma put_be16_be16 [simp]: "put_be16 (be16 a b) = [a, b]"
  by (auto simp: be16_def put_be16_def bit_simps intro!: bit_word_eqI)

lemma be16_add: "be16 a b = push_bit 8 (ucast a) + (ucast b :: 16 word)"
  unfolding be16_def
  by (rule disjunctive_add [symmetric]) (auto simp: bit_simps)

lemma unat_byte [simp]: "unat (b :: byte) < 256"
  using unsigned_less [of b] by simp

lemma unat_be16: "unat (be16 a b) = unat a * 256 + unat b"
proof -
  have a: "unat a < 256" and b: "unat b < 256" by simp_all
  then have "unat a * 256 + unat b < 65536" by linarith
  with a b show ?thesis
    by (simp add: be16_add unat_word_ariths push_bit_eq_mult unsigned_ucast_eq take_bit_eq_mod
        mod_less)
qed

lemma unat_be16_of_nat:
  "n < 65536 \<Longrightarrow> put_be16 (of_nat n) = [a, b] \<Longrightarrow> unat (be16 a b) = n"
proof -
  assume n: "n < 65536" and "put_be16 (of_nat n) = [a, b]"
  then have "be16 a b = of_nat n" by (auto simp: put_be16_def)
  with n show ?thesis by (simp add: unat_of_nat take_bit_eq_mod)
qed

end
