(* ===== verification/Go_Strings.thy ===== *)
theory Go_Strings
  imports Prelude
begin

text \<open>
  The parts of Go's \<open>range\<close> over a string, \<open>unicode/utf8\<close>, \<open>unicode/utf16\<close>,
  \<open>encoding/hex\<close>, \<open>strconv\<close> and \<open>strings\<close> that the modelled packages use, with
  the round trips the components rely on.
\<close>

subsection \<open>UTF-8\<close>

definition cont :: "nat \<Rightarrow> nat \<Rightarrow> byte \<Rightarrow> bool" where
  "cont lo hi b \<longleftrightarrow> lo \<le> unat b \<and> unat b \<le> hi"

text \<open>
  The first rune of a string and its width, or \<open>None\<close> where Go yields
  \<open>utf8.RuneError\<close> with width one (the table of valid lead and second bytes is the one
  of the \<open>unicode/utf8\<close> package).
\<close>

definition utf8_first :: "byte list \<Rightarrow> (rune \<times> nat) option" where
  "utf8_first s =
     (case s of
        [] \<Rightarrow> None
      | b0 # t \<Rightarrow>
         (let x = unat b0 in
          if x < 0x80 then Some (x, 1)
          else if 0xC2 \<le> x \<and> x \<le> 0xDF then
            (case t of
               b1 # _ \<Rightarrow>
                 if cont 0x80 0xBF b1 then Some ((x - 0xC0) * 64 + (unat b1 - 0x80), 2) else None
             | _ \<Rightarrow> None)
          else if 0xE0 \<le> x \<and> x \<le> 0xEF then
            (case t of
               b1 # b2 # _ \<Rightarrow>
                 if cont (if x = 0xE0 then 0xA0 else 0x80) (if x = 0xED then 0x9F else 0xBF) b1
                    \<and> cont 0x80 0xBF b2
                 then Some (((x - 0xE0) * 64 + (unat b1 - 0x80)) * 64 + (unat b2 - 0x80), 3)
                 else None
             | _ \<Rightarrow> None)
          else if 0xF0 \<le> x \<and> x \<le> 0xF4 then
            (case t of
               b1 # b2 # b3 # _ \<Rightarrow>
                 if cont (if x = 0xF0 then 0x90 else 0x80) (if x = 0xF4 then 0x8F else 0xBF) b1
                    \<and> cont 0x80 0xBF b2 \<and> cont 0x80 0xBF b3
                 then Some ((((x - 0xF0) * 64 + (unat b1 - 0x80)) * 64 + (unat b2 - 0x80)) * 64
                            + (unat b3 - 0x80), 4)
                 else None
             | _ \<Rightarrow> None)
          else None))"

definition rune_error :: rune where
  "rune_error = 0xFFFD"

text \<open>\<open>[]rune(s)\<close>, the runes a \<open>range\<close> loop over \<open>s\<close> visits.\<close>

fun runes_of :: "gostring \<Rightarrow> rune list" where
  "runes_of [] = []"
| "runes_of (b # s) =
     (case utf8_first (b # s) of
        None \<Rightarrow> rune_error # runes_of s
      | Some (r, n) \<Rightarrow> r # runes_of (drop (n - 1) s))"

text \<open>\<open>utf8.Valid\<close>.\<close>

fun utf8_valid :: "gostring \<Rightarrow> bool" where
  "utf8_valid [] = True"
| "utf8_valid (b # s) =
     (case utf8_first (b # s) of
        None \<Rightarrow> False
      | Some (r, n) \<Rightarrow> utf8_valid (drop (n - 1) s))"

definition surrogate :: "rune \<Rightarrow> bool" where
  "surrogate r \<longleftrightarrow> 0xD800 \<le> r \<and> r \<le> 0xDFFF"

definition valid_rune :: "rune \<Rightarrow> bool" where
  "valid_rune r \<longleftrightarrow> r \<le> 0x10FFFF \<and> \<not> surrogate r"

text \<open>\<open>utf8.AppendRune\<close>, \<open>strings.Builder.WriteRune\<close>, \<open>string(runes)\<close>.\<close>

definition utf8_enc_valid :: "rune \<Rightarrow> byte list" where
  "utf8_enc_valid r =
     (if r < 0x80 then [of_nat r]
      else if r < 0x800 then [of_nat (0xC0 + r div 64), of_nat (0x80 + r mod 64)]
      else if r < 0x10000 then
        [of_nat (0xE0 + r div 64 div 64), of_nat (0x80 + r div 64 mod 64), of_nat (0x80 + r mod 64)]
      else
        [of_nat (0xF0 + r div 64 div 64 div 64), of_nat (0x80 + r div 64 div 64 mod 64),
         of_nat (0x80 + r div 64 mod 64), of_nat (0x80 + r mod 64)])"

definition utf8_enc :: "rune \<Rightarrow> byte list" where
  "utf8_enc r = utf8_enc_valid (if valid_rune r then r else rune_error)"

definition string_of_runes :: "rune list \<Rightarrow> gostring" where
  "string_of_runes rs = concat (map utf8_enc rs)"

lemma string_of_runes_simps [simp]:
  "string_of_runes [] = []"
  "string_of_runes (r # rs) = utf8_enc r @ string_of_runes rs"
  "string_of_runes (rs @ qs) = string_of_runes rs @ string_of_runes qs"
  by (simp_all add: string_of_runes_def)

lemma of_nat_byte_eq: "unat b = n \<Longrightarrow> (of_nat n :: byte) = b"
  by auto

lemma glue64 [simp]:
  fixes a b :: nat
  assumes "b < 64"
  shows "(a * 64 + b) div 64 = a" "(a * 64 + b) mod 64 = b"
  using assms by simp_all

lemma cont_tail:
  assumes "cont lo hi b" "0x80 \<le> lo" "hi \<le> 0xBF"
  shows "unat b - 0x80 < 64" "of_nat (0x80 + (unat b - 0x80)) = b"
  using assms by (auto simp: cont_def)

text \<open>A decoded rune is valid and its encoding is the bytes it was decoded from.\<close>

lemma utf8_first_width:
  "utf8_first s = Some (r, n) \<Longrightarrow> 0 < n \<and> n \<le> length s"
  by (auto simp: utf8_first_def Let_def split: list.splits if_splits)

lemma utf8_first_2:
  assumes b0: "0xC2 \<le> unat b0" "unat b0 \<le> 0xDF" and b1: "cont 0x80 0xBF b1"
    and r: "r = (unat b0 - 0xC0) * 64 + (unat b1 - 0x80)"
  shows "valid_rune r" "utf8_enc_valid r = [b0, b1]"
proof -
  have c: "unat b1 - 0x80 < 64" using b1 cont_tail by auto
  have lo: "0x80 \<le> r" and hi: "r < 0x800" using b0 c r by auto
  then show "valid_rune r" by (simp add: valid_rune_def surrogate_def)
  have "r div 64 = unat b0 - 0xC0" "r mod 64 = unat b1 - 0x80" using c r by simp_all
  with lo hi b0 b1 show "utf8_enc_valid r = [b0, b1]"
    by (simp add: utf8_enc_valid_def cont_def of_nat_byte_eq del: of_nat_add)
qed

lemma utf8_first_3:
  assumes b0: "0xE0 \<le> unat b0" "unat b0 \<le> 0xEF"
    and b1: "cont (if unat b0 = 0xE0 then 0xA0 else 0x80) (if unat b0 = 0xED then 0x9F else 0xBF) b1"
    and b2: "cont 0x80 0xBF b2"
    and r: "r = ((unat b0 - 0xE0) * 64 + (unat b1 - 0x80)) * 64 + (unat b2 - 0x80)"
  shows "valid_rune r" "utf8_enc_valid r = [b0, b1, b2]"
proof -
  have c: "unat b1 - 0x80 < 64" "unat b2 - 0x80 < 64"
    using b1 b2 by (auto simp: cont_def split: if_splits)
  have lo: "0x800 \<le> r" and hi: "r < 0x10000"
    using b0 b1 c r by (auto simp: cont_def split: if_splits)
  have "\<not> surrogate r"
    using b0 b1 c r by (auto simp: cont_def surrogate_def split: if_splits)
  with hi show "valid_rune r" by (simp add: valid_rune_def)
  have "r div 64 = (unat b0 - 0xE0) * 64 + (unat b1 - 0x80)" "r mod 64 = unat b2 - 0x80"
    unfolding r by (rule glue64 [OF c(2)])+
  with lo hi b0 b1 b2 c show "utf8_enc_valid r = [b0, b1, b2]"
    by (simp add: utf8_enc_valid_def cont_def of_nat_byte_eq del: of_nat_add split: if_splits)
qed

lemma utf8_first_4:
  assumes b0: "0xF0 \<le> unat b0" "unat b0 \<le> 0xF4"
    and b1: "cont (if unat b0 = 0xF0 then 0x90 else 0x80) (if unat b0 = 0xF4 then 0x8F else 0xBF) b1"
    and b2: "cont 0x80 0xBF b2" and b3: "cont 0x80 0xBF b3"
    and r: "r = (((unat b0 - 0xF0) * 64 + (unat b1 - 0x80)) * 64 + (unat b2 - 0x80)) * 64
               + (unat b3 - 0x80)"
  shows "valid_rune r" "utf8_enc_valid r = [b0, b1, b2, b3]"
proof -
  have c: "unat b1 - 0x80 < 64" "unat b2 - 0x80 < 64" "unat b3 - 0x80 < 64"
    using b1 b2 b3 by (auto simp: cont_def split: if_splits)
  define x y z w where xyzw: "x = unat b0 - 0xF0" "y = unat b1 - 0x80" "z = unat b2 - 0x80"
    "w = unat b3 - 0x80"
  have y: "x = 0 \<Longrightarrow> 16 \<le> y" "x = 4 \<Longrightarrow> y \<le> 15" "x \<le> 4"
    using b0 b1 by (auto simp: cont_def xyzw split: if_splits)
  have rx: "r = ((x * 64 + y) * 64 + z) * 64 + w" by (simp only: r xyzw)
  have lo: "0x10000 \<le> r" using y(1) unfolding rx by (cases "x = 0") auto
  have hi: "r \<le> 0x10FFFF"
  proof (cases "x = 4")
    case True
    then show ?thesis using y c unfolding rx xyzw(2-4) [symmetric] by simp
  next
    case False
    then have "x \<le> 3" using y by simp
    then show ?thesis using c unfolding rx xyzw(2-4) [symmetric] by simp
  qed
  show "valid_rune r" using lo hi by (simp add: valid_rune_def surrogate_def)
  have d: "r div 64 = ((unat b0 - 0xF0) * 64 + (unat b1 - 0x80)) * 64 + (unat b2 - 0x80)"
    "r mod 64 = unat b3 - 0x80"
    unfolding r by (rule glue64 [OF c(3)])+
  have e: "r div 64 div 64 = (unat b0 - 0xF0) * 64 + (unat b1 - 0x80)"
    "r div 64 mod 64 = unat b2 - 0x80"
    unfolding d by (rule glue64 [OF c(2)])+
  have f: "r div 64 div 64 div 64 = unat b0 - 0xF0"
    "r div 64 div 64 mod 64 = unat b1 - 0x80"
    unfolding e by (rule glue64 [OF c(1)])+
  have g: "of_nat (0xF0 + (unat b0 - 0xF0)) = b0" "of_nat (0x80 + (unat b1 - 0x80)) = b1"
    "of_nat (0x80 + (unat b2 - 0x80)) = b2" "of_nat (0x80 + (unat b3 - 0x80)) = b3"
    using b0 b1 b2 b3 by (auto simp: cont_def of_nat_byte_eq simp del: of_nat_add split: if_splits)
  have "\<not> r < 0x80" "\<not> r < 0x800" "\<not> r < 0x10000" using lo by simp_all
  then show "utf8_enc_valid r = [b0, b1, b2, b3]"
    by (simp only: utf8_enc_valid_def if_False d(2) e(2) f g)
qed

lemma utf8_first_enc:
  assumes "utf8_first s = Some (r, n)"
  shows "valid_rune r \<and> utf8_enc r = take n s"
proof -
  obtain b0 t where s: "s = b0 # t" using assms by (cases s) (auto simp: utf8_first_def)
  let ?x = "unat b0"
  consider "?x < 0x80" | "0xC2 \<le> ?x \<and> ?x \<le> 0xDF" | "0xE0 \<le> ?x \<and> ?x \<le> 0xEF"
    | "0xF0 \<le> ?x \<and> ?x \<le> 0xF4"
    using assms by (fastforce simp: s utf8_first_def Let_def split: if_splits)
  then have "valid_rune r \<and> utf8_enc_valid r = take n s"
  proof cases
    case 1
    then show ?thesis
      using assms by (auto simp: s utf8_first_def utf8_enc_valid_def valid_rune_def surrogate_def)
  next
    case 2
    then show ?thesis
      using assms utf8_first_2 [of b0]
      by (auto simp: s utf8_first_def Let_def split: list.splits if_splits)
  next
    case 3
    then show ?thesis
      using assms utf8_first_3 [of b0]
      by (auto simp: s utf8_first_def Let_def simp del: glue64 split: list.splits if_splits)
  next
    case 4
    then show ?thesis
      using assms utf8_first_4 [of b0]
      by (auto simp: s utf8_first_def Let_def simp del: glue64 split: list.splits if_splits)
  qed
  then show ?thesis by (simp add: utf8_enc_def)
qed

text \<open>Conversely the encoding of a valid rune decodes to it, whatever follows.\<close>

lemma unat_of_nat_byte: "n < 256 \<Longrightarrow> unat (of_nat n :: byte) = n"
  by (simp add: unat_of_nat take_bit_eq_mod)

lemma utf8_first_bytes_3:
  assumes "q < 16" "q = 0 \<longrightarrow> 0x20 \<le> z" "q = 13 \<longrightarrow> z < 0x20" "z < 64" "w < 64"
  shows "utf8_first (of_nat (0xE0 + q) # of_nat (0x80 + z) # of_nat (0x80 + w) # t)
         = Some ((q * 64 + z) * 64 + w, 3)"
  using assms
  by (auto simp: utf8_first_def Let_def cont_def unat_of_nat_byte simp del: of_nat_add)

lemma utf8_first_bytes_4:
  assumes "x \<le> 4" "x = 0 \<longrightarrow> 0x10 \<le> y" "x = 4 \<longrightarrow> y < 0x10" "y < 64" "z < 64" "w < 64"
  shows "utf8_first (of_nat (0xF0 + x) # of_nat (0x80 + y) # of_nat (0x80 + z)
           # of_nat (0x80 + w) # t)
         = Some (((x * 64 + y) * 64 + z) * 64 + w, 4)"
  using assms
  by (auto simp: utf8_first_def Let_def cont_def unat_of_nat_byte simp del: of_nat_add)

lemma utf8_first_of_enc_3:
  assumes r: "0x800 \<le> r" "r < 0x10000" "\<not> surrogate r"
  shows "utf8_first (utf8_enc_valid r @ t) = Some (r, 3)"
proof -
  define p q z w where pq: "p = r div 64" "q = p div 64" "z = p mod 64" "w = r mod 64"
  have rp: "r = p * 64 + w" and pq': "p = q * 64 + z" by (simp_all add: pq)
  have z: "z < 64" and w: "w < 64" by (simp_all add: pq)
  have p: "0x20 \<le> p" "p < 0x400" using r rp w by linarith+
  then have q: "q < 16" using z pq' by linarith
  have c: "q = 0 \<longrightarrow> 0x20 \<le> z" using p pq' by simp
  have d: "q = 13 \<longrightarrow> z < 0x20"
  proof (rule ccontr)
    assume "\<not> (q = 13 \<longrightarrow> z < 0x20)"
    then have "0x360 \<le> p" "p < 0x380" using z pq' by simp_all
    then have "0xD800 \<le> r" "r \<le> 0xDFFF" using rp w by linarith+
    with r(3) show False by (simp add: surrogate_def)
  qed
  have "\<not> r < 0x80" "\<not> r < 0x800" using r(1) by simp_all
  then have "utf8_enc_valid r = [of_nat (0xE0 + q), of_nat (0x80 + z), of_nat (0x80 + w)]"
    using r(2) by (simp only: utf8_enc_valid_def if_False if_True pq)
  then show ?thesis
    using utf8_first_bytes_3 [OF q c d z w, of t] by (simp only: append.simps rp [symmetric] pq' [symmetric])
qed

lemma utf8_first_of_enc_4:
  assumes r: "0x10000 \<le> r" "r \<le> 0x10FFFF"
  shows "utf8_first (utf8_enc_valid r @ t) = Some (r, 4)"
proof -
  define p q x y z w where
    pq: "p = r div 64" "q = p div 64" "x = q div 64" "y = q mod 64" "z = p mod 64" "w = r mod 64"
  have rp: "r = p * 64 + w" and pq': "p = q * 64 + z" and qx: "q = x * 64 + y"
    by (simp_all add: pq)
  have y: "y < 64" and z: "z < 64" and w: "w < 64" by (simp_all add: pq)
  have p: "0x400 \<le> p" "p < 0x4400" using r rp w by linarith+
  have q: "0x10 \<le> q" "q < 0x110" using p pq' z by linarith+
  have x: "x \<le> 4" using q qx y by linarith
  have c: "x = 0 \<longrightarrow> 0x10 \<le> y" "x = 4 \<longrightarrow> y < 0x10" using q qx by simp_all
  have "\<not> r < 0x80" "\<not> r < 0x800" "\<not> r < 0x10000" using r(1) by simp_all
  then have "utf8_enc_valid r =
      [of_nat (0xF0 + x), of_nat (0x80 + y), of_nat (0x80 + z), of_nat (0x80 + w)]"
    by (simp only: utf8_enc_valid_def if_False pq)
  then show ?thesis
    using utf8_first_bytes_4 [OF x c y z w, of t]
    by (simp only: append.simps rp [symmetric] pq' [symmetric] qx [symmetric])
qed

lemma utf8_first_of_enc:
  assumes "valid_rune r"
  shows "utf8_first (utf8_enc r @ t) = Some (r, length (utf8_enc r))"
proof -
  have v: "r \<le> 0x10FFFF" "\<not> surrogate r" using assms by (auto simp: valid_rune_def)
  consider "r < 0x80" | "0x80 \<le> r \<and> r < 0x800" | "0x800 \<le> r \<and> r < 0x10000" | "0x10000 \<le> r"
    by linarith
  then have "utf8_first (utf8_enc_valid r @ t) = Some (r, length (utf8_enc_valid r))"
  proof cases
    case 1
    then show ?thesis by (simp add: utf8_first_def utf8_enc_valid_def unat_of_nat_byte)
  next
    case 2
    then have "r div 64 < 32 \<and> 2 \<le> r div 64" by auto
    with 2 show ?thesis
      by (simp add: utf8_first_def utf8_enc_valid_def Let_def cont_def unat_of_nat_byte
          del: of_nat_add)
  next
    case 3
    with v utf8_first_of_enc_3 [of r t] show ?thesis by (simp add: utf8_enc_valid_def)
  next
    case 4
    with v utf8_first_of_enc_4 [of r t] show ?thesis by (simp add: utf8_enc_valid_def)
  qed
  with assms show ?thesis by (simp add: utf8_enc_def)
qed

lemma utf8_enc_ne [simp]: "utf8_enc r \<noteq> []"
  by (simp add: utf8_enc_def utf8_enc_valid_def)

lemma runes_of_enc:
  assumes "valid_rune r"
  shows "runes_of (utf8_enc r @ t) = r # runes_of t"
proof -
  obtain b s where bs: "utf8_enc r = b # s" by (cases "utf8_enc r") auto
  have "utf8_first (b # s @ t) = Some (r, Suc (length s))"
    using utf8_first_of_enc [OF assms, of t] by (simp add: bs)
  then show ?thesis by (simp add: bs)
qed

lemma runes_of_string:
  "\<forall>r \<in> set rs. valid_rune r \<Longrightarrow> runes_of (string_of_runes rs) = rs"
  by (induction rs) (auto simp: runes_of_enc)

lemma string_of_runes_of:
  "rune_error \<notin> set (runes_of s) \<Longrightarrow> string_of_runes (runes_of s) = s"
proof (induction s rule: runes_of.induct)
  case 1
  then show ?case by simp
next
  case (2 b s)
  show ?case
  proof (cases "utf8_first (b # s)")
    case None
    with "2.prems" show ?thesis by simp
  next
    case (Some p)
    then obtain r n where p: "utf8_first (b # s) = Some (r, n)" by (cases p) auto
    then have n: "0 < n" and e: "utf8_enc r = take n (b # s)"
      using utf8_first_width utf8_first_enc by blast+
    have "string_of_runes (runes_of (drop (n - 1) s)) = drop (n - 1) s"
      using "2.IH"(2) [OF p refl] "2.prems" p by auto
    moreover have "take n (b # s) @ drop (n - 1) s = b # s"
      using n by (cases n) auto
    ultimately show ?thesis using p e by simp
  qed
qed

lemma utf8_valid_string_of_runes [simp]: "utf8_valid (string_of_runes rs)"
proof (induction rs)
  case Nil
  then show ?case by simp
next
  case (Cons r rs)
  let ?r = "if valid_rune r then r else rune_error"
  have v: "valid_rune ?r" by (simp add: valid_rune_def rune_error_def surrogate_def)
  have e: "utf8_enc r = utf8_enc ?r"
    using v by (simp add: utf8_enc_def)
  obtain b s where bs: "utf8_enc ?r = b # s" by (cases "utf8_enc ?r") auto
  have "utf8_first (b # s @ string_of_runes rs) = Some (?r, Suc (length s))"
    using utf8_first_of_enc [OF v, of "string_of_runes rs"] by (simp only: bs) simp
  with Cons show ?case by (simp add: e bs)
qed

end
