(* ===== verification/Go_Text.thy ===== *)
theory Go_Text
  imports Go_Strings
begin

text \<open>
  Text helpers of the Go standard library over byte strings: hexadecimal, decimal, ASCII
  case, white-space trimming and UTF-16.
\<close>

subsection \<open>ASCII classes\<close>

definition is_digit :: "byte \<Rightarrow> bool" where
  "is_digit b \<longleftrightarrow> 48 \<le> unat b \<and> unat b \<le> 57"

definition ascii_upper :: "byte \<Rightarrow> byte" where
  "ascii_upper b = (if 97 \<le> unat b \<and> unat b \<le> 122 then b - 32 else b)"

definition ascii_lower :: "byte \<Rightarrow> byte" where
  "ascii_lower b = (if 65 \<le> unat b \<and> unat b \<le> 90 then b + 32 else b)"

definition is_ascii :: "gostring \<Rightarrow> bool" where
  "is_ascii s \<longleftrightarrow> list_all (\<lambda>b. unat b < 128) s"

text \<open>
  \<open>strings.ToUpper\<close> and \<open>strings.ToLower\<close>: byte by byte on ASCII strings, rune by rune
  with the Unicode case table (the argument) otherwise.
\<close>

definition to_case :: "(byte \<Rightarrow> byte) \<Rightarrow> (rune \<Rightarrow> rune) \<Rightarrow> gostring \<Rightarrow> gostring" where
  "to_case f table s =
     (if is_ascii s then map f s else string_of_runes (map table (runes_of s)))"

abbreviation to_upper :: "(rune \<Rightarrow> rune) \<Rightarrow> gostring \<Rightarrow> gostring" where
  "to_upper table s \<equiv> to_case ascii_upper table s"

abbreviation to_lower :: "(rune \<Rightarrow> rune) \<Rightarrow> gostring \<Rightarrow> gostring" where
  "to_lower table s \<equiv> to_case ascii_lower table s"

subsection \<open>Hexadecimal text\<close>

definition hex_digit :: "nat \<Rightarrow> byte" where
  "hex_digit n = (if n < 10 then of_nat (48 + n) else of_nat (87 + n))"

definition hex_encode :: "byte list \<Rightarrow> gostring" where
  "hex_encode bs = concat (map (\<lambda>b. [hex_digit (unat b div 16), hex_digit (unat b mod 16)]) bs)"

definition hex_val :: "byte \<Rightarrow> nat option" where
  "hex_val b =
     (let x = unat b in
      if 48 \<le> x \<and> x \<le> 57 then Some (x - 48)
      else if 97 \<le> x \<and> x \<le> 102 then Some (x - 87)
      else if 65 \<le> x \<and> x \<le> 70 then Some (x - 55)
      else None)"

fun hex_decode :: "gostring \<Rightarrow> byte list option" where
  "hex_decode [] = Some []"
| "hex_decode [_] = None"
| "hex_decode (a # b # s) =
     (case (hex_val a, hex_val b) of
        (Some h, Some l) \<Rightarrow> map_option ((#) (of_nat (16 * h + l))) (hex_decode s)
      | _ \<Rightarrow> None)"

definition hex_upper :: "byte list \<Rightarrow> gostring" where
  "hex_upper bs = map ascii_upper (hex_encode bs)"

lemma unat_ascii_upper_hex [simp]:
  "n < 16 \<Longrightarrow> unat (ascii_upper (hex_digit n)) = (if n < 10 then 48 + n else 55 + n)"
proof -
  assume n: "n < 16"
  show ?thesis
  proof (cases "n < 10")
    case True
    then show ?thesis
      by (simp add: ascii_upper_def hex_digit_def unat_of_nat_byte del: of_nat_add)
  next
    case False
    then have u: "unat (hex_digit n) = 87 + n"
      using n by (simp add: hex_digit_def unat_of_nat_byte del: of_nat_add)
    then have "unat (hex_digit n - 32) = 55 + n"
      by (simp add: unat_sub word_le_nat_alt)
    with False n u show ?thesis by (simp add: ascii_upper_def)
  qed
qed

lemma hex_val_upper [simp]: "n < 16 \<Longrightarrow> hex_val (ascii_upper (hex_digit n)) = Some n"
  by (auto simp: hex_val_def Let_def)

lemma nibble_join [simp]: "(of_nat (16 * (unat (b :: byte) div 16) + unat b mod 16) :: byte) = b"
  by (simp del: of_nat_add of_nat_mult)

lemma unat_div_16 [simp]: "unat (b :: byte) div 16 < 16"
  using unat_byte [of b] by (simp only: less_mult_imp_div_less)

lemma unat_div_16_le [simp]: "unat (b :: byte) div 16 \<le> 15"
  using unat_div_16 [of b] by linarith

lemma hex_upper_simps [simp]:
  "hex_upper [] = []"
  "hex_upper (b # bs) = ascii_upper (hex_digit (unat b div 16))
     # ascii_upper (hex_digit (unat b mod 16)) # hex_upper bs"
  "hex_upper (bs @ cs) = hex_upper bs @ hex_upper cs"
  by (simp_all add: hex_upper_def hex_encode_def)

lemma hex_decode_upper [simp]: "hex_decode (hex_upper bs) = Some bs"
  by (induction bs) (simp_all del: of_nat_add of_nat_mult)

lemma length_hex_upper [simp]: "length (hex_upper bs) = 2 * length bs"
  by (induction bs) simp_all

text \<open>Upper-case hexadecimal is printable ASCII, which case mapping and trimming keep.\<close>

definition hex_text :: "gostring \<Rightarrow> bool" where
  "hex_text s \<longleftrightarrow> list_all (\<lambda>b. 48 \<le> unat b \<and> unat b \<le> 70) s"

lemma hex_text_upper [simp]: "hex_text (hex_upper bs)"
  by (induction bs) (auto simp: hex_text_def)

lemma to_upper_hex_text: "hex_text s \<Longrightarrow> to_upper table s = s"
proof -
  assume s: "hex_text s"
  then have "is_ascii s" by (auto simp: hex_text_def is_ascii_def list_all_iff)
  moreover have "map ascii_upper s = s"
    using s by (intro map_idI) (auto simp: hex_text_def ascii_upper_def list_all_iff)
  ultimately show ?thesis by (simp add: to_case_def)
qed

lemma to_upper_hex_encode: "to_upper table (hex_encode bs) = hex_upper bs"
proof -
  have "n < 16 \<Longrightarrow> unat (hex_digit n) < 128" for n
    by (auto simp: hex_digit_def unat_of_nat_byte simp del: of_nat_add)
  then have "list_all (\<lambda>b. unat b < 128) (hex_encode bs)"
    by (induction bs) (auto simp: hex_encode_def)
  then show ?thesis by (simp add: to_case_def is_ascii_def hex_upper_def)
qed

subsection \<open>Decimal text\<close>

fun itoa :: "nat \<Rightarrow> gostring" where
  "itoa n = (if n < 10 then [of_nat (48 + n)] else itoa (n div 10) @ [of_nat (48 + n mod 10)])"

declare itoa.simps [simp del]

lemma is_digit_of_nat: "n < 10 \<Longrightarrow> is_digit (of_nat (48 + n))"
  by (simp add: is_digit_def unat_of_nat_byte del: of_nat_add)

lemma itoa_digits: "list_all is_digit (itoa n)"
proof (induction n rule: itoa.induct)
  case (1 n)
  then show ?case
    by (subst itoa.simps) (simp add: is_digit_of_nat del: of_nat_add)
qed

lemma itoa_ne [simp]: "itoa n \<noteq> []"
  by (subst itoa.simps) simp

text \<open>Nibbles, and digits as nibbles.\<close>

lemma nibble_bits: "unat (x :: byte) < 16 \<Longrightarrow> bit x n \<Longrightarrow> n < 4"
proof -
  assume "unat x < 16" and b: "bit x n"
  then have "unat (take_bit 4 x) = unat x"
    by (simp add: unsigned_take_bit_eq take_bit_nat_eq_self)
  then have "take_bit 4 x = x" by (simp only: unsigned_word_eqI)
  with b have "bit (take_bit 4 x) n" by simp
  then show "n < 4" by (simp add: bit_simps)
qed

lemma and_0f: "(x :: byte) AND 0x0f = take_bit 4 x"
  by (simp add: take_bit_eq_mask mask_eq_exp_minus_1)

lemma nibbles_join:
  assumes "unat (x :: byte) < 16" "unat (y :: byte) < 16"
  shows "(push_bit 4 y OR x) AND 0x0f = x" "drop_bit 4 (push_bit 4 y OR x) = y"
proof -
  show "(push_bit 4 y OR x) AND 0x0f = x"
    unfolding and_0f by (rule bit_word_eqI) (use nibble_bits [OF assms(1)] in \<open>auto simp: bit_simps\<close>)
  show "drop_bit 4 (push_bit 4 y OR x) = y"
    by (rule bit_word_eqI)
      (use nibble_bits [OF assms(1)] nibble_bits [OF assms(2)] in \<open>auto simp: bit_simps\<close>)
qed

lemma is_digit_minus:
  assumes "is_digit b"
  shows "unat (b - 48) < 16" "b - 48 \<le> 9" "48 + (b - 48) = b"
proof -
  have "unat (b - 48) = unat b - 48"
    using assms by (simp add: is_digit_def unat_sub word_le_nat_alt)
  with assms show "unat (b - 48) < 16" "b - 48 \<le> 9"
    by (auto simp: is_digit_def word_le_nat_alt)
qed simp

subsection \<open>White space\<close>

text \<open>\<open>unicode.IsSpace\<close>: the code points with the property White\_Space.\<close>

definition is_space :: "rune \<Rightarrow> bool" where
  "is_space r \<longleftrightarrow>
     9 \<le> r \<and> r \<le> 13 \<or> r = 32 \<or> r = 0x85 \<or> r = 0xA0 \<or> r = 0x1680
     \<or> 0x2000 \<le> r \<and> r \<le> 0x200A \<or> r = 0x2028 \<or> r = 0x2029 \<or> r = 0x202F \<or> r = 0x205F
     \<or> r = 0x3000"

definition space_prefix :: "gostring \<Rightarrow> nat" where
  "space_prefix s =
     (case utf8_first s of Some (r, n) \<Rightarrow> if is_space r then n else 0 | None \<Rightarrow> 0)"

function trim_left :: "gostring \<Rightarrow> gostring" where
  "trim_left s = (if space_prefix s = 0 then s else trim_left (drop (space_prefix s) s))"
  by pat_completeness auto
termination
proof (relation "measure length")
  fix s assume n: "space_prefix s \<noteq> 0"
  then have "s \<noteq> []" by (auto simp: space_prefix_def utf8_first_def)
  with n show "(drop (space_prefix s) s, s) \<in> measure length" by simp
qed simp

declare trim_left.simps [simp del]

text \<open>
  The last rune of a string is white space exactly if the string ends in the encoding of a
  white-space rune, which takes at most three bytes.
\<close>

definition space_suffix :: "gostring \<Rightarrow> nat" where
  "space_suffix s =
     (case find (\<lambda>n. n \<le> length s \<and>
         (case utf8_first (drop (length s - n) s) of
            Some (r, k) \<Rightarrow> k = n \<and> is_space r
          | None \<Rightarrow> False)) [1, 2, 3] of
        Some n \<Rightarrow> n
      | None \<Rightarrow> 0)"

function trim_right :: "gostring \<Rightarrow> gostring" where
  "trim_right s =
     (if space_suffix s = 0 then s else trim_right (take (length s - space_suffix s) s))"
  by pat_completeness auto
termination
proof (relation "measure length")
  fix s assume n: "space_suffix s \<noteq> 0"
  then have "s \<noteq> []"
    by (auto simp: space_suffix_def utf8_first_def split: if_splits option.splits)
  with n show "(take (length s - space_suffix s) s, s) \<in> measure length" by simp
qed simp

declare trim_right.simps [simp del]

definition trim_space :: "gostring \<Rightarrow> gostring" where
  "trim_space s = trim_right (trim_left s)"

text \<open>A string of graphic ASCII characters is not changed by trimming.\<close>

definition graphic :: "gostring \<Rightarrow> bool" where
  "graphic s \<longleftrightarrow> list_all (\<lambda>b. 32 < unat b \<and> unat b < 127) s"

lemma utf8_first_graphic:
  "graphic s \<Longrightarrow> utf8_first s = Some (r, n) \<Longrightarrow> 32 < r \<and> r < 127"
  by (cases s) (auto simp: graphic_def utf8_first_def)

lemma graphic_drop: "graphic s \<Longrightarrow> graphic (drop n s)"
  unfolding graphic_def by (metis append_take_drop_id list_all_append)

lemma graphic_not_space: "32 < r \<Longrightarrow> r < 127 \<Longrightarrow> \<not> is_space r"
  by (auto simp: is_space_def)

lemma trim_left_graphic: "graphic s \<Longrightarrow> trim_left s = s"
  by (subst trim_left.simps)
    (auto simp: space_prefix_def graphic_not_space dest: utf8_first_graphic split: option.splits)

lemma trim_right_graphic: "graphic s \<Longrightarrow> trim_right s = s"
proof -
  assume s: "graphic s"
  have "utf8_first (drop k s) = Some (r, n) \<Longrightarrow> \<not> is_space r" for k r n
    using utf8_first_graphic [OF graphic_drop [OF s]] graphic_not_space by blast
  then have "space_suffix s = 0"
    by (auto simp: space_suffix_def split: option.splits)
  then show ?thesis by (subst trim_right.simps) simp
qed

lemma trim_space_graphic [simp]: "graphic s \<Longrightarrow> trim_space s = s"
  by (simp add: trim_space_def trim_left_graphic trim_right_graphic)

lemma hex_text_graphic: "hex_text s \<Longrightarrow> graphic s"
  by (auto simp: hex_text_def graphic_def list_all_iff)

text \<open>The runes of an ASCII string are its bytes.\<close>

lemma runes_of_ascii: "is_ascii s \<Longrightarrow> runes_of s = map unat s"
  by (induction s) (auto simp: is_ascii_def utf8_first_def)

subsection \<open>UTF-16\<close>

fun utf16_encode :: "rune list \<Rightarrow> 16 word list" where
  "utf16_encode [] = []"
| "utf16_encode (r # rs) =
     (if r < 0xD800 \<or> 0xE000 \<le> r \<and> r < 0x10000 then [of_nat r]
      else if 0x10000 \<le> r \<and> r \<le> 0x10FFFF then
        [of_nat (0xD800 + (r - 0x10000) div 1024), of_nat (0xDC00 + (r - 0x10000) mod 1024)]
      else [of_nat rune_error]) @ utf16_encode rs"

definition high_surrogate :: "16 word \<Rightarrow> bool" where
  "high_surrogate u \<longleftrightarrow> 0xD800 \<le> unat u \<and> unat u \<le> 0xDBFF"

definition low_surrogate :: "16 word \<Rightarrow> bool" where
  "low_surrogate u \<longleftrightarrow> 0xDC00 \<le> unat u \<and> unat u \<le> 0xDFFF"

fun utf16_decode :: "16 word list \<Rightarrow> rune list" where
  "utf16_decode [] = []"
| "utf16_decode [u] = [if high_surrogate u \<or> low_surrogate u then rune_error else unat u]"
| "utf16_decode (u # v # us) =
     (if high_surrogate u \<and> low_surrogate v then
        ((unat u - 0xD800) * 1024 + (unat v - 0xDC00) + 0x10000) # utf16_decode us
      else if high_surrogate u \<or> low_surrogate u then rune_error # utf16_decode (v # us)
      else unat u # utf16_decode (v # us))"

lemma unat_of_nat_16: "n < 65536 \<Longrightarrow> unat (of_nat n :: 16 word) = n"
  by (simp add: unat_of_nat take_bit_eq_mod)

lemma utf16_decode_plain:
  "\<not> high_surrogate u \<Longrightarrow> \<not> low_surrogate u \<Longrightarrow> utf16_decode (u # us) = unat u # utf16_decode us"
  by (cases us) auto

lemma utf16_decode_encode:
  "\<forall>r \<in> set rs. valid_rune r \<Longrightarrow> utf16_decode (utf16_encode rs) = rs"
proof (induction rs)
  case Nil
  then show ?case by simp
next
  case (Cons r rs)
  then have v: "valid_rune r" and IH: "utf16_decode (utf16_encode rs) = rs" by auto
  show ?case
  proof (cases "r < 0x10000")
    case True
    with v have b: "r < 0xD800 \<or> 0xE000 \<le> r" by (auto simp: valid_rune_def surrogate_def)
    with True have "\<not> high_surrogate (of_nat r)" "\<not> low_surrogate (of_nat r)"
      by (auto simp: high_surrogate_def low_surrogate_def unat_of_nat_16)
    with True b IH show ?thesis by (auto simp: utf16_decode_plain unat_of_nat_16)
  next
    case False
    let ?q = "(r - 0x10000) div 1024" and ?m = "(r - 0x10000) mod 1024"
    have q: "?q < 1024" using v False by (auto simp: valid_rune_def)
    have m: "?m \<le> 1023" by (simp add: less_Suc_eq_le [symmetric])
    have "?q * 1024 + ?m + 0x10000 = r" using False by simp
    moreover have "r \<le> 1114111" using v by (simp add: valid_rune_def)
    ultimately show ?thesis
      using False q m v IH
      by (simp add: high_surrogate_def low_surrogate_def unat_of_nat_16 valid_rune_def
          del: of_nat_add)
  qed
qed

lemma high_low_disjoint [simp]: "high_surrogate u \<Longrightarrow> \<not> low_surrogate u"
  by (auto simp: high_surrogate_def low_surrogate_def)

text \<open>Decoding commutes with any cut that does not separate a surrogate pair.\<close>

lemma utf16_decode_append:
  assumes "us = [] \<or> vs = [] \<or> \<not> (high_surrogate (last us) \<and> low_surrogate (hd vs))"
  shows "utf16_decode (us @ vs) = utf16_decode us @ utf16_decode vs"
  using assms
proof (induction us rule: utf16_decode.induct)
  case 1
  then show ?case by simp
next
  case (2 u)
  then show ?case by (cases vs) auto
next
  case (3 u v us)
  then show ?case by (cases us) auto
qed

subsection \<open>Character tables and transcoders\<close>

text \<open>
  What the text heuristics take from outside the repository: the case, printability and
  Han-script tables of Go's \<open>unicode\<close> package, the GB18030 decoder of
  \<open>golang.org/x/text\<close> (\<open>None\<close> is its error) and the GSM-7 decoder with national
  language tables of \<open>warthog618/sms\<close> (locking and shift table; text and success).
\<close>

record text_env =
  u_upper :: "rune \<Rightarrow> rune"
  u_lower :: "rune \<Rightarrow> rune"
  u_print :: "rune \<Rightarrow> bool"
  u_han :: "rune \<Rightarrow> bool"
  gb18030 :: "byte list \<Rightarrow> gostring option"
  gsm7_national :: "byte list \<Rightarrow> nat option \<Rightarrow> nat option \<Rightarrow> gostring \<times> bool"

text \<open>The share of printable runes that both \<open>readableText\<close> functions count.\<close>

definition printable_rune :: "text_env \<Rightarrow> rune \<Rightarrow> bool" where
  "printable_rune env r \<longleftrightarrow> u_print env r \<or> r = 10 \<or> r = 13 \<or> r = 9"

definition mostly_printable :: "text_env \<Rightarrow> gostring \<Rightarrow> bool" where
  "mostly_printable env text \<longleftrightarrow>
     length (filter (printable_rune env) (runes_of text)) * 100 \<ge> length (runes_of text) * 90"

definition has_prefix :: "gostring \<Rightarrow> gostring \<Rightarrow> bool" where
  "has_prefix s p \<longleftrightarrow> take (length p) s = p"

text \<open>\<open>bytes.IndexByte\<close> and \<open>bytes.Index\<close>; \<open>None\<close> is \<open>-1\<close>.\<close>

fun index_byte :: "byte list \<Rightarrow> byte \<Rightarrow> nat option" where
  "index_byte [] c = None"
| "index_byte (b # bs) c = (if b = c then Some 0 else map_option Suc (index_byte bs c))"

fun index_sub :: "byte list \<Rightarrow> byte list \<Rightarrow> nat option" where
  "index_sub [] p = (if p = [] then Some 0 else None)"
| "index_sub (b # bs) p =
     (if has_prefix (b # bs) p then Some 0 else map_option Suc (index_sub bs p))"

lemma index_byte_Some: "index_byte bs c = Some i \<Longrightarrow> i < length bs \<and> bs ! i = c"
  by (induction bs arbitrary: i) (auto split: if_splits)

lemma index_sub_Some: "index_sub bs p = Some i \<Longrightarrow> i \<le> length bs \<and> take (length p) (drop i bs) = p"
  by (induction bs arbitrary: i) (auto simp: has_prefix_def split: if_splits)

text \<open>
  The tables of a platform that knows ASCII case and takes every rune from space on for
  printable; the witnesses of this development decode with it.
\<close>

definition plain_env :: text_env where
  "plain_env =
     \<lparr>u_upper = (\<lambda>r. if 97 \<le> r \<and> r \<le> 122 then r - 32 else r),
      u_lower = (\<lambda>r. if 65 \<le> r \<and> r \<le> 90 then r + 32 else r),
      u_print = (\<lambda>r. 32 \<le> r), u_han = (\<lambda>r. 0x4E00 \<le> r \<and> r \<le> 0x9FFF),
      gb18030 = (\<lambda>_. None), gsm7_national = (\<lambda>_ _ _. ([], False))\<rparr>"

end
