(* ===== verification/Gsm7.thy ===== *)
theory Gsm7
  imports Go_Text
begin

text \<open>
  The GSM 7-bit default alphabet of \<open>internal/device/sms_pdu.go\<close>: the two tables, the
  encoder map built from them, \<open>encodeGSM7\<close>, \<open>canSendDirectGSM7\<close>, \<open>decodeGSM7\<close>,
  and the septet packing of \<open>packSeptets\<close> and \<open>unpackSeptets\<close>.
\<close>

subsection \<open>Tables\<close>

text \<open>Code points of the 128 entries, in code order, sixteen to a row.\<close>

definition gsm7DefaultAlphabet :: "rune list" where
  "gsm7DefaultAlphabet =
  [64, 163, 36, 165, 232, 233, 249, 236, 242, 199, 10, 216, 248, 13, 197, 229,
   916, 95, 934, 915, 923, 937, 928, 936, 931, 920, 926, 27, 198, 230, 223, 201,
   32, 33, 34, 35, 164, 37, 38, 39, 40, 41, 42, 43, 44, 45, 46, 47,
   48, 49, 50, 51, 52, 53, 54, 55, 56, 57, 58, 59, 60, 61, 62, 63,
   161, 65, 66, 67, 68, 69, 70, 71, 72, 73, 74, 75, 76, 77, 78, 79,
   80, 81, 82, 83, 84, 85, 86, 87, 88, 89, 90, 196, 214, 209, 220, 167,
   191, 97, 98, 99, 100, 101, 102, 103, 104, 105, 106, 107, 108, 109, 110, 111,
   112, 113, 114, 115, 116, 117, 118, 119, 120, 121, 122, 228, 246, 241, 252, 224]"

definition gsm7ExtensionAlphabet :: "(byte \<times> rune) list" where
  "gsm7ExtensionAlphabet =
    [(0x0a, 12), (0x14, 94), (0x28, 123), (0x29, 125), (0x2f, 92),
     (0x3c, 91), (0x3d, 126), (0x3e, 93), (0x40, 124), (0x65, 8364)]"

text \<open>
  The encoder map: the loop over the default alphabet skips the escape code, the loop over
  the extension table then adds the two-septet entries.  A later assignment to a key wins,
  so the association list holds the entries in reverse order of assignment.
\<close>

definition gsm7Encoder_entries :: "(rune \<times> byte list) list" where
  "gsm7Encoder_entries =
     map (\<lambda>(code, r). (r, [0x1b, code])) gsm7ExtensionAlphabet
     @ rev (map (\<lambda>(code, r). (r, [of_nat code]))
         (filter (\<lambda>(code, r). code \<noteq> 0x1b) (enumerate 0 gsm7DefaultAlphabet)))"

definition gsm7Encoder :: "rune \<Rightarrow> byte list option" where
  "gsm7Encoder = map_of gsm7Encoder_entries"

subsection \<open>Text to septets\<close>

fun encodeGSM7_runes :: "rune list \<Rightarrow> byte list option" where
  "encodeGSM7_runes [] = Some []"
| "encodeGSM7_runes (c # cs) =
     (case gsm7Encoder c of
        None \<Rightarrow> None
      | Some encoded \<Rightarrow> map_option ((@) encoded) (encodeGSM7_runes cs))"

definition encodeGSM7 :: "gostring \<Rightarrow> byte list option" where
  "encodeGSM7 text = encodeGSM7_runes (runes_of text)"

definition canSendDirectGSM7 :: "gostring \<Rightarrow> bool" where
  "canSendDirectGSM7 text =
     list_all (\<lambda>c. case gsm7Encoder c of
         None \<Rightarrow> False
       | Some encoded \<Rightarrow>
           length encoded = 1 \<and> encoded ! 0 \<noteq> 0x1b \<and> c \<le> 0x7f \<and> of_nat c = encoded ! 0)
       (runes_of text)"

subsection \<open>Septets to text\<close>

datatype gsm7_err = InvalidCode | TrailingEscape | UnknownExtension byte

text \<open>The decoder returns the text read so far together with its error, if any.\<close>

fun decodeGSM7 :: "byte list \<Rightarrow> gostring \<times> gsm7_err option" where
  "decodeGSM7 [] = ([], None)"
| "decodeGSM7 (code # rest) =
     (if code \<noteq> 0x1b then
        (if unat code \<ge> length gsm7DefaultAlphabet then ([], Some InvalidCode)
         else (case decodeGSM7 rest of
             (text, e) \<Rightarrow> (utf8_enc (gsm7DefaultAlphabet ! unat code) @ text, e)))
      else
        (case rest of
           [] \<Rightarrow> ([], Some TrailingEscape)
         | ext # rest' \<Rightarrow>
             (case map_of gsm7ExtensionAlphabet ext of
                None \<Rightarrow> ([], Some (UnknownExtension ext))
              | Some c \<Rightarrow> (case decodeGSM7 rest' of (text, e) \<Rightarrow> (utf8_enc c @ text, e)))))"

definition DecodeGSM7Septets :: "gostring \<Rightarrow> gostring \<times> bool" where
  "DecodeGSM7Septets data = (case decodeGSM7 data of (text, e) \<Rightarrow> (text, e = None))"

lemma length_gsm7DefaultAlphabet [simp]: "length gsm7DefaultAlphabet = 128"
  by (simp add: gsm7DefaultAlphabet_def)

text \<open>
  What one entry of the encoder decodes to, checked on the whole table: a single septet
  that is not the escape code, or the escape code and an extension.
\<close>

definition entry_ok :: "rune \<times> byte list \<Rightarrow> bool" where
  "entry_ok p =
     (case p of (r, enc) \<Rightarrow>
        valid_rune r \<and> r \<noteq> rune_error \<and> list_all (\<lambda>b. unat b < 128) enc \<and>
        (case enc of
           [c] \<Rightarrow> c \<noteq> 0x1b \<and> gsm7DefaultAlphabet ! unat c = r
         | [e, c] \<Rightarrow> e = 0x1b \<and> c \<noteq> 0x1b \<and> map_of gsm7ExtensionAlphabet c = Some r
         | _ \<Rightarrow> False))"

lemma gsm7DefaultAlphabet_valid:
  "list_all (\<lambda>r. valid_rune r \<and> r \<noteq> rune_error) gsm7DefaultAlphabet"
  by (simp add: gsm7DefaultAlphabet_def valid_rune_def surrogate_def rune_error_def)

lemma entry_ok_default:
  assumes "code < 128" "code \<noteq> 0x1b"
  shows "entry_ok (gsm7DefaultAlphabet ! code, [of_nat code])"
proof -
  have "(of_nat code :: byte) \<noteq> 0x1b"
  proof
    assume "(of_nat code :: byte) = 0x1b"
    then have "unat (of_nat code :: byte) = unat (0x1b :: byte)" by simp
    with assms show False by (simp add: unat_of_nat_byte)
  qed
  moreover have "valid_rune (gsm7DefaultAlphabet ! code) \<and> gsm7DefaultAlphabet ! code \<noteq> rune_error"
    using gsm7DefaultAlphabet_valid assms by (simp add: list_all_length)
  ultimately show ?thesis using assms by (simp add: entry_ok_def unat_of_nat_byte)
qed

lemma entry_ok_extension:
  "(code, r) \<in> set gsm7ExtensionAlphabet \<Longrightarrow> entry_ok (r, [0x1b, code])"
  by (auto simp: gsm7ExtensionAlphabet_def entry_ok_def valid_rune_def surrogate_def rune_error_def)

lemma gsm7Encoder_entries_ok: "list_all entry_ok gsm7Encoder_entries"
  unfolding gsm7Encoder_entries_def list_all_iff
  by (auto simp: in_set_enumerate_eq intro: entry_ok_default entry_ok_extension)

lemma gsm7Encoder_entry: "gsm7Encoder r = Some enc \<Longrightarrow> entry_ok (r, enc)"
  using gsm7Encoder_entries_ok map_of_SomeD
  unfolding gsm7Encoder_def list_all_iff by fast

lemma gsm7Encoder_cases:
  assumes "gsm7Encoder r = Some enc"
  obtains (single) c where "enc = [c]" "c \<noteq> 0x1b" "unat c < 128" "gsm7DefaultAlphabet ! unat c = r"
    | (escape) c where "enc = [0x1b, c]" "c \<noteq> 0x1b" "unat c < 128"
        "map_of gsm7ExtensionAlphabet c = Some r"
  using gsm7Encoder_entry [OF assms]
  by (auto simp: entry_ok_def split: list.splits)

lemma gsm7Encoder_valid: "gsm7Encoder r = Some enc \<Longrightarrow> valid_rune r \<and> r \<noteq> rune_error"
  by (auto simp: entry_ok_def dest: gsm7Encoder_entry)

lemma gsm7Encoder_no_error [simp]: "gsm7Encoder rune_error = None"
  using gsm7Encoder_valid by (cases "gsm7Encoder rune_error") auto

lemma decodeGSM7_encoded:
  assumes "gsm7Encoder r = Some enc"
  shows "decodeGSM7 (enc @ rest) = (case decodeGSM7 rest of (text, e) \<Rightarrow> (utf8_enc r @ text, e))"
  using assms by (cases rule: gsm7Encoder_cases) auto

lemma decode_encode_runes:
  "encodeGSM7_runes rs = Some septets \<Longrightarrow> decodeGSM7 septets = (string_of_runes rs, None)"
  by (induction rs arbitrary: septets) (auto simp: decodeGSM7_encoded split: option.splits)

lemma encode_runes_no_error: "encodeGSM7_runes rs = Some septets \<Longrightarrow> rune_error \<notin> set rs"
  by (induction rs arbitrary: septets) (auto split: option.splits)

lemma encode_runes_septets:
  "encodeGSM7_runes rs = Some septets \<Longrightarrow> list_all (\<lambda>b. unat b < 128) septets"
  by (induction rs arbitrary: septets)
    (auto simp: entry_ok_def dest!: gsm7Encoder_entry split: option.splits)

lemma decode_encodeGSM7:
  "encodeGSM7 text = Some septets \<Longrightarrow> decodeGSM7 septets = (text, None)"
  unfolding encodeGSM7_def
  by (metis decode_encode_runes encode_runes_no_error string_of_runes_of)

lemma encodeGSM7_septets:
  "encodeGSM7 text = Some septets \<Longrightarrow> list_all (\<lambda>b. unat b < 128) septets"
  by (auto simp: encodeGSM7_def dest: encode_runes_septets)

lemma distinct_alphabet: "distinct (map snd gsm7ExtensionAlphabet @ gsm7DefaultAlphabet)"
  by (simp add: gsm7DefaultAlphabet_def gsm7ExtensionAlphabet_def)

text \<open>Every code of the default alphabet but the escape is the code of its character.\<close>

lemma gsm7Encoder_default:
  assumes "code < 128" "code \<noteq> 0x1b"
  shows "gsm7Encoder (gsm7DefaultAlphabet ! code) = Some [of_nat code]"
proof -
  have keys: "map fst gsm7Encoder_entries = map snd gsm7ExtensionAlphabet
      @ rev (map snd (filter (\<lambda>(code, r). code \<noteq> 0x1b) (enumerate 0 gsm7DefaultAlphabet)))"
    by (simp add: gsm7Encoder_entries_def rev_map split_def comp_def)
  have "distinct (map snd (filter (\<lambda>(code, r). code \<noteq> 0x1b) (enumerate 0 gsm7DefaultAlphabet)))"
    using distinct_alphabet by (intro distinct_map_filter) (simp only: map_snd_enumerate distinct_append)
  then have "distinct (map fst gsm7Encoder_entries)"
    using distinct_alphabet unfolding keys
    by (auto simp: in_set_enumerate_eq dest!: bspec nth_mem)
      (metis IntI length_gsm7DefaultAlphabet image_eqI nth_mem snd_conv emptyE)
  moreover have "(gsm7DefaultAlphabet ! code, [of_nat code]) \<in> set gsm7Encoder_entries"
    using assms
    by (auto simp: gsm7Encoder_entries_def in_set_enumerate_eq image_iff
        intro!: bexI [of _ "(code, gsm7DefaultAlphabet ! code)"])
  ultimately show ?thesis unfolding gsm7Encoder_def by (rule map_of_is_SomeI)
qed

lemma alphabet_bound:
  "list_all (\<lambda>r. r \<le> 8364) gsm7DefaultAlphabet"
  "list_all (\<lambda>(c, r). r \<le> 8364) gsm7ExtensionAlphabet"
  by (simp_all add: gsm7DefaultAlphabet_def gsm7ExtensionAlphabet_def)

lemma gsm7Encoder_bound:
  assumes "8364 < r"
  shows "gsm7Encoder r = None"
proof (rule ccontr)
  assume "gsm7Encoder r \<noteq> None"
  then obtain enc where "gsm7Encoder r = Some enc" by auto
  then show False
    using alphabet_bound assms
    by (cases rule: gsm7Encoder_cases) (fastforce simp: list_all_length, fastforce simp: list_all_iff dest: map_of_SomeD)
qed

end
