(* ===== verification/Sms_Types.thy ===== *)
theory Sms_Types
  imports Gsm7
begin

text \<open>
  The SMS data model of \<open>internal/device/types.go\<close> and the errors of
  \<open>internal/device/sms_pdu.go\<close>.  The string types are datatypes with the declared values;
  the constructors ending in \<open>None\<close> stand for the empty string of a zero value.  Optional Go pointers become \<open>option\<close> values and a
  \<open>time.Time\<close> becomes the pair of its Unix second and its zone offset in seconds.
\<close>

datatype SMSEncoding =
    SMSEncodingGSM7Text | SMSEncodingGSM7PDU | SMSEncodingUCS2PDU | SMSEncodingUTF8PDU
  | SMSEncodingGB18030 | SMSEncodingLatin1 | SMSEncoding8BitPDU | SMSEncodingWAPPush
  | SMSEncodingUnknown | SMSEncodingNone

datatype SMSStorageStatus =
    SMSStatusReceivedUnread | SMSStatusReceivedRead | SMSStatusStoredUnsent
  | SMSStatusStoredSent | SMSStatusUnknown | SMSStatusNone

datatype SMSDirection =
    SMSDirectionReceived | SMSDirectionSubmitted | SMSDirectionStatusReport
  | SMSDirectionUnknown | SMSDirectionNone

record SMSConcatInfo =
  Reference :: nat
  Total :: nat
  Sequence :: nat

record go_time =
  unix_second :: int
  zone_offset :: int

record SMSSubmitTPDU =
  st_To :: gostring
  st_Encoding :: SMSEncoding
  st_TPDU :: "byte list"
  st_Part :: nat
  st_Total :: nat
  st_ConcatReference :: "nat option"

record SMSMessage =
  sm_Index :: int
  sm_Storage :: gostring
  sm_StorageStatus :: SMSStorageStatus
  sm_Direction :: SMSDirection
  sm_From :: gostring
  sm_To :: gostring
  sm_ServiceCenter :: gostring
  sm_Text :: gostring
  sm_Encoding :: SMSEncoding
  sm_ServiceCenterTimestamp :: "go_time option"
  sm_DischargeTimestamp :: "go_time option"
  sm_MessageReference :: "nat option"
  sm_StatusCode :: "nat option"
  sm_DeliveryStatus :: gostring
  sm_Concat :: "SMSConcatInfo option"
  sm_ProtocolID :: nat
  sm_DataCodingScheme :: nat
  sm_ModemLength :: int
  sm_RawPDU :: gostring
  sm_RawUserData :: gostring
  sm_SIMDataDownload :: bool
  sm_DecodeError :: gostring

record preparedSMS =
  ps_to :: gostring
  ps_encoding :: SMSEncoding
  ps_payload :: "byte list"
  ps_prompt :: gostring
  ps_setup :: "gostring list"
  ps_tpduLength :: nat
  ps_part :: nat
  ps_total :: nat
  ps_concatReference :: "nat option"

datatype sms_err =
    ErrSMSInvalidRecipient | ErrSMSEmpty | ErrSMSTooLong | ErrTextContainsNUL
  | ErrNotGSM7 | ErrInvalidConcatHeader | ErrNoUserData | ErrEncodedPDUInvalid
  | ErrEncodedNoTPDU | ErrTPDUEmpty | ErrRandom
  | ErrSeptetsTruncated | ErrGSM7 gsm7_err | ErrGSM7Library
  | ErrPDUTruncated | ErrBadHex | ErrPDUTooShort | ErrSMSCTooLong | ErrUnsupportedType
  | ErrUserDataTruncated | ErrUDHIWithoutHeader | ErrUDHTruncated | ErrInvalidUTF16
  | ErrTimestamp

end
