(* ===== verification/Sms_Septets.thy ===== *)
theory Sms_Septets
  imports Sms_Types
begin

text \<open>
  Packing of 7-bit septets into octets (\<open>packSeptets\<close>) and back (\<open>unpackSeptets\<close>) of
  \<open>internal/device/sms_pdu.go\<close>.  Both are described bit by bit: bit \<open>p\<close> of an octet
  string is bit \<open>p mod 8\<close> of octet \<open>p div 8\<close>, and septet \<open>i\<close> occupies the seven bits
  from \<open>startBit + 7 * i\<close> on.
\<close>

subsection \<open>The code\<close>

definition or_at :: "byte list \<Rightarrow> nat \<Rightarrow> byte \<Rightarrow> byte list" where
  "or_at xs i v = xs[i := xs ! i OR v]"

definition pack_step :: "byte \<Rightarrow> nat \<Rightarrow> byte list \<Rightarrow> byte list" where
  "pack_step septet pos result =
     (let byteIndex = pos div 8;
          shift = pos mod 8;
          result' = or_at result byteIndex (push_bit shift (septet AND 0x7f))
      in if shift > 1 \<and> byteIndex + 1 < length result
         then or_at result' (byteIndex + 1) (drop_bit (8 - shift) (septet AND 0x7f))
         else result')"

fun pack_loop :: "byte list \<Rightarrow> nat \<Rightarrow> nat \<Rightarrow> byte list \<Rightarrow> byte list" where
  "pack_loop [] startBit index result = result"
| "pack_loop (septet # septets) startBit index result =
     pack_loop septets startBit (index + 1) (pack_step septet (startBit + index * 7) result)"

definition packSeptets :: "byte list \<Rightarrow> nat \<Rightarrow> byte list" where
  "packSeptets septets startBit =
     (if septets = [] then []
      else pack_loop septets startBit 0
             (replicate ((startBit + length septets * 7 + 7) div 8) 0))"

definition unpack_value :: "byte list \<Rightarrow> nat \<Rightarrow> byte" where
  "unpack_value data pos =
     (let byteIndex = pos div 8;
          shift = pos mod 8;
          v = drop_bit shift (data ! byteIndex);
          v' = (if shift > 1 \<and> byteIndex + 1 < length data
                then v OR push_bit (8 - shift) (data ! (byteIndex + 1)) else v)
      in v' AND 0x7f)"

fun unpack_loop :: "byte list \<Rightarrow> nat \<Rightarrow> nat \<Rightarrow> nat \<Rightarrow> (sms_err, byte list) res" where
  "unpack_loop data startBit index 0 = Inr []"
| "unpack_loop data startBit index (Suc n) =
     rbind (idx data ((startBit + index * 7) div 8)) (\<lambda>_.
     rbind (unpack_loop data startBit (index + 1) n) (\<lambda>rest.
       Inr (unpack_value data (startBit + index * 7) # rest)))"

definition unpackSeptets :: "byte list \<Rightarrow> int \<Rightarrow> nat \<Rightarrow> (sms_err, byte list) res" where
  "unpackSeptets data count startBit =
     (if count < 0 \<or> int startBit + count * 7 > int (length data) * 8
      then Inl (Fail ErrSeptetsTruncated)
      else unpack_loop data startBit 0 (nat count))"

subsection \<open>Bits of an octet string\<close>

definition bitat :: "byte list \<Rightarrow> nat \<Rightarrow> bool" where
  "bitat xs p \<longleftrightarrow> p div 8 < length xs \<and> bit (xs ! (p div 8)) (p mod 8)"

lemma length_or_at [simp]: "length (or_at xs i v) = length xs"
  by (simp add: or_at_def)

lemma length_pack_step [simp]: "length (pack_step s pos xs) = length xs"
  by (simp add: pack_step_def Let_def)

lemma length_pack_loop [simp]: "length (pack_loop ss st i xs) = length xs"
  by (induction ss st i xs rule: pack_loop.induct) simp_all

lemma length_packSeptets:
  "length (packSeptets ss st) = (if ss = [] then 0 else (st + length ss * 7 + 7) div 8)"
  by (simp add: packSeptets_def)

lemma bit_7f: "bit (x AND 0x7f :: byte) n \<longleftrightarrow> n < 7 \<and> bit x n"
proof -
  have m: "(0x7f :: byte) = mask 7" by (simp add: mask_eq_exp_minus_1)
  have "x AND 0x7f = take_bit 7 x" unfolding m by (simp only: take_bit_eq_mask)
  then show ?thesis by (auto simp: bit_simps)
qed

lemma bitat_or_at:
  "i < length xs \<Longrightarrow>
   bitat (or_at xs i v) p \<longleftrightarrow> bitat xs p \<or> (p div 8 = i \<and> bit v (p mod 8))"
  by (auto simp: bitat_def or_at_def nth_list_update bit_simps)

lemma bitat_pack_step:
  assumes "pos + 7 \<le> 8 * length xs"
  shows "bitat (pack_step s pos xs) p \<longleftrightarrow> bitat xs p \<or> (pos \<le> p \<and> p < pos + 7 \<and> bit s (p - pos))"
proof -
  define B h i k where d: "B = pos div 8" "h = pos mod 8" "i = p div 8" "k = p mod 8"
  have pos: "pos = 8 * B + h" and p: "p = 8 * i + k" and h: "h < 8" and k: "k < 8"
    by (simp_all add: d)
  have B: "B < length xs" using assms pos h by linarith
  have B1: "1 < h \<Longrightarrow> B + 1 < length xs" using assms pos by linarith
  have lo: "bit (push_bit h (s AND 0x7f)) k \<longleftrightarrow> h \<le> k \<and> k - h < 7 \<and> bit s (k - h)"
    unfolding bit_push_bit_iff bit_7f using k by auto
  have hi: "bit (drop_bit (8 - h) (s AND 0x7f)) k \<longleftrightarrow> 8 - h + k < 7 \<and> bit s (8 - h + k)"
    unfolding bit_drop_bit_eq comp_def bit_7f by simp
  have here: "i = B \<Longrightarrow> (pos \<le> p \<and> p < pos + 7 \<and> bit s (p - pos)) \<longleftrightarrow>
      (h \<le> k \<and> k - h < 7 \<and> bit s (k - h))"
    using pos p by auto
  have next_oct: "i = B + 1 \<Longrightarrow> (pos \<le> p \<and> p < pos + 7 \<and> bit s (p - pos)) \<longleftrightarrow>
      (1 < h \<and> 8 - h + k < 7 \<and> bit s (8 - h + k))"
  proof -
    assume i: "i = B + 1"
    have "p - pos = 8 - h + k" using i pos p h by simp
    then show ?thesis using i pos p h by auto
  qed
  have other: "i \<noteq> B \<Longrightarrow> i \<noteq> B + 1 \<Longrightarrow> \<not> (pos \<le> p \<and> p < pos + 7)"
    using pos p h k by auto
  show ?thesis
  proof (cases "1 < h")
    case True
    then have "bitat (pack_step s pos xs) p \<longleftrightarrow> bitat xs p
        \<or> (i = B \<and> bit (push_bit h (s AND 0x7f)) k)
        \<or> (i = B + 1 \<and> bit (drop_bit (8 - h) (s AND 0x7f)) k)"
      using B B1 by (simp add: pack_step_def Let_def bitat_or_at d [symmetric] disj_assoc)
    then show ?thesis unfolding lo hi using here next_oct other True by auto
  next
    case False
    then have "bitat (pack_step s pos xs) p \<longleftrightarrow> bitat xs p
        \<or> (i = B \<and> bit (push_bit h (s AND 0x7f)) k)"
      using B by (simp add: pack_step_def Let_def bitat_or_at d [symmetric])
    then show ?thesis unfolding lo using here next_oct other False by auto
  qed
qed

lemma oct_split: "m < 8 \<Longrightarrow> (8 * B + m) div 8 = B" "m < 8 \<Longrightarrow> (8 * B + m) mod 8 = m"
  for B m :: nat
  by simp_all

text \<open>Which bit of which septet lands at a given position.\<close>

definition septet_bit :: "byte list \<Rightarrow> nat \<Rightarrow> bool" where
  "septet_bit ss q \<longleftrightarrow> q div 7 < length ss \<and> bit (ss ! (q div 7)) (q mod 7)"

lemma septet_bit_Cons:
  "septet_bit (s # ss) q \<longleftrightarrow> (if q < 7 then bit s q else septet_bit ss (q - 7))"
  by (cases "q < 7") (auto simp: septet_bit_def le_div_geq le_mod_geq)

lemma bitat_pack_loop:
  assumes "st + (index + length ss) * 7 \<le> 8 * length xs"
  shows "bitat (pack_loop ss st index xs) p \<longleftrightarrow>
    bitat xs p \<or> (st + index * 7 \<le> p \<and> septet_bit ss (p - (st + index * 7)))"
  using assms
proof (induction ss st index xs rule: pack_loop.induct)
  case 1
  then show ?case by (simp add: septet_bit_def)
next
  case (2 s ss st index xs)
  let ?pos = "st + index * 7"
  have "st + (index + 1 + length ss) * 7 \<le> 8 * length xs" using "2.prems" by simp
  with "2.IH" have IH: "bitat (pack_loop (s # ss) st index xs) p \<longleftrightarrow>
      bitat (pack_step s ?pos xs) p \<or> (?pos + 7 \<le> p \<and> septet_bit ss (p - (?pos + 7)))"
    by (simp add: algebra_simps)
  have "?pos + 7 \<le> 8 * length xs" using "2.prems" by simp
  with IH show ?case
    by (auto simp: bitat_pack_step septet_bit_Cons not_less)
qed

lemma bitat_replicate_0 [simp]: "\<not> bitat (replicate n 0) p"
  by (auto simp: bitat_def)

lemma bitat_packSeptets:
  "bitat (packSeptets ss st) p \<longleftrightarrow> st \<le> p \<and> septet_bit ss (p - st)"
proof (cases "ss = []")
  case True
  then show ?thesis by (simp add: packSeptets_def bitat_def septet_bit_def)
next
  case False
  have "st + length ss * 7 \<le> 8 * ((st + length ss * 7 + 7) div 8)" by presburger
  with False show ?thesis by (simp add: packSeptets_def bitat_pack_loop)
qed

lemma bit_unpack_value:
  assumes "pos + 7 \<le> 8 * length data"
  shows "bit (unpack_value data pos) j \<longleftrightarrow> j < 7 \<and> bitat data (pos + j)"
proof -
  define B h where d: "B = pos div 8" "h = pos mod 8"
  have pos: "pos = 8 * B + h" and h: "h < 8" by (simp_all add: d)
  have B: "B < length data" using assms pos h by linarith
  have B1: "1 < h \<Longrightarrow> B + 1 < length data" using assms pos by linarith
  have lo: "bitat data (pos + j) \<longleftrightarrow> bit (data ! B) (h + j)" if "h + j < 8"
  proof -
    have "pos + j = 8 * B + (h + j)" using pos by simp
    then have "(pos + j) div 8 = B" "(pos + j) mod 8 = h + j"
      using oct_split [OF that] by (simp_all only:)
    then show ?thesis using B by (simp add: bitat_def)
  qed
  have hi: "bitat data (pos + j) \<longleftrightarrow> bit (data ! (B + 1)) (h + j - 8)"
    if "8 \<le> h + j" "j < 7"
  proof -
    have "pos + j = 8 * (B + 1) + (h + j - 8)" "h + j - 8 < 8" using that pos h by simp_all
    then have "(pos + j) div 8 = B + 1" "(pos + j) mod 8 = h + j - 8"
      using oct_split [of "h + j - 8" "B + 1"] by (simp_all only:)
    moreover have "1 < h" using that by simp
    ultimately show ?thesis using B1 by (simp add: bitat_def)
  qed
  show ?thesis
  proof (cases "1 < h")
    case True
    then have "bit (unpack_value data pos) j \<longleftrightarrow>
        j < 7 \<and> (bit (data ! B) (h + j) \<or> 8 - h \<le> j \<and> bit (data ! (B + 1)) (j - (8 - h)))"
      using B1 unfolding unpack_value_def Let_def d [symmetric] bit_7f by (auto simp: bit_simps)
    moreover have "8 - h \<le> j \<Longrightarrow> j - (8 - h) = h + j - 8" using h by simp
    ultimately show ?thesis
      using lo hi h by (cases "h + j < 8") auto
  next
    case False
    then have "bit (unpack_value data pos) j \<longleftrightarrow> j < 7 \<and> bit (data ! B) (h + j)"
      unfolding unpack_value_def Let_def d [symmetric] bit_7f by (auto simp: bit_simps)
    then show ?thesis using lo False by auto
  qed
qed

lemma unpack_loop_eq:
  "startBit + (index + n) * 7 \<le> 8 * length data \<Longrightarrow>
   unpack_loop data startBit index n =
     Inr (map (\<lambda>i. unpack_value data (startBit + i * 7)) [index..<index + n])"
proof (induction n arbitrary: index)
  case 0
  then show ?case by simp
next
  case (Suc n)
  have "(startBit + index * 7) div 8 < length data" using Suc.prems by (simp add: div_less_iff_less_mult)
  moreover have "unpack_loop data startBit (index + 1) n =
      Inr (map (\<lambda>i. unpack_value data (startBit + i * 7)) [index + 1..<index + 1 + n])"
    using Suc by simp
  moreover have "[index..<index + Suc n] = index # [index + 1..<index + 1 + n]"
    by (simp add: upt_conv_Cons)
  ultimately show ?case by simp
qed

lemma unpackSeptets_eq:
  "unpackSeptets data count startBit =
     (if count < 0 \<or> int startBit + count * 7 > int (length data) * 8
      then Inl (Fail ErrSeptetsTruncated)
      else Inr (map (\<lambda>i. unpack_value data (startBit + i * 7)) [0..<nat count]))"
proof (cases "count < 0 \<or> int startBit + count * 7 > int (length data) * 8")
  case True
  then show ?thesis by (simp add: unpackSeptets_def)
next
  case False
  then have "int (startBit + (0 + nat count) * 7) \<le> int (8 * length data)" by simp
  then have "startBit + (0 + nat count) * 7 \<le> 8 * length data" by (simp only: of_nat_le_iff)
  with False show ?thesis by (auto simp: unpackSeptets_def unpack_loop_eq)
qed

lemma unpackSeptets_no_panic [simp]: "unpackSeptets data count startBit \<noteq> Inl Panic"
  by (simp add: unpackSeptets_eq)

lemma septet_below_128: "unat (s :: byte) < 128 \<Longrightarrow> bit s j \<Longrightarrow> j < 7"
proof -
  assume "unat s < 128" and b: "bit s j"
  then have "unat (take_bit 7 s) = unat s"
    by (simp add: unsigned_take_bit_eq take_bit_nat_eq_self)
  then have "take_bit 7 s = s" by (simp only: unsigned_word_eqI)
  with b have "bit (take_bit 7 s) j" by simp
  then show "j < 7" by (simp add: bit_simps)
qed

text \<open>
  Reading back packed septets, from any octet string that agrees with the packed one from
  the start bit on: a user data header copied over the leading octets does no harm.
\<close>

lemma unpack_pack_overlay:
  assumes len: "length data = length (packSeptets ss st)"
    and agree: "\<And>p. st \<le> p \<Longrightarrow> bitat data p \<longleftrightarrow> bitat (packSeptets ss st) p"
    and septets: "list_all (\<lambda>b. unat b < 128) ss"
    and start: "ss = [] \<Longrightarrow> st = 0"
  shows "unpackSeptets data (int (length ss)) st = Inr ss"
proof -
  have room: "st + length ss * 7 \<le> 8 * length data"
  proof (cases "ss = []")
    case True
    with start show ?thesis by simp
  next
    case False
    have "st + length ss * 7 \<le> 8 * ((st + length ss * 7 + 7) div 8)" by presburger
    with False len show ?thesis by (simp add: length_packSeptets)
  qed
  have "unpack_value data (st + i * 7) = ss ! i" if i: "i < length ss" for i
  proof (rule bit_word_eqI)
    fix j assume "j < LENGTH(8)"
    have "st + i * 7 + 7 \<le> 8 * length data" using room i by linarith
    then have "bit (unpack_value data (st + i * 7)) j \<longleftrightarrow> j < 7 \<and> septet_bit ss (i * 7 + j)"
      using agree [of "st + i * 7 + j"]
      by (simp add: bit_unpack_value bitat_packSeptets algebra_simps)
    also have "\<dots> \<longleftrightarrow> j < 7 \<and> bit (ss ! i) j"
      using i by (auto simp: septet_bit_def)
    also have "\<dots> \<longleftrightarrow> bit (ss ! i) j"
      using septets i by (auto simp: list_all_length dest: septet_below_128)
    finally show "bit (unpack_value data (st + i * 7)) j \<longleftrightarrow> bit (ss ! i) j" .
  qed
  then have "map (\<lambda>i. unpack_value data (st + i * 7)) [0..<length ss] = ss"
    by (intro nth_equalityI) auto
  moreover have "\<not> int st + int (length ss) * 7 > int (length data) * 8" using room by linarith
  ultimately show ?thesis by (simp add: unpackSeptets_eq)
qed

end
