(* ===== verification/Segments.thy ===== *)
theory Segments
  imports Prelude
begin

text \<open>
  Cutting a message into segments.  \<open>splitGSM7\<close> and \<open>splitUCS2\<close> of
  \<open>internal/device/sms_pdu.go\<close> are one loop with two ways to choose the next cut.  The loop
  is defined for any choice (\<open>None\<close> if a choice never makes progress); the locale
  \<open>segmenter\<close> states what a choice has to promise and proves what the loop then delivers.
\<close>

partial_function (option) split_loop :: "('a list \<Rightarrow> nat) \<Rightarrow> 'a list \<Rightarrow> 'a list list option" where
  "split_loop chop xs =
     (if xs = [] then Some []
      else Option.bind (split_loop chop (drop (chop xs) xs)) (\<lambda>rest.
             Some (take (chop xs) xs # rest)))"

lemma split_loop_Nil [simp]: "split_loop chop [] = Some []"
  by (simp add: split_loop.simps)

text \<open>
  A lead element announces the one after it, its trail: the escape code of GSM-7 or a high
  surrogate of UTF-16.  A list is paired if every lead is followed by a trail.
\<close>

fun paired :: "('a \<Rightarrow> bool) \<Rightarrow> ('a \<Rightarrow> bool) \<Rightarrow> 'a list \<Rightarrow> bool" where
  "paired lead trail [] \<longleftrightarrow> True"
| "paired lead trail [x] \<longleftrightarrow> \<not> lead x"
| "paired lead trail (x # y # ys) \<longleftrightarrow>
     (if lead x then trail y \<and> paired lead trail ys else paired lead trail (y # ys))"

lemma paired_Cons_plain: "\<not> lead x \<Longrightarrow> paired lead trail (x # xs) \<longleftrightarrow> paired lead trail xs"
  by (cases xs) auto

lemma paired_append: "paired lead trail xs \<Longrightarrow> paired lead trail ys \<Longrightarrow> paired lead trail (xs @ ys)"
  by (induction lead trail xs rule: paired.induct) (auto simp: paired_Cons_plain split: if_splits)

lemma paired_cut:
  assumes excl: "\<And>y. trail y \<Longrightarrow> \<not> lead y"
    and "paired lead trail xs" "c \<le> length xs" "0 < c" "\<not> lead (xs ! (c - 1))"
  shows "paired lead trail (take c xs) \<and> paired lead trail (drop c xs)"
  using assms(2-)
proof (induction xs arbitrary: c rule: induct_list012)
  case 1
  then show ?case by simp
next
  case (2 x)
  then show ?case by (cases c) auto
next
  case (3 x y zs)
  obtain k where c: "c = Suc k" using "3.prems" by (cases c) auto
  show ?case
  proof (cases "lead x")
    case True
    with "3.prems" have y: "trail y" "paired lead trail zs" by auto
    obtain j where k: "k = Suc j"
      using "3.prems" True c by (cases k) auto
    show ?thesis
    proof (cases "j = 0")
      case True
      then show ?thesis using y \<open>lead x\<close> c k by simp
    next
      case False
      then have "paired lead trail (take j zs) \<and> paired lead trail (drop j zs)"
        using "3.IH"(1) [of j] "3.prems" y c k by (auto simp: nth_Cons')
      then show ?thesis using y \<open>lead x\<close> c k by simp
    qed
  next
    case False
    then have p: "paired lead trail (y # zs)" using "3.prems" by simp
    show ?thesis
    proof (cases "k = 0")
      case True
      then show ?thesis using p False c by simp
    next
      case kne: False
      then have "paired lead trail (take k (y # zs)) \<and> paired lead trail (drop k (y # zs))"
        using "3.IH"(2) [of k] "3.prems" p c False by (auto simp: nth_Cons')
      then show ?thesis using False c by (simp add: paired_Cons_plain)
    qed
  qed
qed

lemma paired_lead_next:
  assumes excl: "\<And>y. trail y \<Longrightarrow> \<not> lead y"
    and "paired lead trail xs" "Suc i < length xs" "lead (xs ! Suc i)"
  shows "\<not> lead (xs ! i)"
  using assms(2-)
proof (induction xs arbitrary: i rule: induct_list012)
  case (3 x y zs)
  show ?case
  proof (cases "lead x")
    case True
    with "3.prems" have y: "trail y" "paired lead trail zs" by auto
    show ?thesis
    proof (cases i)
      case 0
      then show ?thesis using "3.prems" y excl by auto
    next
      case (Suc j)
      then show ?thesis
      proof (cases j)
        case 0
        then show ?thesis using Suc y excl by simp
      next
        case (Suc m)
        then show ?thesis using "3.IH"(1) [of m] "3.prems" y \<open>i = Suc j\<close> by simp
      qed
    qed
  next
    case False
    then show ?thesis
      using "3.IH"(2) [of "i - 1"] "3.prems" by (cases i) auto
  qed
qed auto

subsection \<open>The contract of a cut\<close>

locale segmenter =
  fixes chop :: "'a list \<Rightarrow> nat" and bound :: nat
  assumes cut_pos: "xs \<noteq> [] \<Longrightarrow> 0 < chop xs"
    and cut_bound: "chop xs \<le> bound"
    and cut_length: "chop xs \<le> length xs"
begin

lemma split_step:
  "xs \<noteq> [] \<Longrightarrow> split_loop chop xs =
     Option.bind (split_loop chop (drop (chop xs) xs)) (\<lambda>rest. Some (take (chop xs) xs # rest))"
  by (subst split_loop.simps) simp

lemma split_stepE:
  assumes "split_loop chop xs = Some ss" "xs \<noteq> []"
  obtains rest where "split_loop chop (drop (chop xs) xs) = Some rest"
    and "ss = take (chop xs) xs # rest"
proof -
  have "Option.bind (split_loop chop (drop (chop xs) xs))
      (\<lambda>rest. Some (take (chop xs) xs # rest)) = Some ss"
    using assms(1) unfolding split_step [OF assms(2)] .
  then show thesis using that by (auto simp: bind_eq_Some_conv)
qed

lemma split_induct [case_names Nil Step]:
  assumes "P []" and "\<And>xs. xs \<noteq> [] \<Longrightarrow> P (drop (chop xs) xs) \<Longrightarrow> P xs"
  shows "P xs"
proof (induction xs rule: length_induct)
  case (1 xs)
  show ?case
  proof (cases "xs = []")
    case True
    with assms(1) show ?thesis by simp
  next
    case False
    then have "length (drop (chop xs) xs) < length xs" using cut_pos by simp
    with 1 False assms(2) show ?thesis by blast
  qed
qed

lemma split_returns: "\<exists>ss. split_loop chop xs = Some ss"
proof (induction xs rule: split_induct)
  case Nil
  show ?case by simp
next
  case (Step xs)
  then obtain ss where "split_loop chop (drop (chop xs) xs) = Some ss" by blast
  then have "split_loop chop xs = Some (take (chop xs) xs # ss)"
    by (simp only: split_step [OF Step.hyps(1)] bind.bind_lunit)
  then show ?case by blast
qed

lemma split_concat: "split_loop chop xs = Some ss \<Longrightarrow> concat ss = xs"
proof (induction xs arbitrary: ss rule: split_induct)
  case Nil
  then show ?case by simp
next
  case (Step xs)
  from Step.prems Step.hyps(1) show ?case
    by (rule split_stepE) (simp add: Step.IH)
qed

lemma split_parts:
  "split_loop chop xs = Some ss \<Longrightarrow> s \<in> set ss \<Longrightarrow> s \<noteq> [] \<and> length s \<le> bound"
proof (induction xs arbitrary: ss rule: split_induct)
  case Nil
  then show ?case by simp
next
  case (Step xs)
  have first: "take (chop xs) xs \<noteq> []" "length (take (chop xs) xs) \<le> bound"
    using cut_pos [OF Step.hyps(1)] cut_bound [of xs] Step.hyps(1) by auto
  from Step.prems(1) Step.hyps(1) obtain rest where
    rest: "split_loop chop (drop (chop xs) xs) = Some rest" "ss = take (chop xs) xs # rest"
    by (rule split_stepE)
  show ?case
  proof (cases "s \<in> set rest")
    case True
    then show ?thesis using Step.IH rest(1) by blast
  next
    case False
    then show ?thesis using first rest(2) Step.prems(2) by simp
  qed
qed

lemma split_length_ge: "split_loop chop xs = Some ss \<Longrightarrow> length xs \<le> bound * length ss"
proof (induction xs arbitrary: ss rule: split_induct)
  case Nil
  then show ?case by simp
next
  case (Step xs)
  from Step.prems Step.hyps(1) obtain rest where
    "split_loop chop (drop (chop xs) xs) = Some rest" and ss: "ss = take (chop xs) xs # rest"
    by (rule split_stepE)
  with Step.IH have "length (drop (chop xs) xs) \<le> bound * length rest" by blast
  then show ?case using ss cut_bound [of xs] by simp
qed

end

text \<open>A cut that takes at least all but one of what fits bounds the number of segments.\<close>

locale tight_segmenter = segmenter +
  assumes cut_tight: "chop xs \<ge> min (bound - 1) (length xs)"
begin

lemma split_length_le:
  "split_loop chop xs = Some ss \<Longrightarrow> xs \<noteq> [] \<Longrightarrow> (bound - 1) * (length ss - 1) < length xs"
proof (induction xs arbitrary: ss rule: split_induct)
  case Nil
  then show ?case by simp
next
  case (Step xs)
  let ?r = "drop (chop xs) xs"
  from Step.prems(1) Step.hyps(1) obtain rest where
    rest: "split_loop chop ?r = Some rest" and ss: "ss = take (chop xs) xs # rest"
    by (rule split_stepE)
  show ?case
  proof (cases "?r = []")
    case True
    then show ?thesis using rest ss Step.prems by simp
  next
    case False
    then have "(bound - 1) * (length rest - 1) < length xs - chop xs"
      using Step.IH [OF rest] by simp
    moreover have "bound - 1 \<le> chop xs" using cut_tight [of xs] False by auto
    moreover obtain a b where "rest = a # b" using rest False by (auto elim: split_stepE)
    ultimately show ?thesis using ss by simp
  qed
qed

end

text \<open>A cut that keeps lead and trail together keeps every segment well formed.\<close>

locale pair_segmenter = segmenter +
  fixes lead trail :: "'a \<Rightarrow> bool"
  assumes cut_paired:
    "paired lead trail xs \<Longrightarrow>
     paired lead trail (take (chop xs) xs) \<and> paired lead trail (drop (chop xs) xs)"
begin

lemma split_paired:
  "split_loop chop xs = Some ss \<Longrightarrow> paired lead trail xs \<Longrightarrow> s \<in> set ss \<Longrightarrow> paired lead trail s"
proof (induction xs arbitrary: ss rule: split_induct)
  case Nil
  then show ?case by simp
next
  case (Step xs)
  from Step.prems(1) Step.hyps(1) obtain rest where
    rest: "split_loop chop (drop (chop xs) xs) = Some rest" "ss = take (chop xs) xs # rest"
    by (rule split_stepE)
  show ?case
  proof (cases "s \<in> set rest")
    case True
    then show ?thesis using Step.IH rest(1) cut_paired Step.prems(2) by blast
  next
    case False
    then show ?thesis using rest(2) Step.prems cut_paired by simp
  qed
qed

end

end
