(* ===== verification/Sms_Submit.thy ===== *)
theory Sms_Submit
  imports Sms_Septets Segments
begin

text \<open>
  The sending side of \<open>internal/device/sms_pdu.go\<close>: recipient validation, alphabet
  selection, segmentation and the encoding of SMS-SUBMIT PDUs, from \<open>normalizeSMSRecipient\<close>
  to \<open>PrepareSMSSubmitTPDUs\<close>.
\<close>

subsection \<open>Recipients\<close>

fun normalize_loop :: "rune list \<Rightarrow> gostring \<Rightarrow> (sms_err, gostring) res" where
  "normalize_loop [] result = Inr result"
| "normalize_loop (c # cs) result =
     (if 48 \<le> c \<and> c \<le> 57 then normalize_loop cs (result @ utf8_enc c)
      else if c = 43 \<and> length result = 0 then normalize_loop cs (result @ utf8_enc c)
      else if c = 32 \<or> c = 45 \<or> c = 40 \<or> c = 41 then normalize_loop cs result
      else Inl (Fail ErrSMSInvalidRecipient))"

definition has_plus :: "gostring \<Rightarrow> bool" where
  "has_plus s = (case s of b # t \<Rightarrow> b = 43 | [] \<Rightarrow> False)"

definition trim_plus :: "gostring \<Rightarrow> gostring" where
  "trim_plus s = (if has_plus s then tl s else s)"

definition normalizeSMSRecipient :: "gostring \<Rightarrow> (sms_err, gostring) res" where
  "normalizeSMSRecipient v =
     rbind (normalize_loop (runes_of (trim_space v)) []) (\<lambda>normalized.
       let digits = trim_plus normalized in
       if length digits < 1 \<or> length digits > 20 then Inl (Fail ErrSMSInvalidRecipient)
       else if \<exists>c \<in> set (runes_of digits). c < 48 \<or> c > 57
            then Inl (Fail ErrSMSInvalidRecipient)
       else Inr normalized)"

subsection \<open>Addresses\<close>

fun semi_octets_loop :: "gostring \<Rightarrow> (sms_err, byte list) res" where
  "semi_octets_loop [] = Inr []"
| "semi_octets_loop [low] =
     (if \<not> is_digit low then Inl (Fail ErrSMSInvalidRecipient)
      else Inr [push_bit 4 0x0f OR (low - 48)])"
| "semi_octets_loop (low # high # rest) =
     (if \<not> is_digit low then Inl (Fail ErrSMSInvalidRecipient)
      else if \<not> is_digit high then Inl (Fail ErrSMSInvalidRecipient)
      else rbind (semi_octets_loop rest) (\<lambda>r. Inr ((push_bit 4 (high - 48) OR (low - 48)) # r)))"

definition encodeSemiOctets :: "gostring \<Rightarrow> (sms_err, byte list) res" where
  "encodeSemiOctets digits =
     (if digits = [] then Inl (Fail ErrSMSInvalidRecipient) else semi_octets_loop digits)"

subsection \<open>SMS-SUBMIT\<close>

definition concatUDH :: "byte \<Rightarrow> nat \<Rightarrow> nat \<Rightarrow> byte list" where
  "concatUDH reference parts sequence = [0x05, 0x00, 0x03, reference, of_nat parts, of_nat sequence]"

definition encodeUCS2Units :: "16 word list \<Rightarrow> byte list" where
  "encodeUCS2Units units = concat (map put_be16 units)"

text \<open>\<open>copy(dst, src)\<close>.\<close>

definition copy_over :: "'a list \<Rightarrow> 'a list \<Rightarrow> 'a list" where
  "copy_over dst src = take (length dst) src @ drop (length src) dst"

definition header_septets :: "byte list \<Rightarrow> nat" where
  "header_septets userDataHeader =
     (if userDataHeader \<noteq> [] then (length userDataHeader * 8 + 6) div 7 else 0)"

text \<open>
  The user data part of the PDU: data coding scheme, length and octets.  The two payload
  arguments are \<open>None\<close> for a nil slice.
\<close>

definition submit_user_data ::
  "byte list option \<Rightarrow> byte list option \<Rightarrow> byte list \<Rightarrow> (sms_err, byte list) res" where
  "submit_user_data gsm7Septets ucs2 userDataHeader =
     (case gsm7Septets of
        Some septets \<Rightarrow>
          (let headerSeptets = header_septets userDataHeader;
               startBit = headerSeptets * 7;
               userDataLength = headerSeptets + length septets
           in if userDataLength > 160 then Inl (Fail ErrSMSTooLong)
              else Inr ([0x00, of_nat userDataLength]
                        @ copy_over (packSeptets septets startBit) userDataHeader))
      | None \<Rightarrow>
          (case ucs2 of
             Some bytes \<Rightarrow>
               (let userDataLength = length userDataHeader + length bytes
                in if userDataLength > 140 then Inl (Fail ErrSMSTooLong)
                   else Inr ([0x08, of_nat userDataLength] @ userDataHeader @ bytes))
           | None \<Rightarrow> Inl (Fail ErrNoUserData)))"

definition submit_first_octet :: "byte list \<Rightarrow> (sms_err, byte) res" where
  "submit_first_octet userDataHeader =
     (if userDataHeader \<noteq> [] then
        rbind (idx userDataHeader 0) (\<lambda>h.
          if unat h + 1 \<noteq> length userDataHeader then Inl (Fail ErrInvalidConcatHeader)
          else Inr (0x21 OR 0x40))
      else Inr 0x21)"

definition encodeSubmitPDUWithHeader ::
  "gostring \<Rightarrow> byte list option \<Rightarrow> byte list option \<Rightarrow> byte list \<Rightarrow> (sms_err, gostring \<times> nat) res" where
  "encodeSubmitPDUWithHeader recipient gsm7Septets ucs2 userDataHeader =
     (let digits = trim_plus recipient in
      rbind (encodeSemiOctets digits) (\<lambda>address.
      let toa = (if has_plus recipient then 0x91 else 0x81) in
      rbind (submit_first_octet userDataHeader) (\<lambda>firstOctet.
      rbind (submit_user_data gsm7Septets ucs2 userDataHeader) (\<lambda>ud.
      let pdu = [0x00, firstOctet, 0x00, of_nat (length digits), toa] @ address @ [0x00] @ ud
      in Inr (hex_upper pdu, length pdu - 1)))))"

definition encodeSubmitPDU ::
  "gostring \<Rightarrow> byte list option \<Rightarrow> byte list option \<Rightarrow> (sms_err, gostring \<times> nat) res" where
  "encodeSubmitPDU recipient gsm7Septets ucs2 =
     encodeSubmitPDUWithHeader recipient gsm7Septets ucs2 []"

subsection \<open>Segmentation\<close>

definition cut_gsm7 :: "nat \<Rightarrow> byte list \<Rightarrow> nat" where
  "cut_gsm7 maximum septets =
     (let count = min maximum (length septets) in
      if count < length septets \<and> septets ! (count - 1) = 0x1b then count - 1 else count)"

definition splitGSM7 :: "byte list \<Rightarrow> nat \<Rightarrow> byte list list option" where
  "splitGSM7 septets maximum = split_loop (cut_gsm7 maximum) septets"

definition cut_ucs2 :: "nat \<Rightarrow> 16 word list \<Rightarrow> nat" where
  "cut_ucs2 maximum units =
     (let count = min maximum (length units) in
      if count < length units \<and> high_surrogate (units ! (count - 1))
         \<and> low_surrogate (units ! count)
      then count - 1 else count)"

definition splitUCS2 :: "16 word list \<Rightarrow> nat \<Rightarrow> 16 word list list option" where
  "splitUCS2 units maximum = split_loop (cut_ucs2 maximum) units"

subsection \<open>Preparing a message\<close>

definition single_pdu :: "gostring \<Rightarrow> SMSEncoding \<Rightarrow> gostring \<times> nat \<Rightarrow> preparedSMS" where
  "single_pdu recipient encoding p =
     \<lparr>ps_to = recipient, ps_encoding = encoding, ps_payload = fst p,
      ps_prompt = str ''AT+CMGS='' @ itoa (snd p), ps_setup = [str ''AT+CMGF=0''],
      ps_tpduLength = snd p, ps_part = 1, ps_total = 1, ps_concatReference = None\<rparr>"

definition part_pdu ::
  "gostring \<Rightarrow> SMSEncoding \<Rightarrow> byte \<Rightarrow> nat \<Rightarrow> nat \<Rightarrow> gostring \<times> nat \<Rightarrow> preparedSMS" where
  "part_pdu recipient encoding reference parts index p =
     (single_pdu recipient encoding p)
       \<lparr>ps_part := index + 1, ps_total := parts, ps_concatReference := Some (unat reference)\<rparr>"

definition direct_text :: "gostring \<Rightarrow> gostring \<Rightarrow> preparedSMS" where
  "direct_text recipient text =
     \<lparr>ps_to = recipient, ps_encoding = SMSEncodingGSM7Text, ps_payload = text,
      ps_prompt = str ''AT+CMGS='' @ [34] @ recipient @ [34],
      ps_setup = [str ''AT+CMGF=1'', str ''AT+CSCS='' @ [34] @ str ''GSM'' @ [34],
                  str ''AT+CSMP=49,167,0,0''],
      ps_tpduLength = 0, ps_part = 1, ps_total = 1, ps_concatReference = None\<rparr>"

definition encode_parts ::
  "gostring \<Rightarrow> SMSEncoding \<Rightarrow> byte \<Rightarrow> (byte list \<Rightarrow> byte list \<Rightarrow> (sms_err, gostring \<times> nat) res)
   \<Rightarrow> byte list list \<Rightarrow> (sms_err, preparedSMS list) res" where
  "encode_parts recipient encoding reference encode segments =
     (if length segments > 255 then Inl (Fail ErrSMSTooLong)
      else rmap (\<lambda>(index, segment).
             rbind (encode segment (concatUDH reference (length segments) (index + 1))) (\<lambda>p.
               Inr (part_pdu recipient encoding reference (length segments) index p)))
           (enumerate 0 segments))"

definition prepareSMSPartsWithReference ::
  "gostring \<Rightarrow> gostring \<Rightarrow> byte \<Rightarrow> (sms_err, preparedSMS list) res" where
  "prepareSMSPartsWithReference recipient0 text reference =
     rbind (normalizeSMSRecipient recipient0) (\<lambda>recipient.
     if text = [] then Inl (Fail ErrSMSEmpty)
     else if 0 \<in> set text then Inl (Fail ErrTextContainsNUL)
     else (case encodeGSM7 text of
        Some septets \<Rightarrow>
          if length septets \<le> 160 \<and> canSendDirectGSM7 text then Inr [direct_text recipient text]
          else if length septets \<le> 160 then
            rbind (encodeSubmitPDU recipient (Some septets) None) (\<lambda>p.
              Inr [single_pdu recipient SMSEncodingGSM7PDU p])
          else
            rbind (of_loop (splitGSM7 septets 153)) (\<lambda>segments.
              encode_parts recipient SMSEncodingGSM7PDU reference
                (\<lambda>segment header. encodeSubmitPDUWithHeader recipient (Some segment) None header)
                segments)
      | None \<Rightarrow>
          (let units = utf16_encode (runes_of text) in
           if length units \<le> 70 then
             rbind (encodeSubmitPDU recipient None (Some (encodeUCS2Units units))) (\<lambda>p.
               Inr [single_pdu recipient SMSEncodingUCS2PDU p])
           else
             rbind (of_loop (splitUCS2 units 67)) (\<lambda>segments.
               encode_parts recipient SMSEncodingUCS2PDU reference
                 (\<lambda>segment header. encodeSubmitPDUWithHeader recipient None (Some segment) header)
                 (map encodeUCS2Units segments)))))"

definition prepareSMS :: "gostring \<Rightarrow> gostring \<Rightarrow> (sms_err, preparedSMS) res" where
  "prepareSMS recipient text =
     rbind (prepareSMSPartsWithReference recipient text 0) (\<lambda>parts.
       if length parts \<noteq> 1 then Inl (Fail ErrSMSTooLong) else idx parts 0)"

text \<open>The random concatenation reference is an argument; \<open>None\<close> is a failed read.\<close>

definition prepareSMSParts :: "byte option \<Rightarrow> gostring \<Rightarrow> gostring \<Rightarrow> (sms_err, preparedSMS list) res" where
  "prepareSMSParts random recipient text =
     rbind (prepareSMSPartsWithReference recipient text 0) (\<lambda>parts.
       if length parts \<le> 1 then Inr parts
       else (case random of
           None \<Rightarrow> Inl (Fail ErrRandom)
         | Some reference \<Rightarrow> prepareSMSPartsWithReference recipient text reference))"

definition submit_tpdu :: "gostring \<Rightarrow> preparedSMS \<Rightarrow> (sms_err, SMSSubmitTPDU) res" where
  "submit_tpdu text part =
     rbind (if ps_encoding part = SMSEncodingGSM7Text then
              (case encodeGSM7 text of
                 None \<Rightarrow> Inl (Fail ErrNotGSM7)
               | Some septets \<Rightarrow>
                   rbind (encodeSubmitPDU (ps_to part) (Some septets) None) (\<lambda>p.
                     Inr (fst p, SMSEncodingGSM7PDU)))
            else Inr (ps_payload part, ps_encoding part))
       (\<lambda>(pduHex, encoding).
     (case hex_decode pduHex of
        None \<Rightarrow> Inl (Fail ErrEncodedPDUInvalid)
      | Some pdu \<Rightarrow>
          if length pdu < 2 then Inl (Fail ErrEncodedPDUInvalid)
          else rbind (idx pdu 0) (\<lambda>b.
            let smscBytes = unat b in
            if 1 + smscBytes \<ge> length pdu then Inl (Fail ErrEncodedNoTPDU)
            else rbind (slice pdu (1 + smscBytes) (length pdu)) (\<lambda>tpdu.
              Inr \<lparr>st_To = ps_to part, st_Encoding = encoding, st_TPDU = tpdu,
                   st_Part = ps_part part, st_Total = ps_total part,
                   st_ConcatReference = ps_concatReference part\<rparr>))))"

definition PrepareSMSSubmitTPDUs ::
  "byte option \<Rightarrow> gostring \<Rightarrow> gostring \<Rightarrow> (sms_err, SMSSubmitTPDU list) res" where
  "PrepareSMSSubmitTPDUs random recipient text =
     rbind (prepareSMSParts random recipient text) (rmap (submit_tpdu text))"

subsection \<open>Recipients are digits with an optional plus sign\<close>

definition recipient_ok :: "gostring \<Rightarrow> bool" where
  "recipient_ok r \<longleftrightarrow>
     list_all is_digit (trim_plus r) \<and> 1 \<le> length (trim_plus r) \<and> length (trim_plus r) \<le> 20"

lemma utf8_enc_ascii [simp]: "r < 128 \<Longrightarrow> utf8_enc r = [of_nat r]"
  by (simp add: utf8_enc_def utf8_enc_valid_def valid_rune_def surrogate_def)

lemma is_digit_rune: "48 \<le> c \<Longrightarrow> c \<le> 57 \<Longrightarrow> is_digit (of_nat c)"
  by (simp add: is_digit_def unat_of_nat_byte)

lemma normalize_loop_shape:
  "normalize_loop cs result = Inr out \<Longrightarrow>
   (result = [] \<or> result = [43] \<or> list_all is_digit (trim_plus result)) \<Longrightarrow>
   list_all is_digit (trim_plus out)"
proof (induction cs result rule: normalize_loop.induct)
  case (1 result)
  then show ?case by (auto simp: trim_plus_def has_plus_def)
next
  case (2 c cs result)
  consider "48 \<le> c \<and> c \<le> 57" | "c = 43 \<and> result = []" | "c \<in> {32, 45, 40, 41}"
    using "2.prems"(1) by (auto split: if_splits)
  then show ?case
  proof cases
    case 1
    then have d: "is_digit (of_nat c)" by (simp add: is_digit_rune)
    then have "(of_nat c :: byte) \<noteq> 43" by (auto simp: is_digit_def)
    with d "2.prems"(2) have "list_all is_digit (trim_plus (result @ [of_nat c]))"
      by (cases result) (auto simp: trim_plus_def has_plus_def)
    with 1 "2.IH"(1) "2.prems"(1) show ?thesis by simp
  next
    case 2
    then show ?thesis using "2.IH"(2) "2.prems"(1) by simp
  next
    case 3
    then show ?thesis using "2.IH"(3) "2.prems" by auto
  qed
qed

lemma normalize_ok: "normalizeSMSRecipient v = Inr r \<Longrightarrow> recipient_ok r"
  by (auto simp: normalizeSMSRecipient_def Let_def res_simps recipient_ok_def Suc_le_eq
      dest: normalize_loop_shape split: if_splits)

lemma normalize_loop_safe [simp]: "safe (normalize_loop cs result)"
  by (induction cs result rule: normalize_loop.induct) auto

lemma normalize_safe [simp]: "safe (normalizeSMSRecipient v)"
  unfolding normalizeSMSRecipient_def by (rule safe_rbind) (auto simp: Let_def)

subsection \<open>Semi-octets\<close>

definition nibble_pair :: "byte \<Rightarrow> byte \<Rightarrow> byte" where
  "nibble_pair low high = push_bit 4 high OR low"

lemma semi_octets_ok:
  "list_all is_digit ds \<Longrightarrow> \<exists>bs. semi_octets_loop ds = Inr bs \<and> length bs = (length ds + 1) div 2"
  by (induction ds rule: semi_octets_loop.induct) auto

lemma encodeSemiOctets_ok:
  assumes "recipient_ok r"
  obtains bs where "encodeSemiOctets (trim_plus r) = Inr bs"
    "length bs = (length (trim_plus r) + 1) div 2"
proof -
  have "trim_plus r \<noteq> []" using assms by (auto simp: recipient_ok_def)
  then show thesis
    using assms that semi_octets_ok [of "trim_plus r"]
    by (auto simp: encodeSemiOctets_def recipient_ok_def)
qed

lemma semi_octets_safe [simp]: "safe (semi_octets_loop ds)"
  by (induction ds rule: semi_octets_loop.induct) auto

lemma encodeSemiOctets_safe [simp]: "safe (encodeSemiOctets ds)"
  by (simp add: encodeSemiOctets_def)

subsection \<open>The PDU that is built\<close>

lemma encodeSubmit_safe [simp]: "safe (encodeSubmitPDUWithHeader r g u h)"
  unfolding encodeSubmitPDUWithHeader_def Let_def submit_first_octet_def submit_user_data_def
  by (intro safe_rbind) (auto split: option.splits)

lemma encodeSubmitPDU_safe [simp]: "safe (encodeSubmitPDU r g u)"
  by (simp add: encodeSubmitPDU_def)

text \<open>The octets before the user data.\<close>

definition submit_prefix :: "gostring \<Rightarrow> byte \<Rightarrow> byte list \<Rightarrow> byte list" where
  "submit_prefix recipient firstOctet address =
     [0x00, firstOctet, 0x00, of_nat (length (trim_plus recipient)),
      if has_plus recipient then 0x91 else 0x81] @ address @ [0x00]"

lemma encodeSubmit_Inr_iff:
  "encodeSubmitPDUWithHeader recipient g u h = Inr p \<longleftrightarrow>
     (\<exists>address fo ud. encodeSemiOctets (trim_plus recipient) = Inr address \<and>
        submit_first_octet h = Inr fo \<and> submit_user_data g u h = Inr ud \<and>
        p = (hex_upper (submit_prefix recipient fo address @ ud),
             length (submit_prefix recipient fo address @ ud) - 1))"
  by (auto simp: encodeSubmitPDUWithHeader_def Let_def submit_prefix_def res_simps)

lemma submit_first_octet_concat [simp]:
  "submit_first_octet (concatUDH reference n i) = Inr 0x61"
  by (simp add: submit_first_octet_def concatUDH_def)

lemma header_septets_concat [simp]: "header_septets (concatUDH reference n i) = 7"
  by (simp add: header_septets_def concatUDH_def)

lemma length_concatUDH [simp]: "length (concatUDH reference n i) = 6"
  by (simp add: concatUDH_def)

lemma encodeUCS2Units_simps [simp]:
  "encodeUCS2Units [] = []"
  "encodeUCS2Units (u # us) = put_be16 u @ encodeUCS2Units us"
  by (simp_all add: encodeUCS2Units_def)

lemma length_encodeUCS2Units [simp]: "length (encodeUCS2Units us) = 2 * length us"
  by (induction us) simp_all

subsection \<open>The two cuts keep their contract\<close>

interpretation gsm7_cut: segmenter "cut_gsm7 153" 153
  by unfold_locales (auto simp: cut_gsm7_def Let_def)

interpretation gsm7_tight: tight_segmenter "cut_gsm7 153" 153
  by unfold_locales (auto simp: cut_gsm7_def Let_def)

interpretation ucs2_cut: segmenter "cut_ucs2 67" 67
  by unfold_locales (auto simp: cut_ucs2_def Let_def)

interpretation ucs2_tight: tight_segmenter "cut_ucs2 67" 67
  by unfold_locales (auto simp: cut_ucs2_def Let_def)

abbreviation gsm7_paired :: "byte list \<Rightarrow> bool" where
  "gsm7_paired \<equiv> paired (\<lambda>b. b = 0x1b) (\<lambda>b. b \<noteq> 0x1b)"

abbreviation ucs2_paired :: "16 word list \<Rightarrow> bool" where
  "ucs2_paired \<equiv> paired high_surrogate low_surrogate"

interpretation gsm7_pairs: pair_segmenter "cut_gsm7 153" 153 "\<lambda>b. b = 0x1b" "\<lambda>b. b \<noteq> 0x1b"
proof unfold_locales
  fix xs :: "byte list"
  assume p: "gsm7_paired xs"
  let ?c = "min 153 (length xs)"
  show "gsm7_paired (take (cut_gsm7 153 xs) xs) \<and> gsm7_paired (drop (cut_gsm7 153 xs) xs)"
  proof (cases "?c < length xs")
    case False
    with p show ?thesis by (simp add: cut_gsm7_def Let_def)
  next
    case True
    then have c: "?c = 153" "153 < length xs" by simp_all
    show ?thesis
    proof (cases "xs ! 152 = 0x1b")
      case True
      then have "xs ! 151 \<noteq> 0x1b"
        using paired_lead_next [OF _ p, of 151] c by simp
      then show ?thesis
        using paired_cut [OF _ p, of 152] True c by (simp add: cut_gsm7_def Let_def)
    next
      case False
      then show ?thesis
        using paired_cut [OF _ p, of 153] c by (simp add: cut_gsm7_def Let_def)
    qed
  qed
qed

lemma ucs2_paired_next:
  "ucs2_paired us \<Longrightarrow> Suc i < length us \<Longrightarrow> high_surrogate (us ! i) \<Longrightarrow> low_surrogate (us ! Suc i)"
proof (induction us arbitrary: i rule: induct_list012)
  case (3 u v us)
  show ?case
  proof (cases "high_surrogate u")
    case True
    with "3.prems" have v: "low_surrogate v" "ucs2_paired us" by auto
    show ?thesis
    proof (cases i)
      case 0
      with v show ?thesis by simp
    next
      case (Suc j)
      with "3.prems" v have "j \<noteq> 0" using high_low_disjoint by (cases j) auto
      then obtain k where "j = Suc k" by (cases j) auto
      with Suc "3.IH"(1) [of k] "3.prems" v show ?thesis by simp
    qed
  next
    case False
    with "3.IH"(2) [of "i - 1"] "3.prems" show ?thesis by (cases i) auto
  qed
qed auto

interpretation ucs2_pairs: pair_segmenter "cut_ucs2 67" 67 high_surrogate low_surrogate
proof unfold_locales
  fix xs :: "16 word list"
  assume p: "ucs2_paired xs"
  let ?c = "min 67 (length xs)"
  have excl: "low_surrogate u \<Longrightarrow> \<not> high_surrogate u" for u using high_low_disjoint by blast
  show "ucs2_paired (take (cut_ucs2 67 xs) xs) \<and> ucs2_paired (drop (cut_ucs2 67 xs) xs)"
  proof (cases "?c < length xs")
    case False
    with p show ?thesis by (simp add: cut_ucs2_def Let_def)
  next
    case True
    then have c: "?c = 67" "67 < length xs" by simp_all
    show ?thesis
    proof (cases "high_surrogate (xs ! 66)")
      case True
      then have "\<not> high_surrogate (xs ! 65)" "low_surrogate (xs ! 67)"
        using paired_lead_next [OF excl p, of 65] ucs2_paired_next [OF p, of 66] c by simp_all
      then show ?thesis
        using paired_cut [OF excl p, of 66] True c by (simp add: cut_ucs2_def Let_def)
    next
      case False
      then show ?thesis
        using paired_cut [OF excl p, of 67] c by (simp add: cut_ucs2_def Let_def)
    qed
  qed
qed

lemma splitGSM7_returns: "\<exists>ss. splitGSM7 septets 153 = Some ss"
  unfolding splitGSM7_def by (rule gsm7_cut.split_returns)

lemma splitUCS2_returns: "\<exists>ss. splitUCS2 units 67 = Some ss"
  unfolding splitUCS2_def by (rule ucs2_cut.split_returns)

lemma encoded_paired: "encodeGSM7_runes rs = Some ss \<Longrightarrow> gsm7_paired ss"
proof (induction rs arbitrary: ss)
  case (Cons r rs)
  then obtain enc rest where "gsm7Encoder r = Some enc" "encodeGSM7_runes rs = Some rest"
    and ss: "ss = enc @ rest"
    by (auto split: option.splits)
  moreover from this(1) have "gsm7_paired enc" by (cases rule: gsm7Encoder_cases) auto
  ultimately show ?case using Cons.IH by (simp add: paired_append)
qed simp

lemma utf16_encode_paired: "ucs2_paired (utf16_encode rs)"
proof (induction rs)
  case (Cons r rs)
  have plain: "\<not> high_surrogate (of_nat r)" if "r < 0xD800 \<or> 0xE000 \<le> r \<and> r < 0x10000"
    using that by (auto simp: high_surrogate_def unat_of_nat_16)
  have err: "\<not> high_surrogate (of_nat rune_error)"
    by (simp add: high_surrogate_def rune_error_def)
  have low: "low_surrogate (of_nat (0xDC00 + (r - 0x10000) mod 1024))"
  proof -
    have m: "(r - 0x10000) mod 1024 \<le> 1023" by (simp add: less_Suc_eq_le [symmetric])
    then have "unat (of_nat (0xDC00 + (r - 0x10000) mod 1024) :: 16 word)
        = 0xDC00 + (r - 0x10000) mod 1024"
      by (intro unat_of_nat_16) simp
    with m show ?thesis by (simp add: low_surrogate_def)
  qed
  then have low': "\<not> high_surrogate (of_nat (0xDC00 + (r - 0x10000) mod 1024))"
    using high_low_disjoint by blast
  from Cons plain err low low' show ?case
    by (auto simp: paired_Cons_plain simp del: of_nat_add)
qed simp

end
