(* ===== verification/Sms_Wap.thy ===== *)
theory Sms_Wap
  imports Go_Text
begin

text \<open>
  The package \<open>internal/smsdecode\<close>: WSP Push (\<open>wsp.go\<close>), MMS notifications (\<open>mms.go\<close>),
  service indications (\<open>si.go\<close>) and the entry points of \<open>decode.go\<close>.  A Go result with
  \<open>ok\<close> false is \<open>Inl (Fail ())\<close>; every index and slice expression goes through the
  checked \<open>idx\<close> and \<open>slice\<close>, so that freedom from panics is a theorem.
\<close>

type_synonym 'a wsp = "(unit, 'a) res"

abbreviation not_ok :: "'a wsp" where
  "not_ok \<equiv> Inl (Fail ())"

subsection \<open>WSP primitives\<close>

text \<open>At most five octets of seven bits each; the value stays below \<open>2 ^ 35\<close>.\<close>

fun readUintvar_loop :: "byte list \<Rightarrow> nat \<Rightarrow> nat \<Rightarrow> nat \<Rightarrow> (nat \<times> nat) wsp" where
  "readUintvar_loop data index v 0 = not_ok"
| "readUintvar_loop data index v (Suc n) =
     (if index \<ge> length data then not_ok
      else rbind (idx data index) (\<lambda>octet.
        let v' = v * 128 + unat (octet AND 0x7f) in
        if octet AND 0x80 = 0 then Inr (v', index + 1)
        else readUintvar_loop data (index + 1) v' n))"

definition readUintvar :: "byte list \<Rightarrow> nat \<Rightarrow> (nat \<times> nat) wsp" where
  "readUintvar data index = readUintvar_loop data index 0 5"

definition readValueLength :: "byte list \<Rightarrow> nat \<Rightarrow> (nat \<times> nat) wsp" where
  "readValueLength data index =
     (if index \<ge> length data then not_ok
      else rbind (idx data index) (\<lambda>octet.
        if octet < 31 then Inr (unat octet, index + 1)
        else if octet = 31 then readUintvar data (index + 1)
        else not_ok))"

definition readCString :: "byte list \<Rightarrow> nat \<Rightarrow> (gostring \<times> nat) wsp" where
  "readCString data index =
     (if index \<ge> length data then not_ok
      else rbind (slice data index (length data)) (\<lambda>rest.
        case index_byte rest 0 of
          None \<Rightarrow> Inr (rest, length data)
        | Some e \<Rightarrow> rbind (slice data index (index + e)) (\<lambda>s. Inr (s, index + e + 1))))"

definition skipValueLengthPayload :: "byte list \<Rightarrow> nat \<Rightarrow> nat wsp" where
  "skipValueLengthPayload data index =
     rbind (readValueLength data index) (\<lambda>(len, nxt).
       if nxt + len > length data then not_ok else Inr (nxt + len))"

definition skipLongInteger :: "byte list \<Rightarrow> nat \<Rightarrow> nat wsp" where
  "skipLongInteger data index =
     (if index \<ge> length data then not_ok
      else rbind (idx data index) (\<lambda>b.
        if b < 1 \<or> b > 30 then not_ok
        else if index + 1 + unat b > length data then not_ok
        else Inr (index + 1 + unat b)))"

definition skipTextString :: "byte list \<Rightarrow> nat \<Rightarrow> nat wsp" where
  "skipTextString data index =
     (if index > length data then not_ok
      else rbind (slice data index (length data)) (\<lambda>rest.
        case index_byte rest 0 of
          None \<Rightarrow> Inr (length data)
        | Some e \<Rightarrow> Inr (index + e + 1)))"

definition skipShortInteger :: "byte list \<Rightarrow> nat \<Rightarrow> nat wsp" where
  "skipShortInteger data index =
     (if index \<ge> length data then not_ok
      else rbind (idx data index) (\<lambda>b. if b AND 0x80 = 0 then not_ok else Inr (index + 1)))"

definition wspWellKnownContentTypes :: "byte \<Rightarrow> gostring option" where
  "wspWellKnownContentTypes =
     map_of [(0x03, str ''text/plain''), (0x2d, str ''text/vnd.wap.si''),
             (0x2e, str ''application/vnd.wap.sic''),
             (0x3e, str ''application/vnd.wap.mms-message'')]"

definition well_known_type :: "byte \<Rightarrow> (gostring \<times> nat) wsp" where
  "well_known_type b =
     (case wspWellKnownContentTypes (b AND 0x7f) of None \<Rightarrow> not_ok | Some name \<Rightarrow> Inr (name, 1))"

definition readWSPMediaType :: "byte list \<Rightarrow> (gostring \<times> nat) wsp" where
  "readWSPMediaType media =
     (if length media = 0 then not_ok
      else rbind (idx media 0) (\<lambda>b.
        if b AND 0x80 \<noteq> 0 then well_known_type b else readCString media 0))"

definition readWSPContentType :: "byte list \<Rightarrow> (gostring \<times> nat) wsp" where
  "readWSPContentType header =
     (if length header = 0 then not_ok
      else rbind (idx header 0) (\<lambda>b.
        if b AND 0x80 \<noteq> 0 then well_known_type b
        else if b < 32 then
          rbind (readValueLength header 0) (\<lambda>(len, index).
            if index + len > length header then not_ok
            else rbind (slice header index (index + len)) (\<lambda>media.
                 rbind (readWSPMediaType media) (\<lambda>(name, _). Inr (name, index + len))))
        else readCString header 0))"

definition parseWSPPush :: "byte list \<Rightarrow> (gostring \<times> byte list) wsp" where
  "parseWSPPush payload =
     (if length payload < 4 then not_ok
      else rbind (idx payload 1) (\<lambda>pduType.
        if pduType \<noteq> 0x06 \<and> pduType \<noteq> 0x07 then not_ok
        else rbind (readUintvar payload 2) (\<lambda>(headersLen, index).
          if headersLen < 1 \<or> index + headersLen > length payload then not_ok
          else rbind (slice payload index (index + headersLen)) (\<lambda>headerBytes.
               rbind (readWSPContentType headerBytes) (\<lambda>(contentType, _).
                 if contentType = [] then not_ok
                 else rbind (slice payload (index + headersLen) (length payload)) (\<lambda>body.
                   Inr (contentType, body)))))))"

subsection \<open>Readable text\<close>

definition readable_wap :: "text_env \<Rightarrow> gostring \<Rightarrow> bool" where
  "readable_wap env text \<longleftrightarrow> text \<noteq> [] \<and> mostly_printable env text \<and> utf8_valid text"

definition normalizeContentType :: "text_env \<Rightarrow> gostring \<Rightarrow> gostring" where
  "normalizeContentType env v =
     (let v1 = to_lower (u_lower env) (trim_space v) in
      case index_byte v1 59 of None \<Rightarrow> v1 | Some i \<Rightarrow> trim_space (take i v1))"

subsection \<open>MMS notifications\<close>

definition trimTrailingNUL :: "byte list \<Rightarrow> byte list" where
  "trimTrailingNUL payload = rev (dropWhile (\<lambda>b. b = 0) (rev payload))"

definition decodeLatin1 :: "byte list \<Rightarrow> gostring" where
  "decodeLatin1 payload = string_of_runes (map unat payload)"

fun pair_units :: "bool \<Rightarrow> byte list \<Rightarrow> 16 word list" where
  "pair_units littleEndian (a # b # rest) =
     (if littleEndian then be16 b a else be16 a b) # pair_units littleEndian rest"
| "pair_units littleEndian _ = []"

definition decodeUTF16_wap :: "byte list \<Rightarrow> bool \<Rightarrow> gostring option" where
  "decodeUTF16_wap payload littleEndian =
     (if payload = [] then Some []
      else if odd (length payload) then None
      else
        let (le, body) =
          (if take 2 payload = [0xfe, 0xff] then (False, drop 2 payload)
           else if take 2 payload = [0xff, 0xfe] then (True, drop 2 payload)
           else (littleEndian, payload))
        in Some (string_of_runes (utf16_decode (pair_units le body))))"

definition decodeGB18030_wap :: "text_env \<Rightarrow> byte list \<Rightarrow> gostring option" where
  "decodeGB18030_wap env payload =
     (case gb18030 env payload of
        None \<Rightarrow> None
      | Some text \<Rightarrow> if readable_wap env text then Some text else None)"

text \<open>The last resort after the charset's own decoder: readable UTF-8, then GB18030.\<close>

definition charset_fallback :: "text_env \<Rightarrow> byte list \<Rightarrow> gostring option" where
  "charset_fallback env payload =
     (if utf8_valid payload \<and> readable_wap env payload then Some payload
      else decodeGB18030_wap env payload)"

definition or_else :: "'a option \<Rightarrow> 'a option \<Rightarrow> 'a option" where
  "or_else a b = (case a of Some x \<Rightarrow> Some x | None \<Rightarrow> b)"

definition decodeTextWithCharset :: "text_env \<Rightarrow> byte list \<Rightarrow> nat \<Rightarrow> gostring option" where
  "decodeTextWithCharset env payload0 charset =
     (let payload = trimTrailingNUL payload0 in
      if payload = [] then Some []
      else if charset \<in> {0, 3, 106} then
        (if utf8_valid payload then Some payload
         else or_else (decodeGB18030_wap env payload) (charset_fallback env payload))
      else if charset = 4 then Some (decodeLatin1 payload)
      else if charset \<in> {1000, 1015, 1013} then
        or_else (decodeUTF16_wap payload False) (charset_fallback env payload)
      else if charset = 1014 then
        or_else (decodeUTF16_wap payload True) (charset_fallback env payload)
      else if charset \<in> {113, 114, 2025} then
        or_else (decodeGB18030_wap env payload) (charset_fallback env payload)
      else charset_fallback env payload)"

text \<open>
  The multi-octet form shifts into a 64-bit \<open>int\<close>; only equality with small constants is
  ever asked of the value, so it is kept modulo \<open>2 ^ 64\<close>.
\<close>

definition readWellKnownCharset :: "byte list \<Rightarrow> (nat \<times> nat) wsp" where
  "readWellKnownCharset data =
     (if length data = 0 then not_ok
      else rbind (idx data 0) (\<lambda>b.
        if b AND 0x80 \<noteq> 0 then Inr (unat (b AND 0x7f), 1)
        else if 1 \<le> b \<and> b \<le> 30 then
          (if 1 + unat b > length data then not_ok
           else rbind (slice data 1 (1 + unat b)) (\<lambda>octets.
             Inr (foldl (\<lambda>v octet. (v * 256 + unat octet) mod 2 ^ 64) 0 octets, 1 + unat b)))
        else if b = 31 then readUintvar data 1
        else not_ok))"

definition decodeCharsetText :: "text_env \<Rightarrow> byte list \<Rightarrow> (unit, gostring option) res" where
  "decodeCharsetText env payload =
     (if payload = [] then Inr (Some [])
      else (case readWellKnownCharset payload of
          Inl (Fail _) \<Rightarrow> Inr (decodeTextWithCharset env payload 0)
        | Inl Panic \<Rightarrow> Inl Panic
        | Inl Hang \<Rightarrow> Inl Hang
        | Inr (charset, index) \<Rightarrow>
            rbind (slice payload index (length payload)) (\<lambda>rest.
              Inr (decodeTextWithCharset env rest charset))))"

text \<open>An undecodable charset leaves the empty text, as the discarded \<open>ok\<close> does.\<close>

definition decodeEncodedString :: "text_env \<Rightarrow> byte list \<Rightarrow> (gostring \<times> nat) wsp" where
  "decodeEncodedString env data =
     (if length data = 0 then not_ok
      else rbind (idx data 0) (\<lambda>b.
        if b \<ge> 32 then readCString data 0
        else rbind (readValueLength data 0) (\<lambda>(len, index).
          if index + len > length data then not_ok
          else rbind (slice data index (index + len)) (\<lambda>inner.
               rbind (decodeCharsetText env inner) (\<lambda>text.
                 Inr ((case text of Some t \<Rightarrow> t | None \<Rightarrow> []), index + len))))))"

definition mmsResult :: "text_env \<Rightarrow> gostring \<Rightarrow> bool \<Rightarrow> gostring wsp" where
  "mmsResult env subject0 notification =
     (let subject = trim_space subject0 in
      if subject \<noteq> [] \<and> readable_wap env subject then Inr subject
      else if notification then Inr (str ''MMS'') else not_ok)"

datatype mms_kind =
    MMSMessageType | MMSSubject | MMSValueLength | MMSLongInteger | MMSTextString
  | MMSShortInteger | MMSEncodedString | MMSContentType | MMSUnknown

definition mms_field :: "byte \<Rightarrow> mms_kind" where
  "mms_field tag =
     (if tag = 0x8c then MMSMessageType
      else if tag = 0x96 then MMSSubject
      else if tag = 0x89 \<or> tag \<in> {0x88, 0x87, 0x9d} then MMSValueLength
      else if tag \<in> {0x85, 0x8e, 0x9f} then MMSLongInteger
      else if tag \<in> {0x98, 0x83, 0x8b, 0x9e} then MMSTextString
      else if tag \<in> {0x8d, 0x8a, 0x8f, 0x86, 0x90, 0x91, 0x92, 0x94, 0x95, 0x99, 0x9b, 0x9c}
           then MMSShortInteger
      else if tag \<in> {0x97, 0x93, 0x9a} then MMSEncodedString
      else if tag = 0x84 then MMSContentType
      else MMSUnknown)"

text \<open>
  One header field after its tag: the new index, and what it says about subject and
  message type.  \<open>Fail\<close> ends the scan with what was found so far.
\<close>

definition mms_step ::
  "text_env \<Rightarrow> byte list \<Rightarrow> byte \<Rightarrow> nat \<Rightarrow> gostring \<Rightarrow> bool \<Rightarrow> (nat \<times> gostring \<times> bool) wsp" where
  "mms_step env body tag index subject notification =
     (let keep = (\<lambda>r. rbind r (\<lambda>i. Inr (i, subject, notification)));
          rest = slice body index (length body)
      in case mms_field tag of
           MMSMessageType \<Rightarrow>
             (if index \<ge> length body then not_ok
              else rbind (idx body index) (\<lambda>b.
                Inr (index + 1, subject, notification \<or> b = 0x82)))
         | MMSSubject \<Rightarrow>
             rbind rest (\<lambda>r. rbind (decodeEncodedString env r) (\<lambda>(text, consumed).
               Inr (index + consumed, text, notification)))
         | MMSValueLength \<Rightarrow> keep (skipValueLengthPayload body index)
         | MMSLongInteger \<Rightarrow> keep (skipLongInteger body index)
         | MMSTextString \<Rightarrow> keep (skipTextString body index)
         | MMSShortInteger \<Rightarrow> keep (skipShortInteger body index)
         | MMSEncodedString \<Rightarrow>
             keep (rbind rest (\<lambda>r. rbind (decodeEncodedString env r) (\<lambda>(_, consumed).
               Inr (index + consumed))))
         | MMSContentType \<Rightarrow>
             keep (rbind rest (\<lambda>r. rbind (readWSPContentType r) (\<lambda>(_, consumed).
               Inr (index + consumed))))
         | MMSUnknown \<Rightarrow> not_ok)"

lemma readUintvar_loop_next:
  "readUintvar_loop data index v n = Inr (w, nxt) \<Longrightarrow> index < nxt \<and> nxt \<le> length data"
proof (induction data index v n rule: readUintvar_loop.induct)
  case (2 data index v n)
  then show ?case by (fastforce simp: Let_def res_simps split: if_splits)
qed simp

lemma readUintvar_next:
  "readUintvar data index = Inr (w, nxt) \<Longrightarrow> index < nxt \<and> nxt \<le> length data"
  unfolding readUintvar_def by (rule readUintvar_loop_next)

lemma readValueLength_next:
  "readValueLength data index = Inr (w, nxt) \<Longrightarrow> index < nxt \<and> nxt \<le> length data"
  by (auto simp: readValueLength_def res_simps dest: readUintvar_next split: if_splits)

lemma readCString_next:
  "readCString data index = Inr (s, nxt) \<Longrightarrow> index < nxt \<and> nxt \<le> length data"
  by (auto simp: readCString_def res_simps dest!: index_byte_Some split: if_splits option.splits)

lemma decodeEncodedString_next:
  "decodeEncodedString env data = Inr (s, n) \<Longrightarrow> 0 < n \<and> n \<le> length data"
  by (auto simp: decodeEncodedString_def res_simps
      dest!: readCString_next readValueLength_next split: if_splits)

lemma readWSPContentType_next:
  "readWSPContentType header = Inr (s, n) \<Longrightarrow> 0 < n \<and> n \<le> length header"
  by (auto simp: readWSPContentType_def well_known_type_def res_simps Suc_le_eq
      dest!: readCString_next readValueLength_next split: if_splits option.splits)

lemma mms_step_next:
  assumes "mms_step env body tag index s n = Inr (i, s', n')" "index \<le> length body"
  shows "index \<le> i \<and> i \<le> length body"
proof -
  have "skipValueLengthPayload body index = Inr i \<Longrightarrow> index \<le> i \<and> i \<le> length body"
    by (auto simp: skipValueLengthPayload_def res_simps dest!: readValueLength_next
        split: if_splits)
  moreover have "skipLongInteger body index = Inr i \<Longrightarrow> index \<le> i \<and> i \<le> length body"
    by (auto simp: skipLongInteger_def res_simps split: if_splits)
  moreover have "skipTextString body index = Inr i \<Longrightarrow> index \<le> i \<and> i \<le> length body"
    by (auto simp: skipTextString_def res_simps dest!: index_byte_Some
        split: if_splits option.splits)
  moreover have "skipShortInteger body index = Inr i \<Longrightarrow> index \<le> i \<and> i \<le> length body"
    by (auto simp: skipShortInteger_def res_simps split: if_splits)
  ultimately show ?thesis
    using assms
    by (cases "mms_field tag")
      (auto simp: mms_step_def Let_def res_simps split: if_splits
        dest!: decodeEncodedString_next readWSPContentType_next)
qed

function mms_loop :: "text_env \<Rightarrow> byte list \<Rightarrow> nat \<Rightarrow> gostring \<Rightarrow> bool \<Rightarrow> gostring wsp" where
  "mms_loop env body index subject notification =
     (if index \<ge> length body then mmsResult env subject notification
      else rbind (idx body index) (\<lambda>tag.
        case mms_step env body tag (index + 1) subject notification of
          Inr (index', subject', notification') \<Rightarrow>
            mms_loop env body index' subject' notification'
        | Inl (Fail _) \<Rightarrow> mmsResult env subject notification
        | Inl Panic \<Rightarrow> Inl Panic
        | Inl Hang \<Rightarrow> Inl Hang))"
  by pat_completeness auto
termination
  by (relation "measure (\<lambda>(env, body, index, s, n). length body - index)")
    (auto dest!: mms_step_next)

declare mms_loop.simps [simp del]

definition decodeMMSNotificationText :: "text_env \<Rightarrow> byte list \<Rightarrow> gostring wsp" where
  "decodeMMSNotificationText env body = mms_loop env body 0 [] False"

subsection \<open>Service indications\<close>

definition asciiLower :: "byte list \<Rightarrow> byte list" where
  "asciiLower = map ascii_lower"

definition extractXMLIndication :: "text_env \<Rightarrow> byte list \<Rightarrow> gostring wsp" where
  "extractXMLIndication env body =
     (let lower = asciiLower body in
      case index_sub lower (str ''<indication'') of
        None \<Rightarrow> not_ok
      | Some start \<Rightarrow>
          rbind (slice body start (length body)) (\<lambda>from_start.
          case index_byte from_start 62 of
            None \<Rightarrow> not_ok
          | Some openEnd \<Rightarrow>
              (let innerStart = start + openEnd + 1 in
               rbind (slice lower innerStart (length lower)) (\<lambda>inner.
               case index_sub inner (str ''</indication'') of
                 None \<Rightarrow> not_ok
               | Some e \<Rightarrow>
                   rbind (slice body innerStart (innerStart + e)) (\<lambda>raw.
                     let text = trim_space raw in
                     if readable_wap env text then Inr text else not_ok)))))"

definition stringTableText :: "text_env \<Rightarrow> byte list \<Rightarrow> nat \<Rightarrow> gostring wsp" where
  "stringTableText env table offset =
     (if offset \<ge> length table then not_ok
      else rbind (slice table offset (length table)) (\<lambda>rest.
        let e = (case index_byte rest 0 of None \<Rightarrow> length table - offset | Some i \<Rightarrow> i) in
        rbind (slice table offset (offset + e)) (\<lambda>raw.
          let text = trim_space raw in
          if readable_wap env text then Inr text else not_ok)))"

definition looksLikeURL :: "text_env \<Rightarrow> gostring \<Rightarrow> bool" where
  "looksLikeURL env text =
     (let lower = to_lower (u_lower env) text in
      has_prefix lower (str ''http://'') \<or> has_prefix lower (str ''https://'')
      \<or> has_prefix lower (str ''www.''))"

definition pickIndicationString :: "text_env \<Rightarrow> gostring list \<Rightarrow> gostring wsp" where
  "pickIndicationString env candidates =
     (let best = foldl (\<lambda>best text.
            if looksLikeURL env text then best
            else if length (runes_of text) \<ge> length (runes_of best) then text else best)
          [] candidates
      in if best \<noteq> [] then Inr best else not_ok)"

text \<open>
  The token loop.  A string or table reference that cannot be read moves the index to the
  end of the body, which ends the loop.
\<close>

function wbxml_loop ::
  "text_env \<Rightarrow> byte list \<Rightarrow> byte list \<Rightarrow> nat \<Rightarrow> gostring list \<Rightarrow> gostring list wsp" where
  "wbxml_loop env body table index candidates =
     (if index \<ge> length body then Inr candidates
      else rbind (idx body index) (\<lambda>b.
        if b = 0x03 then
          (case readCString body (index + 1) of
             Inr (raw, nxt) \<Rightarrow>
               (let text = trim_space raw in
                wbxml_loop env body table nxt
                  (if readable_wap env text then candidates @ [text] else candidates))
           | Inl (Fail _) \<Rightarrow> Inr candidates
           | Inl Panic \<Rightarrow> Inl Panic
           | Inl Hang \<Rightarrow> Inl Hang)
        else if b = 0x83 then
          (case readUintvar body (index + 1) of
             Inr (offset, nxt) \<Rightarrow>
               (case stringTableText env table offset of
                  Inr text \<Rightarrow> wbxml_loop env body table nxt (candidates @ [text])
                | Inl (Fail _) \<Rightarrow> wbxml_loop env body table nxt candidates
                | Inl Panic \<Rightarrow> Inl Panic
                | Inl Hang \<Rightarrow> Inl Hang)
           | Inl (Fail _) \<Rightarrow> Inr candidates
           | Inl Panic \<Rightarrow> Inl Panic
           | Inl Hang \<Rightarrow> Inl Hang)
        else wbxml_loop env body table (index + 1) candidates))"
  by pat_completeness auto
termination
  by (relation "measure (\<lambda>(env, body, table, index, c). length body - index)")
    (auto dest!: readCString_next readUintvar_next)

declare wbxml_loop.simps [simp del]

definition extractWBXMLStrings :: "text_env \<Rightarrow> byte list \<Rightarrow> gostring wsp" where
  "extractWBXMLStrings env body =
     (if length body < 4 then not_ok
      else rbind (readUintvar body 1) (\<lambda>(_, i1).
           rbind (readUintvar body i1) (\<lambda>(_, i2).
           rbind (readUintvar body i2) (\<lambda>(tableLen, i3).
             if i3 + tableLen > length body then not_ok
             else rbind (slice body i3 (i3 + tableLen)) (\<lambda>table.
                  rbind (wbxml_loop env body table (i3 + tableLen) []) (\<lambda>candidates.
                    pickIndicationString env candidates))))))"

definition decodeServiceIndicationText :: "text_env \<Rightarrow> gostring \<Rightarrow> byte list \<Rightarrow> gostring wsp" where
  "decodeServiceIndicationText env contentType body =
     (if normalizeContentType env contentType = str ''text/vnd.wap.si''
      then extractXMLIndication env body
      else (case extractWBXMLStrings env body of
              Inl (Fail _) \<Rightarrow> extractXMLIndication env body
            | r \<Rightarrow> r))"

subsection \<open>Entry points\<close>

definition DecodeDisplayText :: "text_env \<Rightarrow> byte list \<Rightarrow> gostring wsp" where
  "DecodeDisplayText env payload =
     rbind (parseWSPPush payload) (\<lambda>(contentType, body).
       let t = normalizeContentType env contentType in
       if t = str ''application/vnd.wap.mms-message'' then decodeMMSNotificationText env body
       else if t = str ''application/vnd.wap.sic'' \<or> t = str ''text/vnd.wap.si''
            then decodeServiceIndicationText env contentType body
       else if t = str ''text/plain'' then
         (let text = trimTrailingNUL body in
          if readable_wap env text \<and> trim_space text \<noteq> [] then Inr text else not_ok)
       else not_ok)"

definition minHexPayloadBytes :: nat where
  "minHexPayloadBytes = 8"

definition decodeHexPayload :: "gostring \<Rightarrow> byte list wsp" where
  "decodeHexPayload v0 =
     (let v = trim_space v0 in
      if length v < minHexPayloadBytes * 2 \<or> odd (length v) then not_ok
      else if \<exists>c \<in> set (runes_of v).
                \<not> (48 \<le> c \<and> c \<le> 57 \<or> 65 \<le> c \<and> c \<le> 70 \<or> 97 \<le> c \<and> c \<le> 102)
           then not_ok
      else (case hex_decode v of
              None \<Rightarrow> not_ok
            | Some raw \<Rightarrow> if length raw < minHexPayloadBytes then not_ok else Inr raw))"

definition DecodeHexDisplayText :: "text_env \<Rightarrow> gostring \<Rightarrow> gostring wsp" where
  "DecodeHexDisplayText env v = rbind (decodeHexPayload v) (DecodeDisplayText env)"

definition Preview :: "text_env \<Rightarrow> gostring \<Rightarrow> (unit, gostring) res" where
  "Preview env v =
     (case DecodeHexDisplayText env v of
        Inr text \<Rightarrow> Inr text
      | Inl (Fail _) \<Rightarrow> Inr v
      | Inl Panic \<Rightarrow> Inl Panic
      | Inl Hang \<Rightarrow> Inl Hang)"

subsection \<open>No payload makes the decoder panic\<close>

lemma readUintvar_loop_safe [simp]: "safe (readUintvar_loop data index v n)"
  by (induction data index v n rule: readUintvar_loop.induct) (auto simp: Let_def)

lemma readUintvar_safe [simp]: "safe (readUintvar data index)"
  by (simp add: readUintvar_def)

lemma readValueLength_safe [simp]: "safe (readValueLength data index)"
  by (simp add: readValueLength_def)

lemma readCString_safe [simp]: "safe (readCString data index)"
  by (auto simp: readCString_def dest!: index_byte_Some split: option.splits)

lemma skips_safe [simp]:
  "safe (skipValueLengthPayload data index)" "safe (skipLongInteger data index)"
  "safe (skipTextString data index)" "safe (skipShortInteger data index)"
  by (auto simp: skipLongInteger_def skipTextString_def skipShortInteger_def
      skipValueLengthPayload_def split: option.splits)

lemma well_known_type_safe [simp]: "safe (well_known_type b)"
  by (simp add: well_known_type_def split: option.splits)

lemma readWSPMediaType_safe [simp]: "safe (readWSPMediaType media)"
  by (simp add: readWSPMediaType_def)

lemma readWSPContentType_safe [simp]: "safe (readWSPContentType header)"
  unfolding readWSPContentType_def
  by (auto dest!: readValueLength_next)

lemma parseWSPPush_safe [simp]: "safe (parseWSPPush payload)"
  unfolding parseWSPPush_def
  by (auto)

lemma readWellKnownCharset_safe [simp]: "safe (readWellKnownCharset data)"
  unfolding readWellKnownCharset_def
  by (auto)

lemma readWellKnownCharset_next:
  "readWellKnownCharset data = Inr (v, n) \<Longrightarrow> n \<le> length data"
  by (auto simp: readWellKnownCharset_def res_simps Suc_le_eq dest!: readUintvar_next
      split: if_splits)

lemma decodeCharsetText_safe [simp]: "safe (decodeCharsetText env payload)"
  using readWellKnownCharset_safe [of payload]
  by (auto simp: decodeCharsetText_def dest!: readWellKnownCharset_next
      split: sum.splits fault.splits)

lemma decodeEncodedString_safe [simp]: "safe (decodeEncodedString env data)"
  unfolding decodeEncodedString_def
  by (auto)

lemma mmsResult_safe [simp]: "safe (mmsResult env s n)"
  by (simp add: mmsResult_def Let_def)

lemma mms_step_safe: "index \<le> length body \<Longrightarrow> safe (mms_step env body tag index s n)"
  by (cases "mms_field tag")
    (auto simp: mms_step_def Let_def)

lemma mms_loop_safe [simp]: "safe (mms_loop env body index s n)"
proof (induction env body index s n rule: mms_loop.induct)
  case (1 env body index s n)
  show ?case
  proof (cases "index \<ge> length body")
    case True
    then show ?thesis by (subst mms_loop.simps) simp
  next
    case False
    then have "safe (mms_step env body (body ! index) (index + 1) s n)"
      by (intro mms_step_safe) simp
    with False 1 show ?thesis
      by (subst mms_loop.simps) (auto split: sum.splits fault.splits)
  qed
qed

lemma extractXMLIndication_safe [simp]: "safe (extractXMLIndication env body)"
  by (auto simp: extractXMLIndication_def Let_def asciiLower_def dest!: index_byte_Some
      index_sub_Some split: option.splits)

lemma stringTableText_safe [simp]: "safe (stringTableText env table offset)"
  by (auto simp: stringTableText_def Let_def dest!: index_byte_Some split: option.splits)

lemma wbxml_loop_safe [simp]: "safe (wbxml_loop env body table index c)"
proof (induction env body table index c rule: wbxml_loop.induct)
  case (1 env body table index c)
  show ?case
    using 1 readCString_safe [of body "index + 1"] readUintvar_safe [of body "index + 1"]
      stringTableText_safe [of env table]
    by (subst wbxml_loop.simps)
      (auto simp: Let_def safe_def split: sum.splits fault.splits)
qed

lemma pickIndicationString_safe [simp]: "safe (pickIndicationString env c)"
  by (simp add: pickIndicationString_def Let_def)

lemma extractWBXMLStrings_safe [simp]: "safe (extractWBXMLStrings env body)"
  unfolding extractWBXMLStrings_def
  by (auto)

lemma decodeServiceIndicationText_safe [simp]: "safe (decodeServiceIndicationText env t body)"
  using extractWBXMLStrings_safe [of env body]
  by (auto simp: decodeServiceIndicationText_def split: sum.splits fault.splits)

lemma DecodeDisplayText_safe [simp]: "safe (DecodeDisplayText env payload)"
  unfolding DecodeDisplayText_def
  by (auto simp: Let_def decodeMMSNotificationText_def)

lemma DecodeHexDisplayText_safe [simp]: "safe (DecodeHexDisplayText env v)"
  unfolding DecodeHexDisplayText_def decodeHexPayload_def
  by (auto simp: Let_def split: option.splits)

end
