(* ===== verification/Sms_Decode.thy ===== *)
theory Sms_Decode
  imports Sms_Septets Sms_Wap
begin

text \<open>
  The receiving side of \<open>internal/device/sms_pdu.go\<close>: \<open>decodeSMSPDU\<close> and everything it
  calls.  A decoder fills the message as far as it gets and returns it together with its
  error, so its result is a pair.
\<close>

type_synonym decoded = "SMSMessage \<times> sms_err fault option"

definition on_ok :: "SMSMessage \<Rightarrow> (sms_err, 'a) res \<Rightarrow> ('a \<Rightarrow> decoded) \<Rightarrow> decoded" where
  "on_ok m r k = (case r of Inl e \<Rightarrow> (m, Some e) | Inr x \<Rightarrow> k x)"

lemma on_ok_Inr [simp]: "on_ok m (Inr x) k = k x"
  by (simp add: on_ok_def)

lemma on_ok_Inl [simp]: "on_ok m (Inl e) k = (m, Some e)"
  by (simp add: on_ok_def)

subsection \<open>The cursor\<close>

record pduCursor =
  pc_data :: "byte list"
  pc_index :: nat

definition cursor_byte :: "pduCursor \<Rightarrow> (sms_err, byte \<times> pduCursor) res" where
  "cursor_byte c =
     (if pc_index c \<ge> length (pc_data c) then Inl (Fail ErrPDUTruncated)
      else rbind (idx (pc_data c) (pc_index c)) (\<lambda>b. Inr (b, c\<lparr>pc_index := pc_index c + 1\<rparr>)))"

definition cursor_bytes :: "pduCursor \<Rightarrow> nat \<Rightarrow> (sms_err, byte list \<times> pduCursor) res" where
  "cursor_bytes c count =
     (if pc_index c + count > length (pc_data c) then Inl (Fail ErrPDUTruncated)
      else rbind (slice (pc_data c) (pc_index c) (pc_index c + count)) (\<lambda>v.
             Inr (v, c\<lparr>pc_index := pc_index c + count\<rparr>)))"

definition cursor_rest :: "pduCursor \<Rightarrow> (sms_err, byte list) res" where
  "cursor_rest c = slice (pc_data c) (pc_index c) (length (pc_data c))"

subsection \<open>Addresses\<close>

definition nibbles :: "byte list \<Rightarrow> byte list" where
  "nibbles bs = concat (map (\<lambda>octet. [octet AND 0x0f, drop_bit 4 octet]) bs)"

fun numeric_loop :: "byte list \<Rightarrow> nat \<Rightarrow> nat \<Rightarrow> gostring" where
  "numeric_loop [] written digits = []"
| "numeric_loop (digit # rest) written digits =
     (if written \<ge> digits then []
      else if digit \<le> 9 then (48 + digit) # numeric_loop rest (written + 1) digits
      else numeric_loop rest written digits)"

definition decodeNumericAddress :: "byte list \<Rightarrow> nat \<Rightarrow> byte \<Rightarrow> gostring" where
  "decodeNumericAddress v digits toa =
     (if toa AND 0x70 = 0x10 then [43] else []) @ numeric_loop (nibbles v) 0 digits"

definition deliverUserDataFits :: "byte list \<Rightarrow> (sms_err, bool) res" where
  "deliverUserDataFits afterAddress =
     (if length afterAddress < 10 then Inr False
      else rbind (idx afterAddress 1) (\<lambda>dcs.
           rbind (idx afterAddress 9) (\<lambda>udlByte.
           rbind (slice afterAddress 10 (length afterAddress)) (\<lambda>ud.
             let udl = unat udlByte;
                 expected = (if dcs AND 0x0c = 0 then (udl * 7 + 7) div 8 else udl)
             in Inr (expected \<le> length ud)))))"

definition alphanumericTPAddressSize :: "byte \<Rightarrow> byte list \<Rightarrow> (sms_err, nat \<times> nat) res" where
  "alphanumericTPAddressSize lengthByte rest =
     (let len = unat lengthByte;
          stdBytes = (len + 1) div 2; stdSeptets = len * 4 div 7;
          altBytes = (len * 7 + 7) div 8; altSeptets = len;
          stdOK = stdBytes \<le> length rest; altOK = altBytes \<le> length rest;
          fits = (\<lambda>ok n. if ok then rbind (slice rest n (length rest)) deliverUserDataFits
                         else Inr False)
      in if stdBytes = altBytes then Inr (stdBytes, stdSeptets)
         else if stdOK \<and> length rest = stdBytes \<and> length rest \<noteq> altBytes
              then Inr (stdBytes, stdSeptets)
         else if altOK \<and> length rest = altBytes \<and> length rest \<noteq> stdBytes
              then Inr (altBytes, altSeptets)
         else rbind (fits stdOK stdBytes) (\<lambda>stdFits.
           if stdFits then Inr (stdBytes, stdSeptets)
           else rbind (fits altOK altBytes) (\<lambda>altFits.
             if altFits then Inr (altBytes, altSeptets)
             else if stdOK then Inr (stdBytes, stdSeptets)
             else Inr (altBytes, altSeptets))))"

definition address_text ::
  "byte \<Rightarrow> byte \<Rightarrow> nat \<Rightarrow> byte list \<Rightarrow> (sms_err, gostring) res" where
  "address_text len toa septetCount v =
     (if toa AND 0x70 = 0x50 then
        rbind (unpackSeptets v (int septetCount) 0) (\<lambda>septets.
          (case snd (decodeGSM7 septets) of
             None \<Rightarrow> Inr (fst (decodeGSM7 septets))
           | Some e \<Rightarrow> Inl (Fail (ErrGSM7 e))))
      else Inr (decodeNumericAddress v (unat len) toa))"

definition readTPAddress :: "pduCursor \<Rightarrow> (sms_err, gostring \<times> pduCursor) res" where
  "readTPAddress c0 =
     rbind (cursor_byte c0) (\<lambda>(len, c1).
     rbind (cursor_byte c1) (\<lambda>(toa, c2).
     rbind (if toa AND 0x70 = 0x50
            then rbind (cursor_rest c2) (alphanumericTPAddressSize len)
            else Inr ((unat len + 1) div 2, 0)) (\<lambda>(byteCount, septetCount).
     rbind (cursor_bytes c2 byteCount) (\<lambda>(v, c3).
     rbind (address_text len toa septetCount v) (\<lambda>text. Inr (text, c3))))))"

subsection \<open>User data headers\<close>

text \<open>
  The three scans of the header share one loop over its elements: \<open>f\<close> looks at an
  identifier and its value and may stop with a result, \<open>trunc\<close> is the result at an element
  that overruns the header, \<open>fin\<close> the one at its end.
\<close>

fun udh_walk :: "(byte \<Rightarrow> byte list \<Rightarrow> 'r option) \<Rightarrow> 'r \<Rightarrow> 'r \<Rightarrow> byte list \<Rightarrow> 'r" where
  "udh_walk f trunc fin (identifier # len # rest) =
     (if unat len > length rest then trunc
      else (case f identifier (take (unat len) rest) of
              Some r \<Rightarrow> r
            | None \<Rightarrow> udh_walk f trunc fin (drop (unat len) rest)))"
| "udh_walk f trunc fin _ = fin"

definition userDataHeaderLanguage :: "byte list \<Rightarrow> byte \<Rightarrow> nat option" where
  "userDataHeaderLanguage header identifier =
     udh_walk (\<lambda>i v. if i = identifier \<and> length v = 1 then Some (Some (unat (v ! 0))) else None)
       None None header"

definition hasApplicationPortAddressing :: "byte list \<Rightarrow> bool" where
  "hasApplicationPortAddressing header =
     udh_walk (\<lambda>i v. if i = 0x04 \<and> length v = 2 \<or> i = 0x05 \<and> length v = 4 then Some True else None)
       True False header"

definition parseConcatHeader :: "byte list \<Rightarrow> SMSConcatInfo option" where
  "parseConcatHeader header =
     udh_walk (\<lambda>i v.
       if i = 0x00 \<and> length v = 3 then
         Some (Some \<lparr>Reference = unat (v ! 0), Total = unat (v ! 1), Sequence = unat (v ! 2)\<rparr>)
       else if i = 0x08 \<and> length v = 4 then
         Some (Some \<lparr>Reference = unat (v ! 0) * 256 + unat (v ! 1), Total = unat (v ! 2),
                     Sequence = unat (v ! 3)\<rparr>)
       else None) None None header"

subsection \<open>Alphabets and text\<close>

datatype smsAlphabet = smsAlphabetGSM7 | smsAlphabet8Bit | smsAlphabetUCS2 | smsAlphabetUnknown

definition decodeSMSAlphabet :: "byte \<Rightarrow> smsAlphabet" where
  "decodeSMSAlphabet dcs =
     (if dcs AND 0x80 = 0 then
        (if dcs AND 0x20 \<noteq> 0 then smsAlphabetUnknown
         else (let g = drop_bit 2 dcs AND 0x03 in
           if g = 0 then smsAlphabetGSM7
           else if g = 1 then smsAlphabet8Bit
           else if g = 2 then smsAlphabetUCS2
           else smsAlphabetUnknown))
      else if dcs AND 0xe0 = 0xc0 then smsAlphabetGSM7
      else if dcs AND 0xf0 = 0xe0 then smsAlphabetUCS2
      else if dcs AND 0xf0 = 0xf0 then
        (if dcs AND 0x04 \<noteq> 0 then smsAlphabet8Bit else smsAlphabetGSM7)
      else smsAlphabetUnknown)"

definition isSIMDataDownload :: "byte \<Rightarrow> byte \<Rightarrow> bool" where
  "isSIMDataDownload pid dcs =
     (if pid \<noteq> 0x7f then False
      else if dcs AND 0xf0 = 0xf0 then dcs AND 0x03 = 0x02
      else dcs AND 0xc0 = 0 \<and> dcs AND 0x10 \<noteq> 0 \<and> dcs AND 0x03 = 0x02)"

definition decodeGSM7WithHeader ::
  "text_env \<Rightarrow> byte list \<Rightarrow> byte list \<Rightarrow> gostring \<times> sms_err fault option" where
  "decodeGSM7WithHeader env septets header =
     (let locking = userDataHeaderLanguage header 0x25;
          shift = userDataHeaderLanguage header 0x24
      in if locking = None \<and> shift = None then
           (case decodeGSM7 septets of
              (text, e) \<Rightarrow> (text, map_option (\<lambda>x. Fail (ErrGSM7 x)) e))
         else (case gsm7_national env septets locking shift of
              (text, ok) \<Rightarrow> (text, if ok then None else Some (Fail ErrGSM7Library))))"

definition readableText :: "text_env \<Rightarrow> gostring \<Rightarrow> bool" where
  "readableText env text \<longleftrightarrow> text = [] \<or> mostly_printable env text"

definition decodeUTF16Bytes :: "text_env \<Rightarrow> byte list \<Rightarrow> gostring \<times> bool" where
  "decodeUTF16Bytes env payload0 =
     (if payload0 = [] then ([], True)
      else if odd (length payload0) then ([], False)
      else
        let littleEndian = (take 2 payload0 = [0xff, 0xfe]);
            payload = (if take 2 payload0 = [0xfe, 0xff] \<or> littleEndian
                       then drop 2 payload0 else payload0);
            text = string_of_runes (utf16_decode (pair_units littleEndian payload))
        in (text, rune_error \<notin> set (runes_of text) \<and> readableText env text))"

definition latin1_class :: "byte \<Rightarrow> bool option" where
  "latin1_class b =
     (if b = 10 \<or> b = 13 \<or> b = 9 \<or> 0x20 \<le> b \<and> b \<le> 0x7e then Some True
      else if b \<ge> 0xa0 then Some False
      else None)"

definition decodeLatin1Text :: "text_env \<Rightarrow> byte list \<Rightarrow> gostring \<times> bool" where
  "decodeLatin1Text env payload =
     (if \<exists>b \<in> set payload. latin1_class b = None then ([], False)
      else
        let ascii = length (filter (\<lambda>b. latin1_class b = Some True) payload) in
        if ascii = 0 \<or> ascii * 2 < length payload then ([], False)
        else
          let text = string_of_runes (map unat payload) in (text, readableText env text))"

definition decode_gb18030_text :: "text_env \<Rightarrow> byte list \<Rightarrow> gostring option" where
  "decode_gb18030_text env payload =
     (if \<exists>b \<in> set payload. unat b \<ge> 0x80 then
        (case gb18030 env payload of
           None \<Rightarrow> None
         | Some text \<Rightarrow>
             if (\<exists>r \<in> set (runes_of text). u_han env r) \<and> readableText env text
             then Some text else None)
      else None)"

definition decodeTextBytes ::
  "text_env \<Rightarrow> byte list \<Rightarrow> byte list \<Rightarrow> (gostring \<times> SMSEncoding) option" where
  "decodeTextBytes env payload header =
     (if hasApplicationPortAddressing header \<or> payload = [] then None
      else if (take 2 payload = [0xfe, 0xff] \<or> take 2 payload = [0xff, 0xfe])
              \<and> snd (decodeUTF16Bytes env payload)
           then Some (fst (decodeUTF16Bytes env payload), SMSEncodingUCS2PDU)
      else if utf8_valid payload \<and> readableText env payload
           then Some (payload, SMSEncodingUTF8PDU)
      else (case decode_gb18030_text env payload of
              Some text \<Rightarrow> Some (text, SMSEncodingGB18030)
            | None \<Rightarrow>
                if snd (decodeLatin1Text env payload)
                then Some (fst (decodeLatin1Text env payload), SMSEncodingLatin1)
                else None))"

subsection \<open>User data\<close>

definition decode_8bit ::
  "text_env \<Rightarrow> byte list \<Rightarrow> byte list \<Rightarrow> SMSMessage \<Rightarrow> decoded" where
  "decode_8bit env payload header m =
     (let multipart = (case sm_Concat m of None \<Rightarrow> False | Some c \<Rightarrow> Total c > 1);
          plain = (case decodeTextBytes env payload header of
              Some (text, enc) \<Rightarrow> (m\<lparr>sm_Text := text, sm_Encoding := enc\<rparr>, None)
            | None \<Rightarrow> (m\<lparr>sm_Encoding := SMSEncoding8BitPDU, sm_Text := hex_upper payload\<rparr>, None))
      in if multipart then plain
         else (case DecodeDisplayText env payload of
             Inr text \<Rightarrow> (m\<lparr>sm_Text := text, sm_Encoding := SMSEncodingWAPPush\<rparr>, None)
           | Inl (Fail _) \<Rightarrow> plain
           | Inl Panic \<Rightarrow> (m, Some Panic)
           | Inl Hang \<Rightarrow> (m, Some Hang)))"

definition decode_ucs2 ::
  "text_env \<Rightarrow> byte list \<Rightarrow> byte list \<Rightarrow> SMSMessage \<Rightarrow> decoded" where
  "decode_ucs2 env payload header m0 =
     (let m = m0\<lparr>sm_Encoding := SMSEncodingUCS2PDU\<rparr> in
      case decodeUTF16Bytes env payload of
        (text, True) \<Rightarrow> (m\<lparr>sm_Text := text\<rparr>, None)
      | (_, False) \<Rightarrow>
          (case decodeTextBytes env payload header of
             Some (text, enc) \<Rightarrow> (m\<lparr>sm_Text := text, sm_Encoding := enc\<rparr>, None)
           | None \<Rightarrow> (m, Some (Fail ErrInvalidUTF16))))"

definition decode_gsm7 ::
  "text_env \<Rightarrow> byte list \<Rightarrow> nat \<Rightarrow> byte list \<Rightarrow> nat \<Rightarrow> SMSMessage \<Rightarrow> decoded" where
  "decode_gsm7 env data headerBytes header udl m0 =
     (let m = m0\<lparr>sm_Encoding := SMSEncodingGSM7PDU\<rparr>;
          headerSeptets = (if headerBytes > 0 then (headerBytes * 8 + 6) div 7 else 0);
          textSeptets = int udl - int headerSeptets
      in on_ok m (unpackSeptets data textSeptets (headerSeptets * 7)) (\<lambda>septets.
           case decodeGSM7WithHeader env septets header of
             (text, e) \<Rightarrow> (m\<lparr>sm_Text := text\<rparr>, e)))"

definition decodeUserData ::
  "text_env \<Rightarrow> byte list \<Rightarrow> byte \<Rightarrow> byte \<Rightarrow> nat \<Rightarrow> SMSMessage \<Rightarrow> decoded" where
  "decodeUserData env data0 firstOctet dcs udl m0 =
     (let m1 = m0\<lparr>sm_RawUserData := hex_upper data0\<rparr>;
          alphabet = decodeSMSAlphabet dcs;
          expectedBytes = (if alphabet = smsAlphabetGSM7 then (udl * 7 + 7) div 8 else udl)
      in if expectedBytes > length data0 then (m1, Some (Fail ErrUserDataTruncated))
         else on_ok m1 (slice data0 0 expectedBytes) (\<lambda>data.
           let decode = (\<lambda>headerBytes header m.
             case alphabet of
               smsAlphabetGSM7 \<Rightarrow> decode_gsm7 env data headerBytes header udl m
             | smsAlphabetUCS2 \<Rightarrow>
                 on_ok (m\<lparr>sm_Encoding := SMSEncodingUCS2PDU\<rparr>) (slice data headerBytes (length data))
                   (\<lambda>payload. decode_ucs2 env payload header m)
             | _ \<Rightarrow>
                 on_ok m (slice data headerBytes (length data))
                   (\<lambda>payload. decode_8bit env payload header m))
           in if firstOctet AND 0x40 \<noteq> 0 then
                (if length data = 0 then (m1, Some (Fail ErrUDHIWithoutHeader))
                 else on_ok m1 (idx data 0) (\<lambda>h.
                   let headerBytes = unat h + 1 in
                   if headerBytes > length data then (m1, Some (Fail ErrUDHTruncated))
                   else on_ok m1 (slice data 1 headerBytes) (\<lambda>header.
                          decode headerBytes header (m1\<lparr>sm_Concat := parseConcatHeader header\<rparr>))))
              else decode 0 [] m1))"

subsection \<open>Timestamps\<close>

definition semi_octet :: "byte \<Rightarrow> (sms_err, nat) res" where
  "semi_octet octet =
     (let low = unat (octet AND 0x0f); high = unat (drop_bit 4 octet) in
      if low > 9 \<or> high > 9 then Inl (Fail ErrTimestamp) else Inr (low * 10 + high))"

text \<open>\<open>time.Date\<close>: days before a year and a month of the proleptic Gregorian calendar.\<close>

definition leap_year :: "int \<Rightarrow> bool" where
  "leap_year y \<longleftrightarrow> y mod 4 = 0 \<and> (y mod 100 \<noteq> 0 \<or> y mod 400 = 0)"

definition days_to_year :: "int \<Rightarrow> int" where
  "days_to_year y = (let p = y - 1 in 365 * p + p div 4 - p div 100 + p div 400 - 719162)"

definition days_to_month :: "int \<Rightarrow> nat \<Rightarrow> int" where
  "days_to_month y month =
     [0, 31, 59, 90, 120, 151, 181, 212, 243, 273, 304, 334] ! (month - 1)
     + (if month > 2 \<and> leap_year y then 1 else 0)"

definition time_date :: "int \<Rightarrow> nat \<Rightarrow> nat \<Rightarrow> nat \<Rightarrow> nat \<Rightarrow> nat \<Rightarrow> int \<Rightarrow> go_time" where
  "time_date year month day hour minute sec offset =
     \<lparr>unix_second = (days_to_year year + days_to_month year month + int day - 1) * 86400
        + int hour * 3600 + int minute * 60 + int sec - offset,
      zone_offset = offset\<rparr>"

definition decodeSMSTimestamp :: "byte list \<Rightarrow> (sms_err, go_time) res" where
  "decodeSMSTimestamp v =
     (if length v \<noteq> 7 then Inl (Fail ErrTimestamp)
      else rbind (rmap (\<lambda>i. rbind (idx v i) semi_octet) [0..<6]) (\<lambda>parts.
           rbind (idx v 6) (\<lambda>z.
           let negative = z AND 0x08 \<noteq> 0 in
           rbind (semi_octet (z AND NOT 0x08)) (\<lambda>quarters.
           if quarters > 56 then Inl (Fail ErrTimestamp)
           else
             let offset = (if negative then - 1 else 1) * (int quarters * 15 * 60);
                 year = (if parts ! 0 \<ge> 90 then 1900 + int (parts ! 0) else 2000 + int (parts ! 0))
             in if parts ! 1 < 1 \<or> parts ! 1 > 12 \<or> parts ! 2 < 1 \<or> parts ! 2 > 31
                   \<or> parts ! 3 > 23 \<or> parts ! 4 > 59 \<or> parts ! 5 > 60
                then Inl (Fail ErrTimestamp)
                else Inr (time_date year (parts ! 1) (parts ! 2) (parts ! 3) (parts ! 4)
                            (parts ! 5) offset)))))"

definition timestamp_or :: "go_time option \<Rightarrow> byte list \<Rightarrow> go_time option" where
  "timestamp_or old v = (case decodeSMSTimestamp v of Inr t \<Rightarrow> Some t | Inl _ \<Rightarrow> old)"

subsection \<open>The three message types\<close>

definition decodeDeliverPDU :: "text_env \<Rightarrow> pduCursor \<Rightarrow> byte \<Rightarrow> SMSMessage \<Rightarrow> decoded" where
  "decodeDeliverPDU env c0 firstOctet m0 =
     on_ok m0 (readTPAddress c0) (\<lambda>(address, c1).
     let m1 = m0\<lparr>sm_From := address\<rparr> in
     on_ok m1 (cursor_byte c1) (\<lambda>(pid, c2).
     on_ok m1 (cursor_byte c2) (\<lambda>(dcs, c3).
     let m2 = m1\<lparr>sm_ProtocolID := unat pid, sm_DataCodingScheme := unat dcs,
                 sm_SIMDataDownload := isSIMDataDownload pid dcs\<rparr> in
     on_ok m2 (cursor_bytes c3 7) (\<lambda>(timestamp, c4).
     let m3 = m2\<lparr>sm_ServiceCenterTimestamp :=
                   timestamp_or (sm_ServiceCenterTimestamp m2) timestamp\<rparr> in
     on_ok m3 (cursor_byte c4) (\<lambda>(udl, c5).
     on_ok m3 (cursor_rest c5) (\<lambda>rest.
       decodeUserData env rest firstOctet dcs (unat udl) m3))))))"

definition skip_validity :: "byte \<Rightarrow> pduCursor \<Rightarrow> (sms_err, pduCursor) res" where
  "skip_validity firstOctet c =
     (let vpf = drop_bit 3 firstOctet AND 0x03 in
      if vpf = 2 then rbind (cursor_byte c) (\<lambda>(_, c'). Inr c')
      else if vpf = 1 \<or> vpf = 3 then rbind (cursor_bytes c 7) (\<lambda>(_, c'). Inr c')
      else Inr c)"

definition decodeSubmitPDU :: "text_env \<Rightarrow> pduCursor \<Rightarrow> byte \<Rightarrow> SMSMessage \<Rightarrow> decoded" where
  "decodeSubmitPDU env c0 firstOctet m0 =
     on_ok m0 (cursor_byte c0) (\<lambda>(reference, c1).
     let m1 = m0\<lparr>sm_MessageReference := Some (unat reference)\<rparr> in
     on_ok m1 (readTPAddress c1) (\<lambda>(address, c2).
     let m2 = m1\<lparr>sm_To := address\<rparr> in
     on_ok m2 (cursor_byte c2) (\<lambda>(pid, c3).
     on_ok m2 (cursor_byte c3) (\<lambda>(dcs, c4).
     let m3 = m2\<lparr>sm_ProtocolID := unat pid, sm_DataCodingScheme := unat dcs\<rparr> in
     on_ok m3 (skip_validity firstOctet c4) (\<lambda>c5.
     on_ok m3 (cursor_byte c5) (\<lambda>(udl, c6).
     on_ok m3 (cursor_rest c6) (\<lambda>rest.
       decodeUserData env rest firstOctet dcs (unat udl) m3)))))))"

definition smsDeliveryStatus :: "byte \<Rightarrow> gostring" where
  "smsDeliveryStatus status =
     (if status \<le> 0x1f then str ''delivered''
      else if status \<le> 0x3f then str ''temporary_error''
      else if status \<le> 0x5f then str ''permanent_error''
      else if status \<le> 0x7f then str ''temporary_error_no_retry''
      else str ''reserved'')"

definition decodeStatusReportPDU :: "pduCursor \<Rightarrow> SMSMessage \<Rightarrow> decoded" where
  "decodeStatusReportPDU c0 m0 =
     on_ok m0 (cursor_byte c0) (\<lambda>(reference, c1).
     let m1 = m0\<lparr>sm_MessageReference := Some (unat reference)\<rparr> in
     on_ok m1 (readTPAddress c1) (\<lambda>(address, c2).
     let m2 = m1\<lparr>sm_To := address\<rparr> in
     on_ok m2 (cursor_bytes c2 7) (\<lambda>(scts, c3).
     on_ok m2 (cursor_bytes c3 7) (\<lambda>(discharge, c4).
     on_ok m2 (cursor_byte c4) (\<lambda>(status, c5).
       (m2\<lparr>sm_StatusCode := Some (unat status),
           sm_DeliveryStatus := smsDeliveryStatus status,
           sm_ServiceCenterTimestamp := timestamp_or (sm_ServiceCenterTimestamp m2) scts,
           sm_DischargeTimestamp := timestamp_or (sm_DischargeTimestamp m2) discharge\<rparr>, None))))))"

definition empty_message :: "gostring \<Rightarrow> SMSMessage" where
  "empty_message raw =
     \<lparr>sm_Index = 0, sm_Storage = [], sm_StorageStatus = SMSStatusUnknown,
      sm_Direction = SMSDirectionUnknown, sm_From = [], sm_To = [], sm_ServiceCenter = [],
      sm_Text = [], sm_Encoding = SMSEncodingUnknown, sm_ServiceCenterTimestamp = None,
      sm_DischargeTimestamp = None, sm_MessageReference = None, sm_StatusCode = None,
      sm_DeliveryStatus = [], sm_Concat = None, sm_ProtocolID = 0, sm_DataCodingScheme = 0,
      sm_ModemLength = 0, sm_RawPDU = raw, sm_RawUserData = [], sm_SIMDataDownload = False,
      sm_DecodeError = []\<rparr>"

definition decode_tpdu :: "text_env \<Rightarrow> pduCursor \<Rightarrow> SMSMessage \<Rightarrow> decoded" where
  "decode_tpdu env c m =
     on_ok m (cursor_byte c) (\<lambda>(firstOctet, c').
       let mti = firstOctet AND 0x03 in
       if mti = 0 then decodeDeliverPDU env c' firstOctet (m\<lparr>sm_Direction := SMSDirectionReceived\<rparr>)
       else if mti = 1
            then decodeSubmitPDU env c' firstOctet (m\<lparr>sm_Direction := SMSDirectionSubmitted\<rparr>)
       else if mti = 2
            then decodeStatusReportPDU c' (m\<lparr>sm_Direction := SMSDirectionStatusReport\<rparr>)
       else (m, Some (Fail ErrUnsupportedType)))"

definition decodeSMSPDU :: "text_env \<Rightarrow> gostring \<Rightarrow> decoded" where
  "decodeSMSPDU env raw0 =
     (let raw = to_upper (u_upper env) (trim_space raw0); m = empty_message raw in
      case hex_decode raw of
        None \<Rightarrow> (m, Some (Fail ErrBadHex))
      | Some data \<Rightarrow>
          if length data < 2 then (m, Some (Fail ErrPDUTooShort))
          else on_ok m (cursor_byte \<lparr>pc_data = data, pc_index = 0\<rparr>) (\<lambda>(smscLength, c1).
            if unat smscLength > length data - 1 then (m, Some (Fail ErrSMSCTooLong))
            else if smscLength > 0 then
              on_ok m (cursor_bytes c1 (unat smscLength)) (\<lambda>(smsc, c2).
                if length smsc > 1 then
                  on_ok m (slice smsc 1 (length smsc)) (\<lambda>digits.
                  on_ok m (idx smsc 0) (\<lambda>toa.
                    decode_tpdu env c2
                      (m\<lparr>sm_ServiceCenter :=
                          decodeNumericAddress digits ((length smsc - 1) * 2) toa\<rparr>)))
                else decode_tpdu env c2 m)
            else decode_tpdu env c1 m))"

definition DecodeSMSDeliverTPDU :: "text_env \<Rightarrow> byte list \<Rightarrow> decoded" where
  "DecodeSMSDeliverTPDU env tpdu =
     (if length tpdu = 0
      then ((empty_message [])\<lparr>sm_StorageStatus := SMSStatusNone, sm_Direction := SMSDirectionNone,
              sm_Encoding := SMSEncodingNone\<rparr>, Some (Fail ErrTPDUEmpty))
      else decodeSMSPDU env (hex_encode (0 # tpdu)))"

subsection \<open>No PDU makes the decoder panic\<close>

definition calm :: "decoded \<Rightarrow> bool" where
  "calm d \<longleftrightarrow> snd d \<noteq> Some Panic \<and> snd d \<noteq> Some Hang"

lemma calm_simps [simp]: "calm (m, None)" "calm (m, Some (Fail e))"
  by (simp_all add: calm_def)

lemma calm_on_ok [intro]:
  "safe r \<Longrightarrow> (\<And>x. r = Inr x \<Longrightarrow> calm (k x)) \<Longrightarrow> calm (on_ok m r k)"
  by (cases r) (auto simp: on_ok_def calm_def safe_def)

definition cursor_ok :: "pduCursor \<Rightarrow> bool" where
  "cursor_ok c \<longleftrightarrow> pc_index c \<le> length (pc_data c)"

lemma cursor_byte_safe [simp]: "safe (cursor_byte c)"
  by (simp add: cursor_byte_def)

lemma cursor_bytes_safe [simp]: "safe (cursor_bytes c n)"
  by (simp add: cursor_bytes_def)

lemma cursor_rest_safe: "cursor_ok c \<Longrightarrow> safe (cursor_rest c)"
  by (simp add: cursor_rest_def cursor_ok_def)

lemma cursor_byte_ok: "cursor_byte c = Inr (b, c') \<Longrightarrow> cursor_ok c'"
  by (auto simp: cursor_byte_def cursor_ok_def res_simps split: if_splits)

lemma cursor_bytes_ok: "cursor_bytes c n = Inr (v, c') \<Longrightarrow> cursor_ok c' \<and> length v = n"
  by (auto simp: cursor_bytes_def cursor_ok_def res_simps split: if_splits)

lemma deliverUserDataFits_safe [simp]: "safe (deliverUserDataFits r)"
  by (simp add: deliverUserDataFits_def Let_def)

lemma alphanumericTPAddressSize_safe [simp]: "safe (alphanumericTPAddressSize b r)"
  by (simp add: alphanumericTPAddressSize_def Let_def)

lemma unpackSeptets_safe [simp]: "safe (unpackSeptets d n st)"
  by (simp add: unpackSeptets_eq)

text \<open>Whichever way an alphanumeric length is read, its octets hold its septets.\<close>

lemma alphanumeric_room:
  "alphanumericTPAddressSize b r = Inr (n, k) \<Longrightarrow> k * 7 \<le> n * 8"
proof -
  assume "alphanumericTPAddressSize b r = Inr (n, k)"
  then have "(n, k) = ((unat b + 1) div 2, unat b * 4 div 7)
      \<or> (n, k) = ((unat b * 7 + 7) div 8, unat b)"
    by (auto simp: alphanumericTPAddressSize_def Let_def res_simps split: if_splits)
  then show "k * 7 \<le> n * 8" by auto
qed

lemma address_text_safe [simp]: "safe (address_text len toa n v)"
  by (simp add: address_text_def split: option.splits)

lemma readTPAddress_safe [simp]: "safe (readTPAddress c)"
proof -
  have "cursor_byte c1 = Inr (b, c2) \<Longrightarrow> safe (cursor_rest c2)" for c1 b c2
    by (simp add: cursor_rest_safe cursor_byte_ok)
  then show ?thesis
    unfolding readTPAddress_def by (auto intro!: safe_rbind)
qed

lemma readTPAddress_ok: "readTPAddress c = Inr (a, c') \<Longrightarrow> cursor_ok c'"
  by (auto simp: readTPAddress_def rbind_Inr_iff split: prod.splits dest!: cursor_bytes_ok)

lemma decodeGSM7WithHeader_calm:
  "decodeGSM7WithHeader env ss h = (t, e) \<Longrightarrow> calm (m, e)"
  by (auto simp: decodeGSM7WithHeader_def Let_def calm_def
      split: prod.splits option.splits if_splits)

lemma decode_gsm7_calm [simp]: "calm (decode_gsm7 env d n h udl m)"
  unfolding decode_gsm7_def Let_def
  by (auto intro!: calm_on_ok decodeGSM7WithHeader_calm split: prod.splits)

lemma decode_ucs2_calm [simp]: "calm (decode_ucs2 env p h m)"
  by (auto simp: decode_ucs2_def Let_def split: prod.splits bool.splits option.splits)

lemma decode_8bit_calm [simp]: "calm (decode_8bit env p h m)"
  using DecodeDisplayText_safe [of env p]
  by (auto simp: decode_8bit_def Let_def calm_def
      split: sum.splits fault.splits option.splits)

lemma decodeUserData_calm [simp]: "calm (decodeUserData env d fo dcs udl m)"
  by (auto simp: decodeUserData_def Let_def split: smsAlphabet.splits)

lemma decodeDeliverPDU_calm [simp]: "calm (decodeDeliverPDU env c fo m)"
  unfolding decodeDeliverPDU_def Let_def
  by (auto intro!: calm_on_ok cursor_rest_safe dest: cursor_byte_ok)

lemma skip_validity_safe [simp]: "safe (skip_validity fo c)"
  by (auto simp: skip_validity_def Let_def)

lemma decodeSubmitPDU_calm [simp]: "calm (decodeSubmitPDU env c fo m)"
  unfolding decodeSubmitPDU_def Let_def
  by (auto intro!: calm_on_ok cursor_rest_safe dest: cursor_byte_ok)

lemma decodeStatusReportPDU_calm [simp]: "calm (decodeStatusReportPDU c m)"
  unfolding decodeStatusReportPDU_def Let_def by (auto intro!: calm_on_ok)

lemma decode_tpdu_calm [simp]: "calm (decode_tpdu env c m)"
  unfolding decode_tpdu_def Let_def by (auto intro!: calm_on_ok)

lemma decodeSMSPDU_calm_any: "calm (decodeSMSPDU env raw)"
  unfolding decodeSMSPDU_def Let_def
  by (auto intro!: calm_on_ok split: option.splits)

end
