(* ===== verification/Sms_Roundtrip.thy ===== *)
theory Sms_Roundtrip
  imports Sms_Submit Sms_Decode
begin

text \<open>
  The decoder applied to what the encoder builds: an SMS-SUBMIT PDU decodes to its
  recipient, its concatenation header and its text, and the parts of a long GSM-7 message
  decode to segments that join to the text.
\<close>

subsection \<open>Reading a known sequence of octets\<close>

definition at_cursor :: "byte list \<Rightarrow> byte list \<Rightarrow> pduCursor" where
  "at_cursor pre rest = \<lparr>pc_data = pre @ rest, pc_index = length pre\<rparr>"

lemma cursor_byte_at [simp]:
  "cursor_byte (at_cursor p (b # rest)) = Inr (b, at_cursor (p @ [b]) rest)"
  by (simp add: cursor_byte_def at_cursor_def)

lemma cursor_bytes_at:
  "length xs = n \<Longrightarrow> cursor_bytes (at_cursor p (xs @ rest)) n = Inr (xs, at_cursor (p @ xs) rest)"
  by (auto simp: cursor_bytes_def at_cursor_def)

lemma cursor_rest_at [simp]: "cursor_rest (at_cursor p rest) = Inr rest"
  by (simp add: cursor_rest_def at_cursor_def)

subsection \<open>Semi-octet addresses\<close>

lemma numeric_semi_octets:
  "semi_octets_loop ds = Inr bs \<Longrightarrow> numeric_loop (nibbles bs) w (w + length ds) = ds"
proof (induction ds arbitrary: bs w rule: semi_octets_loop.induct)
  case 1
  then show ?case by (simp add: nibbles_def)
next
  case (2 low)
  then have d: "is_digit low" and bs: "bs = [push_bit 4 0x0f OR (low - 48)]"
    by (auto split: if_splits)
  have "unat (0x0f :: byte) < 16" by simp
  note j = nibbles_join [OF is_digit_minus(1) [OF d] this]
  from bs j is_digit_minus [OF d] show ?case by (simp add: nibbles_def)
next
  case (3 low high rest)
  then obtain r where d: "is_digit low" "is_digit high"
    and r: "semi_octets_loop rest = Inr r"
    and bs: "bs = (push_bit 4 (high - 48) OR (low - 48)) # r"
    by (auto simp: res_simps split: if_splits)
  note j = nibbles_join [OF is_digit_minus(1) [OF d(1)] is_digit_minus(1) [OF d(2)]]
  have IH: "numeric_loop (nibbles r) (w + 2) (w + 2 + length rest) = rest"
    using "3.IH" d r by blast
  from bs j is_digit_minus [OF d(1)] is_digit_minus [OF d(2)] IH show ?case
    by (simp add: nibbles_def)
qed

definition toa_of :: "gostring \<Rightarrow> byte" where
  "toa_of r = (if has_plus r then 0x91 else 0x81)"

lemma decodeNumericAddress_encoded:
  assumes "recipient_ok r" "encodeSemiOctets (trim_plus r) = Inr address"
  shows "decodeNumericAddress address (length (trim_plus r)) (toa_of r) = r"
proof -
  have "semi_octets_loop (trim_plus r) = Inr address"
    using assms by (auto simp: encodeSemiOctets_def split: if_splits)
  then have n: "numeric_loop (nibbles address) 0 (length (trim_plus r)) = trim_plus r"
    using numeric_semi_octets [of _ address 0] by simp
  have "has_plus r \<Longrightarrow> r = 43 # tl r"
    by (cases r) (auto simp: has_plus_def)
  with n show ?thesis
    by (auto simp: decodeNumericAddress_def toa_of_def trim_plus_def)
qed

lemma address_length:
  assumes "recipient_ok r" "encodeSemiOctets (trim_plus r) = Inr address"
  shows "length address = (length (trim_plus r) + 1) div 2"
  using encodeSemiOctets_ok [OF assms(1)] assms(2) by auto

lemma readTPAddress_encoded:
  assumes r: "recipient_ok r" and a: "encodeSemiOctets (trim_plus r) = Inr address"
  shows "readTPAddress (at_cursor p (of_nat (length (trim_plus r)) # toa_of r # address @ rest))
    = Inr (r, at_cursor (p @ [of_nat (length (trim_plus r)), toa_of r] @ address) rest)"
proof -
  have "length (trim_plus r) \<le> 20" using r by (simp add: recipient_ok_def)
  then have n: "unat (of_nat (length (trim_plus r)) :: byte) = length (trim_plus r)"
    by (simp add: unat_of_nat_byte)
  have "toa_of r AND 0x70 \<noteq> 0x50" by (simp add: toa_of_def)
  then show ?thesis
    using n decodeNumericAddress_encoded [OF assms] address_length [OF assms]
    by (simp add: readTPAddress_def address_text_def cursor_bytes_at)
qed

subsection \<open>The user data of a GSM-7 part\<close>

lemma bitat_take_drop:
  assumes "length h \<le> length xs" "8 * length h \<le> p"
  shows "bitat (copy_over xs h) p \<longleftrightarrow> bitat xs p"
proof -
  have "\<not> p div 8 < length h" using assms(2) by (simp add: div_less_iff_less_mult)
  with assms(1) show ?thesis by (auto simp: bitat_def copy_over_def nth_append)
qed

definition udh_ok :: "byte list \<Rightarrow> bool" where
  "udh_ok h \<longleftrightarrow> h = [] \<or> unat (h ! 0) + 1 = length h"

text \<open>The header as the decoder sees it: the octets after its length.\<close>

definition udh_body :: "byte list \<Rightarrow> byte list" where
  "udh_body h = drop 1 h"

lemma header_room: "8 * length h \<le> header_septets h * 7"
  by (simp add: header_septets_def) presburger

lemma packed_length:
  assumes "ss \<noteq> []"
  shows "length (packSeptets ss (header_septets h * 7)) = ((header_septets h + length ss) * 7 + 7) div 8"
  using assms by (simp add: length_packSeptets algebra_simps)

lemma packed_holds_header:
  "ss \<noteq> [] \<Longrightarrow> length h \<le> length (packSeptets ss (header_septets h * 7))"
  using header_room [of h] by (simp add: packed_length)

lemma unpack_user_data:
  assumes "ss \<noteq> []" "list_all (\<lambda>b. unat b < 128) ss"
  shows "unpackSeptets (copy_over (packSeptets ss (header_septets h * 7)) h)
           (int (length ss)) (header_septets h * 7) = Inr ss"
proof (rule unpack_pack_overlay)
  note room = packed_holds_header [OF assms(1), of h]
  show "length (copy_over (packSeptets ss (header_septets h * 7)) h)
      = length (packSeptets ss (header_septets h * 7))"
    using room by (simp add: copy_over_def)
  show "bitat (copy_over (packSeptets ss (header_septets h * 7)) h) p
      \<longleftrightarrow> bitat (packSeptets ss (header_septets h * 7)) p"
    if "header_septets h * 7 \<le> p" for p
    using bitat_take_drop [OF room] header_room [of h] that by simp
qed (use assms in auto)

definition gsm7_plain :: "byte list \<Rightarrow> bool" where
  "gsm7_plain h \<longleftrightarrow>
     userDataHeaderLanguage (udh_body h) 0x25 = None \<and> userDataHeaderLanguage (udh_body h) 0x24 = None"

lemma decode_gsm7_encoded:
  assumes "ss \<noteq> []" "list_all (\<lambda>b. unat b < 128) ss" "gsm7_plain h"
    and "decodeGSM7 ss = (text, None)"
  shows "decode_gsm7 env (copy_over (packSeptets ss (header_septets h * 7)) h) (length h)
      (udh_body h) (header_septets h + length ss) m
    = (m\<lparr>sm_Encoding := SMSEncodingGSM7PDU, sm_Text := text\<rparr>, None)"
proof -
  have "(if length h > 0 then (length h * 8 + 6) div 7 else 0) = header_septets h"
    by (simp add: header_septets_def)
  with unpack_user_data [OF assms(1,2), of h] assms(3,4) show ?thesis
    by (simp add: decode_gsm7_def decodeGSM7WithHeader_def gsm7_plain_def Let_def)
qed

text \<open>What decoding a GSM-7 part does to the message.\<close>

definition gsm7_part_decoded ::
  "byte list \<Rightarrow> byte list \<Rightarrow> gostring \<Rightarrow> SMSMessage \<Rightarrow> SMSMessage" where
  "gsm7_part_decoded ud h text m =
     (let m1 = m\<lparr>sm_RawUserData := hex_upper ud\<rparr>;
          m2 = (if h = [] then m1 else m1\<lparr>sm_Concat := parseConcatHeader (udh_body h)\<rparr>)
      in m2\<lparr>sm_Encoding := SMSEncodingGSM7PDU, sm_Text := text\<rparr>)"

lemma decodeSMSAlphabet_0 [simp]: "decodeSMSAlphabet 0 = smsAlphabetGSM7"
  by (simp add: decodeSMSAlphabet_def)

lemma decodeUserData_gsm7:
  assumes ss: "ss \<noteq> []" "list_all (\<lambda>b. unat b < 128) ss" "decodeGSM7 ss = (text, None)"
    and h: "udh_ok h" "gsm7_plain h" "fo AND 0x40 \<noteq> 0 \<longleftrightarrow> h \<noteq> []"
    and ud: "ud = copy_over (packSeptets ss (header_septets h * 7)) h"
  shows "decodeUserData env ud fo 0 (header_septets h + length ss) m
    = (gsm7_part_decoded ud h text m, None)"
proof -
  note room = packed_holds_header [OF ss(1), of h]
  have len: "length ud = ((header_septets h + length ss) * 7 + 7) div 8"
    using room packed_length [OF ss(1), of h] by (simp add: ud copy_over_def)
  note body = decode_gsm7_encoded [OF ss(1,2) h(2) ss(3), folded ud]
  show ?thesis
  proof (cases "h = []")
    case True
    then show ?thesis
      using len body [where env = env] h(3)
      by (simp add: decodeUserData_def Let_def gsm7_part_decoded_def udh_body_def)
  next
    case False
    then obtain l t where lt: "h = l # t" by (cases h) auto
    have hd: "ud = h @ drop (length h) (packSeptets ss (header_septets h * 7))"
      using room by (simp add: ud copy_over_def)
    then have ne: "ud \<noteq> []" "ud ! 0 = l" and hl: "length h \<le> length ud"
      using lt by (auto simp: nth_append)
    have l: "unat l + 1 = length h" using h(1) lt by (simp add: udh_ok_def)
    have th: "take (length h - 1) (drop 1 ud) = udh_body h"
      using hd lt by (simp add: udh_body_def)
    show ?thesis
      using False len ne hl l th body [where env = env] h(3)
      by (simp add: decodeUserData_def Let_def gsm7_part_decoded_def slice_def idx_def)
  qed
qed

subsection \<open>A whole SMS-SUBMIT PDU\<close>

lemma decodeSMSPDU_no_smsc:
  assumes "tpdu \<noteq> []"
  shows "decodeSMSPDU env (hex_upper (0 # tpdu))
    = decode_tpdu env (at_cursor [0] tpdu) (empty_message (hex_upper (0 # tpdu)))"
proof -
  have g: "hex_text (hex_upper (0 # tpdu))" by (rule hex_text_upper)
  then have t: "trim_space (hex_upper (0 # tpdu)) = hex_upper (0 # tpdu)"
    by (simp only: trim_space_graphic hex_text_graphic)
  have l: "\<not> length (0 # tpdu) < 2" using assms by (cases tpdu) auto
  show ?thesis
    unfolding decodeSMSPDU_def Let_def t to_upper_hex_text [OF g] hex_decode_upper option.case
    using l by (simp add: cursor_byte_def at_cursor_def)
qed

lemma decodeSMSPDU_hex_case:
  "decodeSMSPDU env (hex_encode bs) = decodeSMSPDU env (hex_upper bs)"
proof -
  have "list_all (\<lambda>b. 32 < unat b \<and> unat b < 127) (hex_encode bs)"
  proof -
    have "n < 16 \<Longrightarrow> 32 < unat (hex_digit n) \<and> unat (hex_digit n) < 127" for n
      by (auto simp: hex_digit_def unat_of_nat_byte simp del: of_nat_add)
    then show ?thesis by (induction bs) (auto simp: hex_encode_def)
  qed
  then have t: "trim_space (hex_encode bs) = hex_encode bs"
    by (simp add: graphic_def)
  have u: "trim_space (hex_upper bs) = hex_upper bs"
    by (simp add: hex_text_graphic)
  show ?thesis
    unfolding decodeSMSPDU_def t u to_upper_hex_encode to_upper_hex_text [OF hex_text_upper] ..
qed

lemma DecodeSMSDeliverTPDU_eq:
  "tpdu \<noteq> [] \<Longrightarrow> DecodeSMSDeliverTPDU env tpdu
     = decode_tpdu env (at_cursor [0] tpdu) (empty_message (hex_upper (0 # tpdu)))"
  by (simp add: DecodeSMSDeliverTPDU_def decodeSMSPDU_hex_case decodeSMSPDU_no_smsc
      del: hex_upper_simps)

text \<open>The message a decoded SMS-SUBMIT starts from, before its user data.\<close>

definition submit_message :: "gostring \<Rightarrow> gostring \<Rightarrow> nat \<Rightarrow> SMSMessage" where
  "submit_message raw recipient dcs =
     (empty_message raw)\<lparr>sm_Direction := SMSDirectionSubmitted, sm_MessageReference := Some 0,
        sm_To := recipient, sm_ProtocolID := 0, sm_DataCodingScheme := dcs\<rparr>"

lemma decode_tpdu_submit:
  assumes r: "recipient_ok r" and a: "encodeSemiOctets (trim_plus r) = Inr address"
    and fo: "fo AND 0x03 = 1" "drop_bit 3 fo AND 0x03 = 0"
  shows "decode_tpdu env (at_cursor p
      (fo # 0 # of_nat (length (trim_plus r)) # toa_of r # address @ [0, dcs, udl] @ ud))
      (empty_message raw)
    = decodeUserData env ud fo dcs (unat udl) (submit_message raw r (unat dcs))"
  using fo
  by (simp add: decode_tpdu_def decodeSubmitPDU_def Let_def readTPAddress_encoded [OF r a]
      skip_validity_def submit_message_def)

lemma submit_prefix_eq:
  "submit_prefix r fo address @ ud =
     0 # fo # 0 # of_nat (length (trim_plus r)) # toa_of r # address @ [0] @ ud"
  by (simp add: submit_prefix_def toa_of_def)

lemma submit_first_octet_cases:
  assumes "submit_first_octet h = Inr fo"
  shows "udh_ok h" "fo AND 0x40 \<noteq> 0 \<longleftrightarrow> h \<noteq> []" "fo AND 0x03 = 1" "drop_bit 3 fo AND 0x03 = 0"
  using assms by (auto simp: submit_first_octet_def udh_ok_def res_simps split: if_splits)

text \<open>The decoder is a left inverse of the encoder on GSM-7 submissions.\<close>

lemma decode_encoded_gsm7:
  assumes r: "recipient_ok r"
    and ss: "ss \<noteq> []" "list_all (\<lambda>b. unat b < 128) ss" "decodeGSM7 ss = (text, None)"
    and h: "gsm7_plain h"
    and enc: "encodeSubmitPDUWithHeader r (Some ss) None h = Inr (pdu, n)"
  obtains tpdu ud where "pdu = hex_upper (0 # tpdu)" "tpdu \<noteq> []" "n = length tpdu"
    and "decode_tpdu env (at_cursor [0] tpdu) (empty_message (hex_upper (0 # tpdu)))
      = (gsm7_part_decoded ud h text (submit_message (hex_upper (0 # tpdu)) r 0), None)"
proof -
  define ud where "ud = copy_over (packSeptets ss (header_septets h * 7)) h"
  let ?udl = "header_septets h + length ss"
  obtain address fo where a: "encodeSemiOctets (trim_plus r) = Inr address"
    and fo: "submit_first_octet h = Inr fo" and le: "?udl \<le> 160"
    and pdu: "pdu = hex_upper (submit_prefix r fo address @ [0, of_nat ?udl] @ ud)"
    and n: "n = length (submit_prefix r fo address @ [0, of_nat ?udl] @ ud) - 1"
    using enc unfolding encodeSubmit_Inr_iff submit_user_data_def
    by (auto simp: Let_def ud_def split: if_splits)
  note fo' = submit_first_octet_cases [OF fo]
  define tpdu where "tpdu = fo # 0 # of_nat (length (trim_plus r)) # toa_of r # address
      @ [0, 0, of_nat ?udl] @ ud"
  have udl: "unat (of_nat ?udl :: byte) = ?udl" using le by (intro unat_of_nat_byte) simp
  have "decode_tpdu env (at_cursor [0] tpdu) (empty_message (hex_upper (0 # tpdu)))
      = decodeUserData env ud fo 0 ?udl (submit_message (hex_upper (0 # tpdu)) r (unat (0 :: byte)))"
    unfolding tpdu_def decode_tpdu_submit [OF r a fo'(3,4)] udl ..
  also have "\<dots> = (gsm7_part_decoded ud h text (submit_message (hex_upper (0 # tpdu)) r 0), None)"
    using decodeUserData_gsm7 [OF ss fo'(1) h fo'(2) ud_def] by simp
  finally have d: "decode_tpdu env (at_cursor [0] tpdu) (empty_message (hex_upper (0 # tpdu)))
      = (gsm7_part_decoded ud h text (submit_message (hex_upper (0 # tpdu)) r 0), None)" .
  have p: "submit_prefix r fo address @ [0, of_nat ?udl] @ ud = 0 # tpdu"
    unfolding submit_prefix_eq tpdu_def by simp
  show thesis
    by (rule that [of tpdu ud, OF _ _ _ d]) (use pdu n p tpdu_def in simp_all)
qed

end
