(* ===== verification/Sms_Messages.thy ===== *)
theory Sms_Messages
  imports Sms_Roundtrip
begin

text \<open>
  Whole messages: what \<open>PrepareSMSSubmitTPDUs\<close> returns, seen through the decoder of the
  same file, for the GSM-7 and the UCS-2 alphabet, and the totality of both directions.
\<close>

subsection \<open>From prepared parts to TPDUs\<close>

lemma submit_tpdu_pdu:
  assumes "ps_encoding part \<noteq> SMSEncodingGSM7Text" "ps_payload part = hex_upper (0 # tpdu)" "tpdu \<noteq> []"
  shows "submit_tpdu text part =
    Inr \<lparr>st_To = ps_to part, st_Encoding = ps_encoding part, st_TPDU = tpdu,
         st_Part = ps_part part, st_Total = ps_total part,
         st_ConcatReference = ps_concatReference part\<rparr>"
proof -
  have l: "\<not> length (0 # tpdu) < 2" using assms(3) by (cases tpdu) auto
  have h: "hex_decode (ps_payload part) = Some (0 # tpdu)"
    unfolding assms(2) by (rule hex_decode_upper)
  show ?thesis
    using assms(1) l h by (simp add: submit_tpdu_def)
qed

lemma submit_tpdu_direct:
  assumes "encodeGSM7 text = Some septets"
    and "encodeSubmitPDU recipient (Some septets) None = Inr (hex_upper (0 # tpdu), n)" "tpdu \<noteq> []"
  shows "submit_tpdu text (direct_text recipient text) =
    Inr \<lparr>st_To = recipient, st_Encoding = SMSEncodingGSM7PDU, st_TPDU = tpdu,
         st_Part = 1, st_Total = 1, st_ConcatReference = None\<rparr>"
proof -
  have l: "\<not> length (0 # tpdu) < 2" using assms(3) by (cases tpdu) auto
  have h: "hex_decode (hex_upper (0 # tpdu)) = Some (0 # tpdu)" by (rule hex_decode_upper)
  show ?thesis
    using assms l h by (simp add: submit_tpdu_def direct_text_def del: hex_upper_simps)
qed

subsection \<open>Segments of a decodable text\<close>

lemma decodeGSM7_append:
  "gsm7_paired a \<Longrightarrow> decodeGSM7 (a @ b) =
     (case decodeGSM7 a of
        (t, Some e) \<Rightarrow> (t, Some e)
      | (t, None) \<Rightarrow> (t @ fst (decodeGSM7 b), snd (decodeGSM7 b)))"
proof (induction a rule: induct_list012)
  case 1
  then show ?case by simp
next
  case (2 x)
  then show ?case by (auto split: prod.splits option.splits)
next
  case (3 x y zs)
  then show ?case by (auto split: prod.splits option.splits)
qed

lemma decodeGSM7_segments:
  assumes "decodeGSM7 (concat segs) = (text, None)" "\<forall>s \<in> set segs. gsm7_paired s"
  shows "concat (map (\<lambda>s. fst (decodeGSM7 s)) segs) = text \<and> (\<forall>s \<in> set segs. snd (decodeGSM7 s) = None)"
  using assms
proof (induction segs arbitrary: "text")
  case Nil
  then show ?case by simp
next
  case (Cons s segs)
  then have "decodeGSM7 s = (fst (decodeGSM7 s), None)"
    and rest: "text = fst (decodeGSM7 s) @ fst (decodeGSM7 (concat segs))"
      "snd (decodeGSM7 (concat segs)) = None"
    by (auto simp: decodeGSM7_append split: prod.splits option.splits)
  moreover have "concat (map (\<lambda>s. fst (decodeGSM7 s)) segs) = fst (decodeGSM7 (concat segs))
      \<and> (\<forall>s \<in> set segs. snd (decodeGSM7 s) = None)"
    by (rule Cons.IH) (use rest Cons.prems in \<open>auto simp: prod_eq_iff\<close>)
  ultimately show ?case by (auto simp: prod_eq_iff)
qed

subsection \<open>One part through the decoder\<close>

text \<open>What the receiver finds in a part: no error, the recipient, the concatenation header.\<close>

definition concat_of :: "SMSSubmitTPDU \<Rightarrow> SMSConcatInfo option" where
  "concat_of t = map_option (\<lambda>reference.
     \<lparr>Reference = reference, Total = st_Total t, Sequence = st_Part t\<rparr>) (st_ConcatReference t)"

definition part_received :: "text_env \<Rightarrow> SMSSubmitTPDU \<Rightarrow> gostring \<Rightarrow> bool" where
  "part_received env t text \<longleftrightarrow>
     (case DecodeSMSDeliverTPDU env (st_TPDU t) of
        (m, e) \<Rightarrow> e = None \<and> sm_Direction m = SMSDirectionSubmitted \<and> sm_To m = st_To t
                 \<and> sm_Encoding m = st_Encoding t \<and> sm_Concat m = concat_of t \<and> sm_Text m = text)"

lemma gsm7_plain_simps [simp]: "gsm7_plain []" "gsm7_plain (concatUDH reference n i)"
  by (simp_all add: gsm7_plain_def udh_body_def concatUDH_def userDataHeaderLanguage_def)

lemma parse_concatUDH:
  "n < 256 \<Longrightarrow> i < 256 \<Longrightarrow> parseConcatHeader (udh_body (concatUDH reference n i))
     = Some \<lparr>Reference = unat reference, Total = n, Sequence = i\<rparr>"
  by (simp add: parseConcatHeader_def udh_body_def concatUDH_def unat_of_nat_byte)

lemma gsm7_part_received:
  assumes r: "recipient_ok r"
    and ss: "ss \<noteq> []" "list_all (\<lambda>b. unat b < 128) ss" "decodeGSM7 ss = (text, None)"
    and enc: "encodeSubmitPDUWithHeader r (Some ss) None h = Inr (pdu, n)" and h: "gsm7_plain h"
  obtains tpdu where "pdu = hex_upper (0 # tpdu)" "tpdu \<noteq> []"
    and "\<And>t. st_TPDU t = tpdu \<Longrightarrow> st_To t = r \<Longrightarrow> st_Encoding t = SMSEncodingGSM7PDU \<Longrightarrow>
      concat_of t = (if h = [] then None else parseConcatHeader (udh_body h)) \<Longrightarrow>
      part_received env t text"
proof -
  obtain tpdu ud where t: "pdu = hex_upper (0 # tpdu)" "tpdu \<noteq> []"
    and d: "decode_tpdu env (at_cursor [0] tpdu) (empty_message (hex_upper (0 # tpdu)))
      = (gsm7_part_decoded ud h text (submit_message (hex_upper (0 # tpdu)) r 0), None)"
    by (rule decode_encoded_gsm7 [OF r ss h enc])
  show thesis
    by (rule that [of tpdu])
      (use t d in \<open>simp_all add: part_received_def DecodeSMSDeliverTPDU_eq gsm7_part_decoded_def
        submit_message_def empty_message_def Let_def del: hex_upper_simps\<close>)
qed

lemma gsm7_single_received:
  assumes r: "recipient_ok r"
    and ss: "ss \<noteq> []" "list_all (\<lambda>b. unat b < 128) ss" "decodeGSM7 ss = (text, None)"
    and enc: "encodeSubmitPDU r (Some ss) None = Inr p"
    and part: "part = direct_text r text \<and> encodeGSM7 text = Some ss
               \<or> part = single_pdu r SMSEncodingGSM7PDU p"
  obtains t where "submit_tpdu text part = Inr t" "part_received env t text" "st_To t = r"
    "st_Part t = 1 \<and> st_Total t = 1 \<and> st_ConcatReference t = None"
proof -
  obtain pdu n where p: "p = (pdu, n)" by (cases p)
  with enc have e: "encodeSubmitPDUWithHeader r (Some ss) None [] = Inr (pdu, n)"
    by (simp add: encodeSubmitPDU_def)
  obtain tpdu where t: "pdu = hex_upper (0 # tpdu)" "tpdu \<noteq> []"
    and rec: "\<And>t. st_TPDU t = tpdu \<Longrightarrow> st_To t = r \<Longrightarrow> st_Encoding t = SMSEncodingGSM7PDU \<Longrightarrow>
      concat_of t = None \<Longrightarrow> part_received env t text"
    by (rule gsm7_part_received [OF r ss e gsm7_plain_simps(1), where env = env]) simp
  from part show thesis
  proof
    assume a: "part = direct_text r text \<and> encodeGSM7 text = Some ss"
    then have "submit_tpdu text part = Inr \<lparr>st_To = r, st_Encoding = SMSEncodingGSM7PDU,
        st_TPDU = tpdu, st_Part = 1, st_Total = 1, st_ConcatReference = None\<rparr>"
      using submit_tpdu_direct [of "text" ss r tpdu n] enc p t by simp
    then show thesis by (rule that) (use rec in \<open>simp_all add: concat_of_def\<close>)
  next
    assume a: "part = single_pdu r SMSEncodingGSM7PDU p"
    then have "submit_tpdu text part = Inr \<lparr>st_To = r, st_Encoding = SMSEncodingGSM7PDU,
        st_TPDU = tpdu, st_Part = 1, st_Total = 1, st_ConcatReference = None\<rparr>"
      using submit_tpdu_pdu [of part tpdu "text"] p t by (simp add: single_pdu_def del: hex_upper_simps)
    then show thesis by (rule that) (use rec in \<open>simp_all add: concat_of_def\<close>)
  qed
qed

lemma gsm7_multi_received:
  assumes r: "recipient_ok r"
    and ss: "ss \<noteq> []" "list_all (\<lambda>b. unat b < 128) ss" "decodeGSM7 ss = (text, None)"
    and enc: "encodeSubmitPDUWithHeader r (Some ss) None (concatUDH reference n (index + 1)) = Inr p"
    and n: "index < n" "n < 256"
  obtains t where
    "submit_tpdu whole (part_pdu r SMSEncodingGSM7PDU reference n index p) = Inr t"
    "part_received env t text" "st_To t = r" "st_Part t = index + 1" "st_Total t = n"
    "st_ConcatReference t = Some (unat reference)"
proof -
  let ?h = "concatUDH reference n (index + 1)"
  obtain pdu k where p: "p = (pdu, k)" by (cases p)
  have h: "?h \<noteq> []" by (simp add: concatUDH_def)
  obtain tpdu where t: "pdu = hex_upper (0 # tpdu)" "tpdu \<noteq> []"
    and rec: "\<And>t. st_TPDU t = tpdu \<Longrightarrow> st_To t = r \<Longrightarrow> st_Encoding t = SMSEncodingGSM7PDU \<Longrightarrow>
      concat_of t = (if ?h = [] then None else parseConcatHeader (udh_body ?h)) \<Longrightarrow>
      part_received env t text"
    by (rule gsm7_part_received [OF r ss enc [unfolded p] gsm7_plain_simps(2), where env = env]) rule
  have "submit_tpdu whole (part_pdu r SMSEncodingGSM7PDU reference n index p)
      = Inr \<lparr>st_To = r, st_Encoding = SMSEncodingGSM7PDU, st_TPDU = tpdu, st_Part = index + 1,
          st_Total = n, st_ConcatReference = Some (unat reference)\<rparr>"
    using submit_tpdu_pdu [of "part_pdu r SMSEncodingGSM7PDU reference n index p" tpdu whole] p t
    by (simp add: part_pdu_def single_pdu_def del: hex_upper_simps)
  then show thesis
    by (rule that) (use rec h n in \<open>simp_all add: concat_of_def parse_concatUDH\<close>)
qed

end
