(* ===== verification/Sms_Delivery.thy ===== *)
theory Sms_Delivery
  imports Sms_Messages
begin

text \<open>
  UCS-2 parts through the decoder, and the end-to-end statement for a whole message: the
  TPDUs of \<open>PrepareSMSSubmitTPDUs\<close>, decoded one by one, give the text back in order.
\<close>

subsection \<open>UTF-16 user data\<close>

text \<open>
  A rune the UCS-2 heuristics accept: printable for the receiver and neither a replacement
  character nor a byte order mark, which the decoder of a part would strip or swap.
\<close>

definition ucs2_clear :: "text_env \<Rightarrow> rune \<Rightarrow> bool" where
  "ucs2_clear env r \<longleftrightarrow> valid_rune r \<and> printable_rune env r \<and> r \<notin> {rune_error, 0xFEFF, 0xFFFE}"

lemma pair_units_encode [simp]: "pair_units False (encodeUCS2Units us) = us"
  by (induction us) (simp_all add: put_be16_def)

lemma utf16_decode_head:
  "utf16_decode (u # us) = r # rs \<Longrightarrow> \<not> high_surrogate u \<Longrightarrow> \<not> low_surrogate u \<Longrightarrow> r = unat u"
  by (simp add: utf16_decode_plain)

lemma not_bom:
  assumes "list_all (ucs2_clear env) (utf16_decode us)" "us \<noteq> []"
  shows "take 2 (encodeUCS2Units us) \<noteq> [0xfe, 0xff]" "take 2 (encodeUCS2Units us) \<noteq> [0xff, 0xfe]"
proof -
  obtain u vs where us: "us = u # vs" using assms(2) by (cases us) auto
  have plain: "utf16_decode (u # vs) = unat u # utf16_decode vs" if "u = 0xFEFF \<or> u = 0xFFFE"
    using that by (intro utf16_decode_plain) (auto simp: high_surrogate_def low_surrogate_def)
  have ne: "u \<noteq> 0xFEFF" "u \<noteq> 0xFFFE"
    using assms(1) plain by (auto simp: us ucs2_clear_def)
  have t: "take 2 (encodeUCS2Units us) = put_be16 u"
    by (simp add: us put_be16_def)
  have inj: "v = w" if "put_be16 v = put_be16 w" for v w :: "16 word"
  proof -
    from that have "ucast (drop_bit 8 v) = (ucast (drop_bit 8 w) :: byte)" "ucast v = (ucast w :: byte)"
      by (simp_all only: put_be16_def list.inject)
    then show "v = w" using be16_put [of v] be16_put [of w] by metis
  qed
  have bom: "put_be16 (0xFEFF :: 16 word) = [0xfe, 0xff]" "put_be16 (0xFFFE :: 16 word) = [0xff, 0xfe]"
    by (simp_all add: put_be16_def)
  show "take 2 (encodeUCS2Units us) \<noteq> [0xfe, 0xff]"
    unfolding t using inj [of u "0xFEFF", unfolded bom] ne(1) by blast
  show "take 2 (encodeUCS2Units us) \<noteq> [0xff, 0xfe]"
    unfolding t using inj [of u "0xFFFE", unfolded bom] ne(2) by blast
qed

lemma mostly_printable_all:
  "list_all (printable_rune env) (runes_of text) \<Longrightarrow> mostly_printable env text"
  by (simp add: mostly_printable_def list_all_iff filter_id_conv [THEN iffD2])

lemma decodeUTF16Bytes_encoded:
  assumes c: "list_all (ucs2_clear env) (utf16_decode us)" and ne: "us \<noteq> []"
  shows "decodeUTF16Bytes env (encodeUCS2Units us) = (string_of_runes (utf16_decode us), True)"
proof -
  have v: "runes_of (string_of_runes (utf16_decode us)) = utf16_decode us"
    using c by (intro runes_of_string) (auto simp: list_all_iff ucs2_clear_def)
  have "mostly_printable env (string_of_runes (utf16_decode us))"
    using c by (intro mostly_printable_all) (auto simp: v list_all_iff ucs2_clear_def)
  moreover have "rune_error \<notin> set (utf16_decode us)" using c by (auto simp: list_all_iff ucs2_clear_def)
  moreover have "encodeUCS2Units us \<noteq> []" using ne by (cases us) (auto simp: put_be16_def)
  ultimately show ?thesis
    using not_bom [OF c ne] by (simp add: decodeUTF16Bytes_def Let_def readableText_def v)
qed

subsection \<open>One UCS-2 part through the decoder\<close>

definition ucs2_part_decoded ::
  "byte list \<Rightarrow> byte list \<Rightarrow> gostring \<Rightarrow> SMSMessage \<Rightarrow> SMSMessage" where
  "ucs2_part_decoded ud h text m =
     (let m1 = m\<lparr>sm_RawUserData := hex_upper ud\<rparr>;
          m2 = (if h = [] then m1 else m1\<lparr>sm_Concat := parseConcatHeader (udh_body h)\<rparr>)
      in m2\<lparr>sm_Encoding := SMSEncodingUCS2PDU, sm_Text := text\<rparr>)"

lemma decodeSMSAlphabet_8 [simp]: "decodeSMSAlphabet 8 = smsAlphabetUCS2"
  by (simp add: decodeSMSAlphabet_def)

lemma decodeUserData_ucs2:
  assumes us: "list_all (ucs2_clear env) (utf16_decode us)" "us \<noteq> []"
    and h: "udh_ok h" "fo AND 0x40 \<noteq> 0 \<longleftrightarrow> h \<noteq> []"
    and ud: "ud = h @ encodeUCS2Units us"
  shows "decodeUserData env ud fo 8 (length ud) m
    = (ucs2_part_decoded ud h (string_of_runes (utf16_decode us)) m, None)"
proof -
  note body = decodeUTF16Bytes_encoded [OF us]
  show ?thesis
  proof (cases "h = []")
    case True
    then show ?thesis
      using body h(2) ud
      by (simp add: decodeUserData_def Let_def ucs2_part_decoded_def decode_ucs2_def slice_def)
  next
    case False
    then obtain l t where lt: "h = l # t" by (cases h) auto
    have l: "unat l + 1 = length h" using h(1) lt by (simp add: udh_ok_def)
    have "take (length h - 1) (drop 1 ud) = udh_body h"
      using lt ud by (simp add: udh_body_def)
    then show ?thesis
      using False body h(2) ud l lt
      by (simp add: decodeUserData_def Let_def ucs2_part_decoded_def decode_ucs2_def slice_def idx_def)
  qed
qed

lemma decode_encoded_ucs2:
  assumes r: "recipient_ok r"
    and us: "list_all (ucs2_clear env) (utf16_decode us)" "us \<noteq> []"
    and enc: "encodeSubmitPDUWithHeader r None (Some (encodeUCS2Units us)) h = Inr (pdu, n)"
  obtains tpdu ud where "pdu = hex_upper (0 # tpdu)" "tpdu \<noteq> []" "n = length tpdu"
    and "decode_tpdu env (at_cursor [0] tpdu) (empty_message (hex_upper (0 # tpdu)))
      = (ucs2_part_decoded ud h (string_of_runes (utf16_decode us))
           (submit_message (hex_upper (0 # tpdu)) r 8), None)"
proof -
  define ud where "ud = h @ encodeUCS2Units us"
  obtain address fo where a: "encodeSemiOctets (trim_plus r) = Inr address"
    and fo: "submit_first_octet h = Inr fo" and le: "length ud \<le> 140"
    and pdu: "pdu = hex_upper (submit_prefix r fo address @ [8, of_nat (length ud)] @ ud)"
    and n: "n = length (submit_prefix r fo address @ [8, of_nat (length ud)] @ ud) - 1"
    using enc unfolding encodeSubmit_Inr_iff submit_user_data_def
    by (auto simp: Let_def ud_def split: if_splits)
  note fo' = submit_first_octet_cases [OF fo]
  define tpdu where "tpdu = fo # 0 # of_nat (length (trim_plus r)) # toa_of r # address
      @ [0, 8, of_nat (length ud)] @ ud"
  have udl: "unat (of_nat (length ud) :: byte) = length ud" using le by (intro unat_of_nat_byte) simp
  have "decode_tpdu env (at_cursor [0] tpdu) (empty_message (hex_upper (0 # tpdu)))
      = decodeUserData env ud fo 8 (length ud) (submit_message (hex_upper (0 # tpdu)) r (unat (8 :: byte)))"
    unfolding tpdu_def decode_tpdu_submit [OF r a fo'(3,4)] udl ..
  then have d: "decode_tpdu env (at_cursor [0] tpdu) (empty_message (hex_upper (0 # tpdu)))
      = (ucs2_part_decoded ud h (string_of_runes (utf16_decode us))
           (submit_message (hex_upper (0 # tpdu)) r 8), None)"
    using decodeUserData_ucs2 [OF us fo'(1,2) ud_def] by simp
  have p: "submit_prefix r fo address @ [8, of_nat (length ud)] @ ud = 0 # tpdu"
    unfolding submit_prefix_eq tpdu_def by simp
  show thesis
    by (rule that [of tpdu ud, OF _ _ _ d]) (use pdu n p tpdu_def in simp_all)
qed

lemma ucs2_part_received:
  assumes r: "recipient_ok r"
    and us: "list_all (ucs2_clear env) (utf16_decode us)" "us \<noteq> []"
    and enc: "encodeSubmitPDUWithHeader r None (Some (encodeUCS2Units us)) h = Inr (pdu, n)"
  obtains tpdu where "pdu = hex_upper (0 # tpdu)" "tpdu \<noteq> []"
    and "\<And>t. st_TPDU t = tpdu \<Longrightarrow> st_To t = r \<Longrightarrow> st_Encoding t = SMSEncodingUCS2PDU \<Longrightarrow>
      concat_of t = (if h = [] then None else parseConcatHeader (udh_body h)) \<Longrightarrow>
      part_received env t (string_of_runes (utf16_decode us))"
proof -
  obtain tpdu ud where t: "pdu = hex_upper (0 # tpdu)" "tpdu \<noteq> []"
    and d: "decode_tpdu env (at_cursor [0] tpdu) (empty_message (hex_upper (0 # tpdu)))
      = (ucs2_part_decoded ud h (string_of_runes (utf16_decode us))
           (submit_message (hex_upper (0 # tpdu)) r 8), None)"
    by (rule decode_encoded_ucs2 [OF r us enc])
  show thesis
    by (rule that [of tpdu])
      (use t d in \<open>simp_all add: part_received_def DecodeSMSDeliverTPDU_eq ucs2_part_decoded_def
        submit_message_def empty_message_def Let_def del: hex_upper_simps\<close>)
qed

subsection \<open>One prepared part, either alphabet\<close>

text \<open>
  What \<open>PrepareSMSSubmitTPDUs\<close> must achieve for part \<open>index\<close> of \<open>n\<close>: a TPDU comes out and the
  decoder of the other side reads the segment, the recipient and the header from it.
\<close>

definition part_delivered ::
  "text_env \<Rightarrow> gostring \<Rightarrow> byte \<Rightarrow> gostring \<Rightarrow> nat \<Rightarrow> nat \<Rightarrow> preparedSMS \<Rightarrow> gostring \<Rightarrow> bool" where
  "part_delivered env r reference whole n index part text \<longleftrightarrow>
     (case submit_tpdu whole part of
        Inl _ \<Rightarrow> False
      | Inr t \<Rightarrow> part_received env t text \<and> st_To t = r \<and> st_Part t = index + 1 \<and> st_Total t = n
          \<and> st_ConcatReference t = (if n = 1 then None else Some (unat reference)))"

lemma gsm7_multi_delivered:
  assumes "recipient_ok r" "ss \<noteq> []" "list_all (\<lambda>b. unat b < 128) ss" "decodeGSM7 ss = (text, None)"
    and "encodeSubmitPDUWithHeader r (Some ss) None (concatUDH reference n (index + 1)) = Inr p"
    and "index < n" "n < 256" "n \<noteq> 1"
  shows "part_delivered env r reference whole n index
    (part_pdu r SMSEncodingGSM7PDU reference n index p) text"
proof -
  obtain t where "submit_tpdu whole (part_pdu r SMSEncodingGSM7PDU reference n index p) = Inr t"
    "part_received env t text" "st_To t = r" "st_Part t = index + 1" "st_Total t = n"
    "st_ConcatReference t = Some (unat reference)"
    by (rule gsm7_multi_received [OF assms(1-7)])
  with assms(8) show ?thesis by (simp add: part_delivered_def)
qed

lemma ucs2_multi_delivered:
  assumes r: "recipient_ok r"
    and us: "list_all (ucs2_clear env) (utf16_decode us)" "us \<noteq> []"
    and enc: "encodeSubmitPDUWithHeader r None (Some (encodeUCS2Units us))
      (concatUDH reference n (index + 1)) = Inr p"
    and n: "index < n" "n < 256" "n \<noteq> 1"
  shows "part_delivered env r reference whole n index
    (part_pdu r SMSEncodingUCS2PDU reference n index p) (string_of_runes (utf16_decode us))"
proof -
  let ?h = "concatUDH reference n (index + 1)"
  obtain pdu k where p: "p = (pdu, k)" by (cases p)
  have h: "?h \<noteq> []" by (simp add: concatUDH_def)
  obtain tpdu where t: "pdu = hex_upper (0 # tpdu)" "tpdu \<noteq> []"
    and rec: "\<And>t. st_TPDU t = tpdu \<Longrightarrow> st_To t = r \<Longrightarrow> st_Encoding t = SMSEncodingUCS2PDU \<Longrightarrow>
      concat_of t = (if ?h = [] then None else parseConcatHeader (udh_body ?h)) \<Longrightarrow>
      part_received env t (string_of_runes (utf16_decode us))"
    by (rule ucs2_part_received [OF r us enc [unfolded p]]) rule
  have "submit_tpdu whole (part_pdu r SMSEncodingUCS2PDU reference n index p)
      = Inr \<lparr>st_To = r, st_Encoding = SMSEncodingUCS2PDU, st_TPDU = tpdu, st_Part = index + 1,
          st_Total = n, st_ConcatReference = Some (unat reference)\<rparr>"
    using submit_tpdu_pdu [of "part_pdu r SMSEncodingUCS2PDU reference n index p" tpdu whole] p t
    by (simp add: part_pdu_def single_pdu_def del: hex_upper_simps)
  moreover have "part_received env \<lparr>st_To = r, st_Encoding = SMSEncodingUCS2PDU, st_TPDU = tpdu,
      st_Part = index + 1, st_Total = n, st_ConcatReference = Some (unat reference)\<rparr>
      (string_of_runes (utf16_decode us))"
    by (rule rec) (use h n in \<open>simp_all add: concat_of_def parse_concatUDH\<close>)
  ultimately show ?thesis using n by (simp add: part_delivered_def)
qed

lemma ucs2_single_delivered:
  assumes r: "recipient_ok r"
    and us: "list_all (ucs2_clear env) (utf16_decode us)" "us \<noteq> []"
    and enc: "encodeSubmitPDU r None (Some (encodeUCS2Units us)) = Inr p"
  shows "part_delivered env r reference whole 1 0 (single_pdu r SMSEncodingUCS2PDU p)
    (string_of_runes (utf16_decode us))"
proof -
  obtain pdu n where p: "p = (pdu, n)" by (cases p)
  with enc have e: "encodeSubmitPDUWithHeader r None (Some (encodeUCS2Units us)) [] = Inr (pdu, n)"
    by (simp add: encodeSubmitPDU_def)
  obtain tpdu where t: "pdu = hex_upper (0 # tpdu)" "tpdu \<noteq> []"
    and rec: "\<And>t. st_TPDU t = tpdu \<Longrightarrow> st_To t = r \<Longrightarrow> st_Encoding t = SMSEncodingUCS2PDU \<Longrightarrow>
      concat_of t = None \<Longrightarrow> part_received env t (string_of_runes (utf16_decode us))"
    by (rule ucs2_part_received [OF r us e]) simp
  have "submit_tpdu whole (single_pdu r SMSEncodingUCS2PDU p) = Inr \<lparr>st_To = r,
      st_Encoding = SMSEncodingUCS2PDU, st_TPDU = tpdu, st_Part = 1, st_Total = 1,
      st_ConcatReference = None\<rparr>"
    using submit_tpdu_pdu [of "single_pdu r SMSEncodingUCS2PDU p" tpdu whole] p t
    by (simp add: single_pdu_def del: hex_upper_simps)
  moreover have "part_received env \<lparr>st_To = r, st_Encoding = SMSEncodingUCS2PDU, st_TPDU = tpdu,
      st_Part = 1, st_Total = 1, st_ConcatReference = None\<rparr> (string_of_runes (utf16_decode us))"
    by (rule rec) (simp_all add: concat_of_def)
  ultimately show ?thesis by (simp add: part_delivered_def)
qed

lemma gsm7_single_delivered:
  assumes "recipient_ok r" "ss \<noteq> []" "list_all (\<lambda>b. unat b < 128) ss" "decodeGSM7 ss = (text, None)"
    and "encodeSubmitPDU r (Some ss) None = Inr p"
    and "part = direct_text r text \<and> encodeGSM7 text = Some ss \<or> part = single_pdu r SMSEncodingGSM7PDU p"
  shows "part_delivered env r reference text 1 0 part text"
proof -
  obtain t where "submit_tpdu text part = Inr t" "part_received env t text" "st_To t = r"
    and "st_Part t = 1 \<and> st_Total t = 1 \<and> st_ConcatReference t = None"
    by (rule gsm7_single_received [OF assms])
  then show ?thesis by (simp add: part_delivered_def)
qed

subsection \<open>A whole message\<close>

definition received_text :: "text_env \<Rightarrow> SMSSubmitTPDU \<Rightarrow> gostring" where
  "received_text env t = sm_Text (fst (DecodeSMSDeliverTPDU env (st_TPDU t)))"

text \<open>
  The TPDUs of a message, seen by a receiver: each decodes without an error to its recipient,
  alphabet and concatenation header, they are numbered from one to their count under one
  reference, and their texts in order are the text that was sent.
\<close>

definition message_received ::
  "text_env \<Rightarrow> gostring \<Rightarrow> byte \<Rightarrow> gostring \<Rightarrow> SMSSubmitTPDU list \<Rightarrow> bool" where
  "message_received env r reference text ts \<longleftrightarrow>
     ts \<noteq> [] \<and> length ts \<le> 255 \<and>
     list_all (\<lambda>(i, t). part_received env t (received_text env t) \<and> st_To t = r \<and> st_Part t = i
        \<and> st_Total t = length ts
        \<and> st_ConcatReference t = (if length ts = 1 then None else Some (unat reference)))
       (enumerate 1 ts) \<and>
     concat (map (received_text env) ts) = text"

lemma received_textI: "part_received env t text \<Longrightarrow> received_text env t = text"
  by (auto simp: part_received_def received_text_def split: prod.splits)

lemma deliver_all:
  assumes n: "parts \<noteq> []" "length parts \<le> 255" "length texts = length parts"
    and d: "\<And>i. i < length parts \<Longrightarrow>
      part_delivered env r reference whole (length parts) i (parts ! i) (texts ! i)"
  shows "\<exists>ts. rmap (submit_tpdu whole) parts = Inr ts
    \<and> message_received env r reference (concat texts) ts"
proof -
  define g where "g part = projr (submit_tpdu whole part)" for part
  have each: "submit_tpdu whole (parts ! i) = Inr (g (parts ! i))"
    "part_received env (g (parts ! i)) (texts ! i)" "st_To (g (parts ! i)) = r"
    "st_Part (g (parts ! i)) = i + 1" "st_Total (g (parts ! i)) = length parts"
    "st_ConcatReference (g (parts ! i)) = (if length parts = 1 then None else Some (unat reference))"
    if "i < length parts" for i
    using d [OF that] by (auto simp: part_delivered_def g_def split: sum.splits)
  have "rmap (submit_tpdu whole) parts = Inr (map g parts)"
    by (rule rmap_ok) (auto simp: in_set_conv_nth each(1))
  moreover have "map (received_text env) (map g parts) = texts"
    by (rule nth_equalityI) (simp_all add: n(3) received_textI [OF each(2)])
  then have "concat (map (received_text env) (map g parts)) = concat texts" by simp
  moreover have "list_all (\<lambda>(i, t). part_received env t (received_text env t) \<and> st_To t = r
      \<and> st_Part t = i \<and> st_Total t = length (map g parts)
      \<and> st_ConcatReference t = (if length (map g parts) = 1 then None else Some (unat reference)))
      (enumerate 1 (map g parts))"
    using each by (auto simp: list_all_length nth_enumerate_eq received_textI [OF each(2)])
  ultimately show ?thesis
    using n(1,2) by (intro exI [of _ "map g parts"]) (simp add: message_received_def)
qed

lemma encode_parts_ok:
  assumes "length segs \<le> 255"
    and "\<And>i. i < length segs \<Longrightarrow> encode (segs ! i) (concatUDH reference (length segs) (i + 1)) = Inr (p i)"
  shows "encode_parts r enc reference encode segs
    = Inr (map (\<lambda>i. part_pdu r enc reference (length segs) i (p i)) [0..<length segs])"
proof -
  have "enumerate 0 segs = map (\<lambda>i. (i, segs ! i)) [0..<length segs]"
    by (rule nth_equalityI) (simp_all add: nth_enumerate_eq)
  moreover have "rmap (\<lambda>i. rbind (encode (segs ! i) (concatUDH reference (length segs) (i + 1)))
        (\<lambda>p. Inr (part_pdu r enc reference (length segs) i p))) [0..<length segs]
      = Inr (map (\<lambda>i. part_pdu r enc reference (length segs) i (p i)) [0..<length segs])"
    by (rule rmap_ok) (simp add: assms(2) [unfolded Suc_eq_plus1 [symmetric]])
  ultimately show ?thesis
    using assms(1) by (simp add: encode_parts_def rmap_map)
qed

lemma encodeSubmit_gsm7_ok:
  assumes "recipient_ok r" "length ss \<le> 153"
  shows "\<exists>p. encodeSubmitPDUWithHeader r (Some ss) None (concatUDH reference n i) = Inr p"
proof -
  obtain bs where "encodeSemiOctets (trim_plus r) = Inr bs"
    by (rule encodeSemiOctets_ok [OF assms(1)])
  with assms(2) show ?thesis by (simp add: encodeSubmit_Inr_iff submit_user_data_def Let_def)
qed

lemma encodeSubmit_ucs2_ok:
  assumes "recipient_ok r" "length us \<le> 67"
  shows "\<exists>p. encodeSubmitPDUWithHeader r None (Some (encodeUCS2Units us)) (concatUDH reference n i) = Inr p"
proof -
  obtain bs where "encodeSemiOctets (trim_plus r) = Inr bs"
    by (rule encodeSemiOctets_ok [OF assms(1)])
  with assms(2) show ?thesis by (simp add: encodeSubmit_Inr_iff submit_user_data_def Let_def)
qed

lemma encodeSubmit_single_ok:
  assumes "recipient_ok r"
  shows "length ss \<le> 160 \<Longrightarrow> \<exists>p. encodeSubmitPDU r (Some ss) None = Inr p"
    and "length us \<le> 70 \<Longrightarrow> \<exists>p. encodeSubmitPDU r None (Some (encodeUCS2Units us)) = Inr p"
proof -
  obtain bs where "encodeSemiOctets (trim_plus r) = Inr bs"
    by (rule encodeSemiOctets_ok [OF assms(1)])
  then show "length ss \<le> 160 \<Longrightarrow> \<exists>p. encodeSubmitPDU r (Some ss) None = Inr p"
    and "length us \<le> 70 \<Longrightarrow> \<exists>p. encodeSubmitPDU r None (Some (encodeUCS2Units us)) = Inr p"
    by (simp_all add: encodeSubmitPDU_def encodeSubmit_Inr_iff submit_user_data_def Let_def
        submit_first_octet_def header_septets_def)
qed

lemma paired_last: "paired lead trail xs \<Longrightarrow> xs \<noteq> [] \<Longrightarrow> (\<And>x. trail x \<Longrightarrow> \<not> lead x) \<Longrightarrow> \<not> lead (last xs)"
  by (induction xs rule: induct_list012) (auto split: if_splits)

lemma utf16_decode_segments:
  "\<forall>s \<in> set segs. ucs2_paired s \<Longrightarrow> utf16_decode (concat segs) = concat (map utf16_decode segs)"
proof (induction segs)
  case (Cons s segs)
  have excl: "low_surrogate u \<Longrightarrow> \<not> high_surrogate u" for u using high_low_disjoint by blast
  have "s = [] \<or> \<not> high_surrogate (last s)"
    using paired_last [where lead = high_surrogate and trail = low_surrogate and xs = s] excl Cons.prems
    by simp blast
  then have "utf16_decode (s @ concat segs) = utf16_decode s @ utf16_decode (concat segs)"
    by (intro utf16_decode_append) blast
  with Cons show ?case by simp
qed simp

text \<open>A prepared message all of whose parts are delivered.\<close>

definition prepared_for ::
  "text_env \<Rightarrow> gostring \<Rightarrow> byte \<Rightarrow> gostring \<Rightarrow> preparedSMS list \<Rightarrow> bool" where
  "prepared_for env r reference text parts \<longleftrightarrow>
     parts \<noteq> [] \<and> length parts \<le> 255 \<and>
     (\<exists>texts. length texts = length parts \<and> concat texts = text \<and>
       (\<forall>i < length parts.
          part_delivered env r reference text (length parts) i (parts ! i) (texts ! i)))"

lemma prepared_single:
  "part_delivered env r reference text 1 0 part text \<Longrightarrow> prepared_for env r reference text [part]"
  unfolding prepared_for_def by (intro conjI exI [of _ "[text]"]) auto

lemma prepared_multi:
  assumes n: "1 < length segs" "length segs \<le> 255"
    and texts: "length texts = length segs" "concat texts = text"
    and enc: "\<And>i. i < length segs \<Longrightarrow>
      \<exists>p. encode (segs ! i) (concatUDH reference (length segs) (i + 1)) = Inr p"
    and del: "\<And>i p. i < length segs \<Longrightarrow>
      encode (segs ! i) (concatUDH reference (length segs) (i + 1)) = Inr p \<Longrightarrow>
      part_delivered env r reference text (length segs) i
        (part_pdu r encoding reference (length segs) i p) (texts ! i)"
  shows "\<exists>parts. encode_parts r encoding reference encode segs = Inr parts
    \<and> prepared_for env r reference text parts \<and> 1 < length parts"
proof -
  define p where "p i = projr (encode (segs ! i) (concatUDH reference (length segs) (i + 1)))" for i
  have e: "encode (segs ! i) (concatUDH reference (length segs) (i + 1)) = Inr (p i)"
    if "i < length segs" for i
    using enc [OF that] by (auto simp: p_def)
  let ?parts = "map (\<lambda>i. part_pdu r encoding reference (length segs) i (p i)) [0..<length segs]"
  have "encode_parts r encoding reference encode segs = Inr ?parts"
    by (rule encode_parts_ok) (use n e in auto)
  moreover have "prepared_for env r reference text ?parts"
    unfolding prepared_for_def
    by (intro conjI exI [of _ texts]) (use n texts del [OF _ e] in auto)
  ultimately show ?thesis using n by auto
qed

lemma prepared_sends:
  assumes "\<And>reference. \<exists>parts. prepareSMSPartsWithReference rcpt text reference = Inr parts
    \<and> prepared_for env r reference text parts \<and> (1 < length parts \<longleftrightarrow> multi)"
  shows "\<exists>ts. PrepareSMSSubmitTPDUs (Some reference) rcpt text = Inr ts
    \<and> message_received env r reference text ts"
proof -
  have sends: "\<exists>ts. rmap (submit_tpdu text) parts = Inr ts \<and> message_received env r ref' text ts"
    if "prepared_for env r ref' text parts" for ref' parts
    using that deliver_all [where parts = parts and whole = "text"]
    unfolding prepared_for_def by blast
  obtain p0 where p0: "prepareSMSPartsWithReference rcpt text 0 = Inr p0"
    "prepared_for env r 0 text p0" "1 < length p0 \<longleftrightarrow> multi"
    using assms [of 0] by blast
  obtain p where p: "prepareSMSPartsWithReference rcpt text reference = Inr p"
    "prepared_for env r reference text p" "1 < length p \<longleftrightarrow> multi"
    using assms [of reference] by blast
  show ?thesis
  proof (cases multi)
    case True
    then have "PrepareSMSSubmitTPDUs (Some reference) rcpt text = rmap (submit_tpdu text) p"
      using p0 p by (simp add: PrepareSMSSubmitTPDUs_def prepareSMSParts_def)
    then show ?thesis using sends [OF p(2)] by simp
  next
    case False
    then have s: "PrepareSMSSubmitTPDUs (Some reference) rcpt text = rmap (submit_tpdu text) p0"
      using p0 by (simp add: PrepareSMSSubmitTPDUs_def prepareSMSParts_def)
    have "prepared_for env r reference text p0"
      using p0 False by (auto simp: prepared_for_def part_delivered_def split: sum.splits)
    then show ?thesis using sends [of reference p0] s by simp
  qed
qed

subsection \<open>Both alphabets, end to end\<close>

lemma gsm7_prepared:
  assumes r: "normalizeSMSRecipient rcpt = Inr r"
    and tx: "text \<noteq> []" "0 \<notin> set text" "encodeGSM7 text = Some ss" "length ss \<le> 152 * 255"
  shows "\<exists>parts. prepareSMSPartsWithReference rcpt text reference = Inr parts
    \<and> prepared_for env r reference text parts \<and> (1 < length parts \<longleftrightarrow> 160 < length ss)"
proof -
  note ok = normalize_ok [OF r] and seven = encodeGSM7_septets [OF tx(3)]
    and dec = decode_encodeGSM7 [OF tx(3)]
  have ne: "ss \<noteq> []" using dec tx(1) by auto
  show ?thesis
  proof (cases "length ss \<le> 160")
    case True
    obtain p where p: "encodeSubmitPDU r (Some ss) None = Inr p"
      using encodeSubmit_single_ok(1) [OF ok True] by blast
    define part where "part = (if canSendDirectGSM7 text then direct_text r text
      else single_pdu r SMSEncodingGSM7PDU p)"
    have "prepareSMSPartsWithReference rcpt text reference = Inr [part]"
      using r tx True p by (simp add: prepareSMSPartsWithReference_def part_def)
    moreover have "prepared_for env r reference text [part]"
      by (rule prepared_single, rule gsm7_single_delivered [OF ok ne seven dec p])
        (simp add: part_def tx(3))
    ultimately show ?thesis using True by simp
  next
    case False
    obtain segs where segs: "splitGSM7 ss 153 = Some segs" using splitGSM7_returns by blast
    then have sp: "split_loop (cut_gsm7 153) ss = Some segs" by (simp add: splitGSM7_def)
    have n: "1 < length segs" using gsm7_cut.split_length_ge [OF sp] False by linarith
    have "152 * (length segs - 1) < 152 * 255"
      using gsm7_tight.split_length_le [OF sp ne] tx(4) by simp
    then have n': "length segs \<le> 255" by simp
    have cc: "concat segs = ss" by (rule gsm7_cut.split_concat [OF sp])
    have "gsm7_paired ss" using tx(3) encoded_paired by (simp add: encodeGSM7_def)
    then have pr: "\<forall>s \<in> set segs. gsm7_paired s" using gsm7_pairs.split_paired [OF sp] by blast
    let ?texts = "map (\<lambda>s. fst (decodeGSM7 s)) segs"
    note ds = decodeGSM7_segments [OF dec [folded cc] pr]
    have seg: "segs ! i \<noteq> []" "length (segs ! i) \<le> 153" "list_all (\<lambda>b. unat b < 128) (segs ! i)"
      "decodeGSM7 (segs ! i) = (?texts ! i, None)" if "i < length segs" for i
      using gsm7_cut.split_parts [OF sp, of "segs ! i"] ds seven that
      by (auto simp: cc [symmetric] list_all_iff prod_eq_iff)
    have "\<exists>parts. encode_parts r SMSEncodingGSM7PDU reference
        (\<lambda>s h. encodeSubmitPDUWithHeader r (Some s) None h) segs = Inr parts
        \<and> prepared_for env r reference text parts \<and> 1 < length parts"
    proof (rule prepared_multi [OF n n', where texts = ?texts])
      show "part_delivered env r reference text (length segs) i
          (part_pdu r SMSEncodingGSM7PDU reference (length segs) i p) (?texts ! i)"
        if "i < length segs" "encodeSubmitPDUWithHeader r (Some (segs ! i)) None
          (concatUDH reference (length segs) (i + 1)) = Inr p" for i p
        using gsm7_multi_delivered [OF ok seg(1,3,4) [OF that(1)] that(2,1)] n n' by simp
    qed (use ds seg encodeSubmit_gsm7_ok [OF ok] in auto)
    then show ?thesis
      using r tx False segs by (simp add: prepareSMSPartsWithReference_def of_loop_def)
  qed
qed

lemma ucs2_prepared:
  assumes r: "normalizeSMSRecipient rcpt = Inr r"
    and tx: "text \<noteq> []" "0 \<notin> set text" "encodeGSM7 text = None"
    and clr: "list_all (ucs2_clear env) (runes_of text)"
    and len: "length (utf16_encode (runes_of text)) \<le> 66 * 255"
  shows "\<exists>parts. prepareSMSPartsWithReference rcpt text reference = Inr parts
    \<and> prepared_for env r reference text parts
    \<and> (1 < length parts \<longleftrightarrow> 70 < length (utf16_encode (runes_of text)))"
proof -
  define us where "us = utf16_encode (runes_of text)"
  note ok = normalize_ok [OF r]
  have dec: "utf16_decode us = runes_of text"
    unfolding us_def by (rule utf16_decode_encode) (use clr in \<open>auto simp: list_all_iff ucs2_clear_def\<close>)
  have txeq: "string_of_runes (runes_of text) = text"
    by (rule string_of_runes_of) (use clr in \<open>auto simp: list_all_iff ucs2_clear_def\<close>)
  have ne: "us \<noteq> []" using dec txeq tx(1) by auto
  show ?thesis
  proof (cases "length us \<le> 70")
    case True
    obtain p where p: "encodeSubmitPDU r None (Some (encodeUCS2Units us)) = Inr p"
      using encodeSubmit_single_ok(2) [OF ok True] by blast
    have "prepareSMSPartsWithReference rcpt text reference = Inr [single_pdu r SMSEncodingUCS2PDU p]"
      using r tx True p by (simp add: prepareSMSPartsWithReference_def Let_def us_def)
    moreover have "prepared_for env r reference text [single_pdu r SMSEncodingUCS2PDU p]"
      using prepared_single ucs2_single_delivered [OF ok _ ne p] clr dec txeq by simp
    ultimately show ?thesis using True us_def by simp
  next
    case False
    obtain segs where segs: "splitUCS2 us 67 = Some segs" using splitUCS2_returns by blast
    then have sp: "split_loop (cut_ucs2 67) us = Some segs" by (simp add: splitUCS2_def)
    have n: "1 < length segs" using ucs2_cut.split_length_ge [OF sp] False by linarith
    have "66 * (length segs - 1) < 66 * 255"
      using ucs2_tight.split_length_le [OF sp ne] len us_def by simp
    then have n': "length segs \<le> 255" by simp
    have cc: "concat segs = us" by (rule ucs2_cut.split_concat [OF sp])
    have "\<forall>s \<in> set segs. ucs2_paired s"
      using ucs2_pairs.split_paired [OF sp] utf16_encode_paired us_def by blast
    then have ds: "runes_of text = concat (map utf16_decode segs)"
      using utf16_decode_segments [of segs] cc dec by simp
    let ?texts = "map (\<lambda>s. string_of_runes (utf16_decode s)) segs"
    have seg: "segs ! i \<noteq> []" "length (segs ! i) \<le> 67"
      "list_all (ucs2_clear env) (utf16_decode (segs ! i))" if "i < length segs" for i
      using ucs2_cut.split_parts [OF sp, of "segs ! i"] clr that by (auto simp: ds list_all_iff)
    have texts: "concat ?texts = text"
    proof -
      have "string_of_runes (concat rss) = concat (map string_of_runes rss)" for rss
        by (induction rss) simp_all
      then have "concat ?texts = string_of_runes (concat (map utf16_decode segs))" by (simp add: comp_def)
      then show ?thesis using ds txeq by simp
    qed
    let ?enc = "\<lambda>s h. encodeSubmitPDUWithHeader r None (Some s) h"
    have "\<exists>parts. encode_parts r SMSEncodingUCS2PDU reference ?enc (map encodeUCS2Units segs) = Inr parts
        \<and> prepared_for env r reference text parts \<and> 1 < length parts"
    proof (rule prepared_multi [where texts = ?texts])
      show "part_delivered env r reference text (length (map encodeUCS2Units segs)) i
          (part_pdu r SMSEncodingUCS2PDU reference (length (map encodeUCS2Units segs)) i p) (?texts ! i)"
        if "i < length (map encodeUCS2Units segs)" "?enc (map encodeUCS2Units segs ! i)
          (concatUDH reference (length (map encodeUCS2Units segs)) (i + 1)) = Inr p" for i p
        using ucs2_multi_delivered [OF ok seg(3,1), of i reference "length segs" i p] that n n' by simp
    qed (use n n' texts seg encodeSubmit_ucs2_ok [OF ok] in auto)
    then show ?thesis
      using r tx False segs by (simp add: prepareSMSPartsWithReference_def of_loop_def Let_def us_def)
  qed
qed

end
