(* ===== verification/Sms_Properties.thy ===== *)
theory Sms_Properties
  imports Sms_Delivery
begin

text \<open>
  The properties of the SMS codec: what \<open>PrepareSMSSubmitTPDUs\<close> hands to the modem for any
  text, what the receiver reads, and that neither direction panics or loops.
\<close>

subsection \<open>The shape of every part\<close>

lemma submit_user_data_bound:
  assumes "submit_user_data g u h = Inr ud"
  shows "length ud \<le> 142" "2 \<le> length ud"
proof -
  have d: "(x * 7 + 7) div 8 \<le> 140" if "x \<le> 160" for x :: nat using that by presburger
  show "length ud \<le> 142" "2 \<le> length ud"
    using assms d [of "header_septets h + _"]
    by (auto simp: submit_user_data_def Let_def copy_over_def length_packSeptets add_mult_distrib
        header_septets_def split: option.splits if_splits)
qed

lemma encodeSubmit_shape:
  assumes "encodeSubmitPDUWithHeader r g u h = Inr (pdu, n)" "recipient_ok r"
  shows "\<exists>tpdu. pdu = hex_upper (0 # tpdu) \<and> n = length tpdu \<and> tpdu \<noteq> [] \<and> length tpdu \<le> 157
    \<and> hd tpdu AND 0x03 = 1 \<and> (hd tpdu AND 0x40 \<noteq> 0 \<longleftrightarrow> h \<noteq> [])"
proof -
  obtain address fo ud where a: "encodeSemiOctets (trim_plus r) = Inr address"
    and fo: "submit_first_octet h = Inr fo" and ud: "submit_user_data g u h = Inr ud"
    and p: "pdu = hex_upper (submit_prefix r fo address @ ud)"
      "n = length (submit_prefix r fo address @ ud) - 1"
    using assms(1) unfolding encodeSubmit_Inr_iff by auto
  obtain bs where "encodeSemiOctets (trim_plus r) = Inr bs" "length bs = (length (trim_plus r) + 1) div 2"
    by (rule encodeSemiOctets_ok [OF assms(2)])
  moreover have "length (trim_plus r) \<le> 20" using assms(2) by (simp add: recipient_ok_def)
  ultimately have "length address \<le> 10" using a by simp
  then show ?thesis
    using p submit_user_data_bound [OF ud] submit_first_octet_cases(2,3) [OF fo]
    by (intro exI [of _ "fo # 0 # of_nat (length (trim_plus r)) # toa_of r # address @ [0] @ ud"])
      (simp add: submit_prefix_eq del: hex_upper_simps)
qed

text \<open>What holds of each part, whatever the text is.\<close>

definition tpdu_shape :: "gostring \<Rightarrow> byte option \<Rightarrow> nat \<Rightarrow> nat \<Rightarrow> SMSSubmitTPDU \<Rightarrow> bool" where
  "tpdu_shape r reference n i t \<longleftrightarrow>
     st_TPDU t \<noteq> [] \<and> length (st_TPDU t) \<le> 157 \<and> hd (st_TPDU t) AND 0x03 = 1
     \<and> (hd (st_TPDU t) AND 0x40 \<noteq> 0 \<longleftrightarrow> n \<noteq> 1)
     \<and> st_To t = r \<and> st_Part t = i \<and> st_Total t = n
     \<and> st_ConcatReference t = (if n = 1 then None else map_option unat reference)
     \<and> st_Encoding t \<in> {SMSEncodingGSM7PDU, SMSEncodingUCS2PDU}"

definition part_shape :: "gostring \<Rightarrow> gostring \<Rightarrow> byte \<Rightarrow> nat \<Rightarrow> nat \<Rightarrow> preparedSMS \<Rightarrow> bool" where
  "part_shape text r reference n i part \<longleftrightarrow>
     part = direct_text r text \<and> n = 1 \<and> i = 1 \<and> (\<exists>ss. encodeGSM7 text = Some ss) \<or>
     ps_encoding part \<in> {SMSEncodingGSM7PDU, SMSEncodingUCS2PDU}
     \<and> ps_to part = r \<and> ps_part part = i \<and> ps_total part = n
     \<and> ps_concatReference part = (if n = 1 then None else Some (unat reference))
     \<and> (\<exists>g u h. encodeSubmitPDUWithHeader r g u h = Inr (ps_payload part, ps_tpduLength part)
          \<and> (h \<noteq> [] \<longleftrightarrow> n \<noteq> 1))"

lemma submit_tpdu_shape:
  assumes "part_shape text r reference n i part" "submit_tpdu text part = Inr t" "recipient_ok r"
  shows "tpdu_shape r (Some reference) n i t"
  using assms(1) unfolding part_shape_def
proof (elim disjE conjE exE)
  fix ss
  assume d: "part = direct_text r text" "n = 1" "i = 1" "encodeGSM7 text = Some ss"
  have enc: "ps_encoding part = SMSEncodingGSM7Text" "ps_to part = r"
    using d by (simp_all add: direct_text_def)
  have "\<exists>p. encodeSubmitPDU r (Some ss) None = Inr p"
    using assms(2) enc d(4) by (auto simp: submit_tpdu_def res_simps)
  then obtain pdu k where p: "encodeSubmitPDU r (Some ss) None = Inr (pdu, k)" by auto
  with encodeSubmit_shape [of r "Some ss" None "[]" pdu k] assms(3) obtain tpdu where
    t: "pdu = hex_upper (0 # tpdu)" "tpdu \<noteq> []" "length tpdu \<le> 157" "hd tpdu AND 0x03 = 1"
      "hd tpdu AND 0x40 = 0"
    by (auto simp: encodeSubmitPDU_def)
  have "t = \<lparr>st_To = r, st_Encoding = SMSEncodingGSM7PDU, st_TPDU = tpdu,
      st_Part = 1, st_Total = 1, st_ConcatReference = None\<rparr>"
    using submit_tpdu_direct [OF d(4) p [unfolded t(1)] t(2)] assms(2) d(1) by simp
  then show ?thesis using t d(2,3) by (simp add: tpdu_shape_def)
next
  fix g u h
  assume s: "ps_encoding part \<in> {SMSEncodingGSM7PDU, SMSEncodingUCS2PDU}" "ps_to part = r"
    "ps_part part = i" "ps_total part = n"
    "ps_concatReference part = (if n = 1 then None else Some (unat reference))"
    "encodeSubmitPDUWithHeader r g u h = Inr (ps_payload part, ps_tpduLength part)"
    "h \<noteq> [] \<longleftrightarrow> n \<noteq> 1"
  obtain tpdu where t: "ps_payload part = hex_upper (0 # tpdu)" "tpdu \<noteq> []" "length tpdu \<le> 157"
      "hd tpdu AND 0x03 = 1" "hd tpdu AND 0x40 \<noteq> 0 \<longleftrightarrow> h \<noteq> []"
    using encodeSubmit_shape [OF s(6) assms(3)] by blast
  have "ps_encoding part \<noteq> SMSEncodingGSM7Text" using s(1) by auto
  then show ?thesis
    using submit_tpdu_pdu [OF _ t(1,2), of "text"] assms(2) s t by (auto simp: tpdu_shape_def)
qed

lemma encode_parts_shape:
  assumes "encode_parts r encoding reference encode segs = Inr parts" "1 < length segs"
    and "encoding \<in> {SMSEncodingGSM7PDU, SMSEncodingUCS2PDU}"
    and "\<And>s h p. encode s h = Inr p \<Longrightarrow> \<exists>g u. encodeSubmitPDUWithHeader r g u h = Inr p"
  shows "length parts = length segs" "length segs \<le> 255"
    and "i < length parts \<Longrightarrow> part_shape text r reference (length parts) (i + 1) (parts ! i)"
proof -
  show le: "length segs \<le> 255" using assms(1) by (simp add: encode_parts_def split: if_splits)
  then have all: "list_all2 (\<lambda>x part. (\<lambda>(index, segment).
      rbind (encode segment (concatUDH reference (length segs) (index + 1))) (\<lambda>p.
        Inr (part_pdu r encoding reference (length segs) index p))) x = Inr part) (enumerate 0 segs) parts"
    using assms(1) by (simp add: encode_parts_def res_simps split: if_splits)
  show len: "length parts = length segs" using list_all2_lengthD [OF all] by simp
  assume i: "i < length parts"
  then have "rbind (encode (segs ! i) (concatUDH reference (length segs) (i + 1))) (\<lambda>p.
      Inr (part_pdu r encoding reference (length segs) i p)) = Inr (parts ! i)"
    using list_all2_nthD2 [OF all, of i] len by (simp add: nth_enumerate_eq)
  then obtain p where p: "encode (segs ! i) (concatUDH reference (length segs) (i + 1)) = Inr p"
    "parts ! i = part_pdu r encoding reference (length segs) i p"
    by (auto simp: rbind_Inr_iff)
  have "concatUDH reference (length segs) (i + 1) \<noteq> []" by (simp add: concatUDH_def)
  with p assms(2,3,4) len show "part_shape text r reference (length parts) (i + 1) (parts ! i)"
    by (cases p) (fastforce simp: part_shape_def part_pdu_def single_pdu_def)
qed

lemma prepared_shape:
  assumes "prepareSMSPartsWithReference rcpt text reference = Inr parts"
  shows "\<exists>r. normalizeSMSRecipient rcpt = Inr r \<and> parts \<noteq> [] \<and> length parts \<le> 255 \<and>
    (\<forall>i < length parts. part_shape text r reference (length parts) (i + 1) (parts ! i))"
proof -
  obtain r where r: "normalizeSMSRecipient rcpt = Inr r"
    using assms by (auto simp: prepareSMSPartsWithReference_def res_simps)
  show ?thesis
  proof (cases "encodeGSM7 text")
    case (Some ss)
    show ?thesis
    proof (cases "length ss \<le> 160")
      case True
      then obtain part where p: "parts = [part]" "part_shape text r reference 1 1 part"
        using assms r Some
        by (auto simp: prepareSMSPartsWithReference_def part_shape_def single_pdu_def
            encodeSubmitPDU_def res_simps split: if_splits) blast+
      then show ?thesis using r by simp
    next
      case False
      obtain segs where segs: "split_loop (cut_gsm7 153) ss = Some segs"
        using splitGSM7_returns by (auto simp: splitGSM7_def)
      have n: "1 < length segs" using gsm7_cut.split_length_ge [OF segs] False by linarith
      have e: "encode_parts r SMSEncodingGSM7PDU reference
          (\<lambda>s h. encodeSubmitPDUWithHeader r (Some s) None h) segs = Inr parts"
        using assms r Some False segs
        by (simp add: prepareSMSPartsWithReference_def of_loop_def splitGSM7_def split: if_splits)
      have g: "\<exists>g u. encodeSubmitPDUWithHeader r g u h = Inr p"
        if "encodeSubmitPDUWithHeader r (Some s) None h = Inr p" for s h p
        using that by blast
      note shape = encode_parts_shape [OF e n _ g, simplified]
      show ?thesis using shape(1,2) shape(3) r n by auto
    qed
  next
    case None
    let ?us = "utf16_encode (runes_of text)"
    show ?thesis
    proof (cases "length ?us \<le> 70")
      case True
      then obtain part where p: "parts = [part]" "part_shape text r reference 1 1 part"
        using assms r None
        by (auto simp: prepareSMSPartsWithReference_def part_shape_def single_pdu_def
            encodeSubmitPDU_def res_simps Let_def split: if_splits) blast+
      then show ?thesis using r by simp
    next
      case False
      obtain segs where segs: "split_loop (cut_ucs2 67) ?us = Some segs"
        using splitUCS2_returns by (auto simp: splitUCS2_def)
      have n: "1 < length (map encodeUCS2Units segs)"
        using ucs2_cut.split_length_ge [OF segs] False by simp
      have e: "encode_parts r SMSEncodingUCS2PDU reference
          (\<lambda>s h. encodeSubmitPDUWithHeader r None (Some s) h) (map encodeUCS2Units segs) = Inr parts"
        using assms r None False segs
        by (simp add: prepareSMSPartsWithReference_def of_loop_def splitUCS2_def Let_def split: if_splits)
      have g: "\<exists>g u. encodeSubmitPDUWithHeader r g u h = Inr p"
        if "encodeSubmitPDUWithHeader r None (Some s) h = Inr p" for s h p
        using that by blast
      note shape = encode_parts_shape [OF e n _ g, simplified]
      show ?thesis using shape(1,2) shape(3) r n by auto
    qed
  qed
qed

subsection \<open>Delivery\<close>

lemma hi_facts:
  "normalizeSMSRecipient (str ''+41-79'') = Inr (str ''+4179'')"
  "str ''Hi@'' \<noteq> []" "0 \<notin> set (str ''Hi@'')"
  "encodeGSM7 (str ''Hi@'') = Some [72, 105, 0]"
proof -
  show "normalizeSMSRecipient (str ''+41-79'') = Inr (str ''+4179'')"
    by (simp add: normalizeSMSRecipient_def str_def graphic_def trim_plus_def has_plus_def
        runes_of_ascii is_ascii_def del: runes_of.simps)
  show "str ''Hi@'' \<noteq> []" "0 \<notin> set (str ''Hi@'')" by code_simp+
  have "runes_of (str ''Hi@'') = [72, 105, 64]" by code_simp
  moreover have "gsm7Encoder 72 = Some [72]" "gsm7Encoder 105 = Some [105]" "gsm7Encoder 64 = Some [0]"
    using gsm7Encoder_default [of 72] gsm7Encoder_default [of 105] gsm7Encoder_default [of 0]
    by (simp_all add: gsm7DefaultAlphabet_def)
  ultimately show "encodeGSM7 (str ''Hi@'') = Some [72, 105, 0]" by (simp add: encodeGSM7_def)
qed

text \<open>
  C1: A text of the GSM-7 alphabet of at most 38,760 septets always reaches the receiver.  For a
  recipient that normalises to \<open>r\<close>, \<open>PrepareSMSSubmitTPDUs\<close> succeeds, and decoding the TPDUs it
  returns with the receive side of the same file yields no error, the recipient, the numbering
  and the reference of the concatenation header, and parts whose texts concatenate to the text.
\<close>

theorem sms_gsm7_delivered:
  assumes "normalizeSMSRecipient rcpt = Inr r"
    and "text \<noteq> []" "0 \<notin> set text" "encodeGSM7 text = Some septets"
    and "length septets \<le> 152 * 255"
  shows "\<exists>ts. PrepareSMSSubmitTPDUs (Some reference) rcpt text = Inr ts
    \<and> message_received env r reference text ts"
  using prepared_sends [OF gsm7_prepared [OF assms]] .

theorem sms_gsm7_delivered_witness:
  "\<exists>ts. PrepareSMSSubmitTPDUs (Some 7) (str ''+41-79'') (str ''Hi@'') = Inr ts
    \<and> message_received plain_env (str ''+4179'') 7 (str ''Hi@'') ts"
  by (rule sms_gsm7_delivered [OF hi_facts]) simp

text \<open>
  C2: A text outside the GSM-7 alphabet whose runes the receiver takes for printable, none of
  them a replacement character or a byte order mark, reaches the receiver the same way over
  UCS-2, up to 16,830 code units; no surrogate pair is torn apart between two parts.
\<close>

theorem sms_ucs2_delivered:
  assumes "normalizeSMSRecipient rcpt = Inr r"
    and "text \<noteq> []" "0 \<notin> set text" "encodeGSM7 text = None"
    and "list_all (ucs2_clear env) (runes_of text)"
    and "length (utf16_encode (runes_of text)) \<le> 66 * 255"
  shows "\<exists>ts. PrepareSMSSubmitTPDUs (Some reference) rcpt text = Inr ts
    \<and> message_received env r reference text ts"
  using prepared_sends [OF ucs2_prepared [OF assms]] .

theorem sms_ucs2_delivered_witness:
  "\<exists>ts. PrepareSMSSubmitTPDUs (Some 7) (str ''10086'') [0x48, 0xF0, 0x9F, 0x98, 0x80, 0xE4, 0xBD, 0xA0] = Inr ts
    \<and> message_received plain_env (str ''10086'') 7 [0x48, 0xF0, 0x9F, 0x98, 0x80, 0xE4, 0xBD, 0xA0] ts"
proof (rule sms_ucs2_delivered)
  let ?t = "[0x48, 0xF0, 0x9F, 0x98, 0x80, 0xE4, 0xBD, 0xA0] :: gostring"
  show "normalizeSMSRecipient (str ''10086'') = Inr (str ''10086'')"
    by (simp add: normalizeSMSRecipient_def str_def graphic_def trim_plus_def has_plus_def
        runes_of_ascii is_ascii_def del: runes_of.simps)
  show "?t \<noteq> []" "0 \<notin> set ?t" by code_simp+
  have r: "runes_of ?t = [0x48, 0x1F600, 0x4F60]" by (simp add: utf8_first_def cont_def)
  show "encodeGSM7 ?t = None"
    unfolding encodeGSM7_def r by (simp add: gsm7Encoder_bound split: option.split)
  show "list_all (ucs2_clear plain_env) (runes_of ?t)"
    unfolding r by (simp add: ucs2_clear_def printable_rune_def plain_env_def valid_rune_def
        surrogate_def rune_error_def)
  show "length (utf16_encode (runes_of ?t)) \<le> 66 * 255" unfolding r by simp
qed

text \<open>
  C3: Whatever the text, a submission that is returned has between 1 and 255 TPDUs, numbered
  from one to their count, each an SMS-SUBMIT of at most 157 octets to the normalised recipient;
  only parts of a concatenated message carry a user data header, all under the one random
  reference.
\<close>

theorem sms_submission_shape:
  assumes "PrepareSMSSubmitTPDUs random rcpt text = Inr ts"
  shows "\<exists>r. normalizeSMSRecipient rcpt = Inr r \<and> ts \<noteq> [] \<and> length ts \<le> 255 \<and>
    (\<forall>i < length ts. tpdu_shape r random (length ts) (i + 1) (ts ! i))"
proof -
  obtain parts where p: "prepareSMSParts random rcpt text = Inr parts"
    and all: "list_all2 (\<lambda>part t. submit_tpdu text part = Inr t) parts ts"
    using assms by (auto simp: PrepareSMSSubmitTPDUs_def res_simps)
  obtain reference where w: "prepareSMSPartsWithReference rcpt text reference = Inr parts"
    and ref: "length parts \<noteq> 1 \<longrightarrow> random = Some reference"
  proof -
    obtain p0 where p0: "prepareSMSPartsWithReference rcpt text 0 = Inr p0"
      "(if length p0 \<le> 1 then Inr p0 else case random of None \<Rightarrow> Inl (Fail ErrRandom)
        | Some reference \<Rightarrow> prepareSMSPartsWithReference rcpt text reference) = Inr parts"
      using p by (auto simp: prepareSMSParts_def rbind_Inr_iff)
    have "p0 \<noteq> []" using prepared_shape [OF p0(1)] by blast
    then show thesis using p0 that by (auto simp: le_Suc_eq split: if_splits option.splits)
  qed
  obtain r where r: "normalizeSMSRecipient rcpt = Inr r" "parts \<noteq> []" "length parts \<le> 255"
    and sh: "\<And>i. i < length parts \<Longrightarrow> part_shape text r reference (length parts) (i + 1) (parts ! i)"
    using prepared_shape [OF w] by blast
  have len: "length ts = length parts" using list_all2_lengthD [OF all] by simp
  have "tpdu_shape r random (length ts) (i + 1) (ts ! i)" if "i < length ts" for i
    using submit_tpdu_shape [OF sh _ normalize_ok [OF r(1)]] list_all2_nthD2 [OF all that] that len ref
    by (auto simp: tpdu_shape_def)
  with r len show ?thesis by auto
qed

theorem sms_submission_shape_witness:
  "\<exists>ts r. PrepareSMSSubmitTPDUs (Some 7) (str ''+41-79'') (str ''Hi@'') = Inr ts
    \<and> normalizeSMSRecipient (str ''+41-79'') = Inr r \<and> ts \<noteq> [] \<and> length ts \<le> 255
    \<and> (\<forall>i < length ts. tpdu_shape r (Some 7) (length ts) (i + 1) (ts ! i))"
proof -
  obtain ts where "PrepareSMSSubmitTPDUs (Some 7) (str ''+41-79'') (str ''Hi@'') = Inr ts"
    using prepared_sends [OF gsm7_prepared [OF hi_facts]] by fastforce
  from this sms_submission_shape [OF this] show ?thesis by blast
qed

subsection \<open>Totality\<close>

lemma encode_parts_safe:
  "(\<And>s h. safe (encode s h)) \<Longrightarrow> safe (encode_parts r enc reference encode segs)"
  unfolding encode_parts_def by (auto intro!: safe_rmap)

lemma prepareWithReference_safe [simp]: "safe (prepareSMSPartsWithReference rcpt text reference)"
proof -
  obtain a where a: "splitGSM7 ss 153 = Some (a ss)" for ss using splitGSM7_returns by metis
  obtain b where b: "splitUCS2 us 67 = Some (b us)" for us using splitUCS2_returns by metis
  show ?thesis
    unfolding prepareSMSPartsWithReference_def
    by (auto simp: Let_def of_loop_def a b intro!: encode_parts_safe split: option.splits)
qed


text \<open>
  Decoding a received PDU never panics and always returns: for every string of the modem,
  every TPDU of a network and every behaviour of the character tables, \<open>decodeSMSPDU\<close> and
  \<open>DecodeSMSDeliverTPDU\<close> end with a message and no error or an error value; so does the WAP push
  decoder of \<open>internal/smsdecode\<close> on a payload and on its hexadecimal form.
\<close>

theorem sms_decode_total:
  "snd (decodeSMSPDU env raw) \<notin> {Some Panic, Some Hang}
   \<and> snd (DecodeSMSDeliverTPDU env tpdu) \<notin> {Some Panic, Some Hang}
   \<and> safe (DecodeDisplayText env payload) \<and> safe (DecodeHexDisplayText env hex)"
  using decodeSMSPDU_calm_any [of env]
  by (auto simp: calm_def DecodeSMSDeliverTPDU_def)

subsection \<open>Septets and alphabet\<close>

text \<open>
  Unpacking is a left inverse of packing for every list of septets and every fill offset,
  also after the octets before that offset have been overwritten by a user data header.
\<close>

theorem septets_roundtrip:
  assumes "list_all (\<lambda>b. unat b < 128) septets" "septets \<noteq> []"
    and "8 * length header \<le> start" "length header \<le> length (packSeptets septets start)"
  shows "unpackSeptets (copy_over (packSeptets septets start) header) (int (length septets)) start
    = Inr septets"
proof (rule unpack_pack_overlay)
  show "length (copy_over (packSeptets septets start) header) = length (packSeptets septets start)"
    using assms(4) by (simp add: copy_over_def)
  show "bitat (copy_over (packSeptets septets start) header) p
      \<longleftrightarrow> bitat (packSeptets septets start) p" if "start \<le> p" for p
    using bitat_take_drop [OF assms(4)] assms(3) that by simp
qed (use assms in auto)

theorem septets_roundtrip_witness:
  "unpackSeptets (copy_over (packSeptets [72, 105, 0x1b] 49) [5, 0, 3, 9, 2, 1]) (int 3) 49
    = Inr [72, 105, 0x1b]"
  using septets_roundtrip [of "[72, 105, 0x1b]" "[5, 0, 3, 9, 2, 1]" 49]
  by (simp add: length_packSeptets)

text \<open>
  Decoding the septets of an encodable text gives the text back, every septet is below 128,
  and every code of the default alphabet but the escape is what its character encodes to.
\<close>

theorem gsm7_alphabet_roundtrip:
  "(\<forall>septets. encodeGSM7 text = Some septets \<longrightarrow>
      decodeGSM7 septets = (text, None) \<and> list_all (\<lambda>b. unat b < 128) septets)
   \<and> (\<forall>code < 128. code \<noteq> 27 \<longrightarrow> gsm7Encoder (gsm7DefaultAlphabet ! code) = Some [of_nat code])"
  using decode_encodeGSM7 encodeGSM7_septets gsm7Encoder_default by simp

theorem gsm7_alphabet_roundtrip_witness:
  "decodeGSM7 [72, 105, 0] = (str ''Hi@'', None) \<and> gsm7Encoder (gsm7DefaultAlphabet ! 2) = Some [2]"
proof -
  have "gsm7Encoder (gsm7DefaultAlphabet ! 2) = Some [of_nat 2]"
    using gsm7_alphabet_roundtrip by (meson eval_nat_numeral numeral_less_iff semiring_norm)
  then show ?thesis using gsm7_alphabet_roundtrip [of "str ''Hi@''"] hi_facts(4) by simp
qed

subsection \<open>Timestamps\<close>

text \<open>A two-digit number in swapped semi-octets, as the network sends it.\<close>

definition swapped :: "nat \<Rightarrow> byte" where
  "swapped n = of_nat (n div 10 + 16 * (n mod 10))"

lemma semi_octet_swapped_all:
  "list_all (\<lambda>n. semi_octet (swapped n) = Inr n) [0..<100]"
  by code_simp

lemma semi_octet_swapped: "n < 100 \<Longrightarrow> semi_octet (swapped n) = Inr n"
  using semi_octet_swapped_all by (simp add: list_all_length)

lemma zone_swapped_all:
  "list_all (\<lambda>q. (swapped q OR 0x08) AND NOT 0x08 = swapped q \<and> swapped q AND NOT 0x08 = swapped q
     \<and> (swapped q OR 0x08) AND 0x08 \<noteq> 0 \<and> swapped q AND 0x08 = 0) [0..<57]"
  by code_simp

definition zone_octet :: "bool \<Rightarrow> nat \<Rightarrow> byte" where
  "zone_octet negative quarters = (if negative then swapped quarters OR 0x08 else swapped quarters)"

lemma zone_octet:
  "q \<le> 56 \<Longrightarrow> zone_octet negative q AND NOT 0x08 = swapped q"
  "q \<le> 56 \<Longrightarrow> zone_octet negative q AND 0x08 \<noteq> 0 \<longleftrightarrow> negative"
  using zone_swapped_all by (auto simp: list_all_length zone_octet_def)

text \<open>
  A service centre timestamp with fields in range is read as the instant it names: the
  seven swapped semi-octets give year (1990 to 2089), month, day, time and the zone of signed
  quarter hours, and the result is that local time less the offset.
\<close>

theorem sms_timestamp_read:
  assumes "year < 100" "1 \<le> month" "month \<le> 12" "1 \<le> day" "day \<le> 31"
    and "hour \<le> 23" "minute \<le> 59" "sec \<le> 60" "quarters \<le> 56"
  shows "decodeSMSTimestamp (map swapped [year, month, day, hour, minute, sec]
      @ [zone_octet negative quarters])
    = Inr (time_date ((if year \<ge> 90 then 1900 else 2000) + int year) month day hour minute sec
        ((if negative then - 1 else 1) * (int quarters * 900)))"
proof -
  let ?v = "map swapped [year, month, day, hour, minute, sec] @ [zone_octet negative quarters]"
  have "rmap (\<lambda>i. rbind (idx ?v i) semi_octet) [0..<6]
      = Inr [year, month, day, hour, minute, sec]"
    using assms by (simp add: semi_octet_swapped upt_rec idx_def)
  then show ?thesis
    using assms zone_octet [OF assms(9), of negative] semi_octet_swapped [of quarters]
    by (simp add: decodeSMSTimestamp_def Let_def idx_def mult.commute)
qed

theorem sms_timestamp_read_witness:
  "decodeSMSTimestamp [0x42, 0x20, 0x92, 0x32, 0x95, 0x50, 0x88]
    = Inr \<lparr>unix_second = 1709258345, zone_offset = - 7200\<rparr>"
  using sms_timestamp_read [of 24 2 29 23 59 5 8 True]
  by (simp add: swapped_def zone_octet_def time_date_def days_to_year_def days_to_month_def
      leap_year_def Let_def)

end
