(* ===== verification/Go_Parse.thy ===== *)
theory Go_Parse
  imports Go_Text
begin

text \<open>
  Splitting text and reading numbers as Go's packages strings and strconv do: \<open>strconv.Atoi\<close>,
  \<open>strings.Split\<close>, \<open>Cut\<close>, \<open>Fields\<close>, \<open>IndexAny\<close>, \<open>TrimPrefix\<close>, and \<open>ReplaceAll\<close> of line ends.
\<close>

subsection \<open>Text constants\<close>

lemma of_char_byte_inj: "inj (of_char :: char \<Rightarrow> byte)"
proof (rule injI)
  fix c d :: char
  assume "(of_char c :: byte) = of_char d"
  then have "of_nat (of_char c) = (of_nat (of_char d) :: byte)" by (simp only: of_nat_of_char)
  then have "unat (of_nat (of_char c) :: byte) = unat (of_nat (of_char d) :: byte)" by simp
  moreover have "of_char c < (256 :: nat)" "of_char d < (256 :: nat)" by simp_all
  ultimately have "of_char c = (of_char d :: nat)" by (simp add: unat_of_nat take_bit_eq_mod)
  then show "c = d" by simp
qed

lemma str_eq_iff: "str s = str t \<longleftrightarrow> s = t"
  by (simp add: str_def inj_map_eq_map [OF of_char_byte_inj])

subsection \<open>Decimal numbers\<close>

text \<open>\<open>strconv.Atoi\<close> on 64 bits: an optional sign, then at least one digit.\<close>

fun digits_value :: "nat \<Rightarrow> gostring \<Rightarrow> nat option" where
  "digits_value acc [] = Some acc"
| "digits_value acc (b # s) =
     (if is_digit b then digits_value (acc * 10 + (unat b - 48)) s else None)"

definition atoi :: "gostring \<Rightarrow> int option" where
  "atoi s =
     (let negative = (take 1 s = [45]);
          body = (if take 1 s = [45] \<or> take 1 s = [43] then drop 1 s else s)
      in if body = [] then None
         else (case digits_value 0 body of
            None \<Rightarrow> None
          | Some n \<Rightarrow>
              if negative then (if int n \<le> 2 ^ 63 then Some (- int n) else None)
              else (if int n < 2 ^ 63 then Some (int n) else None)))"

lemma digits_value_append:
  "digits_value acc (s @ t) = Option.bind (digits_value acc s) (\<lambda>a. digits_value a t)"
  by (induction s arbitrary: acc) auto

lemma digits_value_itoa: "digits_value 0 (itoa n) = Some n"
proof (induction n rule: itoa.induct)
  case (1 n)
  have d: "is_digit (of_nat (48 + k))" "unat (of_nat (48 + k) :: byte) = 48 + k" if "k < 10" for k
    using that is_digit_of_nat [of k] by (simp_all add: unat_of_nat_byte del: of_nat_add)
  show ?case
  proof (cases "n < 10")
    case True
    then show ?thesis using d [of n] by (subst itoa.simps) (simp del: of_nat_add)
  next
    case False
    have "n mod 10 < 10" by simp
    then show ?thesis
      using 1 False d [of "n mod 10"]
      by (subst itoa.simps) (simp add: digits_value_append del: of_nat_add)
  qed
qed

lemma itoa_sign: "take 1 (itoa n) \<noteq> [45]" "take 1 (itoa n) \<noteq> [43]"
  using itoa_digits [of n] by (cases "itoa n"; force simp: is_digit_def)+

lemma atoi_itoa: "int n < 2 ^ 63 \<Longrightarrow> atoi (itoa n) = Some (int n)"
  using itoa_sign [of n] by (simp add: atoi_def digits_value_itoa Let_def)

text \<open>\<open>strconv.Itoa\<close> and \<open>%d\<close> on every int.\<close>

definition int_text :: "int \<Rightarrow> gostring" where
  "int_text n = (if n < 0 then 45 # itoa (nat (- n)) else itoa (nat n))"

lemma atoi_int_text: "- (2 ^ 63) \<le> n \<Longrightarrow> n < 2 ^ 63 \<Longrightarrow> atoi (int_text n) = Some n"
proof (cases "n < 0")
  assume "- (2 ^ 63) \<le> n"
  moreover case True
  ultimately show ?thesis by (simp add: int_text_def atoi_def digits_value_itoa Let_def)
next
  assume "n < 2 ^ 63"
  moreover case False
  ultimately show ?thesis by (simp add: int_text_def atoi_itoa)
qed

subsection \<open>Splitting\<close>

text \<open>\<open>strings.Split\<close> at a one-byte separator, and \<open>strings.Cut\<close> there.\<close>

fun split_byte :: "byte \<Rightarrow> gostring \<Rightarrow> gostring list" where
  "split_byte c [] = [[]]"
| "split_byte c (b # s) =
     (if b = c then [] # split_byte c s
      else (case split_byte c s of [] \<Rightarrow> [[b]] | part # parts \<Rightarrow> (b # part) # parts))"

definition cut_byte :: "byte \<Rightarrow> gostring \<Rightarrow> (gostring \<times> gostring) option" where
  "cut_byte c s = (case index_byte s c of None \<Rightarrow> None | Some at \<Rightarrow> Some (take at s, drop (at + 1) s))"

lemma split_byte_ne [simp]: "split_byte c s \<noteq> []"
  by (induction s) (auto split: list.split)

lemma split_byte_plain: "c \<notin> set s \<Longrightarrow> split_byte c s = [s]"
  by (induction s) auto

lemma split_byte_append:
  "c \<notin> set s \<Longrightarrow> split_byte c (s @ c # t) = s # split_byte c t"
  by (induction s) auto

lemma index_byte_append: "c \<notin> set s \<Longrightarrow> index_byte (s @ c # t) c = Some (length s)"
  by (induction s) auto

lemma index_byte_None: "index_byte s c = None \<longleftrightarrow> c \<notin> set s"
  by (induction s) auto

lemma cut_byte_append: "c \<notin> set s \<Longrightarrow> cut_byte c (s @ c # t) = Some (s, t)"
  by (simp add: cut_byte_def index_byte_append)

text \<open>\<open>strings.IndexAny\<close> and \<open>ContainsAny\<close> with ASCII characters, and \<open>TrimPrefix\<close>.\<close>

fun index_any :: "gostring \<Rightarrow> byte list \<Rightarrow> nat option" where
  "index_any [] chars = None"
| "index_any (b # s) chars = (if b \<in> set chars then Some 0 else map_option Suc (index_any s chars))"

definition contains_any :: "gostring \<Rightarrow> gostring \<Rightarrow> bool" where
  "contains_any s chars \<longleftrightarrow> list_ex (\<lambda>b. b \<in> set chars) s"

definition trim_prefix :: "gostring \<Rightarrow> gostring \<Rightarrow> gostring" where
  "trim_prefix s p = (if has_prefix s p then drop (length p) s else s)"

text \<open>\<open>strings.ReplaceAll(s, "\r\n", "\n")\<close>.\<close>

fun unix_lines :: "gostring \<Rightarrow> gostring" where
  "unix_lines (a # b # s) = (if a = 13 \<and> b = 10 then 10 # unix_lines s else a # unix_lines (b # s))"
| "unix_lines s = s"

lemma unix_lines_plain: "13 \<notin> set s \<Longrightarrow> unix_lines s = s"
  by (induction s rule: unix_lines.induct) auto

lemma unix_lines_append:
  "13 \<notin> set s \<Longrightarrow> unix_lines (s @ 13 # 10 # t) = s @ 10 # unix_lines t"
  by (induction s rule: unix_lines.induct) auto

text \<open>\<open>strings.Fields\<close>: the maximal runs of runes that are no white space.\<close>

lemma utf8_first_step: "utf8_first s = Some (r, n) \<Longrightarrow> 0 < n \<and> s \<noteq> []"
  using utf8_first_width by fastforce

function fields_from :: "gostring \<Rightarrow> gostring \<Rightarrow> gostring list" where
  "fields_from current s =
     (if s = [] then (if current = [] then [] else [current])
      else case utf8_first s of
        None \<Rightarrow> fields_from (current @ take 1 s) (drop 1 s)
      | Some (r, n) \<Rightarrow>
          if is_space r
          then (if current = [] then fields_from [] (drop n s) else current # fields_from [] (drop n s))
          else fields_from (current @ take n s) (drop n s))"
  by pat_completeness auto
termination
  by (relation "measure (\<lambda>(_, s). length s)") (auto dest: utf8_first_step)

declare fields_from.simps [simp del]

definition split_fields :: "gostring \<Rightarrow> gostring list" where
  "split_fields s = fields_from [] s"

lemma fields_from_graphic:
  "graphic s \<Longrightarrow> fields_from current (s @ t) = fields_from (current @ s) t"
proof (induction s arbitrary: current)
  case (Cons b s)
  then have "32 < unat b \<and> unat b < 127" "graphic s" by (simp_all add: graphic_def)
  then show ?case
    using Cons.IH graphic_not_space [of "unat b"]
    by (subst fields_from.simps) (simp add: utf8_first_def Let_def)
qed simp

lemma fields_from_space: "fields_from current (32 # t) = (if current = [] then [] else [current]) @ fields_from [] t"
  by (subst fields_from.simps) (simp add: utf8_first_def is_space_def)

lemma fields_from_Nil: "fields_from current [] = (if current = [] then [] else [current])"
  by (subst fields_from.simps) (simp add: utf8_first_def)

text \<open>Graphic words with single spaces between them are the fields of their line.\<close>

lemma fields_word: "graphic w \<Longrightarrow> w \<noteq> [] \<Longrightarrow> split_fields w = [w]"
  using fields_from_graphic [of w "[]" "[]"] by (simp add: split_fields_def fields_from_Nil)

lemma fields_words: "graphic w \<Longrightarrow> w \<noteq> [] \<Longrightarrow> split_fields (w @ 32 # t) = w # split_fields t"
  using fields_from_graphic [of w "[]" "32 # t"] by (simp add: split_fields_def fields_from_space)

subsection \<open>Trimming\<close>

text \<open>A text that begins and ends with a graphic ASCII character is not changed by \<open>TrimSpace\<close>.\<close>

definition visible :: "byte \<Rightarrow> bool" where
  "visible b \<longleftrightarrow> 32 < unat b \<and> unat b < 127"

lemma space_prefix_visible: "visible b \<Longrightarrow> space_prefix (b # s) = 0"
  by (simp add: visible_def space_prefix_def utf8_first_def Let_def graphic_not_space)

lemma utf8_first_last:
  "utf8_first [a, b] = Some (r, 2) \<Longrightarrow> \<not> visible b"
  "utf8_first [a, b, c] = Some (r, 3) \<Longrightarrow> \<not> visible c"
  by (simp_all add: utf8_first_def Let_def cont_def visible_def split: if_splits)

lemma space_suffix_visible:
  assumes "visible b"
  shows "space_suffix (s @ [b]) = 0"
proof -
  let ?at = "\<lambda>n. n \<le> length (s @ [b]) \<and>
      (case utf8_first (drop (length (s @ [b]) - n) (s @ [b])) of Some (r, k) \<Rightarrow> k = n \<and> is_space r | None \<Rightarrow> False)"
  have "\<not> ?at (Suc 0)" using assms by (simp add: utf8_first_def visible_def graphic_not_space Let_def)
  moreover have "\<not> ?at 2"
    using assms utf8_first_last(1) [of _ b] by (cases s rule: rev_cases) (auto split: option.splits)
  moreover have "\<not> ?at 3"
  proof (cases s rule: rev_cases)
    case (snoc s1 c)
    then show ?thesis using assms utf8_first_last(2) [of _ c b] by (cases s1 rule: rev_cases) (auto split: option.splits)
  qed simp
  ultimately show ?thesis unfolding space_suffix_def by simp
qed

lemma trim_space_visible:
  assumes "s \<noteq> []" "visible (hd s)" "visible (last s)"
  shows "trim_space s = s"
proof -
  obtain b t where s: "s = b # t" using assms(1) by (cases s) auto
  obtain t' c where c: "s = t' @ [c]" using assms(1) by (cases s rule: rev_cases) auto
  have "trim_left s = s" using space_prefix_visible [of b t] assms(2) by (subst trim_left.simps) (simp add: s)
  moreover have "trim_right s = s" using space_suffix_visible [of c t'] assms(3) by (subst trim_right.simps) (simp add: c)
  ultimately show ?thesis by (simp add: trim_space_def)
qed

end
