(* ===== verification/Sms_Store.thy ===== *)
theory Sms_Store
  imports Sms_Wap Go_Parse "HOL-Library.AList"
begin

text \<open>
  Reassembly of concatenated messages, \<open>internal/store/sms_reassembly.go\<close>, with the helpers
  \<open>decodeJSONObject\<close>, \<open>numberAsInt\<close> and \<open>smsHardwareKey\<close> it uses.  A \<open>json.RawMessage\<close> is
  the document it decodes to (\<open>None\<close> when it does not decode to one object); a Go map is an
  association list with distinct keys.
\<close>

datatype json =
    JNull | JBool bool | JNumber gostring | JString gostring | JArray "json list"
  | JObject "(gostring \<times> json) list"

type_synonym document = "(gostring \<times> json) list"

datatype store_err = ErrSegmentExtra | ErrLimitNotPositive | ErrReserve | ErrReserveResult | ErrRateStatus

subsection \<open>Reading values\<close>

definition numberAsInt :: "json option \<Rightarrow> int" where
  "numberAsInt v =
     (case v of Some (JNumber number) \<Rightarrow> (case atoi number of Some n \<Rightarrow> n | None \<Rightarrow> - 1) | _ \<Rightarrow> - 1)"

definition as_string :: "json option \<Rightarrow> gostring" where
  "as_string v = (case v of Some (JString t) \<Rightarrow> t | _ \<Rightarrow> [])"

definition as_bool :: "json option \<Rightarrow> bool" where
  "as_bool v = (case v of Some (JBool b) \<Rightarrow> b | _ \<Rightarrow> False)"

definition as_object :: "json option \<Rightarrow> document" where
  "as_object v = (case v of Some (JObject d) \<Rightarrow> d | _ \<Rightarrow> [])"

definition ConcatMessageIDPrefix :: gostring where
  "ConcatMessageIDPrefix = str ''concat:''"

definition isConcatSMSMessageID :: "gostring \<Rightarrow> bool" where
  "isConcatSMSMessageID messageID = has_prefix messageID ConcatMessageIDPrefix"

definition ConcatSMSReadyToNotify :: "gostring \<Rightarrow> document option \<Rightarrow> bool" where
  "ConcatSMSReadyToNotify messageID extra =
     (if \<not> isConcatSMSMessageID messageID then True
      else (case extra of
              None \<Rightarrow> False
            | Some d \<Rightarrow> as_bool (map_of d (str ''concat_complete''))))"

definition SMSDecodeError :: "document option \<Rightarrow> gostring" where
  "SMSDecodeError extra =
     (case extra of None \<Rightarrow> [] | Some d \<Rightarrow> trim_space (as_string (map_of d (str ''decode_error''))))"

definition concatSMSKeepsDurableID :: "document option \<Rightarrow> bool" where
  "concatSMSKeepsDurableID extra =
     (case extra of
        None \<Rightarrow> False
      | Some d \<Rightarrow> as_bool (map_of d (str ''keep_durable_id_on_rescan'')))"

definition smsHardwareKey :: "gostring \<Rightarrow> gostring \<Rightarrow> gostring" where
  "smsHardwareKey modemIMEI deviceID =
     (if trim_space modemIMEI \<noteq> [] then trim_space modemIMEI
      else str ''device:'' @ trim_space deviceID)"

definition StableConcatMessageID ::
  "gostring \<Rightarrow> gostring \<Rightarrow> gostring \<Rightarrow> gostring \<Rightarrow> nat \<Rightarrow> nat \<Rightarrow> gostring" where
  "StableConcatMessageID source modemIMEI deviceID peer reference count =
     ConcatMessageIDPrefix @ source @ str '':'' @ smsHardwareKey modemIMEI deviceID @ str '':''
     @ peer @ str '':'' @ itoa reference @ str '':'' @ itoa count"

subsection \<open>Cumulative segments\<close>

type_synonym parts = "(int \<times> gostring) list"

lemma keys_update [simp]: "fst ` set (AList.update k v m) = insert k (fst ` set m)"
  using dom_update [of k v m] by (simp add: dom_map_of_conv_image_fst)

lemma keys_left:
  "map_of parts s = Some t \<Longrightarrow>
   card {k \<in> fst ` set parts. s + 1 \<le> k} < card {k \<in> fst ` set parts. s \<le> (k :: int)}"
proof (rule psubset_card_mono)
  assume "map_of parts s = Some t"
  then have "s \<in> fst ` set parts" by (metis fst_conv image_eqI map_of_SomeD)
  then have "s \<in> {k \<in> fst ` set parts. s \<le> k}" "s \<notin> {k \<in> fst ` set parts. s + 1 \<le> k}" by simp_all
  moreover have "{k \<in> fst ` set parts. s + 1 \<le> k} \<subseteq> {k \<in> fst ` set parts. s \<le> k}" by auto
  ultimately show "{k \<in> fst ` set parts. s + 1 \<le> k} \<subset> {k \<in> fst ` set parts. s \<le> k}" by blast
qed simp

lemma keys_left_update:
  "map_of parts s = Some t \<Longrightarrow>
   card {k \<in> fst ` set (AList.update s v parts). s + 1 \<le> k} < card {k \<in> fst ` set parts. s \<le> (k :: int)}"
proof -
  assume m: "map_of parts s = Some t"
  then have "s \<in> fst ` set parts" by (metis fst_conv image_eqI map_of_SomeD)
  then have "insert s (fst ` set parts) = fst ` set parts" by blast
  then show ?thesis using keys_left [OF m] by (simp only: keys_update)
qed

text \<open>The loop ends at the first missing sequence number, so after at most one round per part.\<close>

function normalize_from :: "int \<Rightarrow> gostring \<Rightarrow> parts \<Rightarrow> parts" where
  "normalize_from sequence assembled parts =
     (case map_of parts sequence of
        None \<Rightarrow> parts
      | Some text \<Rightarrow>
          if assembled \<noteq> [] \<and> length text > length assembled \<and> has_prefix text assembled
          then normalize_from (sequence + 1) (assembled @ drop (length assembled) text)
                 (AList.update sequence (drop (length assembled) text) parts)
          else normalize_from (sequence + 1) (assembled @ text) parts)"
  by pat_completeness auto

termination
  by (relation "measure (\<lambda>(s, a, parts). card {k \<in> fst ` set parts. s \<le> k})")
    (simp_all only: in_measure prod.case keys_left keys_left_update wf_measure)

declare normalize_from.simps [simp del]

definition normalizeCumulativeConcatParts :: "parts \<Rightarrow> parts" where
  "normalizeCumulativeConcatParts parts = normalize_from 1 [] parts"

subsection \<open>Merging one segment\<close>

text \<open>\<open>maps.Equal\<close>.\<close>

definition maps_equal :: "('k \<times> 'v) list \<Rightarrow> ('k \<times> 'v) list \<Rightarrow> bool" where
  "maps_equal a b \<longleftrightarrow> list_all (\<lambda>k. map_of a k = map_of b k) (map fst a @ map fst b)"

definition load_part :: "gostring \<times> json \<Rightarrow> parts \<Rightarrow> parts" where
  "load_part p m =
     (case (atoi (fst p), snd p) of
        (Some n, JString text) \<Rightarrow> if n < 1 then m else AList.update n text m
      | _ \<Rightarrow> m)"

definition stored_parts :: "document option \<Rightarrow> parts" where
  "stored_parts existingExtra =
     (case existingExtra of
        None \<Rightarrow> []
      | Some d \<Rightarrow> fold load_part (as_object (map_of d (str ''concat_parts''))) [])"

definition stored_errors :: "document option \<Rightarrow> (gostring \<times> gostring) list" where
  "stored_errors existingExtra =
     (case existingExtra of
        None \<Rightarrow> []
      | Some d \<Rightarrow>
          fold (\<lambda>(key, v) m. case v of
              JString text \<Rightarrow> if text \<noteq> [] then AList.update key text m else m
            | _ \<Rightarrow> m)
            (as_object (map_of d (str ''concat_decode_errors''))) [])"

text \<open>\<open>strconv.Itoa\<close>; sequence numbers are positive.\<close>

definition itoa_int :: "int \<Rightarrow> gostring" where
  "itoa_int n = (if n < 0 then 45 # itoa (nat (- n)) else itoa (nat n))"

definition join :: "gostring \<Rightarrow> gostring list \<Rightarrow> gostring" where
  "join separator texts = concat (case texts of [] \<Rightarrow> [] | t # ts \<Rightarrow> t # map ((@) separator) ts)"

definition merged_document ::
  "json \<Rightarrow> parts \<Rightarrow> int list \<Rightarrow> (gostring \<times> gostring) list \<Rightarrow> int \<Rightarrow> document \<Rightarrow> document" where
  "merged_document concat_value parts sequences decodeErrors count segment =
     (let merged =
            [(str ''concat'', concat_value),
             (str ''concat_parts'',
                JObject (map (\<lambda>n. (itoa_int n, JString (the (map_of parts n)))) sequences)),
             (str ''concat_received'', JNumber (itoa (length sequences))),
             (str ''concat_complete'', JBool (count > 0 \<and> int (length sequences) \<ge> count))];
          described = filter (\<lambda>n. as_string (map_option JString (map_of decodeErrors (itoa_int n))) \<noteq> [])
                        sequences;
          errors = (if decodeErrors = [] then []
            else [(str ''concat_decode_errors'',
                     JObject (map (\<lambda>(k, t). (k, JString t)) decodeErrors)),
                  (str ''decode_error'', JString (join (str ''; '')
                     (map (\<lambda>n. str ''part '' @ itoa_int n @ str '': '' @ the (map_of decodeErrors (itoa_int n)))
                       described)))]);
          kept = concat (map (\<lambda>key. case map_of segment key of
                Some v \<Rightarrow> [(key, v)] | None \<Rightarrow> [])
              [str ''encoding'', str ''storage'', str ''transport'', str ''source'',
               str ''keep_durable_id_on_rescan''])
      in merged @ errors @ kept)"

definition mergeConcatSegment ::
  "text_env \<Rightarrow> document option \<Rightarrow> gostring \<Rightarrow> document option
   \<Rightarrow> (store_err, gostring \<times> document \<times> bool) res" where
  "mergeConcatSegment env existingExtra segmentBody segmentExtra =
     (case segmentExtra of
        None \<Rightarrow> Inl (Fail ErrSegmentExtra)
      | Some segment \<Rightarrow>
          (let concat_value = map_of segment (str ''concat'');
               concat_info = as_object concat_value;
               sequence = numberAsInt (map_of concat_info (str ''sequence''));
               count = numberAsInt (map_of concat_info (str ''total''))
           in if sequence < 1 then Inr (segmentBody, segment, True)
              else
                let previousParts0 = stored_parts existingExtra;
                    previousErrors = stored_errors existingExtra;
                    decodeError = as_string (map_of segment (str ''decode_error''));
                    decodeErrors = (if decodeError \<noteq> []
                      then AList.update (itoa_int sequence) decodeError previousErrors
                      else AList.delete (itoa_int sequence) previousErrors);
                    previousParts = normalizeCumulativeConcatParts previousParts0;
                    parts = normalizeCumulativeConcatParts
                              (AList.update sequence segmentBody previousParts0);
                    changed = (\<not> maps_equal previousParts parts
                               \<or> \<not> maps_equal previousErrors decodeErrors);
                    sequences = sort (map fst parts);
                    bodyText = concat (map (\<lambda>n. the (map_of parts n)) sequences);
                    merged = merged_document
                      (case concat_value of Some (JObject d) \<Rightarrow> JObject d | _ \<Rightarrow> JNull)
                      parts sequences decodeErrors count segment
                in (case DecodeHexDisplayText env bodyText of
                      Inr text \<Rightarrow>
                        Inr (text, AList.update (str ''encoding'') (JString (str ''wap_push'')) merged,
                             changed)
                    | Inl (Fail _) \<Rightarrow> Inr (bodyText, merged, changed)
                    | Inl Panic \<Rightarrow> Inl Panic
                    | Inl Hang \<Rightarrow> Inl Hang)))"

subsection \<open>Association lists as Go maps\<close>

lemma normalize_from_keys: "fst ` set (normalize_from s a parts) = fst ` set parts"
proof (induction s a parts rule: normalize_from.induct)
  case (1 s a parts)
  have k: "insert s (fst ` set parts) = fst ` set parts" if "map_of parts s = Some t" for t
    using map_of_SomeD [OF that] by force
  show ?case
    by (subst normalize_from.simps) (use 1 k in \<open>auto split: option.splits\<close>)
qed

lemma normalize_from_distinct:
  "distinct (map fst parts) \<Longrightarrow> distinct (map fst (normalize_from s a parts))"
proof (induction s a parts rule: normalize_from.induct)
  case (1 s a parts)
  show ?case
    by (subst normalize_from.simps) (use 1 in \<open>auto simp: distinct_update split: option.splits\<close>)
qed

lemma stored_parts_fold_distinct:
  "distinct (map fst m) \<Longrightarrow> distinct (map fst (fold load_part o' m))"
  by (induction o' arbitrary: m)
    (auto simp: distinct_update load_part_def split: option.splits json.splits)

lemma stored_parts_distinct: "distinct (map fst (stored_parts d))"
  using stored_parts_fold_distinct [of "[]"] by (auto simp: stored_parts_def split: option.splits)

lemma maps_equal_iff: "maps_equal a b \<longleftrightarrow> map_of a = map_of b"
proof
  assume e: "maps_equal a b"
  show "map_of a = map_of b"
  proof
    fix k
    show "map_of a k = map_of b k"
      using e map_of_eq_None_iff [of a k] map_of_eq_None_iff [of b k]
      by (cases "k \<in> fst ` set a \<union> fst ` set b") (auto simp: maps_equal_def list_all_iff)
  qed
qed (simp add: maps_equal_def list_all_iff)

text \<open>Merging never fails but on a segment that is not a document.\<close>

lemma merge_safe [simp]: "safe (mergeConcatSegment env existing body segment)"
  using DecodeHexDisplayText_safe [of env]
  by (auto simp: mergeConcatSegment_def Let_def split: option.splits sum.splits fault.splits)

subsection \<open>Decimal keys\<close>

lemma atoi_itoa_int: "0 < n \<Longrightarrow> n < 2 ^ 63 \<Longrightarrow> atoi (itoa_int n) = Some n"
  using itoa_sign [of "nat n"]
  by (simp add: atoi_def itoa_int_def digits_value_itoa Let_def nat_less_iff)

subsection \<open>Texts that are not cumulative\<close>

text \<open>
  No part repeats the whole text before it and goes on: on such a message the clean-up of
  cumulative segments finds nothing to do, whichever parts have arrived.
\<close>

definition plain_texts :: "gostring list \<Rightarrow> bool" where
  "plain_texts texts \<longleftrightarrow>
     list_all (\<lambda>k. let before = concat (take k texts) in
        before = [] \<or> length (texts ! k) \<le> length before \<or> \<not> has_prefix (texts ! k) before)
       [0..<length texts]"

text \<open>Every stored part is the part of the message with its number.\<close>

definition parts_of :: "gostring list \<Rightarrow> parts \<Rightarrow> bool" where
  "parts_of texts parts \<longleftrightarrow>
     distinct (map fst parts) \<and>
     (\<forall>n \<in> fst ` set parts. 1 \<le> n \<and> n \<le> int (length texts)
        \<and> map_of parts n = Some (texts ! nat (n - 1)))"

lemma parts_of_map:
  "parts_of texts parts \<Longrightarrow> map_of parts n = Some t \<Longrightarrow>
   1 \<le> n \<and> n \<le> int (length texts) \<and> t = texts ! nat (n - 1)"
  unfolding parts_of_def using map_of_SomeD [of parts n t]
  by (metis fst_conv image_eqI option.inject)

lemma normalize_plain:
  assumes "plain_texts texts" "parts_of texts parts"
  shows "normalize_from (int k + 1) (concat (take k texts)) parts = parts"
  using assms(2)
proof (induction "length texts - k" arbitrary: k rule: less_induct)
  case less
  show ?case
  proof (cases "map_of parts (int k + 1)")
    case None
    then show ?thesis by (subst normalize_from.simps) simp
  next
    case (Some t)
    then have t: "k < length texts" "t = texts ! k"
      using parts_of_map [OF less.prems Some] by auto
    then have keep: "\<not> (concat (take k texts) \<noteq> [] \<and> length t > length (concat (take k texts))
        \<and> has_prefix t (concat (take k texts)))"
      using assms(1) by (auto simp: plain_texts_def list_all_length Let_def)
    have "normalize_from (int (Suc k) + 1) (concat (take (Suc k) texts)) parts = parts"
      by (rule less.hyps) (use t less.prems in auto)
    then have "normalize_from (int k + 1 + 1) (concat (take k texts) @ t) parts = parts"
      using t by (simp add: take_Suc_conv_app_nth add.commute)
    then show ?thesis
      using keep Some by (subst normalize_from.simps) (simp only: option.case if_False)
  qed
qed

lemma normalizeCumulative_plain:
  "plain_texts texts \<Longrightarrow> parts_of texts parts \<Longrightarrow> normalizeCumulativeConcatParts parts = parts"
  using normalize_plain [of texts parts 0] by (simp add: normalizeCumulativeConcatParts_def)

subsection \<open>One segment of such a message\<close>

definition display :: "text_env \<Rightarrow> gostring \<Rightarrow> gostring" where
  "display env body = (case DecodeHexDisplayText env body of Inr text \<Rightarrow> text | Inl _ \<Rightarrow> body)"

definition is_segment :: "nat \<Rightarrow> int \<Rightarrow> document \<Rightarrow> bool" where
  "is_segment count sequence d \<longleftrightarrow>
     numberAsInt (map_of (as_object (map_of d (str ''concat''))) (str ''sequence'')) = sequence
     \<and> numberAsInt (map_of (as_object (map_of d (str ''concat''))) (str ''total'')) = int count
     \<and> as_string (map_of d (str ''decode_error'')) = []"

text \<open>The stored row after the segments numbered by \<open>arrived\<close>.\<close>

definition row_holds :: "gostring list \<Rightarrow> int set \<Rightarrow> document option \<Rightarrow> bool" where
  "row_holds texts arrived extra \<longleftrightarrow>
     parts_of texts (stored_parts extra) \<and> fst ` set (stored_parts extra) = arrived
     \<and> stored_errors extra = []"

definition body_of :: "gostring list \<Rightarrow> int set \<Rightarrow> gostring" where
  "body_of texts arrived =
     concat (map (\<lambda>n. texts ! nat (n - 1)) (sorted_list_of_set arrived))"

lemma parts_of_update:
  assumes "parts_of texts m" "1 \<le> n" "n \<le> int (length texts)"
  shows "parts_of texts (AList.update n (texts ! nat (n - 1)) m)"
  using assms by (auto simp: parts_of_def distinct_update update_conv')

lemma stored_fold:
  assumes "\<forall>n \<in> set ns. 1 \<le> n \<and> n \<le> int (length texts)" "length texts < 2 ^ 63" "parts_of texts m"
  shows "parts_of texts (fold load_part (map (\<lambda>n. (itoa_int n, JString (texts ! nat (n - 1)))) ns) m)
    \<and> fst ` set (fold load_part (map (\<lambda>n. (itoa_int n, JString (texts ! nat (n - 1)))) ns) m)
      = set ns \<union> fst ` set m"
  using assms
proof (induction ns arbitrary: m)
  case (Cons n ns)
  then have "n < 2 ^ 63" by auto
  then have "atoi (itoa_int n) = Some n" using Cons.prems by (intro atoi_itoa_int) auto
  then show ?case
    using Cons.IH [of "AList.update n (texts ! nat (n - 1)) m"] Cons.prems
    by (auto simp: parts_of_update load_part_def)
qed simp

lemma merge_segment:
  assumes texts: "plain_texts texts" "length texts < 2 ^ 63"
    and row: "row_holds texts arrived existing"
    and i: "1 \<le> i" "i \<le> int (length texts)"
    and seg: "is_segment (length texts) i segment"
  obtains extra where
    "mergeConcatSegment env existing (texts ! nat (i - 1)) (Some segment)
      = Inr (display env (body_of texts (insert i arrived)), extra, i \<notin> arrived)"
    "row_holds texts (insert i arrived) (Some extra)"
    "map_of extra (str ''concat_complete'')
      = Some (JBool (length texts \<le> card (insert i arrived)))"
proof -
  let ?old = "stored_parts existing"
  let ?new = "AList.update i (texts ! nat (i - 1)) ?old"
  let ?seqs = "sort (map fst ?new)"
  have old: "parts_of texts ?old" "fst ` set ?old = arrived" "stored_errors existing = []"
    using row by (simp_all add: row_holds_def)
  have new: "parts_of texts ?new" by (rule parts_of_update [OF old(1) i])
  have keys: "set ?seqs = insert i arrived" using old(2) by simp
  have seqs: "?seqs = sorted_list_of_set (insert i arrived)"
  proof -
    have "distinct (map fst ?new)" using new by (simp add: parts_of_def)
    then show ?thesis
      using sorted_list_of_set_sort_remdups [of "map fst ?new"] keys
      by (simp add: distinct_remdups_id del: sorted_list_of_set_insert_remove)
  qed
  have val: "the (map_of ?new n) = texts ! nat (n - 1)" if "n \<in> set ?seqs" for n
    using new that keys by (auto simp: parts_of_def old(2))
  have body: "concat (map (\<lambda>n. the (map_of ?new n)) ?seqs) = body_of texts (insert i arrived)"
    using val by (simp add: body_of_def seqs cong: map_cong)
  have len: "length ?seqs = card (insert i arrived)"
    using new old(2) by (metis distinct_card keys distinct_sort parts_of_def)
  have eq: "maps_equal ?old ?new \<longleftrightarrow> i \<in> arrived"
    using old new by (auto simp: maps_equal_iff update_conv' parts_of_def fun_upd_idem_iff
        map_of_eq_None_iff [symmetric] fun_upd_def fun_eq_iff)
  define merged where "merged = merged_document
    (case map_of segment (str ''concat'') of Some (JObject d) \<Rightarrow> JObject d | _ \<Rightarrow> JNull)
    ?new ?seqs [] (int (length texts)) segment"
  have m: "mergeConcatSegment env existing (texts ! nat (i - 1)) (Some segment)
      = (case DecodeHexDisplayText env (body_of texts (insert i arrived)) of
          Inr text \<Rightarrow> Inr (text, AList.update (str ''encoding'') (JString (str ''wap_push'')) merged, i \<notin> arrived)
        | Inl (Fail _) \<Rightarrow> Inr (body_of texts (insert i arrived), merged, i \<notin> arrived)
        | Inl Panic \<Rightarrow> Inl Panic | Inl Hang \<Rightarrow> Inl Hang)"
  proof -
    have sg: "numberAsInt (map_of (as_object (map_of segment (str ''concat''))) (str ''sequence'')) = i"
      "numberAsInt (map_of (as_object (map_of segment (str ''concat''))) (str ''total'')) = int (length texts)"
      "as_string (map_of segment (str ''decode_error'')) = []"
      using seg by (simp_all add: is_segment_def)
    have simps: "(i < 1) = False" "AList.delete (itoa_int i) [] = ([] :: (gostring \<times> gostring) list)"
      "maps_equal [] ([] :: (gostring \<times> gostring) list)"
      using i by (simp_all add: maps_equal_def)
    show ?thesis
      by (simp add: mergeConcatSegment_def Let_def sg simps old(3) eq body merged_def
          normalizeCumulative_plain [OF texts(1) old(1)] normalizeCumulative_plain [OF texts(1) new]
          split: sum.split fault.split)
  qed
  have parts: "map_of merged (str ''concat_parts'')
      = Some (JObject (map (\<lambda>n. (itoa_int n, JString (texts ! nat (n - 1)))) ?seqs))"
    "map_of merged (str ''concat_decode_errors'') = None"
    "map_of merged (str ''concat_complete'') = Some (JBool (length texts \<le> card (insert i arrived)))"
    using val len i
    by (auto simp: merged_def merged_document_def Let_def str_eq_iff map_of_eq_None_iff
        split: option.splits)
  have row': "row_holds texts (insert i arrived) (Some d)"
    if "map_of d (str ''concat_parts'') = map_of merged (str ''concat_parts'')"
      "map_of d (str ''concat_decode_errors'') = map_of merged (str ''concat_decode_errors'')" for d
  proof -
    have "stored_parts (Some d)
        = fold load_part (map (\<lambda>n. (itoa_int n, JString (texts ! nat (n - 1)))) ?seqs) []"
      using that(1) parts(1) by (simp add: stored_parts_def as_object_def)
    moreover have "\<forall>n \<in> set ?seqs. 1 \<le> n \<and> n \<le> int (length texts)"
      using new keys by (simp add: parts_of_def old(2))
    moreover have "parts_of texts []" by (simp add: parts_of_def)
    ultimately have "parts_of texts (stored_parts (Some d)) \<and> fst ` set (stored_parts (Some d)) = set ?seqs"
      using stored_fold [of ?seqs texts "[]", OF _ texts(2)] by simp
    then show ?thesis
      using keys that(2) parts(2) by (simp add: row_holds_def stored_errors_def as_object_def)
  qed
  show thesis
  proof (cases "DecodeHexDisplayText env (body_of texts (insert i arrived))")
    case (Inr shown)
    show thesis
      by (rule that [of "AList.update (str ''encoding'') (JString (str ''wap_push'')) merged"])
        (use m Inr row' parts in \<open>simp_all add: display_def update_conv' str_eq_iff\<close>)
  next
    case (Inl e)
    with DecodeHexDisplayText_safe [of env] obtain x where e: "e = Fail x"
      by (cases e) (metis safe_simps(3,4))+
    show thesis
      by (rule that [of merged]) (use m Inl e row' parts in \<open>simp_all add: display_def\<close>)
  qed
qed

subsection \<open>A row and the segments that reach it\<close>

text \<open>
  The stored row is read, merged and written back for every incoming segment, in the order of
  arrival; the result is the body and the document of the row.
\<close>

fun merge_run ::
  "text_env \<Rightarrow> document option \<Rightarrow> gostring \<Rightarrow> (gostring \<times> document) list
   \<Rightarrow> (store_err, gostring \<times> document option) res" where
  "merge_run env extra body [] = Inr (body, extra)"
| "merge_run env extra body ((text, segment) # rest) =
     rbind (mergeConcatSegment env extra text (Some segment)) (\<lambda>(body', extra', _).
       merge_run env (Some extra') body' rest)"

lemma ready_iff:
  "map_of d (str ''concat_complete'') = Some (JBool b) \<Longrightarrow>
   ConcatSMSReadyToNotify (ConcatMessageIDPrefix @ key) (Some d) \<longleftrightarrow> b"
  by (simp add: ConcatSMSReadyToNotify_def isConcatSMSMessageID_def has_prefix_def as_bool_def)

lemma merge_run_rows:
  assumes texts: "plain_texts texts" "length texts < 2 ^ 63"
    and segs: "\<And>i. i \<in> set order \<Longrightarrow> 1 \<le> i \<and> i \<le> int (length texts) \<and> is_segment (length texts) i (segment i)"
    and row: "row_holds texts arrived extra" and ne: "order \<noteq> []"
  shows "\<exists>d. merge_run env extra body (map (\<lambda>i. (texts ! nat (i - 1), segment i)) order)
      = Inr (display env (body_of texts (set order \<union> arrived)), Some d)
    \<and> (ConcatSMSReadyToNotify (ConcatMessageIDPrefix @ key) (Some d)
        \<longleftrightarrow> length texts \<le> card (set order \<union> arrived))"
  using segs row ne
proof (induction order arbitrary: arrived extra body)
  case (Cons i order)
  obtain d where d: "mergeConcatSegment env extra (texts ! nat (i - 1)) (Some (segment i))
      = Inr (display env (body_of texts (insert i arrived)), d, i \<notin> arrived)"
    "row_holds texts (insert i arrived) (Some d)"
    "map_of d (str ''concat_complete'') = Some (JBool (length texts \<le> card (insert i arrived)))"
    using merge_segment [OF texts Cons.prems(2), of i "segment i" env] Cons.prems(1) by auto
  show ?case
  proof (cases "order = []")
    case True
    then show ?thesis using d(1) ready_iff [OF d(3)] by simp
  next
    case False
    with Cons.IH [OF _ d(2), of "display env (body_of texts (insert i arrived))"] Cons.prems(1) d(1)
    show ?thesis by simp
  qed
qed simp

lemma body_of_all: "body_of texts {1..int (length texts)} = concat texts"
proof -
  have "sorted_list_of_set {1..int (length texts)} = map (\<lambda>k. int k + 1) [0..<length texts]"
  proof (rule sorted_distinct_set_unique)
    show "set (sorted_list_of_set {1..int (length texts)}) = set (map (\<lambda>k. int k + 1) [0..<length texts])"
    proof -
      have "x \<in> (\<lambda>k. int k + 1) ` {0..<length texts}" if "1 \<le> x" "x \<le> int (length texts)" for x
        using that by (intro image_eqI [of _ _ "nat (x - 1)"]) auto
      then show ?thesis by auto
    qed
    show "distinct (map (\<lambda>k. int k + 1) [0..<length texts])" by (simp add: distinct_map inj_on_def)
    show "sorted (map (\<lambda>k. int k + 1) [0..<length texts])" by (simp add: sorted_iff_nth_mono)
  qed simp_all
  then have "body_of texts {1..int (length texts)} = concat (map (\<lambda>k. texts ! k) [0..<length texts])"
    by (simp add: body_of_def comp_def)
  then show ?thesis by (simp add: map_nth)
qed

text \<open>
  C6: The segments of a concatenated message can reach the store in any order and more than once:
  after any of them have arrived, the row's body is the texts of those parts in sequence order
  (shown through the WAP push decoder), the row is ready to notify exactly when all parts are
  there, and then the body is the whole text.  The parts must not be cumulative.
\<close>

theorem concat_reassembly:
  assumes "plain_texts texts" "length texts < 2 ^ 63"
    and "\<forall>i \<in> set order. 1 \<le> i \<and> i \<le> int (length texts) \<and> is_segment (length texts) i (segment i)"
    and "order \<noteq> []"
  shows "\<exists>d. merge_run env None [] (map (\<lambda>i. (texts ! nat (i - 1), segment i)) order)
      = Inr (display env (body_of texts (set order)), Some d)
    \<and> (ConcatSMSReadyToNotify (ConcatMessageIDPrefix @ key) (Some d)
        \<longleftrightarrow> set order = {1..int (length texts)})
    \<and> body_of texts {1..int (length texts)} = concat texts"
proof -
  have "row_holds texts {} None"
    by (simp add: row_holds_def parts_of_def stored_parts_def stored_errors_def)
  from merge_run_rows [OF assms(1,2) _ this assms(4), of segment env "[]" key] assms(3)
  obtain d where d: "merge_run env None [] (map (\<lambda>i. (texts ! nat (i - 1), segment i)) order)
      = Inr (display env (body_of texts (set order)), Some d)"
    "ConcatSMSReadyToNotify (ConcatMessageIDPrefix @ key) (Some d) \<longleftrightarrow> length texts \<le> card (set order)"
    by auto
  have sub: "set order \<subseteq> {1..int (length texts)}" using assms(3) by auto
  have "length texts \<le> card (set order) \<longleftrightarrow> set order = {1..int (length texts)}"
    using card_seteq [OF _ sub] by auto
  with d body_of_all [of texts] show ?thesis by (intro exI [of _ d]) (simp only: simp_thms)
qed

text \<open>A document with nothing but the concatenation header, for the witnesses.\<close>

definition bare_segment :: "nat \<Rightarrow> int \<Rightarrow> document" where
  "bare_segment count i =
     [(str ''concat'', JObject [(str ''sequence'', JNumber (itoa_int i)),
                                (str ''total'', JNumber (itoa_int (int count)))])]"

lemma bare_segment:
  "1 \<le> i \<Longrightarrow> i < 2 ^ 63 \<Longrightarrow> 0 < count \<Longrightarrow> count < 2 ^ 63 \<Longrightarrow> is_segment count i (bare_segment count i)"
  by (simp add: is_segment_def bare_segment_def as_object_def numberAsInt_def as_string_def
      str_eq_iff atoi_itoa_int)

lemma bare_two:
  "is_segment (Suc (Suc 0)) 1 (bare_segment 2 1)" "is_segment (Suc (Suc 0)) 2 (bare_segment 2 2)"
  using bare_segment [of 1 2] bare_segment [of 2 2] by (simp_all add: numeral_2_eq_2 [symmetric])

theorem concat_reassembly_witness:
  "\<exists>d. merge_run plain_env None [] (map (\<lambda>i. ([str ''ab'', str ''cd''] ! nat (i - 1), bare_segment 2 i)) [2, 1, 2])
      = Inr (display plain_env (body_of [str ''ab'', str ''cd''] (set [2, 1, 2])), Some d)
    \<and> ConcatSMSReadyToNotify (ConcatMessageIDPrefix @ str ''x'') (Some d)
    \<and> body_of [str ''ab'', str ''cd''] {1..2} = str ''abcd''"
proof -
  let ?t = "[str ''ab'', str ''cd'']"
  have t: "plain_texts ?t" "length ?t < 2 ^ 63" "[2, 1, 2 :: int] \<noteq> []"
    by (simp_all add: plain_texts_def upt_rec Let_def str_def)
  have "\<forall>i \<in> set [2, 1, 2 :: int]. 1 \<le> i \<and> i \<le> int (length ?t) \<and> is_segment (length ?t) i (bare_segment 2 i)"
    using bare_two by simp
  note all = concat_reassembly [OF t(1,2) this t(3), of plain_env "str ''x''"]
  have "set [2, 1, 2] = {1..int (length ?t)}" "concat ?t = str ''abcd''" "int (length ?t) = 2"
    by (auto simp: str_def)
  then show ?thesis using all by (simp only: simp_thms)
qed

text \<open>
  A redelivered segment of such a message reports no change and leaves the body alone.
\<close>

theorem concat_redelivery:
  assumes "plain_texts texts" "length texts < 2 ^ 63" "row_holds texts arrived existing"
    and "1 \<le> i" "i \<le> int (length texts)" "is_segment (length texts) i segment" "i \<in> arrived"
  shows "\<exists>d. mergeConcatSegment env existing (texts ! nat (i - 1)) (Some segment)
    = Inr (display env (body_of texts arrived), d, False)"
proof -
  obtain d where "mergeConcatSegment env existing (texts ! nat (i - 1)) (Some segment)
      = Inr (display env (body_of texts (insert i arrived)), d, i \<notin> arrived)"
    by (rule merge_segment [OF assms(1-6), of env])
  then show ?thesis using assms(7) by (simp add: insert_absorb)
qed

theorem concat_redelivery_witness:
  "\<exists>existing d. row_holds [str ''ab'', str ''cd''] {1} existing
    \<and> mergeConcatSegment plain_env existing (str ''ab'') (Some (bare_segment 2 1))
      = Inr (display plain_env (str ''ab''), d, False)"
proof -
  let ?t = "[str ''ab'', str ''cd'']"
  have t: "plain_texts ?t" "length ?t < 2 ^ 63" by (simp_all add: plain_texts_def upt_rec Let_def str_def)
  have s: "is_segment (length ?t) 1 (bare_segment 2 1)" using bare_two by simp
  have r0: "row_holds ?t {} None"
    by (simp add: row_holds_def parts_of_def stored_parts_def stored_errors_def)
  obtain d where r1: "row_holds ?t (insert 1 {}) (Some d)"
    by (rule merge_segment [OF t r0 _ _ s, of plain_env]) simp_all
  have "body_of ?t (insert 1 {}) = str ''ab''" by (simp add: body_of_def)
  then show ?thesis
    using concat_redelivery [OF t r1 _ _ s, of plain_env] r1 by auto
qed

text \<open>
  On cumulative segments the clean-up is not idempotent, so the redelivery claim of the source
  comment fails there: parts \<open>a\<close> and \<open>aab\<close> become \<open>a\<close> and \<open>ab\<close>, and applied to its own
  result it cuts the second part to \<open>b\<close>.
\<close>

theorem cumulative_not_idempotent:
  "normalizeCumulativeConcatParts [(1, str ''a''), (2, str ''aab'')] = [(1, str ''a''), (2, str ''ab'')]
   \<and> normalizeCumulativeConcatParts [(1, str ''a''), (2, str ''ab'')] = [(1, str ''a''), (2, str ''b'')]"
  by (simp add: normalizeCumulativeConcatParts_def normalize_from.simps has_prefix_def str_def)

end
