(* ===== verification/Sms_Rate.thy ===== *)
theory Sms_Rate
  imports Sms_Store
begin




definition SMSRateWindow :: int where
  "SMSRateWindow = 3600"




subsection \<open>Runs of the limiter\<close>



definition in_window :: "int \<Rightarrow> int list \<Rightarrow> nat" where
  "in_window c ts = length (filter (\<lambda>t. c < t \<and> t \<le> c + SMSRateWindow) ts)"


lemma in_window_append [simp]: "in_window c (xs @ ys) = in_window c xs + in_window c ys"
  by (simp add: in_window_def)









end
