(* ===== verification/Esp_Window.thy ===== *)
theory Esp_Window
  imports Prelude
begin

text \<open>
  The anti-replay window of \<open>internal/vowifi/ike/esp.go\<close>: 32-bit sequence numbers, a 64-bit
  bitmap behind the highest number seen.  The interface \<open>replay_guard\<close> says what a filter of
  sequence numbers promises about a set of numbers seen; its runs accept no number twice.  The
  code's window is interpreted as such a filter, with the bitmap read as the set of committed
  numbers.
\<close>

definition espReplayWindow :: "32 word" where
  "espReplayWindow = 64"

record replayWindow =
  highest :: "32 word"
  bitmap :: "64 word"

definition wouldAccept :: "replayWindow \<Rightarrow> 32 word \<Rightarrow> bool" where
  "wouldAccept window seq =
     (if seq = 0 then False
      else if highest window = 0 \<or> seq > highest window then True
      else
        let difference = highest window - seq in
        if difference \<ge> espReplayWindow then False
        else bitmap window AND push_bit (unat difference) 1 = 0)"

definition commit :: "replayWindow \<Rightarrow> 32 word \<Rightarrow> replayWindow" where
  "commit window seq =
     (if highest window = 0 then window\<lparr>highest := seq, bitmap := 1\<rparr>
      else if seq > highest window then
        let difference = seq - highest window in
        window\<lparr>bitmap := (if difference \<ge> espReplayWindow then 1
                         else push_bit (unat difference) (bitmap window) OR 1),
               highest := seq\<rparr>
      else window\<lparr>bitmap := bitmap window OR push_bit (unat (highest window - seq)) 1\<rparr>)"

definition empty_window :: replayWindow where
  "empty_window = \<lparr>highest = 0, bitmap = 0\<rparr>"

subsection \<open>The interface\<close>

text \<open>A filter of the numbers offered: what is accepted is committed.\<close>

fun accepted :: "('w \<Rightarrow> 's \<Rightarrow> bool) \<Rightarrow> ('w \<Rightarrow> 's \<Rightarrow> 'w) \<Rightarrow> 'w \<Rightarrow> 's list \<Rightarrow> 's list" where
  "accepted acc com w [] = []"
| "accepted acc com w (s # ss) =
     (if acc w s then s # accepted acc com (com w s) ss else accepted acc com w ss)"

fun filter_state :: "('w \<Rightarrow> 's \<Rightarrow> bool) \<Rightarrow> ('w \<Rightarrow> 's \<Rightarrow> 'w) \<Rightarrow> 'w \<Rightarrow> 's list \<Rightarrow> 'w" where
  "filter_state acc com w [] = w"
| "filter_state acc com w (s # ss) =
     (if acc w s then filter_state acc com (com w s) ss else filter_state acc com w ss)"

locale replay_guard =
  fixes accepts :: "'w \<Rightarrow> 's \<Rightarrow> bool"
    and record_number :: "'w \<Rightarrow> 's \<Rightarrow> 'w"
    and holds :: "'w \<Rightarrow> 's set \<Rightarrow> bool"
  assumes accepts_new: "holds w S \<Longrightarrow> accepts w s \<Longrightarrow> s \<notin> S"
    and record_holds: "holds w S \<Longrightarrow> accepts w s \<Longrightarrow> holds (record_number w s) (insert s S)"
begin

lemma run_holds:
  "holds w S \<Longrightarrow> holds (filter_state accepts record_number w ss)
     (S \<union> set (accepted accepts record_number w ss))"
proof (induction ss arbitrary: w S)
  case (Cons s ss)
  show ?case
  proof (cases "accepts w s")
    case True
    then show ?thesis
      using Cons.IH [OF record_holds [OF Cons.prems True]] by simp
  next
    case False
    then show ?thesis using Cons by simp
  qed
qed simp

lemma run_fresh:
  "holds w S \<Longrightarrow> distinct (accepted accepts record_number w ss)
     \<and> set (accepted accepts record_number w ss) \<inter> S = {}"
proof (induction ss arbitrary: w S)
  case (Cons s ss)
  show ?case
  proof (cases "accepts w s")
    case True
    then show ?thesis
      using Cons.IH [OF record_holds [OF Cons.prems True]] accepts_new [OF Cons.prems True] by auto
  next
    case False
    then show ?thesis using Cons by simp
  qed
qed simp

end

subsection \<open>The bitmap as a set of numbers\<close>

text \<open>
  A window holds a set of numbers: the highest is their maximum, and bit \<open>i\<close> of the map tells
  whether the number \<open>i\<close> below the highest has been seen.
\<close>

definition window_holds :: "replayWindow \<Rightarrow> 32 word set \<Rightarrow> bool" where
  "window_holds w S \<longleftrightarrow>
     0 \<notin> S \<and> (\<forall>s \<in> S. s \<le> highest w) \<and> (highest w \<in> S \<or> S = {} \<and> highest w = 0) \<and>
     (highest w \<noteq> 0 \<longrightarrow>
       (\<forall>s. s \<noteq> 0 \<longrightarrow> s \<le> highest w \<longrightarrow> unat (highest w) - unat s < 64 \<longrightarrow>
         (bit (bitmap w) (unat (highest w) - unat s) \<longleftrightarrow> s \<in> S)))"

lemma window_holds_empty: "window_holds empty_window {}"
  by (simp add: window_holds_def empty_window_def)

lemma mask_bit:
  fixes b :: "64 word"
  assumes "n < 64"
  shows "b AND push_bit n 1 = 0 \<longleftrightarrow> \<not> bit b n"
proof
  assume "b AND push_bit n 1 = 0"
  then have "\<not> bit (b AND push_bit n 1) n" by simp
  with assms show "\<not> bit b n" by (simp add: bit_simps)
next
  assume "\<not> bit b n"
  then show "b AND push_bit n 1 = 0"
    by (intro bit_word_eqI) (auto simp: bit_simps)
qed

lemma word_order_nat:
  fixes a b :: "32 word"
  shows "a \<le> b \<longleftrightarrow> unat a \<le> unat b" "a < b \<longleftrightarrow> unat a < unat b" "a = b \<longleftrightarrow> unat a = unat b"
    "a \<le> b \<Longrightarrow> unat (b - a) = unat b - unat a"
    "a \<ge> espReplayWindow \<longleftrightarrow> unat a \<ge> 64"
  by (simp_all add: word_le_nat_alt word_less_nat_alt unat_sub word_unat_eq_iff espReplayWindow_def)

lemma difference_small:
  fixes a b :: "32 word"
  shows "a \<le> b \<Longrightarrow> b - a \<ge> espReplayWindow \<longleftrightarrow> 64 \<le> unat b - unat a"
  by (simp add: word_order_nat(5) unat_sub)

lemma wouldAccept_iff:
  assumes "window_holds w S"
  shows "wouldAccept w s \<longleftrightarrow> s \<noteq> 0 \<and> s \<notin> S \<and> unat (highest w) < unat s + 64"
proof (cases "highest w = 0 \<or> s > highest w")
  case True
  moreover have "s \<notin> S" if "highest w < s"
    using assms that by (auto simp: window_holds_def)
  ultimately show ?thesis
    using assms by (auto simp: wouldAccept_def window_holds_def word_less_nat_alt)
next
  case False
  then have low: "s \<le> highest w" "highest w \<noteq> 0" "\<not> highest w < s" by auto
  have d: "unat (highest w - s) = unat (highest w) - unat s" using low(1) by (rule word_order_nat)
  show ?thesis
  proof (cases "unat (highest w) - unat s < 64")
    case True
    then have "bit (bitmap w) (unat (highest w) - unat s) \<longleftrightarrow> s \<in> S" if "s \<noteq> 0"
      using assms low that by (auto simp: window_holds_def)
    then show ?thesis
      using low True
      by (auto simp: wouldAccept_def Let_def difference_small d mask_bit simp del: push_bit_of_1)
  next
    case False
    then show ?thesis using low by (auto simp: wouldAccept_def Let_def difference_small)
  qed
qed

lemma bit_or_1 [simp]: "bit (b OR (1 :: 64 word)) n \<longleftrightarrow> bit b n \<or> n = 0"
  by (auto simp: bit_simps)

lemma bit_or_push: "n < 64 \<Longrightarrow> bit (b OR push_bit k (1 :: 64 word)) n \<longleftrightarrow> bit b n \<or> n = k"
  by (auto simp: bit_simps)

lemma commit_above:
  assumes h: "window_holds w S" and up: "highest w < s" "highest w \<noteq> 0"
  shows "window_holds (commit w s) (insert s S)"
proof -
  let ?d = "unat s - unat (highest w)"
  let ?b = "if 64 \<le> ?d then 1 else push_bit ?d (bitmap w) OR 1"
  have c: "commit w s = w\<lparr>bitmap := ?b, highest := s\<rparr>"
    using up by (simp add: commit_def Let_def difference_small order_less_imp_le word_order_nat(4))
  have "bit ?b (unat s - unat t) \<longleftrightarrow> t \<in> insert s S"
    if t: "t \<noteq> 0" "t \<le> s" "unat s - unat t < 64" for t
  proof (cases "t \<le> highest w")
    case True
    then have le: "unat t \<le> unat (highest w)" "unat (highest w) < unat s"
      using up by (simp_all add: word_order_nat)
    show ?thesis
    proof (cases "64 \<le> ?d")
      case True
      with le t show ?thesis by linarith
    next
      case False
      have "unat (highest w) - unat t < 64" using le t(3) by linarith
      then have "bit (bitmap w) (unat (highest w) - unat t) \<longleftrightarrow> t \<in> S"
        using h up \<open>t \<le> highest w\<close> t(1) by (auto simp: window_holds_def)
      moreover have "unat s - unat t = ?d + (unat (highest w) - unat t)" "unat s - unat t \<noteq> 0" "t \<noteq> s"
        using le by auto
      ultimately show ?thesis using False t(3) le by (auto simp: bit_simps)
    qed
  next
    case False
    then have "t \<notin> S" using h by (auto simp: window_holds_def)
    moreover have "unat s - unat t = 0 \<longleftrightarrow> t = s" using t(2) by (auto simp: word_order_nat)
    moreover have "unat s - unat t < ?d" using False up by (simp add: word_order_nat)
    ultimately show ?thesis by (auto simp: bit_simps)
  qed
  moreover have "\<forall>t \<in> insert s S. t \<le> s" "0 \<notin> insert s S"
    using h up by (auto simp: window_holds_def)
  ultimately show ?thesis using c by (simp add: window_holds_def)
qed

lemma commit_below:
  assumes h: "window_holds w S" and s: "s \<noteq> 0" "s \<le> highest w" "highest w \<noteq> 0"
  shows "window_holds (commit w s) (insert s S)"
proof -
  let ?k = "unat (highest w) - unat s"
  have c: "commit w s = w\<lparr>bitmap := bitmap w OR push_bit ?k 1\<rparr>"
    using s by (simp add: commit_def word_order_nat(4))
  have "bit (bitmap w OR push_bit ?k 1) (unat (highest w) - unat t) \<longleftrightarrow> t \<in> insert s S"
    if t: "t \<noteq> 0" "t \<le> highest w" "unat (highest w) - unat t < 64" for t
  proof -
    have "bit (bitmap w) (unat (highest w) - unat t) \<longleftrightarrow> t \<in> S"
      using h s t by (auto simp: window_holds_def)
    moreover have "unat (highest w) - unat t = ?k \<longleftrightarrow> t = s"
      using s(2) t(2) by (auto simp: word_order_nat)
    ultimately show ?thesis unfolding bit_or_push [OF t(3)] by auto
  qed
  moreover have "\<forall>t \<in> insert s S. t \<le> highest w" "0 \<notin> insert s S" "highest w \<in> insert s S"
    using h s by (auto simp: window_holds_def)
  ultimately show ?thesis unfolding c by (simp add: window_holds_def)
qed

lemma commit_holds:
  assumes "window_holds w S" "wouldAccept w s"
  shows "window_holds (commit w s) (insert s S)"
proof -
  have s: "s \<noteq> 0" using assms(2) by (auto simp: wouldAccept_def split: if_splits)
  show ?thesis
  proof (cases "highest w = 0")
    case True
    then have "S = {}" "commit w s = \<lparr>highest = s, bitmap = 1\<rparr>"
      using assms(1) by (auto simp: window_holds_def commit_def)
    then show ?thesis using s by (auto simp: window_holds_def word_order_nat bit_simps)
  next
    case False
    then show ?thesis using commit_above commit_below assms(1) s by (cases "highest w < s") auto
  qed
qed

interpretation window: replay_guard wouldAccept commit window_holds
  by unfold_locales (auto simp: wouldAccept_iff commit_holds)

subsection \<open>Property\<close>

text \<open>
  C9: The replay window is exact.  After any sequence of numbers offered to a fresh window, the
  accepted ones are distinct and not zero, and the next number is accepted exactly when it is not
  zero, has not been accepted before, and lies less than 64 below every number accepted so far: the
  64-bit map stands for the whole set of accepted numbers.
\<close>

theorem replay_window_exact:
  "distinct (accepted wouldAccept commit empty_window offered)
   \<and> 0 \<notin> set (accepted wouldAccept commit empty_window offered)
   \<and> (wouldAccept (filter_state wouldAccept commit empty_window offered) next_number \<longleftrightarrow>
        next_number \<noteq> 0 \<and> next_number \<notin> set (accepted wouldAccept commit empty_window offered)
        \<and> list_all (\<lambda>t. unat t < unat next_number + 64) (accepted wouldAccept commit empty_window offered))"
proof -
  let ?acc = "accepted wouldAccept commit empty_window offered"
  let ?w = "filter_state wouldAccept commit empty_window offered"
  have h: "window_holds ?w (set ?acc)"
    using window.run_holds [OF window_holds_empty] by simp
  then have "unat (highest ?w) < n + 64 \<longleftrightarrow> list_all (\<lambda>t. unat t < n + 64) ?acc" for n
    by (auto simp: window_holds_def list_all_iff word_le_nat_alt)
  then show ?thesis
    using wouldAccept_iff [OF h] window.run_fresh [OF window_holds_empty] h
    by (auto simp: window_holds_def)
qed

end
