(* ===== verification/Ike_Wire.thy ===== *)
theory Ike_Wire
  imports Prelude
begin

text \<open>
  The IKEv2 wire format of \<open>internal/vowifi/ike/wire.go\<close>: packet header, payload chain, SA
  proposals, negotiated suite and notify payloads.  Offsets, length checks and limits are those
  of the code; the errors keep its sentinel values.
\<close>

datatype ike_err =
    ErrMalformed | ErrUnexpected | ErrUnsupportedSuite | ErrIntegrity
  | ErrInvalidPayloadType | ErrPayloadTooLong | ErrProposalTooLong

subsection \<open>Constants\<close>

definition ikeHeaderLength :: nat where "ikeHeaderLength = 28"
definition payloadNone :: byte where "payloadNone = 0"
definition payloadNotify :: byte where "payloadNotify = 41"
definition payloadEncrypted :: byte where "payloadEncrypted = 46"
definition payloadCP :: byte where "payloadCP = 47"
definition protocolIKE :: byte where "protocolIKE = 1"
definition protocolESP :: byte where "protocolESP = 3"
definition encryptionAESCBC :: "16 word" where "encryptionAESCBC = 12"
definition prfHMACSHA1 :: "16 word" where "prfHMACSHA1 = 2"
definition prfHMACSHA256 :: "16 word" where "prfHMACSHA256 = 5"
definition integrityHMACSHA1_96 :: "16 word" where "integrityHMACSHA1_96 = 2"
definition integrityHMACSHA256_128 :: "16 word" where "integrityHMACSHA256_128 = 12"
definition dhMODP1024 :: "16 word" where "dhMODP1024 = 2"
definition dhMODP2048 :: "16 word" where "dhMODP2048 = 14"
definition transformAttributeKeyLen :: "16 word" where "transformAttributeKeyLen = 14"

lemmas ike_constants =
  payloadNone_def payloadNotify_def payloadEncrypted_def payloadCP_def protocolIKE_def
  protocolESP_def encryptionAESCBC_def prfHMACSHA1_def prfHMACSHA256_def
  integrityHMACSHA1_96_def integrityHMACSHA256_128_def dhMODP1024_def dhMODP2048_def
  transformAttributeKeyLen_def

subsection \<open>Packets\<close>

record ikeHeader =
  InitiatorSPI :: "byte list"
  ResponderSPI :: "byte list"
  NextPayload :: byte
  Version :: byte
  Exchange :: byte
  Flags :: byte
  MessageID :: "32 word"
  Length :: "32 word"

definition marshal_packet :: "ikeHeader \<Rightarrow> byte list \<Rightarrow> byte list" where
  "marshal_packet header body =
     take 8 (InitiatorSPI header) @ take 8 (ResponderSPI header)
     @ [NextPayload header, if Version header = 0 then 0x20 else Version header,
        Exchange header, Flags header]
     @ put_be32 (MessageID header)
     @ put_be32 (of_nat (ikeHeaderLength + length body)) @ body"

definition parseIKEPacket :: "byte list \<Rightarrow> (ike_err, ikeHeader \<times> byte list) res" where
  "parseIKEPacket packet =
     (if length packet < ikeHeaderLength then Inl (Fail ErrMalformed)
      else rbind (slice packet 0 8) (\<lambda>initiator.
           rbind (slice packet 8 16) (\<lambda>responder.
           rbind (idx packet 16) (\<lambda>nxt.
           rbind (idx packet 17) (\<lambda>version.
           rbind (idx packet 18) (\<lambda>exchange.
           rbind (idx packet 19) (\<lambda>flags.
           rbind (u32_at packet 20) (\<lambda>messageID.
           rbind (u32_at packet 24) (\<lambda>len.
             if drop_bit 4 version \<noteq> 2 then Inl (Fail ErrMalformed)
             else if unat len < ikeHeaderLength \<or> unat len \<noteq> length packet
                  then Inl (Fail ErrMalformed)
             else rbind (slice packet ikeHeaderLength (length packet)) (\<lambda>body.
               Inr (\<lparr>InitiatorSPI = initiator, ResponderSPI = responder, NextPayload = nxt,
                     Version = version, Exchange = exchange, Flags = flags,
                     MessageID = messageID, Length = len\<rparr>, body)))))))))))"

subsection \<open>Payload chains\<close>

record payload =
  Type :: byte
  Critical :: bool
  Body :: "byte list"

fun marshal_chain :: "payload list \<Rightarrow> (ike_err, byte list) res" where
  "marshal_chain [] = Inr []"
| "marshal_chain (item # rest) =
     (if Type item = payloadNone \<or> Type item = payloadEncrypted
      then Inl (Fail ErrInvalidPayloadType)
      else
        let nxt = (case rest of [] \<Rightarrow> payloadNone | n # _ \<Rightarrow> Type n);
            len = 4 + length (Body item)
        in if len > 65535 then Inl (Fail ErrPayloadTooLong)
           else rbind (marshal_chain rest) (\<lambda>output.
             Inr ([nxt, if Critical item then 0x80 else 0] @ put_be16 (of_nat len)
                  @ Body item @ output)))"

definition marshalPayloadChain :: "payload list \<Rightarrow> (ike_err, byte \<times> byte list) res" where
  "marshalPayloadChain payloads =
     (case payloads of
        [] \<Rightarrow> Inr (payloadNone, [])
      | first # _ \<Rightarrow> rbind (marshal_chain payloads) (\<lambda>output. Inr (Type first, output)))"

text \<open>The loop over the chain; it takes at least four octets a round.\<close>

function chain_loop ::
  "byte list \<Rightarrow> byte \<Rightarrow> nat \<Rightarrow> payload list \<Rightarrow> (ike_err, payload list) res" where
  "chain_loop encoded nxt offset result =
     (if nxt = payloadNone then
        (if offset \<noteq> length encoded then Inl (Fail ErrMalformed) else Inr result)
      else if length result \<ge> 64 then Inl (Fail ErrMalformed)
      else if offset + 4 > length encoded then Inl (Fail ErrMalformed)
      else rbind (idx encoded offset) (\<lambda>following.
           rbind (idx encoded (offset + 1)) (\<lambda>flags.
           rbind (u16_at encoded (offset + 2)) (\<lambda>l.
             let len = unat l in
             if len < 4 \<or> offset + len > length encoded then Inl (Fail ErrMalformed)
             else rbind (slice encoded (offset + 4) (offset + len)) (\<lambda>body.
               chain_loop encoded following (offset + len)
                 (result @ [\<lparr>Type = nxt, Critical = (flags AND 0x80 \<noteq> 0), Body = body\<rparr>]))))))"
  by pat_completeness auto
termination
  by (relation "measure (\<lambda>(encoded, nxt, offset, result). length encoded - offset)") auto

declare chain_loop.simps [simp del]

definition parsePayloadChain :: "byte \<Rightarrow> byte list \<Rightarrow> (ike_err, payload list) res" where
  "parsePayloadChain first encoded = chain_loop encoded first 0 []"

definition payloadsOfType :: "payload list \<Rightarrow> byte \<Rightarrow> payload list" where
  "payloadsOfType payloads kind = filter (\<lambda>item. Type item = kind) payloads"

definition onePayload :: "payload list \<Rightarrow> byte \<Rightarrow> (ike_err, payload) res" where
  "onePayload payloads kind =
     (let found = payloadsOfType payloads kind in
      if length found \<noteq> 1 then Inl (Fail ErrUnexpected) else idx found 0)"

subsection \<open>Reading behind a prefix\<close>

named_theorems at_offset \<open>reads at an offset behind a known prefix\<close>

lemma idx_behind [at_offset]:
  "idx (pre @ xs) (length pre) = idx xs 0"
  "idx (pre @ xs) (length pre + k) = idx xs k"
  "idx (pre @ xs) (Suc (length pre)) = idx xs 1"
  by (simp_all add: idx_def nth_append)

lemma slice_behind [at_offset]:
  "slice (pre @ xs) (length pre + a) (length pre + b) = slice xs a b"
  by (auto simp: slice_def)

lemma u16_behind [at_offset]: "u16_at (pre @ xs) (length pre + k) = u16_at xs k"
  unfolding u16_at_def add.assoc slice_behind ..

lemma u16_at_put: "length pre = k \<Longrightarrow> u16_at (pre @ put_be16 v @ post) k = Inr v"
  by (simp add: put_be16_def nth_append)

lemma unat_be16_back: "n < 65536 \<Longrightarrow> unat (of_nat n :: 16 word) = n"
  by (simp add: unat_of_nat take_bit_eq_mod)

subsection \<open>Packet and chain round trips\<close>

lemma parse_marshal_packet:
  assumes "length (InitiatorSPI h) = 8" "length (ResponderSPI h) = 8" "Version h = 0x20"
    and "28 + length body < 2 ^ 32"
  shows "parseIKEPacket (marshal_packet h body)
    = Inr (h\<lparr>Length := of_nat (28 + length body)\<rparr>, body)"
proof -
  define p where "p = marshal_packet h body"
  obtain i0 i1 i2 i3 i4 i5 i6 i7 where i: "InitiatorSPI h = [i0, i1, i2, i3, i4, i5, i6, i7]"
    using assms(1) by (auto simp: length_Suc_conv eval_nat_numeral)
  obtain r0 r1 r2 r3 r4 r5 r6 r7 where r: "ResponderSPI h = [r0, r1, r2, r3, r4, r5, r6, r7]"
    using assms(2) by (auto simp: length_Suc_conv eval_nat_numeral)
  have p: "p = [i0, i1, i2, i3, i4, i5, i6, i7, r0, r1, r2, r3, r4, r5, r6, r7,
      NextPayload h, 0x20, Exchange h, Flags h] @ put_be32 (MessageID h)
      @ put_be32 (of_nat (28 + length body)) @ body"
    using assms(3) by (simp add: p_def marshal_packet_def i r ikeHeaderLength_def)
  have len: "length p = 28 + length body" by (simp add: p)
  have "unat (of_nat (28 + length body) :: 32 word) = 28 + length body"
    using assms(4) by (simp add: unat_of_nat take_bit_eq_mod del: of_nat_add)
  then show ?thesis
    unfolding p_def [symmetric]
    using len i r assms(3)
    by (simp add: parseIKEPacket_def ikeHeaderLength_def p put_be32_def del: of_nat_add)
qed

lemma chain_step:
  assumes "nxt \<noteq> payloadNone" "length result < 64" "offset + 4 \<le> length encoded"
    and "idx encoded offset = (Inr following :: (ike_err, byte) res)"
    and "idx encoded (offset + 1) = (Inr flags :: (ike_err, byte) res)"
    and "u16_at encoded (offset + 2) = (Inr l :: (ike_err, 16 word) res)"
    and "4 \<le> unat l" "offset + unat l \<le> length encoded"
    and "slice encoded (offset + 4) (offset + unat l) = (Inr body :: (ike_err, byte list) res)"
  shows "chain_loop encoded nxt offset result = chain_loop encoded following (offset + unat l)
    (result @ [\<lparr>Type = nxt, Critical = (flags AND 0x80 \<noteq> 0), Body = body\<rparr>])"
  using assms by (subst chain_loop.simps) (simp add: Let_def del: u16_at_ok idx_ok slice_ok)

lemma chain_loop_marshalled:
  assumes "marshal_chain ps = Inr enc" "length result + length ps \<le> 64"
  shows "chain_loop (pre @ enc) (case ps of [] \<Rightarrow> payloadNone | p # _ \<Rightarrow> Type p) (length pre) result
    = Inr (result @ ps)"
  using assms
proof (induction ps arbitrary: enc pre result)
  case Nil
  then show ?case by (simp add: chain_loop.simps)
next
  case (Cons item rest)
  let ?nxt = "case rest of [] \<Rightarrow> payloadNone | n # _ \<Rightarrow> Type n"
  let ?len = "4 + length (Body item)"
  obtain out where out: "marshal_chain rest = Inr out" and ty: "Type item \<noteq> payloadNone"
    and len: "?len \<le> 65535"
    and enc: "enc = [?nxt, if Critical item then 0x80 else 0] @ put_be16 (of_nat ?len) @ Body item @ out"
    using Cons.prems(1) by (auto simp: Let_def rbind_Inr_iff split: if_splits)
  have u: "unat (of_nat ?len :: 16 word) = ?len" using len by (intro unat_be16_back) simp
  have reads: "idx enc 0 = Inr ?nxt" "idx enc 1 = Inr (if Critical item then 0x80 else 0)"
    "u16_at enc 2 = Inr (of_nat ?len)" "slice enc 4 ?len = Inr (Body item)"
    unfolding enc by (simp_all add: put_be16_def del: of_nat_add)
  have size: "length enc = ?len + length out" unfolding enc by simp
  define hdr where "hdr = [?nxt, if Critical item then 0x80 else 0] @ put_be16 (of_nat ?len)"
  have hdr: "length hdr = 4" "enc = hdr @ Body item @ out" by (simp_all add: hdr_def enc)
  then have whole: "take ?len enc @ out = enc" by simp
  have ih: "chain_loop ((pre @ take ?len enc) @ out) ?nxt (length pre + ?len) (result @ [item])
      = Inr (result @ item # rest)"
    using Cons.IH [OF out, of "result @ [item]" "pre @ take ?len enc"] Cons.prems(2) size by simp
  have "chain_loop (pre @ enc) (Type item) (length pre) result
      = chain_loop (pre @ enc) ?nxt (length pre + unat (of_nat ?len :: 16 word))
          (result @ [\<lparr>Type = Type item,
             Critical = ((if Critical item then 0x80 else 0 :: byte) AND 0x80 \<noteq> 0), Body = Body item\<rparr>])"
    by (rule chain_step) (use ty Cons.prems(2) size in \<open>simp_all only: at_offset reads u, simp_all\<close>)
  moreover have "((if Critical item then 0x80 else 0 :: byte) AND 0x80 \<noteq> 0) = Critical item" by simp
  moreover have "\<lparr>Type = Type item, Critical = Critical item, Body = Body item\<rparr> = item" by simp
  ultimately show ?case using ih whole by (simp only: u append_assoc list.case)
qed

lemma parse_marshal_chain:
  "marshalPayloadChain ps = Inr (t, enc) \<Longrightarrow> length ps \<le> 64 \<Longrightarrow> parsePayloadChain t enc = Inr ps"
proof (cases ps)
  case Nil
  assume "marshalPayloadChain ps = Inr (t, enc)"
  with Nil show ?thesis by (simp add: marshalPayloadChain_def parsePayloadChain_def chain_loop.simps)
next
  case (Cons p qs)
  assume m: "marshalPayloadChain ps = Inr (t, enc)" and "length ps \<le> 64"
  then show ?thesis
    using chain_loop_marshalled [of ps enc "[]" "[]"] Cons
    by (simp add: marshalPayloadChain_def parsePayloadChain_def rbind_Inr_iff del: marshal_chain.simps)
qed

subsection \<open>Parsing never reads out of bounds\<close>

lemma parseIKEPacket_safe [simp]: "safe (parseIKEPacket packet)"
  by (auto simp: parseIKEPacket_def ikeHeaderLength_def)

lemma chain_loop_safe [simp]: "safe (chain_loop encoded nxt offset result)"
proof (induction encoded nxt offset result rule: chain_loop.induct)
  case (1 encoded nxt offset result)
  then show ?case by (subst chain_loop.simps) (auto simp: Let_def)
qed

lemma parsePayloadChain_safe [simp]: "safe (parsePayloadChain first encoded)"
  by (simp add: parsePayloadChain_def)

lemma onePayload_safe [simp]: "safe (onePayload payloads kind)"
  by (simp add: onePayload_def Let_def)

lemma onePayload_Inr:
  "onePayload payloads kind = Inr p \<longleftrightarrow> payloadsOfType payloads kind = [p]"
  by (auto simp: onePayload_def Let_def res_simps length_Suc_conv)

subsection \<open>Proposals\<close>

record transform =
  tr_Type :: byte
  tr_ID :: "16 word"
  tr_KeyLength :: int

record proposal =
  pr_Number :: byte
  pr_Protocol :: byte
  pr_SPI :: "byte list"
  pr_Transforms :: "transform list"

definition transform_attributes :: "transform \<Rightarrow> byte list" where
  "transform_attributes candidate =
     (if tr_KeyLength candidate > 0
      then put_be16 (0x8000 OR transformAttributeKeyLen) @ put_be16 (of_int (tr_KeyLength candidate))
      else [])"

fun marshal_transforms :: "transform list \<Rightarrow> byte list" where
  "marshal_transforms [] = []"
| "marshal_transforms (candidate # rest) =
     [if rest \<noteq> [] then 3 else 0, 0]
     @ put_be16 (of_nat (8 + length (transform_attributes candidate)))
     @ [tr_Type candidate, 0] @ put_be16 (tr_ID candidate)
     @ transform_attributes candidate @ marshal_transforms rest"

fun marshalProposals :: "proposal list \<Rightarrow> (ike_err, byte list) res" where
  "marshalProposals [] = Inr []"
| "marshalProposals (item # rest) =
     (if length (pr_SPI item) > 255 \<or> length (pr_Transforms item) > 255
      then Inl (Fail ErrProposalTooLong)
      else
        let transforms = marshal_transforms (pr_Transforms item);
            len = 8 + length (pr_SPI item) + length transforms
        in rbind (marshalProposals rest) (\<lambda>output.
             Inr ([if rest \<noteq> [] then 2 else 0, 0] @ put_be16 (of_nat len)
                  @ [pr_Number item, pr_Protocol item, of_nat (length (pr_SPI item)),
                     of_nat (length (pr_Transforms item))]
                  @ pr_SPI item @ transforms @ output)))"

function attribute_loop :: "byte list \<Rightarrow> int \<Rightarrow> (ike_err, int) res" where
  "attribute_loop attributes keyLength =
     (if length attributes = 0 then Inr keyLength
      else if length attributes < 4 then Inl (Fail ErrMalformed)
      else rbind (u16_at attributes 0) (\<lambda>attributeType.
        if attributeType AND 0x8000 \<noteq> 0 then
          rbind (if attributeType AND 0x7fff = transformAttributeKeyLen
                 then rbind (u16_at attributes 2) (\<lambda>v. Inr (uint v)) else Inr keyLength) (\<lambda>k.
          rbind (slice attributes 4 (length attributes)) (\<lambda>rest. attribute_loop rest k))
        else rbind (u16_at attributes 2) (\<lambda>l.
          let attributeLength = unat l in
          if 4 + attributeLength > length attributes then Inl (Fail ErrMalformed)
          else rbind (if attributeType = transformAttributeKeyLen \<and> attributeLength = 2
                      then rbind (u16_at attributes 4) (\<lambda>v. Inr (uint v)) else Inr keyLength) (\<lambda>k.
               rbind (slice attributes (4 + attributeLength) (length attributes)) (\<lambda>rest.
                 attribute_loop rest k)))))"
  by pat_completeness auto
termination
  by (relation "measure (\<lambda>(attributes, k). length attributes)") (auto simp: slice_Inr_iff)

declare attribute_loop.simps [simp del]

text \<open>
  The transforms of one proposal, from an offset to the end of the proposal; the accumulated
  transforms are bounded by 32 and every round moves on by at least eight octets.
\<close>

function transform_loop ::
  "byte list \<Rightarrow> nat \<Rightarrow> nat \<Rightarrow> transform list \<Rightarrow> (ike_err, nat \<times> transform list) res" where
  "transform_loop encoded proposalEnd offset transforms =
     (if \<not> offset < proposalEnd then Inr (offset, transforms)
      else if length transforms \<ge> 32 \<or> offset + 8 > proposalEnd then Inl (Fail ErrMalformed)
      else rbind (u16_at encoded (offset + 2)) (\<lambda>l.
        let transformLength = unat l in
        if transformLength < 8 \<or> offset + transformLength > proposalEnd then Inl (Fail ErrMalformed)
        else rbind (idx encoded offset) (\<lambda>marker.
          let transformEnd = offset + transformLength in
          if transformEnd < proposalEnd \<and> marker \<noteq> 3 then Inl (Fail ErrMalformed)
          else if transformEnd = proposalEnd \<and> marker \<noteq> 0 then Inl (Fail ErrMalformed)
          else rbind (idx encoded (offset + 4)) (\<lambda>kind.
               rbind (u16_at encoded (offset + 6)) (\<lambda>ident.
               rbind (slice encoded (offset + 8) (offset + transformLength)) (\<lambda>attributes.
               rbind (attribute_loop attributes 0) (\<lambda>keyLength.
                 transform_loop encoded proposalEnd (offset + transformLength)
                   (transforms @ [\<lparr>tr_Type = kind, tr_ID = ident, tr_KeyLength = keyLength\<rparr>]))))))))"
  by pat_completeness auto
termination
  by (relation "measure (\<lambda>(encoded, e, offset, ts). e - offset)") auto

declare transform_loop.simps [simp del]

text \<open>
  The proposals; a marker of two announces another one, but the loop also ends where the
  octets end.
\<close>

function proposal_loop :: "byte list \<Rightarrow> nat \<Rightarrow> proposal list \<Rightarrow> (ike_err, proposal list) res" where
  "proposal_loop encoded offset result =
     (if offset = length encoded then Inr result
      else if length result \<ge> 16 \<or> offset + 8 > length encoded then Inl (Fail ErrMalformed)
      else rbind (idx encoded offset) (\<lambda>marker.
           rbind (u16_at encoded (offset + 2)) (\<lambda>l.
           rbind (idx encoded (offset + 6)) (\<lambda>s.
           rbind (idx encoded (offset + 7)) (\<lambda>c.
             let len = unat l; spiSize = unat s; transformCount = unat c in
             if len < 8 + spiSize \<or> offset + len > length encoded then Inl (Fail ErrMalformed)
             else rbind (idx encoded (offset + 4)) (\<lambda>number.
                  rbind (idx encoded (offset + 5)) (\<lambda>protocol.
                  rbind (slice encoded (offset + 8) (offset + 8 + spiSize)) (\<lambda>spi.
                  rbind (transform_loop encoded (offset + len) (offset + 8 + spiSize) [])
                    (\<lambda>(transformOffset, transforms).
                  if transformOffset \<noteq> offset + len \<or> length transforms \<noteq> transformCount
                  then Inl (Fail ErrMalformed)
                  else
                    let result' = result @ [\<lparr>pr_Number = number, pr_Protocol = protocol,
                          pr_SPI = spi, pr_Transforms = transforms\<rparr>] in
                    if marker = 0 then
                      (if offset + len \<noteq> length encoded then Inl (Fail ErrMalformed)
                       else Inr result')
                    else if marker \<noteq> 2 then Inl (Fail ErrMalformed)
                    else proposal_loop encoded (offset + len) result')))))))))"
  by pat_completeness auto
termination
  by (relation "measure (\<lambda>(encoded, offset, result). length encoded - offset)") auto

declare proposal_loop.simps [simp del]

definition parseProposals :: "byte list \<Rightarrow> (ike_err, proposal list) res" where
  "parseProposals encoded =
     rbind (proposal_loop encoded 0 []) (\<lambda>result.
       if result = [] then Inl (Fail ErrMalformed) else Inr result)"

subsection \<open>Proposals never read out of bounds\<close>

lemma attribute_loop_safe [simp]: "safe (attribute_loop attributes k)"
proof (induction attributes k rule: attribute_loop.induct)
  case (1 attributes k)
  then show ?case by (subst attribute_loop.simps) (auto simp: Let_def)
qed

lemma transform_loop_safe: "e \<le> length encoded \<Longrightarrow> safe (transform_loop encoded e offset ts)"
proof (induction encoded e offset ts rule: transform_loop.induct)
  case (1 encoded e offset ts)
  then show ?case by (subst transform_loop.simps) (auto simp: Let_def)
qed

lemma proposal_loop_safe [simp]: "safe (proposal_loop encoded offset result)"
proof (induction encoded offset result rule: proposal_loop.induct)
  case (1 encoded offset result)
  then show ?case
    by (subst proposal_loop.simps) (auto simp: Let_def transform_loop_safe split: prod.splits)
qed

lemma parseProposals_safe [simp]: "safe (parseProposals encoded)"
  by (simp add: parseProposals_def)

subsection \<open>Proposals come back\<close>

text \<open>A key length fits its attribute, and the parser's limit on transforms is kept.\<close>

definition transform_ok :: "transform \<Rightarrow> bool" where
  "transform_ok t \<longleftrightarrow> 0 \<le> tr_KeyLength t \<and> tr_KeyLength t < 65536"

lemma uint_of_int_16: "0 \<le> k \<Longrightarrow> k < 65536 \<Longrightarrow> uint (word_of_int k :: 16 word) = k"
  by (simp add: unsigned_of_int take_bit_int_eq_self)

lemma attribute_loop_Nil [simp]: "attribute_loop [] k = Inr k"
  by (simp add: attribute_loop.simps)

lemma key_attribute:
  "put_be16 (0x8000 OR transformAttributeKeyLen) = [0x80, 0x0e]"
  "be16 0x80 0x0e AND 0x8000 \<noteq> 0" "be16 0x80 0x0e AND 0x7fff = transformAttributeKeyLen"
  by code_simp+

lemma attribute_loop_marshalled:
  assumes "transform_ok t"
  shows "attribute_loop (transform_attributes t) 0 = Inr (tr_KeyLength t)"
proof (cases "tr_KeyLength t > 0")
  case True
  then show ?thesis
    using assms
    by (subst attribute_loop.simps)
      (simp add: transform_attributes_def key_attribute transform_ok_def uint_of_int_16 put_be16_def [of "word_of_int _"])
next
  case False
  with assms show ?thesis by (simp add: transform_attributes_def transform_ok_def)
qed

lemma transform_step:
  assumes "offset < e" "length acc < 32" "offset + 8 \<le> e"
    and "u16_at encoded (offset + 2) = (Inr l :: (ike_err, 16 word) res)"
    and "8 \<le> unat l" "offset + unat l \<le> e"
    and "idx encoded offset = (Inr marker :: (ike_err, byte) res)"
    and "marker = (if offset + unat l < e then 3 else 0)"
    and "idx encoded (offset + 4) = (Inr kind :: (ike_err, byte) res)"
    and "u16_at encoded (offset + 6) = (Inr ident :: (ike_err, 16 word) res)"
    and "slice encoded (offset + 8) (offset + unat l) = (Inr attributes :: (ike_err, byte list) res)"
    and "attribute_loop attributes 0 = Inr k"
  shows "transform_loop encoded e offset acc = transform_loop encoded e (offset + unat l)
    (acc @ [\<lparr>tr_Type = kind, tr_ID = ident, tr_KeyLength = k\<rparr>])"
  using assms by (subst transform_loop.simps) (auto simp: Let_def simp del: u16_at_ok idx_ok slice_ok)

lemma length_transform_attributes: "length (transform_attributes t) \<in> {0, 4}"
  by (simp add: transform_attributes_def)

lemma transform_loop_marshalled:
  assumes "list_all transform_ok ts" "length acc + length ts \<le> 32"
  shows "transform_loop (pre @ marshal_transforms ts @ post) (length pre + length (marshal_transforms ts))
      (length pre) acc = Inr (length pre + length (marshal_transforms ts), acc @ ts)"
  using assms
proof (induction ts arbitrary: pre acc)
  case Nil
  then show ?case by (simp add: transform_loop.simps)
next
  case (Cons t rest)
  let ?a = "transform_attributes t" and ?n = "8 + length (transform_attributes t)"
  let ?stop = "length pre + length (marshal_transforms (t # rest))"
  define enc where "enc = marshal_transforms (t # rest) @ post"
  define hdr where "hdr = [if rest \<noteq> [] then 3 else 0, 0] @ put_be16 (of_nat ?n)
     @ [tr_Type t, 0] @ put_be16 (tr_ID t) @ ?a"
  have hdr: "length hdr = ?n" "marshal_transforms (t # rest) = hdr @ marshal_transforms rest"
    by (simp_all add: hdr_def)
  have u: "unat (of_nat ?n :: 16 word) = ?n"
    using length_transform_attributes [of t] by (intro unat_be16_back) auto
  have reads: "u16_at enc 2 = Inr (of_nat ?n)" "idx enc 0 = Inr (if rest \<noteq> [] then 3 else 0)"
    "idx enc 4 = Inr (tr_Type t)" "u16_at enc 6 = Inr (tr_ID t)" "slice enc 8 ?n = Inr ?a"
    by (simp_all add: enc_def put_be16_def del: of_nat_add)
  have size: "length pre < ?stop" "length pre + 8 \<le> ?stop" "length pre + ?n \<le> ?stop" "8 \<le> ?n"
    unfolding hdr(2) by (simp_all add: hdr(1))
  have more: "(marshal_transforms rest = []) \<longleftrightarrow> rest = []" by (cases rest) simp_all
  have ih: "transform_loop ((pre @ hdr) @ marshal_transforms rest @ post)
      (length (pre @ hdr) + length (marshal_transforms rest)) (length (pre @ hdr)) (acc @ [t])
    = Inr (length (pre @ hdr) + length (marshal_transforms rest), (acc @ [t]) @ rest)"
    by (rule Cons.IH) (use Cons.prems in auto)
  have "transform_loop (pre @ enc) ?stop (length pre) acc
      = transform_loop (pre @ enc) ?stop (length pre + unat (of_nat ?n :: 16 word))
          (acc @ [\<lparr>tr_Type = tr_Type t, tr_ID = tr_ID t, tr_KeyLength = tr_KeyLength t\<rparr>])"
  proof (rule transform_step)
    show "attribute_loop ?a 0 = Inr (tr_KeyLength t)"
      using Cons.prems by (intro attribute_loop_marshalled) simp
    show "(if rest \<noteq> [] then 3 else 0)
        = (if length pre + unat (of_nat ?n :: 16 word) < ?stop then 3 else 0 :: byte)"
      using more unfolding u hdr(2) by (simp add: hdr(1))
  qed (use Cons.prems(2) size in \<open>simp_all only: at_offset reads u, simp_all\<close>)
  moreover have "\<lparr>tr_Type = tr_Type t, tr_ID = tr_ID t, tr_KeyLength = tr_KeyLength t\<rparr> = t" by simp
  ultimately show ?case
    using ih hdr by (simp only: u enc_def append_assoc length_append add.assoc append_Cons append_Nil)
qed

definition proposal_ok :: "proposal \<Rightarrow> bool" where
  "proposal_ok p \<longleftrightarrow> length (pr_Transforms p) \<le> 32 \<and> list_all transform_ok (pr_Transforms p)"

lemma proposal_step:
  assumes "offset < length encoded" "length result < 16" "offset + 8 \<le> length encoded"
    and "idx encoded offset = (Inr marker :: (ike_err, byte) res)"
    and "u16_at encoded (offset + 2) = (Inr l :: (ike_err, 16 word) res)"
    and "idx encoded (offset + 6) = (Inr s :: (ike_err, byte) res)"
    and "idx encoded (offset + 7) = (Inr c :: (ike_err, byte) res)"
    and "8 + unat s \<le> unat l" "offset + unat l \<le> length encoded"
    and "idx encoded (offset + 4) = (Inr number :: (ike_err, byte) res)"
    and "idx encoded (offset + 5) = (Inr protocol :: (ike_err, byte) res)"
    and "slice encoded (offset + 8) (offset + 8 + unat s) = (Inr spi :: (ike_err, byte list) res)"
    and "transform_loop encoded (offset + unat l) (offset + 8 + unat s) [] = Inr (offset + unat l, ts)"
    and "length ts = unat c"
    and "marker = (if offset + unat l < length encoded then 2 else 0)"
  shows "proposal_loop encoded offset result
    = (let result' = result @ [\<lparr>pr_Number = number, pr_Protocol = protocol, pr_SPI = spi, pr_Transforms = ts\<rparr>]
       in if marker = 0 then Inr result' else proposal_loop encoded (offset + unat l) result')"
  using assms by (subst proposal_loop.simps) (auto simp: Let_def simp del: u16_at_ok idx_ok slice_ok)

lemma length_marshal_transforms: "length (marshal_transforms ts) \<le> 12 * length ts"
proof (induction ts)
  case (Cons t ts)
  then show ?case using length_transform_attributes [of t] by auto
qed simp

lemma proposal_loop_marshalled:
  assumes "marshalProposals ps = Inr enc" "list_all proposal_ok ps" "length result + length ps \<le> 16"
  shows "proposal_loop (pre @ enc) (length pre) result = Inr (result @ ps)"
  using assms
proof (induction ps arbitrary: enc pre result)
  case Nil
  then show ?case by (simp add: proposal_loop.simps)
next
  case (Cons p rest)
  let ?ts = "marshal_transforms (pr_Transforms p)" and ?s = "length (pr_SPI p)"
  let ?n = "8 + ?s + length ?ts"
  obtain out where out: "marshalProposals rest = Inr out" and spi: "?s \<le> 255"
    and enc: "enc = [if rest \<noteq> [] then 2 else 0, 0] @ put_be16 (of_nat ?n)
      @ [pr_Number p, pr_Protocol p, of_nat ?s, of_nat (length (pr_Transforms p))]
      @ pr_SPI p @ ?ts @ out"
    using Cons.prems(1) by (auto simp: Let_def rbind_Inr_iff split: if_splits)
  have ok: "length (pr_Transforms p) \<le> 32" "list_all transform_ok (pr_Transforms p)"
    using Cons.prems(2) by (simp_all add: proposal_ok_def)
  define hdr where "hdr = [if rest \<noteq> [] then 2 else 0, 0] @ put_be16 (of_nat ?n)
      @ [pr_Number p, pr_Protocol p, of_nat ?s, of_nat (length (pr_Transforms p))] @ pr_SPI p"
  have hdr: "length hdr = 8 + ?s" "enc = hdr @ ?ts @ out" by (simp_all add: hdr_def enc)
  have u: "unat (of_nat ?n :: 16 word) = ?n" "unat (of_nat ?s :: byte) = ?s"
    "unat (of_nat (length (pr_Transforms p)) :: byte) = length (pr_Transforms p)"
    using spi ok length_marshal_transforms [of "pr_Transforms p"]
    by (simp_all add: unat_of_nat take_bit_eq_mod del: of_nat_add)
  have reads: "idx enc 0 = Inr (if rest \<noteq> [] then 2 else 0)" "u16_at enc 2 = Inr (of_nat ?n)"
    "idx enc 6 = Inr (of_nat ?s)" "idx enc 7 = Inr (of_nat (length (pr_Transforms p)))"
    "idx enc 4 = Inr (pr_Number p)" "idx enc 5 = Inr (pr_Protocol p)"
    "slice enc 8 (8 + ?s) = Inr (pr_SPI p)"
    by (simp_all add: enc put_be16_def del: of_nat_add)
  have size: "length pre < length (pre @ enc)" "length pre + 8 \<le> length (pre @ enc)"
    "length pre + ?n \<le> length (pre @ enc)"
    unfolding hdr(2) by (simp_all add: hdr(1))
  have more: "out = [] \<longleftrightarrow> rest = []"
    using out by (cases rest) (auto simp: Let_def rbind_Inr_iff split: if_splits)
  have ts: "transform_loop (pre @ enc) (length pre + ?n) (length pre + 8 + ?s) []
      = Inr (length pre + ?n, pr_Transforms p)"
    using transform_loop_marshalled [of "pr_Transforms p" "[]" "pre @ hdr" out] ok hdr
    by (simp add: add.assoc)
  have ih: "proposal_loop ((pre @ hdr @ ?ts) @ out) (length (pre @ hdr @ ?ts)) (result @ [p])
      = Inr ((result @ [p]) @ rest)"
    by (rule Cons.IH) (use out Cons.prems in auto)
  have "proposal_loop (pre @ enc) (length pre) result
      = (let result' = result @ [\<lparr>pr_Number = pr_Number p, pr_Protocol = pr_Protocol p,
            pr_SPI = pr_SPI p, pr_Transforms = pr_Transforms p\<rparr>]
         in if (if rest \<noteq> [] then 2 else 0 :: byte) = 0 then Inr result'
            else proposal_loop (pre @ enc) (length pre + unat (of_nat ?n :: 16 word)) result')"
  proof (rule proposal_step)
    show "(if rest \<noteq> [] then 2 else 0 :: byte)
        = (if length pre + unat (of_nat ?n :: 16 word) < length (pre @ enc) then 2 else 0)"
      using more unfolding u hdr(2) by (simp add: hdr(1))
    show "slice (pre @ enc) (length pre + 8) (length pre + 8 + unat (of_nat ?s :: byte))
        = Inr (pr_SPI p)"
      unfolding u add.assoc at_offset reads ..
    show "transform_loop (pre @ enc) (length pre + unat (of_nat ?n :: 16 word))
        (length pre + 8 + unat (of_nat ?s :: byte)) []
      = Inr (length pre + unat (of_nat ?n :: 16 word), pr_Transforms p)"
      unfolding u by (rule ts)
    show "length (pr_Transforms p) = unat (of_nat (length (pr_Transforms p)) :: byte)"
      using u(3) by (rule sym)
  qed (use Cons.prems(3) size in \<open>simp_all only: at_offset reads u, simp_all\<close>)
  moreover have "\<lparr>pr_Number = pr_Number p, pr_Protocol = pr_Protocol p, pr_SPI = pr_SPI p,
      pr_Transforms = pr_Transforms p\<rparr> = p" by simp
  moreover have "length (pre @ hdr @ ?ts) = length pre + ?n" using hdr(1) by simp
  ultimately show ?case
    using ih by (cases "rest = []") (simp_all add: u hdr(2) Let_def del: of_nat_add)
qed

lemma parse_marshal_proposals:
  assumes "marshalProposals ps = Inr enc" "list_all proposal_ok ps" "ps \<noteq> []" "length ps \<le> 16"
  shows "parseProposals enc = Inr ps"
  using proposal_loop_marshalled [OF assms(1,2), of "[]" "[]"] assms(3,4)
  by (simp add: parseProposals_def)


subsection \<open>The negotiated suite\<close>

record negotiatedSuite =
  EncryptionID :: "16 word"
  EncryptionBits :: int
  PRFID :: "16 word"
  IntegrityID :: "16 word"
  DHID :: "16 word"

fun ike_suite_loop ::
  "transform list \<Rightarrow> byte list \<Rightarrow> negotiatedSuite \<Rightarrow> (ike_err, negotiatedSuite) res" where
  "ike_suite_loop [] seen suite = Inr suite"
| "ike_suite_loop (candidate # rest) seen suite =
     (if tr_Type candidate \<in> set seen then Inl (Fail ErrUnsupportedSuite)
      else
        let seen' = tr_Type candidate # seen in
        if tr_Type candidate = 1 then
          ike_suite_loop rest seen' (suite\<lparr>EncryptionID := tr_ID candidate,
                                          EncryptionBits := tr_KeyLength candidate\<rparr>)
        else if tr_Type candidate = 2 then ike_suite_loop rest seen' (suite\<lparr>PRFID := tr_ID candidate\<rparr>)
        else if tr_Type candidate = 3 then
          ike_suite_loop rest seen' (suite\<lparr>IntegrityID := tr_ID candidate\<rparr>)
        else if tr_Type candidate = 4 then ike_suite_loop rest seen' (suite\<lparr>DHID := tr_ID candidate\<rparr>)
        else Inl (Fail ErrUnsupportedSuite))"

definition supported_suite :: "negotiatedSuite \<Rightarrow> bool" where
  "supported_suite suite \<longleftrightarrow>
     EncryptionID suite = encryptionAESCBC \<and> EncryptionBits suite \<in> {128, 256}
     \<and> PRFID suite \<in> {prfHMACSHA1, prfHMACSHA256}
     \<and> IntegrityID suite \<in> {integrityHMACSHA1_96, integrityHMACSHA256_128}
     \<and> DHID suite \<in> {dhMODP1024, dhMODP2048}"

definition no_suite :: negotiatedSuite where
  "no_suite = \<lparr>EncryptionID = 0, EncryptionBits = 0, PRFID = 0, IntegrityID = 0, DHID = 0\<rparr>"

definition parseIKESuite :: "proposal \<Rightarrow> (ike_err, negotiatedSuite) res" where
  "parseIKESuite item =
     (if pr_Protocol item \<noteq> protocolIKE \<or> length (pr_SPI item) \<noteq> 0
      then Inl (Fail ErrUnsupportedSuite)
      else rbind (ike_suite_loop (pr_Transforms item) [] no_suite) (\<lambda>suite.
        if EncryptionID suite \<noteq> encryptionAESCBC
           \<or> EncryptionBits suite \<noteq> 128 \<and> EncryptionBits suite \<noteq> 256
        then Inl (Fail ErrUnsupportedSuite)
        else if PRFID suite \<noteq> prfHMACSHA1 \<and> PRFID suite \<noteq> prfHMACSHA256
        then Inl (Fail ErrUnsupportedSuite)
        else if IntegrityID suite \<noteq> integrityHMACSHA1_96 \<and> IntegrityID suite \<noteq> integrityHMACSHA256_128
        then Inl (Fail ErrUnsupportedSuite)
        else if DHID suite \<noteq> dhMODP1024 \<and> DHID suite \<noteq> dhMODP2048
        then Inl (Fail ErrUnsupportedSuite)
        else Inr suite))"

text \<open>The transform a suite takes its value from.\<close>

definition chosen :: "byte \<Rightarrow> transform list \<Rightarrow> transform option" where
  "chosen kind ts = List.find (\<lambda>t. tr_Type t = kind) ts"

lemma ike_suite_loop_Inr:
  assumes "ike_suite_loop ts seen s = Inr s'"
  shows "distinct (map tr_Type ts) \<and> set (map tr_Type ts) \<inter> set seen = {}
    \<and> set (map tr_Type ts) \<subseteq> {1, 2, 3, 4}
    \<and> EncryptionID s' = (case chosen 1 ts of None \<Rightarrow> EncryptionID s | Some t \<Rightarrow> tr_ID t)
    \<and> EncryptionBits s' = (case chosen 1 ts of None \<Rightarrow> EncryptionBits s | Some t \<Rightarrow> tr_KeyLength t)
    \<and> PRFID s' = (case chosen 2 ts of None \<Rightarrow> PRFID s | Some t \<Rightarrow> tr_ID t)
    \<and> IntegrityID s' = (case chosen 3 ts of None \<Rightarrow> IntegrityID s | Some t \<Rightarrow> tr_ID t)
    \<and> DHID s' = (case chosen 4 ts of None \<Rightarrow> DHID s | Some t \<Rightarrow> tr_ID t)"
  using assms
proof (induction ts seen s rule: ike_suite_loop.induct)
  case (1 seen suite)
  then show ?case by (simp add: chosen_def)
next
  case (2 t rest seen suite)
  have miss: "chosen (tr_Type t) rest = None" if "tr_Type t \<notin> tr_Type ` set rest"
    using that unfolding chosen_def find_None_iff image_iff by metis
  from 2 miss show ?case
    by (auto simp: Let_def chosen_def cong: option.case_cong split: if_splits)
qed

lemma ike_suite_loop_ok:
  "distinct (map tr_Type ts) \<Longrightarrow> set (map tr_Type ts) \<inter> set seen = {} \<Longrightarrow>
   set (map tr_Type ts) \<subseteq> {1, 2, 3, 4} \<Longrightarrow> \<exists>s'. ike_suite_loop ts seen s = Inr s'"
  by (induction ts seen s rule: ike_suite_loop.induct) (auto simp: Let_def)

lemma ike_suite_loop_safe [simp]: "safe (ike_suite_loop ts seen s)"
  by (induction ts seen s rule: ike_suite_loop.induct) (auto simp: Let_def)

text \<open>The four checks at the end of \<open>parseIKESuite\<close> as one.\<close>

lemma parseIKESuite_checks:
  "parseIKESuite item =
     (if pr_Protocol item = protocolIKE \<and> pr_SPI item = []
      then rbind (ike_suite_loop (pr_Transforms item) [] no_suite) (\<lambda>suite.
        if supported_suite suite then Inr suite else Inl (Fail ErrUnsupportedSuite))
      else Inl (Fail ErrUnsupportedSuite))"
proof -
  have "(if EncryptionID suite \<noteq> encryptionAESCBC
           \<or> EncryptionBits suite \<noteq> 128 \<and> EncryptionBits suite \<noteq> 256
        then Inl (Fail ErrUnsupportedSuite)
        else if PRFID suite \<noteq> prfHMACSHA1 \<and> PRFID suite \<noteq> prfHMACSHA256
        then Inl (Fail ErrUnsupportedSuite)
        else if IntegrityID suite \<noteq> integrityHMACSHA1_96 \<and> IntegrityID suite \<noteq> integrityHMACSHA256_128
        then Inl (Fail ErrUnsupportedSuite)
        else if DHID suite \<noteq> dhMODP1024 \<and> DHID suite \<noteq> dhMODP2048
        then Inl (Fail ErrUnsupportedSuite)
        else Inr suite)
      = (if supported_suite suite then Inr suite else Inl (Fail ErrUnsupportedSuite))" for suite
    unfolding supported_suite_def insert_iff empty_iff simp_thms
    by (cases "PRFID suite = prfHMACSHA1"; cases "IntegrityID suite = integrityHMACSHA1_96";
        cases "DHID suite = dhMODP1024"; cases "EncryptionBits suite = 128") simp_all
  then show ?thesis by (simp add: parseIKESuite_def)
qed

lemma parseIKESuite_safe [simp]: "safe (parseIKESuite item)"
  by (auto simp: parseIKESuite_def)

subsection \<open>Notifications\<close>

definition makeNotify :: "16 word \<Rightarrow> byte list \<Rightarrow> payload" where
  "makeNotify notifyType data =
     \<lparr>Type = payloadNotify, Critical = False, Body = [0, 0] @ put_be16 notifyType @ data\<rparr>"

definition parseNotify :: "payload \<Rightarrow> (ike_err, 16 word \<times> byte list) res" where
  "parseNotify item =
     (if Type item \<noteq> payloadNotify \<or> length (Body item) < 4 then Inl (Fail ErrMalformed)
      else rbind (idx (Body item) 1) (\<lambda>s.
        let spiSize = unat s in
        if 4 + spiSize > length (Body item) then Inl (Fail ErrMalformed)
        else rbind (u16_at (Body item) 2) (\<lambda>kind.
             rbind (slice (Body item) (4 + spiSize) (length (Body item))) (\<lambda>data.
               Inr (kind, data)))))"

lemma parse_makeNotify [simp]: "parseNotify (makeNotify kind data) = Inr (kind, data)"
  by (simp add: parseNotify_def makeNotify_def put_be16_def)

lemma parseNotify_safe [simp]: "safe (parseNotify item)"
  by (auto simp: parseNotify_def Let_def)

subsection \<open>Properties\<close>

text \<open>
  A datagram is parsed back into the header and the body it was built from: for eight-octet
  SPIs, version 2.0 and a body that fits the 32-bit length, \<open>parseIKEPacket\<close> of the marshalled
  packet gives the header with its length filled in and exactly the body.
\<close>

theorem ike_packet_roundtrip:
  assumes "length (InitiatorSPI header) = 8" "length (ResponderSPI header) = 8"
    and "Version header \<in> {0, 0x20}" "28 + length body < 2 ^ 32"
  shows "parseIKEPacket (marshal_packet header body)
    = Inr (header\<lparr>Version := 0x20, Length := of_nat (28 + length body)\<rparr>, body)"
proof -
  have "marshal_packet header body = marshal_packet (header\<lparr>Version := 0x20\<rparr>) body"
    using assms(3) by (auto simp: marshal_packet_def)
  then show ?thesis
    using parse_marshal_packet [of "header\<lparr>Version := 0x20\<rparr>" body] assms(1,2,4) by simp
qed

theorem ike_packet_roundtrip_witness:
  "parseIKEPacket (marshal_packet \<lparr>InitiatorSPI = [1, 2, 3, 4, 5, 6, 7, 8],
      ResponderSPI = replicate 8 0, NextPayload = 33, Version = 0, Exchange = 34, Flags = 8,
      MessageID = 0, Length = 0\<rparr> [9, 9])
    = Inr (\<lparr>InitiatorSPI = [1, 2, 3, 4, 5, 6, 7, 8], ResponderSPI = replicate 8 0,
      NextPayload = 33, Version = 0x20, Exchange = 34, Flags = 8, MessageID = 0, Length = 30\<rparr>, [9, 9])"
  using ike_packet_roundtrip [of "\<lparr>InitiatorSPI = [1, 2, 3, 4, 5, 6, 7, 8],
      ResponderSPI = replicate 8 0, NextPayload = 33, Version = 0, Exchange = 34, Flags = 8,
      MessageID = 0, Length = 0\<rparr>" "[9, 9]"]
  by simp

text \<open>
  A chain of at most 64 payloads that can be marshalled is parsed back into the same payloads,
  types, critical flags and bodies, from the first type the marshaller reports; a notify payload
  built by \<open>makeNotify\<close> gives its type and data back.
\<close>

theorem payload_chain_roundtrip:
  assumes "marshalPayloadChain payloads = Inr (first, encoded)" "length payloads \<le> 64"
  shows "parsePayloadChain first encoded = Inr payloads
    \<and> parseNotify (makeNotify kind data) = Inr (kind, data)"
  using parse_marshal_chain [OF assms] by simp

theorem payload_chain_roundtrip_witness:
  "parsePayloadChain 40 ([41, 0, 0, 6, 7, 8] @ [0, 0x80, 0, 8, 0, 0, 0x40, 0x14])
     = Inr [\<lparr>Type = 40, Critical = False, Body = [7, 8]\<rparr>,
            \<lparr>Type = 41, Critical = True, Body = [0, 0, 0x40, 0x14]\<rparr>]
   \<and> parseNotify (makeNotify 16404 []) = Inr (16404, [])"
  using payload_chain_roundtrip [of "[\<lparr>Type = 40, Critical = False, Body = [7, 8]\<rparr>,
      \<lparr>Type = 41, Critical = True, Body = [0, 0, 0x40, 0x14]\<rparr>]" 40
      "[41, 0, 0, 6, 7, 8] @ [0, 0x80, 0, 8, 0, 0, 0x40, 0x14]" 16404 "[]"]
  by (simp add: marshalPayloadChain_def Let_def put_be16_def ike_constants)

text \<open>
  An SA payload is parsed back into the proposals it was built from: for one to sixteen
  proposals with at most 32 transforms each and key lengths below 65536, \<open>parseProposals\<close> is a
  left inverse of \<open>marshalProposals\<close>, chaining markers, counts and attributes included.
\<close>

theorem proposals_roundtrip:
  assumes "marshalProposals proposals = Inr encoded" "list_all proposal_ok proposals"
    and "proposals \<noteq> []" "length proposals \<le> 16"
  shows "parseProposals encoded = Inr proposals"
  using parse_marshal_proposals [OF assms] .

theorem proposals_roundtrip_witness:
  "parseProposals [0, 0, 0, 24, 1, 3, 4, 1, 1, 2, 3, 4, 0, 0, 0, 12, 1, 0, 0, 12, 0x80, 14, 1, 0]
    = Inr [\<lparr>pr_Number = 1, pr_Protocol = 3, pr_SPI = [1, 2, 3, 4],
            pr_Transforms = [\<lparr>tr_Type = 1, tr_ID = 12, tr_KeyLength = 256\<rparr>]\<rparr>]"
proof (rule proposals_roundtrip)
  show "marshalProposals [\<lparr>pr_Number = 1, pr_Protocol = 3, pr_SPI = [1, 2, 3, 4],
      pr_Transforms = [\<lparr>tr_Type = 1, tr_ID = 12, tr_KeyLength = 256\<rparr>]\<rparr>]
    = Inr [0, 0, 0, 24, 1, 3, 4, 1, 1, 2, 3, 4, 0, 0, 0, 12, 1, 0, 0, 12, 0x80, 14, 1, 0]"
    by code_simp
qed (simp_all add: proposal_ok_def transform_ok_def)

text \<open>
  C8: The responder's choice is accepted exactly when it is an IKE proposal without SPI whose
  transforms have distinct types among the four, and the suite read off them is supported; the
  suite is then that choice, value by value.
\<close>

theorem ike_suite_accepted:
  "(\<exists>suite. parseIKESuite item = Inr suite) \<longleftrightarrow>
     pr_Protocol item = protocolIKE \<and> pr_SPI item = []
     \<and> distinct (map tr_Type (pr_Transforms item))
     \<and> set (map tr_Type (pr_Transforms item)) \<subseteq> {1, 2, 3, 4}
     \<and> (\<exists>e p i d. chosen 1 (pr_Transforms item) = Some e \<and> chosen 2 (pr_Transforms item) = Some p
          \<and> chosen 3 (pr_Transforms item) = Some i \<and> chosen 4 (pr_Transforms item) = Some d
          \<and> supported_suite \<lparr>EncryptionID = tr_ID e, EncryptionBits = tr_KeyLength e,
               PRFID = tr_ID p, IntegrityID = tr_ID i, DHID = tr_ID d\<rparr>)"
proof -
  let ?ts = "pr_Transforms item"
  let ?shape = "distinct (map tr_Type ?ts) \<and> set (map tr_Type ?ts) \<subseteq> {1, 2, 3, 4}"
  have loop: "(\<exists>s. ike_suite_loop ?ts [] no_suite = Inr s) \<longleftrightarrow> ?shape"
    using ike_suite_loop_ok [of ?ts "[]" no_suite] ike_suite_loop_Inr [of ?ts "[]" no_suite] by auto
  have accept: "parseIKESuite item = Inr s \<longleftrightarrow> pr_Protocol item = protocolIKE \<and> pr_SPI item = []
      \<and> ike_suite_loop ?ts [] no_suite = Inr s \<and> supported_suite s" for s
    unfolding parseIKESuite_checks by (auto simp: rbind_Inr_iff split: if_splits)
  have fields: "supported_suite s \<longleftrightarrow> (\<exists>e p i d. chosen 1 ?ts = Some e \<and> chosen 2 ?ts = Some p
      \<and> chosen 3 ?ts = Some i \<and> chosen 4 ?ts = Some d
      \<and> supported_suite \<lparr>EncryptionID = tr_ID e, EncryptionBits = tr_KeyLength e,
               PRFID = tr_ID p, IntegrityID = tr_ID i, DHID = tr_ID d\<rparr>)"
    if "ike_suite_loop ?ts [] no_suite = Inr s" for s
    using ike_suite_loop_Inr [OF that]
    by (cases "chosen 1 ?ts"; cases "chosen 2 ?ts"; cases "chosen 3 ?ts"; cases "chosen 4 ?ts")
      (simp_all add: supported_suite_def no_suite_def ike_constants)
  show ?thesis
  proof (cases "\<exists>s. ike_suite_loop ?ts [] no_suite = Inr s")
    case True
    then obtain s where s: "ike_suite_loop ?ts [] no_suite = Inr s" by blast
    show ?thesis using loop True unfolding accept s fields [OF s, symmetric] by simp
  next
    case False
    then have "\<not> ?shape" "\<And>s. ike_suite_loop ?ts [] no_suite \<noteq> Inr s" using loop by blast+
    then show ?thesis unfolding accept by metis
  qed
qed

end
