(* ===== verification/Go_Net.thy ===== *)
theory Go_Net
  imports Prelude
begin

text \<open>
  Addresses and octet strings as numbers: the helpers of Go's packages net and bytes that the
  VoWiFi code calls (\<open>net.IP.To4\<close>, \<open>net.IP.To16\<close>, \<open>bytes.Compare\<close>), and the big-endian value of
  an octet string.  A \<open>net.IP\<close> is its octets, the empty list a nil address.
\<close>

type_synonym net_ip = "byte list"

definition v4_prefix :: "byte list" where
  "v4_prefix = replicate 10 0 @ [0xff, 0xff]"

definition To4 :: "net_ip \<Rightarrow> net_ip option" where
  "To4 ip =
     (if length ip = 4 then Some ip
      else if length ip = 16 \<and> take 12 ip = v4_prefix then Some (drop 12 ip)
      else None)"

definition To16 :: "net_ip \<Rightarrow> net_ip option" where
  "To16 ip =
     (if length ip = 4 then Some (v4_prefix @ ip)
      else if length ip = 16 then Some ip else None)"

fun bytes_compare :: "byte list \<Rightarrow> byte list \<Rightarrow> int" where
  "bytes_compare [] [] = 0"
| "bytes_compare [] (y # ys) = -1"
| "bytes_compare (x # xs) [] = 1"
| "bytes_compare (x # xs) (y # ys) =
     (if x < y then -1 else if x > y then 1 else bytes_compare xs ys)"

subsection \<open>Octet strings as numbers\<close>

definition octets_value :: "byte list \<Rightarrow> nat" where
  "octets_value bs = foldl (\<lambda>v b. 256 * v + unat b) 0 bs"

lemma octets_fold: "foldl (\<lambda>v b. 256 * v + unat b) a (bs :: byte list) = 256 ^ length bs * a + octets_value bs"
proof (induction bs arbitrary: a)
  case (Cons b bs)
  show ?case
    unfolding octets_value_def foldl_Cons Cons.IH [of "256 * a + unat b"] Cons.IH [of "256 * 0 + unat b"]
    by (simp add: algebra_simps)
qed (simp add: octets_value_def)

lemma octets_value_simps [simp]:
  "octets_value [] = 0"
  "octets_value (b # bs) = 256 ^ length bs * unat b + octets_value bs"
  using octets_fold [of "unat b" bs] by (simp_all add: octets_value_def)

lemma octets_value_append: "octets_value (xs @ ys) = 256 ^ length ys * octets_value xs + octets_value ys"
  by (induction xs) (simp_all add: power_add algebra_simps)

lemma octets_value_less: "octets_value bs < 256 ^ length bs"
proof (induction bs)
  case (Cons b bs)
  have "256 ^ length bs * unat b + octets_value bs < 256 ^ length bs * (unat b + 1)"
    using Cons.IH by simp
  also have "\<dots> \<le> 256 ^ length bs * 256"
  proof (rule mult_le_mono2)
    show "unat b + 1 \<le> 256" using unat_byte [of b] by linarith
  qed
  finally show ?case by (simp add: mult.commute)
qed simp

lemma lexicographic_less:
  fixes x y :: nat
  assumes "a < n" "b < n" "x < y"
  shows "n * x + a < n * y + b"
proof -
  have "n * x + a < n * (x + 1)" using assms(1) by simp
  also have "\<dots> \<le> n * y" using assms(3) by (intro mult_le_mono2) simp
  finally show ?thesis by simp
qed

lemma bytes_compare_value:
  assumes "length xs = length ys"
  shows "bytes_compare xs ys \<ge> 0 \<longleftrightarrow> octets_value ys \<le> octets_value xs"
    "bytes_compare xs ys \<le> 0 \<longleftrightarrow> octets_value xs \<le> octets_value ys"
proof -
  have "(bytes_compare xs ys \<ge> 0 \<longleftrightarrow> octets_value ys \<le> octets_value xs)
      \<and> (bytes_compare xs ys \<le> 0 \<longleftrightarrow> octets_value xs \<le> octets_value ys)"
    using assms
  proof (induction xs ys rule: bytes_compare.induct)
    case (4 x xs y ys)
    then have len: "length xs = length ys" by simp
    have b: "octets_value xs < 256 ^ length ys" "octets_value ys < 256 ^ length ys"
      using octets_value_less [of xs] octets_value_less [of ys] len by simp_all
    consider "unat x < unat y" | "unat y < unat x" | "x = y"
      using word_unat_eq_iff [of x y] by linarith
    then show ?case
    proof cases
      case 1
      then show ?thesis using lexicographic_less [OF b 1] len by (simp add: word_less_nat_alt)
    next
      case 2
      then show ?thesis using lexicographic_less [OF b(2,1) 2] len by (simp add: word_less_nat_alt)
    next
      case 3
      then show ?thesis using 4 by simp
    qed
  qed simp_all
  then show "bytes_compare xs ys \<ge> 0 \<longleftrightarrow> octets_value ys \<le> octets_value xs"
    "bytes_compare xs ys \<le> 0 \<longleftrightarrow> octets_value xs \<le> octets_value ys" by simp_all
qed

text \<open>\<open>big.Int.FillBytes\<close> panics when the number does not fit its buffer.\<close>

definition fill_bytes :: "nat \<Rightarrow> nat \<Rightarrow> ('e, byte list) res" where
  "fill_bytes n v =
     (if v < 256 ^ n then Inr (map (\<lambda>i. of_nat (v div 256 ^ (n - 1 - i))) [0..<n]) else Inl Panic)"

lemma octets_value_fill:
  assumes "fill_bytes n v = Inr bs"
  shows "length bs = n" "octets_value bs = v"
proof -
  have v: "v < 256 ^ n" and bs: "bs = map (\<lambda>i. of_nat (v div 256 ^ (n - 1 - i))) [0..<n]"
    using assms by (simp_all add: fill_bytes_def split: if_splits)
  show "length bs = n" by (simp add: bs)
  have "octets_value (map (\<lambda>i. of_nat (v div 256 ^ (n - 1 - i))) [n - k..<n]) = v mod 256 ^ k" if "k \<le> n" for k
    using that
  proof (induction k)
    case (Suc k)
    have split: "[n - Suc k..<n] = (n - Suc k) # [n - k..<n]"
      using Suc.prems by (simp add: upt_conv_Cons Suc_diff_Suc)
    have "unat (of_nat (v div 256 ^ k) :: byte) = v div 256 ^ k mod 256"
      by (simp add: unat_of_nat take_bit_eq_mod)
    then show ?case
      using Suc mod_mult2_eq [of v "256 ^ k" 256] by (simp add: split mult.commute)
  qed simp
  from this [of n] show "octets_value bs = v" using v by (simp add: bs)
qed

lemma fill_bytes_ok: "v < 256 ^ n \<Longrightarrow> \<exists>bs. fill_bytes n v = Inr bs"
  by (simp add: fill_bytes_def)

end
