(* ===== verification/Ike_Child.thy ===== *)
theory Ike_Child
  imports Ike_Wire Go_Text Go_Net
begin

text \<open>
  The CHILD_SA part of the IKE exchange, \<open>internal/vowifi/ike/child.go\<close>: ESP suite, traffic
  selectors and the configuration payload, and the device identity notification of
  \<open>ike3gpp.go\<close>.
\<close>

datatype child_err =
    ErrSuite | ErrSelectorTruncated | ErrSelectorLength | ErrSelectorType | ErrSelectorTrailing
  | ErrConfigMissing | ErrConfigTruncated | ErrConfigLength | ErrConfigIPv6 | ErrConfigPrefix
  | ErrDeviceIdentity | ErrNotify

subsection \<open>The ESP suite\<close>

record espSuite =
  es_EncryptionID :: "16 word"
  es_EncryptionBits :: int
  es_IntegrityID :: "16 word"
  es_ESN :: "16 word"

definition esp_encryptionKeyLength :: "espSuite \<Rightarrow> (child_err, nat) res" where
  "esp_encryptionKeyLength suite =
     (if es_EncryptionID suite \<noteq> encryptionAESCBC
         \<or> es_EncryptionBits suite \<noteq> 128 \<and> es_EncryptionBits suite \<noteq> 256
      then Inl (Fail ErrSuite) else Inr (nat (es_EncryptionBits suite div 8)))"

definition esp_integrityKeyLength :: "espSuite \<Rightarrow> (child_err, nat) res" where
  "esp_integrityKeyLength suite =
     (if es_IntegrityID suite = integrityHMACSHA1_96 then Inr 20
      else if es_IntegrityID suite = integrityHMACSHA256_128 then Inr 32
      else Inl (Fail ErrSuite))"

fun esp_suite_loop :: "transform list \<Rightarrow> byte list \<Rightarrow> espSuite \<Rightarrow> (child_err, espSuite) res" where
  "esp_suite_loop [] seen suite = Inr suite"
| "esp_suite_loop (candidate # rest) seen suite =
     (if tr_Type candidate \<in> set seen then Inl (Fail ErrSuite)
      else
        let seen' = tr_Type candidate # seen in
        if tr_Type candidate = 1 then
          esp_suite_loop rest seen' (suite\<lparr>es_EncryptionID := tr_ID candidate,
                                          es_EncryptionBits := tr_KeyLength candidate\<rparr>)
        else if tr_Type candidate = 3 then
          esp_suite_loop rest seen' (suite\<lparr>es_IntegrityID := tr_ID candidate\<rparr>)
        else if tr_Type candidate = 5 then
          esp_suite_loop rest seen' (suite\<lparr>es_ESN := tr_ID candidate\<rparr>)
        else Inl (Fail ErrSuite))"

definition parseESPSuite :: "proposal \<Rightarrow> (child_err, espSuite) res" where
  "parseESPSuite item =
     (if pr_Protocol item \<noteq> protocolESP \<or> length (pr_SPI item) \<noteq> 4 then Inl (Fail ErrSuite)
      else rbind (esp_suite_loop (pr_Transforms item) []
               \<lparr>es_EncryptionID = 0, es_EncryptionBits = 0, es_IntegrityID = 0, es_ESN = 0\<rparr>) (\<lambda>suite.
           rbind (esp_encryptionKeyLength suite) (\<lambda>_.
           rbind (esp_integrityKeyLength suite) (\<lambda>_.
             if es_ESN suite \<noteq> 0 then Inl (Fail ErrSuite) else Inr suite))))"

definition espSuiteNames :: "espSuite \<Rightarrow> gostring \<times> gostring" where
  "espSuiteNames suite =
     (let bits = es_EncryptionBits suite in
      (str ''aes-cbc-'' @ (if bits < 0 then 45 # itoa (nat (- bits)) else itoa (nat bits)),
       if es_IntegrityID suite = integrityHMACSHA1_96 then str ''hmac-sha1-96''
       else if es_IntegrityID suite = integrityHMACSHA256_128 then str ''hmac-sha2-256-128'' else []))"

subsection \<open>Traffic selectors\<close>

record trafficSelector =
  ts_IPProtocol :: byte
  ts_StartPort :: "16 word"
  ts_EndPort :: "16 word"
  ts_StartIP :: net_ip
  ts_EndIP :: net_ip

definition any_selector :: "bool \<Rightarrow> byte list" where
  "any_selector ipv6 =
     (if ipv6 then [8, 0] @ put_be16 40 @ [0, 0] @ put_be16 65535 @ replicate 16 0 @ replicate 16 0xff
      else [7, 0] @ put_be16 16 @ [0, 0] @ put_be16 65535 @ replicate 4 0 @ replicate 4 0xff)"

definition anyTrafficSelector :: "bool \<Rightarrow> payload" where
  "anyTrafficSelector ipv6 = \<lparr>Type = 0, Critical = False, Body = [1, 0, 0, 0] @ any_selector ipv6\<rparr>"

definition dualStackTrafficSelectors :: "byte \<Rightarrow> payload" where
  "dualStackTrafficSelectors kind =
     \<lparr>Type = kind, Critical = False,
      Body = [2, 0, 0, 0] @ drop 4 (Body (anyTrafficSelector False))
             @ drop 4 (Body (anyTrafficSelector True))\<rparr>"

definition read_selector :: "byte list \<Rightarrow> nat \<Rightarrow> nat \<Rightarrow> (child_err, trafficSelector) res" where
  "read_selector body offset len =
     rbind (idx body (offset + 1)) (\<lambda>protocol.
     rbind (u16_at body (offset + 4)) (\<lambda>startPort.
     rbind (u16_at body (offset + 6)) (\<lambda>endPort.
     rbind (idx body offset) (\<lambda>kind.
       let build = (\<lambda>n. rbind (slice body (offset + 8) (offset + 8 + n)) (\<lambda>a.
                        rbind (slice body (offset + 8 + n) (offset + 8 + 2 * n)) (\<lambda>b.
                          Inr \<lparr>ts_IPProtocol = protocol, ts_StartPort = startPort,
                               ts_EndPort = endPort, ts_StartIP = a, ts_EndIP = b\<rparr>)))
       in if kind = 7 then (if len \<noteq> 16 then Inl (Fail ErrSelectorLength) else build 4)
          else if kind = 8 then (if len \<noteq> 40 then Inl (Fail ErrSelectorLength) else build 16)
          else Inl (Fail ErrSelectorType)))))"

fun selector_loop ::
  "byte list \<Rightarrow> nat \<Rightarrow> nat \<Rightarrow> trafficSelector list \<Rightarrow> (child_err, nat \<times> trafficSelector list) res" where
  "selector_loop body 0 offset result = Inr (offset, result)"
| "selector_loop body (Suc count) offset result =
     (if offset + 8 > length body then Inl (Fail ErrSelectorTruncated)
      else rbind (u16_at body (offset + 2)) (\<lambda>l.
        let len = unat l in
        if len < 16 \<or> offset + len > length body then Inl (Fail ErrSelectorLength)
        else rbind (read_selector body offset len) (\<lambda>selector.
          selector_loop body count (offset + len) (result @ [selector]))))"

definition parseTrafficSelectors :: "payload \<Rightarrow> (child_err, trafficSelector list) res" where
  "parseTrafficSelectors item =
     (if length (Body item) < 4 then Inl (Fail ErrSelectorTruncated)
      else rbind (idx (Body item) 0) (\<lambda>count.
           rbind (selector_loop (Body item) (unat count) 4 []) (\<lambda>(offset, result).
             if offset \<noteq> length (Body item) then Inl (Fail ErrSelectorTrailing) else Inr result)))"

subsection \<open>Configuration\<close>

record networkConfiguration =
  LocalIPv4 :: net_ip
  LocalIPv6 :: net_ip
  IPv6Prefix :: byte
  DNS :: "net_ip list"
  PCSCF :: "net_ip list"

definition configurationRequest :: payload where
  "configurationRequest =
     \<lparr>Type = payloadCP, Critical = False,
      Body = [1, 0, 0, 0] @ concat (map (\<lambda>attribute. put_be16 attribute @ [0, 0]) [1, 8, 3, 10, 20, 21, 7])\<rparr>"

definition apply_attribute ::
  "16 word \<Rightarrow> byte list \<Rightarrow> networkConfiguration \<Rightarrow> (child_err, networkConfiguration) res" where
  "apply_attribute kind v c =
     (let k = kind AND 0x7fff; len = length v in
      if k = 1 then Inr (if len = 4 then c\<lparr>LocalIPv4 := v\<rparr> else c)
      else if k = 8 then
        (if len \<noteq> 17 then Inl (Fail ErrConfigIPv6)
         else rbind (idx v 16) (\<lambda>prefix.
           if prefix > 128 then Inl (Fail ErrConfigPrefix)
           else rbind (slice v 0 16) (\<lambda>ip. Inr (c\<lparr>LocalIPv6 := ip, IPv6Prefix := prefix\<rparr>))))
      else if k = 3 then Inr (if len = 4 then c\<lparr>DNS := DNS c @ [v]\<rparr> else c)
      else if k = 10 then Inr (if len = 16 then c\<lparr>DNS := DNS c @ [v]\<rparr> else c)
      else if k = 20 then Inr (if len = 4 then c\<lparr>PCSCF := PCSCF c @ [v]\<rparr> else c)
      else if k = 21 then Inr (if len = 16 then c\<lparr>PCSCF := PCSCF c @ [v]\<rparr> else c)
      else Inr c)"

function config_loop :: "byte list \<Rightarrow> nat \<Rightarrow> networkConfiguration \<Rightarrow> (child_err, networkConfiguration) res" where
  "config_loop body offset c =
     (if \<not> offset < length body then Inr c
      else if offset + 4 > length body then Inl (Fail ErrConfigTruncated)
      else rbind (u16_at body offset) (\<lambda>kind.
           rbind (u16_at body (offset + 2)) (\<lambda>l.
             let offset' = offset + 4; len = unat l in
             if offset' + len > length body then Inl (Fail ErrConfigLength)
             else rbind (slice body offset' (offset' + len)) (\<lambda>v.
                  rbind (apply_attribute kind v c) (\<lambda>c'. config_loop body (offset' + len) c')))))"
  by pat_completeness auto
termination
  by (relation "measure (\<lambda>(body, offset, c). length body - offset)") auto

declare config_loop.simps [simp del]

definition parseConfiguration :: "payload \<Rightarrow> (child_err, networkConfiguration) res" where
  "parseConfiguration item =
     (if Type item \<noteq> payloadCP \<or> length (Body item) < 4 then Inl (Fail ErrConfigMissing)
      else rbind (idx (Body item) 0) (\<lambda>b.
        if b \<noteq> 2 then Inl (Fail ErrConfigMissing)
        else config_loop (Body item) 4
          \<lparr>LocalIPv4 = [], LocalIPv6 = [], IPv6Prefix = 0, DNS = [], PCSCF = []\<rparr>))"

subsection \<open>Device identity\<close>

definition notifyDeviceIdentity :: "16 word" where
  "notifyDeviceIdentity = 41101"

fun identity_requested :: "payload list \<Rightarrow> (ike_err, bool) res" where
  "identity_requested [] = Inr False"
| "identity_requested (item # rest) =
     rbind (parseNotify item) (\<lambda>(kind, _).
       if kind = notifyDeviceIdentity then Inr True else identity_requested rest)"

definition deviceIdentityRequested :: "payload list \<Rightarrow> (ike_err, bool) res" where
  "deviceIdentityRequested payloads = identity_requested (payloadsOfType payloads payloadNotify)"

definition decimalDigits :: "gostring \<Rightarrow> bool" where
  "decimalDigits v \<longleftrightarrow> (\<forall>r \<in> set (runes_of v). 48 \<le> r \<and> r \<le> 57) \<and> v \<noteq> []"

definition identity_octet :: "gostring \<Rightarrow> nat \<Rightarrow> (child_err, byte) res" where
  "identity_octet identity i =
     rbind (idx identity (2 * i)) (\<lambda>low.
     rbind (if 2 * i + 1 < length identity
            then rbind (idx identity (2 * i + 1)) (\<lambda>d. Inr (d - 48)) else Inr 0x0f) (\<lambda>high.
       Inr (push_bit 4 high OR (low - 48))))"

definition deviceIdentityNotify :: "gostring \<Rightarrow> (child_err, payload) res" where
  "deviceIdentityNotify identity0 =
     (let identity = trim_space identity0 in
      if length identity \<noteq> 15 \<and> length identity \<noteq> 16 \<or> \<not> decimalDigits identity
      then Inl (Fail ErrDeviceIdentity)
      else rbind (rmap (identity_octet identity) [0..<8]) (\<lambda>octets.
        Inr (makeNotify notifyDeviceIdentity
               (put_be16 9 @ [if length identity = 16 then 2 else 1] @ octets))))"

subsection \<open>Parsing never reads out of bounds\<close>

lemma esp_suite_loop_safe [simp]: "safe (esp_suite_loop ts seen s)"
  by (induction ts seen s rule: esp_suite_loop.induct) (auto simp: Let_def)

lemma esp_key_lengths_safe [simp]:
  "safe (esp_encryptionKeyLength s)" "safe (esp_integrityKeyLength s)"
  by (simp_all add: esp_encryptionKeyLength_def esp_integrityKeyLength_def)

lemma parseESPSuite_safe [simp]: "safe (parseESPSuite item)"
  by (auto simp: parseESPSuite_def)

lemma read_selector_safe:
  "16 \<le> len \<Longrightarrow> offset + len \<le> length body \<Longrightarrow> safe (read_selector body offset len)"
  by (auto simp: read_selector_def Let_def)

lemma selector_loop_safe [simp]: "safe (selector_loop body count offset result)"
  by (induction body count offset result rule: selector_loop.induct)
    (auto simp: Let_def read_selector_safe)

lemma parseTrafficSelectors_safe [simp]: "safe (parseTrafficSelectors item)"
  by (cases "Body item") (auto simp: parseTrafficSelectors_def split: prod.splits)

lemma apply_attribute_safe [simp]: "safe (apply_attribute kind v c)"
  by (auto simp: apply_attribute_def Let_def)

lemma config_loop_safe [simp]: "safe (config_loop body offset c)"
proof (induction body offset c rule: config_loop.induct)
  case (1 body offset c)
  then show ?case by (subst config_loop.simps) (auto simp: Let_def)
qed

lemma parseConfiguration_safe [simp]: "safe (parseConfiguration item)"
  by (cases "Body item") (auto simp: parseConfiguration_def)

lemma identity_requested_safe [simp]: "safe (identity_requested ps)"
  by (induction ps) (auto split: prod.splits)

subsection \<open>Selectors the client offers\<close>

definition any_v4 :: trafficSelector where
  "any_v4 = \<lparr>ts_IPProtocol = 0, ts_StartPort = 0, ts_EndPort = 65535,
             ts_StartIP = replicate 4 0, ts_EndIP = replicate 4 0xff\<rparr>"

definition any_v6 :: trafficSelector where
  "any_v6 = \<lparr>ts_IPProtocol = 0, ts_StartPort = 0, ts_EndPort = 65535,
             ts_StartIP = replicate 16 0, ts_EndIP = replicate 16 0xff\<rparr>"

lemma any_selectors_parse:
  "parseTrafficSelectors (anyTrafficSelector False) = Inr [any_v4]"
  "parseTrafficSelectors (anyTrafficSelector True) = Inr [any_v6]"
  "parseTrafficSelectors (dualStackTrafficSelectors kind) = Inr [any_v4, any_v6]"
  unfolding dualStackTrafficSelectors_def by code_simp+

subsection \<open>A configuration reply and its attributes\<close>

definition attribute_bytes :: "16 word \<times> byte list \<Rightarrow> byte list" where
  "attribute_bytes a = put_be16 (fst a) @ put_be16 (of_nat (length (snd a))) @ snd a"

fun apply_attributes ::
  "(16 word \<times> byte list) list \<Rightarrow> networkConfiguration \<Rightarrow> (child_err, networkConfiguration) res" where
  "apply_attributes [] c = Inr c"
| "apply_attributes (a # as) c = rbind (apply_attribute (fst a) (snd a) c) (apply_attributes as)"

lemma config_step:
  assumes "offset + 4 \<le> length body"
    and "u16_at body offset = (Inr kind :: (child_err, 16 word) res)"
    and "u16_at body (offset + 2) = (Inr l :: (child_err, 16 word) res)"
    and "offset + 4 + unat l \<le> length body"
    and "slice body (offset + 4) (offset + 4 + unat l) = (Inr v :: (child_err, byte list) res)"
  shows "config_loop body offset c = rbind (apply_attribute kind v c) (config_loop body (offset + 4 + unat l))"
  using assms by (subst config_loop.simps) (simp add: Let_def del: u16_at_ok slice_ok)

lemma config_loop_attributes:
  "list_all (\<lambda>a. length (snd a) < 65536) as \<Longrightarrow>
   config_loop (pre @ concat (map attribute_bytes as)) (length pre) c = apply_attributes as c"
proof (induction as arbitrary: pre c)
  case Nil
  then show ?case by (simp add: config_loop.simps)
next
  case (Cons a as)
  let ?rest = "concat (map attribute_bytes as)"
  let ?n = "length (snd a)"
  have u: "unat (of_nat ?n :: 16 word) = ?n" using Cons.prems by (intro unat_be16_back) simp
  define enc where "enc = attribute_bytes a @ ?rest"
  have reads: "u16_at enc 0 = Inr (fst a)" "u16_at enc 2 = Inr (of_nat ?n)"
    "slice enc 4 (4 + ?n) = Inr (snd a)"
    by (simp_all add: enc_def attribute_bytes_def put_be16_def)
  have read0: "u16_at (pre @ enc) (length pre) = Inr (fst a)"
    using at_offset(5) [of pre enc 0] unfolding reads by simp
  have len: "length (pre @ enc) = length pre + 4 + ?n + length ?rest"
    by (simp add: enc_def attribute_bytes_def)
  have "config_loop (pre @ enc) (length pre) c
      = rbind (apply_attribute (fst a) (snd a) c) (config_loop (pre @ enc) (length pre + 4 + ?n))"
  proof -
    have "config_loop (pre @ enc) (length pre) c = rbind (apply_attribute (fst a) (snd a) c)
        (config_loop (pre @ enc) (length pre + 4 + unat (of_nat ?n :: 16 word)))"
    proof (rule config_step [OF _ read0])
      show "u16_at (pre @ enc) (length pre + 2) = Inr (of_nat ?n)" unfolding at_offset reads ..
      show "slice (pre @ enc) (length pre + 4) (length pre + 4 + unat (of_nat ?n :: 16 word)) = Inr (snd a)"
        unfolding u add.assoc at_offset reads ..
    qed (use len u in simp_all)
    then show ?thesis by (simp only: u)
  qed
  also have "config_loop (pre @ enc) (length pre + 4 + ?n) = apply_attributes as"
  proof
    fix c'
    have "length (pre @ attribute_bytes a) = length pre + 4 + ?n" by (simp add: attribute_bytes_def)
    then show "config_loop (pre @ enc) (length pre + 4 + ?n) c' = apply_attributes as c'"
      using Cons.IH [of "pre @ attribute_bytes a" c'] Cons.prems by (simp add: enc_def add.assoc)
  qed
  finally show ?case by (simp add: enc_def)
qed

subsection \<open>What the configuration reply means\<close>

text \<open>An attribute the code accepts; only the address of IPv6 is checked.\<close>

definition attribute_ok :: "16 word \<times> byte list \<Rightarrow> bool" where
  "attribute_ok a \<longleftrightarrow>
     (fst a AND 0x7fff = 8 \<longrightarrow> length (snd a) = 17 \<and> snd a ! 16 \<le> 128)"

definition values_of :: "(16 word \<times> nat) list \<Rightarrow> (16 word \<times> byte list) list \<Rightarrow> byte list list" where
  "values_of kinds as = map snd (filter (\<lambda>a. (fst a AND 0x7fff, length (snd a)) \<in> set kinds) as)"

lemma values_of_simps [simp]:
  "values_of kinds [] = []"
  "values_of kinds (a # as) =
     (if (fst a AND 0x7fff, length (snd a)) \<in> set kinds then snd a # values_of kinds as else values_of kinds as)"
  by (simp_all add: values_of_def)

lemma apply_attribute_ok:
  "(\<exists>c'. apply_attribute (fst a) (snd a) c = Inr c') \<longleftrightarrow> attribute_ok a"
  by (auto simp: apply_attribute_def attribute_ok_def Let_def not_le rbind_Inr_iff)

lemma apply_attributes_ok:
  "(\<exists>c'. apply_attributes as c = Inr c') \<longleftrightarrow> list_all attribute_ok as"
proof (induction as arbitrary: c)
  case (Cons a as)
  then show ?case
    using apply_attribute_ok [of a c] by (cases "apply_attribute (fst a) (snd a) c") auto
qed simp

lemma apply_attribute_fields:
  assumes "apply_attribute (fst a) (snd a) c = Inr c'"
  shows "DNS c' = DNS c @ values_of [(3, 4), (10, 16)] [a]"
    "PCSCF c' = PCSCF c @ values_of [(20, 4), (21, 16)] [a]"
    "LocalIPv4 c' = last (LocalIPv4 c # values_of [(1, 4)] [a])"
    "LocalIPv6 c' = last (LocalIPv6 c # map (take 16) (values_of [(8, 17)] [a]))"
    "IPv6Prefix c' = last (IPv6Prefix c # map (\<lambda>v. v ! 16) (values_of [(8, 17)] [a]))"
  using assms by (auto simp: apply_attribute_def Let_def rbind_Inr_iff split: if_splits)

lemma last_cons_append: "last (last (x # xs) # ys) = last (x # xs @ ys)"
  by (cases ys) auto

lemma values_of_Cons: "values_of k (a # as) = values_of k [a] @ values_of k as"
  by simp

lemma apply_attributes_fields:
  assumes "apply_attributes as c = Inr c'"
  shows "DNS c' = DNS c @ values_of [(3, 4), (10, 16)] as
    \<and> PCSCF c' = PCSCF c @ values_of [(20, 4), (21, 16)] as
    \<and> LocalIPv4 c' = last (LocalIPv4 c # values_of [(1, 4)] as)
    \<and> LocalIPv6 c' = last (LocalIPv6 c # map (take 16) (values_of [(8, 17)] as))
    \<and> IPv6Prefix c' = last (IPv6Prefix c # map (\<lambda>v. v ! 16) (values_of [(8, 17)] as))"
  using assms
proof (induction as arbitrary: c)
  case (Cons a as)
  then obtain d where d: "apply_attribute (fst a) (snd a) c = Inr d" and "apply_attributes as d = Inr c'"
    by (auto simp: rbind_Inr_iff)
  note Cons.IH [OF this(2)]
  then show ?case
    unfolding values_of_Cons [of _ a as] map_append
      apply_attribute_fields [OF d] last_cons_append append_assoc .
qed simp

subsection \<open>Device identity digits\<close>

definition digits :: "gostring \<Rightarrow> bool" where
  "digits s \<longleftrightarrow> list_all (\<lambda>b. 48 \<le> b \<and> b \<le> 57) s"

text \<open>The digits of an octet, low half first, as TS 24.302 reads them.\<close>

definition octet_digits :: "byte \<Rightarrow> gostring" where
  "octet_digits b = [48 + (b AND 0x0f), 48 + drop_bit 4 b]"

lemma digits_graphic: "digits s \<Longrightarrow> graphic s"
  by (auto simp: digits_def graphic_def list_all_iff word_le_nat_alt)

lemma digits_ascii: "digits s \<Longrightarrow> is_ascii s"
  by (auto simp: digits_def is_ascii_def list_all_iff word_le_nat_alt)

lemma digits_decimal: "digits s \<Longrightarrow> s \<noteq> [] \<Longrightarrow> decimalDigits s"
  by (auto simp: decimalDigits_def runes_of_ascii [OF digits_ascii])
    (auto simp: digits_def list_all_iff word_le_nat_alt)

definition digit_pair :: "gostring \<Rightarrow> nat \<Rightarrow> byte" where
  "digit_pair s i =
     push_bit 4 (if 2 * i + 1 < length s then s ! (2 * i + 1) - 48 else 0x0f) OR (s ! (2 * i) - 48)"

lemma identity_octet_ok: "2 * i < length s \<Longrightarrow> identity_octet s i = Inr (digit_pair s i)"
  by (simp add: identity_octet_def digit_pair_def)

lemma half_octets:
  fixes low high :: byte
  assumes "low < 16" "high < 16"
  shows "(push_bit 4 high OR low) AND 0x0f = low" "drop_bit 4 (push_bit 4 high OR low) = high"
proof -
  have all: "\<forall>l \<in> set (map of_nat [0..<16]). \<forall>h \<in> set (map of_nat [0..<16]).
      (push_bit 4 h OR l) AND 0x0f = (l :: byte) \<and> drop_bit 4 (push_bit 4 h OR l) = (h :: byte)"
    by code_simp
  have "b \<in> set (map of_nat [0..<16])" if "b < 16" for b :: byte
  proof -
    have "b = of_nat (unat b)" by simp
    moreover have "unat b < 16" using that by (simp add: word_less_nat_alt)
    ultimately show ?thesis by (metis atLeast0LessThan imageI lessThan_iff list.set_map set_upt)
  qed
  then show "(push_bit 4 high OR low) AND 0x0f = low" "drop_bit 4 (push_bit 4 high OR low) = high"
    using all assms by blast+
qed

lemma digit_small: "48 \<le> b \<Longrightarrow> b \<le> 57 \<Longrightarrow> b - 48 < (16 :: byte)"
  by (simp add: word_le_nat_alt word_less_nat_alt unat_sub)

lemma digit_pair_digits:
  assumes "digits s" "2 * i < length s"
  shows "octet_digits (digit_pair s i) =
    [s ! (2 * i), if 2 * i + 1 < length s then s ! (2 * i + 1) else 63]"
proof -
  have d: "48 \<le> s ! j" "s ! j \<le> 57" if "j < length s" for j
    using assms(1) that by (simp_all add: digits_def list_all_length)
  let ?high = "if 2 * i + 1 < length s then s ! (2 * i + 1) - 48 else 0x0f"
  have "s ! (2 * i) - 48 < 16" "?high < 16"
    using d digit_small assms(2) by simp_all
  note half_octets [OF this]
  then show ?thesis by (simp add: octet_digits_def digit_pair_def)
qed

lemma identity_octets:
  "length s \<in> {15, 16} \<Longrightarrow> rmap (identity_octet s) [0..<8] = Inr (map (digit_pair s) [0..<8])"
  by (intro rmap_ok identity_octet_ok) auto

lemma identity_octets_digits:
  assumes "digits s" "length s \<in> {15, 16}"
  shows "take (length s) (concat (map octet_digits (map (digit_pair s) [0..<8]))) = s"
proof -
  have pairs: "map octet_digits (map (digit_pair s) [0..<8])
      = map (\<lambda>i. [s ! (2 * i), if 2 * i + 1 < length s then s ! (2 * i + 1) else 63]) [0..<8]"
    using assms by (auto simp: digit_pair_digits)
  have "length s = 15 \<or> length s = 16" using assms(2) by auto
  then show ?thesis
    unfolding pairs by (auto simp: length_Suc_conv upt_rec numeral_eq_Suc)
qed

lemma deviceIdentityNotify_safe [simp]: "safe (deviceIdentityNotify identity)"
  using identity_octets [of "trim_space identity"] by (auto simp: deviceIdentityNotify_def Let_def)

subsection \<open>Properties\<close>

text \<open>
  No payload the responder sends makes the parsers of the CHILD_SA answer panic or loop: the
  suite of an ESP proposal, the traffic selectors, the configuration reply and the search for a
  device identity request all return; building the device identity returns as well, and no datagram,
  payload or SA body makes a parser of the wire format itself panic or loop.
\<close>

theorem child_parsers_total:
  "safe (parseESPSuite chosen_proposal) \<and> safe (parseTrafficSelectors item)
   \<and> safe (parseConfiguration item) \<and> safe (deviceIdentityRequested payloads)
   \<and> safe (deviceIdentityNotify identity)
   \<and> safe (parseIKEPacket packet) \<and> safe (parsePayloadChain first packet)
   \<and> safe (parseProposals packet) \<and> safe (parseNotify item)
   \<and> safe (onePayload payloads kind) \<and> safe (parseIKESuite chosen_proposal)"
  by (simp add: deviceIdentityRequested_def)

text \<open>
  The traffic selectors the client offers are well formed for its own parser and cover every
  address, port and protocol: the dual stack payload carries the full IPv4 and the full IPv6 range,
  the single payloads one of them.
\<close>

theorem offered_selectors:
  "parseTrafficSelectors (dualStackTrafficSelectors kind) = Inr [any_v4, any_v6]
   \<and> parseTrafficSelectors (anyTrafficSelector ipv6) = Inr [if ipv6 then any_v6 else any_v4]"
  by (cases ipv6) (simp_all add: any_selectors_parse)

text \<open>A reply the responder builds from attributes; three octets are reserved.\<close>

definition reply_payload :: "bool \<Rightarrow> byte \<Rightarrow> (16 word \<times> byte list) list \<Rightarrow> payload" where
  "reply_payload crit r as =
     \<lparr>Type = payloadCP, Critical = crit, Body = [2, r, r, r] @ concat (map attribute_bytes as)\<rparr>"

text \<open>
  A configuration reply is read attribute by attribute.  It is accepted exactly when every IPv6
  address attribute has 17 octets and a prefix of at most 128; then DNS and P-CSCF servers are those
  of the well-sized attributes in their order, both families together, and the addresses are the
  last ones given.
\<close>

theorem configuration_reply:
  assumes "list_all (\<lambda>a. length (snd a) < 65536) as"
  shows "((\<exists>c. parseConfiguration (reply_payload crit r as) = Inr c) \<longleftrightarrow> list_all attribute_ok as)
    \<and> (\<forall>c. parseConfiguration (reply_payload crit r as) = Inr c \<longrightarrow>
         DNS c = values_of [(3, 4), (10, 16)] as \<and> PCSCF c = values_of [(20, 4), (21, 16)] as
         \<and> LocalIPv4 c = last ([] # values_of [(1, 4)] as)
         \<and> LocalIPv6 c = last ([] # map (take 16) (values_of [(8, 17)] as))
         \<and> IPv6Prefix c = last (0 # map (\<lambda>v. v ! 16) (values_of [(8, 17)] as)))"
proof -
  let ?empty = "\<lparr>LocalIPv4 = [], LocalIPv6 = [], IPv6Prefix = 0, DNS = [], PCSCF = []\<rparr>"
  have "parseConfiguration (reply_payload crit r as) = apply_attributes as ?empty"
    using config_loop_attributes [OF assms(1), of "[2, r, r, r]"]
    by (simp add: parseConfiguration_def reply_payload_def eval_nat_numeral)
  then show ?thesis
    using apply_attributes_ok [of as ?empty] apply_attributes_fields [of as ?empty] by simp
qed

theorem configuration_reply_witness:
  "\<exists>c. parseConfiguration \<lparr>Type = 47, Critical = False,
         Body = [2, 0, 0, 0, 0, 1, 0, 4, 10, 0, 0, 7, 0, 3, 0, 4, 8, 8, 8, 8, 0, 20, 0, 4, 10, 9, 9, 9]\<rparr> = Inr c
     \<and> LocalIPv4 c = [10, 0, 0, 7] \<and> DNS c = [[8, 8, 8, 8]] \<and> PCSCF c = [[10, 9, 9, 9]]"
proof -
  let ?as = "[(1, [10, 0, 0, 7]), (3, [8, 8, 8, 8]), (20, [10, 9, 9, 9])] :: (16 word \<times> byte list) list"
  have reply: "\<lparr>Type = 47, Critical = False,
      Body = [2, 0, 0, 0, 0, 1, 0, 4, 10, 0, 0, 7, 0, 3, 0, 4, 8, 8, 8, 8, 0, 20, 0, 4, 10, 9, 9, 9]\<rparr>
      = reply_payload False 0 ?as"
    by (simp add: reply_payload_def payloadCP_def attribute_bytes_def put_be16_def)
  have "(\<exists>c. parseConfiguration (reply_payload False 0 ?as) = Inr c)"
    using configuration_reply [of ?as False 0] by (simp add: attribute_ok_def)
  then show ?thesis
    unfolding reply using configuration_reply [of ?as False 0] by auto
qed

text \<open>
  The device identity notification carries the whole identity: for an IMEI of 15 or an IMEISV of
  16 digits it has notify type 41101, length octets 0 and 9, type 1 or 2, and eight octets whose
  halves, low half first, are the digits in order.
\<close>

theorem device_identity_digits:
  assumes "digits identity" "length identity \<in> {15, 16}"
  shows "\<exists>octets. deviceIdentityNotify identity
      = Inr (makeNotify 41101 ([0, 9, if length identity = 16 then 2 else 1] @ octets))
    \<and> length octets = 8 \<and> take (length identity) (concat (map octet_digits octets)) = identity"
proof -
  have "identity \<noteq> []" using assms(2) by auto
  then have "decimalDigits identity" "trim_space identity = identity"
    using assms(1) by (simp_all add: digits_decimal digits_graphic)
  then show ?thesis
    using identity_octets [OF assms(2)] identity_octets_digits [OF assms] assms(2)
    by (intro exI [of _ "map (digit_pair identity) [0..<8]"])
      (auto simp: deviceIdentityNotify_def Let_def notifyDeviceIdentity_def put_be16_def)
qed

theorem device_identity_digits_witness:
  "\<exists>octets. deviceIdentityNotify (str ''490154203237518'')
      = Inr (makeNotify 41101 ([0, 9, 1] @ octets))
    \<and> take 15 (concat (map octet_digits octets)) = str ''490154203237518''"
proof -
  have d: "digits (str ''490154203237518'')" and l: "length (str ''490154203237518'') = 15"
    by (simp_all add: str_def digits_def)
  then show ?thesis using device_identity_digits [OF d] unfolding l by auto
qed

end
