(* ===== verification/Esp_Packet.thy ===== *)
theory Esp_Packet
  imports Ike_Child
begin

text \<open>
  The inner IP packets of the ESP tunnel (\<open>internal/vowifi/ike/esp.go\<close>): reading version,
  addresses, protocol and ports out of an IPv4 or IPv6 packet, extension headers included, and
  checking them against the negotiated traffic selectors.\<close>

datatype esp_err =
    ErrInnerPacket | ErrPolicyDrop | ErrSequenceExhausted | ErrRandom | ErrESPTruncated | ErrSPI
  | ErrReplay | ErrAlignment | ErrESPAuthentication | ErrPadding | ErrNextHeader | ErrSelectors
  | ErrESPConfig | ErrNilTunnel

subsection \<open>Addresses\<close>

definition normalizeIPRange ::
  "net_ip \<Rightarrow> net_ip \<Rightarrow> net_ip \<Rightarrow> (net_ip \<times> net_ip \<times> net_ip) option" where
  "normalizeIPRange ip start stop =
     (case To4 start of
        Some start4 \<Rightarrow>
          (case (To4 ip, To4 stop) of
             (Some ip4, Some stop4) \<Rightarrow> Some (ip4, start4, stop4)
           | _ \<Rightarrow> None)
      | None \<Rightarrow>
          (case (To16 ip, To16 start, To16 stop) of
             (Some ip16, Some start16, Some stop16) \<Rightarrow>
               if To4 start \<noteq> None \<or> To4 stop \<noteq> None then None else Some (ip16, start16, stop16)
           | _ \<Rightarrow> None))"

definition ipWithinRange :: "net_ip \<Rightarrow> net_ip \<Rightarrow> net_ip \<Rightarrow> bool" where
  "ipWithinRange ip start stop =
     (case normalizeIPRange ip start stop of
        None \<Rightarrow> False
      | Some (nip, nstart, nstop) \<Rightarrow> bytes_compare nip nstart \<ge> 0 \<and> bytes_compare nip nstop \<le> 0)"

fun endpointAllowed :: "net_ip \<Rightarrow> byte \<Rightarrow> 16 word \<Rightarrow> trafficSelector list \<Rightarrow> bool" where
  "endpointAllowed ip proto port [] = False"
| "endpointAllowed ip proto port (selector # rest) =
     (if ts_IPProtocol selector \<noteq> 0 \<and> ts_IPProtocol selector \<noteq> proto then
        endpointAllowed ip proto port rest
      else if port < ts_StartPort selector \<or> port > ts_EndPort selector then
        endpointAllowed ip proto port rest
      else if ipWithinRange ip (ts_StartIP selector) (ts_EndIP selector) then True
      else endpointAllowed ip proto port rest)"

subsection \<open>Inner packets\<close>

record innerPacketMetadata =
  im_source :: net_ip
  im_destination :: net_ip
  im_protocol :: byte
  im_sourcePort :: "16 word"
  im_destinationPort :: "16 word"
  im_nextHeader :: byte

definition packetAllowed ::
  "innerPacketMetadata \<Rightarrow> trafficSelector list \<Rightarrow> trafficSelector list \<Rightarrow> bool" where
  "packetAllowed m sourceSelectors destinationSelectors \<longleftrightarrow>
     endpointAllowed (im_source m) (im_protocol m) (im_sourcePort m) sourceSelectors
     \<and> endpointAllowed (im_destination m) (im_protocol m) (im_destinationPort m) destinationSelectors"

definition parseTransportPorts ::
  "byte list \<Rightarrow> innerPacketMetadata \<Rightarrow> (esp_err, innerPacketMetadata) res" where
  "parseTransportPorts pl m =
     (if im_protocol m \<noteq> 6 \<and> im_protocol m \<noteq> 17 \<or> length pl < 4 then Inr m
      else rbind (u16_at pl 0) (\<lambda>s. rbind (u16_at pl 2) (\<lambda>d.
             Inr (m\<lparr>im_sourcePort := s, im_destinationPort := d\<rparr>))))"

definition parseInnerIPv4 :: "byte list \<Rightarrow> (esp_err, innerPacketMetadata) res" where
  "parseInnerIPv4 packet =
     (if length packet < 20 then Inl (Fail ErrInnerPacket)
      else rbind (idx packet 0) (\<lambda>b0.
        let headerLength = unat (b0 AND 0x0f) * 4 in
        if headerLength < 20 \<or> headerLength > length packet then Inl (Fail ErrInnerPacket)
        else rbind (u16_at packet 2) (\<lambda>total.
          if unat total \<noteq> length packet \<or> unat total < headerLength then Inl (Fail ErrInnerPacket)
          else rbind (slice packet 12 16) (\<lambda>source.
               rbind (slice packet 16 20) (\<lambda>destination.
               rbind (idx packet 9) (\<lambda>protocol.
               rbind (u16_at packet 6) (\<lambda>fragment.
                 let m = \<lparr>im_source = source, im_destination = destination, im_protocol = protocol,
                          im_sourcePort = 0, im_destinationPort = 0, im_nextHeader = 4\<rparr> in
                 if fragment AND 0x1fff = 0 then
                   rbind (slice packet headerLength (length packet)) (\<lambda>pl. parseTransportPorts pl m)
                 else Inr m)))))))"

text \<open>
  The walk over the extension headers: it returns the upper protocol, the offset of its data and
  whether the packet is a first fragment.  Each header takes at least eight octets.
\<close>

function extension_loop ::
  "byte list \<Rightarrow> byte \<Rightarrow> nat \<Rightarrow> bool \<Rightarrow> (esp_err, byte \<times> nat \<times> bool) res" where
  "extension_loop packet protocol offset firstFragment =
     (if protocol = 0 \<or> protocol = 43 \<or> protocol = 60 then
        (if offset + 2 > length packet then Inl (Fail ErrInnerPacket)
         else rbind (idx packet (offset + 1)) (\<lambda>l.
           let len = (unat l + 1) * 8 in
           if len < 8 \<or> offset + len > length packet then Inl (Fail ErrInnerPacket)
           else rbind (idx packet offset) (\<lambda>nxt. extension_loop packet nxt (offset + len) firstFragment)))
      else if protocol = 44 then
        (if offset + 8 > length packet then Inl (Fail ErrInnerPacket)
         else rbind (u16_at packet (offset + 2)) (\<lambda>f.
              rbind (idx packet offset) (\<lambda>nxt.
                extension_loop packet nxt (offset + 8) (f AND 0xfff8 = 0))))
      else if protocol = 51 then
        (if offset + 2 > length packet then Inl (Fail ErrInnerPacket)
         else rbind (idx packet (offset + 1)) (\<lambda>l.
           let len = (unat l + 2) * 4 in
           if len < 8 \<or> offset + len > length packet then Inl (Fail ErrInnerPacket)
           else rbind (idx packet offset) (\<lambda>nxt. extension_loop packet nxt (offset + len) firstFragment)))
      else Inr (protocol, offset, firstFragment))"
  by pat_completeness auto
termination
  by (relation "measure (\<lambda>(packet, protocol, offset, f). length packet - offset)") auto

declare extension_loop.simps [simp del]

definition parseInnerIPv6 :: "byte list \<Rightarrow> (esp_err, innerPacketMetadata) res" where
  "parseInnerIPv6 packet0 =
     (if length packet0 < 40 then Inl (Fail ErrInnerPacket)
      else rbind (u16_at packet0 4) (\<lambda>l.
        let declaredLength = unat l + 40 in
        if declaredLength > length packet0 then Inl (Fail ErrInnerPacket)
        else rbind (slice packet0 0 declaredLength) (\<lambda>packet.
             rbind (slice packet 8 24) (\<lambda>source.
             rbind (slice packet 24 40) (\<lambda>destination.
             rbind (idx packet 6) (\<lambda>protocol0.
             rbind (extension_loop packet protocol0 40 True) (\<lambda>(protocol, offset, firstFragment).
               let m = \<lparr>im_source = source, im_destination = destination, im_protocol = protocol,
                        im_sourcePort = 0, im_destinationPort = 0, im_nextHeader = 41\<rparr> in
               if firstFragment then
                 rbind (slice packet offset (length packet)) (\<lambda>pl. parseTransportPorts pl m)
               else Inr m)))))))"

definition parseInnerPacket :: "byte list \<Rightarrow> (esp_err, innerPacketMetadata) res" where
  "parseInnerPacket packet =
     (if length packet = 0 then Inl (Fail ErrInnerPacket)
      else rbind (idx packet 0) (\<lambda>b0.
        if drop_bit 4 b0 = 4 then parseInnerIPv4 packet
        else if drop_bit 4 b0 = 6 then parseInnerIPv6 packet
        else Inl (Fail ErrInnerPacket)))"

subsection \<open>Reading never leaves the packet\<close>

lemma parseTransportPorts_safe [simp]: "safe (parseTransportPorts pl m)"
  by (auto simp: parseTransportPorts_def)

lemma parseInnerIPv4_safe [simp]: "safe (parseInnerIPv4 packet)"
  by (cases packet) (auto simp: parseInnerIPv4_def Let_def)

lemma extension_loop_safe [simp]: "safe (extension_loop packet protocol offset f)"
proof (induction packet protocol offset f rule: extension_loop.induct)
  case (1 packet protocol offset f)
  then show ?case by (subst extension_loop.simps) (auto simp: Let_def)
qed

lemma extension_loop_step:
  assumes "extension_loop packet protocol offset f = Inr r"
  shows "r = (protocol, offset, f) \<or> (\<exists>nxt offset' f'. offset < offset' \<and> offset' \<le> length packet
    \<and> extension_loop packet nxt offset' f' = Inr r)"
proof (rule ccontr)
  assume n: "\<not> ?thesis"
  then have no: "extension_loop packet nxt offset' f' \<noteq> Inr r"
    if "offset < offset'" "offset' \<le> length packet" for nxt offset' f'
    using that by blast
  show False
    using assms n
    by (subst (asm) extension_loop.simps)
      (auto simp: Let_def rbind_Inr_iff no split: if_splits)
qed

lemma extension_loop_offset:
  "extension_loop packet protocol offset f = Inr r \<Longrightarrow> offset \<le> length packet
     \<Longrightarrow> offset \<le> fst (snd r) \<and> fst (snd r) \<le> length packet"
proof (induction "length packet - offset" arbitrary: protocol offset f rule: less_induct)
  case less
  from extension_loop_step [OF less.prems(1)] show ?case
  proof (elim disjE exE conjE)
    fix nxt offset' f'
    assume step: "offset < offset'" "offset' \<le> length packet"
      and more: "extension_loop packet nxt offset' f' = Inr r"
    then have "length packet - offset' < length packet - offset" by simp
    from less.hyps [OF this more step(2)] step show ?thesis by simp
  qed (use less.prems in simp)
qed

lemma parseInnerIPv6_safe [simp]: "safe (parseInnerIPv6 packet)"
proof (cases "length packet < 40 \<or> length packet < unat (be16 (packet ! 4) (packet ! 5)) + 40")
  case True
  then show ?thesis by (auto simp: parseInnerIPv6_def Let_def)
next
  case False
  then show ?thesis
    by (auto simp: parseInnerIPv6_def Let_def dest!: extension_loop_offset)
qed

lemma parseInnerPacket_safe [simp]: "safe (parseInnerPacket packet)"
  by (cases packet) (auto simp: parseInnerPacket_def)

subsection \<open>Addresses as numbers\<close>

text \<open>An address of either family as a number of 128 bits, IPv4 in its mapped form.\<close>

definition ip_sized :: "net_ip \<Rightarrow> bool" where
  "ip_sized ip \<longleftrightarrow> length ip = 4 \<or> length ip = 16"

definition is_v4 :: "net_ip \<Rightarrow> bool" where
  "is_v4 ip \<longleftrightarrow> To4 ip \<noteq> None"

definition ip_value :: "net_ip \<Rightarrow> nat" where
  "ip_value ip = octets_value (if length ip = 4 then v4_prefix @ ip else ip)"

lemma To16_sized: "ip_sized ip \<Longrightarrow> To16 ip = Some (if length ip = 4 then v4_prefix @ ip else ip)"
  by (auto simp: To16_def ip_sized_def)

lemma To4_value:
  assumes "To4 ip = Some a"
  shows "length a = 4" "ip_value ip = 256 ^ 4 * octets_value v4_prefix + octets_value a"
proof -
  show l: "length a = 4" using assms by (auto simp: To4_def split: if_splits)
  have "(if length ip = 4 then v4_prefix @ ip else ip) = v4_prefix @ a"
    using assms by (auto simp: To4_def split: if_splits) (metis append_take_drop_id)
  then show "ip_value ip = 256 ^ 4 * octets_value v4_prefix + octets_value a"
    using l by (simp add: ip_value_def octets_value_append)
qed

lemma mapped_length: "ip_sized ip \<Longrightarrow> length (if length ip = 4 then v4_prefix @ ip else ip) = 16"
  by (auto simp: v4_prefix_def ip_sized_def)

lemma ipWithinRange_iff:
  assumes "ip_sized ip" "ip_sized start" "ip_sized stop"
  shows "ipWithinRange ip start stop \<longleftrightarrow> is_v4 start = is_v4 stop \<and> (is_v4 start \<longrightarrow> is_v4 ip)
    \<and> ip_value start \<le> ip_value ip \<and> ip_value ip \<le> ip_value stop"
proof (cases "To4 start")
  case None
  show ?thesis
  proof (cases "To4 stop")
    case None
    then show ?thesis
      using assms \<open>To4 start = None\<close>
      by (simp add: ipWithinRange_def normalizeIPRange_def To16_sized is_v4_def
          bytes_compare_value mapped_length ip_value_def [symmetric] del: if_split_eq1)
  next
    case (Some b)
    then show ?thesis
      using assms \<open>To4 start = None\<close>
      by (simp add: ipWithinRange_def normalizeIPRange_def To16_sized is_v4_def)
  qed
next
  case (Some s)
  show ?thesis
  proof (cases "To4 ip"; cases "To4 stop")
    fix a e
    assume ip: "To4 ip = Some a" and stop: "To4 stop = Some e"
    then show ?thesis
      using Some To4_value [OF Some] To4_value [OF ip] To4_value [OF stop]
      by (simp add: ipWithinRange_def normalizeIPRange_def is_v4_def bytes_compare_value)
  qed (use Some in \<open>simp_all add: ipWithinRange_def normalizeIPRange_def is_v4_def\<close>)
qed

text \<open>What a traffic selector selects, by numbers.\<close>

definition selects :: "trafficSelector \<Rightarrow> net_ip \<Rightarrow> byte \<Rightarrow> 16 word \<Rightarrow> bool" where
  "selects sel ip proto port \<longleftrightarrow>
     (ts_IPProtocol sel = 0 \<or> ts_IPProtocol sel = proto)
     \<and> unat (ts_StartPort sel) \<le> unat port \<and> unat port \<le> unat (ts_EndPort sel)
     \<and> is_v4 (ts_StartIP sel) = is_v4 (ts_EndIP sel) \<and> (is_v4 (ts_StartIP sel) \<longrightarrow> is_v4 ip)
     \<and> ip_value (ts_StartIP sel) \<le> ip_value ip \<and> ip_value ip \<le> ip_value (ts_EndIP sel)"

definition selector_sized :: "trafficSelector \<Rightarrow> bool" where
  "selector_sized sel \<longleftrightarrow> ip_sized (ts_StartIP sel) \<and> ip_sized (ts_EndIP sel)"

lemma endpointAllowed_iff:
  "ip_sized ip \<Longrightarrow> list_all selector_sized sels \<Longrightarrow>
   endpointAllowed ip proto port sels \<longleftrightarrow> list_ex (\<lambda>sel. selects sel ip proto port) sels"
  by (induction sels)
    (auto simp: selects_def selector_sized_def ipWithinRange_iff word_less_nat_alt not_less)

definition metadata_sized :: "innerPacketMetadata \<Rightarrow> bool" where
  "metadata_sized m \<longleftrightarrow>
     im_nextHeader m = 4 \<and> length (im_source m) = 4 \<and> length (im_destination m) = 4
     \<or> im_nextHeader m = 41 \<and> length (im_source m) = 16 \<and> length (im_destination m) = 16"

lemma metadata_sized_ips:
  "metadata_sized m \<Longrightarrow> ip_sized (im_source m) \<and> ip_sized (im_destination m)"
  by (auto simp: metadata_sized_def ip_sized_def)

lemma parseTransportPorts_sized:
  "parseTransportPorts pl m = Inr m' \<Longrightarrow> metadata_sized m \<Longrightarrow> metadata_sized m'"
  by (auto simp: parseTransportPorts_def metadata_sized_def rbind_Inr_iff split: if_splits)

lemma parseInnerPacket_sized:
  assumes "parseInnerPacket packet = Inr m"
  shows "metadata_sized m"
  using assms
  by (auto simp: parseInnerPacket_def parseInnerIPv4_def parseInnerIPv6_def Let_def rbind_Inr_iff
      slice_Inr_iff split: if_splits prod.splits elim!: parseTransportPorts_sized)
    (auto simp: metadata_sized_def)




lemma octets_value_replicate:
  "octets_value (replicate n 0) = 0" "octets_value (replicate n 0xff) + 1 = 256 ^ n"
  by (induction n) simp_all

lemma octets_value_prefix: "octets_value v4_prefix = 65535"
  by (simp add: v4_prefix_def octets_value_append octets_value_replicate)

lemma any_families:
  "is_v4 (replicate 4 0)" "is_v4 (replicate 4 0xff)" "\<not> is_v4 (replicate 16 0)"
  "\<not> is_v4 (replicate 16 0xff)"
  unfolding is_v4_def by code_simp+

lemma any_bounds:
  "ip_value (replicate 4 0) = 256 ^ 4 * 65535"
  "ip_value (replicate 4 0xff) = 256 ^ 4 * 65535 + (256 ^ 4 - 1)"
  "ip_value (replicate 16 0) = 0" "ip_value (replicate 16 0xff) = 256 ^ 16 - 1"
  using octets_value_replicate(2) [of 4] octets_value_replicate(2) [of 16]
  by (simp_all add: ip_value_def octets_value_append octets_value_prefix octets_value_replicate)

lemma ip_value_bounds:
  "length ip = 4 \<Longrightarrow> 256 ^ 4 * 65535 \<le> ip_value ip \<and> ip_value ip \<le> 256 ^ 4 * 65535 + (256 ^ 4 - 1)"
  "length ip = 16 \<Longrightarrow> ip_value ip \<le> 256 ^ 16 - 1"
  using octets_value_less [of ip]
  by (simp_all add: ip_value_def octets_value_append octets_value_prefix)

lemma any_selects:
  "length ip = 4 \<Longrightarrow> selects any_v4 ip proto port"
  "ip_sized ip \<Longrightarrow> selects any_v6 ip proto port"
proof -
  have p: "unat port \<le> 65535" using unsigned_less [of port, where ?'a = nat] by simp
  show "length ip = 4 \<Longrightarrow> selects any_v4 ip proto port"
    using p ip_value_bounds(1) [of ip] any_bounds any_families
    by (auto simp: selects_def any_v4_def is_v4_def To4_def)
  show "ip_sized ip \<Longrightarrow> selects any_v6 ip proto port"
    using p ip_value_bounds [of ip] any_bounds any_families by (auto simp: selects_def any_v6_def ip_sized_def)
qed

lemma any_sized: "selector_sized any_v4" "selector_sized any_v6"
  by (simp_all add: selector_sized_def any_v4_def any_v6_def ip_sized_def)

subsection \<open>Properties\<close>

definition sample_packet :: "byte list" where
  "sample_packet = [0x45, 0, 0, 24, 0, 1, 0, 0, 64, 17, 0, 0, 10, 0, 0, 7, 8, 8, 8, 8, 0x13, 0xc4, 0, 53]"

definition sample_metadata :: innerPacketMetadata where
  "sample_metadata = \<lparr>im_source = [10, 0, 0, 7], im_destination = [8, 8, 8, 8], im_protocol = 17,
     im_sourcePort = 5060, im_destinationPort = 53, im_nextHeader = 4\<rparr>"

lemma sample_parses: "parseInnerPacket sample_packet = Inr sample_metadata"
  unfolding sample_metadata_def by code_simp



text \<open>
  The dual stack selectors the client offers admit every well-formed inner packet, IPv4 or IPv6,
  in both directions: when the responder accepts them unchanged, the policy drops nothing.
\<close>

theorem offered_selectors_admit:
  assumes "parseInnerPacket packet = Inr m"
    and "parseTrafficSelectors (dualStackTrafficSelectors kind) = Inr sels"
  shows "packetAllowed m sels sels"
proof -
  have sels: "sels = [any_v4, any_v6]" using assms(2) by (simp add: any_selectors_parse)
  have m: "metadata_sized m" using assms(1) by (rule parseInnerPacket_sized)
  show ?thesis
    using metadata_sized_ips [OF m]
    by (simp add: sels packetAllowed_def endpointAllowed_iff any_sized any_selects del: endpointAllowed.simps)
qed

theorem offered_selectors_admit_witness: "packetAllowed sample_metadata [any_v4, any_v6] [any_v4, any_v6]"
  by (rule offered_selectors_admit [OF sample_parses any_selectors_parse(3) [of 44]])

text \<open>
  A selector of the IPv6 family also selects IPv4 packets: the range check refuses an IPv4 bound
  in an IPv6 range but not an IPv4 address, which it compares in its mapped form.  With the full IPv6
  range alone negotiated, every IPv4 packet passes the policy.
\<close>

theorem ipv6_selector_admits_ipv4:
  assumes "parseInnerPacket packet = Inr m" "im_nextHeader m = 4"
  shows "packetAllowed m [any_v6] [any_v6] \<and> \<not> is_v4 (ts_StartIP any_v6) \<and> is_v4 (im_source m)"
proof -
  have m: "metadata_sized m" using assms(1) by (rule parseInnerPacket_sized)
  then have "length (im_source m) = 4" using assms(2) by (auto simp: metadata_sized_def)
  then have "is_v4 (im_source m)" by (simp add: is_v4_def To4_def)
  moreover have "\<not> is_v4 (ts_StartIP any_v6)" using any_families by (simp add: any_v6_def)
  ultimately show ?thesis
    using metadata_sized_ips [OF m]
    by (simp add: packetAllowed_def endpointAllowed_iff any_sized any_selects del: endpointAllowed.simps)
qed

theorem ipv6_selector_admits_ipv4_witness: "packetAllowed sample_metadata [any_v6] [any_v6]"
  using ipv6_selector_admits_ipv4 [OF sample_parses] by (simp add: sample_metadata_def)

end
