(* ===== verification/Crypto_Env.thy ===== *)
theory Crypto_Env
  imports Prelude
begin

text \<open>
  The cryptographic primitives of Go's standard library that \<open>internal/vowifi/ike\<close> calls:
  HMAC, SHA-1 and AES in CBC mode, as a record of functions.  \<open>crypto_ok\<close> states what the
  code relies on: the sizes of the digests, and that CBC decryption under the same key and
  initialisation vector inverts encryption on whole blocks and keeps the length.  Nothing is
  assumed about secrecy or unforgeability.
\<close>

record crypto =
  hmac_sha1 :: "byte list \<Rightarrow> byte list \<Rightarrow> byte list"
  hmac_sha256 :: "byte list \<Rightarrow> byte list \<Rightarrow> byte list"
  sha1_sum :: "byte list \<Rightarrow> byte list"
  cbc_encrypt :: "byte list \<Rightarrow> byte list \<Rightarrow> byte list \<Rightarrow> byte list"
  cbc_decrypt :: "byte list \<Rightarrow> byte list \<Rightarrow> byte list \<Rightarrow> byte list"

text \<open>\<open>aes.BlockSize\<close>, and the key lengths \<open>aes.NewCipher\<close> accepts.\<close>

abbreviation aes_block :: nat where
  "aes_block \<equiv> 16"

definition aes_key_ok :: "byte list \<Rightarrow> bool" where
  "aes_key_ok key \<longleftrightarrow> length key \<in> {16, 24, 32}"

definition crypto_ok :: "crypto \<Rightarrow> bool" where
  "crypto_ok c \<longleftrightarrow>
     (\<forall>key d. length (hmac_sha1 c key d) = 20) \<and>
     (\<forall>key d. length (hmac_sha256 c key d) = 32) \<and>
     (\<forall>d. length (sha1_sum c d) = 20) \<and>
     (\<forall>key iv text. aes_key_ok key \<longrightarrow> length iv = aes_block \<longrightarrow> aes_block dvd length text \<longrightarrow>
        length (cbc_encrypt c key iv text) = length text
        \<and> length (cbc_decrypt c key iv text) = length text
        \<and> cbc_decrypt c key iv (cbc_encrypt c key iv text) = text)"

lemma crypto_lengths:
  assumes "crypto_ok c"
  shows "length (hmac_sha1 c key d) = 20" "length (hmac_sha256 c key d) = 32"
    "length (sha1_sum c d) = 20"
  using assms by (simp_all add: crypto_ok_def)

lemma crypto_cbc:
  assumes "crypto_ok c" "aes_key_ok key" "length iv = aes_block" "aes_block dvd length text"
  shows "length (cbc_encrypt c key iv text) = length text"
    "length (cbc_decrypt c key iv text) = length text"
    "cbc_decrypt c key iv (cbc_encrypt c key iv text) = text"
  using assms by (simp_all add: crypto_ok_def)

text \<open>
  A concrete instance for witnesses: the cipher adds the first key octet to every octet, the
  digests are the first octets of key and data, padded.
\<close>

definition pad_to :: "nat \<Rightarrow> byte list \<Rightarrow> byte list" where
  "pad_to n xs = take n (xs @ replicate n 0)"

definition plain_crypto :: crypto where
  "plain_crypto =
     \<lparr>hmac_sha1 = (\<lambda>key d. pad_to 20 (rev d @ key)), hmac_sha256 = (\<lambda>key d. pad_to 32 (rev d @ key)),
      sha1_sum = pad_to 20,
      cbc_encrypt = (\<lambda>key iv. map (\<lambda>b. b + hd key)),
      cbc_decrypt = (\<lambda>key iv. map (\<lambda>b. b - hd key))\<rparr>"

lemma length_pad_to [simp]: "length (pad_to n xs) = n"
  by (simp add: pad_to_def)

lemma plain_crypto_ok: "crypto_ok plain_crypto"
  by (simp add: crypto_ok_def plain_crypto_def comp_def)

text \<open>
  \<open>io.ReadFull\<close> on a source of random octets: the source is the octets it still has to give;
  when they do not fill the buffer the call fails and has consumed them.
\<close>

definition read_full :: "nat \<Rightarrow> byte list \<Rightarrow> byte list option \<times> byte list" where
  "read_full n source = (if n \<le> length source then (Some (take n source), drop n source) else (None, []))"

lemma read_full_Some: "read_full n source = (Some bs, rest) \<longleftrightarrow> source = bs @ rest \<and> length bs = n"
  by (auto simp: read_full_def)

text \<open>The padding that completes the last block.\<close>

lemma pad_up:
  fixes b m :: nat
  assumes "0 < b"
  shows "b dvd m + (b - m mod b) mod b"
proof (cases "m mod b = 0")
  case False
  then have "(b - m mod b) mod b = b - m mod b" using assms by (intro mod_less) simp
  moreover have "x + y = m \<Longrightarrow> y < b \<Longrightarrow> m + (b - y) = x + b" for x y :: nat by linarith
  note this [OF mult_div_mod_eq [of b m] mod_less_divisor [OF assms]]
  ultimately show ?thesis by (simp add: dvd_add)
qed (simp add: mod_eq_0_iff_dvd)

end
