(* ===== verification/Esp.thy ===== *)
theory Esp
  imports Esp_Window Esp_Packet Crypto_Env
begin

text \<open>
  The ESP tunnel of \<open>internal/vowifi/ike/esp.go\<close>: sealing and opening packets of one
  direction, the tunnel with its selectors, and its construction from a CHILD_SA.  Each operation
  returns its result and the new state; the mutex of a direction makes it one step.  The AES block
  of a direction is its key, and its source of random octets is the octets that source still gives
  (a nil source is the system's).  Both directions of a tunnel share their source in the code, but
  only the outbound one reads it.
\<close>

subsection \<open>One direction\<close>

definition espHeaderLength :: nat where
  "espHeaderLength = 8"

record espDirection =
  ed_spi :: "32 word"
  ed_block :: "byte list"
  ed_authKey :: "byte list"
  ed_integrity :: gostring
  ed_icvLength :: nat
  ed_random :: "byte list"
  ed_sequence :: "32 word"
  ed_replay :: replayWindow

definition newESPDirection ::
  "32 word \<Rightarrow> byte list \<Rightarrow> byte list \<Rightarrow> gostring \<Rightarrow> gostring \<Rightarrow> byte list \<Rightarrow> (esp_err, espDirection) res" where
  "newESPDirection spi encryptionKey authenticationKey encryption integrity randomSource =
     rbind (if encryption = str ''aes-cbc-128'' then Inr 16
            else if encryption = str ''aes-cbc-256'' then Inr 32
            else Inl (Fail ErrESPConfig)) (\<lambda>expectedEncryptionLength :: nat.
     if length encryptionKey \<noteq> expectedEncryptionLength then Inl (Fail ErrESPConfig)
     else rbind (if integrity = str ''hmac-sha1-96'' then Inr (20, 12)
                 else if integrity = str ''hmac-sha2-256-128'' then Inr (32, 16)
                 else Inl (Fail ErrESPConfig))
            (\<lambda>(expectedAuthenticationLength :: nat, icvLength :: nat).
          if length authenticationKey \<noteq> expectedAuthenticationLength then Inl (Fail ErrESPConfig)
          else if \<not> aes_key_ok encryptionKey then Inl (Fail ErrESPConfig)
          else Inr \<lparr>ed_spi = spi, ed_block = encryptionKey, ed_authKey = authenticationKey,
                    ed_integrity = integrity, ed_icvLength = icvLength, ed_random = randomSource,
                    ed_sequence = 0, ed_replay = empty_window\<rparr>))"

definition authenticationCode :: "crypto \<Rightarrow> espDirection \<Rightarrow> byte list \<Rightarrow> (esp_err, byte list) res" where
  "authenticationCode c direction packet =
     rbind (if ed_integrity direction = str ''hmac-sha1-96'' then Inr (hmac_sha1 c (ed_authKey direction) packet)
            else if ed_integrity direction = str ''hmac-sha2-256-128''
            then Inr (hmac_sha256 c (ed_authKey direction) packet)
            else Inl Panic) (\<lambda>sum. slice sum 0 (ed_icvLength direction))"

definition esp_plaintext :: "byte list \<Rightarrow> byte \<Rightarrow> byte list" where
  "esp_plaintext innerPacket nextHeader =
     (let paddingLength = (aes_block - (length innerPacket + 2) mod aes_block) mod aes_block in
      innerPacket @ map (\<lambda>index. of_nat (index + 1)) [0..<paddingLength]
      @ [of_nat paddingLength, nextHeader])"

definition direction_seal ::
  "crypto \<Rightarrow> espDirection \<Rightarrow> byte list \<Rightarrow> byte \<Rightarrow> (esp_err, byte list) res \<times> espDirection" where
  "direction_seal c direction innerPacket nextHeader =
     (if ed_sequence direction = 0xffffffff then (Inl (Fail ErrSequenceExhausted), direction)
      else
        let sequence = ed_sequence direction + 1;
            plaintext = esp_plaintext innerPacket nextHeader;
            (iv, rest) = read_full aes_block (ed_random direction);
            direction' = direction\<lparr>ed_sequence := sequence, ed_random := rest\<rparr>
        in case iv of
             None \<Rightarrow> (Inl (Fail ErrRandom), direction')
           | Some iv \<Rightarrow>
               let authenticated = put_be32 (ed_spi direction) @ put_be32 sequence @ iv
                     @ cbc_encrypt c (ed_block direction) iv plaintext
               in (rbind (authenticationCode c direction authenticated) (\<lambda>icv. Inr (authenticated @ icv)),
                   direction'))"

fun padding_loop :: "byte list \<Rightarrow> nat \<Rightarrow> nat \<Rightarrow> nat \<Rightarrow> (esp_err, unit) res" where
  "padding_loop plaintext paddingStart index 0 = Inr ()"
| "padding_loop plaintext paddingStart index (Suc n) =
     rbind (idx plaintext (paddingStart + index)) (\<lambda>b.
       if b \<noteq> of_nat (index + 1) then Inl (Fail ErrPadding)
       else padding_loop plaintext paddingStart (Suc index) n)"

text \<open>The plaintext of an authentic packet: padding, next header, then the caller's check.\<close>

definition open_plaintext ::
  "byte list \<Rightarrow> (byte list \<Rightarrow> byte \<Rightarrow> (esp_err, unit) res) \<Rightarrow> (esp_err, byte list) res" where
  "open_plaintext plaintext validate =
     (if length plaintext < 2 then Inl (Fail ErrESPTruncated)
      else rbind (idx plaintext (length plaintext - 2)) (\<lambda>p.
        let paddingLength = unat p in
        if paddingLength > length plaintext - 2 then Inl (Fail ErrPadding)
        else
          let paddingStart = length plaintext - 2 - paddingLength in
          rbind (padding_loop plaintext paddingStart 0 paddingLength) (\<lambda>_.
          rbind (idx plaintext (length plaintext - 1)) (\<lambda>nextHeader.
            if nextHeader \<noteq> 4 \<and> nextHeader \<noteq> 41 then Inl (Fail ErrNextHeader)
            else rbind (slice plaintext 0 paddingStart) (\<lambda>innerPacket.
                 rbind (validate innerPacket nextHeader) (\<lambda>_. Inr innerPacket))))))"

definition open_packet ::
  "crypto \<Rightarrow> espDirection \<Rightarrow> byte list \<Rightarrow> (byte list \<Rightarrow> byte \<Rightarrow> (esp_err, unit) res)
     \<Rightarrow> (esp_err, 32 word \<times> byte list) res" where
  "open_packet c direction packet validate =
     (if length packet < espHeaderLength + aes_block + aes_block + ed_icvLength direction
      then Inl (Fail ErrESPTruncated)
      else rbind (u32_at packet 0) (\<lambda>spi.
        if spi \<noteq> ed_spi direction then Inl (Fail ErrSPI)
        else rbind (u32_at packet 4) (\<lambda>sequence.
          if sequence = 0 \<or> \<not> wouldAccept (ed_replay direction) sequence then Inl (Fail ErrReplay)
          else
            let authenticatedLength = length packet - ed_icvLength direction in
            rbind (slice packet (espHeaderLength + aes_block) authenticatedLength) (\<lambda>ciphertext.
            if length ciphertext = 0 \<or> length ciphertext mod aes_block \<noteq> 0 then Inl (Fail ErrAlignment)
            else rbind (slice packet 0 authenticatedLength) (\<lambda>authenticated.
                 rbind (authenticationCode c direction authenticated) (\<lambda>expectedICV.
                 rbind (slice packet authenticatedLength (length packet)) (\<lambda>icv.
                 if expectedICV \<noteq> icv then Inl (Fail ErrESPAuthentication)
                 else rbind (slice packet espHeaderLength (espHeaderLength + aes_block)) (\<lambda>iv.
                      rbind (open_plaintext (cbc_decrypt c (ed_block direction) iv ciphertext) validate)
                        (\<lambda>innerPacket. Inr (sequence, innerPacket))))))))))"

definition direction_open ::
  "crypto \<Rightarrow> espDirection \<Rightarrow> byte list \<Rightarrow> (byte list \<Rightarrow> byte \<Rightarrow> (esp_err, unit) res)
     \<Rightarrow> (esp_err, byte list) res \<times> espDirection" where
  "direction_open c direction packet validate =
     (case open_packet c direction packet validate of
        Inl e \<Rightarrow> (Inl e, direction)
      | Inr (sequence, innerPacket) \<Rightarrow>
          (Inr innerPacket, direction\<lparr>ed_replay := commit (ed_replay direction) sequence\<rparr>))"

subsection \<open>The tunnel\<close>

record espTunnel =
  outbound :: espDirection
  inbound :: espDirection
  initiatorSelectors :: "trafficSelector list"
  responderSelectors :: "trafficSelector list"

record ChildSAConfig =
  InboundSPI :: "32 word"
  OutboundSPI :: "32 word"
  Encryption :: gostring
  Integrity :: gostring
  InboundEncKey :: "byte list"
  InboundAuthKey :: "byte list"
  OutboundEncKey :: "byte list"
  OutboundAuthKey :: "byte list"
  InitiatorSelectors :: "trafficSelector list"
  ResponderSelectors :: "trafficSelector list"

definition newESPTunnel :: "ChildSAConfig \<Rightarrow> byte list \<Rightarrow> (esp_err, espTunnel) res" where
  "newESPTunnel config randomSource =
     (if InboundSPI config = 0 \<or> OutboundSPI config = 0 then Inl (Fail ErrESPConfig)
      else rbind (newESPDirection (OutboundSPI config) (OutboundEncKey config) (OutboundAuthKey config)
                    (Encryption config) (Integrity config) randomSource) (\<lambda>out.
           rbind (newESPDirection (InboundSPI config) (InboundEncKey config) (InboundAuthKey config)
                    (Encryption config) (Integrity config) randomSource) (\<lambda>inb.
           if length (InitiatorSelectors config) = 0 \<or> length (ResponderSelectors config) = 0
           then Inl (Fail ErrESPConfig)
           else Inr \<lparr>outbound = out, inbound = inb,
                     initiatorSelectors = InitiatorSelectors config,
                     responderSelectors = ResponderSelectors config\<rparr>)))"

fun wrap_error :: "'e \<Rightarrow> ('e, 'a) res \<Rightarrow> ('e, 'a) res" where
  "wrap_error e (Inl (Fail f)) = Inl (Fail e)"
| "wrap_error e r = r"

definition tunnel_seal ::
  "crypto \<Rightarrow> espTunnel \<Rightarrow> byte list \<Rightarrow> (esp_err, byte list) res \<times> espTunnel" where
  "tunnel_seal c tunnel innerPacket =
     (case wrap_error ErrPolicyDrop (parseInnerPacket innerPacket) of
        Inl e \<Rightarrow> (Inl e, tunnel)
      | Inr metadata \<Rightarrow>
          if \<not> packetAllowed metadata (initiatorSelectors tunnel) (responderSelectors tunnel)
          then (Inl (Fail ErrPolicyDrop), tunnel)
          else
            let (r, out) = direction_seal c (outbound tunnel) innerPacket (im_nextHeader metadata)
            in (r, tunnel\<lparr>outbound := out\<rparr>))"

definition validate_inner :: "espTunnel \<Rightarrow> byte list \<Rightarrow> byte \<Rightarrow> (esp_err, unit) res" where
  "validate_inner tunnel innerPacket nextHeader =
     rbind (parseInnerPacket innerPacket) (\<lambda>metadata.
       if im_nextHeader metadata \<noteq> nextHeader then Inl (Fail ErrNextHeader)
       else if \<not> packetAllowed metadata (responderSelectors tunnel) (initiatorSelectors tunnel)
       then Inl (Fail ErrSelectors)
       else Inr ())"

definition tunnel_open ::
  "crypto \<Rightarrow> espTunnel \<Rightarrow> byte list \<Rightarrow> (esp_err, byte list) res \<times> espTunnel" where
  "tunnel_open c tunnel packet =
     (let (r, inb) = direction_open c (inbound tunnel) packet (validate_inner tunnel)
      in (r, tunnel\<lparr>inbound := inb\<rparr>))"

text \<open>The exported operations refuse a nil tunnel first.\<close>

fun espTunnel_seal ::
  "crypto \<Rightarrow> espTunnel option \<Rightarrow> byte list \<Rightarrow> (esp_err, byte list) res \<times> espTunnel option" where
  "espTunnel_seal c None innerPacket = (Inl (Fail ErrNilTunnel), None)"
| "espTunnel_seal c (Some tunnel) innerPacket = map_prod id Some (tunnel_seal c tunnel innerPacket)"

fun espTunnel_open ::
  "crypto \<Rightarrow> espTunnel option \<Rightarrow> byte list \<Rightarrow> (esp_err, byte list) res \<times> espTunnel option" where
  "espTunnel_open c None packet = (Inl (Fail ErrNilTunnel), None)"
| "espTunnel_open c (Some tunnel) packet = map_prod id Some (tunnel_open c tunnel packet)"

subsection \<open>Well-formed directions\<close>

definition direction_ok :: "espDirection \<Rightarrow> bool" where
  "direction_ok d \<longleftrightarrow> aes_key_ok (ed_block d) \<and>
     (ed_integrity d = str ''hmac-sha1-96'' \<and> ed_icvLength d = 12
      \<or> ed_integrity d = str ''hmac-sha2-256-128'' \<and> ed_icvLength d = 16)"

definition tunnel_ok :: "espTunnel \<Rightarrow> bool" where
  "tunnel_ok t \<longleftrightarrow> direction_ok (outbound t) \<and> direction_ok (inbound t)"

lemma newESPDirection_ok:
  "newESPDirection spi ek ak enc integ rnd = Inr d \<Longrightarrow>
   direction_ok d \<and> d = \<lparr>ed_spi = spi, ed_block = ek, ed_authKey = ak, ed_integrity = integ,
     ed_icvLength = ed_icvLength d, ed_random = rnd, ed_sequence = 0, ed_replay = empty_window\<rparr>"
  by (auto simp: newESPDirection_def direction_ok_def split: if_splits)

lemma newESPTunnel_ok:
  assumes "newESPTunnel config rnd = Inr t"
  shows "tunnel_ok t" "ed_sequence (outbound t) = 0" "ed_replay (inbound t) = empty_window"
    "ed_random (outbound t) = rnd"
  using assms
  by (auto simp: newESPTunnel_def tunnel_ok_def rbind_Inr_iff dest!: newESPDirection_ok split: if_splits)
    (metis espDirection.select_convs)+

subsection \<open>Padding\<close>

definition esp_padding :: "byte list \<Rightarrow> nat" where
  "esp_padding inner = (aes_block - (length inner + 2) mod aes_block) mod aes_block"

lemma esp_plaintext_split:
  "esp_plaintext inner nh = inner @ map (\<lambda>i. of_nat (i + 1)) [0..<esp_padding inner] @ [of_nat (esp_padding inner), nh]"
  by (simp add: esp_plaintext_def esp_padding_def Let_def)

lemma esp_padding_less: "esp_padding inner < 16"
  by (simp add: esp_padding_def)

lemma esp_plaintext_blocks: "16 dvd length (esp_plaintext inner nh)" "16 \<le> length (esp_plaintext inner nh)"
proof -
  note pad_up [of 16 "length inner + 2"]
  moreover have "length (esp_plaintext inner nh)
      = (length inner + 2) + (16 - (length inner + 2) mod 16) mod 16"
    by (simp add: esp_plaintext_split esp_padding_def)
  ultimately show d: "16 dvd length (esp_plaintext inner nh)" by simp
  have "0 < length (esp_plaintext inner nh)" by (simp add: esp_plaintext_split)
  then show "16 \<le> length (esp_plaintext inner nh)" using d by (rule dvd_imp_le [rotated])
qed

lemma padding_loop_ok:
  "(\<And>i. i < n \<Longrightarrow> start + index + i < length pt \<and> pt ! (start + index + i) = of_nat (index + i + 1)) \<Longrightarrow>
   padding_loop pt start index n = Inr ()"
proof (induction n arbitrary: index)
  case (Suc n)
  have "padding_loop pt start (Suc index) n = Inr ()"
    using Suc.prems [of "Suc _"] by (intro Suc.IH) simp
  then show ?case using Suc.prems [of 0] by simp
qed simp

lemma padding_loop_safe: "start + index + n \<le> length pt \<Longrightarrow> safe (padding_loop pt start index n)"
  by (induction n arbitrary: index) auto

lemma open_plaintext_sealed:
  assumes "nh = 4 \<or> nh = 41"
  shows "open_plaintext (esp_plaintext inner nh) validate = rbind (validate inner nh) (\<lambda>_. Inr inner)"
proof -
  let ?n = "esp_padding inner" and ?pt = "esp_plaintext inner nh"
  have len: "length ?pt = length inner + ?n + 2" by (simp add: esp_plaintext_split)
  have n: "unat (of_nat ?n :: byte) = ?n"
    using esp_padding_less [of inner] by (simp add: unat_of_nat take_bit_eq_mod)
  have at: "?pt ! (length inner + ?n) = of_nat ?n" "?pt ! (length inner + ?n + 1) = nh"
    "\<And>i. i < ?n \<Longrightarrow> ?pt ! (length inner + i) = of_nat (i + 1)"
    by (simp_all add: esp_plaintext_split nth_append)
  have "padding_loop ?pt (length inner) 0 ?n = Inr ()"
    by (rule padding_loop_ok) (use at(3) len in simp)
  moreover have "take (length inner) ?pt = inner" by (simp add: esp_plaintext_split)
  ultimately show ?thesis
    using assms len at n by (auto simp: open_plaintext_def Let_def)
qed

lemma open_plaintext_safe:
  assumes "\<And>p h. safe (validate p h)"
  shows "safe (open_plaintext pt validate)"
  using assms by (auto simp: open_plaintext_def Let_def intro!: padding_loop_safe)

subsection \<open>Authentication codes\<close>

definition esp_mac :: "crypto \<Rightarrow> espDirection \<Rightarrow> byte list \<Rightarrow> byte list" where
  "esp_mac c d packet =
     take (ed_icvLength d) ((if ed_integrity d = str ''hmac-sha1-96'' then hmac_sha1 c else hmac_sha256 c)
       (ed_authKey d) packet)"

lemma integrity_names: "str ''hmac-sha1-96'' \<noteq> str ''hmac-sha2-256-128''"
  by (simp add: str_def)

lemma authenticationCode_ok:
  assumes "crypto_ok c" "direction_ok d"
  shows "authenticationCode c d packet = Inr (esp_mac c d packet)"
    "length (esp_mac c d packet) = ed_icvLength d"
  using assms integrity_names
  by (auto simp: authenticationCode_def esp_mac_def direction_ok_def crypto_lengths)

subsection \<open>Sealing\<close>

definition sealed_prefix :: "crypto \<Rightarrow> espDirection \<Rightarrow> byte list \<Rightarrow> byte list \<Rightarrow> byte \<Rightarrow> byte list" where
  "sealed_prefix c d iv inner nh =
     put_be32 (ed_spi d) @ put_be32 (ed_sequence d + 1) @ iv
     @ cbc_encrypt c (ed_block d) iv (esp_plaintext inner nh)"

lemma direction_seal_cases:
  assumes "crypto_ok c" "direction_ok d"
  obtains (exhausted) "ed_sequence d = 0xffffffff"
      "direction_seal c d inner nh = (Inl (Fail ErrSequenceExhausted), d)"
  | (random) "ed_sequence d \<noteq> 0xffffffff" "length (ed_random d) < 16"
      "direction_seal c d inner nh
        = (Inl (Fail ErrRandom), d\<lparr>ed_sequence := ed_sequence d + 1, ed_random := []\<rparr>)"
  | (sealed) iv rest where "ed_sequence d \<noteq> 0xffffffff" "ed_random d = iv @ rest" "length iv = 16"
      "direction_seal c d inner nh
        = (Inr (sealed_prefix c d iv inner nh @ esp_mac c d (sealed_prefix c d iv inner nh)),
           d\<lparr>ed_sequence := ed_sequence d + 1, ed_random := rest\<rparr>)"
proof (cases "ed_sequence d = 0xffffffff")
  case True
  then show ?thesis using exhausted by (simp add: direction_seal_def)
next
  case False
  show ?thesis
  proof (cases "length (ed_random d) < 16")
    case True
    then show ?thesis
      using random False by (simp add: direction_seal_def Let_def read_full_def)
  next
    case False
    with \<open>ed_sequence d \<noteq> 0xffffffff\<close> show ?thesis
      using sealed [of "take 16 (ed_random d)" "drop 16 (ed_random d)"] authenticationCode_ok [OF assms]
      by (simp add: direction_seal_def Let_def read_full_def sealed_prefix_def)
  qed
qed

lemma next_number: "ed_sequence d \<noteq> 0xffffffff \<Longrightarrow> unat (ed_sequence d + 1) = unat (ed_sequence d) + 1"
proof -
  assume "ed_sequence d \<noteq> 0xffffffff"
  then have "unat (ed_sequence d) \<noteq> 0xffffffff" by (simp add: word_unat_eq_iff)
  moreover have "unat (ed_sequence d) < 2 ^ 32" using unsigned_less [of "ed_sequence d", where ?'a = nat] by simp
  ultimately have "unat (ed_sequence d) + 1 < 2 ^ 32" by simp
  then show ?thesis by (simp add: unat_word_ariths)
qed

subsection \<open>Opening\<close>

lemma open_packet_framed:
  assumes c: "crypto_ok c" "direction_ok d"
    and l: "length iv = 16" "16 dvd length ct" "16 \<le> length ct" and seq: "seq \<noteq> 0"
    and pre: "pre = put_be32 (ed_spi d) @ put_be32 seq @ iv @ ct"
  shows "open_packet c d (pre @ esp_mac c d pre) validate =
    (if wouldAccept (ed_replay d) seq
     then rbind (open_plaintext (cbc_decrypt c (ed_block d) iv ct) validate) (\<lambda>p. Inr (seq, p))
     else Inl (Fail ErrReplay))"
proof -
  define m where "m = esp_mac c d pre"
  have m: "length m = ed_icvLength d" using authenticationCode_ok [OF c] by (simp add: m_def)
  have len: "length (pre @ m) = 24 + length ct + ed_icvLength d" using l m by (simp add: pre)
  have frame: "u32_at (pre @ m) 0 = (Inr (ed_spi d) :: (esp_err, 32 word) res)"
    "u32_at (pre @ m) 4 = (Inr seq :: (esp_err, 32 word) res)"
    by (simp_all add: pre put_be32_def)
  have parts: "slice (pre @ m) 24 (24 + length ct) = (Inr ct :: (esp_err, byte list) res)"
    "slice (pre @ m) 0 (24 + length ct) = (Inr pre :: (esp_err, byte list) res)"
    "slice (pre @ m) (24 + length ct) (24 + length ct + ed_icvLength d) = (Inr m :: (esp_err, byte list) res)"
    "slice (pre @ m) 8 24 = (Inr iv :: (esp_err, byte list) res)"
    using l m by (simp_all add: pre)
  have "length ct mod 16 = 0" "ct \<noteq> []" using l(2,3) by (auto simp: dvd_eq_mod_eq_0)
  then have "open_packet c d (pre @ m) validate =
    (if wouldAccept (ed_replay d) seq
     then rbind (open_plaintext (cbc_decrypt c (ed_block d) iv ct) validate) (\<lambda>p. Inr (seq, p))
     else Inl (Fail ErrReplay))"
    using l(3) seq parts
    by (simp add: open_packet_def len frame Let_def espHeaderLength_def authenticationCode_ok [OF c]
        m_def [symmetric] del: slice_ok u32_at_ok length_append)
  then show ?thesis by (simp add: m_def)
qed

text \<open>The sequence number a packet carries.\<close>

definition esp_number :: "byte list \<Rightarrow> 32 word" where
  "esp_number packet = be32 (packet ! 4) (packet ! 5) (packet ! 6) (packet ! 7)"

text \<open>A packet of the association: long enough, its SPI, and its code over all octets before it.\<close>

definition esp_authentic :: "crypto \<Rightarrow> espDirection \<Rightarrow> byte list \<Rightarrow> bool" where
  "esp_authentic c d packet \<longleftrightarrow>
     40 + ed_icvLength d \<le> length packet
     \<and> be32 (packet ! 0) (packet ! 1) (packet ! 2) (packet ! 3) = ed_spi d
     \<and> drop (length packet - ed_icvLength d) packet = esp_mac c d (take (length packet - ed_icvLength d) packet)"

lemma open_packet_sound:
  assumes c: "crypto_ok c" "direction_ok d"
    and r: "open_packet c d packet validate = Inr (seq, inner)"
  shows "esp_authentic c d packet" "seq = esp_number packet" "wouldAccept (ed_replay d) seq"
    "\<exists>nh. (nh = 4 \<or> nh = 41) \<and> validate inner nh = Inr ()"
proof -
  have long: "40 + ed_icvLength d \<le> length packet"
    using r by (simp add: open_packet_def espHeaderLength_def split: if_splits)
  then have "u32_at packet 0 = (Inr (be32 (packet ! 0) (packet ! 1) (packet ! 2) (packet ! 3)) :: (esp_err, 32 word) res)"
    "u32_at packet 4 = (Inr (esp_number packet) :: (esp_err, 32 word) res)"
    by (simp_all add: esp_number_def eval_nat_numeral)
  then obtain pt where spi: "be32 (packet ! 0) (packet ! 1) (packet ! 2) (packet ! 3) = ed_spi d"
    and seq: "seq = esp_number packet" "wouldAccept (ed_replay d) seq"
    and icv: "drop (length packet - ed_icvLength d) packet
        = esp_mac c d (take (length packet - ed_icvLength d) packet)"
    and pt: "open_plaintext pt validate = Inr inner"
    using r long
    by (auto simp: open_packet_def Let_def rbind_Inr_iff espHeaderLength_def
        authenticationCode_ok [OF c] simp del: u32_at_ok split: if_splits)
  then show "esp_authentic c d packet" "seq = esp_number packet" "wouldAccept (ed_replay d) seq"
    using long by (simp_all add: esp_authentic_def)
  from pt show "\<exists>nh. (nh = 4 \<or> nh = 41) \<and> validate inner nh = Inr ()"
    by (auto simp: open_plaintext_def Let_def rbind_Inr_iff split: if_splits)
qed

lemma open_packet_safe:
  assumes "crypto_ok c" "direction_ok d" "\<And>p h. safe (validate p h)"
  shows "safe (open_packet c d packet validate)"
proof -
  have "safe (open_plaintext pt validate)" for pt using assms(3) by (rule open_plaintext_safe)
  then show ?thesis
    by (auto simp: open_packet_def Let_def espHeaderLength_def authenticationCode_ok [OF assms(1,2)])
qed

lemma validate_inner_safe [simp]: "safe (validate_inner t p h)"
  by (simp add: validate_inner_def)

end
