(* ===== verification/Esp_Runs.thy ===== *)
theory Esp_Runs
  imports Esp
begin

text \<open>
  Runs of the ESP tunnel: the calls of \<open>seal\<close> and \<open>open\<close> as a step relation with the events they
  make visible, the invariant of the reachable tunnels, and what it gives: no replay, fresh numbers,
  authentic deliveries, and delivery from one end to the other.
\<close>

datatype esp_event = Sealed "byte list" "byte list" | Opened "byte list" "byte list" | Refused

inductive esp_step :: "crypto \<Rightarrow> espTunnel \<Rightarrow> esp_event \<Rightarrow> espTunnel \<Rightarrow> bool" for c t where
  step_seal: "tunnel_seal c t inner = (Inr packet, u) \<Longrightarrow> esp_step c t (Sealed inner packet) u"
| step_seal_refused: "tunnel_seal c t inner = (Inl e, u) \<Longrightarrow> esp_step c t Refused u"
| step_open: "tunnel_open c t packet = (Inr inner, u) \<Longrightarrow> esp_step c t (Opened packet inner) u"
| step_open_refused: "tunnel_open c t packet = (Inl e, u) \<Longrightarrow> esp_step c t Refused u"

inductive esp_run :: "crypto \<Rightarrow> espTunnel \<Rightarrow> esp_event list \<Rightarrow> espTunnel \<Rightarrow> bool" for c t where
  run_start: "esp_run c t [] t"
| run_more: "esp_run c t evs u \<Longrightarrow> esp_step c u ev v \<Longrightarrow> esp_run c t (evs @ [ev]) v"

inductive_cases esp_step_Sealed: "esp_step c t (Sealed inner packet) u"
inductive_cases esp_step_Opened: "esp_step c t (Opened packet inner) u"
inductive_cases esp_step_Refused: "esp_step c t Refused u"

fun sealed_number :: "esp_event \<Rightarrow> 32 word list" where
  "sealed_number (Sealed inner packet) = [esp_number packet]"
| "sealed_number _ = []"

fun opened_number :: "esp_event \<Rightarrow> 32 word list" where
  "opened_number (Opened packet inner) = [esp_number packet]"
| "opened_number _ = []"

abbreviation sealed_numbers :: "esp_event list \<Rightarrow> 32 word list" where
  "sealed_numbers evs \<equiv> concat (map sealed_number evs)"

abbreviation opened_numbers :: "esp_event list \<Rightarrow> 32 word list" where
  "opened_numbers evs \<equiv> concat (map opened_number evs)"

subsection \<open>What one call does\<close>

text \<open>The keys of a direction, and two directions with the same ones.\<close>

definition same_sa :: "espDirection \<Rightarrow> espDirection \<Rightarrow> bool" where
  "same_sa d e \<longleftrightarrow> ed_spi d = ed_spi e \<and> ed_block d = ed_block e \<and> ed_authKey d = ed_authKey e
     \<and> ed_integrity d = ed_integrity e \<and> ed_icvLength d = ed_icvLength e"

lemma same_sa_refl [simp]: "same_sa d d"
  by (simp add: same_sa_def)

lemma same_sa_ok: "same_sa d e \<Longrightarrow> direction_ok d \<longleftrightarrow> direction_ok e"
  by (simp add: same_sa_def direction_ok_def)

lemma same_sa_trans: "same_sa d e \<Longrightarrow> same_sa e f \<Longrightarrow> same_sa d f"
  by (simp add: same_sa_def)

lemma same_sa_authentic: "same_sa d e \<Longrightarrow> esp_authentic c d p \<longleftrightarrow> esp_authentic c e p"
  by (simp add: same_sa_def esp_authentic_def esp_mac_def)

definition same_tunnel :: "espTunnel \<Rightarrow> espTunnel \<Rightarrow> bool" where
  "same_tunnel t u \<longleftrightarrow> same_sa (outbound t) (outbound u) \<and> same_sa (inbound t) (inbound u)
     \<and> initiatorSelectors t = initiatorSelectors u \<and> responderSelectors t = responderSelectors u"

lemma same_tunnel_refl [simp]: "same_tunnel t t"
  by (simp add: same_tunnel_def)

lemma same_tunnel_trans: "same_tunnel t u \<Longrightarrow> same_tunnel u v \<Longrightarrow> same_tunnel t v"
  by (auto simp: same_tunnel_def intro: same_sa_trans)

lemma same_tunnel_ok: "same_tunnel t u \<Longrightarrow> tunnel_ok t \<longleftrightarrow> tunnel_ok u"
  by (auto simp: same_tunnel_def tunnel_ok_def same_sa_ok)

lemma esp_number_sealed: "esp_number (put_be32 a @ put_be32 n @ rest) = n"
  by (simp add: esp_number_def put_be32_def)

lemma direction_seal_effect:
  assumes "crypto_ok c" "direction_ok d" "direction_seal c d inner nh = (r, e)"
  shows "same_sa d e \<and> ed_replay e = ed_replay d \<and> safe r \<and> ed_sequence d \<le> ed_sequence e
    \<and> (\<forall>packet. r = Inr packet \<longrightarrow> unat (ed_sequence e) = unat (ed_sequence d) + 1 \<and> esp_number packet = ed_sequence e)"
proof (rule direction_seal_cases [OF assms(1,2)])
  fix iv rest
  assume "ed_sequence d \<noteq> 0xffffffff"
    "direction_seal c d inner nh = (Inr (sealed_prefix c d iv inner nh @ esp_mac c d (sealed_prefix c d iv inner nh)),
       d\<lparr>ed_sequence := ed_sequence d + 1, ed_random := rest\<rparr>)"
  then show ?thesis
    using assms(3) next_number [of d]
    by (auto simp: same_sa_def sealed_prefix_def esp_number_sealed word_le_nat_alt word_less_nat_alt)
next
  assume "ed_sequence d \<noteq> 0xffffffff"
    "direction_seal c d inner nh = (Inl (Fail ErrRandom), d\<lparr>ed_sequence := ed_sequence d + 1, ed_random := []\<rparr>)"
  then show ?thesis
    using assms(3) next_number [of d] by (auto simp: same_sa_def word_le_nat_alt)
qed (use assms(3) in auto)

lemma tunnel_seal_effect:
  assumes "crypto_ok c" "tunnel_ok t" "tunnel_seal c t inner = (r, u)"
  shows "same_tunnel t u \<and> ed_replay (inbound u) = ed_replay (inbound t) \<and> safe r
    \<and> ed_sequence (outbound t) \<le> ed_sequence (outbound u)
    \<and> (\<forall>packet. r = Inr packet \<longrightarrow> unat (ed_sequence (outbound u)) = unat (ed_sequence (outbound t)) + 1
         \<and> esp_number packet = ed_sequence (outbound u))"
proof -
  have ok: "direction_ok (outbound t)" using assms(2) by (simp add: tunnel_ok_def)
  have "safe (wrap_error ErrPolicyDrop (parseInnerPacket inner))"
    using parseInnerPacket_safe [of inner] by (cases "(ErrPolicyDrop, parseInnerPacket inner)" rule: wrap_error.cases) auto
  then show ?thesis
    using assms(3) direction_seal_effect [OF assms(1) ok]
    by (auto simp: tunnel_seal_def same_tunnel_def safe_Inl_iff split: sum.splits if_splits prod.splits)
qed

lemma tunnel_open_effect:
  assumes "crypto_ok c" "tunnel_ok t" "tunnel_open c t packet = (r, u)"
  shows "same_tunnel t u \<and> outbound u = outbound t \<and> safe r"
    "r = Inl e \<Longrightarrow> u = t"
    "r = Inr inner \<Longrightarrow> esp_authentic c (inbound t) packet
      \<and> wouldAccept (ed_replay (inbound t)) (esp_number packet)
      \<and> ed_replay (inbound u) = commit (ed_replay (inbound t)) (esp_number packet)
      \<and> (\<exists>m. parseInnerPacket inner = Inr m \<and> packetAllowed m (responderSelectors t) (initiatorSelectors t))"
proof -
  have ok: "direction_ok (inbound t)" using assms(2) by (simp add: tunnel_ok_def)
  have safe: "safe (open_packet c (inbound t) packet (validate_inner t))"
    by (rule open_packet_safe [OF assms(1) ok]) simp
  show "same_tunnel t u \<and> outbound u = outbound t \<and> safe r"
    using assms(3) safe
    by (auto simp: tunnel_open_def direction_open_def same_tunnel_def same_sa_def safe_Inl_iff split: sum.splits)
  show "r = Inl e \<Longrightarrow> u = t"
    using assms(3) by (auto simp: tunnel_open_def direction_open_def split: sum.splits)
  assume "r = Inr inner"
  then obtain seq where seq: "open_packet c (inbound t) packet (validate_inner t) = Inr (seq, inner)"
    and u: "u = t\<lparr>inbound := (inbound t)\<lparr>ed_replay := commit (ed_replay (inbound t)) seq\<rparr>\<rparr>"
    using assms(3) by (auto simp: tunnel_open_def direction_open_def split: sum.splits)
  note open_packet_sound [OF assms(1) ok seq]
  then show "esp_authentic c (inbound t) packet
      \<and> wouldAccept (ed_replay (inbound t)) (esp_number packet)
      \<and> ed_replay (inbound u) = commit (ed_replay (inbound t)) (esp_number packet)
      \<and> (\<exists>m. parseInnerPacket inner = Inr m \<and> packetAllowed m (responderSelectors t) (initiatorSelectors t))"
    by (auto simp: u validate_inner_def rbind_Inr_iff split: if_splits)
qed

subsection \<open>Reachable tunnels\<close>

definition policy_met :: "espTunnel \<Rightarrow> byte list \<Rightarrow> bool" where
  "policy_met t inner \<longleftrightarrow>
     (\<exists>m. parseInnerPacket inner = Inr m \<and> packetAllowed m (responderSelectors t) (initiatorSelectors t))"

definition run_inv :: "crypto \<Rightarrow> espTunnel \<Rightarrow> esp_event list \<Rightarrow> espTunnel \<Rightarrow> bool" where
  "run_inv c t evs u \<longleftrightarrow>
     same_tunnel t u
     \<and> window_holds (ed_replay (inbound u)) (set (opened_numbers evs)) \<and> distinct (opened_numbers evs)
     \<and> sorted_wrt (<) (sealed_numbers evs)
     \<and> (\<forall>n \<in> set (sealed_numbers evs). n \<noteq> 0 \<and> n \<le> ed_sequence (outbound u))
     \<and> (\<forall>packet inner. Opened packet inner \<in> set evs \<longrightarrow>
          esp_authentic c (inbound t) packet \<and> policy_met t inner)"

lemma run_inv_step:
  assumes c: "crypto_ok c" "tunnel_ok t" and inv: "run_inv c t evs u" and step: "esp_step c u ev v"
  shows "run_inv c t (evs @ [ev]) v"
proof -
  have same: "same_tunnel t u" using inv by (simp add: run_inv_def)
  then have u: "tunnel_ok u" using c by (simp add: same_tunnel_ok)
  note trans = same_tunnel_trans [OF same]
  show ?thesis using step
  proof cases
    case (step_seal inner packet)
    note e = tunnel_seal_effect [OF c(1) u step_seal(2)]
    then have "ed_sequence (outbound u) < ed_sequence (outbound v)" "ed_sequence (outbound v) \<noteq> 0"
      by (auto simp: word_less_nat_alt word_unat_eq_iff)
    with e inv step_seal(1) show ?thesis
      by (auto simp: run_inv_def sorted_wrt_append intro: trans order_trans order_le_less_trans)
  next
    case (step_seal_refused inner e)
    with tunnel_seal_effect [OF c(1) u step_seal_refused(2)] inv show ?thesis
      by (auto simp: run_inv_def intro: trans order_trans)
  next
    case (step_open packet inner)
    note e = tunnel_open_effect [OF c(1) u step_open(2)]
    let ?n = "esp_number packet"
    have h: "window_holds (ed_replay (inbound u)) (set (opened_numbers evs))"
      using inv by (simp add: run_inv_def)
    have acc: "wouldAccept (ed_replay (inbound u)) ?n" using e(3) by simp
    note window.accepts_new [OF h acc] window.record_holds [OF h acc]
    moreover have "esp_authentic c (inbound t) packet" "policy_met t inner"
      using e(3) same by (auto simp: same_tunnel_def policy_met_def same_sa_authentic)
    ultimately show ?thesis
      using e inv step_open(1) by (auto simp: run_inv_def intro: trans)
  next
    case (step_open_refused packet e)
    with tunnel_open_effect(2) [OF c(1) u step_open_refused(2)] inv show ?thesis
      by (auto simp: run_inv_def)
  qed
qed

lemma run_inv_reachable:
  assumes "crypto_ok c" "newESPTunnel config rnd = Inr t" "esp_run c t evs u"
  shows "run_inv c t evs u"
  using assms(3)
proof induction
  case run_start
  then show ?case using newESPTunnel_ok [OF assms(2)] by (simp add: run_inv_def window_holds_empty)
next
  case (run_more evs u ev v)
  then show ?case using run_inv_step assms(1) newESPTunnel_ok [OF assms(2)] by blast
qed

subsection \<open>From one end to the other\<close>

definition facing :: "espTunnel \<Rightarrow> espTunnel \<Rightarrow> bool" where
  "facing a b \<longleftrightarrow> same_sa (outbound a) (inbound b)
     \<and> initiatorSelectors a = responderSelectors b \<and> responderSelectors a = initiatorSelectors b"

definition mirrored :: "ChildSAConfig \<Rightarrow> ChildSAConfig \<Rightarrow> bool" where
  "mirrored ca cb \<longleftrightarrow>
     OutboundSPI ca = InboundSPI cb \<and> OutboundEncKey ca = InboundEncKey cb
     \<and> OutboundAuthKey ca = InboundAuthKey cb \<and> Encryption ca = Encryption cb
     \<and> Integrity ca = Integrity cb \<and> InitiatorSelectors ca = ResponderSelectors cb
     \<and> ResponderSelectors ca = InitiatorSelectors cb"

lemma newESPDirection_icv:
  "newESPDirection spi ek ak enc integ rnd = Inr d \<Longrightarrow>
   ed_icvLength d = (if integ = str ''hmac-sha1-96'' then 12 else 16)"
  by (auto simp: newESPDirection_def split: if_splits)

lemma mirrored_facing:
  assumes "newESPTunnel ca ra = Inr a" "newESPTunnel cb rb = Inr b" "mirrored ca cb"
  shows "facing a b"
proof -
  obtain d e where "newESPDirection (OutboundSPI ca) (OutboundEncKey ca) (OutboundAuthKey ca)
        (Encryption ca) (Integrity ca) ra = Inr d"
      "newESPDirection (InboundSPI cb) (InboundEncKey cb) (InboundAuthKey cb)
        (Encryption cb) (Integrity cb) rb = Inr e"
    and ab: "outbound a = d" "inbound b = e" "initiatorSelectors a = InitiatorSelectors ca"
      "responderSelectors a = ResponderSelectors ca" "initiatorSelectors b = InitiatorSelectors cb"
      "responderSelectors b = ResponderSelectors cb"
    using assms(1,2) by (auto simp: newESPTunnel_def rbind_Inr_iff split: if_splits)
  then have "same_sa d e"
    using newESPDirection_ok newESPDirection_icv assms(3)
    by (smt (verit) espDirection.select_convs mirrored_def same_sa_def)
  then show ?thesis using ab assms(3) by (simp add: facing_def mirrored_def)
qed

lemma open_sealed:
  assumes c: "crypto_ok c" "tunnel_ok a" and face: "facing a b"
    and seal: "tunnel_seal c a inner = (Inr packet, a')"
  shows "tunnel_open c b packet =
    (if wouldAccept (ed_replay (inbound b)) (esp_number packet)
     then (Inr inner, b\<lparr>inbound := (inbound b)\<lparr>ed_replay := commit (ed_replay (inbound b)) (esp_number packet)\<rparr>\<rparr>)
     else (Inl (Fail ErrReplay), b))"
proof -
  let ?d = "outbound a" and ?e = "inbound b"
  have sa: "same_sa ?d ?e" using face by (simp add: facing_def)
  have ok: "direction_ok ?d" "direction_ok ?e" using c sa by (simp_all add: tunnel_ok_def same_sa_ok)
  have key: "aes_key_ok (ed_block ?d)" using ok by (simp add: direction_ok_def)
  have eq: "ed_spi ?e = ed_spi ?d" "ed_block ?e = ed_block ?d" "esp_mac c ?e = esp_mac c ?d"
    using sa by (auto simp: same_sa_def esp_mac_def)
  obtain m where m: "parseInnerPacket inner = Inr m"
      "packetAllowed m (initiatorSelectors a) (responderSelectors a)"
    and ds: "direction_seal c ?d inner (im_nextHeader m) = (Inr packet, outbound a')"
    using seal
    by (cases "(ErrPolicyDrop, parseInnerPacket inner)" rule: wrap_error.cases)
      (auto simp: tunnel_seal_def split: if_splits prod.splits)
  have nh: "im_nextHeader m = 4 \<or> im_nextHeader m = 41"
    using parseInnerPacket_sized [OF m(1)] by (auto simp: metadata_sized_def)
  obtain iv where iv: "length iv = 16" "ed_sequence ?d \<noteq> 0xffffffff"
    and packet: "packet = sealed_prefix c ?d iv inner (im_nextHeader m)
        @ esp_mac c ?d (sealed_prefix c ?d iv inner (im_nextHeader m))"
    by (rule direction_seal_cases [OF c(1) ok(1), of inner "im_nextHeader m"]) (use ds in auto)
  let ?pt = "esp_plaintext inner (im_nextHeader m)"
  note cbc = crypto_cbc [OF c(1) key iv(1) esp_plaintext_blocks(1) [of inner "im_nextHeader m"]]
  have seq: "ed_sequence ?d + 1 \<noteq> 0"
  proof
    assume "ed_sequence ?d + 1 = 0"
    then show False using next_number [OF iv(2)] by simp
  qed
  have "validate_inner b inner (im_nextHeader m) = Inr ()"
    using m face by (simp add: validate_inner_def facing_def)
  then have "open_packet c ?e packet (validate_inner b) =
      (if wouldAccept (ed_replay ?e) (ed_sequence ?d + 1) then Inr (ed_sequence ?d + 1, inner)
       else Inl (Fail ErrReplay))"
    using open_packet_framed [OF c(1) ok(2) iv(1) _ _ seq, of "cbc_encrypt c (ed_block ?d) iv ?pt"]
    by (simp add: packet sealed_prefix_def eq cbc esp_plaintext_blocks open_plaintext_sealed [OF nh])
  moreover have "esp_number packet = ed_sequence ?d + 1"
    by (simp add: packet sealed_prefix_def esp_number_sealed)
  ultimately show ?thesis by (simp add: tunnel_open_def direction_open_def)
qed

text \<open>Sealing a list of packets, and opening what arrives.\<close>

fun seal_all ::
  "crypto \<Rightarrow> espTunnel \<Rightarrow> byte list list \<Rightarrow> (esp_err, byte list) res list \<times> espTunnel" where
  "seal_all c t [] = ([], t)"
| "seal_all c t (inner # inners) =
     (let (r, u) = tunnel_seal c t inner; (rs, v) = seal_all c u inners in (r # rs, v))"

fun open_all :: "crypto \<Rightarrow> espTunnel \<Rightarrow> byte list list \<Rightarrow> byte list list" where
  "open_all c t [] = []"
| "open_all c t (packet # packets) =
     (case tunnel_open c t packet of
        (Inr inner, u) \<Rightarrow> inner # open_all c u packets
      | (Inl e, u) \<Rightarrow> open_all c u packets)"

lemma seal_all_packets:
  assumes "crypto_ok c" "tunnel_ok a" "seal_all c a inners = (map Inr packets, z)"
  shows "length packets = length inners \<and> (\<forall>j < length packets. \<exists>a1 a2. same_tunnel a a1
    \<and> tunnel_seal c a1 (inners ! j) = (Inr (packets ! j), a2)
    \<and> unat (esp_number (packets ! j)) = unat (ed_sequence (outbound a)) + j + 1)"
  using assms(2,3)
proof (induction inners arbitrary: a packets z)
  case (Cons inner inners)
  obtain r u where r: "tunnel_seal c a inner = (r, u)" by fastforce
  obtain rs v where rs: "seal_all c u inners = (rs, v)" by fastforce
  from Cons.prems(2) r rs obtain p ps where p: "packets = p # ps" "r = Inr p" "rs = map Inr ps"
    by (cases packets) auto
  note e = tunnel_seal_effect [OF assms(1) Cons.prems(1) r]
  then have u: "same_tunnel a u" "tunnel_ok u" using Cons.prems(1) same_tunnel_ok by auto
  note ih = Cons.IH [OF u(2) rs [unfolded p(3)]]
  show ?case
  proof (intro conjI allI impI)
    show "length packets = length (inner # inners)" using ih by (simp add: p)
    fix j
    assume "j < length packets"
    then show "\<exists>a1 a2. same_tunnel a a1 \<and> tunnel_seal c a1 ((inner # inners) ! j) = (Inr (packets ! j), a2)
        \<and> unat (esp_number (packets ! j)) = unat (ed_sequence (outbound a)) + j + 1"
    proof (cases j)
      case 0
      then show ?thesis using e r p(2) by (intro exI [of _ a] exI [of _ u]) (simp add: p(1))
    next
      case (Suc k)
      then show ?thesis
        using e ih p(2) \<open>j < length packets\<close> same_tunnel_trans [OF u(1)] by (fastforce simp: p(1))
    qed
  qed
qed auto

lemma facing_same: "facing a b \<Longrightarrow> same_tunnel a a1 \<Longrightarrow> facing a1 b"
  by (auto simp: facing_def same_tunnel_def same_sa_def)

lemma facing_commit: "facing a (b\<lparr>inbound := (inbound b)\<lparr>ed_replay := w\<rparr>\<rparr>) \<longleftrightarrow> facing a b"
  by (simp add: facing_def same_sa_def)

lemma open_all_sealed:
  assumes c: "crypto_ok c" "tunnel_ok a" and sealed: "seal_all c a inners = (map Inr packets, z)"
    and "facing a b" "list_all (\<lambda>j. j < length packets) js"
  shows "open_all c b (map ((!) packets) js) = map (\<lambda>n. inners ! (unat n - unat (ed_sequence (outbound a)) - 1))
    (accepted wouldAccept commit (ed_replay (inbound b)) (map (\<lambda>j. esp_number (packets ! j)) js))"
  using assms(4,5)
proof (induction js arbitrary: b)
  case (Cons j js)
  obtain a1 a2 where a1: "same_tunnel a a1" "tunnel_seal c a1 (inners ! j) = (Inr (packets ! j), a2)"
    and n: "unat (esp_number (packets ! j)) = unat (ed_sequence (outbound a)) + j + 1"
    using seal_all_packets [OF c sealed] Cons.prems(2) by auto
  have "tunnel_ok a1" using c(2) a1(1) by (simp add: same_tunnel_ok)
  note o = open_sealed [OF c(1) this facing_same [OF Cons.prems(1) a1(1)] a1(2)]
  have rest: "list_all (\<lambda>j. j < length packets) js" using Cons.prems(2) by simp
  show ?case
    using Cons.IH [OF Cons.prems(1) rest] Cons.IH [OF iffD2 [OF facing_commit Cons.prems(1)] rest] n
    by (simp add: o)
qed simp

lemma sealed_from_fresh:
  assumes "crypto_ok c" "newESPTunnel ca ra = Inr a" "seal_all c a inners = (map Inr packets, z)"
    and "list_all (\<lambda>j. j < length packets) js" "j \<in> set js"
  shows "unat (esp_number (packets ! j)) = j + 1"
proof -
  have "j < length packets" using assms(4,5) by (simp add: list_all_iff)
  then show ?thesis
    using seal_all_packets [OF assms(1) newESPTunnel_ok(1) [OF assms(2)] assms(3)]
      newESPTunnel_ok(2) [OF assms(2)] by auto
qed

lemma accepted_all:
  assumes "window_holds w S" "sorted_wrt (\<lambda>a b. unat a < unat b + 64) ns" "distinct ns"
    and "\<forall>n \<in> set ns. n \<noteq> 0 \<and> n \<notin> S \<and> unat (highest w) < unat n + 64"
  shows "accepted wouldAccept commit w ns = ns"
  using assms
proof (induction ns arbitrary: w S)
  case (Cons n ns)
  have acc: "wouldAccept w n" using Cons.prems(1,4) by (simp add: wouldAccept_iff)
  have "unat (highest (commit w n)) < unat m + 64" if "m \<in> set ns" for m
  proof -
    have "highest (commit w n) \<in> {n, highest w}" by (simp add: commit_def Let_def)
    then show ?thesis using Cons.prems(2,4) that by auto
  qed
  then have "accepted wouldAccept commit (commit w n) ns = ns"
    using Cons.prems by (intro Cons.IH [OF window.record_holds [OF Cons.prems(1) acc]]) auto
  then show ?case using acc by simp
qed simp

subsection \<open>A sample association\<close>

definition sample_config :: "32 word \<Rightarrow> 32 word \<Rightarrow> ChildSAConfig" where
  "sample_config ours theirs =
     \<lparr>InboundSPI = ours, OutboundSPI = theirs, Encryption = str ''aes-cbc-128'',
      Integrity = str ''hmac-sha1-96'', InboundEncKey = replicate 16 3, InboundAuthKey = replicate 20 5,
      OutboundEncKey = replicate 16 3, OutboundAuthKey = replicate 20 5,
      InitiatorSelectors = [any_v4], ResponderSelectors = [any_v4]\<rparr>"

definition sample_direction :: "32 word \<Rightarrow> byte list \<Rightarrow> espDirection" where
  "sample_direction spi rnd =
     \<lparr>ed_spi = spi, ed_block = replicate 16 3, ed_authKey = replicate 20 5,
      ed_integrity = str ''hmac-sha1-96'', ed_icvLength = 12, ed_random = rnd, ed_sequence = 0,
      ed_replay = empty_window\<rparr>"

definition sample_tunnel :: "32 word \<Rightarrow> 32 word \<Rightarrow> byte list \<Rightarrow> espTunnel" where
  "sample_tunnel ours theirs rnd =
     \<lparr>outbound = sample_direction theirs rnd, inbound = sample_direction ours rnd,
      initiatorSelectors = [any_v4], responderSelectors = [any_v4]\<rparr>"

lemma sample_new:
  "ours \<noteq> 0 \<Longrightarrow> theirs \<noteq> 0 \<Longrightarrow>
   newESPTunnel (sample_config ours theirs) rnd = Inr (sample_tunnel ours theirs rnd)"
  by (simp add: newESPTunnel_def newESPDirection_def sample_config_def sample_tunnel_def
      sample_direction_def aes_key_ok_def str_def)

lemma sample_mirrored: "mirrored (sample_config ours theirs) (sample_config theirs ours)"
  by (simp add: mirrored_def sample_config_def)

lemma sample_ok: "tunnel_ok (sample_tunnel ours theirs rnd)"
  by (simp add: tunnel_ok_def direction_ok_def sample_tunnel_def sample_direction_def aes_key_ok_def)

definition sample_sealed :: "32 word \<Rightarrow> byte list" where
  "sample_sealed n =
     (let d = (sample_direction 2 [])\<lparr>ed_sequence := n - 1\<rparr>;
          p = sealed_prefix plain_crypto d (replicate 16 0) sample_packet 4
      in p @ esp_mac plain_crypto d p)"

lemma sample_admitted: "packetAllowed sample_metadata [any_v4] [any_v4]"
  by (simp add: packetAllowed_def endpointAllowed_iff any_sized any_selects sample_metadata_def
      ip_sized_def del: endpointAllowed.simps)

lemma sample_seal:
  "tunnel_seal plain_crypto (sample_tunnel 1 2 (replicate 32 0)) sample_packet
     = (Inr (sample_sealed 1), (sample_tunnel 1 2 (replicate 32 0))
          \<lparr>outbound := (sample_direction 2 (replicate 16 0))\<lparr>ed_sequence := 1\<rparr>\<rparr>)"
  "tunnel_seal plain_crypto ((sample_tunnel 1 2 (replicate 32 0))
          \<lparr>outbound := (sample_direction 2 (replicate 16 0))\<lparr>ed_sequence := 1\<rparr>\<rparr>) sample_packet
     = (Inr (sample_sealed 2), (sample_tunnel 1 2 (replicate 32 0))
          \<lparr>outbound := (sample_direction 2 [])\<lparr>ed_sequence := 2\<rparr>\<rparr>)"
proof -
  have ok: "direction_ok ((sample_direction s r)\<lparr>ed_sequence := n\<rparr>)" "direction_ok (sample_direction s r)" for s r n
    by (simp_all add: direction_ok_def sample_direction_def aes_key_ok_def)
  note mac = authenticationCode_ok(1) [OF plain_crypto_ok ok(1)] authenticationCode_ok(1) [OF plain_crypto_ok ok(2)]
  show "tunnel_seal plain_crypto (sample_tunnel 1 2 (replicate 32 0)) sample_packet
     = (Inr (sample_sealed 1), (sample_tunnel 1 2 (replicate 32 0))
          \<lparr>outbound := (sample_direction 2 (replicate 16 0))\<lparr>ed_sequence := 1\<rparr>\<rparr>)"
    "tunnel_seal plain_crypto ((sample_tunnel 1 2 (replicate 32 0))
          \<lparr>outbound := (sample_direction 2 (replicate 16 0))\<lparr>ed_sequence := 1\<rparr>\<rparr>) sample_packet
     = (Inr (sample_sealed 2), (sample_tunnel 1 2 (replicate 32 0))
          \<lparr>outbound := (sample_direction 2 [])\<lparr>ed_sequence := 2\<rparr>\<rparr>)"
    using sample_admitted
    by (simp_all add: tunnel_seal_def sample_parses sample_tunnel_def direction_seal_def Let_def
        read_full_def mac)
      (simp_all add: sample_direction_def sample_sealed_def sealed_prefix_def Let_def sample_metadata_def esp_mac_def)
qed

text \<open>A run: the tunnel seals a packet, and opens one of its peer twice, the second time in vain.\<close>

lemma sample_run:
  "\<exists>u. esp_run plain_crypto (sample_tunnel 1 2 (replicate 32 0)) [Sealed sample_packet (sample_sealed 1)] u"
  using run_more [OF run_start step_seal [OF sample_seal(1)]] by auto

lemma sample_facing: "facing (sample_tunnel 1 2 r) (sample_tunnel 2 1 r')"
  by (rule mirrored_facing [OF sample_new sample_new sample_mirrored]) simp_all

lemma sample_open:
  "\<exists>u. tunnel_open plain_crypto (sample_tunnel 2 1 []) (sample_sealed 1) = (Inr sample_packet, u)"
proof -
  have "esp_number (sample_sealed 1) = 1"
    by (simp add: sample_sealed_def Let_def sealed_prefix_def esp_number_sealed sample_direction_def)
  then show ?thesis
    using open_sealed [OF plain_crypto_ok sample_ok sample_facing sample_seal(1), of "[]"]
    by (simp add: sample_tunnel_def sample_direction_def empty_window_def wouldAccept_def)
qed

lemma sample_run_open:
  "\<exists>u. esp_run plain_crypto (sample_tunnel 2 1 []) [Opened (sample_sealed 1) sample_packet] u"
  using sample_open run_more [OF run_start step_open] by (metis append_Nil)

subsection \<open>Properties\<close>

text \<open>
  C11: No replay and no reuse.  Whatever packets reach a tunnel and whatever is sent through it, in any
  order, with any failures in between, the packets it delivers carry distinct non-zero sequence
  numbers, and the packets it seals carry strictly increasing ones, so a number never repeats under
  one key.
\<close>

theorem esp_no_replay:
  assumes "crypto_ok c" "newESPTunnel config rnd = Inr t" "esp_run c t evs u"
  shows "distinct (opened_numbers evs) \<and> 0 \<notin> set (opened_numbers evs)
    \<and> sorted_wrt (<) (sealed_numbers evs) \<and> 0 \<notin> set (sealed_numbers evs)"
  using run_inv_reachable [OF assms] unfolding run_inv_def window_holds_def by blast

theorem esp_no_replay_witness:
  "distinct (opened_numbers [Opened (sample_sealed 1) sample_packet])
   \<and> 0 \<notin> set (opened_numbers [Opened (sample_sealed 1) sample_packet])"
proof -
  obtain u where u: "esp_run plain_crypto (sample_tunnel 2 1 []) [Opened (sample_sealed 1) sample_packet] u"
    using sample_run_open ..
  show ?thesis using esp_no_replay [OF plain_crypto_ok sample_new [of 2 1] u] by simp
qed

text \<open>
  C12: Every packet a reachable tunnel delivers was authentic for its association (its SPI, and the
  negotiated code over all octets before it), and its content is a well-formed IP packet that the
  negotiated selectors admit.
\<close>

theorem esp_opened_authentic:
  assumes "crypto_ok c" "newESPTunnel config rnd = Inr t" "esp_run c t evs u"
    and "Opened packet inner \<in> set evs"
  shows "esp_authentic c (inbound t) packet \<and> policy_met t inner"
  using run_inv_reachable [OF assms(1-3)] assms(4) by (simp add: run_inv_def)

theorem esp_opened_authentic_witness:
  "esp_authentic plain_crypto (inbound (sample_tunnel 2 1 [])) (sample_sealed 1)
   \<and> policy_met (sample_tunnel 2 1 []) sample_packet"
proof -
  obtain u where u: "esp_run plain_crypto (sample_tunnel 2 1 []) [Opened (sample_sealed 1) sample_packet] u"
    using sample_run_open ..
  show ?thesis
    by (rule esp_opened_authentic [OF plain_crypto_ok sample_new [of 2 1] u]) simp_all
qed

text \<open>
  A packet that is refused leaves the tunnel as it was: it moves neither the replay window nor
  anything else.  Opening and sealing never panic, whatever the octets.
\<close>

theorem esp_refusal_harmless:
  assumes "crypto_ok c" "tunnel_ok t"
  shows "safe (fst (tunnel_open c t packet)) \<and> safe (fst (tunnel_seal c t packet))
    \<and> (\<forall>e. fst (tunnel_open c t packet) = Inl e \<longrightarrow> snd (tunnel_open c t packet) = t)"
proof -
  obtain r u s v where o: "tunnel_open c t packet = (r, u)" and se: "tunnel_seal c t packet = (s, v)"
    by fastforce
  then show ?thesis
    using tunnel_open_effect(1,2) [OF assms o] tunnel_seal_effect [OF assms se] by auto
qed

theorem esp_refusal_harmless_witness:
  "safe (fst (tunnel_open plain_crypto (sample_tunnel 2 1 []) [1, 2, 3]))
   \<and> snd (tunnel_open plain_crypto (sample_tunnel 2 1 []) [1, 2, 3]) = sample_tunnel 2 1 []"
proof -
  have "fst (tunnel_open plain_crypto (sample_tunnel 2 1 []) [1, 2, 3]) = Inl (Fail ErrESPTruncated)"
    by (simp add: tunnel_open_def direction_open_def open_packet_def espHeaderLength_def)
  then show ?thesis
    using esp_refusal_harmless [OF plain_crypto_ok sample_ok, of 2 1 "[]" "[1, 2, 3]"] by simp
qed

text \<open>
  C13: Delivery.  One end seals a list of packets; the network loses, duplicates and reorders them as
  it likes.  The mirrored end delivers exactly the original packets for those arrivals whose numbers
  its window accepts, in the order of arrival.
\<close>

theorem esp_delivery:
  assumes "crypto_ok c" "newESPTunnel ca ra = Inr a" "newESPTunnel cb rb = Inr b" "mirrored ca cb"
    and "seal_all c a inners = (map Inr packets, z)" "list_all (\<lambda>j. j < length packets) js"
  shows "open_all c b (map ((!) packets) js) = map (\<lambda>n. inners ! (unat n - 1))
    (accepted wouldAccept commit empty_window (map (\<lambda>j. of_nat (j + 1)) js))"
proof -
  note a = newESPTunnel_ok [OF assms(2)] and b = newESPTunnel_ok [OF assms(3)]
  have "esp_number (packets ! j) = of_nat (j + 1)" if "j \<in> set js" for j
    using sealed_from_fresh [OF assms(1,2,5,6) that] by (metis of_nat_unat ucast_id)
  then have "map (\<lambda>j. esp_number (packets ! j)) js = map (\<lambda>j. of_nat (j + 1)) js"
    by (intro map_cong) simp_all
  from open_all_sealed [OF assms(1) a(1) assms(5) mirrored_facing [OF assms(2-4)] assms(6), unfolded this]
  show ?thesis using a(2) b(3) by simp
qed

theorem esp_delivery_witness:
  "open_all plain_crypto (sample_tunnel 2 1 []) [sample_sealed 2, sample_sealed 1, sample_sealed 2]
     = [sample_packet, sample_packet]"
proof -
  have "seal_all plain_crypto (sample_tunnel 1 2 (replicate 32 0)) [sample_packet, sample_packet]
      = (map Inr [sample_sealed 1, sample_sealed 2],
         (sample_tunnel 1 2 (replicate 32 0))\<lparr>outbound := (sample_direction 2 [])\<lparr>ed_sequence := 2\<rparr>\<rparr>)"
    by (simp add: sample_seal)
  note esp_delivery [OF plain_crypto_ok sample_new [of 1 2] sample_new [of 2 1 "[]"] sample_mirrored this, of "[1, 0, 1]"]
  moreover have "accepted wouldAccept commit empty_window (map (\<lambda>j. of_nat (j + 1)) [1, 0, 1]) = [2, 1]"
    by code_simp
  ultimately show ?thesis by (simp del: open_all.simps accepted.simps)
qed

text \<open>
  C14: Within the window nothing is lost.  If every sealed packet that arrives does so once and fewer
  than 64 numbers behind any that came before it, all of them are delivered, as they arrive.
\<close>

theorem esp_reordering:
  assumes "crypto_ok c" "newESPTunnel ca ra = Inr a" "newESPTunnel cb rb = Inr b" "mirrored ca cb"
    and "seal_all c a inners = (map Inr packets, z)" "list_all (\<lambda>j. j < length packets) js"
    and "distinct js" "sorted_wrt (\<lambda>earlier later. earlier < later + 64) js"
  shows "open_all c b (map ((!) packets) js) = map ((!) inners) js"
proof -
  note a = newESPTunnel_ok [OF assms(2)] and b = newESPTunnel_ok [OF assms(3)]
  let ?ns = "map (\<lambda>j. esp_number (packets ! j)) js"
  note n = sealed_from_fresh [OF assms(1,2,5,6)]
  have "accepted wouldAccept commit empty_window ?ns = ?ns"
  proof (rule accepted_all [OF window_holds_empty])
    show "sorted_wrt (\<lambda>x y. unat x < unat y + 64) ?ns"
      unfolding sorted_wrt_map
      by (rule sorted_wrt_mono_rel [OF _ assms(8)]) (simp add: n)
    show "distinct ?ns"
    proof -
      have "inj_on (\<lambda>j. esp_number (packets ! j)) (set js)"
      proof (rule inj_onI)
        fix i j
        assume ij: "i \<in> set js" "j \<in> set js" and eq: "esp_number (packets ! i) = esp_number (packets ! j)"
        have "i + 1 = j + 1" using n [OF ij(1)] n [OF ij(2)] by (simp only: eq)
        then show "i = j" by simp
      qed
      then show ?thesis using assms(7) by (simp add: distinct_map)
    qed
    show "\<forall>m \<in> set ?ns. m \<noteq> 0 \<and> m \<notin> {} \<and> unat (highest empty_window) < unat m + 64"
    proof
      fix m
      assume "m \<in> set ?ns"
      then obtain j where "j \<in> set js" "m = esp_number (packets ! j)" by auto
      then have "unat m = j + 1" by (simp only: n)
      then have "0 < unat m" by linarith
      then show "m \<noteq> 0 \<and> m \<notin> {} \<and> unat (highest empty_window) < unat m + 64"
        by (auto simp: empty_window_def)
    qed
  qed
  then show ?thesis
    using open_all_sealed [OF assms(1) a(1) assms(5) mirrored_facing [OF assms(2-4)] assms(6)] a(2) b(3) n
    by simp
qed

theorem esp_reordering_witness:
  "open_all plain_crypto (sample_tunnel 2 1 []) [sample_sealed 2, sample_sealed 1] = [sample_packet, sample_packet]"
proof -
  have "seal_all plain_crypto (sample_tunnel 1 2 (replicate 32 0)) [sample_packet, sample_packet]
      = (map Inr [sample_sealed 1, sample_sealed 2],
         (sample_tunnel 1 2 (replicate 32 0))\<lparr>outbound := (sample_direction 2 [])\<lparr>ed_sequence := 2\<rparr>\<rparr>)"
    by (simp add: sample_seal)
  from esp_reordering [OF plain_crypto_ok sample_new [of 1 2] sample_new [of 2 1 "[]"] sample_mirrored this, of "[1, 0]"]
  show ?thesis by (simp del: open_all.simps)
qed

end
