(* ===== verification/Ike_Keys.thy ===== *)
theory Ike_Keys
  imports Ike_Child Crypto_Env
begin

text \<open>
  Key derivation of IKEv2, \<open>internal/vowifi/ike/crypto.go\<close> and \<open>child.go\<close>: the PRF and PRF+ of
  the negotiated suite, the IKE and CHILD_SA keys, the Diffie-Hellman exchange over the MODP groups
  and the NAT detection hash.  The counter of PRF+ is the code's byte; \<open>big.Int\<close> values are naturals.
\<close>

datatype crypt_err =
    Ike ike_err | Child child_err | ErrKeyStream | ErrReader | ErrAESKey | ErrPayloadSize | ErrGroup
  | ErrDHState | ErrDHLength | ErrDHRange | ErrDHTrivial | ErrNATAddress

fun map_err :: "('e \<Rightarrow> 'f) \<Rightarrow> ('e, 'a) res \<Rightarrow> ('f, 'a) res" where
  "map_err f (Inr x) = Inr x"
| "map_err f (Inl (Fail e)) = Inl (Fail (f e))"
| "map_err f (Inl Panic) = Inl Panic"
| "map_err f (Inl Hang) = Inl Hang"

lemma map_err_Inr [simp]: "map_err f r = Inr x \<longleftrightarrow> r = Inr x"
  by (cases "(f, r)" rule: map_err.cases) auto

lemma map_err_safe [simp]: "safe (map_err f r) \<longleftrightarrow> safe r"
  by (cases "(f, r)" rule: map_err.cases) auto

subsection \<open>The PRF\<close>

definition suite_prf ::
  "crypto \<Rightarrow> negotiatedSuite \<Rightarrow> (crypt_err, (byte list \<Rightarrow> byte list \<Rightarrow> byte list) \<times> nat) res" where
  "suite_prf c suite =
     (if PRFID suite = prfHMACSHA1 then Inr (hmac_sha1 c, 20)
      else if PRFID suite = prfHMACSHA256 then Inr (hmac_sha256 c, 32)
      else Inl (Fail (Ike ErrUnsupportedSuite)))"

definition encryptionKeyLength :: "negotiatedSuite \<Rightarrow> (crypt_err, nat) res" where
  "encryptionKeyLength suite =
     (if EncryptionBits suite = 128 \<or> EncryptionBits suite = 256 then Inr (nat (EncryptionBits suite div 8))
      else Inl (Fail (Ike ErrUnsupportedSuite)))"

definition integrityLengths :: "negotiatedSuite \<Rightarrow> (crypt_err, nat \<times> nat) res" where
  "integrityLengths suite =
     (if IntegrityID suite = integrityHMACSHA1_96 then Inr (20, 12)
      else if IntegrityID suite = integrityHMACSHA256_128 then Inr (32, 16)
      else Inl (Fail (Ike ErrUnsupportedSuite)))"

definition ike_prf :: "crypto \<Rightarrow> negotiatedSuite \<Rightarrow> byte list \<Rightarrow> byte list \<Rightarrow> (crypt_err, byte list) res" where
  "ike_prf c suite key data = rbind (suite_prf c suite) (\<lambda>(hash, _). Inr (hash key data))"

lemma byte_succ: "b + 1 \<noteq> 0 \<Longrightarrow> unat (b + 1 :: byte) = unat b + 1"
proof -
  assume nz: "b + 1 \<noteq> 0"
  have "unat (b + 1) = (unat b + 1) mod 256" by (simp add: unat_word_ariths)
  moreover have "unat b \<noteq> 255"
  proof
    assume "unat b = 255"
    then have "unat (b + 1) = 0" by (simp add: unat_word_ariths)
    with nz show False by (simp only: word_unat_eq_iff unsigned_0)
  qed
  ultimately show ?thesis using unat_byte [of b] by simp
qed

text \<open>The loop over the counter octet, which ends at the latest when the counter wraps.\<close>

function prfPlus_loop ::
  "crypto \<Rightarrow> negotiatedSuite \<Rightarrow> byte list \<Rightarrow> byte list \<Rightarrow> nat \<Rightarrow> byte \<Rightarrow> byte list \<Rightarrow> byte list
     \<Rightarrow> (crypt_err, byte list) res" where
  "prfPlus_loop c suite key seed len counter previous result =
     (if \<not> length result < len then Inr result
      else if counter = 0 then Inl (Fail ErrKeyStream)
      else rbind (ike_prf c suite key (previous @ seed @ [counter])) (\<lambda>block.
             prfPlus_loop c suite key seed len (counter + 1) block (result @ block)))"
  by pat_completeness auto
termination
proof (relation "measure (\<lambda>(c, suite, key, seed, len, counter, previous, result).
    if counter = 0 then 0 else 256 - unat counter)")
  fix counter :: byte and c suite key seed len previous result x
  assume "counter \<noteq> 0"
  moreover have "unat (counter + 1) = unat counter + 1" if "counter + 1 \<noteq> 0"
    using that by (rule byte_succ)
  moreover have "unat counter \<le> 255" using unat_byte [of counter] by linarith
  ultimately show "((c, suite, key, seed, len, counter + 1, x, result @ x),
      (c, suite, key, seed, len, counter, previous, result))
    \<in> measure (\<lambda>(c, suite, key, seed, len, counter, previous, result).
        if counter = 0 then 0 else 256 - unat counter)"
    by auto
qed simp

declare prfPlus_loop.simps [simp del]

definition prfPlus ::
  "crypto \<Rightarrow> negotiatedSuite \<Rightarrow> byte list \<Rightarrow> byte list \<Rightarrow> int \<Rightarrow> (crypt_err, byte list) res" where
  "prfPlus c suite key seed len =
     (if len < 0 then Inl (Fail ErrKeyStream)
      else rbind (prfPlus_loop c suite key seed (nat len) 1 [] []) (\<lambda>result.
             slice result 0 (nat len)))"

subsection \<open>Keys\<close>

record ikeKeys =
  SKd :: "byte list"
  SKai :: "byte list"
  SKar :: "byte list"
  SKei :: "byte list"
  SKer :: "byte list"
  SKpi :: "byte list"
  SKpr :: "byte list"

text \<open>The closure \<open>take\<close>: a piece of the stream, and what is left of it.\<close>

definition take_stream :: "nat \<Rightarrow> byte list \<Rightarrow> (crypt_err, byte list \<times> byte list) res" where
  "take_stream n stream =
     rbind (slice stream 0 n) (\<lambda>value. rbind (slice stream n (length stream)) (\<lambda>rest. Inr (value, rest)))"

definition deriveIKEKeys ::
  "crypto \<Rightarrow> negotiatedSuite \<Rightarrow> byte list \<Rightarrow> byte list \<Rightarrow> byte list \<Rightarrow> byte list \<Rightarrow> byte list
     \<Rightarrow> (crypt_err, ikeKeys) res" where
  "deriveIKEKeys c suite sharedSecret initiatorNonce responderNonce initiatorSPI responderSPI =
     rbind (suite_prf c suite) (\<lambda>(_, preferredLength).
     rbind (encryptionKeyLength suite) (\<lambda>encryptionLength.
     rbind (integrityLengths suite) (\<lambda>(integrityLength, _).
     rbind (ike_prf c suite (initiatorNonce @ responderNonce) sharedSecret) (\<lambda>skeyseed.
       let seed = initiatorNonce @ responderNonce @ initiatorSPI @ responderSPI;
           total = preferredLength + integrityLength * 2 + encryptionLength * 2 + preferredLength * 2
       in
     rbind (prfPlus c suite skeyseed seed (int total)) (\<lambda>stream.
     rbind (take_stream preferredLength stream) (\<lambda>(d, stream).
     rbind (take_stream integrityLength stream) (\<lambda>(ai, stream).
     rbind (take_stream integrityLength stream) (\<lambda>(ar, stream).
     rbind (take_stream encryptionLength stream) (\<lambda>(ei, stream).
     rbind (take_stream encryptionLength stream) (\<lambda>(er, stream).
     rbind (take_stream preferredLength stream) (\<lambda>(pi, stream).
     rbind (take_stream preferredLength stream) (\<lambda>(pr, stream).
       Inr \<lparr>SKd = d, SKai = ai, SKar = ar, SKei = ei, SKer = er, SKpi = pi, SKpr = pr\<rparr>))))))))))))"

definition deriveChildSAKeys ::
  "crypto \<Rightarrow> negotiatedSuite \<Rightarrow> espSuite \<Rightarrow> byte list \<Rightarrow> byte list \<Rightarrow> byte list
     \<Rightarrow> (crypt_err, byte list \<times> byte list \<times> byte list \<times> byte list) res" where
  "deriveChildSAKeys c ikeSuite childSuite skd initiatorNonce responderNonce =
     rbind (map_err Child (esp_encryptionKeyLength childSuite)) (\<lambda>encryptionLength.
     rbind (map_err Child (esp_integrityKeyLength childSuite)) (\<lambda>integrityLength.
     rbind (prfPlus c ikeSuite skd (initiatorNonce @ responderNonce)
              (int (2 * (encryptionLength + integrityLength)))) (\<lambda>stream.
     rbind (take_stream encryptionLength stream) (\<lambda>(oe, stream).
     rbind (take_stream integrityLength stream) (\<lambda>(oi, stream).
     rbind (take_stream encryptionLength stream) (\<lambda>(ie, stream).
     rbind (take_stream integrityLength stream) (\<lambda>(ii, stream).
       Inr (oe, oi, ie, ii))))))))"

subsection \<open>NAT detection\<close>

definition natDetectionHash ::
  "crypto \<Rightarrow> byte list \<Rightarrow> byte list \<Rightarrow> net_ip \<Rightarrow> 16 word \<Rightarrow> (crypt_err, byte list) res" where
  "natDetectionHash c initiatorSPI responderSPI ip port =
     rbind (case To4 ip of Some ip4 \<Rightarrow> Inr ip4
            | None \<Rightarrow> (case To16 ip of Some ip16 \<Rightarrow> Inr ip16 | None \<Rightarrow> Inl (Fail ErrNATAddress))) (\<lambda>ip.
       Inr (sha1_sum c (initiatorSPI @ responderSPI @ ip @ put_be16 port)))"

subsection \<open>PRF+ is the one of RFC 7296\<close>

text \<open>
  The reference: \<open>T1 = prf (K, S | 0x01)\<close>, \<open>Tn = prf (K, T(n-1) | S | n)\<close>, and the key stream is
  their concatenation.
\<close>

fun rfc_block :: "(byte list \<Rightarrow> byte list \<Rightarrow> byte list) \<Rightarrow> byte list \<Rightarrow> byte list \<Rightarrow> nat \<Rightarrow> byte list" where
  "rfc_block h key seed 0 = []"
| "rfc_block h key seed (Suc n) = h key (rfc_block h key seed n @ seed @ [of_nat (Suc n)])"

definition rfc_stream :: "(byte list \<Rightarrow> byte list \<Rightarrow> byte list) \<Rightarrow> byte list \<Rightarrow> byte list \<Rightarrow> nat \<Rightarrow> byte list" where
  "rfc_stream h key seed n = concat (map (\<lambda>i. rfc_block h key seed (Suc i)) [0..<n])"

lemma suite_prf_length:
  "crypto_ok c \<Longrightarrow> suite_prf c suite = Inr (h, l) \<Longrightarrow> length (h key data) = l \<and> (l = 20 \<or> l = 32)"
  by (auto simp: suite_prf_def crypto_lengths split: if_splits)

lemma length_rfc_stream:
  assumes "crypto_ok c" "suite_prf c suite = Inr (h, l)"
  shows "length (rfc_stream h key seed n) = n * l"
  using suite_prf_length [OF assms] by (induction n) (simp_all add: rfc_stream_def)

lemma prfPlus_loop_rfc:
  assumes c: "crypto_ok c" "suite_prf c suite = Inr (h, l)" and "k \<le> 255"
  shows "prfPlus_loop c suite key seed len (of_nat (k + 1)) (rfc_block h key seed k) (rfc_stream h key seed k)
    = (if len \<le> k * l then Inr (rfc_stream h key seed k)
       else if len \<le> 255 * l then Inr (rfc_stream h key seed ((len + l - 1) div l))
       else Inl (Fail ErrKeyStream))"
  using assms(3)
proof (induction "255 - k" arbitrary: k)
  case 0
  then have k: "k = 255" by simp
  have "(of_nat (k + 1) :: byte) = 0" unfolding k by code_simp
  then show ?case
    by (subst prfPlus_loop.simps) (simp add: length_rfc_stream [OF c] k)
next
  case (Suc m)
  have l: "0 < l" using suite_prf_length [OF c, of "[]" "[]"] by auto
  have k: "k < 255" using Suc(2) by simp
  have nz: "(of_nat (k + 1) :: byte) \<noteq> 0"
  proof
    assume "(of_nat (k + 1) :: byte) = 0"
    then have "unat (of_nat (k + 1) :: byte) = 0" by (simp only: unsigned_0)
    moreover have "unat (of_nat n :: byte) = n" if "n < 256" for n
      using that by (simp add: unat_of_nat take_bit_eq_mod)
    note this [of "k + 1"]
    ultimately show False using k by linarith
  qed
  have "ike_prf c suite key (rfc_block h key seed k @ seed @ [of_nat (k + 1)]) = Inr (rfc_block h key seed (Suc k))"
    by (simp add: ike_prf_def c)
  moreover have "rfc_stream h key seed k @ rfc_block h key seed (Suc k) = rfc_stream h key seed (Suc k)"
    by (simp add: rfc_stream_def)
  ultimately have step: "prfPlus_loop c suite key seed len (of_nat (k + 1)) (rfc_block h key seed k) (rfc_stream h key seed k)
    = (if len \<le> k * l then Inr (rfc_stream h key seed k)
       else prfPlus_loop c suite key seed len (of_nat (Suc k + 1)) (rfc_block h key seed (Suc k)) (rfc_stream h key seed (Suc k)))"
    using nz by (subst prfPlus_loop.simps) (simp add: length_rfc_stream [OF c] not_less add.commute del: rfc_block.simps)
  have ih: "prfPlus_loop c suite key seed len (of_nat (Suc k + 1)) (rfc_block h key seed (Suc k)) (rfc_stream h key seed (Suc k))
    = (if len \<le> Suc k * l then Inr (rfc_stream h key seed (Suc k))
       else if len \<le> 255 * l then Inr (rfc_stream h key seed ((len + l - 1) div l))
       else Inl (Fail ErrKeyStream))"
    using Suc(2) k by (intro Suc(1)) simp_all
  show ?case
  proof (cases "len \<le> k * l")
    case False
    show ?thesis
    proof (cases "len \<le> Suc k * l")
      case True
      have "(len + l - 1) div l = Suc k"
      proof (rule div_nat_eqI)
        show "l * Suc k \<le> len + l - 1" using False l by (simp add: mult.commute)
        show "len + l - 1 < l * Suc (Suc k)" using True l by (simp add: mult.commute)
      qed
      moreover have "len \<le> 255 * l" using True k mult_le_mono1 [of "Suc k" 255 l] by linarith
      ultimately show ?thesis using step ih False True by simp
    qed (use step ih False in simp)
  qed (use step in simp)
qed

lemma rfc_stream_take:
  assumes "crypto_ok c" "suite_prf c suite = Inr (h, l)" "m \<le> n" "len \<le> m * l"
  shows "take len (rfc_stream h key seed n) = take len (rfc_stream h key seed m)"
proof -
  have "[0..<n] = [0..<m] @ [m..<n]" using assms(3) upt_add_eq_append [of 0 m "n - m"] by simp
  then obtain rest where "rfc_stream h key seed n = rfc_stream h key seed m @ rest"
    by (simp add: rfc_stream_def)
  then show ?thesis using length_rfc_stream [OF assms(1,2)] assms(4) by simp
qed

lemma prfPlus_rfc:
  assumes c: "crypto_ok c" "suite_prf c suite = Inr (h, l)"
  shows "prfPlus c suite key seed len =
    (if 0 \<le> len \<and> nat len \<le> 255 * l then Inr (take (nat len) (rfc_stream h key seed 255))
     else Inl (Fail ErrKeyStream))"
proof (cases "0 \<le> len \<and> nat len \<le> 255 * l \<and> 0 < nat len")
  case True
  let ?n = "nat len" and ?m = "(nat len + l - 1) div l"
  have l: "0 < l" using suite_prf_length [OF c, of "[]" "[]"] by auto
  have m: "?m \<le> 255"
  proof -
    have "?n + l - 1 < 256 * l" using True l by linarith
    then have "?m < 256" using l by (simp add: div_less_iff_less_mult)
    then show ?thesis by simp
  qed
  have len: "?n \<le> ?m * l"
  proof -
    have "l * ?m + (?n + l - 1) mod l = ?n + l - 1" by simp
    moreover have "(?n + l - 1) mod l < l" using l by simp
    ultimately show ?thesis by (simp only: mult.commute [of ?m l]) linarith
  qed
  have "prfPlus_loop c suite key seed ?n 1 [] [] = Inr (rfc_stream h key seed ?m)"
    using prfPlus_loop_rfc [OF c, of 0 key seed ?n] True by (simp add: rfc_stream_def)
  then show ?thesis
    using True len length_rfc_stream [OF c] rfc_stream_take [OF c m len]
    by (simp add: prfPlus_def)
next
  case False
  then show ?thesis
    using prfPlus_loop_rfc [OF c, of 0 key seed "nat len"] by (auto simp: prfPlus_def rfc_stream_def)
qed

lemma take_stream_ok:
  "length x = n \<Longrightarrow> take_stream n (x @ y) = Inr (x, y)" "take_stream (length x) x = Inr (x, [])"
  by (auto simp: take_stream_def)

lemma stream_pieces:
  "length xs = sum_list ns \<Longrightarrow> \<exists>ps. map length ps = ns \<and> concat ps = xs"
proof (induction ns arbitrary: xs)
  case (Cons n ns)
  then have "length (drop n xs) = sum_list ns" by simp
  then obtain ps where "map length ps = ns" "concat ps = drop n xs" using Cons.IH by blast
  then show ?case using Cons.prems by (intro exI [of _ "take n xs # ps"]) simp
qed simp

subsection \<open>Diffie-Hellman\<close>

definition modpPrimes :: "16 word \<Rightarrow> gostring option" where
  "modpPrimes groupID =
     (if groupID = dhMODP1024 then Some
       (str ''FFFFFFFFFFFFFFFFC90FDAA22168C234C4C6628B80DC1CD1''
       @ str ''29024E088A67CC74020BBEA63B139B22514A08798E3404DD''
       @ str ''EF9519B3CD3A431B302B0A6DF25F14374FE1356D6D51C245''
       @ str ''E485B576625E7EC6F44C42E9A637ED6B0BFF5CB6F406B7ED''
       @ str ''EE386BFB5A899FA5AE9F24117C4B1FE649286651ECE65381''
       @ str ''FFFFFFFFFFFFFFFF'')
      else if groupID = dhMODP2048 then Some
       (str ''FFFFFFFFFFFFFFFFC90FDAA22168C234C4C6628B80DC1CD1''
       @ str ''29024E088A67CC74020BBEA63B139B22514A08798E3404DD''
       @ str ''EF9519B3CD3A431B302B0A6DF25F14374FE1356D6D51C245''
       @ str ''E485B576625E7EC6F44C42E9A637ED6B0BFF5CB6F406B7ED''
       @ str ''EE386BFB5A899FA5AE9F24117C4B1FE649286651ECE45B3D''
       @ str ''C2007CB8A163BF0598DA48361C55D39A69163FA8FD24CF5F''
       @ str ''83655D23DCA3AD961C62F356208552BB9ED529077096966D''
       @ str ''670C354E4ABC9804F1746C08CA18217C32905E462E36CE3B''
       @ str ''E39E772C180E86039B2783A2EC07A28FB5C55DF06F4C52C9''
       @ str ''DE2BCBF6955817183995497CEA956AE515D2261898FA0510''
       @ str ''15728E5A8AACAA68FFFFFFFFFFFFFFFF'')
      else None)"

record dhExchange =
  dh_Group :: "16 word"
  dh_prime :: nat
  dh_private :: nat
  dh_Public :: "byte list"

definition mod_exp :: "nat \<Rightarrow> nat \<Rightarrow> nat \<Rightarrow> nat" where
  "mod_exp x y m = x ^ y mod m"

definition newDHExchange :: "16 word \<Rightarrow> byte list \<Rightarrow> (crypt_err, dhExchange) res" where
  "newDHExchange groupID random =
     (case modpPrimes groupID of
        None \<Rightarrow> Inl (Fail ErrGroup)
      | Some primeHex \<Rightarrow>
          (case hex_decode primeHex of
             None \<Rightarrow> Inl (Fail ErrGroup)
           | Some primeBytes \<Rightarrow>
               let prime = octets_value primeBytes in
               (case fst (read_full (length primeBytes) random) of
                  None \<Rightarrow> Inl (Fail ErrReader)
                | Some sample \<Rightarrow>
                    let private = octets_value sample mod (prime - 3) + 2 in
                    rbind (fill_bytes (length primeBytes) (mod_exp 2 private prime)) (\<lambda>public.
                      Inr \<lparr>dh_Group = groupID, dh_prime = prime, dh_private = private, dh_Public = public\<rparr>))))"

text \<open>A nil exchange is \<open>None\<close>; the constructor leaves no field nil.\<close>

definition dh_shared :: "dhExchange option \<Rightarrow> byte list \<Rightarrow> (crypt_err, byte list) res" where
  "dh_shared exchange peerPublic =
     (case exchange of
        None \<Rightarrow> Inl (Fail ErrDHState)
      | Some x \<Rightarrow>
          if length peerPublic \<noteq> length (dh_Public x) then Inl (Fail ErrDHLength)
          else
            let peer = octets_value peerPublic; upper = dh_prime x - 2 in
            if peer < 2 \<or> peer > upper then Inl (Fail ErrDHRange)
            else
              let shared = mod_exp peer (dh_private x) (dh_prime x) in
              if shared = 0 \<or> shared = 1 then Inl (Fail ErrDHTrivial)
              else fill_bytes (length (dh_Public x)) shared)"

lemma newDHExchange_ok:
  assumes "newDHExchange g random = Inr x"
  shows "octets_value (dh_Public x) = mod_exp 2 (dh_private x) (dh_prime x)"
    "\<exists>hexs bs. modpPrimes g = Some hexs \<and> hex_decode hexs = Some bs
       \<and> dh_prime x = octets_value bs \<and> length (dh_Public x) = length bs"
  using assms octets_value_fill
  by (auto simp: newDHExchange_def Let_def rbind_Inr_iff split: option.splits)

lemma mod_exp_agree: "mod_exp (mod_exp g a p) b p = mod_exp (mod_exp g b p) a p"
  by (simp add: mod_exp_def power_mod mult.commute flip: power_mult)

lemma prime_hex_value:
  "hex_val a = Some h \<Longrightarrow> hex_val b = Some l \<Longrightarrow> hex_decode s = Some bs \<Longrightarrow>
   hex_decode (a # b # s) = Some (of_nat (16 * h + l) # bs)"
  by simp

lemma prime1024:
  "\<exists>hexs bs. modpPrimes dhMODP1024 = Some hexs \<and> hex_decode hexs = Some (0xff # bs) \<and> length bs = 127"
proof -
  have "map_option (\<lambda>hexs. map_option (\<lambda>bs. (hd bs, length bs)) (hex_decode hexs)) (modpPrimes dhMODP1024)
      = Some (Some (0xff, 128))"
    by code_simp
  then obtain hexs bs where "modpPrimes dhMODP1024 = Some hexs" "hex_decode hexs = Some bs"
      "hd bs = 0xff" "length bs = 128" by auto
  then show ?thesis by (cases bs) auto
qed

subsection \<open>Properties\<close>

text \<open>
  C15: Key derivation follows RFC 7296.  PRF+ gives the first octets of T1 | T2 | ... | T255 and fails
  for longer streams or a negative length; with a supported suite the seven IKE keys always exist,
  have the lengths of the suite, and laid end to end are the PRF+ stream of SKEYSEED over both nonces
  and SPIs, so they never overlap.
\<close>

theorem ike_keys_derived:
  assumes "crypto_ok c" "supported_suite suite" "suite_prf c suite = Inr (h, l)"
  shows "prfPlus c suite key seed len = (if 0 \<le> len \<and> nat len \<le> 255 * l
      then Inr (take (nat len) (rfc_stream h key seed 255)) else Inl (Fail ErrKeyStream))
    \<and> (\<exists>keys e i k. deriveIKEKeys c suite shared ni nr spii spir = Inr keys
      \<and> encryptionKeyLength suite = Inr e \<and> integrityLengths suite = Inr (i, k)
      \<and> map length [SKd keys, SKai keys, SKar keys, SKei keys, SKer keys, SKpi keys, SKpr keys]
          = [l, i, i, e, e, l, l]
      \<and> SKd keys @ SKai keys @ SKar keys @ SKei keys @ SKer keys @ SKpi keys @ SKpr keys
          = take (3 * l + 2 * i + 2 * e) (rfc_stream h (h (ni @ nr) shared) (ni @ nr @ spii @ spir) 255))"
proof
  show "prfPlus c suite key seed len = (if 0 \<le> len \<and> nat len \<le> 255 * l
      then Inr (take (nat len) (rfc_stream h key seed 255)) else Inl (Fail ErrKeyStream))"
    by (rule prfPlus_rfc [OF assms(1,3)])
  obtain e i k where e: "encryptionKeyLength suite = Inr e" "e \<le> 32"
    and i: "integrityLengths suite = Inr (i, k)" "i \<le> 32"
    using assms(2) by (auto simp: supported_suite_def encryptionKeyLength_def integrityLengths_def ike_constants)
  have l: "l = 20 \<or> l = 32" using suite_prf_length [OF assms(1,3), of "[]" "[]"] by simp
  define stream where "stream = take (l + i * 2 + e * 2 + l * 2)
    (rfc_stream h (h (ni @ nr) shared) (ni @ nr @ spii @ spir) 255)"
  have p: "prfPlus c suite (h (ni @ nr) shared) (ni @ nr @ spii @ spir) (int (l + i * 2 + e * 2 + l * 2)) = Inr stream"
  proof -
    have "l + i * 2 + e * 2 + l * 2 \<le> 255 * l" using l e(2) i(2) by auto
    then show ?thesis unfolding prfPlus_rfc [OF assms(1,3)] nat_int stream_def by simp
  qed
  have len: "length stream = l + i * 2 + e * 2 + l * 2"
    using l e(2) i(2) by (auto simp: stream_def length_rfc_stream [OF assms(1,3)])
  then obtain d ai ar ei er pi pr where stream: "stream = d @ ai @ ar @ ei @ er @ pi @ pr"
    and sizes: "map length [d, ai, ar, ei, er, pi, pr] = [l, i, i, e, e, l, l]"
    using stream_pieces [of stream "[l, i, i, e, e, l, l]"] by (auto simp: map_eq_Cons_conv)
  define keys where "keys = \<lparr>SKd = d, SKai = ai, SKar = ar, SKei = ei, SKer = er, SKpi = pi, SKpr = pr\<rparr>"
  have "take_stream l pr = Inr (pr, [])" using take_stream_ok(2) [of pr] sizes by simp
  then have keys: "deriveIKEKeys c suite shared ni nr spii spir = Inr keys"
    using p sizes unfolding stream
    by (simp add: deriveIKEKeys_def ike_prf_def assms(3) e(1) i(1) Let_def take_stream_ok(1) keys_def)
  show "\<exists>keys e i k. deriveIKEKeys c suite shared ni nr spii spir = Inr keys
      \<and> encryptionKeyLength suite = Inr e \<and> integrityLengths suite = Inr (i, k)
      \<and> map length [SKd keys, SKai keys, SKar keys, SKei keys, SKer keys, SKpi keys, SKpr keys]
          = [l, i, i, e, e, l, l]
      \<and> SKd keys @ SKai keys @ SKar keys @ SKei keys @ SKer keys @ SKpi keys @ SKpr keys
          = take (3 * l + 2 * i + 2 * e) (rfc_stream h (h (ni @ nr) shared) (ni @ nr @ spii @ spir) 255)"
  proof (rule exI [of _ keys], rule exI [of _ e], rule exI [of _ i], rule exI [of _ k], intro conjI)
    have "3 * l + 2 * i + 2 * e = l + i * 2 + e * 2 + l * 2" by simp
    then show "SKd keys @ SKai keys @ SKar keys @ SKei keys @ SKer keys @ SKpi keys @ SKpr keys
        = take (3 * l + 2 * i + 2 * e) (rfc_stream h (h (ni @ nr) shared) (ni @ nr @ spii @ spir) 255)"
      by (simp only: keys_def ikeKeys.simps stream [symmetric] stream_def)
  qed (use keys e(1) i(1) sizes in \<open>simp_all add: keys_def\<close>)
qed

theorem ike_keys_derived_witness:
  "\<exists>keys. deriveIKEKeys plain_crypto \<lparr>EncryptionID = 12, EncryptionBits = 256, PRFID = 5,
      IntegrityID = 12, DHID = 14\<rparr> [1] [2] [3] [4] [5] = Inr keys
    \<and> length (SKd keys) = 32 \<and> length (SKei keys) = 32"
proof -
  let ?suite = "\<lparr>EncryptionID = 12, EncryptionBits = 256, PRFID = 5, IntegrityID = 12, DHID = 14\<rparr>"
  have s: "supported_suite ?suite" "suite_prf plain_crypto ?suite = Inr (hmac_sha256 plain_crypto, 32)"
    "encryptionKeyLength ?suite = Inr 32"
    by (simp_all add: supported_suite_def suite_prf_def encryptionKeyLength_def ike_constants)
  show ?thesis
    using ike_keys_derived [OF plain_crypto_ok s(1,2), of "[]" "[]" 0 "[1]" "[2]" "[3]" "[4]" "[5]"] s(3)
    by auto
qed

text \<open>
  Both ends of a Diffie-Hellman exchange that accept each other's public value compute the same
  secret; it has the length of the group and is never 0 or 1.
\<close>

theorem dh_agreement:
  assumes "newDHExchange groupID ra = Inr a" "newDHExchange groupID rb = Inr b"
    and "dh_shared (Some a) (dh_Public b) = Inr s" "dh_shared (Some b) (dh_Public a) = Inr t"
  shows "s = t \<and> length s = length (dh_Public a) \<and> 1 < octets_value s \<and> octets_value s < dh_prime a"
proof -
  note a = newDHExchange_ok [OF assms(1)] and b = newDHExchange_ok [OF assms(2)]
  have p: "dh_prime a = dh_prime b" and len: "length (dh_Public a) = length (dh_Public b)"
    using a(2) b(2) by auto
  define va where "va = mod_exp (octets_value (dh_Public b)) (dh_private a) (dh_prime a)"
  have s: "fill_bytes (length (dh_Public a)) va = (Inr s :: (crypt_err, byte list) res)" "1 < va"
    and range: "2 \<le> dh_prime a - 2"
    using assms(3) by (auto simp: dh_shared_def Let_def va_def split: if_splits)
  have "va = mod_exp (octets_value (dh_Public a)) (dh_private b) (dh_prime b)"
    unfolding va_def a(1) b(1) p by (rule mod_exp_agree)
  then have "fill_bytes (length (dh_Public a)) va = (Inr t :: (crypt_err, byte list) res)"
    using assms(4) by (auto simp: dh_shared_def Let_def len split: if_splits)
  moreover have "va < dh_prime a" using range by (simp add: va_def mod_exp_def)
  ultimately show ?thesis using s octets_value_fill [OF s(1)] by simp
qed

lemma sample_exchange:
  assumes r: "length random = 128" "octets_value random < 100"
  shows "\<exists>x. newDHExchange dhMODP1024 random = Inr x \<and> 2 ^ 1000 < dh_prime x \<and> dh_prime x < 256 ^ 128
    \<and> dh_private x = octets_value random + 2 \<and> length (dh_Public x) = 128
    \<and> octets_value (dh_Public x) = 2 ^ (octets_value random + 2)"
proof -
  obtain hexs bs where hexs: "modpPrimes dhMODP1024 = Some hexs" "hex_decode hexs = Some (0xff # bs)" "length bs = 127"
    using prime1024 by blast
  define p v where "p = octets_value (0xff # bs)" and "v = (2 :: nat) ^ (octets_value random + 2)"
  have "256 ^ 127 * 255 \<le> p" using hexs(3) by (simp add: p_def)
  moreover have "(2 :: nat) ^ 1000 < 256 ^ 127 * 255" by simp
  ultimately have p: "2 ^ 1000 < p" by linarith
  have p': "p < 256 ^ 128" using octets_value_less [of "0xff # bs"] hexs(3) by (simp add: p_def)
  have "v < 2 ^ 1000" unfolding v_def using r(2) by (intro power_strict_increasing) simp_all
  with p have v: "v < p" by linarith
  have "(103 :: nat) < 2 ^ 1000" by simp
  with p r(2) have small: "octets_value random < p - 3" by linarith
  obtain public where f: "fill_bytes 128 v = (Inr public :: (crypt_err, byte list) res)"
    using v p' by (simp add: fill_bytes_def del: power_Suc)
  have "newDHExchange dhMODP1024 random
      = Inr \<lparr>dh_Group = dhMODP1024, dh_prime = p, dh_private = octets_value random + 2, dh_Public = public\<rparr>"
    using hexs small v f r(1)
    by (simp add: newDHExchange_def Let_def read_full_def mod_exp_def p_def [symmetric] v_def
        del: octets_value_simps power_Suc power_add_numeral)
  then show ?thesis
    using p p' octets_value_fill [OF f] by (intro exI) (auto simp: v_def)
qed

theorem dh_agreement_witness:
  "\<exists>a b s. newDHExchange dhMODP1024 (replicate 128 0) = Inr a
     \<and> newDHExchange dhMODP1024 (replicate 127 0 @ [1]) = Inr b
     \<and> dh_shared (Some a) (dh_Public b) = Inr s \<and> dh_shared (Some b) (dh_Public a) = Inr s"
proof -
  have z: "octets_value (replicate n 0) = 0" for n by (induction n) simp_all
  obtain a where a: "newDHExchange dhMODP1024 (replicate 128 0) = Inr a" "2 ^ 1000 < dh_prime a"
    "dh_prime a < 256 ^ 128" "dh_private a = 2" "length (dh_Public a) = 128" "octets_value (dh_Public a) = 4"
    using sample_exchange [of "replicate 128 0"] z by (auto simp del: replicate.simps)
  obtain b where b: "newDHExchange dhMODP1024 (replicate 127 0 @ [1]) = Inr b" "2 ^ 1000 < dh_prime b"
    "dh_prime b < 256 ^ 128" "dh_private b = 3" "length (dh_Public b) = 128" "octets_value (dh_Public b) = 8"
    using sample_exchange [of "replicate 127 0 @ [1]"] z by (auto simp: octets_value_append)
  have big: "(100 :: nat) < 2 ^ 1000" by simp
  have p: "64 < dh_prime a" "8 \<le> dh_prime a - 2" "64 < dh_prime b" "4 \<le> dh_prime b - 2"
    using a(2) b(2) big by linarith+
  have "(64 :: nat) < 256 ^ 128" by simp
  then obtain s where f: "fill_bytes 128 64 = (Inr s :: (crypt_err, byte list) res)"
    by (simp add: fill_bytes_def)
  have s: "dh_shared (Some a) (dh_Public b) = Inr s"
    using a b p f by (simp add: dh_shared_def Let_def mod_exp_def)
  have t: "dh_shared (Some b) (dh_Public a) = Inr s"
    using a b p f by (simp add: dh_shared_def Let_def mod_exp_def)
  show ?thesis using dh_agreement [OF a(1) b(1) s t] a(1) b(1) s t by blast
qed

end
