(* ===== verification/Ike_Sk.thy ===== *)
theory Ike_Sk
  imports Ike_Keys "HOL-Library.AList"
begin

text \<open>
  The encrypted payloads of IKEv2, \<open>internal/vowifi/ike/crypto.go\<close>: sealing a payload chain into one
  SK packet or into SKF fragments, and opening them again.  The operations that draw random octets
  return the rest of the source; a failed call consumes what it read.  Go's map of fragments is an
  association list with distinct keys.
\<close>

definition payloadEncryptedFragment :: byte where
  "payloadEncryptedFragment = 53"

definition integrityMAC ::
  "crypto \<Rightarrow> negotiatedSuite \<Rightarrow> byte list \<Rightarrow> byte list \<Rightarrow> (crypt_err, byte list) res" where
  "integrityMAC c suite key packetWithoutChecksum =
     rbind (if IntegrityID suite = integrityHMACSHA1_96 then Inr (hmac_sha1 c)
            else if IntegrityID suite = integrityHMACSHA256_128 then Inr (hmac_sha256 c)
            else Inl (Fail (Ike ErrUnsupportedSuite))) (\<lambda>hash.
     rbind (integrityLengths suite) (\<lambda>(_, checksumLength).
       slice (hash key packetWithoutChecksum) 0 checksumLength))"

subsection \<open>Sealing\<close>

text \<open>\<open>aes.NewCipher\<close> gives a block, here its key, or refuses the key length.\<close>

definition new_cipher :: "byte list \<Rightarrow> (crypt_err, byte list) res" where
  "new_cipher key = (if aes_key_ok key then Inr key else Inl (Fail ErrAESKey))"

text \<open>Padding and initialisation vector from the random source, then CBC.\<close>

definition cbc_padding :: "byte list \<Rightarrow> nat" where
  "cbc_padding plaintext =
     (let p = aes_block - (length plaintext + 1) mod aes_block in if p = aes_block then 0 else p)"

definition seal_cbc ::
  "crypto \<Rightarrow> byte list \<Rightarrow> byte list \<Rightarrow> byte list \<Rightarrow> (crypt_err, byte list \<times> byte list) res \<times> byte list" where
  "seal_cbc c block plaintext random =
     (let paddingLength = cbc_padding plaintext;
          (padding, random) = read_full paddingLength random
      in case padding of
           None \<Rightarrow> (Inl (Fail ErrReader), random)
         | Some padding \<Rightarrow>
             let padded = plaintext @ padding @ [of_nat paddingLength];
                 (iv, random) = read_full aes_block random
             in case iv of
                  None \<Rightarrow> (Inl (Fail ErrReader), random)
                | Some iv \<Rightarrow> (Inr (iv, cbc_encrypt c block iv padded), random))"

text \<open>
  The packet around a body whose last octets are left for the checksum, and the checksum written
  over them.
\<close>

definition checked_packet ::
  "crypto \<Rightarrow> negotiatedSuite \<Rightarrow> byte list \<Rightarrow> ikeHeader \<Rightarrow> byte list \<Rightarrow> nat \<Rightarrow> (crypt_err, byte list) res" where
  "checked_packet c suite integrityKey header body checksumLength =
     (let packet = marshal_packet header body in
      rbind (slice packet 0 (length packet - checksumLength)) (\<lambda>authenticated.
      rbind (integrityMAC c suite integrityKey authenticated) (\<lambda>checksum.
        Inr (authenticated @ take checksumLength checksum
             @ drop (length authenticated + length (take checksumLength checksum)) packet))))"

definition encryptPayloads ::
  "crypto \<Rightarrow> ikeHeader \<Rightarrow> payload list \<Rightarrow> negotiatedSuite \<Rightarrow> byte list \<Rightarrow> byte list \<Rightarrow> byte list
     \<Rightarrow> (crypt_err, byte list) res \<times> byte list" where
  "encryptPayloads c header inner suite encryptionKey integrityKey random =
     (case rbind (map_err Ike (marshalPayloadChain inner)) (\<lambda>fp.
             rbind (new_cipher encryptionKey) (\<lambda>block. Inr (fp, block))) of
        Inl e \<Rightarrow> (Inl e, random)
      | Inr ((first, plaintext), block) \<Rightarrow>
          let (sealed, random) = seal_cbc c block plaintext random in
          (rbind sealed (\<lambda>(iv, ciphertext).
           rbind (integrityLengths suite) (\<lambda>(_, checksumLength).
             let skLength = 4 + length iv + length ciphertext + checksumLength in
             if skLength > 65535 then Inl (Fail ErrPayloadSize)
             else
               let body = [first, 0] @ put_be16 (of_nat skLength) @ iv @ ciphertext @ replicate checksumLength 0
               in checked_packet c suite integrityKey (header\<lparr>NextPayload := payloadEncrypted\<rparr>) body checksumLength)),
           random))"

text \<open>The plaintext cut into chunks.\<close>

function chunk_loop :: "nat \<Rightarrow> byte list \<Rightarrow> byte list list" where
  "chunk_loop maxChunk plaintext =
     (if length plaintext > 0 \<and> maxChunk > 0 then
        let n = (if length plaintext > maxChunk then maxChunk else length plaintext)
        in take n plaintext # chunk_loop maxChunk (drop n plaintext)
      else [])"
  by pat_completeness auto
termination
  by (relation "measure (\<lambda>(m, p). length p)") (auto simp: Let_def)

declare chunk_loop.simps [simp del]

definition fragment_packet ::
  "crypto \<Rightarrow> ikeHeader \<Rightarrow> negotiatedSuite \<Rightarrow> byte list \<Rightarrow> byte list \<Rightarrow> nat \<Rightarrow> byte \<Rightarrow> 16 word \<Rightarrow> 16 word
     \<Rightarrow> byte list \<Rightarrow> byte list \<Rightarrow> (crypt_err, byte list) res \<times> byte list" where
  "fragment_packet c header suite block integrityKey checksumLength fragNext fragNum totalFragments chunk random =
     (let (sealed, random) = seal_cbc c block chunk random in
      (rbind sealed (\<lambda>(iv, ciphertext).
         let skfLength = 4 + 4 + length iv + length ciphertext + checksumLength in
         if skfLength > 65535 then Inl (Fail ErrPayloadSize)
         else
           let body = [fragNext, 0] @ put_be16 (of_nat skfLength) @ put_be16 fragNum @ put_be16 totalFragments
                 @ iv @ ciphertext @ replicate checksumLength 0
           in checked_packet c suite integrityKey (header\<lparr>NextPayload := payloadEncryptedFragment\<rparr>) body checksumLength),
       random))"

text \<open>The loop over the chunks; \<open>index\<close> counts from zero.\<close>

fun fragment_loop ::
  "crypto \<Rightarrow> ikeHeader \<Rightarrow> negotiatedSuite \<Rightarrow> byte list \<Rightarrow> byte list \<Rightarrow> nat \<Rightarrow> byte \<Rightarrow> 16 word \<Rightarrow> nat
     \<Rightarrow> byte list list \<Rightarrow> byte list \<Rightarrow> (crypt_err, byte list list) res \<times> byte list" where
  "fragment_loop c header suite block integrityKey checksumLength first totalFrags index [] random = (Inr [], random)"
| "fragment_loop c header suite block integrityKey checksumLength first totalFrags index (chunk # chunks) random =
     (let fragNum = of_nat (index + 1);
          fragNext = (if fragNum = 1 then first else payloadNone)
      in case fragment_packet c header suite block integrityKey checksumLength fragNext fragNum totalFrags chunk random of
           (Inl e, random) \<Rightarrow> (Inl e, random)
         | (Inr packet, random) \<Rightarrow>
             (case fragment_loop c header suite block integrityKey checksumLength first totalFrags (index + 1) chunks random of
                (r, random) \<Rightarrow> (rbind r (\<lambda>packets. Inr (packet # packets)), random)))"

definition defaultIKEFragmentSize :: int where
  "defaultIKEFragmentSize = 1100"

definition max_chunk :: "int \<Rightarrow> nat \<Rightarrow> nat" where
  "max_chunk maxFragmentSize checksumLength =
     (let size = (if maxFragmentSize \<le> 0 then defaultIKEFragmentSize else maxFragmentSize);
          maxChunk = size - int ikeHeaderLength - 8 - int aes_block - int aes_block - int checksumLength
      in if maxChunk < 64 then 64 else nat maxChunk)"

definition encryptPayloadsFragmented ::
  "crypto \<Rightarrow> ikeHeader \<Rightarrow> payload list \<Rightarrow> negotiatedSuite \<Rightarrow> byte list \<Rightarrow> byte list \<Rightarrow> int \<Rightarrow> byte list
     \<Rightarrow> (crypt_err, byte list list) res \<times> byte list" where
  "encryptPayloadsFragmented c header inner suite encryptionKey integrityKey maxFragmentSize random =
     (case rbind (map_err Ike (marshalPayloadChain inner)) (\<lambda>fp.
             rbind (new_cipher encryptionKey) (\<lambda>block.
             rbind (integrityLengths suite) (\<lambda>(_, checksumLength). Inr (fp, block, checksumLength)))) of
        Inl e \<Rightarrow> (Inl e, random)
      | Inr ((first, plaintext), block, checksumLength) \<Rightarrow>
          let chunks = chunk_loop (max_chunk maxFragmentSize checksumLength) plaintext in
          if length chunks \<le> 1 then
            (let (r, random) = encryptPayloads c header inner suite encryptionKey integrityKey random
             in (rbind r (\<lambda>packet. Inr [packet]), random))
          else fragment_loop c header suite block integrityKey checksumLength first
                 (of_nat (length chunks)) 0 chunks random)"

subsection \<open>Opening\<close>

text \<open>The checksum of a packet, compared with the one computed over the octets before it.\<close>

definition check_integrity ::
  "crypto \<Rightarrow> negotiatedSuite \<Rightarrow> byte list \<Rightarrow> nat \<Rightarrow> byte list \<Rightarrow> (crypt_err, unit) res" where
  "check_integrity c suite integrityKey checksumLength packet =
     rbind (slice packet 0 (length packet - checksumLength)) (\<lambda>authenticated.
     rbind (integrityMAC c suite integrityKey authenticated) (\<lambda>expected.
     rbind (slice packet (length packet - checksumLength) (length packet)) (\<lambda>actual.
       if actual \<noteq> expected then Inl (Fail (Ike ErrIntegrity)) else Inr ())))"

text \<open>The ciphertext behind the vector at \<open>ivStart\<close>, decrypted, its padding removed.\<close>

definition open_cbc ::
  "crypto \<Rightarrow> byte list \<Rightarrow> nat \<Rightarrow> nat \<Rightarrow> byte list \<Rightarrow> (crypt_err, byte list) res" where
  "open_cbc c block checksumLength ivStart body =
     rbind (slice body (ivStart + aes_block) (length body - checksumLength)) (\<lambda>ciphertext.
     if length ciphertext = 0 \<or> length ciphertext mod aes_block \<noteq> 0 then Inl (Fail (Ike ErrMalformed))
     else rbind (slice body ivStart (ivStart + aes_block)) (\<lambda>iv.
       let plaintext = cbc_decrypt c block iv ciphertext in
       rbind (idx plaintext (length plaintext - 1)) (\<lambda>p.
         let paddingLength = unat p in
         if paddingLength + 1 > length plaintext then Inl (Fail (Ike ErrMalformed))
         else slice plaintext 0 (length plaintext - paddingLength - 1))))"

definition decryptPayloads ::
  "crypto \<Rightarrow> byte list \<Rightarrow> negotiatedSuite \<Rightarrow> byte list \<Rightarrow> byte list
     \<Rightarrow> (crypt_err, ikeHeader \<times> payload list) res" where
  "decryptPayloads c packet suite encryptionKey integrityKey =
     rbind (map_err Ike (parseIKEPacket packet)) (\<lambda>(header, body).
     if NextPayload header \<noteq> payloadEncrypted \<or> length body < 4 then Inl (Fail (Ike ErrUnexpected))
     else rbind (u16_at body 2) (\<lambda>skLength.
     if unat skLength \<noteq> length body then Inl (Fail (Ike ErrMalformed))
     else rbind (new_cipher encryptionKey) (\<lambda>block.
          rbind (integrityLengths suite) (\<lambda>(_, checksumLength).
          if length body < 4 + aes_block + aes_block + checksumLength then Inl (Fail (Ike ErrMalformed))
          else rbind (check_integrity c suite integrityKey checksumLength packet) (\<lambda>_.
               rbind (open_cbc c block checksumLength 4 body) (\<lambda>plaintext.
               rbind (idx body 0) (\<lambda>first.
               rbind (map_err Ike (parsePayloadChain first plaintext)) (\<lambda>payloads.
                 Inr (header, payloads)))))))))"

definition decryptSingleFragment ::
  "crypto \<Rightarrow> byte list \<Rightarrow> negotiatedSuite \<Rightarrow> byte list \<Rightarrow> byte list
     \<Rightarrow> (crypt_err, ikeHeader \<times> byte \<times> 16 word \<times> 16 word \<times> byte list) res" where
  "decryptSingleFragment c packet suite encryptionKey integrityKey =
     rbind (map_err Ike (parseIKEPacket packet)) (\<lambda>(header, body).
     if NextPayload header \<noteq> payloadEncryptedFragment \<or> length body < 8 then Inl (Fail (Ike ErrUnexpected))
     else rbind (u16_at body 2) (\<lambda>skfLength.
     if unat skfLength \<noteq> length body then Inl (Fail (Ike ErrMalformed))
     else rbind (new_cipher encryptionKey) (\<lambda>block.
          rbind (integrityLengths suite) (\<lambda>(_, checksumLength).
          if length body < 8 + aes_block + aes_block + checksumLength then Inl (Fail (Ike ErrMalformed))
          else rbind (check_integrity c suite integrityKey checksumLength packet) (\<lambda>_.
               rbind (idx body 0) (\<lambda>fragNext.
               rbind (u16_at body 4) (\<lambda>fragNum.
               rbind (u16_at body 6) (\<lambda>totalFrags.
               if fragNum = 0 \<or> totalFrags = 0 \<or> fragNum > totalFrags then Inl (Fail (Ike ErrMalformed))
               else rbind (open_cbc c block checksumLength 8 body) (\<lambda>plaintext.
                 Inr (header, fragNext, fragNum, totalFrags, plaintext))))))))))"

text \<open>The state of the loop over the fragments of one message.\<close>

record reassembly =
  firstHeader :: ikeHeader
  firstNext :: byte
  totalExpected :: "16 word"
  plaintexts :: "(16 word \<times> byte list) list"

definition absorb_header :: "reassembly \<Rightarrow> ikeHeader \<Rightarrow> 16 word \<Rightarrow> (crypt_err, reassembly) res" where
  "absorb_header s hdr totalFrags =
     (if totalExpected s = 0 then Inr (s\<lparr>firstHeader := hdr, totalExpected := totalFrags\<rparr>)
      else if totalFrags \<noteq> totalExpected s \<or> MessageID hdr \<noteq> MessageID (firstHeader s)
              \<or> Exchange hdr \<noteq> Exchange (firstHeader s)
      then Inl (Fail (Ike ErrMalformed))
      else Inr s)"

fun reassembly_loop ::
  "crypto \<Rightarrow> negotiatedSuite \<Rightarrow> byte list \<Rightarrow> byte list \<Rightarrow> byte list list \<Rightarrow> reassembly
     \<Rightarrow> (crypt_err, reassembly) res" where
  "reassembly_loop c suite encryptionKey integrityKey [] s = Inr s"
| "reassembly_loop c suite encryptionKey integrityKey (fragPacket # rest) s =
     rbind (decryptSingleFragment c fragPacket suite encryptionKey integrityKey)
       (\<lambda>(hdr, nxt, num, totalFrags, plain).
        rbind (absorb_header s hdr totalFrags) (\<lambda>s.
        let s = (if num = 1 then s\<lparr>firstNext := nxt\<rparr> else s) in
        reassembly_loop c suite encryptionKey integrityKey rest
          (s\<lparr>plaintexts := AList.update num plain (plaintexts s)\<rparr>)))"

text \<open>
  The loop that joins the chunks; its 16-bit counter would pass the last fragment of 65535 and wrap,
  so it is not bounded by itself.
\<close>

partial_function (option) join_loop ::
  "(16 word \<times> byte list) list \<Rightarrow> 16 word \<Rightarrow> 16 word \<Rightarrow> byte list \<Rightarrow> (crypt_err, byte list) res option" where
  "join_loop pts totalFrags i full =
     (if \<not> i \<le> totalFrags then Some (Inr full)
      else case map_of pts i of
             None \<Rightarrow> Some (Inl (Fail (Ike ErrMalformed)))
           | Some chunk \<Rightarrow> join_loop pts totalFrags (i + 1) (full @ chunk))"

definition empty_header :: ikeHeader where
  "empty_header = \<lparr>InitiatorSPI = replicate 8 0, ResponderSPI = replicate 8 0, NextPayload = 0,
     Version = 0, Exchange = 0, Flags = 0, MessageID = 0, Length = 0\<rparr>"

definition decryptPayloadsAny ::
  "crypto \<Rightarrow> byte list \<Rightarrow> byte list list \<Rightarrow> negotiatedSuite \<Rightarrow> byte list \<Rightarrow> byte list
     \<Rightarrow> (crypt_err, ikeHeader \<times> payload list) res" where
  "decryptPayloadsAny c packet fragments suite encryptionKey integrityKey =
     (if length fragments > 0 then
        rbind (reassembly_loop c suite encryptionKey integrityKey fragments
                 \<lparr>firstHeader = empty_header, firstNext = 0, totalExpected = 0, plaintexts = []\<rparr>) (\<lambda>s.
        if of_nat (length (plaintexts s)) \<noteq> totalExpected s then Inl (Fail (Ike ErrMalformed))
        else rbind (of_loop (join_loop (plaintexts s) (totalExpected s) 1 [])) (\<lambda>joined.
             rbind joined (\<lambda>full.
             rbind (map_err Ike (parsePayloadChain (firstNext s) full)) (\<lambda>payloads.
               Inr (firstHeader s, payloads)))))
      else
        rbind (map_err Ike (parseIKEPacket packet)) (\<lambda>(header, _).
        if NextPayload header = payloadEncryptedFragment then
          rbind (decryptSingleFragment c packet suite encryptionKey integrityKey)
            (\<lambda>(hdr, nxt, num, totalFrags, plain).
             if num \<noteq> 1 \<or> totalFrags \<noteq> 1 then Inl (Fail (Ike ErrMalformed))
             else rbind (map_err Ike (parsePayloadChain nxt plain)) (\<lambda>payloads. Inr (hdr, payloads)))
        else decryptPayloads c packet suite encryptionKey integrityKey))"

end
