(* ===== verification/Ike_Sk_Roundtrip.thy ===== *)
theory Ike_Sk_Roundtrip
  imports Ike_Sk
begin

text \<open>
  Sealed IKE messages come back: one SK packet, the fragments of a message in any order, and the
  totality of the opening operations.
\<close>

subsection \<open>Checksums\<close>

definition suite_mac :: "crypto \<Rightarrow> negotiatedSuite \<Rightarrow> byte list \<Rightarrow> byte list \<Rightarrow> byte list" where
  "suite_mac c suite key p =
     (if IntegrityID suite = integrityHMACSHA1_96 then take 12 (hmac_sha1 c key p)
      else take 16 (hmac_sha256 c key p))"

lemma integrityLengths_cases:
  "integrityLengths suite = Inr (k, n) \<Longrightarrow> (k, n) = (20, 12) \<or> (k, n) = (32, 16)"
  by (auto simp: integrityLengths_def split: if_splits)

lemma integrityMAC_ok:
  assumes "crypto_ok c" "integrityLengths suite = Inr (k, n)"
  shows "integrityMAC c suite key p = Inr (suite_mac c suite key p)" "length (suite_mac c suite key p) = n"
  using assms
  by (auto simp: integrityMAC_def integrityLengths_def suite_mac_def crypto_lengths split: if_splits)

text \<open>The octets of a packet before its body, which know only the length of the body.\<close>

definition packet_head :: "ikeHeader \<Rightarrow> nat \<Rightarrow> byte list" where
  "packet_head h n =
     take 8 (InitiatorSPI h) @ take 8 (ResponderSPI h)
     @ [NextPayload h, if Version h = 0 then 0x20 else Version h, Exchange h, Flags h]
     @ put_be32 (MessageID h) @ put_be32 (of_nat (ikeHeaderLength + n))"

lemma marshal_packet_head: "marshal_packet h body = packet_head h (length body) @ body"
  by (simp add: marshal_packet_def packet_head_def)

text \<open>The checked packet is the marshalled one with its checksum in place.\<close>

definition sealed_body :: "crypto \<Rightarrow> negotiatedSuite \<Rightarrow> byte list \<Rightarrow> ikeHeader \<Rightarrow> byte list \<Rightarrow> nat \<Rightarrow> byte list" where
  "sealed_body c suite key h pre n =
     pre @ suite_mac c suite key (packet_head h (length pre + n) @ pre)"

lemma checked_packet_ok:
  assumes "crypto_ok c" "integrityLengths suite = Inr (k, n)"
  shows "checked_packet c suite key h (pre @ replicate n 0) n = Inr (marshal_packet h (sealed_body c suite key h pre n))"
    "check_integrity c suite key n (marshal_packet h (sealed_body c suite key h pre n)) = Inr ()"
  using integrityMAC_ok [OF assms]
  by (simp_all add: checked_packet_def check_integrity_def marshal_packet_head sealed_body_def Let_def)

subsection \<open>Padding and CBC\<close>

lemma seal_cbc_Inr:
  assumes "seal_cbc c block plaintext random = (Inr (iv, ct), rest)"
  obtains padding where "length iv = 16" "length padding < 16"
    "ct = cbc_encrypt c block iv (plaintext @ padding @ [of_nat (length padding)])"
    "16 dvd length (plaintext @ padding @ [of_nat (length padding) :: byte])"
proof -
  let ?n = "cbc_padding plaintext"
  have n: "?n = (16 - (length plaintext + 1) mod 16) mod 16" by (simp add: cbc_padding_def Let_def)
  have blocks: "16 dvd length plaintext + 1 + ?n" unfolding n by (rule pad_up) simp
  have small: "?n < 16" unfolding n by simp
  have "length (take ?n random) = ?n" "length iv = 16"
    "ct = cbc_encrypt c block iv (plaintext @ take ?n random @ [of_nat ?n])"
    using assms by (auto simp: seal_cbc_def Let_def read_full_def split: if_splits)
  then show ?thesis using blocks small by (intro that [of "take ?n random"]) (simp_all add: ac_simps)
qed

lemma open_cbc_sealed:
  assumes c: "crypto_ok c" "aes_key_ok block" and l: "length iv = 16" "length padding < 16"
    and blocks: "16 dvd length (plaintext @ padding @ [of_nat (length padding) :: byte])"
    and ct: "ct = cbc_encrypt c block iv (plaintext @ padding @ [of_nat (length padding)])"
    and body: "length pre = ivStart" "length chk = n"
  shows "open_cbc c block n ivStart (pre @ iv @ ct @ chk) = Inr plaintext"
proof -
  let ?pt = "plaintext @ padding @ [of_nat (length padding) :: byte]"
  note cbc = crypto_cbc [OF c l(1) blocks]
  have len: "length ct = length ?pt" "ct \<noteq> []" "length ct mod 16 = 0"
    using cbc(1) blocks unfolding ct by (auto simp: dvd_eq_mod_eq_0 simp flip: length_0_conv)
  have parts: "slice (pre @ iv @ ct @ chk) (ivStart + 16) (length (pre @ iv @ ct @ chk) - n)
      = (Inr ct :: (crypt_err, byte list) res)"
    "slice (pre @ iv @ ct @ chk) ivStart (ivStart + 16) = (Inr iv :: (crypt_err, byte list) res)"
    using l body by simp_all
  define whole where "whole = ?pt"
  have dec: "cbc_decrypt c block iv ct = whole" using cbc(3) ct by (simp add: whole_def)
  have size: "length whole = length plaintext + length padding + 1" by (simp add: whole_def)
  have last: "idx whole (length plaintext + length padding) = (Inr (of_nat (length padding)) :: (crypt_err, byte) res)"
    "slice whole 0 (length plaintext) = (Inr plaintext :: (crypt_err, byte list) res)"
    by (simp_all add: whole_def nth_append)
  have "unat (of_nat (length padding) :: byte) = length padding"
    using l(2) by (simp add: unat_of_nat take_bit_eq_mod)
  then show ?thesis
    using len by (simp add: open_cbc_def parts Let_def dec size last del: slice_ok idx_ok length_append)
qed

lemma sealed_length:
  assumes "crypto_ok c" "aes_key_ok block" "length iv = 16"
    and "16 dvd length (plaintext @ padding @ [of_nat (length padding) :: byte])"
    and "ct = cbc_encrypt c block iv (plaintext @ padding @ [of_nat (length padding)])"
  shows "16 \<le> length ct"
proof -
  have "length ct = length (plaintext @ padding @ [of_nat (length padding) :: byte])"
    unfolding assms(5) using crypto_cbc(1) [OF assms(1-4)] .
  moreover have "0 < length (plaintext @ padding @ [of_nat (length padding) :: byte])" by simp
  ultimately show ?thesis using assms(4) by (metis dvd_imp_le)
qed

subsection \<open>One packet\<close>

definition header_ok :: "ikeHeader \<Rightarrow> bool" where
  "header_ok h \<longleftrightarrow> length (InitiatorSPI h) = 8 \<and> length (ResponderSPI h) = 8 \<and> Version h = 0x20"

lemma parse_sealed:
  assumes "header_ok h" "length body \<le> 65535"
  shows "parseIKEPacket (marshal_packet h body) = Inr (h\<lparr>Length := of_nat (28 + length body)\<rparr>, body)"
  using assms by (intro parse_marshal_packet) (simp_all add: header_ok_def)

lemma decrypt_encrypted:
  assumes c: "crypto_ok c" and h: "header_ok h"
    and enc: "encryptPayloads c h inner suite ek ik random = (Inr packet, rest)"
    and few: "length inner \<le> 64"
  shows "\<exists>len. decryptPayloads c packet suite ek ik
    = Inr (h\<lparr>NextPayload := payloadEncrypted, Length := len\<rparr>, inner)"
proof -
  obtain first pt where chain: "marshalPayloadChain inner = Inr (first, pt)"
    and key: "aes_key_ok ek"
    using enc
    by (auto simp: encryptPayloads_def new_cipher_def rbind_Inr_iff split: sum.splits if_splits prod.splits
        elim: map_err.elims)
  obtain sealed r where seal: "seal_cbc c ek pt random = (sealed, r)" by fastforce
  obtain iv ct k n where s: "seal_cbc c ek pt random = (Inr (iv, ct), r)"
    and n: "integrityLengths suite = Inr (k, n)"
    and fits: "4 + length iv + length ct + n \<le> 65535"
    and packet: "checked_packet c suite ik (h\<lparr>NextPayload := payloadEncrypted\<rparr>)
        ([first, 0] @ put_be16 (of_nat (4 + length iv + length ct + n)) @ iv @ ct @ replicate n 0) n = Inr packet"
    using enc seal chain key
    by (auto simp: encryptPayloads_def new_cipher_def rbind_Inr_iff Let_def split: if_splits)
  obtain padding where p: "length iv = 16" "length padding < 16"
    "ct = cbc_encrypt c ek iv (pt @ padding @ [of_nat (length padding)])"
    "16 dvd length (pt @ padding @ [of_nat (length padding) :: byte])"
    by (rule seal_cbc_Inr [OF s])
  define pre where "pre = [first, 0] @ put_be16 (of_nat (4 + length iv + length ct + n))"
  let ?h = "h\<lparr>NextPayload := payloadEncrypted\<rparr>"
  let ?body = "sealed_body c suite ik ?h (pre @ iv @ ct) n"
  have pk: "packet = marshal_packet ?h ?body"
    using packet checked_packet_ok(1) [OF c n, of ik ?h "pre @ iv @ ct"] by (simp add: pre_def)
  obtain chk where body: "?body = pre @ iv @ ct @ chk" "length chk = n"
    using integrityMAC_ok(2) [OF c n] by (simp add: sealed_body_def)
  have len: "length ?body = 4 + length iv + length ct + n"
    unfolding body by (simp add: pre_def body(2))
  have parse: "parseIKEPacket packet = Inr (?h\<lparr>Length := of_nat (28 + length ?body)\<rparr>, ?body)"
    unfolding pk using h fits len by (intro parse_sealed) (simp_all add: header_ok_def)
  have frame: "u16_at ?body 2 = (Inr (of_nat (4 + length iv + length ct + n)) :: (crypt_err, 16 word) res)"
    "idx ?body 0 = (Inr first :: (crypt_err, byte) res)"
    unfolding body(1) unfolding pre_def by (simp_all add: put_be16_def del: of_nat_add)
  have size: "unat (of_nat (4 + length iv + length ct + n) :: 16 word) = length ?body"
    using fits len by (simp add: unat_be16_back del: of_nat_add)
  have "open_cbc c ek n 4 ?body = Inr pt"
    unfolding body(1) by (rule open_cbc_sealed [OF c key p(1,2,4,3) _ body(2)]) (simp add: pre_def)
  moreover have "\<not> length ?body < 4 + aes_block + aes_block + n" "\<not> length ?body < 4"
    using sealed_length [OF c key p(1,4,3)] p(1) by (simp_all add: len)
  moreover have "parsePayloadChain first pt = Inr inner" by (rule parse_marshal_chain [OF chain few])
  ultimately have "decryptPayloads c packet suite ek ik = Inr (?h\<lparr>Length := of_nat (28 + length ?body)\<rparr>, inner)"
    using checked_packet_ok(2) [OF c n, of ik ?h "pre @ iv @ ct"] key
    unfolding pk [symmetric] decryptPayloads_def parse
    by (simp add: frame size n new_cipher_def del: u16_at_ok idx_ok of_nat_add)
  then show ?thesis by auto
qed

subsection \<open>One fragment\<close>

lemma decrypt_fragment:
  assumes c: "crypto_ok c" and h: "header_ok h" and key: "aes_key_ok ek"
    and n: "integrityLengths suite = Inr (k, n)"
    and enc: "fragment_packet c h suite ek ik n nxt num count chunk random = (Inr packet, rest)"
    and num: "num \<noteq> 0" "num \<le> count"
  shows "\<exists>len. decryptSingleFragment c packet suite ek ik
    = Inr (h\<lparr>NextPayload := payloadEncryptedFragment, Length := len\<rparr>, nxt, num, count, chunk)"
proof -
  obtain iv ct r where s: "seal_cbc c ek chunk random = (Inr (iv, ct), r)"
    and fits: "8 + length iv + length ct + n \<le> 65535"
    and packet: "checked_packet c suite ik (h\<lparr>NextPayload := payloadEncryptedFragment\<rparr>)
        ([nxt, 0] @ put_be16 (of_nat (8 + length iv + length ct + n)) @ put_be16 num @ put_be16 count
          @ iv @ ct @ replicate n 0) n = Inr packet"
    using enc by (auto simp: fragment_packet_def rbind_Inr_iff Let_def split: if_splits prod.splits)
  obtain padding where p: "length iv = 16" "length padding < 16"
    "ct = cbc_encrypt c ek iv (chunk @ padding @ [of_nat (length padding)])"
    "16 dvd length (chunk @ padding @ [of_nat (length padding) :: byte])"
    by (rule seal_cbc_Inr [OF s])
  define pre where "pre = [nxt, 0] @ put_be16 (of_nat (8 + length iv + length ct + n)) @ put_be16 num @ put_be16 count"
  let ?h = "h\<lparr>NextPayload := payloadEncryptedFragment\<rparr>"
  let ?body = "sealed_body c suite ik ?h (pre @ iv @ ct) n"
  have pk: "packet = marshal_packet ?h ?body"
    using packet checked_packet_ok(1) [OF c n, of ik ?h "pre @ iv @ ct"] by (simp add: pre_def)
  obtain chk where body: "?body = pre @ iv @ ct @ chk" "length chk = n"
    using integrityMAC_ok(2) [OF c n] by (simp add: sealed_body_def)
  have len: "length ?body = 8 + length iv + length ct + n"
    unfolding body by (simp add: pre_def body(2))
  have parse: "parseIKEPacket packet = Inr (?h\<lparr>Length := of_nat (28 + length ?body)\<rparr>, ?body)"
    unfolding pk using h fits len by (intro parse_sealed) (simp_all add: header_ok_def)
  have frame: "u16_at ?body 2 = (Inr (of_nat (8 + length iv + length ct + n)) :: (crypt_err, 16 word) res)"
    "u16_at ?body 4 = (Inr num :: (crypt_err, 16 word) res)" "u16_at ?body 6 = (Inr count :: (crypt_err, 16 word) res)"
    "idx ?body 0 = (Inr nxt :: (crypt_err, byte) res)"
    unfolding body(1) unfolding pre_def by (simp_all add: put_be16_def del: of_nat_add)
  have size: "unat (of_nat (8 + length iv + length ct + n) :: 16 word) = length ?body"
    using fits len by (simp add: unat_be16_back del: of_nat_add)
  have "open_cbc c ek n 8 ?body = Inr chunk"
    unfolding body(1) by (rule open_cbc_sealed [OF c key p(1,2,4,3) _ body(2)]) (simp add: pre_def)
  moreover have "\<not> length ?body < 8 + aes_block + aes_block + n" "\<not> length ?body < 8"
    using sealed_length [OF c key p(1,4,3)] p(1) by (simp_all add: len)
  moreover have "count \<noteq> 0" "\<not> num > count" using num by auto
  ultimately have "decryptSingleFragment c packet suite ek ik
      = Inr (?h\<lparr>Length := of_nat (28 + length ?body)\<rparr>, nxt, num, count, chunk)"
    using checked_packet_ok(2) [OF c n, of ik ?h "pre @ iv @ ct"] key num(1)
    unfolding pk [symmetric] decryptSingleFragment_def parse
    by (simp add: frame size n new_cipher_def del: u16_at_ok idx_ok of_nat_add)
  then show ?thesis by auto
qed

lemma chunk_loop_concat:
  "0 < m \<Longrightarrow> concat (chunk_loop m pt) = pt"
proof (induction m pt rule: chunk_loop.induct)
  case (1 m pt)
  show ?case
  proof (cases "pt = []")
    case False
    then show ?thesis using 1 by (subst chunk_loop.simps) (auto simp: Let_def)
  qed (simp add: chunk_loop.simps)
qed

text \<open>What the fragments of a message decode to, by their index.\<close>

definition fragment_at ::
  "crypto \<Rightarrow> negotiatedSuite \<Rightarrow> byte list \<Rightarrow> byte list \<Rightarrow> ikeHeader \<Rightarrow> byte \<Rightarrow> byte list list \<Rightarrow> nat \<Rightarrow> byte list \<Rightarrow> bool" where
  "fragment_at c suite ek ik h first chunks j packet \<longleftrightarrow>
     (\<exists>len nxt. decryptSingleFragment c packet suite ek ik
        = Inr (h\<lparr>NextPayload := payloadEncryptedFragment, Length := len\<rparr>, nxt, of_nat (j + 1),
               of_nat (length chunks), chunks ! j)
        \<and> (j = 0 \<longrightarrow> nxt = first))"

lemma fragment_number:
  "j < n \<Longrightarrow> n < 65536 \<Longrightarrow> (of_nat (j + 1) :: 16 word) \<noteq> 0 \<and> (of_nat (j + 1) :: 16 word) \<le> of_nat n
     \<and> ((of_nat (j + 1) :: 16 word) = 1 \<longleftrightarrow> j = 0)"
proof -
  assume j: "j < n" "n < 65536"
  have "unat (of_nat (j + 1) :: 16 word) = j + 1" "unat (of_nat n :: 16 word) = n"
    using j by (simp_all add: unat_be16_back del: of_nat_add of_nat_Suc)
  then show ?thesis using j(1) by (simp add: word_unat_eq_iff word_le_nat_alt del: of_nat_add of_nat_Suc)
qed

lemma fragment_loop_at:
  assumes c: "crypto_ok c" and h: "header_ok h" and key: "aes_key_ok ek"
    and n: "integrityLengths suite = Inr (k, n)" and few: "length whole < 65536"
    and enc: "fragment_loop c h suite ek ik n first (of_nat (length whole)) i chunks random = (Inr packets, rest)"
    and i: "drop i whole = chunks" "i \<le> length whole"
  shows "length packets = length chunks
    \<and> (\<forall>j < length chunks. fragment_at c suite ek ik h first whole (i + j) (packets ! j))"
  using enc i
proof (induction chunks arbitrary: i random packets)
  case (Cons chunk chunks)
  let ?num = "of_nat (i + 1) :: 16 word"
  have il: "i < length whole" using Cons.prems(2) by (metis drop_eq_Nil list.distinct(1) not_le)
  note num = fragment_number [OF il few]
  obtain r p r' where p: "fragment_packet c h suite ek ik n (if ?num = 1 then first else payloadNone) ?num
        (of_nat (length whole)) chunk random = (Inr p, r)"
    and more: "\<exists>ps. fragment_loop c h suite ek ik n first (of_nat (length whole)) (i + 1) chunks r = (Inr ps, rest)
        \<and> packets = p # ps"
    using Cons.prems(1) by (auto simp: Let_def rbind_Inr_iff split: prod.splits sum.splits)
  then obtain ps where ps: "fragment_loop c h suite ek ik n first (of_nat (length whole)) (i + 1) chunks r = (Inr ps, rest)"
    "packets = p # ps" by blast
  have w: "whole ! i = chunk" "drop (i + 1) whole = chunks" "i + 1 \<le> length whole"
    using Cons.prems(2) il by (simp_all add: Cons_nth_drop_Suc [symmetric])
  have "fragment_at c suite ek ik h first whole i p"
    using decrypt_fragment [OF c h key n p] num w(1) by (auto simp: fragment_at_def split: if_splits)
  then show ?case
    using Cons.IH [OF ps(1) w(2,3)] ps(2) by (auto simp: nth_Cons split: nat.split)
qed simp

subsection \<open>Reassembly\<close>

text \<open>What the reassembly state holds after the fragments with indices in \<open>J\<close>.\<close>

definition reassembly_holds :: "ikeHeader \<Rightarrow> byte \<Rightarrow> byte list list \<Rightarrow> nat set \<Rightarrow> reassembly \<Rightarrow> bool" where
  "reassembly_holds h first chunks J s \<longleftrightarrow>
     distinct (map fst (plaintexts s))
     \<and> set (map fst (plaintexts s)) = (\<lambda>j. of_nat (j + 1)) ` J
     \<and> (\<forall>j \<in> J. map_of (plaintexts s) (of_nat (j + 1)) = Some (chunks ! j))
     \<and> totalExpected s = (if J = {} then 0 else of_nat (length chunks))
     \<and> (J \<noteq> {} \<longrightarrow> (\<exists>len. firstHeader s = h\<lparr>NextPayload := payloadEncryptedFragment, Length := len\<rparr>))
     \<and> (0 \<in> J \<longrightarrow> firstNext s = first)"

lemma number_inj:
  "i < n \<Longrightarrow> j < n \<Longrightarrow> n < 65536 \<Longrightarrow> (of_nat (i + 1) :: 16 word) = of_nat (j + 1) \<longleftrightarrow> i = j"
proof -
  assume "i < n" "j < n" "n < 65536"
  then have "unat (of_nat (i + 1) :: 16 word) = i + 1" "unat (of_nat (j + 1) :: 16 word) = j + 1"
    by (simp_all add: unat_be16_back del: of_nat_add of_nat_Suc)
  then show ?thesis by (metis add_right_cancel)
qed

lemma reassembly_step:
  assumes at: "fragment_at c suite ek ik h first chunks j p" and j: "j < length chunks" "length chunks < 65536"
    and J: "J \<subseteq> {..<length chunks}" and inv: "reassembly_holds h first chunks J s"
  shows "\<exists>s'. reassembly_loop c suite ek ik (p # ps) s = reassembly_loop c suite ek ik ps s'
    \<and> reassembly_holds h first chunks (insert j J) s'"
proof -
  let ?num = "of_nat (j + 1) :: 16 word"
  obtain len nxt where dec: "decryptSingleFragment c p suite ek ik
      = Inr (h\<lparr>NextPayload := payloadEncryptedFragment, Length := len\<rparr>, nxt, ?num, of_nat (length chunks), chunks ! j)"
    and nxt: "j = 0 \<longrightarrow> nxt = first"
    using at by (auto simp: fragment_at_def)
  note num = fragment_number [OF j]
  have n: "(of_nat (length chunks) :: 16 word) \<noteq> 0" using num by auto
  define s1 where "s1 = (if totalExpected s = 0 then
      s\<lparr>firstHeader := h\<lparr>NextPayload := payloadEncryptedFragment, Length := len\<rparr>, totalExpected := of_nat (length chunks)\<rparr>
      else s)"
  define s2 where "s2 = (if ?num = 1 then s1\<lparr>firstNext := nxt\<rparr> else s1)"
  define s3 where "s3 = s2\<lparr>plaintexts := AList.update ?num (chunks ! j) (plaintexts s2)\<rparr>"
  have empty: "totalExpected s = 0 \<longleftrightarrow> J = {}" using inv n by (simp add: reassembly_holds_def)
  have "reassembly_loop c suite ek ik (p # ps) s = reassembly_loop c suite ek ik ps s3"
    using inv n empty
    by (auto simp: dec absorb_header_def s1_def s2_def s3_def Let_def reassembly_holds_def simp del: of_nat_add of_nat_Suc)
  moreover have "reassembly_holds h first chunks (insert j J) s3"
  proof -
    have pts: "plaintexts s2 = plaintexts s" by (simp add: s1_def s2_def)
    have other: "(of_nat (i + 1) :: 16 word) = ?num \<longleftrightarrow> i = j" if "i \<in> J" for i
      using number_inj [OF _ j(1) j(2)] J that by blast
    have old: "totalExpected s = (if J = {} then 0 else of_nat (length chunks))"
      "J \<noteq> {} \<Longrightarrow> \<exists>len. firstHeader s = h\<lparr>NextPayload := payloadEncryptedFragment, Length := len\<rparr>"
      "0 \<in> J \<Longrightarrow> firstNext s = first"
      using inv by (simp_all add: reassembly_holds_def)
    have "totalExpected s3 = of_nat (length chunks)"
      by (simp add: s1_def s2_def s3_def old(1) del: of_nat_add of_nat_Suc)
    moreover have "\<exists>len. firstHeader s3 = h\<lparr>NextPayload := payloadEncryptedFragment, Length := len\<rparr>"
    proof (cases "J = {}")
      case True
      then show ?thesis using empty by (auto simp: s1_def s2_def s3_def simp del: of_nat_add of_nat_Suc)
    next
      case False
      then show ?thesis using empty old(2) by (simp add: s1_def s2_def s3_def del: of_nat_add of_nat_Suc)
    qed
    moreover have "firstNext s3 = first" if "0 \<in> insert j J"
    proof (cases "j = 0")
      case True
      then show ?thesis using nxt by (simp add: s2_def s3_def)
    next
      case False
      then have "?num \<noteq> 1" using num by blast
      then show ?thesis
        using False that old(3) by (simp add: s1_def s2_def s3_def del: of_nat_add of_nat_Suc)
    qed
    moreover have s3: "plaintexts s3 = AList.update ?num (chunks ! j) (plaintexts s)" by (simp add: s3_def pts)
    have "distinct (map fst (plaintexts s3))"
      unfolding s3 using inv by (simp only: reassembly_holds_def distinct_update)
    moreover have "set (map fst (plaintexts s3)) = (\<lambda>j. of_nat (j + 1)) ` insert j J"
    proof -
      have "set (map fst (plaintexts s)) = (\<lambda>j. of_nat (j + 1)) ` J" using inv by (simp only: reassembly_holds_def)
      then show ?thesis unfolding s3 update_keys by (auto simp del: of_nat_add of_nat_Suc)
    qed
    moreover have "map_of (plaintexts s3) (of_nat (i + 1)) = Some (chunks ! i)" if "i \<in> insert j J" for i
      using inv other [of i] that unfolding s3 update_conv' reassembly_holds_def fun_upd_apply by auto
    ultimately show ?thesis by (simp add: reassembly_holds_def)
  qed
  ultimately show ?thesis by blast
qed

lemma reassembly_run:
  assumes "list_all2 (\<lambda>j p. j < length chunks \<and> fragment_at c suite ek ik h first chunks j p) js ps"
    and "length chunks < 65536" "J \<subseteq> {..<length chunks}" "reassembly_holds h first chunks J s"
  shows "\<exists>s'. reassembly_loop c suite ek ik ps s = Inr s' \<and> reassembly_holds h first chunks (J \<union> set js) s'"
  using assms(1,3,4)
proof (induction js ps arbitrary: J s rule: list_all2_induct)
  case (Cons j js p ps)
  then obtain s' where "reassembly_loop c suite ek ik (p # ps) s = reassembly_loop c suite ek ik ps s'"
    "reassembly_holds h first chunks (insert j J) s'"
    using reassembly_step [OF _ _ assms(2)] by meson
  then show ?case using Cons.IH [of "insert j J" s'] Cons.hyps(1) Cons.prems(1) by auto
qed auto

lemma join_loop_chunks:
  assumes "\<forall>j < length chunks. map_of pts (of_nat (j + 1)) = Some (chunks ! j)" "length chunks < 65535"
  shows "k \<le> length chunks \<Longrightarrow>
    join_loop pts (of_nat (length chunks)) (of_nat (k + 1)) full = Some (Inr (full @ concat (drop k chunks)))"
proof (induction "length chunks - k" arbitrary: k full)
  case 0
  then have k: "k = length chunks" by simp
  have "\<not> (of_nat (length chunks + 1) :: 16 word) \<le> of_nat (length chunks)"
    using assms(2) by (simp add: word_le_nat_alt unat_be16_back del: of_nat_add of_nat_Suc)
  then show ?case by (simp add: join_loop.simps k del: of_nat_add of_nat_Suc)
next
  case (Suc m)
  then have k: "k < length chunks" by simp
  have "(of_nat (k + 1) :: 16 word) \<le> of_nat (length chunks)"
    using fragment_number [OF k] assms(2) by simp
  then have "join_loop pts (of_nat (length chunks)) (of_nat (k + 1)) full
      = join_loop pts (of_nat (length chunks)) (of_nat (k + 1 + 1)) (full @ chunks ! k)"
    using assms(1) k by (subst join_loop.simps) (simp add: add.commute)
  also have "\<dots> = Some (Inr ((full @ chunks ! k) @ concat (drop (k + 1) chunks)))"
    using Suc(1) [of "k + 1" "full @ chunks ! k"] Suc(2) k by simp
  finally show ?case using k by (simp add: Cons_nth_drop_Suc [symmetric])
qed

subsection \<open>Opening always returns\<close>

lemma check_integrity_safe:
  "crypto_ok c \<Longrightarrow> integrityLengths suite = Inr (k, n) \<Longrightarrow> safe (check_integrity c suite ik n packet)"
  using integrityMAC_ok [of c suite k n] by (auto simp: check_integrity_def)

lemma open_cbc_safe:
  assumes "crypto_ok c" "aes_key_ok block" "ivStart + 16 + n \<le> length body"
  shows "safe (open_cbc c block n ivStart body)"
proof -
  have bounds: "ivStart + 16 \<le> length body - n" using assms(3) by linarith
  then obtain ct iv where parts: "slice body (ivStart + 16) (length body - n) = (Inr ct :: (crypt_err, byte list) res)"
    "slice body ivStart (ivStart + 16) = (Inr iv :: (crypt_err, byte list) res)" "length iv = 16"
    using assms(3) by simp
  show ?thesis
  proof (cases "length ct = 0 \<or> length ct mod 16 \<noteq> 0")
    case False
    then have "length (cbc_decrypt c block iv ct) = length ct"
      using crypto_cbc(2) [OF assms(1,2) parts(3)] by (simp add: dvd_eq_mod_eq_0)
    then show ?thesis
      using False by (auto simp: open_cbc_def parts Let_def simp del: slice_ok)
  qed (auto simp: open_cbc_def parts simp del: slice_ok)
qed

lemma decryptPayloads_safe:
  assumes "crypto_ok c"
  shows "safe (decryptPayloads c packet suite ek ik)"
proof -
  have "safe (integrityLengths suite)" by (simp add: integrityLengths_def)
  moreover have "safe (new_cipher ek)" by (simp add: new_cipher_def)
  moreover have "length body \<ge> 4 + 16 + 16 + n \<Longrightarrow> new_cipher ek = Inr block \<Longrightarrow> safe (open_cbc c block n 4 body)" for body n block
    using assms by (intro open_cbc_safe) (auto simp: new_cipher_def split: if_splits)
  moreover have "4 \<le> length b \<Longrightarrow> b \<noteq> []" for b :: "byte list" by auto
  ultimately show ?thesis
    using check_integrity_safe [OF assms]
    by (auto simp: decryptPayloads_def not_less split: prod.splits)
qed

lemma decryptSingleFragment_safe:
  assumes "crypto_ok c"
  shows "safe (decryptSingleFragment c packet suite ek ik)"
proof -
  have "safe (integrityLengths suite)" by (simp add: integrityLengths_def)
  moreover have "safe (new_cipher ek)" by (simp add: new_cipher_def)
  moreover have "length body \<ge> 8 + 16 + 16 + n \<Longrightarrow> new_cipher ek = Inr block \<Longrightarrow> safe (open_cbc c block n 8 body)" for body n block
    using assms by (intro open_cbc_safe) (auto simp: new_cipher_def split: if_splits)
  moreover have "4 \<le> length b \<Longrightarrow> b \<noteq> []" for b :: "byte list" by auto
  ultimately show ?thesis
    using check_integrity_safe [OF assms]
    by (auto simp: decryptSingleFragment_def not_less split: prod.splits)
qed

lemma decryptSingleFragment_number:
  "decryptSingleFragment c packet suite ek ik = Inr (hdr, nxt, num, count, plain) \<Longrightarrow> num \<noteq> 0"
  by (auto simp: decryptSingleFragment_def rbind_Inr_iff split: if_splits prod.splits)

lemma reassembly_loop_safe:
  assumes "crypto_ok c" "map_of (plaintexts s) 0 = None"
  shows "safe (reassembly_loop c suite ek ik ps s)
    \<and> (\<forall>s'. reassembly_loop c suite ek ik ps s = Inr s' \<longrightarrow> map_of (plaintexts s') 0 = None)"
  using assms(2)
proof (induction ps arbitrary: s)
  case (Cons p ps)
  show ?case
  proof (cases "decryptSingleFragment c p suite ek ik")
    case (Inl e)
    then show ?thesis using decryptSingleFragment_safe [OF assms(1), of p suite ek ik] by (auto simp: safe_Inl_iff)
  next
    case (Inr d)
    obtain hdr nxt num count plain where d: "d = (hdr, nxt, num, count, plain)" by (cases d) auto
    have "num \<noteq> 0" using decryptSingleFragment_number Inr d by blast
    then have none: "map_of (AList.update num plain (plaintexts s)) 0 = None" using Cons.prems by (simp add: update_conv')
    show ?thesis
    proof (cases "absorb_header s hdr count")
      case (Inl e)
      then show ?thesis using Inr d by (auto simp: absorb_header_def split: if_splits)
    next
      case (Inr s1)
      define s2 where "s2 = (if num = 1 then s1\<lparr>firstNext := nxt\<rparr> else s1)
        \<lparr>plaintexts := AList.update num plain (plaintexts (if num = 1 then s1\<lparr>firstNext := nxt\<rparr> else s1))\<rparr>"
      have "plaintexts s1 = plaintexts s" using Inr by (auto simp: absorb_header_def split: if_splits)
      then have "map_of (plaintexts s2) 0 = None" using none by (cases "num = 1") (simp_all add: s2_def)
      moreover have "reassembly_loop c suite ek ik (p # ps) s = reassembly_loop c suite ek ik ps s2"
        unfolding s2_def by (simp only: reassembly_loop.simps rbind.simps d Inr prod.case Let_def
            \<open>decryptSingleFragment c p suite ek ik = _\<close>)
      ultimately show ?thesis using Cons.IH [of s2] by simp
    qed
  qed
qed simp

lemma join_loop_total:
  assumes "map_of pts 0 = None"
  shows "\<exists>r. join_loop pts totalFrags i full = Some r \<and> safe r"
proof (induction "65536 - unat i" arbitrary: i full rule: less_induct)
  case less
  show ?case
  proof (cases "i \<le> totalFrags \<and> (\<exists>chunk. map_of pts i = Some chunk)")
    case True
    then obtain chunk where "map_of pts i = Some chunk" by blast
    with True have step: "join_loop pts totalFrags i full = join_loop pts totalFrags (i + 1) (full @ chunk)"
      by (subst join_loop.simps) simp
    show ?thesis
    proof (cases "i + 1 = 0")
      case True
      then show ?thesis using assms step by (simp add: join_loop.simps)
    next
      case False
      have "unat (i + 1) = (unat i + 1) mod 65536" by (simp add: unat_word_ariths)
      moreover have "unat (i + 1) \<noteq> 0" using False by (simp only: word_unat_eq_iff unsigned_0 not_False_eq_True)
      moreover have "unat i < 65536" using unsigned_less [of i, where ?'a = nat] by simp
      ultimately have "65536 - unat (i + 1) < 65536 - unat i"
        by (cases "unat i = 65535") simp_all
      from less [OF this] show ?thesis using step by simp
    qed
  next
    case False
    then show ?thesis by (subst join_loop.simps) (auto split: option.splits)
  qed
qed

lemma decryptPayloadsAny_safe:
  assumes "crypto_ok c"
  shows "safe (decryptPayloadsAny c packet fragments suite ek ik)"
proof (cases "fragments = []")
  case True
  then show ?thesis
    using decryptPayloads_safe [OF assms] decryptSingleFragment_safe [OF assms]
    by (auto simp: decryptPayloadsAny_def split: prod.splits)
next
  case False
  let ?s = "\<lparr>firstHeader = empty_header, firstNext = 0, totalExpected = 0, plaintexts = []\<rparr>"
  have run: "safe (reassembly_loop c suite ek ik fragments ?s)"
    "reassembly_loop c suite ek ik fragments ?s = Inr s' \<Longrightarrow> map_of (plaintexts s') 0 = None" for s'
    using reassembly_loop_safe [OF assms, of ?s suite ek ik fragments] by simp_all
  have "safe (of_loop (join_loop (plaintexts s') t 1 full) :: (crypt_err, (crypt_err, byte list) res) res)"
    "of_loop (join_loop (plaintexts s') t 1 full) = (Inr r :: (crypt_err, (crypt_err, byte list) res) res) \<Longrightarrow> safe r"
    if "reassembly_loop c suite ek ik fragments ?s = Inr s'" for s' t full and r :: "(crypt_err, byte list) res"
    using join_loop_total [OF run(2) [OF that], of t 1 full] by auto
  then show ?thesis using False run(1) by (auto simp: decryptPayloadsAny_def)
qed

lemma decryptPayloads_authentic:
  assumes c: "crypto_ok c" and d: "decryptPayloads c packet suite ek ik = Inr r"
  shows "\<exists>k n. integrityLengths suite = Inr (k, n) \<and> n \<le> length packet
    \<and> drop (length packet - n) packet = suite_mac c suite ik (take (length packet - n) packet)"
proof -
  obtain k n where n: "integrityLengths suite = Inr (k, n)" and chk: "check_integrity c suite ik n packet = Inr ()"
    and parse: "\<exists>h body. parseIKEPacket packet = Inr (h, body) \<and> 4 + 16 + 16 + n \<le> length body"
    using d by (auto simp: decryptPayloads_def rbind_Inr_iff not_less split: prod.splits if_splits)
  have "n \<le> length packet"
    using parse by (auto simp: parseIKEPacket_def rbind_Inr_iff ikeHeaderLength_def split: if_splits)
  with n chk show ?thesis
    using integrityMAC_ok [OF c n] by (auto simp: check_integrity_def rbind_Inr_iff split: if_splits)
qed

lemma fragment_loop_length:
  "fragment_loop c h suite ek ik n f t i cs r = (Inr ps, r') \<Longrightarrow> length ps = length cs"
  by (induction cs arbitrary: i r ps) (auto simp: Let_def rbind_Inr_iff split: prod.splits sum.splits)

lemma fragmented_cases:
  assumes "encryptPayloadsFragmented c h inner suite ek ik mtu random = (Inr packets, rest)"
  obtains (single) p r where "packets = [p]" "encryptPayloads c h inner suite ek ik random = (Inr p, r)"
  | (several) first pt k n where "marshalPayloadChain inner = Inr (first, pt)" "aes_key_ok ek"
      "integrityLengths suite = Inr (k, n)" "1 < length (chunk_loop (max_chunk mtu n) pt)"
      "fragment_loop c h suite ek ik n first (of_nat (length (chunk_loop (max_chunk mtu n) pt))) 0
         (chunk_loop (max_chunk mtu n) pt) random = (Inr packets, rest)"
proof -
  obtain first pt k n where chain: "marshalPayloadChain inner = Inr (first, pt)" and key: "aes_key_ok ek"
    and n: "integrityLengths suite = Inr (k, n)"
    using assms
    by (auto simp: encryptPayloadsFragmented_def new_cipher_def rbind_Inr_iff Let_def split: sum.splits if_splits
        prod.splits elim: map_err.elims)
  show ?thesis
  proof (cases "length (chunk_loop (max_chunk mtu n) pt) \<le> 1")
    case True
    then show ?thesis
      using single assms chain key n
      by (auto simp: encryptPayloadsFragmented_def new_cipher_def Let_def rbind_Inr_iff split: prod.splits)
  next
    case False
    then show ?thesis
      using several [OF chain key n] assms chain key n
      by (simp add: encryptPayloadsFragmented_def new_cipher_def Let_def)
  qed
qed

lemma all_fragments:
  assumes c: "crypto_ok c" and h: "header_ok h"
    and enc: "encryptPayloadsFragmented c h inner suite ek ik mtu random = (Inr packets, rest)"
    and many: "1 < length packets" "length packets < 65535"
  obtains first pt chunks where "marshalPayloadChain inner = Inr (first, pt)" "concat chunks = pt"
    "length packets = length chunks"
    "\<forall>j < length chunks. fragment_at c suite ek ik h first chunks j (packets ! j)"
  using enc
proof (cases rule: fragmented_cases)
  case (several first pt k n)
  let ?chunks = "chunk_loop (max_chunk mtu n) pt"
  have len: "length packets = length ?chunks" by (rule fragment_loop_length [OF several(5)])
  then have "length ?chunks < 65536" using many(2) by simp
  from fragment_loop_at [OF c h several(2,3) this several(5)] have
    "\<forall>j < length ?chunks. fragment_at c suite ek ik h first ?chunks j (packets ! j)" by simp
  moreover have "concat ?chunks = pt"
    by (rule chunk_loop_concat) (simp add: max_chunk_def Let_def defaultIKEFragmentSize_def ikeHeaderLength_def)
  ultimately show ?thesis using that several(1) len by blast
qed (use many in simp)

lemma fragments_reassembled:
  assumes c: "crypto_ok c" and h: "header_ok h"
    and enc: "encryptPayloadsFragmented c h inner suite ek ik mtu random = (Inr packets, rest)"
    and many: "1 < length packets" "length packets < 65535" and few: "length inner \<le> 64"
    and arrivals: "set arrivals = set packets"
  shows "\<exists>len. decryptPayloadsAny c packet arrivals suite ek ik
    = Inr (h\<lparr>NextPayload := payloadEncryptedFragment, Length := len\<rparr>, inner)"
proof -
  obtain first pt chunks where chain: "marshalPayloadChain inner = Inr (first, pt)" and pt: "concat chunks = pt"
    and len: "length packets = length chunks"
    and at: "\<forall>j < length chunks. fragment_at c suite ek ik h first chunks j (packets ! j)"
    by (rule all_fragments [OF c h enc many])
  let ?start = "\<lparr>firstHeader = empty_header, firstNext = 0, totalExpected = 0, plaintexts = []\<rparr>"
  have "\<forall>p \<in> set arrivals. \<exists>j. j < length chunks \<and> packets ! j = p"
    using arrivals len by (metis in_set_conv_nth)
  then obtain index where index: "\<forall>p \<in> set arrivals. index p < length chunks \<and> packets ! index p = p"
    by metis
  let ?js = "map index arrivals"
  have all: "list_all2 (\<lambda>j p. j < length chunks \<and> fragment_at c suite ek ik h first chunks j p) ?js arrivals"
    using index at by (auto simp: list_all2_conv_all_nth) (metis nth_mem)+
  have start: "reassembly_holds h first chunks {} ?start" by (simp add: reassembly_holds_def)
  obtain s where s: "reassembly_loop c suite ek ik arrivals ?start = Inr s"
    and inv: "reassembly_holds h first chunks (set ?js) s"
    using reassembly_run [OF all _ _ start] many(2) len by auto
  have same: "i = j" if ij: "i < length chunks" "j < length chunks" and eq: "packets ! i = packets ! j" for i j
  proof -
    obtain n m d e x y where "decryptSingleFragment c (packets ! i) suite ek ik = Inr (n, d, of_nat (i + 1), x)"
      "decryptSingleFragment c (packets ! j) suite ek ik = Inr (m, e, of_nat (j + 1), y)"
      using at ij unfolding fragment_at_def by metis
    then have "(of_nat (i + 1) :: 16 word) = of_nat (j + 1)" unfolding eq by (simp only: sum.inject prod.inject)
    then show ?thesis using number_inj [OF ij] many(2) len by simp
  qed
  have "set ?js = {..<length chunks}"
  proof
    show "{..<length chunks} \<subseteq> set ?js"
    proof
      fix j
      assume j: "j \<in> {..<length chunks}"
      then have "packets ! j \<in> set arrivals" using arrivals len by simp
      moreover from this have "index (packets ! j) = j" using index same j by auto
      ultimately show "j \<in> set ?js" by force
    qed
  qed (use index in auto)
  then have inv: "reassembly_holds h first chunks {..<length chunks} s" using inv by simp
  have J: "{..<length chunks} \<noteq> {}" "0 \<in> {..<length chunks}" using many len by auto
  have "length (plaintexts s) = card (set (map fst (plaintexts s)))"
    using inv by (metis distinct_card length_map reassembly_holds_def)
  also have "\<dots> = card ((\<lambda>j. of_nat (j + 1) :: 16 word) ` {..<length chunks})"
    using inv by (simp only: reassembly_holds_def)
  also have "\<dots> = length chunks"
    using number_inj [where n = "length chunks"] many(2) len by (subst card_image) (auto simp: inj_on_def)
  finally have count: "length (plaintexts s) = length chunks" .
  have "totalExpected s = of_nat (length chunks)" "firstNext s = first"
    "\<exists>len. firstHeader s = h\<lparr>NextPayload := payloadEncryptedFragment, Length := len\<rparr>"
    using inv J by (simp_all add: reassembly_holds_def)
  moreover have "\<forall>j < length chunks. map_of (plaintexts s) (of_nat (j + 1)) = Some (chunks ! j)"
    using inv by (simp add: reassembly_holds_def)
  from join_loop_chunks [OF this, of 0 "[]"]
  have "join_loop (plaintexts s) (of_nat (length chunks)) 1 [] = Some (Inr pt)"
    using many(2) len pt by simp
  moreover have "parsePayloadChain first pt = Inr inner" by (rule parse_marshal_chain [OF chain few])
  moreover have "arrivals \<noteq> []" using arrivals many(1) by auto
  ultimately show ?thesis using s count by (auto simp: decryptPayloadsAny_def)
qed

lemma single_packet:
  assumes "crypto_ok c" "header_ok h" "length inner \<le> 64"
    and enc: "encryptPayloadsFragmented c h inner suite ek ik mtu random = (Inr [p], rest)"
  shows "\<exists>len. decryptPayloadsAny c p [] suite ek ik = Inr (h\<lparr>NextPayload := payloadEncrypted, Length := len\<rparr>, inner)"
proof -
  have "\<exists>r. encryptPayloads c h inner suite ek ik random = (Inr p, r)"
    using enc by (cases rule: fragmented_cases) (auto dest: fragment_loop_length)
  then obtain l where d: "decryptPayloads c p suite ek ik = Inr (h\<lparr>NextPayload := payloadEncrypted, Length := l\<rparr>, inner)"
    using decrypt_encrypted assms by blast
  then obtain body where "parseIKEPacket p = Inr (h\<lparr>NextPayload := payloadEncrypted, Length := l\<rparr>, body)"
    by (auto simp: decryptPayloads_def rbind_Inr_iff split: prod.splits if_splits)
  then show ?thesis
    using d by (auto simp: decryptPayloadsAny_def payloadEncrypted_def payloadEncryptedFragment_def)
qed

subsection \<open>A sample exchange\<close>

definition sample_header :: ikeHeader where
  "sample_header = \<lparr>InitiatorSPI = [1, 2, 3, 4, 5, 6, 7, 8], ResponderSPI = [8, 7, 6, 5, 4, 3, 2, 1],
     NextPayload = 0, Version = 0x20, Exchange = 35, Flags = 8, MessageID = 1, Length = 0\<rparr>"

definition sample_suite :: negotiatedSuite where
  "sample_suite = \<lparr>EncryptionID = 12, EncryptionBits = 128, PRFID = 2, IntegrityID = 2, DHID = 2\<rparr>"

definition sample_inner :: "nat \<Rightarrow> payload list" where
  "sample_inner n = [\<lparr>Type = 48, Critical = False, Body = replicate n 7\<rparr>]"

text \<open>Sealing succeeds when there is enough randomness and the fragments are of a sane size.\<close>

lemma seal_cbc_ok:
  assumes "crypto_ok c" "aes_key_ok block" "32 \<le> length random"
  shows "\<exists>iv ct rest. seal_cbc c block pt random = (Inr (iv, ct), rest) \<and> length iv = 16
    \<and> length ct \<le> length pt + 16 \<and> length random \<le> length rest + 32"
proof -
  let ?n = "cbc_padding pt"
  have n: "?n < 16" by (simp add: cbc_padding_def Let_def)
  let ?iv = "take 16 (drop ?n random)"
  let ?padded = "pt @ take ?n random @ [of_nat ?n]"
  have iv: "length ?iv = 16" using assms(3) n by simp
  have seal: "seal_cbc c block pt random = (Inr (?iv, cbc_encrypt c block ?iv ?padded), drop 16 (drop ?n random))"
    using assms(3) n by (simp add: seal_cbc_def Let_def read_full_def)
  obtain padding where "16 dvd length (pt @ padding @ [of_nat (length padding) :: byte])"
    "cbc_encrypt c block ?iv ?padded = cbc_encrypt c block ?iv (pt @ padding @ [of_nat (length padding)])"
    "length padding < 16"
    by (rule seal_cbc_Inr [OF seal])
  then have "length (cbc_encrypt c block ?iv ?padded) \<le> length pt + 16"
    using crypto_cbc(1) [OF assms(1,2) iv] by simp
  then show ?thesis using seal iv n by fastforce
qed

lemma fragment_loop_ok:
  assumes c: "crypto_ok c" "aes_key_ok block" "integrityLengths suite = Inr (k, n)"
  shows "\<lbrakk>32 * length chunks \<le> length random; list_all (\<lambda>chunk. length chunk \<le> 65000) chunks\<rbrakk> \<Longrightarrow>
    \<exists>packets rest. fragment_loop c h suite block ik n first t i chunks random = (Inr packets, rest)
      \<and> length packets = length chunks"
proof (induction chunks arbitrary: i random)
  case (Cons chunk chunks)
  obtain iv ct r where s: "seal_cbc c block chunk random = (Inr (iv, ct), r)" "length iv = 16"
    "length ct \<le> length chunk + 16" "length random \<le> length r + 32"
    using seal_cbc_ok [OF c(1,2), of random chunk] Cons.prems(1) by auto
  have n: "n \<le> 16" using integrityLengths_cases [OF c(3)] by auto
  have p: "\<exists>p. fragment_packet c h suite block ik n nxt num t chunk random = (Inr p, r)" for nxt num
    using s n Cons.prems(2) checked_packet_ok(1) [OF c(1,3), of ik _ "_ @ _"]
    by (simp add: fragment_packet_def Let_def)
      (metis append.assoc append_Cons)
  obtain ps r' where "fragment_loop c h suite block ik n first t (i + 1) chunks r = (Inr ps, r')"
    "length ps = length chunks"
    using Cons.IH [of r "i + 1"] Cons.prems s(4) by auto
  then show ?case
    using p [of "if of_nat (i + 1) = (1 :: 16 word) then first else payloadNone" "of_nat (i + 1)"]
    by (auto simp: Let_def simp del: of_nat_add of_nat_Suc)
qed simp

lemma sample_fragments:
  "\<exists>packets rest. encryptPayloadsFragmented plain_crypto sample_header (sample_inner 70) sample_suite
     (replicate 16 3) (replicate 20 5) 1 (replicate 100 0) = (Inr packets, rest) \<and> length packets = 2"
proof -
  define pt where "pt = [0, 0] @ put_be16 74 @ replicate 70 7"
  have chain: "marshalPayloadChain (sample_inner 70) = Inr (48, pt)"
    by (simp add: marshalPayloadChain_def sample_inner_def Let_def pt_def ike_constants)
  have n: "integrityLengths sample_suite = Inr (20, 12)" and key: "aes_key_ok (replicate 16 3)"
    by (simp_all add: integrityLengths_def sample_suite_def ike_constants aes_key_ok_def)
  have chunks: "chunk_loop 64 pt = [take 64 pt, drop 64 pt]"
  proof -
    have "length pt = 74" by (simp add: pt_def)
    then show ?thesis by (simp add: chunk_loop.simps)
  qed
  have "max_chunk 1 12 = 64" by (simp add: max_chunk_def Let_def)
  moreover have "list_all (\<lambda>chunk. length chunk \<le> 65000) [take 64 pt, drop 64 pt]" by (simp add: pt_def)
  moreover from this obtain packets rest where
    "fragment_loop plain_crypto sample_header sample_suite (replicate 16 3) (replicate 20 5) 12 48 2 0
       [take 64 pt, drop 64 pt] (replicate 100 0) = (Inr packets, rest)" "length packets = 2"
    using fragment_loop_ok [OF plain_crypto_ok key n, of "[take 64 pt, drop 64 pt]" "replicate 100 0"] by fastforce
  ultimately show ?thesis
    using chain n key
    by (simp add: encryptPayloadsFragmented_def new_cipher_def Let_def chunks del: fragment_loop.simps)
qed

subsection \<open>Properties\<close>

text \<open>
  C16: A sealed message comes back.  Whatever \<open>encryptPayloadsFragmented\<close> makes of a chain of at most
  64 payloads, the receiver with the same suite and keys recovers the payloads: from the one packet,
  or from the fragments in any order, repeated as often as the network likes, as long as each arrives.
\<close>

theorem sk_message_roundtrip:
  assumes "crypto_ok c" "header_ok h" "length inner \<le> 64"
    and "encryptPayloadsFragmented c h inner suite ek ik maxFragmentSize random = (Inr packets, rest)"
    and "length packets < 65535" "set arrivals = set packets"
  shows "\<exists>nxt len. decryptPayloadsAny c (hd packets) (if length packets = 1 then [] else arrivals) suite ek ik
    = Inr (h\<lparr>NextPayload := nxt, Length := len\<rparr>, inner)"
proof (cases "length packets = 1")
  case True
  then obtain p where "packets = [p]" by (auto simp: length_Suc_conv)
  then show ?thesis using single_packet [OF assms(1-3)] assms(4) by simp blast
next
  case False
  have "packets \<noteq> []"
    using assms(4) by (cases rule: fragmented_cases) (auto dest: fragment_loop_length)
  with False have "1 < length packets" by (cases packets) auto
  then show ?thesis using fragments_reassembled [OF assms(1,2,4) _ assms(5,3,6)] False by fastforce
qed

theorem sk_message_roundtrip_witness:
  "\<exists>packets. fst (encryptPayloadsFragmented plain_crypto sample_header (sample_inner 70) sample_suite
       (replicate 16 3) (replicate 20 5) 1 (replicate 100 0)) = Inr packets \<and> length packets = 2
     \<and> (\<exists>nxt len. decryptPayloadsAny plain_crypto (hd packets) (rev packets @ packets) sample_suite
          (replicate 16 3) (replicate 20 5)
        = Inr (sample_header\<lparr>NextPayload := nxt, Length := len\<rparr>, sample_inner 70))"
proof -
  obtain packets rest where p: "encryptPayloadsFragmented plain_crypto sample_header (sample_inner 70) sample_suite
     (replicate 16 3) (replicate 20 5) 1 (replicate 100 0) = (Inr packets, rest)" "length packets = 2"
    using sample_fragments by blast
  have "header_ok sample_header" "length (sample_inner 70) \<le> 64"
    by (simp_all add: header_ok_def sample_header_def sample_inner_def)
  from sk_message_roundtrip [OF plain_crypto_ok this p(1), of "rev packets @ packets"] p show ?thesis by auto
qed

text \<open>
  Opening is total and authentic.  No datagram and no list of fragments makes the receiver panic
  or loop, not even the 65535-fragment message on which the 16-bit counter wraps; and a message opened
  from one packet ends with the checksum the negotiated integrity key gives over everything before it.
\<close>

theorem sk_open_safe:
  assumes "crypto_ok c"
  shows "safe (decryptPayloadsAny c packet fragments suite ek ik)
    \<and> (\<forall>r. decryptPayloads c packet suite ek ik = Inr r \<longrightarrow>
         (\<exists>k n. integrityLengths suite = Inr (k, n) \<and> n \<le> length packet
           \<and> drop (length packet - n) packet = suite_mac c suite ik (take (length packet - n) packet)))"
  using decryptPayloadsAny_safe [OF assms] decryptPayloads_authentic [OF assms] by blast

theorem sk_open_safe_witness:
  "safe (decryptPayloadsAny plain_crypto [1, 2, 3] [] sample_suite [] [])
   \<and> safe (decryptPayloadsAny plain_crypto [] [[], []] sample_suite [] [])"
  using sk_open_safe [OF plain_crypto_ok] by blast

end
