(* ===== verification/Eap_Aka.thy ===== *)
theory Eap_Aka
  imports Go_Net Go_Text Crypto_Env
begin

text \<open>
  The EAP-AKA peer of \<open>internal/vowifi/ike/eap.go\<close>: EAP packets, AKA attributes, the key derivation
  of FIPS 186-2, and the client that answers the responder's requests.  The SIM is the argument
  \<open>authenticate\<close> of every call, so each call may meet a different answer; a cancelled context is an
  error of the SIM.
\<close>

datatype eap_err =
    ErrEAPHeader | ErrEAPLength | ErrEAPTruncated | ErrEAPTrailing | ErrEAPCode | ErrEAPType
  | ErrEAPTooLong | ErrAttributes | ErrAttributeCount | ErrAttributeTooLong | ErrIdentityEmpty
  | ErrKeyLength | ErrRejected gostring | ErrEarlySuccess | ErrUnprotectedSuccess
  | ErrIdentityRequest | ErrMandatoryAttribute | ErrAttributeLength | ErrAKAProvider | ErrAUTS
  | ErrRES | ErrMACOffset | ErrServerMAC | ErrResultInd | ErrUnexpectedNotification

subsection \<open>Constants\<close>

definition eapRequest :: byte where "eapRequest = 1"
definition eapResponse :: byte where "eapResponse = 2"
definition eapSuccess :: byte where "eapSuccess = 3"
definition eapFailure :: byte where "eapFailure = 4"
definition eapTypeIdentity :: byte where "eapTypeIdentity = 1"
definition eapTypeAKA :: byte where "eapTypeAKA = 23"
definition akaSubtypeChallenge :: byte where "akaSubtypeChallenge = 1"
definition akaSubtypeAuthReject :: byte where "akaSubtypeAuthReject = 2"
definition akaSubtypeSyncFailure :: byte where "akaSubtypeSyncFailure = 4"
definition akaSubtypeIdentity :: byte where "akaSubtypeIdentity = 5"
definition akaSubtypeNotification :: byte where "akaSubtypeNotification = 12"
definition akaSubtypeReauth :: byte where "akaSubtypeReauth = 13"
definition akaSubtypeClientError :: byte where "akaSubtypeClientError = 14"
definition akaAttrRAND :: byte where "akaAttrRAND = 1"
definition akaAttrAUTN :: byte where "akaAttrAUTN = 2"
definition akaAttrRES :: byte where "akaAttrRES = 3"
definition akaAttrAUTS :: byte where "akaAttrAUTS = 4"
definition akaAttrPermanentIDReq :: byte where "akaAttrPermanentIDReq = 10"
definition akaAttrMAC :: byte where "akaAttrMAC = 11"
definition akaAttrNotification :: byte where "akaAttrNotification = 12"
definition akaAttrAnyIDReq :: byte where "akaAttrAnyIDReq = 13"
definition akaAttrIdentity :: byte where "akaAttrIdentity = 14"
definition akaAttrFullAuthIDReq :: byte where "akaAttrFullAuthIDReq = 17"
definition akaAttrClientError :: byte where "akaAttrClientError = 22"
definition akaAttrResultInd :: byte where "akaAttrResultInd = 135"

lemmas eap_constants =
  eapRequest_def eapResponse_def eapSuccess_def eapFailure_def eapTypeIdentity_def eapTypeAKA_def
  akaSubtypeChallenge_def akaSubtypeAuthReject_def akaSubtypeSyncFailure_def akaSubtypeIdentity_def
  akaSubtypeNotification_def akaSubtypeReauth_def akaSubtypeClientError_def akaAttrRAND_def
  akaAttrAUTN_def akaAttrRES_def akaAttrAUTS_def akaAttrPermanentIDReq_def akaAttrMAC_def
  akaAttrNotification_def akaAttrAnyIDReq_def akaAttrIdentity_def akaAttrFullAuthIDReq_def
  akaAttrClientError_def akaAttrResultInd_def

subsection \<open>Packets\<close>

record eapPacket =
  ep_Code :: byte
  ep_Identifier :: byte
  ep_Type :: byte
  ep_Data :: "byte list"

definition parseEAPPacket :: "byte list \<Rightarrow> (eap_err, eapPacket) res" where
  "parseEAPPacket encoded =
     (if length encoded < 4 then Inl (Fail ErrEAPHeader)
      else rbind (u16_at encoded 2) (\<lambda>len.
        if unat len \<noteq> length encoded then Inl (Fail ErrEAPLength)
        else rbind (idx encoded 0) (\<lambda>code.
             rbind (idx encoded 1) (\<lambda>identifier.
             if code = eapRequest \<or> code = eapResponse then
               (if length encoded < 5 then Inl (Fail ErrEAPTruncated)
                else rbind (idx encoded 4) (\<lambda>kind.
                     rbind (slice encoded 5 (length encoded)) (\<lambda>data.
                       Inr \<lparr>ep_Code = code, ep_Identifier = identifier, ep_Type = kind, ep_Data = data\<rparr>)))
             else if code = eapSuccess \<or> code = eapFailure then
               (if length encoded \<noteq> 4 then Inl (Fail ErrEAPTrailing)
                else Inr \<lparr>ep_Code = code, ep_Identifier = identifier, ep_Type = 0, ep_Data = []\<rparr>)
             else Inl (Fail ErrEAPCode)))))"

definition marshalEAPPacket :: "eapPacket \<Rightarrow> (eap_err, byte list) res" where
  "marshalEAPPacket packet =
     rbind (if ep_Code packet = eapRequest \<or> ep_Code packet = eapResponse then
              (if ep_Type packet = 0 then Inl (Fail ErrEAPType)
               else Inr (4 + (1 + length (ep_Data packet))))
            else if length (ep_Data packet) \<noteq> 0 \<or> ep_Type packet \<noteq> 0 then Inl (Fail ErrEAPType)
            else Inr 4) (\<lambda>len.
     if len > 65535 then Inl (Fail ErrEAPTooLong)
     else Inr ([ep_Code packet, ep_Identifier packet] @ put_be16 (of_nat len)
               @ (if len > 4 then ep_Type packet # ep_Data packet else [])))"

subsection \<open>Attributes\<close>

record akaAttribute =
  aa_Type :: byte
  aa_Raw :: "byte list"
  aa_Offset :: nat

function attributes_loop ::
  "byte list \<Rightarrow> nat \<Rightarrow> akaAttribute list \<Rightarrow> (eap_err, akaAttribute list) res" where
  "attributes_loop encoded offset result =
     (if \<not> offset < length encoded then Inr result
      else if length result \<ge> 64 \<or> offset + 2 > length encoded then Inl (Fail ErrAttributes)
      else rbind (idx encoded (offset + 1)) (\<lambda>l.
        let len = unat l * 4 in
        if len < 4 \<or> offset + len > length encoded then Inl (Fail ErrAttributes)
        else rbind (idx encoded offset) (\<lambda>kind.
             rbind (slice encoded offset (offset + len)) (\<lambda>raw.
               attributes_loop encoded (offset + len)
                 (result @ [\<lparr>aa_Type = kind, aa_Raw = raw, aa_Offset = offset\<rparr>])))))"
  by pat_completeness auto
termination
  by (relation "measure (\<lambda>(encoded, offset, result). length encoded - offset)") auto

declare attributes_loop.simps [simp del]

definition parseAKAAttributes :: "byte list \<Rightarrow> (eap_err, akaAttribute list) res" where
  "parseAKAAttributes encoded = attributes_loop encoded 0 []"

definition oneAKAAttribute :: "akaAttribute list \<Rightarrow> byte \<Rightarrow> (eap_err, akaAttribute) res" where
  "oneAKAAttribute attributes kind =
     (let found = filter (\<lambda>a. aa_Type a = kind) attributes in
      if length found \<noteq> 1 then Inl (Fail ErrAttributeCount) else Inr (last found))"

text \<open>\<open>(length + 3) &^ 3\<close> clears the two low bits.\<close>

definition marshalAKAAttribute :: "byte \<Rightarrow> byte list \<Rightarrow> (eap_err, byte list) res" where
  "marshalAKAAttribute kind value =
     (let len = 2 + length value; padded = (len + 3) div 4 * 4 in
      if padded div 4 > 255 then Inl (Fail ErrAttributeTooLong)
      else Inr ([kind, of_nat (padded div 4)] @ value @ replicate (padded - len) 0))"

subsection \<open>Key derivation\<close>

record akaKeys =
  KEncr :: "byte list"
  KAut :: "byte list"
  MSK :: "byte list"
  EMSK :: "byte list"

definition rotl32 :: "nat \<Rightarrow> 32 word \<Rightarrow> 32 word" where
  "rotl32 n v = push_bit n v OR drop_bit (32 - n) v"

definition block_words :: "byte list \<Rightarrow> 32 word list" where
  "block_words block =
     map (\<lambda>index. be32 (block ! (index * 4)) (block ! (index * 4 + 1)) (block ! (index * 4 + 2))
                       (block ! (index * 4 + 3))) [0..<16]"

definition expand_words :: "32 word list \<Rightarrow> 32 word list" where
  "expand_words words =
     fold (\<lambda>index ws. ws @ [rotl32 1 (ws ! (index - 3) XOR ws ! (index - 8) XOR ws ! (index - 14)
                                      XOR ws ! (index - 16))]) [16..<80] words"

definition sha1_round ::
  "32 word list \<Rightarrow> nat \<Rightarrow> 32 word \<times> 32 word \<times> 32 word \<times> 32 word \<times> 32 word
     \<Rightarrow> 32 word \<times> 32 word \<times> 32 word \<times> 32 word \<times> 32 word" where
  "sha1_round words index =
     (\<lambda>(a, b, c, d, e).
        let (func, const) =
              (if index < 20 then ((b AND c) OR (NOT b AND d), 0x5A827999)
               else if index < 40 then (b XOR c XOR d, 0x6ED9EBA1)
               else if index < 60 then ((b AND c) OR (b AND d) OR (c AND d), 0x8F1BBCDC)
               else (b XOR c XOR d, 0xCA62C1D6));
            nxt = rotl32 5 a + func + e + const + words ! index
        in (nxt, a, rotl32 30 b, c, d))"

definition fipsSHA1G :: "byte list \<Rightarrow> byte list" where
  "fipsSHA1G xval =
     (let words = expand_words (block_words (take 20 xval @ replicate (64 - length (take 20 xval)) 0));
          (a, b, c, d, e) = fold (sha1_round words) [0..<80]
            (0x67452301, 0xEFCDAB89, 0x98BADCFE, 0x10325476, 0xC3D2E1F0)
      in put_be32 (0x67452301 + a) @ put_be32 (0xEFCDAB89 + b) @ put_be32 (0x98BADCFE + c)
         @ put_be32 (0x10325476 + d) @ put_be32 (0xC3D2E1F0 + e))"

function fips_loop :: "nat \<Rightarrow> nat \<Rightarrow> byte list \<Rightarrow> (eap_err, byte list) res" where
  "fips_loop len xkey result =
     (if \<not> length result < len then Inr result
      else rbind (fill_bytes 20 xkey) (\<lambda>xval.
        let word = fipsSHA1G xval in
        fips_loop len ((xkey + octets_value word + 1) mod 2 ^ 160) (result @ word)))"
  by pat_completeness auto
termination
  by (relation "measure (\<lambda>(len, xkey, result). len - length result)")
    (auto simp: fipsSHA1G_def Let_def split: prod.splits)

declare fips_loop.simps [simp del]

definition fips1862PRF :: "byte list \<Rightarrow> nat \<Rightarrow> (eap_err, byte list) res" where
  "fips1862PRF seed len = rbind (fips_loop len (octets_value seed) []) (\<lambda>result. slice result 0 len)"

definition deriveAKAKeys ::
  "crypto \<Rightarrow> byte list \<Rightarrow> byte list \<Rightarrow> byte list \<Rightarrow> (eap_err, akaKeys) res" where
  "deriveAKAKeys c identity ik ck =
     (if length identity = 0 then Inl (Fail ErrIdentityEmpty)
      else if length ik \<noteq> 16 \<or> length ck \<noteq> 16 then Inl (Fail ErrKeyLength)
      else rbind (fips1862PRF (sha1_sum c (identity @ ik @ ck)) 160) (\<lambda>stream.
           rbind (slice stream 0 16) (\<lambda>encr.
           rbind (slice stream 16 32) (\<lambda>aut.
           rbind (slice stream 32 96) (\<lambda>msk.
           rbind (slice stream 96 160) (\<lambda>emsk.
             Inr \<lparr>KEncr = encr, KAut = aut, MSK = msk, EMSK = emsk\<rparr>))))))"

definition akaMAC :: "crypto \<Rightarrow> byte list \<Rightarrow> byte list \<Rightarrow> (eap_err, byte list) res" where
  "akaMAC c key packet = slice (hmac_sha1 c key packet) 0 16"

subsection \<open>The client\<close>

text \<open>The answers of the SIM: a MAC failure (\<open>ErrEC20AKAMACFailure\<close>), another error, or a result.\<close>

record akaResult =
  SynchronizationFailure :: bool
  AUTS :: "byte list"
  RES :: "byte list"
  IK :: "byte list"
  CK :: "byte list"

datatype sim_answer = SimMACFailure | SimError | SimResult akaResult

record eapAction =
  act_Response :: "byte list"
  act_Success :: bool

record akaClient =
  ac_identity :: "byte list"
  ac_keys :: akaKeys
  lastResponseStage :: gostring
  challengeComplete :: bool
  resultIndication :: bool
  protectedSuccess :: bool

definition newAKAClient :: "byte list \<Rightarrow> akaClient" where
  "newAKAClient nai =
     \<lparr>ac_identity = nai, ac_keys = \<lparr>KEncr = [], KAut = [], MSK = [], EMSK = []\<rparr>,
      lastResponseStage = str ''in the initial IKE_AUTH identity exchange'',
      challengeComplete = False, resultIndication = False, protectedSuccess = False\<rparr>"

definition response :: "byte \<Rightarrow> byte \<Rightarrow> byte list \<Rightarrow> (eap_err, byte list) res" where
  "response identifier kind data =
     marshalEAPPacket \<lparr>ep_Code = eapResponse, ep_Identifier = identifier, ep_Type = kind, ep_Data = data\<rparr>"

definition reply :: "byte list \<Rightarrow> eapAction" where
  "reply bytes = \<lparr>act_Response = bytes, act_Success = False\<rparr>"

definition akaClientErrorResponse :: "byte \<Rightarrow> (eap_err, eapAction) res" where
  "akaClientErrorResponse identifier =
     rbind (marshalAKAAttribute akaAttrClientError [0, 0]) (\<lambda>attribute.
     rbind (response identifier eapTypeAKA ([akaSubtypeClientError, 0, 0] @ attribute)) (\<lambda>r. Inr (reply r)))"

definition akaAuthenticationRejectResponse :: "byte \<Rightarrow> (eap_err, eapAction) res" where
  "akaAuthenticationRejectResponse identifier =
     rbind (response identifier eapTypeAKA [akaSubtypeAuthReject, 0, 0]) (\<lambda>r. Inr (reply r))"

text \<open>Writing into a slice at an offset: \<open>copy(xs[a:b], v)\<close>, and setting \<open>xs[a:b]\<close> to zero in a loop.\<close>

definition overwrite :: "byte list \<Rightarrow> nat \<Rightarrow> nat \<Rightarrow> byte list \<Rightarrow> (eap_err, byte list) res" where
  "overwrite xs a b v =
     (if a \<le> b \<and> b \<le> length xs then
        let w = take (b - a) v in Inr (take a xs @ w @ drop (a + length w) xs)
      else Inl Panic)"

definition zero_range :: "byte list \<Rightarrow> nat \<Rightarrow> nat \<Rightarrow> (eap_err, byte list) res" where
  "zero_range xs a b = overwrite xs a b (replicate (b - a) 0)"

text \<open>A response with an AT_MAC attribute: the code over the packet is written into it.\<close>

definition sign_response :: "crypto \<Rightarrow> byte list \<Rightarrow> byte list \<Rightarrow> byte list \<Rightarrow> (eap_err, byte list) res" where
  "sign_response c key data responseBytes =
     rbind (slice data 3 (length data)) (\<lambda>encoded.
     rbind (oneAKAAttribute (case parseAKAAttributes encoded of Inr as \<Rightarrow> as | Inl _ \<Rightarrow> []) akaAttrMAC) (\<lambda>responseMAC.
       let offset = 5 + 3 + aa_Offset responseMAC in
     rbind (akaMAC c key responseBytes) (\<lambda>computed.
       overwrite responseBytes (offset + 4) (offset + 20) computed)))"

text \<open>The code of a request over its octets with the AT_MAC value zeroed, against that value.\<close>

definition mac_valid :: "crypto \<Rightarrow> byte list \<Rightarrow> byte list \<Rightarrow> akaAttribute \<Rightarrow> (eap_err, bool) res" where
  "mac_valid c key requestBytes macAttribute =
     (let macOffset = 5 + 3 + aa_Offset macAttribute in
      rbind (zero_range requestBytes (macOffset + 4) (macOffset + 20)) (\<lambda>zeroed.
      rbind (akaMAC c key zeroed) (\<lambda>expectedMAC.
      rbind (slice (aa_Raw macAttribute) 4 20) (\<lambda>actual. Inr (expectedMAC = actual)))))"

text \<open>The value of AT_MAC in a response before it is signed: \<open>make([]byte, 18)\<close>.\<close>

abbreviation blank_mac :: "byte list" where
  "blank_mac \<equiv> replicate 18 0"

fun identity_requests :: "akaAttribute list \<Rightarrow> nat \<Rightarrow> (eap_err, nat) res" where
  "identity_requests [] requests = Inr requests"
| "identity_requests (attribute # rest) requests =
     (if aa_Type attribute \<in> {akaAttrPermanentIDReq, akaAttrAnyIDReq, akaAttrFullAuthIDReq} then
        (if length (aa_Raw attribute) \<noteq> 4 then Inl (Fail ErrIdentityRequest)
         else identity_requests rest (requests + 1))
      else if aa_Type attribute < 128 then Inl (Fail ErrMandatoryAttribute)
      else identity_requests rest requests)"

definition respondAKAIdentity ::
  "akaClient \<Rightarrow> byte \<Rightarrow> akaAttribute list \<Rightarrow> (eap_err, eapAction) res \<times> akaClient" where
  "respondAKAIdentity client identifier attributes =
     (case rbind (identity_requests attributes 0) (\<lambda>requests.
             if requests \<noteq> 1 then Inl (Fail ErrIdentityRequest)
             else marshalAKAAttribute akaAttrIdentity
                    (put_be16 (of_nat (length (ac_identity client))) @ ac_identity client)) of
        Inl e \<Rightarrow> (Inl e, client)
      | Inr identityAttribute \<Rightarrow>
          (rbind (response identifier eapTypeAKA ([akaSubtypeIdentity, 0, 0] @ identityAttribute)) (\<lambda>r. Inr (reply r)),
           client\<lparr>lastResponseStage := str ''after EAP-Response/AKA-Identity''\<rparr>))"

fun challenge_attributes :: "akaAttribute list \<Rightarrow> (eap_err, unit) res" where
  "challenge_attributes [] = Inr ()"
| "challenge_attributes (attribute # rest) =
     (if aa_Type attribute \<notin> {akaAttrRAND, akaAttrAUTN, akaAttrMAC, akaAttrResultInd} \<and> aa_Type attribute < 128
      then Inl (Fail ErrMandatoryAttribute) else challenge_attributes rest)"

fun result_indications :: "akaAttribute list \<Rightarrow> byte list \<Rightarrow> bool \<Rightarrow> (eap_err, byte list \<times> bool) res" where
  "result_indications [] responseData ind = Inr (responseData, ind)"
| "result_indications (attribute # rest) responseData ind =
     (if aa_Type attribute = akaAttrResultInd then
        (if length (aa_Raw attribute) \<noteq> 4 then Inl (Fail ErrResultInd)
         else result_indications rest (responseData @ aa_Raw attribute) True)
      else result_indications rest responseData ind)"

text \<open>The three attributes of a challenge.\<close>

definition challenge_parts ::
  "akaAttribute list \<Rightarrow> (eap_err, akaAttribute \<times> akaAttribute \<times> akaAttribute) res" where
  "challenge_parts attributes =
     rbind (challenge_attributes attributes) (\<lambda>_.
     rbind (oneAKAAttribute attributes akaAttrRAND) (\<lambda>randAttribute.
     rbind (oneAKAAttribute attributes akaAttrAUTN) (\<lambda>autnAttribute.
     rbind (oneAKAAttribute attributes akaAttrMAC) (\<lambda>macAttribute.
       if length (aa_Raw randAttribute) \<noteq> 20 \<or> length (aa_Raw autnAttribute) \<noteq> 20
          \<or> length (aa_Raw macAttribute) \<noteq> 20
       then Inl (Fail ErrAttributeLength)
       else Inr (randAttribute, autnAttribute, macAttribute)))))"

text \<open>The part of \<open>respondAKAChallenge\<close> after the SIM has returned RES, IK and CK.\<close>

definition accept_challenge ::
  "crypto \<Rightarrow> akaClient \<Rightarrow> byte \<Rightarrow> akaAttribute list \<Rightarrow> akaAttribute \<Rightarrow> eapPacket \<Rightarrow> akaResult
     \<Rightarrow> (eap_err, eapAction \<times> akaClient) res" where
  "accept_challenge c client identifier attributes macAttribute request result =
     (if length (RES result) < 4 \<or> length (RES result) > 16 then Inl (Fail ErrRES)
      else rbind (deriveAKAKeys c (ac_identity client) (IK result) (CK result)) (\<lambda>keys.
      rbind (marshalEAPPacket request) (\<lambda>requestBytes.
      if 5 + 3 + aa_Offset macAttribute + 20 > length requestBytes then Inl (Fail ErrMACOffset)
      else rbind (mac_valid c (KAut keys) requestBytes macAttribute) (\<lambda>valid.
      if \<not> valid then Inl (Fail ErrServerMAC)
      else rbind (marshalAKAAttribute akaAttrRES
                    (put_be16 (of_nat (length (RES result) * 8)) @ RES result)) (\<lambda>resAttribute.
           rbind (marshalAKAAttribute akaAttrMAC blank_mac) (\<lambda>macResponse.
           rbind (result_indications attributes ([akaSubtypeChallenge, 0, 0] @ resAttribute) False)
             (\<lambda>(responseData, ind).
           let responseData = responseData @ macResponse in
           rbind (response identifier eapTypeAKA responseData) (\<lambda>responseBytes.
           rbind (sign_response c (KAut keys) responseData responseBytes) (\<lambda>signed.
             Inr (reply signed,
                  client\<lparr>ac_keys := keys, challengeComplete := True, resultIndication := ind\<rparr>))))))))))"

definition respondAKAChallenge ::
  "crypto \<Rightarrow> (byte list \<Rightarrow> byte list \<Rightarrow> sim_answer) \<Rightarrow> akaClient \<Rightarrow> byte \<Rightarrow> akaAttribute list \<Rightarrow> eapPacket
     \<Rightarrow> (eap_err, eapAction \<times> akaClient) res" where
  "respondAKAChallenge c authenticate client identifier attributes request =
     rbind (challenge_parts attributes) (\<lambda>(randAttribute, autnAttribute, macAttribute).
     rbind (slice (aa_Raw randAttribute) 4 20) (\<lambda>rand.
     rbind (slice (aa_Raw autnAttribute) 4 20) (\<lambda>autn.
       case authenticate rand autn of
         SimMACFailure \<Rightarrow> rbind (akaAuthenticationRejectResponse identifier) (\<lambda>a. Inr (a, client))
       | SimError \<Rightarrow> Inl (Fail ErrAKAProvider)
       | SimResult result \<Rightarrow>
           if SynchronizationFailure result then
             (if length (AUTS result) \<noteq> 14 then Inl (Fail ErrAUTS)
              else rbind (marshalAKAAttribute akaAttrAUTS (AUTS result)) (\<lambda>autsAttribute.
                   rbind (response identifier eapTypeAKA ([akaSubtypeSyncFailure, 0, 0] @ autsAttribute)) (\<lambda>r.
                     Inr (reply r, client))))
           else accept_challenge c client identifier attributes macAttribute request result)))"

text \<open>Notifications other than the protected success; bit 0x4000 marks those before authentication.\<close>

definition plain_notification ::
  "crypto \<Rightarrow> akaClient \<Rightarrow> byte \<Rightarrow> akaAttribute list \<Rightarrow> eapPacket \<Rightarrow> 16 word \<Rightarrow> (eap_err, eapAction) res" where
  "plain_notification c client identifier attributes request code =
     (if code AND 0x4000 = 0 then
        (if \<not> challengeComplete client then akaClientErrorResponse identifier
         else case oneAKAAttribute attributes akaAttrMAC of
                Inl _ \<Rightarrow> akaClientErrorResponse identifier
              | Inr macAttribute \<Rightarrow>
                  if length (aa_Raw macAttribute) \<noteq> 20 then akaClientErrorResponse identifier
                  else rbind (marshalEAPPacket request) (\<lambda>requestBytes.
                       rbind (mac_valid c (KAut (ac_keys client)) requestBytes macAttribute) (\<lambda>valid.
                       if \<not> valid then akaClientErrorResponse identifier
                       else rbind (marshalAKAAttribute akaAttrMAC blank_mac) (\<lambda>responseMAC.
                            let responseData = [akaSubtypeNotification, 0, 0] @ responseMAC in
                            rbind (response identifier eapTypeAKA responseData) (\<lambda>responseBytes.
                            rbind (sign_response c (KAut (ac_keys client)) responseData responseBytes) (\<lambda>signed.
                              Inr (reply signed)))))))
      else rbind (response identifier eapTypeAKA [akaSubtypeNotification, 0, 0]) (\<lambda>r. Inr (reply r)))"

definition success_notification ::
  "crypto \<Rightarrow> akaClient \<Rightarrow> byte \<Rightarrow> akaAttribute list \<Rightarrow> eapPacket \<Rightarrow> (eap_err, eapAction \<times> akaClient) res" where
  "success_notification c client identifier attributes request =
     (if \<not> challengeComplete client \<or> \<not> resultIndication client then Inl (Fail ErrUnexpectedNotification)
      else rbind (oneAKAAttribute attributes akaAttrMAC) (\<lambda>macAttribute.
      if length (aa_Raw macAttribute) \<noteq> 20 then Inl (Fail ErrAttributeLength)
      else rbind (marshalEAPPacket request) (\<lambda>requestBytes.
           rbind (mac_valid c (KAut (ac_keys client)) requestBytes macAttribute) (\<lambda>valid.
           if \<not> valid then Inl (Fail ErrServerMAC)
           else rbind (marshalAKAAttribute akaAttrMAC blank_mac) (\<lambda>responseMAC.
                let responseData = [akaSubtypeNotification, 0, 0] @ responseMAC in
                rbind (response identifier eapTypeAKA responseData) (\<lambda>responseBytes.
                rbind (sign_response c (KAut (ac_keys client)) responseData responseBytes) (\<lambda>signed.
                  Inr (reply signed, client\<lparr>protectedSuccess := True\<rparr>))))))))"

definition respondAKANotification ::
  "crypto \<Rightarrow> akaClient \<Rightarrow> byte \<Rightarrow> akaAttribute list \<Rightarrow> eapPacket \<Rightarrow> (eap_err, eapAction \<times> akaClient) res" where
  "respondAKANotification c client identifier attributes request =
     rbind (oneAKAAttribute attributes akaAttrNotification) (\<lambda>notification.
     if length (aa_Raw notification) \<noteq> 4 then Inl (Fail ErrAttributeLength)
     else rbind (u16_at (aa_Raw notification) 2) (\<lambda>code.
       if code \<noteq> 32768 then
         rbind (plain_notification c client identifier attributes request code) (\<lambda>a. Inr (a, client))
       else success_notification c client identifier attributes request))"

text \<open>A handler that returns no new client leaves it as it was.\<close>

definition keeping :: "akaClient \<Rightarrow> (eap_err, eapAction \<times> akaClient) res \<Rightarrow> (eap_err, eapAction) res \<times> akaClient" where
  "keeping client r = (case r of Inl e \<Rightarrow> (Inl e, client) | Inr (a, client') \<Rightarrow> (Inr a, client'))"

definition handleAKARequest ::
  "crypto \<Rightarrow> (byte list \<Rightarrow> byte list \<Rightarrow> sim_answer) \<Rightarrow> akaClient \<Rightarrow> eapPacket
     \<Rightarrow> (eap_err, eapAction) res \<times> akaClient" where
  "handleAKARequest c authenticate client packet =
     (let clientError = (\<lambda>client. (akaClientErrorResponse (ep_Identifier packet), client)) in
      if length (ep_Data packet) < 3 then clientError client
      else if ep_Data packet ! 1 \<noteq> 0 \<or> ep_Data packet ! 2 \<noteq> 0 then clientError client
      else case parseAKAAttributes (drop 3 (ep_Data packet)) of
             Inl _ \<Rightarrow> clientError client
           | Inr attributes \<Rightarrow>
               let subtype = ep_Data packet ! 0 in
               if subtype = akaSubtypeIdentity then
                 (case respondAKAIdentity client (ep_Identifier packet) attributes of
                    (Inl _, client') \<Rightarrow> clientError client'
                  | (Inr a, client') \<Rightarrow> (Inr a, client'))
               else if subtype = akaSubtypeChallenge then
                 (case respondAKAChallenge c authenticate client (ep_Identifier packet) attributes packet of
                    Inl (Fail ErrAKAProvider) \<Rightarrow> (Inl (Fail ErrAKAProvider), client)
                  | Inl (Fail _) \<Rightarrow> clientError client
                  | r \<Rightarrow> keeping client r)
               else if subtype = akaSubtypeNotification then
                 keeping client (respondAKANotification c client (ep_Identifier packet) attributes packet)
               else clientError client)"

definition handle ::
  "crypto \<Rightarrow> (byte list \<Rightarrow> byte list \<Rightarrow> sim_answer) \<Rightarrow> akaClient \<Rightarrow> byte list
     \<Rightarrow> (eap_err, eapAction) res \<times> akaClient" where
  "handle c authenticate client encoded =
     (case parseEAPPacket encoded of
        Inl e \<Rightarrow> (Inl e, client)
      | Inr packet \<Rightarrow>
          if ep_Code packet = eapFailure then
            (Inl (Fail (ErrRejected (if challengeComplete client
               then str ''after the SIM AKA challenge response'' else lastResponseStage client))), client)
          else if ep_Code packet = eapSuccess then
            (if \<not> challengeComplete client then (Inl (Fail ErrEarlySuccess), client)
             else if resultIndication client \<and> \<not> protectedSuccess client
                  then (Inl (Fail ErrUnprotectedSuccess), client)
             else (Inr \<lparr>act_Response = [], act_Success = True\<rparr>, client))
          else if ep_Code packet \<noteq> eapRequest then (Inl (Fail ErrEAPCode), client)
          else if ep_Type packet = eapTypeIdentity then
            (rbind (response (ep_Identifier packet) eapTypeIdentity (ac_identity client)) (\<lambda>r. Inr (reply r)),
             client\<lparr>lastResponseStage := str ''after EAP-Response/Identity''\<rparr>)
          else if ep_Type packet = eapTypeAKA then handleAKARequest c authenticate client packet
          else (Inl (Fail ErrEAPType), client))"

end
