(* ===== verification/Eap_Data.thy ===== *)
theory Eap_Data
  imports Eap_Aka
begin

text \<open>
  The data of the EAP-AKA client: packets and attribute lists come back from their encodings and
  keep their places in the packet, which the message authentication code depends on, and the keys
  are the stream of the FIPS 186-2 generator.
\<close>

subsection \<open>Packets\<close>

definition eap_wellformed :: "eapPacket \<Rightarrow> bool" where
  "eap_wellformed p \<longleftrightarrow> ep_Code p \<in> {1, 2, 3, 4}"

lemma unat_of_nat_be16: "n \<le> 65535 \<Longrightarrow> unat (of_nat n :: 16 word) = n"
  by (simp add: unat_of_nat take_bit_eq_mod)

lemma parse_marshal_eap:
  assumes "marshalEAPPacket p = Inr bs" "eap_wellformed p"
  shows "parseEAPPacket bs = Inr p"
proof (cases "ep_Code p = 1 \<or> ep_Code p = 2")
  case True
  then have bs: "bs = [ep_Code p, ep_Identifier p] @ put_be16 (of_nat (5 + length (ep_Data p))) @ ep_Type p # ep_Data p"
    and len: "5 + length (ep_Data p) \<le> 65535"
    using assms(1) by (auto simp: marshalEAPPacket_def eap_constants rbind_Inr_iff split: if_splits)
  show ?thesis
    using True unat_of_nat_be16 [OF len] unfolding bs
    by (auto simp: parseEAPPacket_def put_be16_def eap_constants simp del: of_nat_add)
next
  case False
  with assms(2) have code: "ep_Code p = 3 \<or> ep_Code p = 4" by (auto simp: eap_wellformed_def)
  then have bs: "bs = [ep_Code p, ep_Identifier p, 0, 4]" and rest: "ep_Type p = 0" "ep_Data p = []"
    using assms(1) by (auto simp: marshalEAPPacket_def eap_constants rbind_Inr_iff put_be16_def split: if_splits)
  show ?thesis
    using code rest unfolding bs by (auto simp: parseEAPPacket_def eap_constants be16_def)
qed

lemma list5: "5 \<le> length bs \<Longrightarrow> bs = bs ! 0 # bs ! 1 # bs ! 2 # bs ! 3 # bs ! 4 # drop 5 bs"
  by (cases bs; cases "tl bs"; cases "drop 2 bs"; cases "drop 3 bs"; cases "drop 4 bs")
    (auto simp: numeral_nat nth_Cons')

lemma marshal_parse_eap:
  assumes "parseEAPPacket bs = Inr p" "ep_Type p \<noteq> 0"
  shows "marshalEAPPacket p = Inr bs"
proof -
  have code: "bs ! 0 = 1 \<or> bs ! 0 = 2" and len: "5 \<le> length bs"
    and p: "p = \<lparr>ep_Code = bs ! 0, ep_Identifier = bs ! 1, ep_Type = bs ! 4, ep_Data = drop 5 bs\<rparr>"
    and l: "unat (be16 (bs ! 2) (bs ! 3)) = length bs"
    using assms by (auto simp: parseEAPPacket_def rbind_Inr_iff idx_Inr_iff eap_constants split: if_splits)
  have n: "of_nat (length bs) = be16 (bs ! 2) (bs ! 3)" unfolding l [symmetric] by simp
  have "unat (be16 (bs ! 2) (bs ! 3)) < 2 ^ LENGTH(16)" by (rule unsigned_less)
  then have "length bs \<le> 65535" using l by simp
  moreover have "put_be16 (of_nat (length bs)) = [bs ! 2, bs ! 3]" unfolding n by simp
  moreover have "4 + (1 + length (drop 5 bs)) = length bs" using len by simp
  ultimately show ?thesis
    using code len assms(2) list5 [OF len] unfolding p
    by (auto simp: marshalEAPPacket_def eap_constants simp del: of_nat_add)
qed

lemma safe_parse_eap [simp]: "safe (parseEAPPacket bs)"
  by (cases "bs = []") (auto simp: parseEAPPacket_def eap_constants not_less)

lemma safe_marshal_eap [simp]: "safe (marshalEAPPacket p)"
  by (auto simp: marshalEAPPacket_def)

subsection \<open>Attribute lists\<close>

text \<open>The records of a list of encoded attributes, laid out from an offset.\<close>

fun layout :: "nat \<Rightarrow> byte list list \<Rightarrow> akaAttribute list" where
  "layout n [] = []"
| "layout n (raw # raws) = \<lparr>aa_Type = raw ! 0, aa_Raw = raw, aa_Offset = n\<rparr> # layout (n + length raw) raws"

definition attribute_raw :: "byte list \<Rightarrow> bool" where
  "attribute_raw raw \<longleftrightarrow> 4 \<le> length raw \<and> length raw = unat (raw ! 1) * 4"

lemma map_raw_layout [simp]: "map aa_Raw (layout n raws) = raws"
  by (induction raws arbitrary: n) simp_all

lemma length_layout [simp]: "length (layout n raws) = length raws"
  by (induction raws arbitrary: n) simp_all

lemma layout_append: "layout n (xs @ ys) = layout n xs @ layout (n + length (concat xs)) ys"
  by (induction xs arbitrary: n) (simp_all add: add.assoc)

lemma attributes_loop_layout:
  assumes "list_all attribute_raw raws" "length acc + length raws \<le> 64" "length pre = n"
  shows "attributes_loop (pre @ concat raws) n acc = Inr (acc @ layout n raws)"
  using assms
proof (induction raws arbitrary: pre n acc)
  case Nil
  then show ?case by (simp add: attributes_loop.simps)
next
  case (Cons raw raws)
  have raw: "4 \<le> length raw" "unat (raw ! 1) * 4 = length raw" "raw \<noteq> []"
    using Cons.prems(1) by (auto simp: attribute_raw_def)
  let ?a = "\<lparr>aa_Type = raw ! 0, aa_Raw = raw, aa_Offset = n\<rparr>"
  have "attributes_loop ((pre @ raw) @ concat raws) (n + length raw) (acc @ [?a])
      = Inr ((acc @ [?a]) @ layout (n + length raw) raws)"
    by (rule Cons.IH) (use Cons.prems in simp_all)
  then show ?case
    using Cons.prems raw by (subst attributes_loop.simps) (simp add: nth_append Let_def)
qed

lemma parse_layout:
  assumes "list_all attribute_raw raws" "length raws \<le> 64"
  shows "parseAKAAttributes (concat raws) = Inr (layout 0 raws)"
  using attributes_loop_layout [of raws "[]" "[]" 0] assms by (simp add: parseAKAAttributes_def)

lemma attributes_loop_Inr:
  assumes "attributes_loop encoded n acc = Inr as" "n \<le> length encoded"
  shows "\<exists>raws. as = acc @ layout n raws \<and> drop n encoded = concat raws \<and> list_all attribute_raw raws
    \<and> length as \<le> max 64 (length acc)"
  using assms
proof (induction encoded n acc arbitrary: as rule: attributes_loop.induct)
  case (1 encoded offset result)
  show ?case
  proof (cases "offset < length encoded")
    case False
    then show ?thesis using "1.prems" by (intro exI [of _ "[]"]) (simp add: attributes_loop.simps)
  next
    case True
    let ?len = "unat (encoded ! (offset + 1)) * 4"
    let ?raw = "take ?len (drop offset encoded)"
    have b: "length result < 64" "offset + 2 \<le> length encoded" "4 \<le> ?len" "offset + ?len \<le> length encoded"
      and rest: "attributes_loop encoded (offset + ?len)
        (result @ [\<lparr>aa_Type = encoded ! offset, aa_Raw = ?raw, aa_Offset = offset\<rparr>]) = Inr as"
      using "1.prems" True
      by (auto simp: attributes_loop.simps [of encoded offset] rbind_Inr_iff Let_def idx_Inr_iff slice_Inr_iff split: if_splits)
    obtain raws where raws: "as = (result @ [\<lparr>aa_Type = encoded ! offset, aa_Raw = ?raw, aa_Offset = offset\<rparr>])
        @ layout (offset + ?len) raws" "drop (offset + ?len) encoded = concat raws" "list_all attribute_raw raws"
      "length as \<le> 64"
      using "1.IH" [OF _ _ _ refl _ _ _ rest] True b by (auto simp: not_less not_le)
    have "drop offset encoded = ?raw @ drop (offset + ?len) encoded"
      by (metis append_take_drop_id drop_drop add.commute)
    moreover have "attribute_raw ?raw" using b by (simp add: attribute_raw_def)
    moreover have "length ?raw = ?len" using b by simp
    ultimately show ?thesis using raws b by (intro exI [of _ "?raw # raws"]) auto
  qed
qed

lemma parse_Inr_layout:
  assumes "parseAKAAttributes encoded = Inr as"
  obtains raws where "as = layout 0 raws" "encoded = concat raws" "list_all attribute_raw raws" "length raws \<le> 64"
  using attributes_loop_Inr [of encoded 0 "[]" as] assms by (auto simp: parseAKAAttributes_def)

lemma safe_attributes_loop: "safe (attributes_loop encoded n acc)"
proof (induction encoded n acc rule: attributes_loop.induct)
  case (1 encoded offset result)
  then show ?case by (subst attributes_loop.simps) (auto simp: Let_def not_less not_le)
qed

lemma safe_parse_attributes [simp]: "safe (parseAKAAttributes encoded)"
  by (simp add: parseAKAAttributes_def safe_attributes_loop)

lemma layout_member:
  "a \<in> set (layout n raws) \<Longrightarrow> \<exists>us vs. raws = us @ aa_Raw a # vs \<and> aa_Offset a = n + length (concat us)
     \<and> aa_Type a = aa_Raw a ! 0"
proof (induction raws arbitrary: n)
  case (Cons raw raws)
  show ?case
  proof (cases "a \<in> set (layout (n + length raw) raws)")
    case True
    then obtain us vs where "raws = us @ aa_Raw a # vs" "aa_Offset a = n + length raw + length (concat us)"
        "aa_Type a = aa_Raw a ! 0"
      using Cons.IH by blast
    then show ?thesis by (intro exI [of _ "raw # us"] exI [of _ vs]) simp
  next
    case False
    then show ?thesis using Cons.prems by (intro exI [of _ "[]"] exI [of _ raws]) auto
  qed
qed simp

lemma marshal_attribute_raw:
  assumes "marshalAKAAttribute kind value = Inr raw"
  shows "attribute_raw raw" "raw ! 0 = kind" "take (length value) (drop 2 raw) = value"
    "length raw = (length value + 5) div 4 * 4"
proof -
  let ?n = "(length value + 5) div 4"
  have n: "?n \<le> 255" and raw: "raw = [kind, of_nat ?n] @ value @ replicate (?n * 4 - (2 + length value)) 0"
    using assms by (auto simp: marshalAKAAttribute_def Let_def add.commute split: if_splits)
  have le: "2 + length value \<le> ?n * 4" by linarith
  then show "length raw = ?n * 4" by (simp add: raw)
  moreover have "unat (of_nat ?n :: byte) = ?n" using n by (simp add: unat_of_nat take_bit_eq_mod)
  ultimately show "attribute_raw raw" by (simp add: attribute_raw_def raw del: of_nat_Suc)
  show "raw ! 0 = kind" "take (length value) (drop 2 raw) = value" by (simp_all add: raw)
qed

subsection \<open>Key derivation\<close>

lemma length_fipsSHA1G [simp]: "length (fipsSHA1G xval) = 20"
  by (simp add: fipsSHA1G_def Let_def split: prod.splits)

text \<open>
  The generator of FIPS 186-2 as the standard writes it, without the optional user input and
  with q = 2: XKEY starts as the seed, and each step gives x = G(XKEY) and
  XKEY = (1 + XKEY + x) mod 2^160.
\<close>

definition octets20 :: "nat \<Rightarrow> byte list" where
  "octets20 v = map (\<lambda>i. of_nat (v div 256 ^ (19 - i))) [0..<20]"

fun fips_xkey :: "byte list \<Rightarrow> nat \<Rightarrow> nat" where
  "fips_xkey seed 0 = octets_value seed"
| "fips_xkey seed (Suc j) =
     (1 + fips_xkey seed j + octets_value (fipsSHA1G (octets20 (fips_xkey seed j)))) mod 2 ^ 160"

definition fips_stream :: "byte list \<Rightarrow> nat \<Rightarrow> byte list" where
  "fips_stream seed n = concat (map (\<lambda>j. fipsSHA1G (octets20 (fips_xkey seed j))) [0..<n])"

lemma length_fips_stream [simp]: "length (fips_stream seed n) = 20 * n"
  by (induction n) (simp_all add: fips_stream_def)

lemma fips_xkey_less: "length seed = 20 \<Longrightarrow> fips_xkey seed j < 2 ^ 160"
  using octets_value_less [of seed] by (cases j) (simp_all add: power_mult [symmetric])

lemma fips_loop_stream:
  assumes "length seed = 20" "j \<le> n" "20 * (n - 1) < len" "len \<le> 20 * n" "0 < n"
  shows "fips_loop len (fips_xkey seed j) (fips_stream seed j) = Inr (fips_stream seed n)"
  using assms(2)
proof (induction "n - j" arbitrary: j)
  case 0
  then show ?case using assms by (subst fips_loop.simps) simp
next
  case (Suc k)
  then have j: "j < n" by simp
  then have more: "20 * j < len" using assms(3) by linarith
  have "fips_xkey seed j < 256 ^ 20" using fips_xkey_less [OF assms(1), of j] by simp
  then have fill: "fill_bytes 20 (fips_xkey seed j) = Inr (octets20 (fips_xkey seed j))"
    by (simp add: fill_bytes_def octets20_def)
  have "fips_loop len (fips_xkey seed (Suc j)) (fips_stream seed (Suc j)) = Inr (fips_stream seed n)"
    using Suc j by (intro Suc.hyps(1)) simp_all
  moreover have "fips_stream seed (Suc j) = fips_stream seed j @ fipsSHA1G (octets20 (fips_xkey seed j))"
    by (simp add: fips_stream_def)
  moreover have "fips_xkey seed (Suc j)
      = (fips_xkey seed j + octets_value (fipsSHA1G (octets20 (fips_xkey seed j))) + 1) mod 2 ^ 160"
    by (simp only: fips_xkey.simps ac_simps)
  ultimately show ?case using more by (subst fips_loop.simps) (simp add: fill)
qed

lemma fips1862PRF_stream:
  assumes "length seed = 20"
  shows "fips1862PRF seed 160 = Inr (fips_stream seed 8)"
  using fips_loop_stream [OF assms, of 0 8 160] by (simp add: fips1862PRF_def fips_stream_def [of _ 0])

lemma derive_ok:
  assumes "crypto_ok c" "identity \<noteq> []" "length ik = 16" "length ck = 16"
  shows "deriveAKAKeys c identity ik ck
    = (let s = fips_stream (sha1_sum c (identity @ ik @ ck)) 8 in
       Inr \<lparr>KEncr = take 16 s, KAut = take 16 (drop 16 s), MSK = take 64 (drop 32 s), EMSK = take 64 (drop 96 s)\<rparr>)"
  using assms(2-4) fips1862PRF_stream [of "sha1_sum c (identity @ ik @ ck)"] crypto_lengths(3) [OF assms(1)]
  by (simp add: deriveAKAKeys_def Let_def)

lemma safe_derive:
  assumes "crypto_ok c"
  shows "safe (deriveAKAKeys c identity ik ck)"
proof (cases "identity \<noteq> [] \<and> length ik = 16 \<and> length ck = 16")
  case True
  then show ?thesis using derive_ok [OF assms, of identity ik ck] by (simp add: Let_def)
next
  case False
  then show ?thesis by (auto simp: deriveAKAKeys_def)
qed

lemma split_at_16_32_96:
  "length s = 160 \<Longrightarrow> take 16 s @ take 16 (drop 16 s) @ take 64 (drop 32 s) @ take 64 (drop 96 s) = s"
  by (rule nth_equalityI) (auto simp: nth_append min_def)

text \<open>
  The EAP-AKA keys are the first 160 octets of the FIPS 186-2 generator seeded with
  SHA-1(identity, IK, CK), cut into 16, 16, 64 and 64 octets; the derivation succeeds exactly when
  the identity is not empty and IK and CK have 16 octets, and never panics.
\<close>

theorem aka_keys_derived:
  assumes "crypto_ok c"
  shows "(case deriveAKAKeys c identity ik ck of
      Inr k \<Rightarrow> identity \<noteq> [] \<and> length ik = 16 \<and> length ck = 16
        \<and> KEncr k @ KAut k @ MSK k @ EMSK k = fips_stream (sha1_sum c (identity @ ik @ ck)) 8
        \<and> length (KEncr k) = 16 \<and> length (KAut k) = 16 \<and> length (MSK k) = 64 \<and> length (EMSK k) = 64
    | Inl e \<Rightarrow> (identity = [] \<and> e = Fail ErrIdentityEmpty)
        \<or> (identity \<noteq> [] \<and> (length ik \<noteq> 16 \<or> length ck \<noteq> 16) \<and> e = Fail ErrKeyLength))"
proof (cases "identity \<noteq> [] \<and> length ik = 16 \<and> length ck = 16")
  case True
  then show ?thesis
    using derive_ok [OF assms, of identity ik ck] split_at_16_32_96 [of "fips_stream _ 8"] by (simp add: Let_def)
next
  case False
  then show ?thesis by (auto simp: deriveAKAKeys_def)
qed

theorem aka_keys_derived_witness:
  "crypto_ok plain_crypto \<and>
   (case deriveAKAKeys plain_crypto [48, 64] (replicate 16 1) (replicate 16 2) of
      Inr k \<Rightarrow> length (MSK k) = 64 | Inl e \<Rightarrow> False)"
  using aka_keys_derived [of plain_crypto "[48, 64]" "replicate 16 1" "replicate 16 2"] plain_crypto_ok
  by (auto split: sum.splits)

subsection \<open>Messages\<close>

text \<open>A packet with AKA data, as \<open>handleAKARequest\<close> takes it apart.\<close>

definition aka_message :: "byte list \<Rightarrow> eapPacket \<Rightarrow> akaAttribute list \<Rightarrow> bool" where
  "aka_message bs p as \<longleftrightarrow> parseEAPPacket bs = Inr p \<and> ep_Type p = 23 \<and> 3 \<le> length (ep_Data p)
     \<and> ep_Data p ! 1 = 0 \<and> ep_Data p ! 2 = 0 \<and> parseAKAAttributes (drop 3 (ep_Data p)) = Inr as"

lemma aka_message_bytes:
  assumes "aka_message bs p as"
  shows "marshalEAPPacket p = Inr bs" "bs = take 5 bs @ ep_Data p" "length (take 5 bs) = 5"
    "\<exists>raws. as = layout 0 raws \<and> bs = take 8 bs @ concat raws \<and> length (take 8 bs) = 8
       \<and> list_all attribute_raw raws \<and> length raws \<le> 64"
proof -
  have p: "parseEAPPacket bs = Inr p" "ep_Type p = 23" "3 \<le> length (ep_Data p)"
    "parseAKAAttributes (drop 3 (ep_Data p)) = Inr as"
    using assms by (simp_all add: aka_message_def)
  show "marshalEAPPacket p = Inr bs" using p by (intro marshal_parse_eap) simp_all
  have len: "5 \<le> length bs" and data: "ep_Data p = drop 5 bs"
    using p(1,2) by (auto simp: parseEAPPacket_def rbind_Inr_iff idx_Inr_iff eap_constants split: if_splits)
  show "bs = take 5 bs @ ep_Data p" "length (take 5 bs) = 5" using len by (simp_all add: data)
  obtain raws where "as = layout 0 raws" "drop 3 (ep_Data p) = concat raws" "list_all attribute_raw raws" "length raws \<le> 64"
    using parse_Inr_layout [OF p(4)] by metis
  moreover have "drop 3 (ep_Data p) = drop 8 bs" by (simp add: data)
  ultimately have "bs = take 8 bs @ concat raws" by (metis append_take_drop_id)
  moreover have "length (take 8 bs) = 8" using p(3) len by (simp add: data)
  ultimately show "\<exists>raws. as = layout 0 raws \<and> bs = take 8 bs @ concat raws \<and> length (take 8 bs) = 8
       \<and> list_all attribute_raw raws \<and> length raws \<le> 64"
    using \<open>as = layout 0 raws\<close> \<open>list_all attribute_raw raws\<close> \<open>length raws \<le> 64\<close> by blast
qed

text \<open>An attribute stands in the packet where its offset says.\<close>

lemma attribute_place:
  assumes "aka_message bs p as" "a \<in> set as"
  obtains us vs where "bs = us @ aa_Raw a @ vs" "length us = 8 + aa_Offset a" "aa_Type a = aa_Raw a ! 0"
proof -
  obtain raws where r: "as = layout 0 raws" "bs = take 8 bs @ concat raws" "length (take 8 bs) = 8"
    using aka_message_bytes(4) [OF assms(1)] by blast
  obtain us vs where "raws = us @ aa_Raw a # vs" "aa_Offset a = length (concat us)" "aa_Type a = aa_Raw a ! 0"
    using layout_member [of a 0 raws] assms(2) r(1) by auto
  then show ?thesis
    using r by (intro that [of "take 8 bs @ concat us" "concat vs"]) auto
qed

text \<open>
  A packet of AKA attributes is read back: parsing gives the packet that was marshalled and
  re-marshalling it the same octets, the attribute list has the types and values that were
  encoded, in order, and every attribute stands in the packet at the offset recorded for it, which
  is where the code looks for the message authentication code.
\<close>

theorem aka_packet_roundtrip:
  assumes "list_all2 (\<lambda>(k, v) raw. marshalAKAAttribute k v = Inr raw) kvs raws"
    and "length kvs \<le> 64" "code \<in> {1, 2}"
    and "marshalEAPPacket \<lparr>ep_Code = code, ep_Identifier = n, ep_Type = 23,
           ep_Data = [subtype, 0, 0] @ concat raws\<rparr> = Inr bs"
  shows "\<exists>p as. parseEAPPacket bs = Inr p \<and> ep_Code p = code \<and> ep_Identifier p = n
    \<and> marshalEAPPacket p = Inr bs
    \<and> parseAKAAttributes (drop 3 (ep_Data p)) = Inr as
    \<and> list_all2 (\<lambda>(k, v) a. aa_Type a = k \<and> take (length v) (drop 2 (aa_Raw a)) = v
         \<and> take (length (aa_Raw a)) (drop (8 + aa_Offset a) bs) = aa_Raw a) kvs as"
proof -
  let ?p = "\<lparr>ep_Code = code, ep_Identifier = n, ep_Type = 23, ep_Data = [subtype, 0, 0] @ concat raws\<rparr>"
  have raws: "list_all attribute_raw raws"
    using assms(1) by (induction rule: list_all2_induct) (auto dest: marshal_attribute_raw(1))
  have p: "parseEAPPacket bs = Inr ?p"
    using assms(3) by (intro parse_marshal_eap [OF assms(4)]) (auto simp: eap_wellformed_def)
  have as: "parseAKAAttributes (concat raws) = Inr (layout 0 raws)"
    using raws assms(2) list_all2_lengthD [OF assms(1)] by (intro parse_layout) simp_all
  have msg: "aka_message bs ?p (layout 0 raws)" using p as by (simp add: aka_message_def)
  have "list_all2 (\<lambda>(k, v) a. aa_Type a = k \<and> take (length v) (drop 2 (aa_Raw a)) = v) kvs (layout m raws)" for m
    using assms(1) by (induction arbitrary: m rule: list_all2_induct) (auto dest: marshal_attribute_raw(2,3))
  moreover have "take (length (aa_Raw a)) (drop (8 + aa_Offset a) bs) = aa_Raw a" if a: "a \<in> set (layout 0 raws)" for a
    using attribute_place [OF msg a] by (metis append_eq_conv_conj)
  ultimately have "list_all2 (\<lambda>(k, v) a. aa_Type a = k \<and> take (length v) (drop 2 (aa_Raw a)) = v
      \<and> take (length (aa_Raw a)) (drop (8 + aa_Offset a) bs) = aa_Raw a) kvs (layout 0 raws)"
    by - (rule list.rel_mono_strong [where x = kvs and y = "layout 0 raws"], assumption, auto)
  then show ?thesis using p assms(4) as by (intro exI [of _ ?p] exI [of _ "layout 0 raws"]) simp
qed

theorem aka_packet_roundtrip_witness:
  "\<exists>p as. parseEAPPacket [1, 7, 0, 12, 23, 5, 0, 0, 13, 1, 0, 0] = Inr p
     \<and> parseAKAAttributes (drop 3 (ep_Data p)) = Inr as \<and> map aa_Type as = [13]"
proof -
  have "\<exists>p as. parseEAPPacket [1, 7, 0, 12, 23, 5, 0, 0, 13, 1, 0, 0] = Inr p \<and> ep_Code p = 1 \<and> ep_Identifier p = 7
    \<and> marshalEAPPacket p = Inr [1, 7, 0, 12, 23, 5, 0, 0, 13, 1, 0, 0]
    \<and> parseAKAAttributes (drop 3 (ep_Data p)) = Inr as
    \<and> list_all2 (\<lambda>(k, v) a. aa_Type a = k \<and> take (length v) (drop 2 (aa_Raw a)) = v
         \<and> take (length (aa_Raw a)) (drop (8 + aa_Offset a) [1, 7, 0, 12, 23, 5, 0, 0, 13, 1, 0, 0]) = aa_Raw a)
        [(13, [0, 0])] as"
    by (rule aka_packet_roundtrip [where raws = "[[13, 1, 0, 0]]" and subtype = 5])
      (simp_all add: marshalAKAAttribute_def Let_def marshalEAPPacket_def eap_constants put_be16_def)
  then show ?thesis by (auto simp: list_all2_Cons1)
qed

end
