(* ===== verification/Eap_Runs.thy ===== *)
theory Eap_Runs
  imports Eap_Data
begin

text \<open>
  What the EAP-AKA client guarantees: its handlers are total, EAP success is reported only after a
  challenge whose message authentication code was verified under keys the SIM gave, and the
  response to a challenge verifies under the rule the client applies to the responder.
\<close>

subsection \<open>Message authentication\<close>

text \<open>
  The code a packet must carry: HMAC over the packet with the value of AT_MAC, the 16 octets after
  its four octets of header, replaced by zeros.
\<close>

definition authentic :: "crypto \<Rightarrow> byte list \<Rightarrow> byte list \<Rightarrow> akaAttribute \<Rightarrow> bool" where
  "authentic c key bs m \<longleftrightarrow>
     (let at = 12 + aa_Offset m in
      take 16 (drop at bs) = take 16 (hmac_sha1 c key (take at bs @ replicate 16 0 @ drop (at + 16) bs)))"

lemma mac_valid_authentic:
  assumes "crypto_ok c" "aka_message bs p as" "m \<in> set as" "length (aa_Raw m) = 20"
  shows "mac_valid c key bs m = Inr (authentic c key bs m)" "8 + aa_Offset m + 20 \<le> length bs"
proof -
  obtain us vs where bs: "bs = us @ aa_Raw m @ vs" and len: "length us = 8 + aa_Offset m"
    using attribute_place [OF assms(2,3)] by metis
  then show room: "8 + aa_Offset m + 20 \<le> length bs" using assms(4) by simp
  have raw: "take 16 (drop (12 + aa_Offset m) bs) = drop 4 (aa_Raw m)"
    using len assms(4) by (simp add: bs)
  have "zero_range bs (8 + aa_Offset m + 4) (8 + aa_Offset m + 20)
      = (Inr (take (12 + aa_Offset m) bs @ replicate 16 0 @ drop (12 + aa_Offset m + 16) bs) :: (eap_err, byte list) res)"
    using room by (simp add: zero_range_def overwrite_def Let_def add.commute [of _ "16::nat"])
  then show "mac_valid c key bs m = Inr (authentic c key bs m)"
    using assms(4) crypto_lengths(1) [OF assms(1)] raw
    by (auto simp: mac_valid_def authentic_def Let_def akaMAC_def)
qed

text \<open>A response ends in a blank AT_MAC, over which the code is written.\<close>

abbreviation blank_attribute :: "byte list" where
  "blank_attribute \<equiv> [11, 5] @ replicate 18 0"

lemma blank_attribute: "marshalAKAAttribute akaAttrMAC blank_mac = Inr blank_attribute"
  by (simp add: marshalAKAAttribute_def Let_def akaAttrMAC_def)

lemma filter_layout:
  "filter (\<lambda>a. aa_Type a = k) (layout n raws) = [] \<longleftrightarrow> (\<forall>raw \<in> set raws. raw ! 0 \<noteq> k)"
  by (induction raws arbitrary: n) auto

lemma one_last:
  assumes "\<forall>raw \<in> set raws. raw ! 0 \<noteq> k" "x ! 0 = k"
  shows "oneAKAAttribute (layout 0 (raws @ [x])) k
    = Inr \<lparr>aa_Type = k, aa_Raw = x, aa_Offset = length (concat raws)\<rparr>"
  using assms filter_layout [of k 0 raws] by (simp add: oneAKAAttribute_def layout_append)

lemma response_bytes:
  assumes "length data \<le> 65530"
  shows "response n 23 data = Inr ([2, n] @ put_be16 (of_nat (5 + length data)) @ 23 # data)"
  using assms by (simp add: response_def marshalEAPPacket_def eap_constants)

lemma parse_response:
  assumes "length data \<le> 65530"
  shows "parseEAPPacket ([2, n] @ put_be16 (of_nat (5 + length data)) @ 23 # data)
    = Inr \<lparr>ep_Code = 2, ep_Identifier = n, ep_Type = 23, ep_Data = data\<rparr>"
  using response_bytes [OF assms] unfolding response_def
  by (intro parse_marshal_eap) (simp_all add: eap_wellformed_def eap_constants)

lemma splice_tail:
  assumes "length pre = n" "length mac = 16"
  shows "take 16 (drop n (pre @ mac)) = mac" "take n (pre @ mac) @ zs @ drop (n + 16) (pre @ mac) = pre @ zs"
  using assms by auto

lemma sign_response_verifies:
  assumes "crypto_ok c" "list_all attribute_raw raws" "length raws \<le> 63" "\<forall>raw \<in> set raws. raw ! 0 \<noteq> 11"
    and "length (concat raws) \<le> 65000"
    and "data = [s, 0, 0] @ concat raws @ blank_attribute" "response n 23 data = Inr bytes"
  shows "\<exists>signed mac as m. sign_response c key data bytes = Inr signed \<and> length mac = 16
    \<and> aka_message signed \<lparr>ep_Code = 2, ep_Identifier = n, ep_Type = 23,
        ep_Data = [s, 0, 0] @ concat raws @ [11, 5, 0, 0] @ mac\<rparr> as
    \<and> as = layout 0 (raws @ [[11, 5, 0, 0] @ mac])
    \<and> oneAKAAttribute as 11 = Inr m \<and> authentic c key signed m"
proof -
  let ?head = "[2, n] @ put_be16 (of_nat (5 + length data)) @ [23, s, 0, 0]"
  define mac where "mac = take 16 (hmac_sha1 c key bytes)"
  let ?sdata = "[s, 0, 0] @ concat raws @ [11, 5, 0, 0] @ mac"
  let ?signed = "?head @ concat raws @ [11, 5, 0, 0] @ mac"
  let ?m = "\<lparr>aa_Type = 11, aa_Raw = [11, 5, 0, 0] @ mac, aa_Offset = length (concat raws)\<rparr>"
  let ?as = "layout 0 (raws @ [[11, 5, 0, 0] @ mac])"
  have mac: "length mac = 16" using crypto_lengths(1) [OF assms(1)] by (simp add: mac_def)
  have len: "length data \<le> 65530" "length ?sdata = length data" using assms(5,6) mac by simp_all
  have bytes: "bytes = ?head @ concat raws @ blank_attribute"
    using response_bytes [OF len(1), of n] assms(6,7) by simp
  have "parseAKAAttributes (concat (raws @ [blank_attribute])) = Inr (layout 0 (raws @ [blank_attribute]))"
    using assms(2,3) by (intro parse_layout) (simp_all add: attribute_raw_def)
  then have "parseAKAAttributes (concat raws @ blank_attribute) = Inr (layout 0 (raws @ [blank_attribute]))"
    by simp
  moreover have "slice data 3 (length data) = (Inr (concat raws @ blank_attribute) :: (eap_err, byte list) res)"
    by (simp add: assms(6))
  moreover have "oneAKAAttribute (layout 0 (raws @ [blank_attribute])) akaAttrMAC
      = Inr \<lparr>aa_Type = 11, aa_Raw = blank_attribute, aa_Offset = length (concat raws)\<rparr>"
    unfolding akaAttrMAC_def using assms(4) by (intro one_last) simp_all
  moreover have "overwrite bytes (12 + length (concat raws)) (28 + length (concat raws)) mac
      = (Inr ?signed :: (eap_err, byte list) res)"
    using mac by (simp add: overwrite_def Let_def bytes numeral_nat)
  ultimately have sign: "sign_response c key data bytes = Inr ?signed"
    using crypto_lengths(1) [OF assms(1)]
    by (simp add: sign_response_def akaMAC_def Let_def mac_def [symmetric] add.commute [of _ "length (concat raws)"])
  have "parseEAPPacket ?signed = Inr \<lparr>ep_Code = 2, ep_Identifier = n, ep_Type = 23, ep_Data = ?sdata\<rparr>"
    using parse_response [of ?sdata n] len(1) unfolding len(2) by (simp only: append.simps append_assoc)
  moreover have "parseAKAAttributes (concat (raws @ [[11, 5, 0, 0] @ mac])) = Inr ?as"
    using assms(2,3) mac by (intro parse_layout) (simp_all add: attribute_raw_def)
  ultimately have msg: "aka_message ?signed \<lparr>ep_Code = 2, ep_Identifier = n, ep_Type = 23, ep_Data = ?sdata\<rparr> ?as"
    by (simp add: aka_message_def)
  have one: "oneAKAAttribute ?as 11 = Inr ?m"
    using assms(4) by (intro one_last) simp_all
  have pre: "length (?head @ concat raws @ [11, 5, 0, 0]) = 12 + length (concat raws)" by simp
  have signed: "?signed = (?head @ concat raws @ [11, 5, 0, 0]) @ mac" by simp
  have "bytes = (?head @ concat raws @ [11, 5, 0, 0]) @ replicate 16 0" by (simp add: bytes numeral_nat)
  then have "take 16 (drop (12 + length (concat raws)) ?signed) = mac"
    "take (12 + length (concat raws)) ?signed @ replicate 16 0 @ drop (12 + length (concat raws) + 16) ?signed = bytes"
    unfolding signed using splice_tail [OF pre mac] by simp_all
  then have "authentic c key ?signed ?m"
    by (simp only: authentic_def Let_def akaAttribute.simps mac_def [symmetric])
  then show ?thesis using sign mac msg one by blast
qed

subsection \<open>The answer to a challenge\<close>

abbreviation indications :: "akaAttribute list \<Rightarrow> byte list list" where
  "indications as \<equiv> map aa_Raw (filter (\<lambda>a. aa_Type a = 135) as)"

lemma result_indications:
  "result_indications as d ind =
     (if \<forall>a \<in> set as. aa_Type a = 135 \<longrightarrow> length (aa_Raw a) = 4
      then Inr (d @ concat (indications as), ind \<or> indications as \<noteq> []) else Inl (Fail ErrResultInd))"
  by (induction as d ind rule: result_indications.induct) (auto simp: akaAttrResultInd_def filter_empty_conv)

lemma one_filter: "oneAKAAttribute as k = Inr a \<Longrightarrow> filter (\<lambda>x. aa_Type x = k) as = [a]"
  by (auto simp: oneAKAAttribute_def Let_def length_Suc_conv split: if_splits)

lemma one_member: "oneAKAAttribute as k = Inr a \<Longrightarrow> a \<in> set as \<and> aa_Type a = k"
proof -
  assume "oneAKAAttribute as k = Inr a"
  then have "set (filter (\<lambda>x. aa_Type x = k) as) = {a}" by (simp add: one_filter)
  then show ?thesis by auto
qed

lemma three_kinds:
  "length (filter (\<lambda>a. aa_Type a = 135) as) + length (filter (\<lambda>a. aa_Type a = 1) as)
     + length (filter (\<lambda>a. aa_Type a = 11) as) \<le> length as"
  by (induction as) auto

lemma indication_raws:
  assumes "aka_message bs p as"
  shows "list_all attribute_raw (indications as)" "\<forall>raw \<in> set (indications as). raw ! 0 = 135"
    "length as \<le> 64"
proof -
  obtain raws where raws: "as = layout 0 raws" "list_all attribute_raw raws" "length raws \<le> 64"
    using aka_message_bytes(4) [OF assms] by blast
  have "attribute_raw (aa_Raw a) \<and> aa_Raw a ! 0 = aa_Type a" if "a \<in> set as" for a
    using layout_member [of a 0 raws] that raws(1,2) by (auto simp: list_all_iff)
  then show "list_all attribute_raw (indications as)" "\<forall>raw \<in> set (indications as). raw ! 0 = 135"
    by (auto simp: list_all_iff)
  show "length as \<le> 64" using raws by simp
qed

lemma attribute_raw_length: "attribute_raw raw \<Longrightarrow> length raw \<le> 1020"
  using unat_byte [of "raw ! 1"] unfolding attribute_raw_def by linarith

lemma concat_raws_length: "list_all attribute_raw raws \<Longrightarrow> length (concat raws) \<le> 1020 * length raws"
  using attribute_raw_length by (induction raws) fastforce+

lemma filter_raws:
  "\<forall>raw \<in> set raws. raw ! 0 = k \<Longrightarrow> filter (\<lambda>a. aa_Type a = k) (layout n raws) = layout n raws"
  by (induction raws arbitrary: n) simp_all

text \<open>
  What the answer to a challenge holds: the identifier of the request, RES with its length in bits,
  the result indications of the request and a code that verifies under the new authentication key.
\<close>

definition answers_challenge :: "crypto \<Rightarrow> akaKeys \<Rightarrow> byte list \<Rightarrow> byte \<Rightarrow> byte list list \<Rightarrow> byte list \<Rightarrow> bool" where
  "answers_challenge c keys res n inds bs \<longleftrightarrow>
     (\<exists>p as r m. aka_message bs p as \<and> ep_Code p = 2 \<and> ep_Identifier p = n \<and> ep_Data p ! 0 = 1
        \<and> oneAKAAttribute as 3 = Inr r
        \<and> take (2 + length res) (drop 2 (aa_Raw r)) = put_be16 (of_nat (length res * 8)) @ res
        \<and> indications as = inds
        \<and> oneAKAAttribute as 11 = Inr m \<and> authentic c (KAut keys) bs m)"

lemma res_attribute:
  assumes "length res \<le> 16"
  shows "\<exists>raw. marshalAKAAttribute akaAttrRES (put_be16 (of_nat (length res * 8)) @ res) = Inr raw"
proof -
  have "(2 + length (put_be16 (of_nat (length res * 8)) @ res) + 3) div 4 \<le> 255" using assms by simp
  then show ?thesis by (simp add: marshalAKAAttribute_def Let_def)
qed

lemma accept_ok:
  assumes c: "crypto_ok c" and msg: "aka_message bs p as"
    and rand: "oneAKAAttribute as akaAttrRAND = Inr ra" and mac: "oneAKAAttribute as akaAttrMAC = Inr m" "length (aa_Raw m) = 20"
    and res: "4 \<le> length (RES result)" "length (RES result) \<le> 16"
    and keys: "deriveAKAKeys c (ac_identity client) (IK result) (CK result) = Inr keys"
    and auth: "authentic c (KAut keys) bs m"
    and inds: "\<forall>a \<in> set as. aa_Type a = 135 \<longrightarrow> length (aa_Raw a) = 4"
  shows "\<exists>signed. accept_challenge c client n as m p result
      = Inr (reply signed, client\<lparr>ac_keys := keys, challengeComplete := True, resultIndication := indications as \<noteq> []\<rparr>)
    \<and> answers_challenge c keys (RES result) n (indications as) signed"
proof -
  obtain resraw where resraw: "marshalAKAAttribute akaAttrRES (put_be16 (of_nat (length (RES result) * 8)) @ RES result) = Inr resraw"
    using res_attribute [OF res(2)] by metis
  note rr = marshal_attribute_raw [OF resraw]
  let ?us = "resraw # indications as"
  let ?data = "[1, 0, 0] @ concat ?us @ blank_attribute"
  have member: "m \<in> set as" using one_member [OF mac(1)] by simp
  note valid = mac_valid_authentic [OF c msg member mac(2)]
  have "length (indications as) + 1 + 1 \<le> length as"
    using three_kinds [of as] one_filter [OF rand] one_filter [OF mac(1)] by (simp add: akaAttrRAND_def akaAttrMAC_def)
  then have few: "length ?us \<le> 63" using indication_raws(3) [OF msg] by simp
  have us: "list_all attribute_raw ?us" using rr(1) indication_raws(1) [OF msg] by simp
  have notmac: "\<forall>raw \<in> set ?us. raw ! 0 \<noteq> 11"
    using rr(2) indication_raws(2) [OF msg] by (auto simp: akaAttrRES_def)
  have room: "length (concat ?us) \<le> 65000" using concat_raws_length [OF us] few by linarith
  then have resp: "response n 23 ?data = Inr ([2, n] @ put_be16 (of_nat (5 + length ?data)) @ 23 # ?data)"
    by (intro response_bytes) simp
  obtain signed code as' m' where signed: "sign_response c (KAut keys) ?data
      ([2, n] @ put_be16 (of_nat (5 + length ?data)) @ 23 # ?data) = Inr signed" "length code = 16"
    and msg': "aka_message signed \<lparr>ep_Code = 2, ep_Identifier = n, ep_Type = 23,
        ep_Data = [1, 0, 0] @ concat ?us @ [11, 5, 0, 0] @ code\<rparr> as'"
    and as': "as' = layout 0 (?us @ [[11, 5, 0, 0] @ code])"
    and m': "oneAKAAttribute as' 11 = Inr m'" "authentic c (KAut keys) signed m'"
    using sign_response_verifies [OF c us few notmac room refl resp] by metis
  have accepted: "accept_challenge c client n as m p result
      = Inr (reply signed, client\<lparr>ac_keys := keys, challengeComplete := True, resultIndication := indications as \<noteq> []\<rparr>)"
    using res keys auth inds aka_message_bytes(1) [OF msg] valid resraw resp signed(1)
    by (simp add: accept_challenge_def result_indications blank_attribute Let_def eapTypeAKA_def akaSubtypeChallenge_def del: replicate.simps)
  have "oneAKAAttribute as' 3 = Inr \<lparr>aa_Type = 3, aa_Raw = resraw, aa_Offset = 0\<rparr>"
    using rr(2) indication_raws(2) [OF msg] filter_layout [of 3 "length resraw" "indications as"]
    by (simp add: as' oneAKAAttribute_def layout_append akaAttrRES_def)
  moreover have "indications as' = indications as"
    using rr(2) filter_raws [of "indications as" 135 "length resraw"] indication_raws(2) [OF msg]
    by (simp add: as' layout_append akaAttrRES_def)
  moreover have "take (2 + length (RES result)) (drop 2 resraw) = put_be16 (of_nat (length (RES result) * 8)) @ RES result"
    using rr(3) by simp
  ultimately have "answers_challenge c keys (RES result) n (indications as) signed"
    unfolding answers_challenge_def using msg' m'
    by (intro exI [of _ "\<lparr>ep_Code = 2, ep_Identifier = n, ep_Type = 23,
        ep_Data = [1, 0, 0] @ concat ?us @ [11, 5, 0, 0] @ code\<rparr>"] exI [of _ as']
        exI [of _ "\<lparr>aa_Type = 3, aa_Raw = resraw, aa_Offset = 0\<rparr>"] exI [of _ m'] conjI) simp_all
  with accepted show ?thesis by blast
qed

lemma accept_else:
  assumes c: "crypto_ok c" and msg: "aka_message bs p as"
    and mac: "oneAKAAttribute as akaAttrMAC = Inr m" "length (aa_Raw m) = 20"
    and no: "\<not> (4 \<le> length (RES result) \<and> length (RES result) \<le> 16
        \<and> (\<exists>keys. deriveAKAKeys c (ac_identity client) (IK result) (CK result) = Inr keys \<and> authentic c (KAut keys) bs m)
        \<and> (\<forall>a \<in> set as. aa_Type a = 135 \<longrightarrow> length (aa_Raw a) = 4))"
  shows "\<exists>e. accept_challenge c client n as m p result = Inl (Fail e)"
proof (cases "4 \<le> length (RES result) \<and> length (RES result) \<le> 16")
  case True
  obtain resraw where resraw: "marshalAKAAttribute akaAttrRES (put_be16 (of_nat (length (RES result) * 8)) @ RES result) = Inr resraw"
    using res_attribute True by blast
  have member: "m \<in> set as" using one_member [OF mac(1)] by simp
  note valid = mac_valid_authentic [OF c msg member mac(2)] aka_message_bytes(1) [OF msg]
  show ?thesis
  proof (cases "deriveAKAKeys c (ac_identity client) (IK result) (CK result)")
    case (Inl e)
    moreover obtain e' where "e = Fail e'"
      using safe_derive [OF c, of "ac_identity client" "IK result" "CK result"] Inl by (auto simp: safe_Inl_iff)
    ultimately show ?thesis using True by (simp add: accept_challenge_def)
  next
    case (Inr keys)
    then show ?thesis
      using True no valid resraw
      by (auto simp add: accept_challenge_def result_indications blank_attribute Let_def simp del: replicate.simps)
  qed
qed (auto simp: accept_challenge_def)

subsection \<open>The outcomes of a packet\<close>

text \<open>A challenge whose code verifies under the keys derived from the answer of the SIM to it.\<close>

definition verified_challenge ::
  "crypto \<Rightarrow> byte list \<Rightarrow> (byte list \<Rightarrow> byte list \<Rightarrow> sim_answer) \<Rightarrow> byte list \<Rightarrow> akaKeys \<Rightarrow> akaResult \<Rightarrow> bool" where
  "verified_challenge c identity authenticate bs keys result \<longleftrightarrow>
     (\<exists>p as ra au m. aka_message bs p as \<and> ep_Code p = 1 \<and> ep_Data p ! 0 = 1
        \<and> oneAKAAttribute as 1 = Inr ra \<and> length (aa_Raw ra) = 20
        \<and> oneAKAAttribute as 2 = Inr au \<and> length (aa_Raw au) = 20
        \<and> oneAKAAttribute as 11 = Inr m \<and> length (aa_Raw m) = 20
        \<and> authenticate (drop 4 (aa_Raw ra)) (drop 4 (aa_Raw au)) = SimResult result
        \<and> \<not> SynchronizationFailure result
        \<and> deriveAKAKeys c identity (IK result) (CK result) = Inr keys
        \<and> authentic c (KAut keys) bs m)"

text \<open>The notification of success (code 32768) whose code verifies under the given keys.\<close>

definition verified_notification :: "crypto \<Rightarrow> akaKeys \<Rightarrow> byte list \<Rightarrow> bool" where
  "verified_notification c keys bs \<longleftrightarrow>
     (\<exists>p as nt m. aka_message bs p as \<and> ep_Code p = 1 \<and> ep_Data p ! 0 = 12
        \<and> oneAKAAttribute as 12 = Inr nt \<and> drop 2 (aa_Raw nt) = [128, 0]
        \<and> oneAKAAttribute as 11 = Inr m \<and> length (aa_Raw m) = 20 \<and> authentic c (KAut keys) bs m)"

text \<open>A result that is no success: an error or a response.\<close>

definition no_success :: "(eap_err, eapAction) res \<Rightarrow> bool" where
  "no_success r \<longleftrightarrow> safe r \<and> (\<forall>a. r = Inr a \<longrightarrow> \<not> act_Success a)"

lemma no_success_simps [simp]:
  "no_success (Inl (Fail e))" "no_success (Inr (reply bs))"
  by (simp_all add: no_success_def reply_def)

lemma no_success_rbind [intro]:
  "safe m \<Longrightarrow> (\<And>x. m = Inr x \<Longrightarrow> no_success (f x)) \<Longrightarrow> no_success (rbind m f)"
  by (cases m) (auto simp: no_success_def safe_Inl_iff)

lemma safe_response [simp]: "safe (response n k data)"
  by (simp add: response_def)

lemma safe_marshal_attribute [simp]: "safe (marshalAKAAttribute k v)"
  by (simp add: marshalAKAAttribute_def Let_def)

lemma safe_one [simp]: "safe (oneAKAAttribute as k)"
  by (simp add: oneAKAAttribute_def Let_def)

lemma no_success_error [simp]: "no_success (akaClientErrorResponse n)" "no_success (akaAuthenticationRejectResponse n)"
  unfolding akaClientErrorResponse_def akaAuthenticationRejectResponse_def
  by (intro no_success_rbind; simp)+

text \<open>The answer to a notification with a code is signed; it never fails.\<close>

lemma signed_notification:
  assumes "crypto_ok c"
  shows "\<exists>bytes signed. response n 23 ([12, 0, 0] @ blank_attribute) = Inr bytes
    \<and> sign_response c key ([12, 0, 0] @ blank_attribute) bytes = Inr signed"
proof -
  let ?data = "[12, 0, 0] @ concat [] @ blank_attribute"
  have resp: "response n 23 ?data = Inr ([2, n] @ put_be16 (of_nat (5 + length ?data)) @ 23 # ?data)"
    by (intro response_bytes) simp
  have "\<exists>signed. sign_response c key ?data ([2, n] @ put_be16 (of_nat (5 + length ?data)) @ 23 # ?data) = Inr signed"
    using sign_response_verifies [OF assms _ _ _ _ refl resp, of key] by fastforce
  with resp show ?thesis by (simp only: concat.simps append_Nil) blast
qed

lemma plain_notification_outcome:
  assumes c: "crypto_ok c" and msg: "aka_message bs p as"
  shows "no_success (plain_notification c client n as p code)"
proof -
  obtain bytes signed where signed: "response n 23 ([12, 0, 0] @ blank_attribute) = Inr bytes"
      "sign_response c (KAut (ac_keys client)) ([12, 0, 0] @ blank_attribute) bytes = Inr signed"
    using signed_notification [OF c] by blast
  have "no_success (plain_notification c client n as p code)"
    if "oneAKAAttribute as akaAttrMAC = Inr m" for m
  proof (cases "length (aa_Raw m) = 20")
    case True
    have "m \<in> set as" using one_member [OF that] by simp
    note valid = mac_valid_authentic [OF c msg this True] aka_message_bytes(1) [OF msg]
    show ?thesis
      using that True valid signed
      by (auto simp: plain_notification_def blank_attribute Let_def eapTypeAKA_def akaSubtypeNotification_def
          simp del: replicate.simps append.simps)
  qed (use that in \<open>auto simp: plain_notification_def\<close>)
  then show ?thesis
    by (cases "oneAKAAttribute as akaAttrMAC") (auto simp: plain_notification_def)
qed

lemma success_notification_outcome:
  assumes c: "crypto_ok c" and msg: "aka_message bs p as"
  shows "(\<exists>e. success_notification c client n as p = Inl (Fail e))
    \<or> (challengeComplete client \<and> resultIndication client
       \<and> (\<exists>m. oneAKAAttribute as 11 = Inr m \<and> length (aa_Raw m) = 20 \<and> authentic c (KAut (ac_keys client)) bs m)
       \<and> (\<exists>signed. success_notification c client n as p = Inr (reply signed, client\<lparr>protectedSuccess := True\<rparr>)))"
proof -
  obtain bytes signed where signed: "response n 23 ([12, 0, 0] @ blank_attribute) = Inr bytes"
      "sign_response c (KAut (ac_keys client)) ([12, 0, 0] @ blank_attribute) bytes = Inr signed"
    using signed_notification [OF c] by blast
  show ?thesis
  proof (cases "oneAKAAttribute as akaAttrMAC")
    case (Inl e)
    then obtain e' where "e = Fail e'" using safe_one [of as akaAttrMAC] by (auto simp: safe_Inl_iff)
    with Inl show ?thesis by (auto simp: success_notification_def)
  next
    case (Inr m)
    show ?thesis
    proof (cases "length (aa_Raw m) = 20")
      case True
      have "m \<in> set as" using one_member [OF Inr] by simp
      note valid = mac_valid_authentic [OF c msg this True] aka_message_bytes(1) [OF msg]
      show ?thesis
        using Inr True valid signed
        by (auto simp: success_notification_def blank_attribute [unfolded akaAttrMAC_def] Let_def eapTypeAKA_def akaSubtypeNotification_def
            akaAttrMAC_def simp del: replicate.simps append.simps)
    qed (use Inr in \<open>auto simp: success_notification_def\<close>)
  qed
qed

lemma challenge_parts_Inr:
  "challenge_parts as = Inr (ra, au, m) \<longleftrightarrow>
     (\<forall>a \<in> set as. aa_Type a \<in> {1, 2, 11, 135} \<or> 128 \<le> aa_Type a)
     \<and> oneAKAAttribute as 1 = Inr ra \<and> oneAKAAttribute as 2 = Inr au \<and> oneAKAAttribute as 11 = Inr m
     \<and> length (aa_Raw ra) = 20 \<and> length (aa_Raw au) = 20 \<and> length (aa_Raw m) = 20"
proof -
  have "challenge_attributes as = Inr () \<longleftrightarrow> (\<forall>a \<in> set as. aa_Type a \<in> {1, 2, 11, 135} \<or> 128 \<le> aa_Type a)"
    by (induction as) (auto simp: akaAttrRAND_def akaAttrAUTN_def akaAttrMAC_def akaAttrResultInd_def not_less)
  then show ?thesis
    by (auto simp: challenge_parts_def rbind_Inr_iff akaAttrRAND_def akaAttrAUTN_def akaAttrMAC_def)
qed

lemma safe_challenge_parts [simp]: "safe (challenge_parts as)"
proof -
  have "safe (challenge_attributes as)" by (induction as) simp_all
  then show ?thesis by (simp add: challenge_parts_def)
qed

lemma challenge_outcome:
  assumes c: "crypto_ok c" and msg: "aka_message bs p as" and request: "ep_Code p = 1" "ep_Data p ! 0 = 1"
  shows "(\<exists>e. respondAKAChallenge c authenticate client n as p = Inl (Fail e))
    \<or> (\<exists>r. respondAKAChallenge c authenticate client n as p = Inr (reply r, client))
    \<or> (\<exists>keys result signed. verified_challenge c (ac_identity client) authenticate bs keys result
        \<and> respondAKAChallenge c authenticate client n as p
            = Inr (reply signed, client\<lparr>ac_keys := keys, challengeComplete := True,
                                        resultIndication := indications as \<noteq> []\<rparr>)
        \<and> answers_challenge c keys (RES result) n (indications as) signed)"
proof (cases "challenge_parts as")
  case (Inl e)
  then obtain e' where "e = Fail e'" using safe_challenge_parts [of as] by (auto simp: safe_Inl_iff)
  with Inl show ?thesis by (simp add: respondAKAChallenge_def)
next
  case (Inr parts)
  obtain ra au m where parts: "parts = (ra, au, m)" by (cases parts)
  note p = challenge_parts_Inr [THEN iffD1, OF Inr [unfolded parts]]
  have run: "respondAKAChallenge c authenticate client n as p =
      (case authenticate (drop 4 (aa_Raw ra)) (drop 4 (aa_Raw au)) of
         SimMACFailure \<Rightarrow> rbind (akaAuthenticationRejectResponse n) (\<lambda>a. Inr (a, client))
       | SimError \<Rightarrow> Inl (Fail ErrAKAProvider)
       | SimResult result \<Rightarrow>
           if SynchronizationFailure result then
             (if length (AUTS result) \<noteq> 14 then Inl (Fail ErrAUTS)
              else rbind (marshalAKAAttribute akaAttrAUTS (AUTS result)) (\<lambda>autsAttribute.
                   rbind (response n eapTypeAKA ([akaSubtypeSyncFailure, 0, 0] @ autsAttribute)) (\<lambda>r.
                     Inr (reply r, client))))
           else accept_challenge c client n as m p result)"
    using p by (simp add: respondAKAChallenge_def Inr parts)
  show ?thesis
  proof (cases "authenticate (drop 4 (aa_Raw ra)) (drop 4 (aa_Raw au))")
    case SimMACFailure
    then show ?thesis
      by (simp add: run akaAuthenticationRejectResponse_def response_def marshalEAPPacket_def eap_constants) blast
  next
    case SimError
    then show ?thesis by (simp add: run)
  next
    case (SimResult result)
    show ?thesis
    proof (cases "SynchronizationFailure result")
      case True
      then show ?thesis
        using SimResult by (auto simp: run marshalAKAAttribute_def response_def marshalEAPPacket_def eap_constants Let_def)
    next
      case False
      with SimResult have run': "respondAKAChallenge c authenticate client n as p = accept_challenge c client n as m p result"
        by (simp add: run)
      have one: "oneAKAAttribute as akaAttrRAND = Inr ra" "oneAKAAttribute as akaAttrMAC = Inr m" "length (aa_Raw m) = 20"
        using p by (simp_all add: akaAttrRAND_def akaAttrMAC_def)
      show ?thesis
      proof (cases "\<exists>e. accept_challenge c client n as m p result = Inl (Fail e)")
        case True
        then show ?thesis by (simp add: run')
      next
        case ok: False
        obtain keys where k: "4 \<le> length (RES result)" "length (RES result) \<le> 16"
            "deriveAKAKeys c (ac_identity client) (IK result) (CK result) = Inr keys" "authentic c (KAut keys) bs m"
            "\<forall>a \<in> set as. aa_Type a = 135 \<longrightarrow> length (aa_Raw a) = 4"
          using accept_else [OF c msg one(2,3), of result client n] ok by blast
        have "verified_challenge c (ac_identity client) authenticate bs keys result"
          unfolding verified_challenge_def
          using msg request p SimResult False k(3,4) by blast
        then show ?thesis using accept_ok [OF c msg one k, of n] by (auto simp: run')
      qed
    qed
  qed
qed

text \<open>One packet: it is refused or answered, or is a success; or it is a verified challenge or notification.\<close>

definition success_admitted :: "akaClient \<Rightarrow> bool" where
  "success_admitted client \<longleftrightarrow> challengeComplete client \<and> (resultIndication client \<longrightarrow> protectedSuccess client)"

definition outcome ::
  "crypto \<Rightarrow> (byte list \<Rightarrow> byte list \<Rightarrow> sim_answer) \<Rightarrow> akaClient \<Rightarrow> byte list \<Rightarrow> (eap_err, eapAction) res \<times> akaClient \<Rightarrow> bool" where
  "outcome c authenticate client bs = (\<lambda>(r, client').
     no_success r \<and> (\<exists>stage. client' = client\<lparr>lastResponseStage := stage\<rparr>)
     \<or> r = Inr \<lparr>act_Response = [], act_Success = True\<rparr> \<and> client' = client \<and> success_admitted client
     \<or> (\<exists>keys result ind signed. verified_challenge c (ac_identity client) authenticate bs keys result
         \<and> r = Inr (reply signed)
         \<and> client' = client\<lparr>ac_keys := keys, challengeComplete := True, resultIndication := ind\<rparr>)
     \<or> (\<exists>signed. verified_notification c (ac_keys client) bs \<and> challengeComplete client \<and> resultIndication client
         \<and> r = Inr (reply signed) \<and> client' = client\<lparr>protectedSuccess := True\<rparr>))"

lemma stage_same [simp]: "\<exists>stage. client = client\<lparr>lastResponseStage := stage\<rparr>"
  by (rule exI [of _ "lastResponseStage client"]) simp

lemma outcome_plain:
  "no_success r \<Longrightarrow> outcome c authenticate client bs (r, client)"
  "no_success r \<Longrightarrow> outcome c authenticate client bs (r, client\<lparr>lastResponseStage := stage\<rparr>)"
  by (auto simp: outcome_def)

lemma identity_outcome:
  "safe (fst (respondAKAIdentity client n as))"
  "fst (respondAKAIdentity client n as) = Inr a \<Longrightarrow> \<not> act_Success a"
  "\<exists>stage. snd (respondAKAIdentity client n as) = client\<lparr>lastResponseStage := stage\<rparr>"
proof -
  have safe: "safe (identity_requests as k)" for k by (induction as arbitrary: k) simp_all
  let ?m = "rbind (identity_requests as 0) (\<lambda>requests.
             if requests \<noteq> 1 then Inl (Fail ErrIdentityRequest)
             else marshalAKAAttribute akaAttrIdentity
                    (put_be16 (of_nat (length (ac_identity client))) @ ac_identity client))"
  have "safe ?m" using safe by simp
  then show "safe (fst (respondAKAIdentity client n as))"
    by (auto simp: respondAKAIdentity_def safe_Inl_iff split: sum.splits)
  show "fst (respondAKAIdentity client n as) = Inr a \<Longrightarrow> \<not> act_Success a"
    by (auto simp: respondAKAIdentity_def reply_def rbind_Inr_iff split: sum.splits)
  show "\<exists>stage. snd (respondAKAIdentity client n as) = client\<lparr>lastResponseStage := stage\<rparr>"
    by (auto simp: respondAKAIdentity_def split: sum.splits)
qed

lemma notification_outcome:
  assumes c: "crypto_ok c" and msg: "aka_message bs p as" and request: "ep_Code p = 1" "ep_Data p ! 0 = 12"
  shows "outcome c authenticate client bs (keeping client (respondAKANotification c client (ep_Identifier p) as p))"
proof (cases "oneAKAAttribute as akaAttrNotification")
  case (Inl e)
  then obtain e' where "e = Fail e'" using safe_one [of as akaAttrNotification] by (auto simp: safe_Inl_iff)
  with Inl show ?thesis by (simp add: respondAKANotification_def keeping_def outcome_plain)
next
  case (Inr nt)
  show ?thesis
  proof (cases "length (aa_Raw nt) = 4")
    case False
    with Inr show ?thesis by (simp add: respondAKANotification_def keeping_def outcome_plain)
  next
    case len: True
    let ?code = "be16 (aa_Raw nt ! 2) (aa_Raw nt ! 3)"
    have notification: "respondAKANotification c client (ep_Identifier p) as p =
        (if ?code \<noteq> 32768 then rbind (plain_notification c client (ep_Identifier p) as p ?code) (\<lambda>a. Inr (a, client))
         else success_notification c client (ep_Identifier p) as p)"
      using Inr len by (simp add: respondAKANotification_def)
    show ?thesis
    proof (cases "?code = 32768")
      case False
      then show ?thesis
        using plain_notification_outcome [OF c msg, of client "ep_Identifier p" "?code"]
        by (cases "plain_notification c client (ep_Identifier p) as p ?code")
          (simp_all add: notification keeping_def outcome_plain)
    next
      case True
      have "drop 2 (aa_Raw nt) = put_be16 ?code"
        using len by (simp add: numeral_nat length_Suc_conv) auto
      then have code: "drop 2 (aa_Raw nt) = [128, 0]" using True by (simp add: put_be16_def)
      consider e where "success_notification c client (ep_Identifier p) as p = Inl (Fail e)"
        | signed m where "challengeComplete client" "resultIndication client" "oneAKAAttribute as 11 = Inr m"
          "length (aa_Raw m) = 20" "authentic c (KAut (ac_keys client)) bs m"
          "success_notification c client (ep_Identifier p) as p = Inr (reply signed, client\<lparr>protectedSuccess := True\<rparr>)"
        using success_notification_outcome [OF c msg, of client "ep_Identifier p"] by blast
      then show ?thesis
      proof cases
        case (1 e)
        then show ?thesis using True by (simp add: notification keeping_def outcome_plain)
      next
        case (2 signed m)
        have "verified_notification c (ac_keys client) bs"
          unfolding verified_notification_def
          using msg request Inr [unfolded akaAttrNotification_def] code 2 by blast
        then show ?thesis using True 2 by (simp add: notification keeping_def outcome_def) blast
      qed
    qed
  qed
qed

lemma request_outcome:
  assumes c: "crypto_ok c" and p: "parseEAPPacket bs = Inr p" "ep_Code p = 1" "ep_Type p = 23"
  shows "outcome c authenticate client bs (handleAKARequest c authenticate client p)"
proof (cases "3 \<le> length (ep_Data p) \<and> ep_Data p ! 1 = 0 \<and> ep_Data p ! 2 = 0
    \<and> (\<exists>as. parseAKAAttributes (drop 3 (ep_Data p)) = Inr as)")
  case False
  then have "handleAKARequest c authenticate client p = (akaClientErrorResponse (ep_Identifier p), client)"
    by (auto simp: handleAKARequest_def Let_def split: sum.splits)
  then show ?thesis by (simp add: outcome_plain)
next
  case True
  then obtain as where as: "parseAKAAttributes (drop 3 (ep_Data p)) = Inr as" by blast
  with True p have msg: "aka_message bs p as" by (simp add: aka_message_def)
  let ?n = "ep_Identifier p"
  let ?handled = "handleAKARequest c authenticate client p"
  consider "ep_Data p ! 0 = 5" | "ep_Data p ! 0 = 1" | "ep_Data p ! 0 = 12" | "ep_Data p ! 0 \<notin> {5, 1, 12}" by blast
  then show ?thesis
  proof cases
    case 1
    then have "?handled = (case respondAKAIdentity client ?n as of
        (Inl _, client') \<Rightarrow> (akaClientErrorResponse ?n, client') | (Inr a, client') \<Rightarrow> (Inr a, client'))"
      using True as by (simp add: handleAKARequest_def Let_def akaSubtypeIdentity_def)
    moreover obtain r stage where resp: "respondAKAIdentity client ?n as = (r, client\<lparr>lastResponseStage := stage\<rparr>)"
      using identity_outcome(3) [of client ?n as] by (cases "respondAKAIdentity client ?n as") auto
    moreover have "no_success r"
      using identity_outcome(1,2) [of client ?n as] resp by (simp add: no_success_def)
    ultimately show ?thesis by (cases r) (simp_all add: outcome_plain)
  next
    case 2
    then have run: "?handled = (case respondAKAChallenge c authenticate client ?n as p of
        Inl (Fail ErrAKAProvider) \<Rightarrow> (Inl (Fail ErrAKAProvider), client)
      | Inl (Fail _) \<Rightarrow> (akaClientErrorResponse ?n, client)
      | r \<Rightarrow> keeping client r)"
      using True as by (simp add: handleAKARequest_def Let_def akaSubtypeIdentity_def akaSubtypeChallenge_def)
    consider e where "respondAKAChallenge c authenticate client ?n as p = Inl (Fail e)"
      | r where "respondAKAChallenge c authenticate client ?n as p = Inr (reply r, client)"
      | keys result signed where "verified_challenge c (ac_identity client) authenticate bs keys result"
        "respondAKAChallenge c authenticate client ?n as p = Inr (reply signed,
          client\<lparr>ac_keys := keys, challengeComplete := True, resultIndication := indications as \<noteq> []\<rparr>)"
      using challenge_outcome [OF c msg p(2) 2, of authenticate client ?n] by blast
    then show ?thesis
    proof cases
      case (1 e)
      then show ?thesis by (cases "e = ErrAKAProvider") (auto simp: run outcome_plain split: eap_err.splits)
    next
      case (2 r)
      then show ?thesis by (simp add: run keeping_def outcome_plain)
    next
      case (3 keys result signed)
      then show ?thesis unfolding outcome_def run keeping_def by auto
    qed
  next
    case 3
    then have run: "?handled = keeping client (respondAKANotification c client ?n as p)"
      using True as by (simp add: handleAKARequest_def Let_def akaSubtypeIdentity_def akaSubtypeChallenge_def
          akaSubtypeNotification_def)
    then show ?thesis using notification_outcome [OF c msg p(2) 3] by simp
  next
    case 4
    then have "?handled = (akaClientErrorResponse ?n, client)"
      using True as by (simp add: handleAKARequest_def Let_def akaSubtypeIdentity_def akaSubtypeChallenge_def
          akaSubtypeNotification_def)
    then show ?thesis by (simp add: outcome_plain)
  qed
qed

lemma handle_outcome:
  assumes "crypto_ok c"
  shows "outcome c authenticate client bs (handle c authenticate client bs)"
proof (cases "parseEAPPacket bs")
  case (Inl e)
  then obtain e' where "e = Fail e'" using safe_parse_eap [of bs] by (auto simp: safe_Inl_iff)
  with Inl show ?thesis by (simp add: handle_def outcome_plain)
next
  case (Inr p)
  have "no_success (rbind (response (ep_Identifier p) eapTypeIdentity (ac_identity client)) (\<lambda>r. Inr (reply r)))"
    by (intro no_success_rbind) simp_all
  moreover have "outcome c authenticate client bs (handleAKARequest c authenticate client p)"
    if "ep_Code p = eapRequest" "ep_Type p = eapTypeAKA"
    using request_outcome [OF assms Inr] that by (simp add: eapRequest_def eapTypeAKA_def)
  moreover have "outcome c authenticate client bs (Inr \<lparr>act_Response = [], act_Success = True\<rparr>, client)"
    if "success_admitted client"
    using that by (simp add: outcome_def)
  ultimately show ?thesis
    by (auto simp: handle_def Inr outcome_plain success_admitted_def)
qed

text \<open>
  No packet and no answer of the SIM makes the client panic or hang, and a packet that ends in
  an error changes neither the keys nor the progress of the authentication: only the wording of a
  later rejection may change.
\<close>

theorem aka_refusal_harmless:
  assumes "crypto_ok c" "handle c authenticate client bs = (r, client')"
  shows "case r of
      Inr a \<Rightarrow> True
    | Inl e \<Rightarrow> e \<noteq> Panic \<and> e \<noteq> Hang
        \<and> (\<exists>stage. client' = client\<lparr>lastResponseStage := stage\<rparr>)"
  using handle_outcome [OF assms(1), of authenticate client bs] assms(2)
  by (auto simp: outcome_def no_success_def split: sum.splits)

theorem aka_refusal_harmless_witness:
  "isl (fst (handle plain_crypto (\<lambda>_ _. SimError) (newAKAClient [48]) [4, 0, 0, 4]))
   \<and> ac_keys (snd (handle plain_crypto (\<lambda>_ _. SimError) (newAKAClient [48]) [4, 0, 0, 4])) = ac_keys (newAKAClient [48])"
proof -
  obtain e where r: "handle plain_crypto (\<lambda>_ _. SimError) (newAKAClient [48]) [4, 0, 0, 4] = (Inl e, newAKAClient [48])"
    by (simp add: handle_def parseEAPPacket_def be16_def eap_constants)
  show ?thesis using aka_refusal_harmless [OF plain_crypto_ok r] by (auto simp: r)
qed

subsection \<open>The answer verifies\<close>

lemma challenge_response:
  assumes "crypto_ok c" "verified_challenge c (ac_identity client) authenticate bs keys result"
    and "4 \<le> length (RES result)" "length (RES result) \<le> 16"
    and "aka_message bs p as" "\<forall>a \<in> set as. aa_Type a \<in> {1, 2, 11} \<or> aa_Type a = 135 \<and> length (aa_Raw a) = 4"
  shows "\<exists>signed. handle c authenticate client bs
      = (Inr \<lparr>act_Response = signed, act_Success = False\<rparr>,
         client\<lparr>ac_keys := keys, challengeComplete := True, resultIndication := indications as \<noteq> []\<rparr>)
    \<and> answers_challenge c keys (RES result) (ep_Identifier p) (indications as) signed"
proof -
  obtain p' as' ra au m where v: "aka_message bs p' as'" "ep_Code p' = 1" "ep_Data p' ! 0 = 1"
      "oneAKAAttribute as' 1 = Inr ra" "length (aa_Raw ra) = 20"
      "oneAKAAttribute as' 2 = Inr au" "length (aa_Raw au) = 20"
      "oneAKAAttribute as' 11 = Inr m" "length (aa_Raw m) = 20"
      "authenticate (drop 4 (aa_Raw ra)) (drop 4 (aa_Raw au)) = SimResult result"
      "\<not> SynchronizationFailure result"
      "deriveAKAKeys c (ac_identity client) (IK result) (CK result) = Inr keys"
      "authentic c (KAut keys) bs m"
    using assms(2) unfolding verified_challenge_def by blast
  have same: "p' = p" "as' = as" using v(1) assms(5) by (auto simp: aka_message_def)
  have parts: "challenge_parts as = Inr (ra, au, m)"
    using v assms(6) unfolding same challenge_parts_Inr by auto
  have inds: "\<forall>a \<in> set as. aa_Type a = 135 \<longrightarrow> length (aa_Raw a) = 4" using assms(6) by auto
  note one = v(4,8) [unfolded same]
  obtain signed where ok: "accept_challenge c client (ep_Identifier p) as m p result
      = Inr (reply signed, client\<lparr>ac_keys := keys, challengeComplete := True, resultIndication := indications as \<noteq> []\<rparr>)"
    and ans: "answers_challenge c keys (RES result) (ep_Identifier p) (indications as) signed"
    using accept_ok [OF assms(1,5) one(1) [folded akaAttrRAND_def] one(2) [folded akaAttrMAC_def] v(9) assms(3,4) v(12,13) inds]
    by blast
  have chal: "respondAKAChallenge c authenticate client (ep_Identifier p) as p
      = Inr (reply signed, client\<lparr>ac_keys := keys, challengeComplete := True, resultIndication := indications as \<noteq> []\<rparr>)"
    using parts v(5,7,10,11) ok by (simp add: respondAKAChallenge_def)
  have "handle c authenticate client bs = handleAKARequest c authenticate client p"
    using assms(5) v(2) by (simp add: handle_def aka_message_def same eap_constants)
  also have "\<dots> = (Inr (reply signed),
      client\<lparr>ac_keys := keys, challengeComplete := True, resultIndication := indications as \<noteq> []\<rparr>)"
    using assms(5) v(3) chal
    by (simp add: handleAKARequest_def aka_message_def same Let_def akaSubtypeIdentity_def akaSubtypeChallenge_def keeping_def)
  finally show ?thesis using ans by (auto simp: reply_def)
qed


subsection \<open>Runs of the client\<close>

text \<open>An event is the SIM during a call, the packet and the result; runs begin with a new client.\<close>

type_synonym aka_event = "(byte list \<Rightarrow> byte list \<Rightarrow> sim_answer) \<times> byte list \<times> (eap_err, eapAction) res"

inductive aka_run :: "crypto \<Rightarrow> byte list \<Rightarrow> aka_event list \<Rightarrow> akaClient \<Rightarrow> bool" for c nai where
  start: "aka_run c nai [] (newAKAClient nai)"
| packet: "aka_run c nai evs client \<Longrightarrow> handle c authenticate client bs = (r, client')
    \<Longrightarrow> aka_run c nai (evs @ [(authenticate, bs, r)]) client'"

text \<open>The client answered a verified challenge, a verified notification.\<close>

definition challenge_answered :: "crypto \<Rightarrow> byte list \<Rightarrow> akaKeys \<Rightarrow> aka_event \<Rightarrow> bool" where
  "challenge_answered c nai keys = (\<lambda>(authenticate, bs, r).
     (\<exists>signed. r = Inr (reply signed)) \<and> (\<exists>result. verified_challenge c nai authenticate bs keys result))"

definition notification_answered :: "crypto \<Rightarrow> akaKeys \<Rightarrow> aka_event \<Rightarrow> bool" where
  "notification_answered c keys = (\<lambda>(authenticate, bs, r).
     (\<exists>signed. r = Inr (reply signed)) \<and> verified_notification c keys bs)"

text \<open>A verified success notification after a verified challenge, under the keys of that challenge.\<close>

definition success_confirmed :: "crypto \<Rightarrow> byte list \<Rightarrow> aka_event list \<Rightarrow> bool" where
  "success_confirmed c nai evs \<longleftrightarrow>
     (\<exists>before ev later ev0 keys. evs = before @ ev # later \<and> ev0 \<in> set before
        \<and> challenge_answered c nai keys ev0 \<and> notification_answered c keys ev)"

lemma success_confirmed_append: "success_confirmed c nai evs \<Longrightarrow> success_confirmed c nai (evs @ xs)"
  unfolding success_confirmed_def by (metis append_assoc append_Cons)

lemma success_confirmed_last:
  "ev0 \<in> set evs \<Longrightarrow> challenge_answered c nai keys ev0 \<Longrightarrow> notification_answered c keys ev
     \<Longrightarrow> success_confirmed c nai (evs @ [ev])"
  unfolding success_confirmed_def by blast

definition aka_run_holds :: "crypto \<Rightarrow> byte list \<Rightarrow> aka_event list \<Rightarrow> akaClient \<Rightarrow> bool" where
  "aka_run_holds c nai evs client \<longleftrightarrow> ac_identity client = nai
     \<and> (challengeComplete client \<longrightarrow> (\<exists>ev \<in> set evs. challenge_answered c nai (ac_keys client) ev))
     \<and> (protectedSuccess client \<longrightarrow> success_confirmed c nai evs)"

lemma aka_run_packet:
  assumes "aka_run_holds c nai evs client" "outcome c authenticate client bs (r, client')"
  shows "aka_run_holds c nai (evs @ [(authenticate, bs, r)]) client'"
proof -
  let ?new = "(authenticate, bs, r)"
  have id: "ac_identity client = nai"
    and chal: "challengeComplete client \<Longrightarrow> \<exists>ev \<in> set evs. challenge_answered c nai (ac_keys client) ev"
    and old: "protectedSuccess client \<Longrightarrow> success_confirmed c nai (evs @ [?new])"
    using assms(1) success_confirmed_append [of c nai evs] by (auto simp: aka_run_holds_def)
  consider stage where "client' = client\<lparr>lastResponseStage := stage\<rparr>" | "client' = client"
    | keys result ind signed where "verified_challenge c nai authenticate bs keys result" "r = Inr (reply signed)"
      "client' = client\<lparr>ac_keys := keys, challengeComplete := True, resultIndication := ind\<rparr>"
    | signed where "verified_notification c (ac_keys client) bs" "challengeComplete client"
      "r = Inr (reply signed)" "client' = client\<lparr>protectedSuccess := True\<rparr>"
    using assms(2) by (auto simp: outcome_def id)
  then show ?thesis
  proof cases
    case (3 keys result ind signed)
    then have "challenge_answered c nai keys ?new" by (auto simp: challenge_answered_def)
    then show ?thesis using 3 id old by (simp add: aka_run_holds_def)
  next
    case (4 signed)
    then obtain ev0 where "ev0 \<in> set evs" "challenge_answered c nai (ac_keys client) ev0" using chal by blast
    moreover have "notification_answered c (ac_keys client) ?new" using 4 by (auto simp: notification_answered_def)
    ultimately have "success_confirmed c nai (evs @ [?new])" by (rule success_confirmed_last)
    then show ?thesis using 4 id chal by (auto simp: aka_run_holds_def)
  qed (use id chal old in \<open>auto simp: aka_run_holds_def\<close>)
qed

lemma aka_run_holds:
  assumes "crypto_ok c" "aka_run c nai evs client"
  shows "aka_run_holds c nai evs client"
  using assms(2)
proof induction
  case start
  then show ?case by (simp add: aka_run_holds_def newAKAClient_def)
next
  case (packet evs client authenticate bs r client')
  then show ?case using handle_outcome [OF assms(1)] by (metis aka_run_packet)
qed

text \<open>
  C18: the client reports success only after authentication.  In every run from a new client, a
  success means that an earlier packet was a challenge whose code verified under keys derived
  from the identity and from the IK and CK the SIM gave for the RAND and AUTN of that packet; the
  client's keys, whose MSK authenticates IKE, are these keys; and if the accepted challenge asked
  for result indications, a verified success notification has arrived after a verified challenge.
\<close>

theorem aka_success_authenticated:
  assumes "crypto_ok c" "aka_run c nai evs client"
    and "handle c authenticate client bs = (Inr a, client')" "act_Success a"
  shows "client' = client
    \<and> (\<exists>ev \<in> set evs. challenge_answered c nai (ac_keys client) ev)
    \<and> (resultIndication client \<longrightarrow> success_confirmed c nai evs)"
proof -
  have "outcome c authenticate client bs (Inr a, client')" using handle_outcome [OF assms(1)] assms(3) by metis
  then have ok: "client' = client" "success_admitted client"
    using assms(4) by (auto simp: outcome_def no_success_def reply_def)
  with aka_run_holds [OF assms(1,2)] show ?thesis by (auto simp: aka_run_holds_def success_admitted_def)
qed

text \<open>
  Nothing takes the protected success back: once a success notification was verified, a later
  challenge that asks for result indications again is followed by an EAP success without a new
  notification, and the client accepts it.
\<close>

lemma protected_success_kept:
  assumes "crypto_ok c" "protectedSuccess client" "handle c authenticate client bs = (r, client')"
    and "challengeComplete client'"
  shows "handle c authenticate' client' [3, n, 0, 4] = (Inr \<lparr>act_Response = [], act_Success = True\<rparr>, client')"
proof -
  have "protectedSuccess client'"
    using handle_outcome [OF assms(1), of authenticate client bs] assms(2,3) by (auto simp: outcome_def)
  then show ?thesis using assms(4) by (simp add: handle_def parseEAPPacket_def be16_def eap_constants)
qed

subsection \<open>A concrete exchange\<close>

text \<open>
  Under the plain functions of the witnesses the code of a packet that ends in a blank AT_MAC is
  zero, so a challenge whose last attribute is an AT_MAC of zeros verifies under every key.
\<close>

definition sample_raws :: "byte list list" where
  "sample_raws = [[1, 5, 0, 0] @ replicate 16 1, [2, 5, 0, 0] @ replicate 16 2, [11, 5, 0, 0] @ replicate 16 0]"

definition sample_challenge :: "byte list" where
  "sample_challenge = [1, 7, 0, 68, 23, 1, 0, 0] @ concat sample_raws"

definition sample_request :: eapPacket where
  "sample_request = \<lparr>ep_Code = 1, ep_Identifier = 7, ep_Type = 23, ep_Data = [1, 0, 0] @ concat sample_raws\<rparr>"

definition sample_sim :: "byte list \<Rightarrow> byte list \<Rightarrow> sim_answer" where
  "sample_sim rand autn = SimResult \<lparr>SynchronizationFailure = False, AUTS = [], RES = [1, 2, 3, 4],
     IK = replicate 16 3, CK = replicate 16 4\<rparr>"

abbreviation sample_result :: akaResult where
  "sample_result \<equiv> \<lparr>SynchronizationFailure = False, AUTS = [], RES = [1, 2, 3, 4], IK = replicate 16 3, CK = replicate 16 4\<rparr>"

abbreviation sample_nai :: "byte list" where
  "sample_nai \<equiv> [48, 64]"

lemma sample_message: "aka_message sample_challenge sample_request (layout 0 sample_raws)"
proof -
  have "parseAKAAttributes (concat sample_raws) = Inr (layout 0 sample_raws)"
    by (rule parse_layout) (simp_all add: sample_raws_def attribute_raw_def)
  moreover have "parseEAPPacket sample_challenge = Inr sample_request"
    by (simp add: sample_challenge_def sample_request_def sample_raws_def parseEAPPacket_def be16_def eap_constants)
  ultimately show ?thesis by (simp add: aka_message_def sample_request_def)
qed

lemma sample_authentic:
  "authentic plain_crypto key sample_challenge \<lparr>aa_Type = 11, aa_Raw = [11, 5, 0, 0] @ replicate 16 0, aa_Offset = 40\<rparr>"
  by (simp add: authentic_def sample_challenge_def sample_raws_def plain_crypto_def pad_to_def numeral_nat)

lemma sample_verified:
  "\<exists>keys. verified_challenge plain_crypto sample_nai sample_sim sample_challenge keys sample_result"
proof -
  obtain keys where "deriveAKAKeys plain_crypto sample_nai (replicate 16 3) (replicate 16 4) = Inr keys"
    using derive_ok [OF plain_crypto_ok, of sample_nai "replicate 16 3" "replicate 16 4"] by (simp add: Let_def)
  moreover have "oneAKAAttribute (layout 0 sample_raws) 1 = Inr \<lparr>aa_Type = 1, aa_Raw = [1, 5, 0, 0] @ replicate 16 1, aa_Offset = 0\<rparr>"
    "oneAKAAttribute (layout 0 sample_raws) 2 = Inr \<lparr>aa_Type = 2, aa_Raw = [2, 5, 0, 0] @ replicate 16 2, aa_Offset = 20\<rparr>"
    "oneAKAAttribute (layout 0 sample_raws) 11 = Inr \<lparr>aa_Type = 11, aa_Raw = [11, 5, 0, 0] @ replicate 16 0, aa_Offset = 40\<rparr>"
    by (simp_all add: oneAKAAttribute_def sample_raws_def)
  ultimately have "verified_challenge plain_crypto sample_nai sample_sim sample_challenge keys sample_result"
    unfolding verified_challenge_def
    using sample_message sample_authentic [of "KAut keys"]
    by (intro exI [of _ sample_request] exI [of _ "layout 0 sample_raws"] exI conjI)
      (assumption | simp add: sample_request_def sample_sim_def)+
  then show ?thesis by blast
qed


lemma aka_sample_exchange:
  "\<exists>keys signed. handle plain_crypto sample_sim (newAKAClient sample_nai) sample_challenge
     = (Inr (reply signed), (newAKAClient sample_nai)\<lparr>ac_keys := keys, challengeComplete := True, resultIndication := False\<rparr>)"
proof -
  obtain keys where v: "verified_challenge plain_crypto sample_nai sample_sim sample_challenge keys sample_result"
    using sample_verified by blast
  have ind: "indications (layout 0 sample_raws) = []" by (simp add: sample_raws_def)
  have "\<exists>signed. handle plain_crypto sample_sim (newAKAClient sample_nai) sample_challenge
      = (Inr \<lparr>act_Response = signed, act_Success = False\<rparr>, (newAKAClient sample_nai)\<lparr>ac_keys := keys,
           challengeComplete := True, resultIndication := indications (layout 0 sample_raws) \<noteq> []\<rparr>)
    \<and> answers_challenge plain_crypto keys (RES sample_result) (ep_Identifier sample_request)
        (indications (layout 0 sample_raws)) signed"
    using v sample_message
    by (intro challenge_response plain_crypto_ok) (simp_all add: newAKAClient_def sample_raws_def)
  then show ?thesis unfolding ind by (fastforce simp: reply_def)
qed

theorem aka_success_authenticated_witness:
  "\<exists>client ev evs. aka_run plain_crypto sample_nai evs client
     \<and> handle plain_crypto sample_sim client [3, 8, 0, 4] = (Inr \<lparr>act_Response = [], act_Success = True\<rparr>, client)
     \<and> ev \<in> set evs \<and> challenge_answered plain_crypto sample_nai (ac_keys client) ev"
proof -
  obtain keys signed where step: "handle plain_crypto sample_sim (newAKAClient sample_nai) sample_challenge
     = (Inr (reply signed), (newAKAClient sample_nai)\<lparr>ac_keys := keys, challengeComplete := True, resultIndication := False\<rparr>)"
    using aka_sample_exchange by blast
  let ?client = "(newAKAClient sample_nai)\<lparr>ac_keys := keys, challengeComplete := True, resultIndication := False\<rparr>"
  have run: "aka_run plain_crypto sample_nai ([] @ [(sample_sim, sample_challenge, Inr (reply signed))]) ?client"
    by (rule aka_run.packet [OF aka_run.start step])
  have success: "handle plain_crypto sample_sim ?client [3, 8, 0, 4] = (Inr \<lparr>act_Response = [], act_Success = True\<rparr>, ?client)"
    by (simp add: handle_def parseEAPPacket_def be16_def eap_constants)
  obtain ev where ev: "ev \<in> set ([] @ [(sample_sim, sample_challenge, Inr (reply signed))])"
      "challenge_answered plain_crypto sample_nai (ac_keys ?client) ev"
    using aka_success_authenticated [OF plain_crypto_ok run success] by auto
  show ?thesis by (intro exI conjI) (rule run success ev)+
qed

end
