(* ===== verification/Esim_Der.thy ===== *)
theory Esim_Der
  imports Go_Text
begin

text \<open>
  BER-TLV elements as the eSIM code of \<open>internal/device\<close> encodes (\<open>esim_der.go\<close>) and decodes
  (\<open>esim.go\<close>) them.  A tag is Go's \<open>int\<close>, a 64-bit word holding the octets of the identifier; a
  long-form tag longer than eight octets wraps in it.
\<close>

datatype esim_err =
    ErrDer | ErrRange | ErrTruncatedTag | ErrDerLength | ErrOverrun
  | ErrBCDEmpty | ErrBCDLong | ErrBCDDigit | ErrNoPackage | ErrNoInstallResult | ErrNoInstallData
  | ErrNoFinalResult | ErrInstall int int | ErrFinalResult
  | ErrSequenceNumber | ErrNoAddress | ErrNoMetadata | ErrListResponse | ErrListResult "byte list"
  | ErrRetrieveResponse | ErrRetrieveMalformed | ErrRetrieve "byte list"
  | ErrRemoveResponse | ErrRemove byte | ErrAIDLength | ErrNickname | ErrNicknameLong
  | ErrTransport | ErrStatus nat

type_synonym tag = "64 word"

subsection \<open>Encoding\<close>

text \<open>The loop over the shifts 24, 16, 8, 0 drops the leading zero octets.\<close>

definition derEncodeTag :: "tag \<Rightarrow> byte list" where
  "derEncodeTag t =
     (if t <s 0x100 then [ucast t]
      else dropWhile (\<lambda>b. b = 0) [ucast (drop_bit 24 t), ucast (drop_bit 16 t), ucast (drop_bit 8 t), ucast t])"

definition derEncodeLength :: "nat \<Rightarrow> byte list" where
  "derEncodeLength len =
     (if len < 0x80 then [of_nat len]
      else if len < 0x100 then [0x81, of_nat len]
      else if len < 0x10000 then [0x82, of_nat (len div 256), of_nat len]
      else [0x83, of_nat (len div 65536), of_nat (len div 256), of_nat len])"

definition derEncode :: "tag \<Rightarrow> byte list \<Rightarrow> byte list" where
  "derEncode t v = derEncodeTag t @ derEncodeLength (length v) @ v"

definition derConstruct :: "tag \<Rightarrow> byte list list \<Rightarrow> byte list" where
  "derConstruct t children = derEncode t (concat children)"

subsection \<open>Headers\<close>

text \<open>The octets of a long-form tag after the first; the last has bit 8 clear.\<close>

function long_tag :: "byte list \<Rightarrow> nat \<Rightarrow> tag \<Rightarrow> (esim_err, tag \<times> nat) res" where
  "long_tag buf index t =
     (if index < length buf then
        rbind (idx buf index) (\<lambda>b.
          let t = push_bit 8 t OR ucast b in
          if b AND 0x80 = 0 then Inr (t, index + 1) else long_tag buf (index + 1) t)
      else Inr (t, index))"
  by pat_completeness auto
termination by (relation "measure (\<lambda>(buf, index, t). length buf - index)") auto

declare long_tag.simps [simp del]

definition der_tag :: "byte list \<Rightarrow> nat \<Rightarrow> (esim_err, tag \<times> nat) res" where
  "der_tag buf start =
     rbind (idx buf start) (\<lambda>first.
       if first AND 0x1F = 0x1F then long_tag buf (start + 1) (ucast first) else Inr (ucast first, start + 1))"

fun length_octets :: "byte list \<Rightarrow> nat \<Rightarrow> nat \<Rightarrow> nat \<Rightarrow> (esim_err, nat \<times> nat) res" where
  "length_octets buf 0 index len = Inr (len, index)"
| "length_octets buf (Suc count) index len =
     rbind (idx buf index) (\<lambda>b. length_octets buf count (index + 1) (256 * len + unat b))"

text \<open>
  The length after a tag; at most four octets, so Go's 64-bit shifts keep every bit.  Both decoders
  of the code read tag and length alike and differ in the error they report.
\<close>

definition der_length :: "byte list \<Rightarrow> nat \<Rightarrow> (esim_err, nat \<times> nat) res" where
  "der_length buf index =
     (if \<not> index < length buf then Inl (Fail ErrTruncatedTag)
      else rbind (idx buf index) (\<lambda>lengthByte.
        if lengthByte AND 0x80 = 0 then Inr (unat lengthByte, index + 1)
        else let count = unat (lengthByte AND 0x7F) in
          if count = 0 \<or> count > 4 \<or> index + 1 + count > length buf then Inl (Fail ErrDerLength)
          else length_octets buf count (index + 1) 0))"

definition derElementAt :: "byte list \<Rightarrow> nat \<Rightarrow> (esim_err, tag \<times> nat \<times> nat) res" where
  "derElementAt buf offset =
     (if offset \<ge> length buf then Inl (Fail ErrRange)
      else rbind (der_tag buf offset) (\<lambda>(t, index).
           rbind (der_length buf index) (\<lambda>(len, index).
             let headerLen = index - offset in
             if headerLen + len > length buf - offset then Inl (Fail ErrOverrun)
             else Inr (t, headerLen, headerLen + len))))"

text \<open>The tag, whether the element is constructed, its value and the index after it.\<close>

definition derDecodeOne :: "byte list \<Rightarrow> nat \<Rightarrow> (esim_err, tag \<times> bool \<times> byte list \<times> nat) res" where
  "derDecodeOne data start =
     (if start \<ge> length data then Inl (Fail ErrDer)
      else rbind (idx data start) (\<lambda>first.
           rbind (der_tag data start) (\<lambda>(t, index).
           rbind (der_length data index) (\<lambda>(len, index).
             if index + len > length data then Inl (Fail ErrDer)
             else rbind (slice data index (index + len)) (\<lambda>v.
               Inr (t, first AND 0x20 \<noteq> 0, v, index + len))))))"

lemma long_tag_bounds: "long_tag buf index t = Inr (t', i') \<Longrightarrow> index \<le> i' \<and> i' \<le> max index (length buf)"
proof (induction buf index t rule: long_tag.induct)
  case (1 buf index t)
  show ?case
    using "1.prems" "1.IH" [OF _ _ refl]
    by (subst (asm) long_tag.simps) (fastforce simp: Let_def split: if_splits)
qed

lemma safe_long_tag: "safe (long_tag buf index t)"
  by (induction buf index t rule: long_tag.induct) (subst long_tag.simps, auto simp: Let_def)

lemma length_octets_bounds: "length_octets buf count index len = Inr (l, i) \<Longrightarrow> i = index + count"
  by (induction buf count index len rule: length_octets.induct) (auto simp: rbind_Inr_iff)

lemma safe_length_octets: "index + count \<le> length buf \<Longrightarrow> safe (length_octets buf count index len)"
  by (induction buf count index len rule: length_octets.induct) auto

lemma der_tag_bounds: "der_tag buf start = Inr (t, i) \<Longrightarrow> start < i \<and> i \<le> max (start + 1) (length buf)"
  by (auto simp: der_tag_def rbind_Inr_iff idx_Inr_iff dest: long_tag_bounds split: if_splits)

lemma der_length_bounds: "der_length buf index = Inr (len, i) \<Longrightarrow> index < i \<and> i \<le> length buf"
  by (auto simp: der_length_def rbind_Inr_iff idx_Inr_iff Let_def dest: length_octets_bounds split: if_splits)

lemma safe_der_tag: "start < length buf \<Longrightarrow> safe (der_tag buf start)"
  by (simp add: der_tag_def safe_long_tag)

lemma safe_der_length: "safe (der_length buf index)"
  by (auto simp: der_length_def Let_def not_less intro: safe_length_octets)

lemma safe_derElementAt: "safe (derElementAt buf offset)"
  by (auto simp: derElementAt_def Let_def safe_der_tag safe_der_length not_le)

lemma safe_derDecodeOne: "safe (derDecodeOne data start)"
  by (auto simp: derDecodeOne_def safe_der_tag safe_der_length not_le not_less)

lemma derElementAt_bounds:
  "derElementAt buf offset = Inr (t, h, n) \<Longrightarrow> 2 \<le> h \<and> h \<le> n \<and> offset + n \<le> length buf"
  by (auto simp: derElementAt_def rbind_Inr_iff Let_def dest!: der_tag_bounds der_length_bounds split: if_splits)

lemma derDecodeOne_bounds:
  "derDecodeOne data start = Inr (t, c, v, i) \<Longrightarrow> start + 2 + length v \<le> i \<and> i \<le> length data"
  by (auto simp: derDecodeOne_def rbind_Inr_iff slice_Inr_iff dest!: der_tag_bounds der_length_bounds split: if_splits)

subsection \<open>Trees\<close>

datatype derNode = DerNode (der_tag_of: tag) (der_value: "byte list") (der_children: "derNode list")

text \<open>\<open>derParse\<close> stops at the first element that does not decode.\<close>

function der_parse_from :: "byte list \<Rightarrow> nat \<Rightarrow> derNode list" where
  "der_parse_from data index =
     (if index < length data then
        (case derDecodeOne data index of
           Inl _ \<Rightarrow> []
         | Inr (t, constructed, v, nxt) \<Rightarrow>
             DerNode t v (if constructed then der_parse_from v 0 else []) # der_parse_from data nxt)
      else [])"
  by pat_completeness auto
termination
  by (relation "measures [\<lambda>(data, index). length data, \<lambda>(data, index). length data - index]")
    (auto dest: derDecodeOne_bounds)

declare der_parse_from.simps [simp del]

definition derParse :: "byte list \<Rightarrow> derNode list" where
  "derParse data = der_parse_from data 0"

text \<open>\<open>derValue\<close> gives nil, here \<open>None\<close>, when no node has the tag.\<close>

definition derValue :: "derNode list \<Rightarrow> tag \<Rightarrow> byte list option" where
  "derValue nodes t = map_option der_value (List.find (\<lambda>n. der_tag_of n = t) nodes)"

fun derFindAll :: "derNode list \<Rightarrow> tag \<Rightarrow> derNode list" where
  "derFindAll [] t = []"
| "derFindAll (DerNode t' v children # rest) t =
     (if t' = t then [DerNode t' v children] else []) @ derFindAll children t @ derFindAll rest t"

definition derFindValue :: "byte list \<Rightarrow> tag \<Rightarrow> byte list option" where
  "derFindValue data t =
     (case derFindAll (derParse data) t of [] \<Rightarrow> None | n # _ \<Rightarrow> Some (der_value n))"

definition firstChild :: "derNode list \<Rightarrow> tag \<Rightarrow> derNode option" where
  "firstChild nodes t = List.find (\<lambda>n. der_tag_of n = t) nodes"

text \<open>
  \<open>unwrapDER\<close>: the value of the one element in the blob, when it has the tag, else the blob.
\<close>

definition unwrapDER :: "byte list \<Rightarrow> tag \<Rightarrow> (esim_err, byte list) res" where
  "unwrapDER blob t =
     (case derElementAt blob 0 of
        Inr (got, headerLen, totalLen) \<Rightarrow>
          if got = t \<and> totalLen = length blob then slice blob headerLen (length blob) else Inr blob
      | Inl Panic \<Rightarrow> Inl Panic
      | Inl Hang \<Rightarrow> Inl Hang
      | Inl (Fail _) \<Rightarrow> Inr blob)"

subsection \<open>What is encoded decodes\<close>

abbreviation tag_step :: "tag \<Rightarrow> byte \<Rightarrow> tag" where
  "tag_step t b \<equiv> push_bit 8 t OR ucast b"

text \<open>
  The tags of BER: one octet whose low five bits are not all set, or a first octet with these bits
  set and further octets of which exactly the last has its top bit clear.
\<close>

fun tag_octets_ok :: "byte list \<Rightarrow> bool" where
  "tag_octets_ok [] = False"
| "tag_octets_ok [b] = (b AND 0x1F \<noteq> 0x1F)"
| "tag_octets_ok (b # bs) = (b AND 0x1F = 0x1F \<and> (\<forall>x \<in> set (butlast bs). x AND 0x80 \<noteq> 0) \<and> last bs AND 0x80 = 0)"

definition tag_ok :: "tag \<Rightarrow> bool" where
  "tag_ok t \<longleftrightarrow> t < 2 ^ 31 \<and> tag_octets_ok (derEncodeTag t)"

definition constructed_tag :: "tag \<Rightarrow> bool" where
  "constructed_tag t \<longleftrightarrow> hd (derEncodeTag t) AND 0x20 \<noteq> 0"

lemma foldl_leading_zeros: "foldl tag_step 0 (dropWhile (\<lambda>b. b = 0) bs) = foldl tag_step 0 bs"
  by (induction bs) simp_all

lemma four_octets:
  "t < 2 ^ 31 \<Longrightarrow> foldl tag_step 0 [ucast (drop_bit 24 t), ucast (drop_bit 16 t), ucast (drop_bit 8 t), ucast t] = (t :: tag)"
proof (rule bit_word_eqI)
  fix n
  assume "t < 2 ^ 31" "n < LENGTH(64)"
  then have "take_bit 31 (uint t) = uint t" by (simp add: take_bit_int_eq_self_iff word_less_def)
  then have high: "bit t m \<Longrightarrow> m < 31" for m
    by (metis bit_take_bit_iff bit_uint_iff bit_imp_le_length)
  show "bit (foldl tag_step 0 [ucast (drop_bit 24 t), ucast (drop_bit 16 t), ucast (drop_bit 8 t), ucast t]) n = bit t n"
    using high [of n] by (cases "n < 8"; cases "n < 16"; cases "n < 24") (auto simp: bit_simps)
qed

lemma tag_value:
  assumes "t < 2 ^ 31"
  shows "foldl tag_step 0 (derEncodeTag t) = t"
proof (cases "t <s 0x100")
  case True
  have bounds: "0 \<le> uint t" "uint t < 2 ^ 31" using assms by (simp_all add: word_less_def)
  have "- (2 ^ 63) \<le> uint t" by (rule order_trans [OF _ bounds(1)]) simp
  moreover have "uint t < 2 ^ 63" using bounds(2) by simp
  ultimately have "sint t = uint t" using signed_take_bit_int_eq_self [of 63 "uint t"] by (simp add: sint_uint)
  then have "t < 0x100" using True by (simp add: word_sless_alt word_less_def)
  then have "ucast (ucast t :: byte) = t"
    by (simp add: word_unat_eq_iff unsigned_ucast_eq unsigned_take_bit_eq take_bit_nat_eq_self word_less_nat_alt)
  then show ?thesis using True by (simp add: derEncodeTag_def)
next
  case False
  then show ?thesis
    using four_octets [OF assms] by (simp only: derEncodeTag_def if_False foldl_leading_zeros)
qed

lemma long_tag_octets:
  assumes "bs \<noteq> []" "\<forall>x \<in> set (butlast bs). x AND 0x80 \<noteq> 0" "last bs AND 0x80 = 0"
  shows "long_tag (pre @ bs @ post) (length pre) t = Inr (foldl tag_step t bs, length pre + length bs)"
  using assms
proof (induction bs arbitrary: pre t)
  case (Cons b bs)
  show ?case
  proof (cases "bs = []")
    case True
    then show ?thesis using Cons.prems by (subst long_tag.simps) (simp add: nth_append)
  next
    case False
    have "long_tag ((pre @ [b]) @ bs @ post) (length (pre @ [b])) (tag_step t b)
        = Inr (foldl tag_step (tag_step t b) bs, length (pre @ [b]) + length bs)"
      by (rule Cons.IH) (use Cons.prems False in auto)
    then show ?thesis using Cons.prems False by (subst long_tag.simps) (simp add: nth_append)
  qed
qed simp

lemma der_tag_encoded:
  assumes "tag_ok t"
  shows "der_tag (pre @ derEncodeTag t @ post) (length pre) = Inr (t, length pre + length (derEncodeTag t))"
proof -
  have t: "t < 2 ^ 31" and ok: "tag_octets_ok (derEncodeTag t)" using assms by (simp_all add: tag_ok_def)
  obtain b bs where bs: "derEncodeTag t = b # bs" using ok by (cases "derEncodeTag t") simp_all
  have v: "foldl tag_step (ucast b) bs = t" using tag_value [OF t] by (simp add: bs)
  show ?thesis
  proof (cases "bs = []")
    case True
    then show ?thesis using ok v by (simp add: bs der_tag_def nth_append)
  next
    case False
    then obtain x xs where "bs = x # xs" by (cases bs) simp_all
    then have o: "b AND 0x1F = 0x1F" "\<forall>x \<in> set (butlast bs). x AND 0x80 \<noteq> 0" "last bs AND 0x80 = 0"
      using ok by (simp_all add: bs)
    show ?thesis
      using long_tag_octets [OF False o(2,3), of "pre @ [b]" post "ucast b"] o(1) v
      by (simp add: bs der_tag_def nth_append)
  qed
qed

lemma short_length: "len < 0x80 \<Longrightarrow> (of_nat len :: byte) AND 0x80 = 0"
proof -
  assume "len < 0x80"
  then have "\<not> bit len 7" by (simp add: bit_iff_odd)
  then have "\<not> bit (of_nat len :: byte) 7" by (simp add: bit_of_nat_iff)
  then have "(of_nat len :: byte) AND 2 ^ 7 = 0" by (simp only: and_exp_eq_0_iff_not_bit not_False_eq_True)
  then show ?thesis by simp
qed

lemma length_octets_append:
  "length_octets (pre @ bs @ post) (length bs) (length pre) len
    = Inr (foldl (\<lambda>l b. 256 * l + unat b) len bs, length pre + length bs)"
proof (induction bs arbitrary: pre len)
  case (Cons b bs)
  from Cons.IH [of "pre @ [b]"] show ?case by (simp add: nth_append)
qed simp

lemma der_length_long:
  assumes "c AND 0x80 \<noteq> 0" "unat (c AND 0x7F) = length bs" "bs \<noteq> []" "length bs \<le> 4"
  shows "der_length (pre @ (c # bs) @ post) (length pre)
    = Inr (foldl (\<lambda>l b. 256 * l + unat b) 0 bs, length pre + length (c # bs))"
  using assms length_octets_append [of "pre @ [c]" bs post 0] by (simp add: der_length_def nth_append)

lemma der_length_encoded:
  assumes "len < 2 ^ 24"
  shows "der_length (pre @ derEncodeLength len @ post) (length pre) = Inr (len, length pre + length (derEncodeLength len))"
proof -
  have low: "unat (of_nat n :: byte) = n mod 256" for n by (simp add: unat_of_nat take_bit_eq_mod)
  consider "len < 0x80" | "0x80 \<le> len" "len < 0x100" | "0x100 \<le> len" "len < 0x10000" | "0x10000 \<le> len" by linarith
  then show ?thesis
  proof cases
    case 1
    then show ?thesis using short_length [OF 1] by (simp add: derEncodeLength_def der_length_def nth_append low)
  next
    case 2
    then show ?thesis
      using der_length_long [where c = "0x81" and bs = "[of_nat len]" and pre = pre and post = post] by (simp add: derEncodeLength_def low)
  next
    case 3
    then have "256 * (len div 256 mod 256) + len mod 256 = len" by simp
    then show ?thesis
      using 3 der_length_long [where c = "0x82" and bs = "[of_nat (len div 256), of_nat len]" and pre = pre and post = post]
      by (simp add: derEncodeLength_def low)
  next
    case 4
    have "len div 65536 mod 256 = len div 65536" using assms by simp
    moreover have "65536 * (len div 65536) + 256 * (len div 256 mod 256) + len mod 256 = len"
    proof -
      have "len div 65536 = len div 256 div 256" by (simp add: div_mult2_eq [symmetric])
      moreover have "256 * (len div 256 div 256) + len div 256 mod 256 = len div 256"
        "256 * (len div 256) + len mod 256 = len" by simp_all
      ultimately show ?thesis by linarith
    qed
    ultimately show ?thesis
      using 4 der_length_long [where c = "0x83" and bs = "[of_nat (len div 65536), of_nat (len div 256), of_nat len]" and pre = pre and post = post]
      by (simp add: derEncodeLength_def low)
  qed
qed

lemma derEncodeTag_ne: "tag_ok t \<Longrightarrow> derEncodeTag t \<noteq> []"
  by (auto simp: tag_ok_def)

lemma decode_encoded:
  assumes "tag_ok t" "length v < 2 ^ 24"
  shows "derElementAt (pre @ derEncode t v @ post) (length pre)
      = Inr (t, length (derEncodeTag t @ derEncodeLength (length v)), length (derEncode t v))"
    and "derDecodeOne (pre @ derEncode t v @ post) (length pre)
      = Inr (t, constructed_tag t, v, length pre + length (derEncode t v))"
proof -
  let ?buf = "pre @ derEncode t v @ post"
  have tag: "der_tag ?buf (length pre) = Inr (t, length pre + length (derEncodeTag t))"
    using der_tag_encoded [OF assms(1), of pre "derEncodeLength (length v) @ v @ post"] by (simp add: derEncode_def)
  have len: "der_length ?buf (length pre + length (derEncodeTag t))
      = Inr (length v, length pre + length (derEncodeTag t) + length (derEncodeLength (length v)))"
    using der_length_encoded [OF assms(2), of "pre @ derEncodeTag t" "v @ post"] by (simp add: derEncode_def)
  have room: "length pre < length ?buf" "?buf ! length pre = hd (derEncodeTag t)"
    using derEncodeTag_ne [OF assms(1)] by (simp_all add: derEncode_def nth_append hd_conv_nth)
  show "derElementAt ?buf (length pre)
      = Inr (t, length (derEncodeTag t @ derEncodeLength (length v)), length (derEncode t v))"
    using tag len room by (simp add: derElementAt_def derEncode_def Let_def)
  show "derDecodeOne ?buf (length pre) = Inr (t, constructed_tag t, v, length pre + length (derEncode t v))"
    using tag len room by (simp add: derDecodeOne_def derEncode_def constructed_tag_def)
qed

text \<open>The octets of a tree, and the trees that can be encoded.\<close>

definition node_bytes :: "derNode \<Rightarrow> byte list" where
  "node_bytes n = derEncode (der_tag_of n) (der_value n)"

fun nodes_ok :: "derNode list \<Rightarrow> bool" where
  "nodes_ok [] = True"
| "nodes_ok (DerNode t v children # rest) =
     (tag_ok t \<and> length v < 2 ^ 24
      \<and> (if constructed_tag t then v = concat (map node_bytes children) \<and> nodes_ok children else children = [])
      \<and> nodes_ok rest)"

lemma parse_nodes:
  "nodes_ok nodes \<Longrightarrow> der_parse_from (pre @ concat (map node_bytes nodes)) (length pre) = nodes"
proof (induction nodes arbitrary: pre rule: nodes_ok.induct)
  case 1
  then show ?case by (simp add: der_parse_from.simps)
next
  case (2 t v children rest)
  let ?bytes = "concat (map node_bytes (DerNode t v children # rest))"
  have one: "derDecodeOne (pre @ ?bytes) (length pre) = Inr (t, constructed_tag t, v, length pre + length (derEncode t v))"
    using decode_encoded(2) [of t v pre "concat (map node_bytes rest)"] "2.prems" by (simp add: node_bytes_def)
  have "der_parse_from ((pre @ derEncode t v) @ concat (map node_bytes rest)) (length (pre @ derEncode t v)) = rest"
    using "2.IH"(2) [of "pre @ derEncode t v"] "2.prems" by simp
  moreover have "(if constructed_tag t then der_parse_from v 0 else []) = children"
    using "2.IH"(1) [of "[]"] "2.prems" by (auto split: if_splits)
  moreover have "length pre < length (pre @ ?bytes)"
    using derDecodeOne_bounds [OF one] by linarith
  ultimately show ?case
    using one by (subst der_parse_from.simps) (simp add: node_bytes_def)
qed

lemma derParse_nodes: "nodes_ok nodes \<Longrightarrow> derParse (concat (map node_bytes nodes)) = nodes"
  using parse_nodes [of nodes "[]"] by (simp add: derParse_def)

end
