(* ===== verification/Esim_Profiles.thy ===== *)
theory Esim_Profiles
  imports Esim_Der
begin

text \<open>
  The eSIM requests and responses of \<open>internal/device\<close> (\<open>esim.go\<close>, \<open>esim_rename.go\<close>,
  \<open>esim_delete.go\<close>, \<open>esim_disable.go\<close>): ICCIDs in swapped BCD, the ES10c requests that name a
  profile, their result codes and the profile list.  The translator \<open>i18n.T\<close> is an argument.
\<close>

subsection \<open>ICCID\<close>

fun bcd_octets :: "gostring \<Rightarrow> (esim_err, byte list) res" where
  "bcd_octets [] = Inr []"
| "bcd_octets [lo] = (if lo < 48 \<or> lo > 57 then Inl (Fail ErrBCDDigit) else Inr [0xF0 OR (lo - 48)])"
| "bcd_octets (lo # hi # digits) =
     (if lo < 48 \<or> lo > 57 then Inl (Fail ErrBCDDigit)
      else if hi < 48 \<or> hi > 57 then Inl (Fail ErrBCDDigit)
      else rbind (bcd_octets digits) (\<lambda>rest. Inr ((push_bit 4 (hi - 48) OR (lo - 48)) # rest)))"

definition encodeFixedDigitBCD :: "gostring \<Rightarrow> nat \<Rightarrow> (esim_err, byte list) res" where
  "encodeFixedDigitBCD digits0 octets =
     (let digits = trim_space digits0 in
      if digits = [] then Inl (Fail ErrBCDEmpty)
      else if octets = 0 \<or> length digits > octets * 2 then Inl (Fail ErrBCDLong)
      else rbind (bcd_octets digits) (\<lambda>out. Inr (out @ replicate (octets - length out) 0xFF)))"

definition encodeICCID :: "gostring \<Rightarrow> (esim_err, byte list) res" where
  "encodeICCID digits = encodeFixedDigitBCD digits 10"

definition bcd_digits :: "byte \<Rightarrow> gostring" where
  "bcd_digits b =
     (let lo = b AND 0x0F; hi = drop_bit 4 b
      in (if lo \<le> 9 then [48 + lo] else []) @ (if hi \<le> 9 then [48 + hi] else []))"

definition decodeICCID :: "byte list \<Rightarrow> gostring" where
  "decodeICCID raw = concat (map bcd_digits raw)"

subsection \<open>Requests\<close>

definition refresh_flag :: "bool \<Rightarrow> byte" where
  "refresh_flag refresh = (if refresh then 0xFF else 0)"

definition buildEnableProfileRequestWithRefresh :: "gostring \<Rightarrow> bool \<Rightarrow> (esim_err, byte list) res" where
  "buildEnableProfileRequestWithRefresh iccid refresh =
     rbind (encodeICCID iccid) (\<lambda>bcd.
       let profileID = derConstruct 0xA0 [derEncode 0x5A bcd]
       in Inr (derConstruct 0xBF31 [profileID, derEncode 0x81 [refresh_flag refresh]]))"

definition buildEnableProfileRequest :: "gostring \<Rightarrow> (esim_err, byte list) res" where
  "buildEnableProfileRequest iccid = buildEnableProfileRequestWithRefresh iccid True"

definition buildEnableProfileRequestWithAID :: "byte list \<Rightarrow> bool \<Rightarrow> (esim_err, byte list) res" where
  "buildEnableProfileRequestWithAID aid refresh =
     (if length aid = 0 \<or> length aid > 16 then Inl (Fail ErrAIDLength)
      else let profileID = derConstruct 0xA0 [derEncode 0x4F aid]
           in Inr (derConstruct 0xBF31 [profileID, derEncode 0x81 [refresh_flag refresh]]))"

definition buildDisableProfileRequest :: "gostring \<Rightarrow> (esim_err, byte list) res" where
  "buildDisableProfileRequest iccid =
     rbind (encodeICCID (trim_space iccid)) (\<lambda>bcd.
       let profileID = derConstruct 0xA0 [derEncode 0x5A bcd]
       in Inr (derConstruct 0xBF32 [profileID, derEncode 0x81 [0xFF]]))"

definition buildDisableProfileRequestWithAID :: "byte list \<Rightarrow> (esim_err, byte list) res" where
  "buildDisableProfileRequestWithAID aid =
     (if length aid = 0 \<or> length aid > 16 then Inl (Fail ErrAIDLength)
      else let profileID = derConstruct 0xA0 [derEncode 0x4F aid]
           in Inr (derConstruct 0xBF32 [profileID, derEncode 0x81 [0xFF]]))"

definition buildDeleteProfileRequest :: "gostring \<Rightarrow> (esim_err, byte list) res" where
  "buildDeleteProfileRequest iccid =
     rbind (encodeICCID (trim_space iccid)) (\<lambda>bcd. Inr (derConstruct 0xBF33 [derEncode 0x5A bcd]))"

definition buildSetNicknameRequest :: "gostring \<Rightarrow> gostring \<Rightarrow> (esim_err, byte list) res" where
  "buildSetNicknameRequest iccid nickname =
     rbind (encodeICCID (trim_space iccid)) (\<lambda>bcd.
       if \<not> utf8_valid nickname then Inl (Fail ErrNickname)
       else if length (runes_of nickname) > 64 then Inl (Fail ErrNicknameLong)
       else Inr (derConstruct 0xBF29 [derEncode 0x5A bcd, derEncode 0x90 nickname]))"

subsection \<open>Results\<close>

text \<open>The result octet of a response whose only element has the given tag.\<close>

definition profile_result :: "tag \<Rightarrow> byte list \<Rightarrow> byte option" where
  "profile_result t payload =
     (case derParse payload of
        [n] \<Rightarrow>
          if der_tag_of n \<noteq> t then None
          else (case derFindValue payload 0x80 of Some [b] \<Rightarrow> Some b | _ \<Rightarrow> None)
      | _ \<Rightarrow> None)"

definition setNicknameResult :: "byte list \<Rightarrow> byte option" where
  "setNicknameResult = profile_result 0xBF29"

definition deleteProfileResult :: "byte list \<Rightarrow> byte option" where
  "deleteProfileResult = profile_result 0xBF33"

definition disableProfileResult :: "byte list \<Rightarrow> byte option" where
  "disableProfileResult = profile_result 0xBF32"

definition enableProfileResult :: "byte list \<Rightarrow> byte option" where
  "enableProfileResult payload =
     (case List.find (\<lambda>n. der_value n \<noteq> []) (derFindAll (derParse payload) 0x80) of
        Some n \<Rightarrow> Some (hd (der_value n)) | None \<Rightarrow> None)"

subsection \<open>The profile list\<close>

record EsimProfile =
  ep_ICCID :: gostring
  ep_AID :: gostring
  ServiceProvider :: gostring
  Name :: gostring
  Nickname :: gostring
  State :: nat
  StateText :: gostring
  Class :: gostring

definition validProfileICCID :: "gostring \<Rightarrow> bool" where
  "validProfileICCID iccid \<longleftrightarrow>
     \<not> (length iccid < 18 \<or> length iccid > 20 \<or> take 2 iccid \<noteq> str ''89'')
     \<and> list_all (\<lambda>c. \<not> (c < 48 \<or> c > 57)) iccid"

text \<open>The texts for a disabled and an enabled profile, in UTF-8.\<close>

definition text_disabled :: gostring where
  "text_disabled = [0xE5, 0xB7, 0xB2, 0xE7, 0xA6, 0x81, 0xE7, 0x94, 0xA8]"

definition text_enabled :: gostring where
  "text_enabled = [0xE5, 0xB7, 0xB2, 0xE5, 0x90, 0xAF, 0xE7, 0x94, 0xA8]"

definition profile_class :: "byte list option \<Rightarrow> gostring" where
  "profile_class field =
     (case field of
        Some [c] \<Rightarrow> if c = 0 then str ''test'' else if c = 1 then str ''provisioning''
                    else if c = 2 then str ''operational'' else []
      | _ \<Rightarrow> [])"

abbreviation text_of :: "byte list option \<Rightarrow> gostring" where
  "text_of field \<equiv> case field of None \<Rightarrow> [] | Some v \<Rightarrow> v"

definition profile_of :: "(gostring \<Rightarrow> gostring) \<Rightarrow> derNode list \<Rightarrow> EsimProfile" where
  "profile_of T elems =
     (let state = (case derValue elems 0x9F70 of Some [s] \<Rightarrow> unat s | _ \<Rightarrow> 0)
      in \<lparr>ep_ICCID = (case derValue elems 0x5A of None \<Rightarrow> [] | Some iccid \<Rightarrow> decodeICCID iccid),
          ep_AID = (case derValue elems 0x4F of None \<Rightarrow> [] | Some aid \<Rightarrow> hex_upper aid),
          ServiceProvider = text_of (derValue elems 0x91),
          Name = text_of (derValue elems 0x92),
          Nickname = text_of (derValue elems 0x90),
          State = state,
          StateText = (if state = 1 then T text_enabled else T text_disabled),
          Class = profile_class (derValue elems 0x95)\<rparr>)"

fun profiles_loop :: "(gostring \<Rightarrow> gostring) \<Rightarrow> derNode list \<Rightarrow> gostring list \<Rightarrow> EsimProfile list" where
  "profiles_loop T [] seen = []"
| "profiles_loop T (entry # records) seen =
     (let profile = profile_of T (der_children entry) in
      if \<not> validProfileICCID (ep_ICCID profile) \<or> ep_ICCID profile \<in> set seen
      then profiles_loop T records seen
      else profile # profiles_loop T records (ep_ICCID profile # seen))"

definition parseProfilesInfo :: "(gostring \<Rightarrow> gostring) \<Rightarrow> byte list \<Rightarrow> EsimProfile list" where
  "parseProfilesInfo T payload = profiles_loop T (derFindAll (derParse payload) 0xE3) []"

end
