(* ===== verification/Esim_Install.thy ===== *)
theory Esim_Install
  imports Esim_Profiles "HOL-Library.List_Lexorder" "HOL-Library.Product_Lexorder"
begin

text \<open>
  Loading a profile package (\<open>esim_lpa.go\<close>) and the notifications of an eUICC
  (\<open>esim_notifications.go\<close>).  The card is an argument: a function from its state and an APDU to its
  answer; network delivery likewise.
\<close>

subsection \<open>STORE DATA\<close>

definition es10SegmentMSS :: nat where
  "es10SegmentMSS = 120"

text \<open>One exchange with the card: its payload and status word, or a transport error.\<close>

type_synonym 's card = "'s \<Rightarrow> byte list \<Rightarrow> (byte list \<times> nat) option \<times> 's"

definition es10StatusOK :: "nat \<Rightarrow> bool" where
  "es10StatusOK sw \<longleftrightarrow> sw = 0x9000 \<or> drop_bit 8 sw = 0x91"

definition store_data_apdu :: "byte list \<Rightarrow> nat \<Rightarrow> byte \<Rightarrow> byte list" where
  "store_data_apdu derRequest offset sequence =
     (let len = length derRequest - offset;
          last = \<not> len > es10SegmentMSS;
          len = (if last then len else es10SegmentMSS)
      in [0x80, 0xE2, if last then 0x91 else 0x11, sequence, of_nat len]
         @ take len (drop offset derRequest) @ [0])"

function chained_loop ::
  "'s card \<Rightarrow> 's \<Rightarrow> byte list \<Rightarrow> nat \<Rightarrow> byte \<Rightarrow> byte list \<Rightarrow> (esim_err, byte list) res \<times> 's" where
  "chained_loop transmit s derRequest offset sequence assembled =
     (if offset < length derRequest then
        (case transmit s (store_data_apdu derRequest offset sequence) of
           (None, s) \<Rightarrow> (Inl (Fail ErrTransport), s)
         | (Some (payload, sw), s) \<Rightarrow>
             if \<not> es10StatusOK sw then (Inl (Fail (ErrStatus sw)), s)
             else chained_loop transmit s derRequest
                    (offset + min (length derRequest - offset) es10SegmentMSS) (sequence + 1) (assembled @ payload))
      else (Inr assembled, s))"
  by pat_completeness auto
termination
  by (relation "measure (\<lambda>(transmit, s, derRequest, offset, sequence, assembled). length derRequest - offset)")
    (auto simp: es10SegmentMSS_def)

declare chained_loop.simps [simp del]

definition storeDataChained :: "'s card \<Rightarrow> 's \<Rightarrow> byte list \<Rightarrow> (esim_err, byte list) res \<times> 's" where
  "storeDataChained transmit s derRequest = chained_loop transmit s derRequest 0 0 []"

subsection \<open>Segmenting a profile package\<close>

function find_package :: "byte list \<Rightarrow> nat \<Rightarrow> (esim_err, nat \<times> nat \<times> nat) res" where
  "find_package bpp offset =
     (if offset < length bpp then
        (case derElementAt bpp offset of
           Inl e \<Rightarrow> Inl e
         | Inr (t, headerLen, totalLen) \<Rightarrow>
             if t = 0xBF36 then Inr (offset, headerLen, totalLen)
             else find_package bpp (offset + totalLen))
      else Inl (Fail ErrNoPackage))"
  by pat_completeness auto
termination
  by (relation "measure (\<lambda>(bpp, offset). length bpp - offset)") (auto dest: derElementAt_bounds)

function child_segments :: "byte list \<Rightarrow> nat \<Rightarrow> nat \<Rightarrow> (esim_err, byte list list) res" where
  "child_segments bpp child childEnd =
     (if child < childEnd then
        (case derElementAt bpp child of
           Inl e \<Rightarrow> Inl e
         | Inr (_, _, childTotal) \<Rightarrow>
             rbind (slice bpp child (child + childTotal)) (\<lambda>segment.
             rbind (child_segments bpp (child + childTotal) childEnd) (\<lambda>segments. Inr (segment # segments))))
      else Inr [])"
  by pat_completeness auto
termination
  by (relation "measure (\<lambda>(bpp, child, childEnd). childEnd - child)") (auto dest!: derElementAt_bounds)

function top_segments :: "byte list \<Rightarrow> nat \<Rightarrow> nat \<Rightarrow> (esim_err, byte list list) res" where
  "top_segments bpp cursor valueEnd =
     (if cursor < valueEnd then
        (case derElementAt bpp cursor of
           Inl e \<Rightarrow> Inl e
         | Inr (t, headerLen, totalLen) \<Rightarrow>
             rbind (if t = 0xA1 \<or> t = 0xA3 then
                      rbind (slice bpp cursor (cursor + headerLen)) (\<lambda>header.
                      rbind (child_segments bpp (cursor + headerLen) (cursor + totalLen)) (\<lambda>children.
                        Inr (header # children)))
                    else rbind (slice bpp cursor (cursor + totalLen)) (\<lambda>whole. Inr [whole])) (\<lambda>here.
             rbind (top_segments bpp (cursor + totalLen) valueEnd) (\<lambda>rest. Inr (here @ rest))))
      else Inr [])"
  by pat_completeness auto
termination
  by (relation "measure (\<lambda>(bpp, cursor, valueEnd). valueEnd - cursor)") (auto dest!: derElementAt_bounds)

declare find_package.simps [simp del] child_segments.simps [simp del] top_segments.simps [simp del]

definition segmentBoundProfilePackage :: "byte list \<Rightarrow> (esim_err, byte list list) res" where
  "segmentBoundProfilePackage bpp =
     rbind (find_package bpp 0) (\<lambda>(bf36Start, bf36Header, bf36Total).
       let valueStart = bf36Start + bf36Header; valueEnd = bf36Start + bf36Total in
       rbind (derElementAt bpp valueStart) (\<lambda>(_, _, firstTotal).
       rbind (slice bpp bf36Start (valueStart + firstTotal)) (\<lambda>first.
       rbind (top_segments bpp (valueStart + firstTotal) valueEnd) (\<lambda>rest. Inr (first # rest)))))"

fun load_loop :: "'s card \<Rightarrow> 's \<Rightarrow> byte list list \<Rightarrow> byte list \<Rightarrow> (esim_err, byte list) res \<times> 's" where
  "load_loop transmit s [] lastResponse =
     (if lastResponse = [] then Inl (Fail ErrNoInstallResult) else Inr lastResponse, s)"
| "load_loop transmit s (segment # segments) lastResponse =
     (case storeDataChained transmit s segment of
        (Inl e, s) \<Rightarrow> (Inl e, s)
      | (Inr response, s) \<Rightarrow>
          load_loop transmit s segments (if response \<noteq> [] then response else lastResponse))"

definition loadBoundProfilePackage :: "'s card \<Rightarrow> 's \<Rightarrow> byte list \<Rightarrow> (esim_err, byte list) res \<times> 's" where
  "loadBoundProfilePackage transmit s bpp =
     (case segmentBoundProfilePackage bpp of
        Inl e \<Rightarrow> (Inl e, s)
      | Inr segments \<Rightarrow> load_loop transmit s segments [])"

definition first_octet :: "byte list option \<Rightarrow> int" where
  "first_octet v = (case v of Some (b # _) \<Rightarrow> uint b | _ \<Rightarrow> -1)"

definition installationResult :: "byte list \<Rightarrow> (esim_err, gostring) res" where
  "installationResult payload =
     (case derFindAll (derParse payload) 0xBF37 of
        [] \<Rightarrow> Inl (Fail ErrNoInstallResult)
      | result # _ \<Rightarrow>
          (case derFindAll (der_children result) 0xBF27 of
             [] \<Rightarrow> Inl (Fail ErrNoInstallData)
           | data # _ \<Rightarrow>
               let iccid = (case derFindAll (der_children data) 0x5A of [] \<Rightarrow> [] | n # _ \<Rightarrow> decodeICCID (der_value n)) in
               (case firstChild (der_children data) 0xA2 of
                  None \<Rightarrow> Inl (Fail ErrNoFinalResult)
                | Some finalResult \<Rightarrow>
                    (case firstChild (der_children finalResult) 0xA1 of
                       Some errNode \<Rightarrow>
                         Inl (Fail (ErrInstall (first_octet (derValue (der_children errNode) 0x80))
                                               (first_octet (derValue (der_children errNode) 0x81))))
                     | None \<Rightarrow>
                         if firstChild (der_children finalResult) 0xA0 = None then Inl (Fail ErrFinalResult)
                         else Inr iccid))))"

end
