(* ===== verification/Esim_Notify.thy ===== *)
theory Esim_Notify
  imports Esim_Profiles "HOL-Library.List_Lexorder" "HOL-Library.Product_Lexorder"
begin

text \<open>
  The notifications an eUICC keeps until their receiver has acknowledged them
  (\<open>esim_notifications.go\<close>): positive integers, metadata, the lists the card returns, and the delivery
  in order.  Retrieval from the card and delivery over HTTP are arguments.
\<close>

subsection \<open>Positive integers\<close>

definition be64_octets :: "64 word \<Rightarrow> byte list" where
  "be64_octets value = map (\<lambda>i. ucast (drop_bit (8 * (7 - i)) value)) [0..<8]"

fun strip_zeros :: "byte list \<Rightarrow> byte list" where
  "strip_zeros (b # c # bs) = (if b = 0 then strip_zeros (c # bs) else b # c # bs)"
| "strip_zeros bs = bs"

definition encodePositiveInteger :: "64 word \<Rightarrow> byte list" where
  "encodePositiveInteger value =
     (if value = 0 then [0]
      else let encoded = strip_zeros (be64_octets value)
           in if hd encoded AND 0x80 \<noteq> 0 then 0 # encoded else encoded)"

definition decodePositiveInteger :: "byte list \<Rightarrow> 64 word option" where
  "decodePositiveInteger encoded =
     (if encoded = [] \<or> length encoded > 9 \<or> hd encoded AND 0x80 \<noteq> 0 then None
      else if length encoded = 9 \<and> hd encoded \<noteq> 0 then None
      else Some (foldl (\<lambda>value octet. push_bit 8 value OR ucast octet) 0
                   (if length encoded = 9 then tl encoded else encoded)))"

subsection \<open>Requests\<close>

definition buildRetrieveNotificationsRequest :: "64 word option \<Rightarrow> byte list" where
  "buildRetrieveNotificationsRequest sequenceNumber =
     (case sequenceNumber of
        None \<Rightarrow> derConstruct 0xBF2B []
      | Some n \<Rightarrow> derConstruct 0xBF2B [derConstruct 0xA0 [derEncode 0x80 (encodePositiveInteger n)]])"

definition buildListNotificationsRequest :: "byte list" where
  "buildListNotificationsRequest = derConstruct 0xBF28 []"

definition buildRemoveNotificationRequest :: "64 word \<Rightarrow> byte list" where
  "buildRemoveNotificationRequest sequenceNumber =
     derConstruct 0xBF30 [derEncode 0x80 (encodePositiveInteger sequenceNumber)]"

subsection \<open>Metadata\<close>

record EsimNotification =
  SequenceNumber :: "64 word"
  Event :: gostring
  nt_ICCID :: gostring
  Address :: gostring
  AIDHex :: gostring
  CanRetry :: bool
  raw :: "byte list"

definition event_name :: "nat \<Rightarrow> gostring" where
  "event_name position =
     (if position = 0 then str ''install''
      else if position = 1 \<or> position = 4 then str ''enable''
      else if position = 2 \<or> position = 5 then str ''disable''
      else if position = 3 \<or> position = 6 then str ''delete''
      else if position = 7 then str ''rpm''
      else str ''event-'' @ itoa position)"

definition notificationEventName :: "byte list \<Rightarrow> gostring" where
  "notificationEventName bitString =
     (if length bitString < 2 \<or> bitString ! 0 > 7 then []
      else let bitCount = (length bitString - 1) * 8 - unat (bitString ! 0)
           in case List.find (\<lambda>position. bitString ! (1 + position div 8) AND drop_bit (position mod 8) 0x80 \<noteq> 0) [0..<bitCount] of
                None \<Rightarrow> [] | Some position \<Rightarrow> event_name position)"

definition notificationFromMetadata :: "derNode \<Rightarrow> (esim_err, EsimNotification) res" where
  "notificationFromMetadata metadata =
     (let elems = der_children metadata in
      case decodePositiveInteger (text_of (derValue elems 0x80)) of
        None \<Rightarrow> Inl (Fail ErrSequenceNumber)
      | Some sequenceNumber \<Rightarrow>
          let address = trim_space (text_of (derValue elems 0x0C)) in
          if address = [] then Inl (Fail ErrNoAddress)
          else Inr \<lparr>SequenceNumber = sequenceNumber,
                    Event = notificationEventName (text_of (derValue elems 0x81)),
                    nt_ICCID = decodeICCID (text_of (derValue elems 0x5A)),
                    Address = address, AIDHex = [], CanRetry = True, raw = []\<rparr>)"

definition parsePendingNotification :: "byte list \<Rightarrow> (esim_err, EsimNotification) res" where
  "parsePendingNotification bytes =
     (case derFindAll (derParse bytes) 0xBF2F of
        [] \<Rightarrow> Inl (Fail ErrNoMetadata)
      | n # _ \<Rightarrow> rbind (notificationFromMetadata n) (\<lambda>notification. Inr (notification\<lparr>raw := bytes\<rparr>)))"

text \<open>\<open>sort.SliceStable\<close> by address, then by sequence number; strings compare octet by octet.\<close>

definition sort_notifications :: "EsimNotification list \<Rightarrow> EsimNotification list" where
  "sort_notifications = sort_key (\<lambda>n. (Address n, SequenceNumber n))"

subsection \<open>Responses\<close>

text \<open>A response that consists of one result code.\<close>

definition result_only :: "derNode list \<Rightarrow> byte list option" where
  "result_only nodes =
     (case nodes of
        [n] \<Rightarrow> if der_tag_of n \<in> {0x81, 0x80, 0x02} then Some (der_value n) else None
      | _ \<Rightarrow> None)"

text \<open>The value of the response, when it is exactly one element with the tag.\<close>

definition response_value :: "byte list \<Rightarrow> tag \<Rightarrow> esim_err \<Rightarrow> (esim_err, byte list) res" where
  "response_value payload t err =
     (case derElementAt payload 0 of
        Inl (Fail _) \<Rightarrow> Inl (Fail err)
      | Inl e \<Rightarrow> Inl e
      | Inr (got, headerLength, totalLength) \<Rightarrow>
          if got \<noteq> t \<or> totalLength \<noteq> length payload then Inl (Fail err)
          else slice payload headerLength totalLength)"

definition parseNotificationMetadataList :: "byte list \<Rightarrow> (esim_err, EsimNotification list) res" where
  "parseNotificationMetadataList payload =
     rbind (response_value payload 0xBF28 ErrListResponse) (\<lambda>v.
       let responseNodes = derParse v in
       case result_only responseNodes of
         Some code \<Rightarrow> Inl (Fail (ErrListResult code))
       | None \<Rightarrow>
           rbind (rmap notificationFromMetadata (derFindAll responseNodes 0xBF2F)) (\<lambda>ns.
             Inr (sort_notifications ns)))"

function pending_loop :: "byte list \<Rightarrow> nat \<Rightarrow> (esim_err, EsimNotification list) res" where
  "pending_loop v offset =
     (if offset < length v then
        (case derElementAt v offset of
           Inl e \<Rightarrow> Inl e
         | Inr (_, _, elementLength) \<Rightarrow>
             rbind (slice v offset (offset + elementLength)) (\<lambda>bytes.
             rbind (parsePendingNotification bytes) (\<lambda>notification.
             rbind (pending_loop v (offset + elementLength)) (\<lambda>rest. Inr (notification # rest)))))
      else Inr [])"
  by pat_completeness auto
termination
  by (relation "measure (\<lambda>(v, offset). length v - offset)") (auto dest!: derElementAt_bounds)

declare pending_loop.simps [simp del]

text \<open>The list is wrapped in A0 on newer cards, in a sequence or not at all on older ones.\<close>

definition pending_value :: "byte list \<Rightarrow> derNode list \<Rightarrow> byte list" where
  "pending_value v nodes =
     (case nodes of
        [n] \<Rightarrow> if der_tag_of n = 0xA0 then der_value n
                else if der_tag_of n = 0x30 \<and> firstChild (der_children n) 0xBF2F = None then der_value n
                else v
      | _ \<Rightarrow> v)"

definition parsePendingNotifications :: "byte list \<Rightarrow> (esim_err, EsimNotification list) res" where
  "parsePendingNotifications payload =
     rbind (response_value payload 0xBF2B ErrRetrieveResponse) (\<lambda>v.
       let responseNodes = derParse v in
       case result_only responseNodes of
         Some code \<Rightarrow>
           (case derElementAt v 0 of
              Inr (_, _, errorLength) \<Rightarrow>
                if errorLength \<noteq> length v then Inl (Fail ErrRetrieveMalformed) else Inl (Fail (ErrRetrieve code))
            | Inl (Fail _) \<Rightarrow> Inl (Fail ErrRetrieveMalformed)
            | Inl e \<Rightarrow> Inl e)
       | None \<Rightarrow>
           rbind (pending_loop (pending_value v responseNodes) 0) (\<lambda>ns. Inr (sort_notifications ns)))"

definition removeNotificationResult :: "byte list \<Rightarrow> (esim_err, unit) res" where
  "removeNotificationResult payload =
     (case derParse payload of
        [n] \<Rightarrow>
          if der_tag_of n \<noteq> 0xBF30 then Inl (Fail ErrRemoveResponse)
          else let result = text_of (derValue (der_children n) 0x80);
                   result = (if result = [] then text_of (derValue (der_children n) 0x02) else result)
               in (case result of
                     [b] \<Rightarrow> if b = 0 \<or> b = 1 then Inr () else Inl (Fail (ErrRemove b))
                   | _ \<Rightarrow> Inl (Fail ErrRemoveResponse))
      | _ \<Rightarrow> Inl (Fail ErrRemoveResponse))"

subsection \<open>Delivery\<close>

text \<open>
  \<open>retrieveNotifications\<close> over the exchange \<open>es10\<close> with the card: an explicit undefinedError (127) for a
  single notification is retried with the older encoding of the request.  \<open>cancelled\<close> is the state of
  the context between the two.
\<close>

definition retrieveNotifications ::
  "('s \<Rightarrow> byte list \<Rightarrow> (esim_err, byte list) res \<times> 's) \<Rightarrow> ('s \<Rightarrow> bool) \<Rightarrow> 's \<Rightarrow> 64 word option
     \<Rightarrow> (esim_err, EsimNotification list) res \<times> 's" where
  "retrieveNotifications es10 cancelled s sequenceNumber =
     (case es10 s (buildRetrieveNotificationsRequest sequenceNumber) of
        (Inl e, s) \<Rightarrow> (Inl e, s)
      | (Inr payload, s) \<Rightarrow>
          let r = parsePendingNotifications payload in
          if sequenceNumber = None \<or> r \<noteq> Inl (Fail (ErrRetrieve [127])) \<or> cancelled s then (r, s)
          else (case es10 s (derConstruct 0xBF2B [derEncode 0x80 (encodePositiveInteger (the sequenceNumber))]) of
                  (Inl e, s) \<Rightarrow> (Inl e, s)
                | (Inr legacyPayload, s) \<Rightarrow> (parsePendingNotifications legacyPayload, s)))"

text \<open>
  The loop of \<open>deliverPendingNotifications\<close> over the sorted list: a receiver whose notification failed is
  blocked.  \<open>deliver\<close> retrieves a notification, sends and removes it; the result lists what was tried.
\<close>

fun deliver_loop ::
  "('s \<Rightarrow> 64 word \<Rightarrow> (esim_err, EsimNotification list) res \<times> 's) \<Rightarrow> ('s \<Rightarrow> EsimNotification \<Rightarrow> bool \<times> 's)
     \<Rightarrow> 's \<Rightarrow> EsimNotification list \<Rightarrow> gostring list \<Rightarrow> (EsimNotification \<times> bool) list \<times> 's" where
  "deliver_loop retrieve deliver s [] blocked = ([], s)"
| "deliver_loop retrieve deliver s (notification # rest) blocked =
     (if Address notification \<in> set blocked then deliver_loop retrieve deliver s rest blocked
      else
        let (pending, s) = retrieve s (SequenceNumber notification);
            (ok, s) = (case pending of
              Inl _ \<Rightarrow> (False, s)
            | Inr candidates \<Rightarrow>
                (case List.find (\<lambda>c. SequenceNumber c = SequenceNumber notification) candidates of
                   None \<Rightarrow> (False, s)
                 | Some candidate \<Rightarrow> deliver s candidate));
            (tried, s) = deliver_loop retrieve deliver s rest
                           (if ok then blocked else Address notification # blocked)
        in ((notification, ok) # tried, s))"

end
