(* ===== verification/Esim_Properties.thy ===== *)
theory Esim_Properties
  imports Esim_Install Esim_Notify "HOL-Library.Multiset"
begin

text \<open>
  What the eSIM code guarantees: requests and trees come back from their encodings, a profile package
  is cut without loss at the borders of its elements, a request is sent in numbered blocks, no answer
  of a card makes a parser panic, and notifications of one receiver never overtake each other.
\<close>

subsection \<open>Trees\<close>

lemma tags_ok:
  "tag_ok 0x5A" "tag_ok 0x4F" "tag_ok 0x80" "tag_ok 0x81" "tag_ok 0x90" "tag_ok 0xA0" "tag_ok 0xA1" "tag_ok 0xA3"
  "tag_ok 0xBF29" "tag_ok 0xBF31" "tag_ok 0xBF32" "tag_ok 0xBF33" "tag_ok 0xBF36" "tag_ok 0xBF30"
  by (simp_all add: tag_ok_def derEncodeTag_def word_sless_alt)

lemma tags_constructed:
  "\<not> constructed_tag 0x5A" "\<not> constructed_tag 0x4F" "\<not> constructed_tag 0x80" "\<not> constructed_tag 0x81"
  "\<not> constructed_tag 0x90" "constructed_tag 0xA0" "constructed_tag 0xA1" "constructed_tag 0xA3"
  "constructed_tag 0xBF29" "constructed_tag 0xBF31" "constructed_tag 0xBF32" "constructed_tag 0xBF33"
  "constructed_tag 0xBF36" "constructed_tag 0xBF30"
  by (simp_all add: constructed_tag_def derEncodeTag_def word_sless_alt)

lemma nodes_ok_append [simp]: "nodes_ok (xs @ ys) \<longleftrightarrow> nodes_ok xs \<and> nodes_ok ys"
  by (induction xs rule: nodes_ok.induct) auto

lemma nodes_ok_member: "nodes_ok nodes \<Longrightarrow> n \<in> set nodes \<Longrightarrow> tag_ok (der_tag_of n) \<and> length (der_value n) < 2 ^ 24"
  by (induction nodes rule: nodes_ok.induct) auto

definition header_bytes :: "derNode \<Rightarrow> byte list" where
  "header_bytes n = derEncodeTag (der_tag_of n) @ derEncodeLength (length (der_value n))"

lemma node_bytes_split: "node_bytes n = header_bytes n @ der_value n"
  by (simp add: node_bytes_def header_bytes_def derEncode_def)

lemma element_at:
  assumes "nodes_ok [n]"
  shows "derElementAt (pre @ node_bytes n @ post) (length pre)
    = Inr (der_tag_of n, length (header_bytes n), length (node_bytes n))"
proof -
  have "tag_ok (der_tag_of n)" "length (der_value n) < 2 ^ 24" using nodes_ok_member [OF assms] by simp_all
  then show ?thesis using decode_encoded(1) by (simp add: node_bytes_def header_bytes_def)
qed

text \<open>
  C19: BER-TLV trees come back.  Parsing the encoding of a list of elements gives the list, with the
  children of every constructed element, and \<open>derElementAt\<close> finds each element at its offset; this
  holds for every tag of up to four octets and every value shorter than 2^24 octets.
\<close>

theorem esim_tree_roundtrip:
  assumes "nodes_ok nodes"
  shows "derParse (concat (map node_bytes nodes)) = nodes
    \<and> (\<forall>i < length nodes. derElementAt (concat (map node_bytes nodes)) (length (concat (map node_bytes (take i nodes))))
         = Inr (der_tag_of (nodes ! i), length (node_bytes (nodes ! i)) - length (der_value (nodes ! i)),
                length (node_bytes (nodes ! i))))"
proof (intro conjI allI impI)
  show "derParse (concat (map node_bytes nodes)) = nodes" by (rule derParse_nodes [OF assms])
  fix i
  assume i: "i < length nodes"
  have split: "nodes = take i nodes @ nodes ! i # drop (Suc i) nodes" using i by (rule id_take_nth_drop)
  have "nodes_ok (take i nodes @ [nodes ! i] @ drop (Suc i) nodes)" using assms split by simp
  then have "nodes_ok [nodes ! i]" by (simp only: nodes_ok_append)
  moreover have "concat (map node_bytes nodes) = concat (map node_bytes (take i nodes)) @ node_bytes (nodes ! i)
      @ concat (map node_bytes (drop (Suc i) nodes))"
    by (subst split) simp
  ultimately show "derElementAt (concat (map node_bytes nodes)) (length (concat (map node_bytes (take i nodes))))
      = Inr (der_tag_of (nodes ! i), length (node_bytes (nodes ! i)) - length (der_value (nodes ! i)),
             length (node_bytes (nodes ! i)))"
    using element_at by (simp add: node_bytes_split)
qed

theorem esim_tree_roundtrip_witness:
  "derParse (concat (map node_bytes [DerNode 0xBF31 [0x81, 1, 0xFF] [DerNode 0x81 [0xFF] []], DerNode 0x5A [] []]))
   = [DerNode 0xBF31 [0x81, 1, 0xFF] [DerNode 0x81 [0xFF] []], DerNode 0x5A [] []]"
proof -
  have "nodes_ok [DerNode 0xBF31 [0x81, 1, 0xFF] [DerNode 0x81 [0xFF] []], DerNode 0x5A [] []]"
    by (simp add: tags_ok tags_constructed node_bytes_def derEncode_def derEncodeTag_def derEncodeLength_def word_sless_alt)
  from esim_tree_roundtrip [OF this] show ?thesis by blast
qed

subsection \<open>Requests that name a profile\<close>

lemma bcd_pair:
  assumes "is_digit lo" "is_digit hi"
  shows "bcd_digits (push_bit 4 (hi - 48) OR (lo - 48)) = [lo, hi]"
  using nibbles_join [OF is_digit_minus(1) [OF assms(1)] is_digit_minus(1) [OF assms(2)]]
    is_digit_minus(2) [OF assms(1)] is_digit_minus(2) [OF assms(2)]
  by (simp add: bcd_digits_def Let_def)

lemma bcd_single:
  assumes "is_digit lo"
  shows "bcd_digits (0xF0 OR (lo - 48)) = [lo]"
proof -
  have "(0xF0 :: byte) = push_bit 4 0x0F" by simp
  then show ?thesis
    using nibbles_join [OF is_digit_minus(1) [OF assms], of "0x0F"] is_digit_minus(2) [OF assms]
    by (simp add: bcd_digits_def Let_def)
qed

lemma bcd_filler: "bcd_digits 0xFF = []"
  by (simp add: bcd_digits_def Let_def)

lemma digit_valid: "is_digit b \<Longrightarrow> \<not> (b < 48 \<or> b > 57)"
  by (auto simp: is_digit_def word_less_nat_alt)

lemma bcd_octets_digits:
  "list_all is_digit ds \<Longrightarrow> \<exists>out. bcd_octets ds = Inr out \<and> length out = (length ds + 1) div 2
     \<and> concat (map bcd_digits out) = ds"
proof (induction ds rule: bcd_octets.induct)
  case (2 lo)
  then show ?case using digit_valid [of lo] by (simp add: bcd_single)
next
  case (3 lo hi ds)
  then have "\<not> (lo < 48 \<or> lo > 57)" "\<not> (hi < 48 \<or> hi > 57)" using digit_valid by auto
  then show ?case using 3 by (auto simp: bcd_pair)
qed simp

lemma encodeICCID_digits:
  assumes "list_all is_digit iccid" "iccid \<noteq> []" "length iccid \<le> 20"
  shows "\<exists>bcd. encodeICCID iccid = Inr bcd \<and> length bcd = 10 \<and> decodeICCID bcd = iccid"
proof -
  obtain out where out: "bcd_octets iccid = Inr out" "length out = (length iccid + 1) div 2"
      "concat (map bcd_digits out) = iccid"
    using bcd_octets_digits [OF assms(1)] by blast
  have "graphic iccid" using assms(1) by (auto simp: graphic_def is_digit_def list_all_iff)
  then have "encodeICCID iccid = Inr (out @ replicate (10 - length out) 0xFF)"
    using assms(2,3) out(1) by (simp add: encodeICCID_def encodeFixedDigitBCD_def Let_def)
  moreover have "decodeICCID (out @ replicate (10 - length out) 0xFF) = iccid"
    using out(3) by (simp add: decodeICCID_def map_replicate_const bcd_filler)
  moreover have "length (out @ replicate (10 - length out) 0xFF) = 10" using out(2) assms(3) by simp
  ultimately show ?thesis by blast
qed

text \<open>A constructed request parses to its tree.\<close>

lemma construct_parses:
  assumes "nodes_ok children" "tag_ok t" "constructed_tag t" "length (concat (map node_bytes children)) < 2 ^ 24"
  shows "derParse (derConstruct t (map node_bytes children)) = [DerNode t (concat (map node_bytes children)) children]"
proof -
  have "nodes_ok [DerNode t (concat (map node_bytes children)) children]" using assms by simp
  from derParse_nodes [OF this] show ?thesis by (simp add: derConstruct_def node_bytes_def)
qed

lemma node_bytes_simps:
  "derEncode t v = node_bytes (DerNode t v [])"
  "derConstruct t [x] = node_bytes (DerNode t x [])"
  by (simp_all add: node_bytes_def derConstruct_def)

lemma length_header: "length (header_bytes n) \<le> 8"
proof -
  have "length (derEncodeTag t) \<le> 4" for t
    by (simp add: derEncodeTag_def length_dropWhile_le [THEN order_trans])
  moreover have "length (derEncodeLength l) \<le> 4" for l by (simp add: derEncodeLength_def)
  ultimately show ?thesis by (simp add: header_bytes_def add_mono [of _ 4 _ 4, simplified])
qed

lemma length_node_bytes: "length (node_bytes n) \<le> length (der_value n) + 8"
  using length_header [of n] by (simp add: node_bytes_split)

text \<open>The value of a request field, A0 around the profile identifier.\<close>

abbreviation profile_id :: "byte list \<Rightarrow> derNode" where
  "profile_id bcd \<equiv> DerNode 0xA0 (node_bytes (DerNode 0x5A bcd [])) [DerNode 0x5A bcd []]"

lemma profile_id_ok:
  assumes "length bcd = 10"
  shows "nodes_ok [profile_id bcd]" "length (node_bytes (profile_id bcd)) \<le> 26"
    "derConstruct 0xA0 [derEncode 0x5A bcd] = node_bytes (profile_id bcd)"
proof -
  have l: "length (node_bytes (DerNode 0x5A bcd [])) \<le> 18" using length_node_bytes [of "DerNode 0x5A bcd []"] assms by simp
  then show "nodes_ok [profile_id bcd]" using assms by (simp add: tags_ok tags_constructed)
  show "length (node_bytes (profile_id bcd)) \<le> 26" using length_node_bytes [of "profile_id bcd"] l by simp
  show "derConstruct 0xA0 [derEncode 0x5A bcd] = node_bytes (profile_id bcd)"
    by (simp add: node_bytes_def derConstruct_def)
qed

lemma flagged_request:
  assumes "length bcd = 10" "tag_ok t" "constructed_tag t"
  shows "\<exists>v. derParse (derConstruct t [derConstruct 0xA0 [derEncode 0x5A bcd], derEncode 0x81 [b]])
    = [DerNode t v [profile_id bcd, DerNode 0x81 [b] []]]"
proof -
  have "nodes_ok [profile_id bcd, DerNode 0x81 [b] []]"
    using profile_id_ok(1) [OF assms(1)] by (simp add: tags_ok tags_constructed)
  moreover have "length (concat (map node_bytes [profile_id bcd, DerNode 0x81 [b] []])) < 2 ^ 24"
    using profile_id_ok(2) [OF assms(1)] length_node_bytes [of "DerNode 0x81 [b] []"] by simp
  ultimately have "derParse (derConstruct t (map node_bytes [profile_id bcd, DerNode 0x81 [b] []]))
      = [DerNode t (concat (map node_bytes [profile_id bcd, DerNode 0x81 [b] []])) [profile_id bcd, DerNode 0x81 [b] []]]"
    using assms(2,3) by (intro construct_parses)
  then show ?thesis by (simp add: node_bytes_def derConstruct_def)
qed

text \<open>
  The requests that enable, disable and delete a profile name it: for an ICCID of 1 to 20 digits
  each request is the one element of its command, with the ICCID in the ten octets of EF-ICCID,
  which decode to the same digits, and the refresh flag that was asked for.
\<close>

theorem esim_profile_requests:
  assumes "list_all is_digit iccid" "iccid \<noteq> []" "length iccid \<le> 20"
  shows "\<exists>bcd enable disable delete u v w. length bcd = 10 \<and> decodeICCID bcd = iccid
    \<and> buildEnableProfileRequestWithRefresh iccid refresh = Inr enable
    \<and> derParse enable = [DerNode 0xBF31 u [profile_id bcd, DerNode 0x81 [if refresh then 0xFF else 0] []]]
    \<and> buildDisableProfileRequest iccid = Inr disable
    \<and> derParse disable = [DerNode 0xBF32 v [profile_id bcd, DerNode 0x81 [0xFF] []]]
    \<and> buildDeleteProfileRequest iccid = Inr delete
    \<and> derParse delete = [DerNode 0xBF33 w [DerNode 0x5A bcd []]]"
proof -
  obtain bcd where bcd: "encodeICCID iccid = Inr bcd" "length bcd = 10" "decodeICCID bcd = iccid"
    using encodeICCID_digits [OF assms] by blast
  have trim: "trim_space iccid = iccid"
    using assms(1) by (intro trim_space_graphic) (auto simp: graphic_def is_digit_def list_all_iff)
  obtain u v where uv:
    "derParse (derConstruct 0xBF31 [derConstruct 0xA0 [derEncode 0x5A bcd], derEncode 0x81 [refresh_flag refresh]])
      = [DerNode 0xBF31 u [profile_id bcd, DerNode 0x81 [refresh_flag refresh] []]]"
    "derParse (derConstruct 0xBF32 [derConstruct 0xA0 [derEncode 0x5A bcd], derEncode 0x81 [0xFF]])
      = [DerNode 0xBF32 v [profile_id bcd, DerNode 0x81 [0xFF] []]]"
    using flagged_request [OF bcd(2)] tags_ok tags_constructed by metis
  have "derParse (derConstruct 0xBF33 (map node_bytes [DerNode 0x5A bcd []]))
      = [DerNode 0xBF33 (concat (map node_bytes [DerNode 0x5A bcd []])) [DerNode 0x5A bcd []]]"
    using bcd(2) length_node_bytes [of "DerNode 0x5A bcd []"]
    by (intro construct_parses) (simp_all add: tags_ok tags_constructed)
  then have "\<exists>w. derParse (derConstruct 0xBF33 [derEncode 0x5A bcd]) = [DerNode 0xBF33 w [DerNode 0x5A bcd []]]"
    by (simp add: node_bytes_simps)
  with bcd uv show ?thesis
    by (auto simp: buildEnableProfileRequestWithRefresh_def buildDisableProfileRequest_def
        buildDeleteProfileRequest_def trim Let_def refresh_flag_def)
qed

theorem esim_profile_requests_witness:
  "\<exists>enable. buildEnableProfileRequestWithRefresh (str ''8944501234'') True = Inr enable"
proof -
  have "list_all is_digit (str ''8944501234'')" "str ''8944501234'' \<noteq> []" "length (str ''8944501234'') \<le> 20"
    by (simp_all add: str_def is_digit_def)
  from esim_profile_requests [OF this, of True] show ?thesis by blast
qed

subsection \<open>Cutting a profile package\<close>

text \<open>The slices of one element: the sequences A1 and A3 are sent as their header and their elements.\<close>

definition slices_of :: "derNode \<Rightarrow> byte list list" where
  "slices_of n =
     (if der_tag_of n = 0xA1 \<or> der_tag_of n = 0xA3 then header_bytes n # map node_bytes (der_children n)
      else [node_bytes n])"

lemma nodes_ok_Cons: "nodes_ok (n # ns) \<longleftrightarrow> nodes_ok [n] \<and> nodes_ok ns"
  using nodes_ok_append [of "[n]" ns] by simp

lemma constructed_value: "nodes_ok [n] \<Longrightarrow> constructed_tag (der_tag_of n)
    \<Longrightarrow> der_value n = concat (map node_bytes (der_children n)) \<and> nodes_ok (der_children n)"
  by (cases n) auto

lemma concat_slices: "nodes_ok [n] \<Longrightarrow> concat (slices_of n) = node_bytes n"
  using constructed_value [of n] tags_constructed(7,8) by (auto simp: slices_of_def node_bytes_split)

lemma element_in:
  assumes "nodes_ok [n]" "bpp = pre @ node_bytes n @ post"
  shows "derElementAt bpp (length pre) = Inr (der_tag_of n, length (header_bytes n), length (node_bytes n))"
    "length pre < length bpp" "slice bpp (length pre) (length pre + length (node_bytes n)) = (Inr (node_bytes n) :: (esim_err, byte list) res)"
    "slice bpp (length pre) (length pre + length (header_bytes n)) = (Inr (header_bytes n) :: (esim_err, byte list) res)"
    "0 < length (node_bytes n)" "length (header_bytes n) \<le> length (node_bytes n)"
proof -
  show e: "derElementAt bpp (length pre) = Inr (der_tag_of n, length (header_bytes n), length (node_bytes n))"
    using element_at [OF assms(1)] assms(2) by simp
  from derElementAt_bounds [OF e] show "length pre < length bpp" "0 < length (node_bytes n)" by linarith+
  show "slice bpp (length pre) (length pre + length (node_bytes n)) = (Inr (node_bytes n) :: (esim_err, byte list) res)"
    "slice bpp (length pre) (length pre + length (header_bytes n)) = (Inr (header_bytes n) :: (esim_err, byte list) res)"
    "length (header_bytes n) \<le> length (node_bytes n)"
    by (simp_all add: assms(2) node_bytes_split)
qed

lemma child_segments_nodes:
  assumes "nodes_ok ns" "bpp = pre @ concat (map node_bytes ns) @ post"
  shows "child_segments bpp (length pre) (length pre + length (concat (map node_bytes ns))) = Inr (map node_bytes ns)"
  using assms
proof (induction ns arbitrary: pre)
  case Nil
  then show ?case by (subst child_segments.simps) simp
next
  case (Cons n ns)
  have n: "nodes_ok [n]" "nodes_ok ns" using Cons.prems(1) nodes_ok_Cons [of n ns] by simp_all
  have "bpp = pre @ node_bytes n @ (concat (map node_bytes ns) @ post)" using Cons.prems(2) by simp
  note e = element_in [OF n(1) this]
  have "child_segments bpp (length (pre @ node_bytes n))
      (length (pre @ node_bytes n) + length (concat (map node_bytes ns))) = Inr (map node_bytes ns)"
    using Cons.prems(2) by (intro Cons.IH n(2)) simp
  then show ?case using e(1,3,5) by (subst child_segments.simps) (simp add: add.assoc)
qed

lemma top_segments_nodes:
  assumes "nodes_ok ns" "bpp = pre @ concat (map node_bytes ns) @ post"
  shows "top_segments bpp (length pre) (length pre + length (concat (map node_bytes ns)))
    = Inr (concat (map slices_of ns))"
  using assms
proof (induction ns arbitrary: pre)
  case Nil
  then show ?case by (subst top_segments.simps) simp
next
  case (Cons n ns)
  have n: "nodes_ok [n]" "nodes_ok ns" using Cons.prems(1) nodes_ok_Cons [of n ns] by simp_all
  have "bpp = pre @ node_bytes n @ (concat (map node_bytes ns) @ post)" using Cons.prems(2) by simp
  note e = element_in [OF n(1) this]
  have rest: "top_segments bpp (length pre + length (node_bytes n))
      (length pre + length (node_bytes n) + length (concat (map node_bytes ns))) = Inr (concat (map slices_of ns))"
    using Cons.IH [OF n(2), of "pre @ node_bytes n"] Cons.prems(2) by simp
  have "child_segments bpp (length pre + length (header_bytes n)) (length pre + length (node_bytes n))
      = Inr (map node_bytes (der_children n))" if "der_tag_of n = 0xA1 \<or> der_tag_of n = 0xA3"
  proof -
    have "constructed_tag (der_tag_of n)" using that tags_constructed(7,8) by auto
    with constructed_value [OF n(1)] have v: "der_value n = concat (map node_bytes (der_children n))"
      "nodes_ok (der_children n)" by simp_all
    show ?thesis
      using child_segments_nodes [OF v(2), of bpp "pre @ header_bytes n"] Cons.prems(2) v(1)
      by (simp add: node_bytes_split add.assoc)
  qed
  then show ?case
    using e(1,3,4,5) rest by (subst top_segments.simps) (simp add: slices_of_def add.assoc)
qed

lemma find_package_nodes:
  assumes "nodes_ok ns" "\<forall>n \<in> set ns. der_tag_of n \<noteq> 0xBF36" "nodes_ok [n]" "der_tag_of n = 0xBF36"
    and "bpp = pre @ concat (map node_bytes ns) @ node_bytes n @ post"
  shows "find_package bpp (length pre)
    = Inr (length pre + length (concat (map node_bytes ns)), length (header_bytes n), length (node_bytes n))"
  using assms(1,2,5)
proof (induction ns arbitrary: pre)
  case Nil
  have "bpp = pre @ node_bytes n @ post" using Nil.prems(3) by simp
  note e = element_in [OF assms(3) this]
  show ?case using e(1,2) assms(4) by (subst find_package.simps) simp
next
  case (Cons m ns)
  have m: "nodes_ok [m]" "nodes_ok ns" using Cons.prems(1) nodes_ok_Cons [of m ns] by simp_all
  have "bpp = pre @ node_bytes m @ (concat (map node_bytes ns) @ node_bytes n @ post)" using Cons.prems(3) by simp
  note e = element_in [OF m(1) this]
  show ?case
    using e(1,2) Cons.IH [OF m(2), of "pre @ node_bytes m"] Cons.prems(2,3)
    by (subst find_package.simps) (simp add: add.assoc)
qed

lemma concat_all_slices: "nodes_ok ns \<Longrightarrow> concat (concat (map slices_of ns)) = concat (map node_bytes ns)"
proof (induction ns)
  case (Cons n ns)
  then show ?case using nodes_ok_Cons [of n ns] by (simp add: concat_slices)
qed simp

text \<open>
  C20: a profile package is cut without loss.  For a well-formed package, wherever it stands among
  other elements, the slices are the header of BF36 with its first child, then the children in order,
  the sequences A1 and A3 as their header followed by each of their elements; joined together they are
  the octets of the package.
\<close>

theorem esim_package_segments:
  assumes "nodes_ok before" "\<forall>n \<in> set before. der_tag_of n \<noteq> 0xBF36"
    and "nodes_ok [package]" "der_tag_of package = 0xBF36" "der_children package = first # rest"
  shows "\<exists>segments. segmentBoundProfilePackage (concat (map node_bytes before) @ node_bytes package @ after) = Inr segments
    \<and> segments = (header_bytes package @ node_bytes first) # concat (map slices_of rest)
    \<and> concat segments = node_bytes package"
proof -
  let ?bpp = "concat (map node_bytes before) @ node_bytes package @ after"
  let ?at = "length (concat (map node_bytes before))"
  have cons: "constructed_tag (der_tag_of package)" using assms(4) tags_constructed by simp
  note v = constructed_value [OF assms(3) cons]
  have ok: "nodes_ok [first]" "nodes_ok rest" using v assms(5) nodes_ok_Cons [of first rest] by simp_all
  have bytes: "node_bytes package = header_bytes package @ node_bytes first @ concat (map node_bytes rest)"
    using v assms(5) by (simp add: node_bytes_split)
  have find: "find_package ?bpp 0 = Inr (?at, length (header_bytes package), length (node_bytes package))"
    using find_package_nodes [OF assms(1,2,3,4), of ?bpp "[]" after] by simp
  note f = element_in [OF ok(1), of ?bpp "concat (map node_bytes before) @ header_bytes package"
      "concat (map node_bytes rest) @ after"]
  have head: "slice ?bpp ?at (?at + length (header_bytes package) + length (node_bytes first))
      = (Inr (header_bytes package @ node_bytes first) :: (esim_err, byte list) res)"
    by (simp add: bytes)
  have top: "top_segments ?bpp (?at + length (header_bytes package) + length (node_bytes first))
      (?at + length (node_bytes package)) = Inr (concat (map slices_of rest))"
    using top_segments_nodes [OF ok(2), of ?bpp "concat (map node_bytes before) @ header_bytes package @ node_bytes first" after]
    by (simp add: bytes add.assoc)
  have "segmentBoundProfilePackage ?bpp
      = Inr ((header_bytes package @ node_bytes first) # concat (map slices_of rest))"
    using find f(1) head top by (simp add: segmentBoundProfilePackage_def bytes Let_def)
  then show ?thesis using concat_all_slices [OF ok(2)] by (simp add: bytes)
qed

theorem esim_package_segments_witness:
  "\<exists>segments. segmentBoundProfilePackage
      (node_bytes (DerNode 0xBF36 [0x80, 1, 7, 0xA1, 2, 0x81, 0] [DerNode 0x80 [7] [], DerNode 0xA1 [0x81, 0] [DerNode 0x81 [] []]]))
    = Inr segments \<and> concat segments = [0xBF, 0x36, 7, 0x80, 1, 7, 0xA1, 2, 0x81, 0]"
proof -
  let ?p = "DerNode 0xBF36 [0x80, 1, 7, 0xA1, 2, 0x81, 0] [DerNode 0x80 [7] [], DerNode 0xA1 [0x81, 0] [DerNode 0x81 [] []]]"
  have ok: "nodes_ok [?p]"
    by (simp add: tags_ok tags_constructed node_bytes_def derEncode_def derEncodeTag_def derEncodeLength_def word_sless_alt)
  have "node_bytes ?p = [0xBF, 0x36, 7, 0x80, 1, 7, 0xA1, 2, 0x81, 0]"
    by (simp add: node_bytes_def derEncode_def derEncodeTag_def derEncodeLength_def word_sless_alt)
  moreover obtain segments where "segmentBoundProfilePackage (concat (map node_bytes []) @ node_bytes ?p @ []) = Inr segments"
    "concat segments = node_bytes ?p"
    using esim_package_segments [of "[]" ?p "DerNode 0x80 [7] []" "[DerNode 0xA1 [0x81, 0] [DerNode 0x81 [] []]]" "[]"] ok by auto
  ultimately show ?thesis by simp
qed

subsection \<open>Numbered blocks\<close>

text \<open>The blocks of a request, and an exchange of given blocks.\<close>

definition block_count :: "byte list \<Rightarrow> nat" where
  "block_count request = (length request + 119) div 120"

definition store_blocks :: "byte list \<Rightarrow> byte list list" where
  "store_blocks request = map (\<lambda>i. store_data_apdu request (120 * i) (of_nat i)) [0..<block_count request]"

fun exchange :: "'s card \<Rightarrow> 's \<Rightarrow> byte list list \<Rightarrow> byte list \<Rightarrow> (esim_err, byte list) res \<times> 's" where
  "exchange transmit s [] assembled = (Inr assembled, s)"
| "exchange transmit s (apdu # apdus) assembled =
     (case transmit s apdu of
        (None, s) \<Rightarrow> (Inl (Fail ErrTransport), s)
      | (Some (payload, sw), s) \<Rightarrow>
          if \<not> es10StatusOK sw then (Inl (Fail (ErrStatus sw)), s)
          else exchange transmit s apdus (assembled @ payload))"

lemma chained_loop_blocks:
  "i \<le> block_count request \<Longrightarrow>
   chained_loop transmit s request (min (120 * i) (length request)) (of_nat i) assembled
   = exchange transmit s (map (\<lambda>i. store_data_apdu request (120 * i) (of_nat i)) [i..<block_count request]) assembled"
proof (induction "block_count request - i" arbitrary: i s assembled)
  case 0
  then have "length request \<le> 120 * i" by (auto simp: block_count_def)
  then show ?case using 0 by (subst chained_loop.simps) (simp add: min_def)
next
  case (Suc k)
  then have i: "i < block_count request" "120 * i < length request" by (auto simp: block_count_def)
  have off: "min (120 * i) (length request) + min (length request - min (120 * i) (length request)) es10SegmentMSS
      = min (120 * Suc i) (length request)"
    using i(2) by (auto simp: es10SegmentMSS_def min_def)
  have "k = block_count request - Suc i" "Suc i \<le> block_count request" using Suc(2) i by simp_all
  note IH = Suc(1) [OF this]
  have "of_nat i + 1 = (of_nat (Suc i) :: byte)" by simp
  then show ?case
    using IH i off
    by (subst chained_loop.simps) (simp add: upt_conv_Cons min_def split: prod.split option.split del: of_nat_Suc)
qed

lemma block_data:
  assumes "i < block_count request"
  shows "drop 5 (store_data_apdu request (120 * i) q) = take 120 (drop (120 * i) request) @ [0]"
    "store_data_apdu request (120 * i) q ! 2 = (if Suc i = block_count request then 0x91 else 0x11)"
    "unat (store_data_apdu request (120 * i) q ! 4) = length (take 120 (drop (120 * i) request))"
    "store_data_apdu request (120 * i) q ! 3 = q"
proof -
  have i: "120 * i < length request" using assms by (auto simp: block_count_def)
  have last: "Suc i = block_count request \<longleftrightarrow> \<not> 120 < length request - 120 * i"
    using assms by (auto simp: block_count_def)
  show "drop 5 (store_data_apdu request (120 * i) q) = take 120 (drop (120 * i) request) @ [0]"
    by (simp add: store_data_apdu_def es10SegmentMSS_def Let_def)
  show "store_data_apdu request (120 * i) q ! 2 = (if Suc i = block_count request then 0x91 else 0x11)"
    using last by (simp add: store_data_apdu_def es10SegmentMSS_def Let_def)
  show "unat (store_data_apdu request (120 * i) q ! 4) = length (take 120 (drop (120 * i) request))"
    by (simp add: store_data_apdu_def es10SegmentMSS_def Let_def unat_of_nat take_bit_nat_eq_self min_def)
  show "store_data_apdu request (120 * i) q ! 3 = q" by (simp add: store_data_apdu_def Let_def)
qed

lemma take_prefix: "take (length xs) (xs @ ys) = xs"
  by simp

lemma chunks_join: "concat (map (\<lambda>i. take k (drop (k * i) xs)) [0..<n]) = take (k * n) xs"
  by (induction n) (simp_all add: take_add [symmetric] add.commute)

text \<open>
  A request is sent as numbered blocks.  STORE DATA stops at the first exchange that fails and
  otherwise sends exactly the blocks of the request, whose data joined together are the request; each
  block carries its length and its number modulo 256, and P1 says 0x91 in the last block only.
\<close>

theorem esim_chained_blocks:
  "storeDataChained transmit s request = exchange transmit s (store_blocks request) []
   \<and> concat (map (\<lambda>apdu. take (unat (apdu ! 4)) (drop 5 apdu)) (store_blocks request)) = request
   \<and> map (\<lambda>apdu. (apdu ! 2, apdu ! 3)) (store_blocks request)
     = map (\<lambda>i. (if Suc i = block_count request then 0x91 else 0x11, of_nat i)) [0..<block_count request]"
proof (intro conjI)
  show "storeDataChained transmit s request = exchange transmit s (store_blocks request) []"
    using chained_loop_blocks [of 0 request transmit s "[]"] by (simp add: storeDataChained_def store_blocks_def)
  have "concat (map (\<lambda>apdu. take (unat (apdu ! 4)) (drop 5 apdu)) (store_blocks request))
      = concat (map (\<lambda>i. take 120 (drop (120 * i) request)) [0..<block_count request])"
    unfolding store_blocks_def map_map o_def
    by (rule arg_cong [where f = concat], rule map_cong [OF refl])
      (simp only: block_data take_prefix set_upt atLeastLessThan_iff)
  also have "\<dots> = request" by (simp add: chunks_join block_count_def)
  finally show "concat (map (\<lambda>apdu. take (unat (apdu ! 4)) (drop 5 apdu)) (store_blocks request)) = request" .
  show "map (\<lambda>apdu. (apdu ! 2, apdu ! 3)) (store_blocks request)
      = map (\<lambda>i. (if Suc i = block_count request then 0x91 else 0x11, of_nat i)) [0..<block_count request]"
    by (simp add: store_blocks_def block_data)
qed

subsection \<open>Sequence numbers\<close>

lemma strip_zeros_foldl:
  "foldl (\<lambda>value octet. push_bit 8 value OR ucast octet) (0 :: 64 word) (strip_zeros bs)
   = foldl (\<lambda>value octet. push_bit 8 value OR ucast octet) 0 bs"
  by (induction bs rule: strip_zeros.induct) simp_all

lemma strip_zeros_shape: "bs \<noteq> [] \<Longrightarrow> strip_zeros bs \<noteq> [] \<and> length (strip_zeros bs) \<le> length bs"
  by (induction bs rule: strip_zeros.induct) auto

lemma octet_step: "push_bit 8 (drop_bit (k + 8) n) OR ucast (ucast (drop_bit k n) :: byte) = drop_bit k (n :: 64 word)"
proof (rule bit_word_eqI)
  fix i
  show "bit (push_bit 8 (drop_bit (k + 8) n) OR ucast (ucast (drop_bit k n) :: byte)) i = bit (drop_bit k n) i"
    if "i < LENGTH(64)"
    using that by (cases "i < 8") (auto simp: bit_simps add.commute add.left_commute)
qed

lemma octets_foldl: "foldl (\<lambda>value octet. push_bit 8 value OR ucast octet) 0 (be64_octets n) = n"
proof -
  have l: "be64_octets n = [ucast (drop_bit 56 n), ucast (drop_bit 48 n), ucast (drop_bit 40 n), ucast (drop_bit 32 n),
      ucast (drop_bit 24 n), ucast (drop_bit 16 n), ucast (drop_bit 8 n), ucast (drop_bit 0 n)]"
    by (simp add: be64_octets_def upt_rec)
  have z: "drop_bit 64 n = 0" by (rule bit_word_eqI) (simp add: bit_simps)
  have "push_bit 8 0 OR ucast (ucast (drop_bit 56 n) :: byte) = drop_bit 56 n" using octet_step [of 56 n] z by simp
  then show ?thesis
    using octet_step [of 48 n] octet_step [of 40 n] octet_step [of 32 n] octet_step [of 24 n]
      octet_step [of 16 n] octet_step [of 8 n] octet_step [of 0 n]
    by (simp add: l)
qed

lemma positive_integer_roundtrip: "decodePositiveInteger (encodePositiveInteger n) = Some n"
proof (cases "n = 0")
  case False
  let ?e = "strip_zeros (be64_octets n)"
  have e: "?e \<noteq> []" "length ?e \<le> 8" using strip_zeros_shape [of "be64_octets n"] by (simp_all add: be64_octets_def)
  have f: "foldl (\<lambda>value octet. push_bit 8 value OR ucast octet) 0 ?e = n" by (simp add: strip_zeros_foldl octets_foldl)
  have g: "foldl (\<lambda>value octet. push_bit 8 value OR ucast octet) (0 :: 64 word) (0 # bs) =
     foldl (\<lambda>value octet. push_bit 8 value OR ucast octet) 0 bs" for bs :: "byte list" by simp
  show ?thesis using False e f g
    by (simp add: encodePositiveInteger_def decodePositiveInteger_def Let_def)
qed (simp add: encodePositiveInteger_def decodePositiveInteger_def)

lemma length_positive_integer: "length (encodePositiveInteger n) \<le> 9"
  using strip_zeros_shape [of "be64_octets n"] by (simp add: encodePositiveInteger_def Let_def be64_octets_def)

text \<open>
  The sequence number of a notification is never changed on its way: every 64-bit number comes
  back from its minimal positive encoding, and the request that removes a notification from the card
  is one element that carries the number.
\<close>

theorem esim_sequence_roundtrip:
  "decodePositiveInteger (encodePositiveInteger n) = Some n
   \<and> (\<exists>v w. derParse (buildRemoveNotificationRequest n) = [DerNode 0xBF30 v [DerNode 0x80 w []]]
        \<and> decodePositiveInteger w = Some n)"
proof
  show "decodePositiveInteger (encodePositiveInteger n) = Some n" by (rule positive_integer_roundtrip)
  let ?c = "DerNode 0x80 (encodePositiveInteger n) []"
  have "derParse (derConstruct 0xBF30 (map node_bytes [?c])) = [DerNode 0xBF30 (concat (map node_bytes [?c])) [?c]]"
    using length_positive_integer [of n] length_node_bytes [of ?c]
    by (intro construct_parses) (simp_all add: tags_ok tags_constructed)
  then have "derParse (buildRemoveNotificationRequest n) = [DerNode 0xBF30 (concat (map node_bytes [?c])) [?c]]"
    by (simp add: buildRemoveNotificationRequest_def node_bytes_def)
  with positive_integer_roundtrip [of n]
  show "\<exists>v w. derParse (buildRemoveNotificationRequest n) = [DerNode 0xBF30 v [DerNode 0x80 w []]]
      \<and> decodePositiveInteger w = Some n" by blast
qed

subsection \<open>Safety\<close>

lemma element_cases:
  obtains e where "derElementAt bytes offset = Inl (Fail e)"
  | t h n where "derElementAt bytes offset = Inr (t, h, n)" "2 \<le> h" "h \<le> n" "offset + n \<le> length bytes"
proof (cases "derElementAt bytes offset")
  case (Inl f)
  then show ?thesis using safe_derElementAt [of bytes offset] that(1) by (auto simp: safe_Inl_iff)
next
  case (Inr a)
  then show ?thesis using that(2) derElementAt_bounds by (cases a) fastforce
qed

lemma safe_find_package: "safe (find_package bpp offset)"
proof (induction bpp offset rule: find_package.induct)
  case (1 bpp offset)
  then show ?case
    by (cases rule: element_cases [of bpp offset]) (subst find_package.simps, auto)+
qed

lemma safe_child_segments: "safe (child_segments bpp child childEnd)"
proof (induction bpp child childEnd rule: child_segments.induct)
  case (1 bpp child childEnd)
  then show ?case
    by (cases rule: element_cases [of bpp child]) (subst child_segments.simps, auto simp: slice_Inr_iff)+
qed

lemma safe_top_segments: "safe (top_segments bpp cursor valueEnd)"
proof (induction bpp cursor valueEnd rule: top_segments.induct)
  case (1 bpp cursor valueEnd)
  then show ?case
    by (cases rule: element_cases [of bpp cursor])
      (subst top_segments.simps, auto simp: slice_Inr_iff safe_child_segments)+
qed

lemma find_package_bounds:
  "find_package bpp offset = Inr (start, h, n) \<Longrightarrow> start + h \<le> length bpp \<and> h \<le> n"
proof (induction bpp offset rule: find_package.induct)
  case (1 bpp offset)
  then show ?case
    by (subst (asm) (2) find_package.simps) (auto split: sum.splits if_splits dest: derElementAt_bounds)
qed

lemma safe_segmentBoundProfilePackage: "safe (segmentBoundProfilePackage bpp)"
  by (auto simp: segmentBoundProfilePackage_def Let_def safe_find_package safe_derElementAt safe_top_segments
      dest: derElementAt_bounds find_package_bounds)

lemma safe_installationResult: "safe (installationResult payload)"
  by (auto simp: installationResult_def Let_def split: list.split option.split)

lemma safe_notificationFromMetadata: "safe (notificationFromMetadata metadata)"
  by (auto simp: notificationFromMetadata_def Let_def split: option.split)

lemma safe_parsePendingNotification: "safe (parsePendingNotification bytes)"
  by (auto simp: parsePendingNotification_def safe_notificationFromMetadata split: list.split)

lemma safe_pending_loop: "safe (pending_loop v offset)"
proof (induction v offset rule: pending_loop.induct)
  case (1 v offset)
  then show ?case
    by (cases rule: element_cases [of v offset])
      (subst pending_loop.simps, auto simp: slice_Inr_iff safe_parsePendingNotification)+
qed

lemma safe_response_value: "safe (response_value payload t err)"
  using safe_derElementAt [of payload 0]
  by (auto simp: response_value_def safe_Inl_iff split: sum.split fault.split dest: derElementAt_bounds)

lemma safe_parsePendingNotifications: "safe (parsePendingNotifications payload)"
  using safe_derElementAt [of _ 0]
  by (auto simp: parsePendingNotifications_def Let_def safe_response_value safe_pending_loop
      split: option.split sum.split fault.split)

lemma safe_parseNotificationMetadataList: "safe (parseNotificationMetadataList payload)"
  by (auto simp: parseNotificationMetadataList_def Let_def safe_response_value safe_notificationFromMetadata
      safe_rmap split: option.split)

lemma safe_removeNotificationResult: "safe (removeNotificationResult payload)"
  by (auto simp: removeNotificationResult_def Let_def split: list.split option.split)

text \<open>
  No answer of a card or a server makes an eSIM parser fail: for any octets the element decoders,
  the segmenter of profile packages and the parsers of installation results, notifications,
  notification lists and removal results return a value or an error; no index or slice is out of range.
\<close>

theorem esim_parsers_total:
  "safe (derElementAt bytes offset) \<and> safe (derDecodeOne bytes offset) \<and> safe (segmentBoundProfilePackage bytes)
   \<and> safe (installationResult bytes) \<and> safe (parsePendingNotifications bytes)
   \<and> safe (parseNotificationMetadataList bytes) \<and> safe (removeNotificationResult bytes)"
  by (intro conjI safe_derElementAt safe_derDecodeOne safe_segmentBoundProfilePackage safe_installationResult
      safe_parsePendingNotifications safe_parseNotificationMetadataList safe_removeNotificationResult)

subsection \<open>The profile list\<close>

lemma profiles_loop_seen:
  "p \<in> set (profiles_loop T records seen) \<Longrightarrow> validProfileICCID (ep_ICCID p) \<and> ep_ICCID p \<notin> set seen"
  by (induction T records seen rule: profiles_loop.induct) (auto simp: Let_def split: if_splits)

lemma profiles_loop_distinct: "distinct (map ep_ICCID (profiles_loop T records seen))"
  by (induction T records seen rule: profiles_loop.induct) (auto simp: Let_def dest: profiles_loop_seen)

lemma profiles_loop_complete:
  "set (map ep_ICCID (profiles_loop T records seen))
   = {i. validProfileICCID i \<and> i \<notin> set seen \<and> (\<exists>n \<in> set records. ep_ICCID (profile_of T (der_children n)) = i)}"
  by (induction T records seen rule: profiles_loop.induct) (auto simp: Let_def)

lemma valid_iccid_digits:
  assumes "validProfileICCID iccid"
  shows "list_all is_digit iccid" "iccid \<noteq> []" "length iccid \<le> 20"
proof -
  from assms show "iccid \<noteq> []" "length iccid \<le> 20" by (auto simp: validProfileICCID_def)
  from assms have "list_all (\<lambda>c. \<not> (c < 48 \<or> c > 57)) iccid" by (simp add: validProfileICCID_def)
  then show "list_all is_digit iccid"
    by (rule list.pred_mono_strong) (simp add: is_digit_def word_less_nat_alt word_le_nat_alt not_less)
qed

text \<open>
  The profile list of a card names every profile that can be addressed exactly once: the ICCIDs
  listed are the well-formed ones of the answer, without repetition, and the request that enables a
  listed profile is built and carries its ICCID.
\<close>

theorem esim_profiles_addressable:
  "distinct (map ep_ICCID (parseProfilesInfo T payload))
   \<and> set (map ep_ICCID (parseProfilesInfo T payload))
     = {i. validProfileICCID i \<and> (\<exists>n \<in> set (derFindAll (derParse payload) 0xE3). ep_ICCID (profile_of T (der_children n)) = i)}
   \<and> list_all (\<lambda>p. \<exists>request u bcd. buildEnableProfileRequest (ep_ICCID p) = Inr request
       \<and> derParse request = [DerNode 0xBF31 u [profile_id bcd, DerNode 0x81 [0xFF] []]]
       \<and> decodeICCID bcd = ep_ICCID p) (parseProfilesInfo T payload)"
proof (intro conjI)
  show "distinct (map ep_ICCID (parseProfilesInfo T payload))"
    by (simp add: parseProfilesInfo_def profiles_loop_distinct)
  show "set (map ep_ICCID (parseProfilesInfo T payload))
     = {i. validProfileICCID i \<and> (\<exists>n \<in> set (derFindAll (derParse payload) 0xE3). ep_ICCID (profile_of T (der_children n)) = i)}"
    by (simp add: parseProfilesInfo_def profiles_loop_complete del: set_map)
  have "\<exists>request u bcd. buildEnableProfileRequest (ep_ICCID p) = Inr request
       \<and> derParse request = [DerNode 0xBF31 u [profile_id bcd, DerNode 0x81 [0xFF] []]] \<and> decodeICCID bcd = ep_ICCID p"
    if "p \<in> set (parseProfilesInfo T payload)" for p
  proof -
    have "validProfileICCID (ep_ICCID p)" using that profiles_loop_seen by (simp add: parseProfilesInfo_def)
    note d = valid_iccid_digits [OF this]
    obtain bcd where bcd: "encodeICCID (ep_ICCID p) = Inr bcd" "length bcd = 10" "decodeICCID bcd = ep_ICCID p"
      using encodeICCID_digits [OF d] by blast
    obtain v where "derParse (derConstruct 0xBF31 [derConstruct 0xA0 [derEncode 0x5A bcd], derEncode 0x81 [0xFF]])
        = [DerNode 0xBF31 v [profile_id bcd, DerNode 0x81 [0xFF] []]]"
      using flagged_request [OF bcd(2)] tags_ok tags_constructed by blast
    with bcd show ?thesis
      by (auto simp: buildEnableProfileRequest_def buildEnableProfileRequestWithRefresh_def Let_def refresh_flag_def)
  qed
  then show "list_all (\<lambda>p. \<exists>request u bcd. buildEnableProfileRequest (ep_ICCID p) = Inr request
       \<and> derParse request = [DerNode 0xBF31 u [profile_id bcd, DerNode 0x81 [0xFF] []]]
       \<and> decodeICCID bcd = ep_ICCID p) (parseProfilesInfo T payload)"
    by (simp add: list_all_iff)
qed

subsection \<open>Notifications in order\<close>

text \<open>The attempts for one receiver: its notifications in order, up to and including the first failure.\<close>

fun attempts_in_order :: "'n list \<Rightarrow> ('n \<times> bool) list \<Rightarrow> bool" where
  "attempts_in_order [] attempts \<longleftrightarrow> attempts = []"
| "attempts_in_order (n # ns) [] \<longleftrightarrow> False"
| "attempts_in_order (n # ns) ((m, ok) # attempts) \<longleftrightarrow>
     m = n \<and> (if ok then attempts_in_order ns attempts else attempts = [])"

abbreviation for_receiver :: "gostring \<Rightarrow> (EsimNotification \<times> bool) list \<Rightarrow> (EsimNotification \<times> bool) list" where
  "for_receiver a attempts \<equiv> filter (\<lambda>(n, ok). Address n = a) attempts"

lemma deliver_loop_order:
  "for_receiver a (fst (deliver_loop retrieve deliver s ns blocked)) = [] \<and> a \<in> set blocked
   \<or> attempts_in_order (filter (\<lambda>n. Address n = a) ns) (for_receiver a (fst (deliver_loop retrieve deliver s ns blocked)))
     \<and> a \<notin> set blocked"
proof (induction ns arbitrary: s blocked)
  case (Cons n ns)
  show ?case
  proof (cases "Address n \<in> set blocked")
    case True
    then show ?thesis using Cons [of s blocked] by auto
  next
    case False
    let ?ok = "\<lambda>p. case p of (pending, s) \<Rightarrow> (case pending of Inl _ \<Rightarrow> (False, s)
        | Inr candidates \<Rightarrow> (case List.find (\<lambda>c. SequenceNumber c = SequenceNumber n) candidates of
              None \<Rightarrow> (False, s) | Some candidate \<Rightarrow> deliver s candidate))"
    obtain ok s' where step: "?ok (retrieve s (SequenceNumber n)) = (ok, s')" by fastforce
    let ?blocked = "if ok then blocked else Address n # blocked"
    obtain tried t where rest: "deliver_loop retrieve deliver s' ns ?blocked = (tried, t)" by fastforce
    have "fst (deliver_loop retrieve deliver s (n # ns) blocked) = (n, ok) # tried"
      using False step rest by (auto simp: Let_def split: prod.splits)
    then show ?thesis using Cons [of s' ?blocked] rest False by (cases ok) auto
  qed
qed simp

text \<open>
  C21: notifications of one receiver never overtake each other: whatever the card and the network
  answer, the attempts for a receiver are its notifications in the order of their sequence numbers,
  from the first up to and including the first that fails; nothing is tried after a failure, and
  every notification is tried when none fails.
\<close>

theorem esim_notifications_in_order:
  "attempts_in_order (filter (\<lambda>n. Address n = a) (sort_notifications pending))
     (for_receiver a (fst (deliver_loop retrieve deliver s (sort_notifications pending) [])))
   \<and> sorted (map SequenceNumber (filter (\<lambda>n. Address n = a) (sort_notifications pending)))
   \<and> mset (sort_notifications pending) = mset pending"
proof (intro conjI)
  show "attempts_in_order (filter (\<lambda>n. Address n = a) (sort_notifications pending))
     (for_receiver a (fst (deliver_loop retrieve deliver s (sort_notifications pending) [])))"
    using deliver_loop_order [of a retrieve deliver s "sort_notifications pending" "[]"] by simp
  have "sorted (map (\<lambda>n. (Address n, SequenceNumber n)) (filter (\<lambda>n. Address n = a) (sort_notifications pending)))"
    unfolding sort_notifications_def by (rule sorted_filter) (rule sorted_sort_key)
  moreover have "map (\<lambda>n. (Address n, SequenceNumber n)) (filter (\<lambda>n. Address n = a) (sort_notifications pending))
      = map (Pair a) (map SequenceNumber (filter (\<lambda>n. Address n = a) (sort_notifications pending)))"
    by simp
  ultimately show "sorted (map SequenceNumber (filter (\<lambda>n. Address n = a) (sort_notifications pending)))"
    by (simp only: sorted_map) (simp add: sorted_wrt_map)
  show "mset (sort_notifications pending) = mset pending" by (simp add: sort_notifications_def)
qed


end
