(* ===== verification/Vowifi_Types.thy ===== *)
theory Vowifi_Types
  imports Go_Parse
begin

text \<open>
  Shared types of \<open>internal/vowifi\<close> (\<open>types.go\<close>): Go errors with the sentinels they wrap, the SIM
  identity and its validation, and the string helpers the package uses.
\<close>

subsection \<open>Strings\<close>

text \<open>Go's Unicode tables: case mapping and simple folding of runes.\<close>

record unicode_env =
  uc_upper :: "rune \<Rightarrow> rune"
  uc_lower :: "rune \<Rightarrow> rune"
  uc_fold :: "rune \<Rightarrow> rune \<Rightarrow> bool"

abbreviation upper :: "unicode_env \<Rightarrow> gostring \<Rightarrow> gostring" where
  "upper U s \<equiv> to_upper (uc_upper U) s"

abbreviation lower :: "unicode_env \<Rightarrow> gostring \<Rightarrow> gostring" where
  "lower U s \<equiv> to_lower (uc_lower U) s"

definition plain_unicode :: unicode_env where
  "plain_unicode =
     \<lparr>uc_upper = (\<lambda>r. if 97 \<le> r \<and> r \<le> 122 then r - 32 else r),
      uc_lower = (\<lambda>r. if 65 \<le> r \<and> r \<le> 90 then r + 32 else r),
      uc_fold = (\<lambda>r s. (if 97 \<le> r \<and> r \<le> 122 then r - 32 else r) = (if 97 \<le> s \<and> s \<le> 122 then s - 32 else s))\<rparr>"

text \<open>\<open>strings.EqualFold\<close>, and the functions of \<open>strings\<close> for ASCII arguments.\<close>

definition equal_fold :: "unicode_env \<Rightarrow> gostring \<Rightarrow> gostring \<Rightarrow> bool" where
  "equal_fold U s t \<longleftrightarrow> list_all2 (uc_fold U) (runes_of s) (runes_of t)"

definition has_suffix :: "gostring \<Rightarrow> gostring \<Rightarrow> bool" where
  "has_suffix s p \<longleftrightarrow> length p \<le> length s \<and> drop (length s - length p) s = p"

definition trim_suffix :: "gostring \<Rightarrow> gostring \<Rightarrow> gostring" where
  "trim_suffix s p = (if has_suffix s p then take (length s - length p) s else s)"

fun joined :: "gostring \<Rightarrow> gostring list \<Rightarrow> gostring" where
  "joined sep [] = []"
| "joined sep [x] = x"
| "joined sep (x # xs) = x @ sep @ joined sep xs"

text \<open>Trimming twice is trimming once.\<close>

lemma utf8_first_append: "utf8_first s = Some r \<Longrightarrow> utf8_first (s @ t) = Some r"
  by (cases s) (auto simp: utf8_first_def Let_def split: if_splits list.splits)

lemma space_prefix_take: "space_prefix s = 0 \<Longrightarrow> space_prefix (take k s) = 0"
proof (cases "utf8_first (take k s)")
  case (Some r)
  assume "space_prefix s = 0"
  moreover have "utf8_first s = Some r" using utf8_first_append [OF Some, of "drop k s"] by simp
  ultimately show ?thesis using Some by (simp add: space_prefix_def)
qed (simp add: space_prefix_def)

lemma space_prefix_trim_left: "space_prefix (trim_left s) = 0"
proof (induction s rule: trim_left.induct)
  case (1 s)
  then show ?case by (subst trim_left.simps) simp
qed

lemma trim_right_take: "\<exists>k. trim_right s = take k s"
proof (induction s rule: trim_right.induct)
  case (1 s)
  show ?case
  proof (cases "space_suffix s = 0")
    case True
    then show ?thesis by (subst trim_right.simps) (auto intro: exI [of _ "length s"])
  next
    case False
    then show ?thesis using 1 by (subst trim_right.simps) auto
  qed
qed

lemma space_suffix_trim_right: "space_suffix (trim_right s) = 0"
proof (induction s rule: trim_right.induct)
  case (1 s)
  then show ?case by (subst trim_right.simps) simp
qed

lemma trim_space_twice [simp]: "trim_space (trim_space s) = trim_space s"
proof -
  obtain k where k: "trim_right (trim_left s) = take k (trim_left s)" using trim_right_take by blast
  have "space_prefix (trim_right (trim_left s)) = 0"
    unfolding k by (rule space_prefix_take) (rule space_prefix_trim_left)
  then have "trim_left (trim_right (trim_left s)) = trim_right (trim_left s)" by (subst trim_left.simps) simp
  moreover have "trim_right (trim_right (trim_left s)) = trim_right (trim_left s)"
    by (subst (1) trim_right.simps) (simp add: space_suffix_trim_right)
  ultimately show ?thesis by (simp add: trim_space_def)
qed

lemma trim_space_Nil [simp]: "trim_space [] = []"
  by (rule trim_space_graphic) (simp add: graphic_def)

text \<open>\<open>isNDigits\<close>; a rune that is no ASCII digit has no byte that is one.\<close>

definition isNDigits :: "gostring \<Rightarrow> nat \<Rightarrow> nat \<Rightarrow> bool" where
  "isNDigits v0 minimum maximum =
     (let v = trim_space v0 in
      if length v < minimum \<or> length v > maximum then False
      else list_all is_digit v)"

definition decimalString :: "gostring \<Rightarrow> bool" where
  "decimalString v \<longleftrightarrow> v \<noteq> [] \<and> list_all is_digit v"

definition hexString :: "gostring \<Rightarrow> bool" where
  "hexString v \<longleftrightarrow> list_all (\<lambda>b. hex_val b \<noteq> None) v \<and> v \<noteq> []"

subsection \<open>Errors\<close>

text \<open>
  An error is its text, the sentinels \<open>errors.Is\<close> finds in its chain, and whether the chain holds a
  network error that reports a timeout.
\<close>

datatype sentinel =
    Canceled | DeadlineExceeded
  | ErrAlreadyEnabled | ErrNotRunning | ErrRetryRequiresFailure | ErrInvalidIdentity | ErrTunnelNotEstablished
  | ErrIMSNotRegistered | ErrSMSNotReady | ErrUSSINotReady | ErrUSSISessionNotFound
  | ErrEAPAuthenticationRejected
  | ErrResponderAUTHRequired | ErrCleanupIncomplete

record goerror =
  err_text :: gostring
  err_chain :: "sentinel list"
  err_timeout :: bool

abbreviation plain_error :: "string \<Rightarrow> goerror" where
  "plain_error s \<equiv> \<lparr>err_text = str s, err_chain = [], err_timeout = False\<rparr>"

definition sentinel_text :: "sentinel \<Rightarrow> gostring" where
  "sentinel_text e = (case e of
     Canceled \<Rightarrow> str ''context canceled''
   | DeadlineExceeded \<Rightarrow> str ''context deadline exceeded''
   | ErrAlreadyEnabled \<Rightarrow> str ''vowifi: already enabled''
   | ErrNotRunning \<Rightarrow> str ''vowifi: not running''
   | ErrRetryRequiresFailure \<Rightarrow> str ''vowifi: retry requires failed state''
   | ErrInvalidIdentity \<Rightarrow> str ''vowifi: invalid SIM identity''
   | ErrTunnelNotEstablished \<Rightarrow> str ''vowifi: tunnel is not established''
   | ErrIMSNotRegistered \<Rightarrow> str ''vowifi: IMS is not registered''
   | ErrSMSNotReady \<Rightarrow> str ''vowifi: SMS over IMS is not ready''
   | ErrUSSINotReady \<Rightarrow> str ''vowifi: USSI over IMS is not ready''
   | ErrUSSISessionNotFound \<Rightarrow> str ''vowifi: USSI session not found or already closed''
   | ErrEAPAuthenticationRejected \<Rightarrow> str ''vowifi: EAP-AKA authentication rejected''
   | ErrResponderAUTHRequired \<Rightarrow> str ''vowifi: verified IKE responder AUTH is required''
   | ErrCleanupIncomplete \<Rightarrow> str ''vowifi: cleanup incomplete'')"

definition sentinel_error :: "sentinel \<Rightarrow> goerror" where
  "sentinel_error e = \<lparr>err_text = sentinel_text e, err_chain = [e], err_timeout = (e = DeadlineExceeded)\<rparr>"

text \<open>\<open>fmt.Errorf("%w: ...", e)\<close>.\<close>

definition wrap_sentinel :: "sentinel \<Rightarrow> gostring \<Rightarrow> goerror" where
  "wrap_sentinel e detail =
     \<lparr>err_text = sentinel_text e @ str '': '' @ detail, err_chain = [e], err_timeout = (e = DeadlineExceeded)\<rparr>"

subsection \<open>The SIM identity\<close>

record SIMIdentity =
  id_ICCID :: gostring
  id_IMSI :: gostring
  id_IMEI :: gostring
  HomeMCC :: gostring
  HomeMNC :: gostring
  HomeCountryCode :: gostring
  id_SPN :: gostring
  GID1 :: gostring
  GID2 :: gostring
  id_EPDG :: gostring
  SMSC :: gostring

definition identity_validate :: "SIMIdentity \<Rightarrow> goerror option" where
  "identity_validate identity =
     (if trim_space (id_ICCID identity) = [] then Some (wrap_sentinel ErrInvalidIdentity (str ''ICCID is empty''))
      else if \<not> isNDigits (HomeMCC identity) 3 3
      then Some (wrap_sentinel ErrInvalidIdentity (str ''home MCC must contain three digits''))
      else if \<not> isNDigits (HomeMNC identity) 2 3
      then Some (wrap_sentinel ErrInvalidIdentity (str ''home MNC must contain two or three digits''))
      else None)"

end
