(* ===== verification/Carrier.thy ===== *)
theory Carrier
  imports Vowifi_Types "HOL-Library.List_Lexorder"
begin

text \<open>
  Carrier profiles (\<open>carrier_compat.go\<close>): the rules of the embedded and installed documents, their
  validation, the choice of the most specific rule for a SIM, the profile a rule gives, and the
  routes and ePDG names derived from it.  The JSON decoder, the time zone database and the Unicode
  tables are arguments.
\<close>

subsection \<open>Profiles and rules\<close>

definition CarrierProfileStandard :: gostring where "CarrierProfileStandard = str ''standard-3gpp''"
definition IKEProposalModern :: gostring where "IKEProposalModern = str ''modern''"
definition IKEProposalLegacy :: gostring where "IKEProposalLegacy = str ''legacy-sha1-modp1024''"
definition IMSProfileStandard :: gostring where "IMSProfileStandard = str ''standard''"
definition IMSProfileATT :: gostring where "IMSProfileATT = str ''att''"

record SubscriberIMSIRewrite =
  FromPrefix :: gostring
  ToPrefix :: gostring

record IMSRegisterOptions =
  ContactFormat :: gostring
  ContactUserSource :: gostring
  InstanceIDFormat :: gostring
  InstanceIDFallback :: gostring
  ExpirySeconds :: int
  ContactExtraTags :: "gostring list"
  SupportedHeader :: "gostring option"
  AllowHeader :: "gostring option"
  PPreferredIdentity :: bool
  PVisitedNetworkID :: gostring
  PAccessNetworkInfo :: "gostring option"
  CellularNetworkInfo :: gostring
  AcceptContactTags :: "gostring list"

record CarrierProfile =
  cp_ID :: gostring
  MatchSource :: gostring
  cp_Rewrite :: SubscriberIMSIRewrite
  RouteMCC :: gostring
  RouteMNC :: gostring
  EPDG :: gostring
  IKEProposal :: gostring
  AdvertiseEAPOnly :: bool
  AllowSMSWithoutContactConfirmation :: bool
  cp_RegisterOptions :: IMSRegisterOptions
  IMSTransport :: gostring
  IMSIdentityProfile :: gostring
  IMSRegisterProfile :: gostring
  IMSIPSecMode :: gostring
  IMSIPSecEncryption :: gostring
  SMSCenter :: gostring
  SMSZeroSCTSTimezone :: gostring
  PANIEnabled :: "bool option"
  PANICountry :: gostring
  PANINode :: gostring
  IMSUserAgent :: gostring
  IMSDialURIScheme :: gostring
  IMSUserEqPhone :: bool
  IMSVoiceCodecs :: "gostring list"

record carrierProfileMatch =
  HomePLMNs :: "gostring list"
  RequireHomePLMN :: bool
  RequireICCID :: bool
  IMSIPrefixes :: "gostring list"
  ICCIDPrefixes :: "gostring list"
  SPNs :: "gostring list"
  GID1Prefixes :: "gostring list"
  GID2Prefixes :: "gostring list"

record carrierProfileRoute =
  rt_MCC :: gostring
  rt_MNC :: gostring

record carrierProfileEPDG =
  Hostname :: gostring
  DNSHosts :: "gostring list"
  DNSClientSubnet :: gostring

record carrierProfileIKE =
  ik_Proposal :: gostring
  ik_AdvertiseEAPOnly :: "bool option"

record carrierProfileIMS =
  im_Transport :: gostring
  IdentityProfile :: gostring
  RegisterProfile :: gostring
  IPSecMode :: gostring
  IPSecEncryption :: gostring
  im_SMSCenter :: gostring
  im_PANIEnabled :: "bool option"
  im_PANICountry :: gostring
  im_PANINode :: gostring
  UserAgent :: gostring
  DialURIScheme :: gostring
  UserEqPhone :: "bool option"
  VoiceCodecs :: "gostring list"
  RegisterOptions :: IMSRegisterOptions
  im_AllowSMS :: "bool option"

record carrierProfileRule =
  ru_ID :: gostring
  Match :: carrierProfileMatch
  MatchAny :: "carrierProfileMatch list"
  ru_Rewrite :: SubscriberIMSIRewrite
  Route :: carrierProfileRoute
  ru_EPDG :: carrierProfileEPDG
  IKE :: carrierProfileIKE
  IMS :: carrierProfileIMS
  ZeroSCTSTimezone :: gostring

record carrierProfileDocument =
  Version :: int
  Profiles :: "carrierProfileRule list"

subsection \<open>PLMN identities\<close>

text \<open>A short MNC is padded with zeros to three digits.\<close>

definition pad_mnc :: "gostring \<Rightarrow> gostring" where
  "pad_mnc mnc = replicate (3 - length mnc) 48 @ mnc"

definition canonicalPLMN :: "gostring \<Rightarrow> gostring \<Rightarrow> gostring" where
  "canonicalPLMN mcc0 mnc0 =
     (let mcc = trim_space mcc0; mnc = trim_space mnc0 in
      if \<not> isNDigits mcc 3 3 \<or> \<not> isNDigits mnc 2 3 then []
      else mcc @ pad_mnc mnc)"

definition canonicalPLMNValue :: "gostring \<Rightarrow> gostring" where
  "canonicalPLMNValue v0 =
     (let v = trim_space (filter (\<lambda>b. b \<noteq> 47) v0) in
      if length v \<noteq> 5 \<and> length v \<noteq> 6 then [] else canonicalPLMN (take 3 v) (drop 3 v))"

definition standardEPDGHostname :: "gostring \<Rightarrow> gostring \<Rightarrow> gostring" where
  "standardEPDGHostname mcc mnc =
     str ''epdg.epc.mnc'' @ pad_mnc (trim_space mnc) @ str ''.mcc'' @ trim_space mcc @ str ''.pub.3gppnetwork.org''"

subsection \<open>Validation\<close>

definition emptyCarrierProfileMatch :: "carrierProfileMatch \<Rightarrow> bool" where
  "emptyCarrierProfileMatch m \<longleftrightarrow>
     length (HomePLMNs m) + length (IMSIPrefixes m) + length (ICCIDPrefixes m)
     + length (SPNs m) + length (GID1Prefixes m) + length (GID2Prefixes m) = 0"

text \<open>The selectors of a rule, in the order they are tried.\<close>

definition rule_matches :: "carrierProfileRule \<Rightarrow> carrierProfileMatch list" where
  "rule_matches rule =
     (if \<not> emptyCarrierProfileMatch (Match rule) then [Match rule] else []) @ MatchAny rule"

text \<open>\<open>time.LoadLocation\<close> succeeds for the zone.\<close>

definition validSMSTimestampTimezone :: "(gostring \<Rightarrow> bool) \<Rightarrow> gostring \<Rightarrow> bool" where
  "validSMSTimestampTimezone zones v =
     (let name = trim_space v in
      if name = [] then True else if name = str ''Local'' then False else zones name)"

definition valid_match :: "carrierProfileMatch \<Rightarrow> bool" where
  "valid_match m \<longleftrightarrow>
     \<not> emptyCarrierProfileMatch m
     \<and> \<not> (RequireHomePLMN m \<and> HomePLMNs m = [])
     \<and> \<not> (RequireICCID m \<and> ICCIDPrefixes m = [])
     \<and> list_all (\<lambda>plmn. canonicalPLMNValue plmn \<noteq> []) (HomePLMNs m)
     \<and> list_all (\<lambda>p. \<not> (length p < 5 \<or> length p > 18 \<or> \<not> decimalString p)) (IMSIPrefixes m)
     \<and> list_all (\<lambda>p. \<not> (length p < 5 \<or> length p > 22 \<or> \<not> decimalString p)) (ICCIDPrefixes m)
     \<and> list_all (\<lambda>p. \<not> (length p < 1 \<or> length p > 64 \<or> \<not> hexString p)) (GID1Prefixes m @ GID2Prefixes m)
     \<and> list_all (\<lambda>spn. \<not> (trim_space spn = [] \<or> length spn > 128)) (SPNs m)"

definition valid_rewrite :: "SubscriberIMSIRewrite \<Rightarrow> bool" where
  "valid_rewrite rewrite \<longleftrightarrow>
     (let fromPrefix = trim_space (FromPrefix rewrite); toPrefix = trim_space (ToPrefix rewrite) in
      \<not> ((fromPrefix = []) \<noteq> (toPrefix = [])
         \<or> fromPrefix \<noteq> [] \<and> (length fromPrefix < 5 \<or> length fromPrefix > 15
              \<or> length fromPrefix \<noteq> length toPrefix \<or> \<not> decimalString fromPrefix \<or> \<not> decimalString toPrefix)))"

definition one_of :: "gostring \<Rightarrow> string list \<Rightarrow> bool" where
  "one_of v choices \<longleftrightarrow> v = [] \<or> v \<in> set (map str choices)"

definition no_line_break :: "gostring \<Rightarrow> bool" where
  "no_line_break v \<longleftrightarrow> \<not> contains_any v [13, 10]"

definition valid_register_options :: "unicode_env \<Rightarrow> IMSRegisterOptions \<Rightarrow> bool" where
  "valid_register_options U options \<longleftrightarrow>
     (let instanceFormat = lower U (trim_space (InstanceIDFormat options));
          fallback = lower U (trim_space (InstanceIDFallback options)) in
      \<not> (ExpirySeconds options \<noteq> 0 \<and> (ExpirySeconds options < 60 \<or> ExpirySeconds options > 86400))
      \<and> one_of (lower U (trim_space (ContactFormat options))) [''standard'', ''att'', ''gsma'']
      \<and> one_of (lower U (trim_space (ContactUserSource options))) [''public-identity'', ''stable-instance'']
      \<and> one_of instanceFormat [''uuid'', ''gsma-imei'']
      \<and> one_of fallback [''uuid'', ''zero-imei'']
      \<and> \<not> (fallback = str ''zero-imei'' \<and> instanceFormat \<noteq> str ''gsma-imei'')
      \<and> list_all no_line_break (ContactExtraTags options)
      \<and> list_all (\<lambda>v. case v of None \<Rightarrow> True | Some s \<Rightarrow> no_line_break s)
          [SupportedHeader options, AllowHeader options, PAccessNetworkInfo options]
      \<and> no_line_break (PVisitedNetworkID options) \<and> no_line_break (CellularNetworkInfo options)
      \<and> list_all no_line_break (AcceptContactTags options))"

definition valid_country :: "gostring \<Rightarrow> bool" where
  "valid_country country \<longleftrightarrow>
     country = [] \<or> country = str ''AUTO''
     \<or> length country = 2 \<and> list_all (\<lambda>b. \<not> (b < 65 \<or> b > 90)) country"

definition validCarrierProfileRule :: "unicode_env \<Rightarrow> (gostring \<Rightarrow> bool) \<Rightarrow> carrierProfileRule \<Rightarrow> bool" where
  "validCarrierProfileRule U zones rule \<longleftrightarrow>
     validSMSTimestampTimezone zones (ZeroSCTSTimezone rule)
     \<and> rule_matches rule \<noteq> [] \<and> list_all valid_match (rule_matches rule)
     \<and> \<not> ((rt_MCC (Route rule) = []) \<noteq> (rt_MNC (Route rule) = [])
          \<or> rt_MCC (Route rule) \<noteq> [] \<and> canonicalPLMN (rt_MCC (Route rule)) (rt_MNC (Route rule)) = [])
     \<and> valid_rewrite (ru_Rewrite rule)
     \<and> (let proposal = trim_space (ik_Proposal (IKE rule)) in
          \<not> (proposal \<noteq> [] \<and> proposal \<noteq> IKEProposalModern \<and> proposal \<noteq> IKEProposalLegacy))
     \<and> one_of (lower U (trim_space (im_Transport (IMS rule)))) [''tcp'', ''udp'']
     \<and> one_of (lower U (trim_space (IPSecEncryption (IMS rule)))) [''aes-cbc'', ''null'']
     \<and> one_of (lower U (trim_space (IPSecMode (IMS rule)))) [''required'', ''optional'', ''disabled'']
     \<and> valid_country (upper U (trim_space (im_PANICountry (IMS rule))))
     \<and> one_of (lower U (trim_space (DialURIScheme (IMS rule)))) [''tel'', ''sip'']
     \<and> list_all (\<lambda>codec. upper U (trim_space codec) \<in> set (map str [''PCMA'', ''PCMU'', ''AMR'', ''AMR-WB'']))
         (VoiceCodecs (IMS rule))
     \<and> valid_register_options U (RegisterOptions (IMS rule))
     \<and> no_line_break (UserAgent (IMS rule))"

subsection \<open>Documents\<close>

datatype carrier_err =
    ErrJSON | ErrVersion int | ErrEmptyID nat | ErrDuplicateID gostring | ErrInvalidRule gostring
  | ErrDirectoryEmptyName | ErrReadDirectory | ErrTooManyEntries nat | ErrProfileFile gostring
  | ErrLoadProfile gostring carrier_err | ErrDuplicatedIn gostring gostring gostring

fun entries_of_document :: "unicode_env \<Rightarrow> (gostring \<Rightarrow> bool) \<Rightarrow> carrierProfileRule list \<Rightarrow> nat \<Rightarrow> gostring list
    \<Rightarrow> (carrier_err, carrierProfileRule list) res" where
  "entries_of_document U zones [] index seen = Inr []"
| "entries_of_document U zones (rule0 # rules) index seen =
     (let rule = rule0\<lparr>ru_ID := trim_space (ru_ID rule0)\<rparr> in
      if ru_ID rule = [] then Inl (Fail (ErrEmptyID index))
      else if ru_ID rule \<in> set seen then Inl (Fail (ErrDuplicateID (ru_ID rule)))
      else if \<not> validCarrierProfileRule U zones rule then Inl (Fail (ErrInvalidRule (ru_ID rule)))
      else rbind (entries_of_document U zones rules (index + 1) (ru_ID rule # seen)) (\<lambda>rest. Inr (rule # rest)))"

text \<open>\<open>decode\<close> is \<open>json.Unmarshal\<close> into the document type.\<close>

definition loadCarrierProfiles ::
  "unicode_env \<Rightarrow> (gostring \<Rightarrow> bool) \<Rightarrow> (byte list \<Rightarrow> carrierProfileDocument option) \<Rightarrow> byte list
     \<Rightarrow> (carrier_err, carrierProfileRule list) res" where
  "loadCarrierProfiles U zones decode encoded =
     (case decode encoded of
        None \<Rightarrow> Inl (Fail ErrJSON)
      | Some document \<Rightarrow>
          if Version document \<noteq> 1 then Inl (Fail (ErrVersion (Version document)))
          else entries_of_document U zones (Profiles document) 0 [])"

text \<open>
  A directory entry: its name, whether it is a directory or a symbolic link, the extension of the
  name, the size \<open>Info\<close> reports and the content; \<open>None\<close> where a call fails.
\<close>

record dirEntry =
  de_Name :: gostring
  de_IsDir :: bool
  de_IsSymlink :: bool
  de_Ext :: gostring
  de_Size :: "int option"
  de_Content :: "byte list option"

definition read_entry :: "dirEntry \<Rightarrow> (carrier_err, byte list) res" where
  "read_entry entry =
     (case de_Size entry of
        None \<Rightarrow> Inl (Fail (ErrProfileFile (de_Name entry)))
      | Some bytes \<Rightarrow>
          if bytes > 2 ^ 20 then Inl (Fail (ErrProfileFile (de_Name entry)))
          else (case de_Content entry of
                  None \<Rightarrow> Inl (Fail (ErrProfileFile (de_Name entry)))
                | Some encoded \<Rightarrow>
                    if length encoded > 2 ^ 20 then Inl (Fail (ErrProfileFile (de_Name entry))) else Inr encoded))"

fun add_rules :: "gostring \<Rightarrow> carrierProfileRule list \<Rightarrow> (gostring \<rightharpoonup> gostring) \<Rightarrow> carrierProfileRule list
    \<Rightarrow> (carrier_err, (gostring \<rightharpoonup> gostring) \<times> carrierProfileRule list) res" where
  "add_rules path [] seen loaded = Inr (seen, loaded)"
| "add_rules path (rule # rules) seen loaded =
     (case seen (ru_ID rule) of
        Some previous \<Rightarrow>
          if previous \<noteq> [] then Inl (Fail (ErrDuplicatedIn (ru_ID rule) previous path))
          else add_rules path rules (seen(ru_ID rule \<mapsto> path)) (loaded @ [rule])
      | None \<Rightarrow> add_rules path rules (seen(ru_ID rule \<mapsto> path)) (loaded @ [rule]))"

fun entries_loop ::
  "unicode_env \<Rightarrow> (gostring \<Rightarrow> bool) \<Rightarrow> (byte list \<Rightarrow> carrierProfileDocument option) \<Rightarrow> gostring \<Rightarrow> dirEntry list
     \<Rightarrow> (gostring \<rightharpoonup> gostring) \<Rightarrow> carrierProfileRule list \<Rightarrow> (carrier_err, carrierProfileRule list) res" where
  "entries_loop U zones decode dir [] seen loaded = Inr loaded"
| "entries_loop U zones decode dir (entry # entries) seen loaded =
     (if de_IsDir entry \<or> de_IsSymlink entry \<or> \<not> equal_fold U (de_Ext entry) (str ''.json'')
      then entries_loop U zones decode dir entries seen loaded
      else rbind (read_entry entry) (\<lambda>encoded.
        case loadCarrierProfiles U zones decode encoded of
          Inl (Fail e) \<Rightarrow> Inl (Fail (ErrLoadProfile (de_Name entry) e))
        | Inl f \<Rightarrow> Inl f
        | Inr rules \<Rightarrow>
            rbind (add_rules (dir @ [47] @ de_Name entry) rules seen loaded) (\<lambda>(seen, loaded).
              entries_loop U zones decode dir entries seen loaded)))"

datatype dir_read = DirMissing | DirError | DirEntries "dirEntry list"

text \<open>
  \<open>LoadCarrierProfileDirectory\<close>: the installed rules after the call and its error; on an error the
  rules stay as they were.
\<close>

definition LoadCarrierProfileDirectory ::
  "unicode_env \<Rightarrow> (gostring \<Rightarrow> bool) \<Rightarrow> (byte list \<Rightarrow> carrierProfileDocument option) \<Rightarrow> (gostring \<Rightarrow> dir_read) \<Rightarrow> gostring
     \<Rightarrow> carrierProfileRule list \<Rightarrow> carrier_err fault option \<times> carrierProfileRule list" where
  "LoadCarrierProfileDirectory U zones decode readDir dir0 installed =
     (let dir = trim_space dir0 in
      if dir = [] then (Some (Fail ErrDirectoryEmptyName), installed)
      else case readDir dir of
          DirMissing \<Rightarrow> (None, [])
        | DirError \<Rightarrow> (Some (Fail ErrReadDirectory), installed)
        | DirEntries entries \<Rightarrow>
            if length entries > 256 then (Some (Fail (ErrTooManyEntries (length entries))), installed)
            else case entries_loop U zones decode dir (sort_key de_Name entries) (\<lambda>_. None) [] of
                Inl e \<Rightarrow> (Some e, installed)
              | Inr loaded \<Rightarrow> (None, loaded))"

subsection \<open>Matching\<close>

text \<open>A selector: its name, weight, the values of the rule, the value of the SIM, whether case folds.\<close>

type_synonym selector = "gostring \<times> nat \<times> gostring list \<times> gostring \<times> bool"

definition selectors_of :: "carrierProfileMatch \<Rightarrow> SIMIdentity \<Rightarrow> selector list" where
  "selectors_of m identity =
     [(str ''imsi'', 80, IMSIPrefixes m, id_IMSI identity, False),
      (str ''iccid'', 70, ICCIDPrefixes m, id_ICCID identity, False),
      (str ''gid1'', 90, GID1Prefixes m, GID1 identity, True),
      (str ''gid2'', 85, GID2Prefixes m, GID2 identity, True)]"

definition selector_hits :: "unicode_env \<Rightarrow> selector \<Rightarrow> bool" where
  "selector_hits U sel =
     (case sel of (name, weight, vals, actual0, foldCase) \<Rightarrow>
        let actual = trim_space actual0 in
        actual \<noteq> [] \<and> list_ex (\<lambda>prefix0.
          let prefix = trim_space prefix0 in
          if foldCase then has_prefix (lower U actual) (lower U prefix) else has_prefix actual prefix) vals)"

text \<open>The loop over the selectors; \<open>None\<close> is the early return of no match.\<close>

fun score_loop :: "unicode_env \<Rightarrow> carrierProfileMatch \<Rightarrow> bool \<Rightarrow> selector list \<Rightarrow> nat \<Rightarrow> gostring list \<Rightarrow> bool
    \<Rightarrow> (nat \<times> gostring list \<times> bool) option" where
  "score_loop U m hasHomePLMNMatch [] score sources hasSelectorMatch = Some (score, sources, hasSelectorMatch)"
| "score_loop U m hasHomePLMNMatch ((name, weight, vals, actual, foldCase) # rest) score sources hasSelectorMatch =
     (if vals = [] then score_loop U m hasHomePLMNMatch rest score sources hasSelectorMatch
      else if selector_hits U (name, weight, vals, actual, foldCase)
      then score_loop U m hasHomePLMNMatch rest (score + weight) (sources @ [name]) True
      else if \<not> hasHomePLMNMatch \<or> name = str ''gid1'' \<or> name = str ''gid2''
              \<or> name = str ''iccid'' \<and> RequireICCID m
      then None
      else score_loop U m hasHomePLMNMatch rest score sources hasSelectorMatch)"

definition plmn_hits :: "carrierProfileMatch \<Rightarrow> SIMIdentity \<Rightarrow> bool" where
  "plmn_hits m identity =
     (let wanted = canonicalPLMN (HomeMCC identity) (HomeMNC identity) in
      wanted \<noteq> [] \<and> list_ex (\<lambda>v. canonicalPLMNValue v = wanted) (HomePLMNs m))"

definition spn_hits :: "unicode_env \<Rightarrow> carrierProfileMatch \<Rightarrow> SIMIdentity \<Rightarrow> bool" where
  "spn_hits U m identity =
     (let spn = trim_space (id_SPN identity) in
      spn \<noteq> [] \<and> list_ex (\<lambda>v. equal_fold U (trim_space v) spn) (SPNs m))"

definition matchCarrierProfile :: "unicode_env \<Rightarrow> carrierProfileMatch \<Rightarrow> SIMIdentity \<Rightarrow> nat \<times> gostring \<times> bool" where
  "matchCarrierProfile U m identity =
     (let hasHomePLMNMatch = HomePLMNs m \<noteq> [] \<and> plmn_hits m identity in
      if HomePLMNs m \<noteq> [] \<and> \<not> hasHomePLMNMatch \<and> HomeMCC identity \<noteq> [] \<and> HomeMNC identity \<noteq> []
      then (0, [], False)
      else if RequireHomePLMN m \<and> \<not> hasHomePLMNMatch then (0, [], False)
      else case score_loop U m hasHomePLMNMatch (selectors_of m identity)
                  (if hasHomePLMNMatch then 100 else 0) (if hasHomePLMNMatch then [str ''hplmn''] else []) False of
          None \<Rightarrow> (0, [], False)
        | Some (score, sources, hasSelectorMatch) \<Rightarrow>
            if SPNs m \<noteq> [] \<and> \<not> spn_hits U m identity then (0, [], False)
            else let score = (if SPNs m \<noteq> [] then score + 20 else score);
                     sources = (if SPNs m \<noteq> [] then sources @ [str ''spn''] else sources);
                     hasSelectorMatch = (SPNs m \<noteq> [] \<or> hasSelectorMatch)
                 in if \<not> hasHomePLMNMatch \<and> \<not> hasSelectorMatch then (0, [], False)
                    else (score, joined (str ''+'') sources, score > 0))"

fun match_step :: "unicode_env \<Rightarrow> SIMIdentity \<Rightarrow> int \<times> gostring \<Rightarrow> carrierProfileMatch \<Rightarrow> int \<times> gostring" where
  "match_step U identity (bestScore, bestSource) m =
     (case matchCarrierProfile U m identity of
        (score, source, matched) \<Rightarrow>
          if matched \<and> int score > bestScore then (int score, source) else (bestScore, bestSource))"

definition matchCarrierProfileRule :: "unicode_env \<Rightarrow> carrierProfileRule \<Rightarrow> SIMIdentity \<Rightarrow> int \<times> gostring \<times> bool" where
  "matchCarrierProfileRule U rule identity =
     (case foldl (match_step U identity) (-1, []) (rule_matches rule) of
        (bestScore, bestSource) \<Rightarrow> (bestScore, bestSource, bestScore \<ge> 0))"

subsection \<open>Applying a rule\<close>

definition empty_register_options :: IMSRegisterOptions where
  "empty_register_options =
     \<lparr>ContactFormat = [], ContactUserSource = [], InstanceIDFormat = [], InstanceIDFallback = [], ExpirySeconds = 0,
      ContactExtraTags = [], SupportedHeader = None, AllowHeader = None, PPreferredIdentity = False,
      PVisitedNetworkID = [], PAccessNetworkInfo = None, CellularNetworkInfo = [], AcceptContactTags = []\<rparr>"

definition defaultCarrierProfile :: CarrierProfile where
  "defaultCarrierProfile =
     \<lparr>cp_ID = CarrierProfileStandard, MatchSource = str ''standard'',
      cp_Rewrite = \<lparr>FromPrefix = [], ToPrefix = []\<rparr>, RouteMCC = [], RouteMNC = [], EPDG = [],
      IKEProposal = IKEProposalModern, AdvertiseEAPOnly = True, AllowSMSWithoutContactConfirmation = False,
      cp_RegisterOptions = empty_register_options, IMSTransport = [],
      IMSIdentityProfile = IMSProfileStandard, IMSRegisterProfile = IMSProfileStandard, IMSIPSecMode = [],
      IMSIPSecEncryption = str ''aes-cbc'', SMSCenter = [], SMSZeroSCTSTimezone = [], PANIEnabled = None,
      PANICountry = [], PANINode = [], IMSUserAgent = [], IMSDialURIScheme = str ''tel'', IMSUserEqPhone = False,
      IMSVoiceCodecs = [str ''PCMA'', str ''PCMU'']\<rparr>"

definition nonempty_or :: "gostring \<Rightarrow> gostring \<Rightarrow> gostring" where
  "nonempty_or v old = (if v \<noteq> [] then v else old)"

definition applyRegisterOptions :: "unicode_env \<Rightarrow> IMSRegisterOptions \<Rightarrow> IMSRegisterOptions \<Rightarrow> IMSRegisterOptions" where
  "applyRegisterOptions U base rule =
     \<lparr>ContactFormat = nonempty_or (lower U (trim_space (ContactFormat rule))) (ContactFormat base),
      ContactUserSource = nonempty_or (lower U (trim_space (ContactUserSource rule))) (ContactUserSource base),
      InstanceIDFormat = nonempty_or (lower U (trim_space (InstanceIDFormat rule))) (InstanceIDFormat base),
      InstanceIDFallback = nonempty_or (lower U (trim_space (InstanceIDFallback rule))) (InstanceIDFallback base),
      ExpirySeconds = (if ExpirySeconds rule \<noteq> 0 then ExpirySeconds rule else ExpirySeconds base),
      ContactExtraTags = (if ContactExtraTags rule \<noteq> [] then ContactExtraTags rule else ContactExtraTags base),
      SupportedHeader = (case SupportedHeader rule of None \<Rightarrow> SupportedHeader base | Some v \<Rightarrow> Some (trim_space v)),
      AllowHeader = (case AllowHeader rule of None \<Rightarrow> AllowHeader base | Some v \<Rightarrow> Some (trim_space v)),
      PPreferredIdentity = (PPreferredIdentity rule \<or> PPreferredIdentity base),
      PVisitedNetworkID = nonempty_or (trim_space (PVisitedNetworkID rule)) (PVisitedNetworkID base),
      PAccessNetworkInfo = (case PAccessNetworkInfo rule of None \<Rightarrow> PAccessNetworkInfo base | Some v \<Rightarrow> Some (trim_space v)),
      CellularNetworkInfo = nonempty_or (trim_space (CellularNetworkInfo rule)) (CellularNetworkInfo base),
      AcceptContactTags = (if AcceptContactTags rule \<noteq> [] then AcceptContactTags rule else AcceptContactTags base)\<rparr>"

fun codecs_loop :: "unicode_env \<Rightarrow> gostring list \<Rightarrow> gostring list \<Rightarrow> gostring list" where
  "codecs_loop U [] seen = []"
| "codecs_loop U (v0 # rest) seen =
     (let v = upper U (trim_space v0) in
      if v = [] \<or> v \<in> set seen then codecs_loop U rest seen else v # codecs_loop U rest (v # seen))"

definition normalizeVoiceCodecs :: "unicode_env \<Rightarrow> gostring list \<Rightarrow> gostring list" where
  "normalizeVoiceCodecs U vals = codecs_loop U vals []"

definition isATTEPDG :: "unicode_env \<Rightarrow> gostring \<Rightarrow> bool" where
  "isATTEPDG U epdg0 =
     (let epdg = lower U (trim_space epdg0) in epdg = str ''epdg.epc.att.net'' \<or> has_suffix epdg (str ''.att.net''))"

text \<open>
  The route of a rule: the configured one, else the home network of the SIM when the rule lists it, else
  the first network the rule lists.
\<close>

definition rule_plmns :: "carrierProfileRule \<Rightarrow> gostring list" where
  "rule_plmns rule = concat (map HomePLMNs (Match rule # MatchAny rule))"

definition route_of :: "carrierProfileRule \<Rightarrow> SIMIdentity \<Rightarrow> gostring \<times> gostring" where
  "route_of rule identity =
     (let mcc = trim_space (rt_MCC (Route rule)); mnc = trim_space (rt_MNC (Route rule)) in
      if mcc \<noteq> [] then (mcc, mnc)
      else
        let currentPLMN = canonicalPLMN (HomeMCC identity) (HomeMNC identity) in
        if currentPLMN \<noteq> [] \<and> list_ex (\<lambda>plmn. canonicalPLMNValue plmn = currentPLMN) (rule_plmns rule)
        then (trim_space (HomeMCC identity), trim_space (HomeMNC identity))
        else case List.find (\<lambda>plmn. length plmn \<ge> 5) (map canonicalPLMNValue (rule_plmns rule)) of
            Some plmn \<Rightarrow> (take 3 plmn, drop 3 plmn)
          | None \<Rightarrow> (mcc, mnc))"

definition att_register_options :: "IMSRegisterOptions \<Rightarrow> IMSRegisterOptions" where
  "att_register_options options =
     options\<lparr>ContactFormat := (if ContactFormat options = [] then str ''att'' else ContactFormat options),
       ExpirySeconds := (if ExpirySeconds options = 0 then 18400 else ExpirySeconds options),
       ContactExtraTags := (if ContactExtraTags options = [] then [str ''+g.3gpp.accesstype=\"wlan1\"''] else ContactExtraTags options),
       SupportedHeader := (if SupportedHeader options = None then Some (str ''path,sec-agree,gruu'') else SupportedHeader options),
       PVisitedNetworkID := (if PVisitedNetworkID options = [] then str ''one.att.net'' else PVisitedNetworkID options),
       PPreferredIdentity := True,
       AcceptContactTags := (if AcceptContactTags options = []
         then [str ''*;+g.3gpp.smsip'', str ''*;+g.3gpp.icsi-ref=\"urn%3Aurn-7%3A3gpp-service.ims.icsi.mmtel\"'']
         else AcceptContactTags options)\<rparr>"

definition applyCarrierProfileRule ::
  "unicode_env \<Rightarrow> CarrierProfile \<Rightarrow> carrierProfileRule \<Rightarrow> gostring \<Rightarrow> SIMIdentity \<Rightarrow> CarrierProfile" where
  "applyCarrierProfileRule U base rule source identity =
     (let ims = IMS rule; route = route_of rule identity;
          epdg = lower U (trim_space (Hostname (ru_EPDG rule)));
          identityProfile = nonempty_or (trim_space (IdentityProfile ims)) (IMSIdentityProfile base);
          registerProfile = nonempty_or (trim_space (RegisterProfile ims)) (IMSRegisterProfile base);
          identityProfile = (if (identityProfile = [] \<or> identityProfile = IMSProfileStandard) \<and> isATTEPDG U epdg
                             then IMSProfileATT else identityProfile);
          registerProfile = (if (registerProfile = [] \<or> registerProfile = IMSProfileStandard) \<and> isATTEPDG U epdg
                             then IMSProfileATT else registerProfile);
          att = (registerProfile = IMSProfileATT);
          options = applyRegisterOptions U (cp_RegisterOptions base) (RegisterOptions ims);
          paniNode = trim_space (im_PANINode ims)
      in \<lparr>cp_ID = ru_ID rule, MatchSource = source,
          cp_Rewrite = \<lparr>FromPrefix = trim_space (FromPrefix (ru_Rewrite rule)), ToPrefix = trim_space (ToPrefix (ru_Rewrite rule))\<rparr>,
          RouteMCC = fst route, RouteMNC = snd route, EPDG = epdg,
          IKEProposal = nonempty_or (trim_space (ik_Proposal (IKE rule))) (IKEProposal base),
          AdvertiseEAPOnly = (case ik_AdvertiseEAPOnly (IKE rule) of None \<Rightarrow> AdvertiseEAPOnly base | Some b \<Rightarrow> b),
          AllowSMSWithoutContactConfirmation =
            (case im_AllowSMS ims of None \<Rightarrow> AllowSMSWithoutContactConfirmation base | Some b \<Rightarrow> b),
          cp_RegisterOptions = (if att then att_register_options options else options),
          IMSTransport = nonempty_or (lower U (trim_space (im_Transport ims))) (IMSTransport base),
          IMSIdentityProfile = identityProfile, IMSRegisterProfile = registerProfile,
          IMSIPSecMode = nonempty_or (lower U (trim_space (IPSecMode ims))) (IMSIPSecMode base),
          IMSIPSecEncryption = nonempty_or (lower U (trim_space (IPSecEncryption ims))) (IMSIPSecEncryption base),
          SMSCenter = trim_space (im_SMSCenter ims), SMSZeroSCTSTimezone = trim_space (ZeroSCTSTimezone rule),
          PANIEnabled = (case im_PANIEnabled ims of None \<Rightarrow> PANIEnabled base | Some b \<Rightarrow> Some b),
          PANICountry = upper U (trim_space (im_PANICountry ims)),
          PANINode = (if att \<and> paniNode = [] then str ''000000000000'' else paniNode),
          IMSUserAgent = nonempty_or (trim_space (UserAgent ims)) (IMSUserAgent base),
          IMSDialURIScheme = nonempty_or (lower U (trim_space (DialURIScheme ims))) (IMSDialURIScheme base),
          IMSUserEqPhone = (case UserEqPhone ims of None \<Rightarrow> IMSUserEqPhone base | Some b \<Rightarrow> b),
          IMSVoiceCodecs = (if VoiceCodecs ims \<noteq> [] then normalizeVoiceCodecs U (VoiceCodecs ims) else IMSVoiceCodecs base)\<rparr>)"

text \<open>\<open>carrierProfilesSnapshot\<close>: the embedded rules, then the installed ones.\<close>

definition carrierProfilesSnapshot :: "carrierProfileRule list \<Rightarrow> carrierProfileRule list \<Rightarrow> carrierProfileRule list" where
  "carrierProfilesSnapshot builtin external = builtin @ external"

fun resolve_step :: "unicode_env \<Rightarrow> SIMIdentity \<Rightarrow> int \<times> CarrierProfile \<Rightarrow> carrierProfileRule \<Rightarrow> int \<times> CarrierProfile" where
  "resolve_step U identity (bestScore, resolved) rule =
     (case matchCarrierProfileRule U rule identity of
        (score, source, matched) \<Rightarrow>
          if \<not> matched \<or> score < bestScore then (bestScore, resolved)
          else (score, applyCarrierProfileRule U defaultCarrierProfile rule source identity))"

definition ResolveCarrierProfile :: "unicode_env \<Rightarrow> carrierProfileRule list \<Rightarrow> SIMIdentity \<Rightarrow> CarrierProfile" where
  "ResolveCarrierProfile U rules identity =
     snd (foldl (resolve_step U identity) (-1, defaultCarrierProfile) rules)"

end
