(* ===== verification/Carrier_Routes.thy ===== *)
theory Carrier_Routes
  imports Carrier
begin

text \<open>
  Routes and names derived from a carrier profile (\<open>carrier_compat.go\<close>, \<open>DeriveEPDG\<close> of
  \<open>orchestrator.go\<close>) and the telephone number IMS associates (\<open>phone.go\<close>).
\<close>

subsection \<open>Tables\<close>

definition lookup_code :: "(string list \<times> string) list \<Rightarrow> gostring \<Rightarrow> gostring" where
  "lookup_code table key =
     (case List.find (\<lambda>(keys, v). key \<in> set (map str keys)) table of None \<Rightarrow> [] | Some (_, v) \<Rightarrow> str v)"

definition country_table :: "(string list \<times> string) list" where
  "country_table =
     [([''515''], ''PH''),
      ([''262''], ''DE''),
      ([''204''], ''NL''),
      ([''234'', ''235''], ''GB''),
      ([''460''], ''CN''),
      ([''454''], ''HK''),
      ([''466'', ''467''], ''TW''),
      ([''525''], ''SG''),
      ([''440'', ''441''], ''JP''),
      ([''450''], ''KR''),
      ([''310'', ''311'', ''312'', ''313'', ''314'', ''315'', ''316''], ''US''),
      ([''302''], ''CA''),
      ([''505''], ''AU''),
      ([''208''], ''FR''),
      ([''214''], ''ES''),
      ([''222''], ''IT''),
      ([''228''], ''CH''),
      ([''232''], ''AT''),
      ([''206''], ''BE''),
      ([''260''], ''PL''),
      ([''520''], ''TH''),
      ([''510''], ''ID''),
      ([''502''], ''MY'')]"

definition CountryCodeForMCC :: "gostring \<Rightarrow> gostring" where
  "CountryCodeForMCC mcc = lookup_code country_table (trim_space mcc)"

definition subnet_table :: "(string list \<times> string) list" where
  "subnet_table =
     [([''262''], ''139.7.0.0/16''),
      ([''204''], ''109.39.0.0/16''),
      ([''234'', ''235''], ''212.183.0.0/16''),
      ([''515''], ''112.198.0.0/16''),
      ([''454''], ''203.0.0.0/16''),
      ([''466'', ''467''], ''210.0.0.0/16''),
      ([''525''], ''202.166.0.0/16''),
      ([''440'', ''441''], ''126.0.0.0/16''),
      ([''450''], ''211.0.0.0/16''),
      ([''310'', ''311'', ''312'', ''313'', ''314'', ''315'', ''316''], ''198.228.0.0/16''),
      ([''302''], ''142.0.0.0/16''),
      ([''505''], ''1.120.0.0/16''),
      ([''520''], ''171.96.0.0/16''),
      ([''510''], ''182.0.0.0/16''),
      ([''502''], ''115.132.0.0/16''),
      ([''208''], ''194.51.0.0/16''),
      ([''214''], ''212.166.0.0/16''),
      ([''222''], ''83.224.0.0/16''),
      ([''228''], ''178.192.0.0/16''),
      ([''232''], ''194.138.0.0/16''),
      ([''206''], ''193.190.0.0/16''),
      ([''260''], ''83.0.0.0/16''),
      ([''268''], ''194.65.0.0/16''),
      ([''272''], ''193.1.0.0/16''),
      ([''238''], ''193.162.0.0/16''),
      ([''240''], ''194.236.0.0/16''),
      ([''242''], ''193.69.0.0/16''),
      ([''244''], ''193.64.0.0/16''),
      ([''202''], ''194.219.0.0/16''),
      ([''216''], ''195.199.0.0/16''),
      ([''230''], ''195.113.0.0/16''),
      ([''286''], ''195.175.0.0/16''),
      ([''425''], ''192.114.0.0/16''),
      ([''404'', ''405''], ''103.0.0.0/16''),
      ([''655''], ''196.0.0.0/16''),
      ([''724''], ''177.0.0.0/16''),
      ([''334''], ''187.188.0.0/16''),
      ([''452''], ''118.69.0.0/16''),
      ([''455''], ''202.175.0.0/16''),
      ([''530''], ''202.27.0.0/16''),
      ([''460''], ''223.5.5.0/24'')]"

definition MCCDefaultClientSubnet :: "gostring \<Rightarrow> gostring" where
  "MCCDefaultClientSubnet mcc = lookup_code subnet_table (trim_space mcc)"

definition iccid_table :: "(string \<times> string \<times> string) list" where
  "iccid_table =
     [(''896366'', ''515'', ''66''),
      (''896302'', ''515'', ''02''),
      (''896303'', ''515'', ''03''),
      (''894920'', ''262'', ''02''),
      (''894901'', ''262'', ''01''),
      (''894902'', ''262'', ''03''),
      (''894903'', ''262'', ''03''),
      (''894907'', ''262'', ''07''),
      (''894410'', ''234'', ''15''),
      (''894415'', ''234'', ''15''),
      (''894411'', ''234'', ''30''),
      (''894430'', ''234'', ''30''),
      (''894420'', ''234'', ''20''),
      (''894421'', ''234'', ''10''),
      (''8937204'', ''204'', ''04''),
      (''893104'', ''204'', ''04''),
      (''893108'', ''204'', ''08''),
      (''893116'', ''204'', ''16''),
      (''8985201'', ''454'', ''00''),
      (''8985203'', ''454'', ''03''),
      (''898523'', ''454'', ''03''),
      (''8985204'', ''454'', ''12''),
      (''8985206'', ''454'', ''06''),
      (''898600'', ''460'', ''00''),
      (''898602'', ''460'', ''00''),
      (''898604'', ''460'', ''00''),
      (''898607'', ''460'', ''00''),
      (''898601'', ''460'', ''01''),
      (''898606'', ''460'', ''01''),
      (''898609'', ''460'', ''01''),
      (''898603'', ''460'', ''03''),
      (''898605'', ''460'', ''03''),
      (''898611'', ''460'', ''03''),
      (''8988601'', ''466'', ''92''),
      (''8988602'', ''466'', ''97''),
      (''8988603'', ''466'', ''01''),
      (''896501'', ''525'', ''01''),
      (''896502'', ''525'', ''05''),
      (''896503'', ''525'', ''03''),
      (''896504'', ''525'', ''10'')]"

definition HomePLMNFromICCID :: "gostring \<Rightarrow> (gostring \<times> gostring) option" where
  "HomePLMNFromICCID iccid0 =
     (let iccid = trim_space iccid0 in
      if length iccid < 6 \<or> \<not> has_prefix iccid (str ''89'') then None
      else map_option (\<lambda>(_, mcc, mnc). (str mcc, str mnc))
             (List.find (\<lambda>(prefix, _, _). has_prefix iccid (str prefix)) iccid_table))"

subsection \<open>Routes\<close>

definition EffectiveSubscriberIMSI :: "CarrierProfile \<Rightarrow> gostring \<Rightarrow> gostring" where
  "EffectiveSubscriberIMSI profile imsi0 =
     (let imsi = trim_space imsi0; fromPrefix = trim_space (FromPrefix (cp_Rewrite profile));
          toPrefix = trim_space (ToPrefix (cp_Rewrite profile)) in
      if fromPrefix \<noteq> [] \<and> toPrefix \<noteq> [] \<and> has_prefix imsi fromPrefix
      then toPrefix @ drop (length fromPrefix) imsi
      else imsi)"

definition legacy_identity :: "gostring \<Rightarrow> gostring \<Rightarrow> SIMIdentity" where
  "legacy_identity iccid imsi =
     \<lparr>id_ICCID = trim_space iccid, id_IMSI = trim_space imsi, id_IMEI = [], HomeMCC = [], HomeMNC = [],
      HomeCountryCode = [], id_SPN = [], GID1 = [], GID2 = [], id_EPDG = [], SMSC = []\<rparr>"

fun assigned_loop :: "unicode_env \<Rightarrow> carrierProfileRule list \<Rightarrow> SIMIdentity \<Rightarrow> nat list \<Rightarrow> (gostring \<times> gostring) option" where
  "assigned_loop U rules identity [] = None"
| "assigned_loop U rules identity (len # lens) =
     (if length (id_IMSI identity) < 3 + len then assigned_loop U rules identity lens
      else
        let identity = identity\<lparr>HomeMNC := take len (drop 3 (id_IMSI identity))\<rparr>;
            profile = ResolveCarrierProfile U rules identity in
        if RouteMCC profile \<noteq> [] then Some (RouteMCC profile, RouteMNC profile)
        else assigned_loop U rules identity lens)"

definition AssignedRoutePLMN ::
  "unicode_env \<Rightarrow> carrierProfileRule list \<Rightarrow> gostring \<Rightarrow> gostring \<Rightarrow> (gostring \<times> gostring) option" where
  "AssignedRoutePLMN U rules iccid imsi =
     (let identity = legacy_identity iccid imsi in
      if length (id_IMSI identity) \<ge> 5
      then assigned_loop U rules (identity\<lparr>HomeMCC := take 3 (id_IMSI identity)\<rparr>) [3, 2]
      else None)"

definition IsATT310280 :: "unicode_env \<Rightarrow> carrierProfileRule list \<Rightarrow> SIMIdentity \<Rightarrow> bool" where
  "IsATT310280 U rules identity \<longleftrightarrow> IMSRegisterProfile (ResolveCarrierProfile U rules identity) = IMSProfileATT"

definition infer_home :: "SIMIdentity \<Rightarrow> SIMIdentity" where
  "infer_home identity =
     (if trim_space (id_ICCID identity) \<noteq> [] then
        (case HomePLMNFromICCID (id_ICCID identity) of
           None \<Rightarrow> identity
         | Some (mcc, mnc) \<Rightarrow>
             let imsiCountry = CountryCodeForMCC (HomeMCC identity); iccidCountry = CountryCodeForMCC mcc in
             if HomeMCC identity = [] \<or> imsiCountry \<noteq> [] \<and> iccidCountry \<noteq> [] \<and> imsiCountry \<noteq> iccidCountry
             then identity\<lparr>HomeMCC := mcc, HomeMNC := mnc\<rparr> else identity)
      else identity)"

definition applyAssignedCarrierRoute :: "unicode_env \<Rightarrow> carrierProfileRule list \<Rightarrow> SIMIdentity \<Rightarrow> SIMIdentity" where
  "applyAssignedCarrierRoute U rules identity =
     (let profile = ResolveCarrierProfile U rules identity in
      if cp_ID profile \<noteq> CarrierProfileStandard \<and> RouteMCC profile \<noteq> [] then
        identity\<lparr>HomeMCC := RouteMCC profile, HomeMNC := RouteMNC profile,
          id_EPDG := (if EPDG profile \<noteq> [] then EPDG profile
                      else standardEPDGHostname (RouteMCC profile) (RouteMNC profile))\<rparr>
      else
        let identity = infer_home identity in
        if trim_space (id_EPDG identity) = [] \<and> HomeMCC identity \<noteq> [] \<and> HomeMNC identity \<noteq> []
        then identity\<lparr>id_EPDG := standardEPDGHostname (HomeMCC identity) (HomeMNC identity)\<rparr>
        else identity)"

definition DeriveEPDG :: "unicode_env \<Rightarrow> carrierProfileRule list \<Rightarrow> SIMIdentity \<Rightarrow> goerror + gostring" where
  "DeriveEPDG U rules identity =
     (let configured = trim_space (id_EPDG identity) in
      if configured \<noteq> [] then
        if contains_any configured [32, 9, 13, 10, 47, 58] \<or> length configured > 253
        then Inl (plain_error ''vowifi: configured ePDG must be a hostname'')
        else Inr (lower U configured)
      else
        let profile = ResolveCarrierProfile U rules identity in
        if EPDG profile \<noteq> [] then Inr (EPDG profile)
        else if RouteMCC profile \<noteq> [] then Inr (standardEPDGHostname (RouteMCC profile) (RouteMNC profile))
        else case identity_validate identity of
            Some err \<Rightarrow> Inl err
          | None \<Rightarrow> Inr (standardEPDGHostname (HomeMCC identity) (HomeMNC identity)))"

definition host_key :: "unicode_env \<Rightarrow> gostring \<Rightarrow> gostring" where
  "host_key U host = lower U (trim_suffix (trim_space host) (str ''.''))"

definition mcc_subnet :: "gostring \<Rightarrow> gostring" where
  "mcc_subnet host =
     (case index_sub host (str ''.mcc'') of
        None \<Rightarrow> []
      | Some at \<Rightarrow>
          if length host \<ge> at + 7 then
            let mcc = take 3 (drop (at + 4) host) in
            if decimalString mcc then MCCDefaultClientSubnet mcc else []
          else [])"

definition EPDGDNSClientSubnet :: "unicode_env \<Rightarrow> carrierProfileRule list \<Rightarrow> gostring \<Rightarrow> gostring" where
  "EPDGDNSClientSubnet U rules host0 =
     (let host = host_key U host0 in
      case List.find (\<lambda>rule. list_ex (\<lambda>candidate. host = host_key U candidate) (DNSHosts (ru_EPDG rule))) rules of
        Some rule \<Rightarrow> trim_space (DNSClientSubnet (ru_EPDG rule))
      | None \<Rightarrow> mcc_subnet host)"

subsection \<open>The associated telephone number\<close>

record IMSEvidence =
  Registered :: bool
  RegistrationState :: gostring
  AssociatedMSISDN :: gostring
  PAssociatedURI :: "gostring list"

text \<open>\<open>url.PathUnescape\<close>; \<open>None\<close> is its error.\<close>

fun path_unescape :: "gostring \<Rightarrow> gostring option" where
  "path_unescape [] = Some []"
| "path_unescape (c # rest) =
     (if c = 37 then
        (case rest of
           h # l # rest' \<Rightarrow>
             (case (hex_val h, hex_val l) of
                (Some a, Some b) \<Rightarrow> map_option ((#) (of_nat (16 * a + b))) (path_unescape rest')
              | _ \<Rightarrow> None)
         | _ \<Rightarrow> None)
      else map_option ((#) c) (path_unescape rest))"

definition trim_cutset :: "gostring \<Rightarrow> gostring \<Rightarrow> gostring" where
  "trim_cutset cutset s =
     rev (dropWhile (\<lambda>b. b \<in> set cutset) (rev (dropWhile (\<lambda>b. b \<in> set cutset) s)))"

definition before_byte :: "byte \<Rightarrow> gostring \<Rightarrow> gostring" where
  "before_byte c s = (case index_byte s c of None \<Rightarrow> s | Some at \<Rightarrow> take at s)"

text \<open>The user part of the identity and whether it came from a typed URI; \<open>None\<close> is a refusal.\<close>

definition identity_user :: "unicode_env \<Rightarrow> bool \<Rightarrow> gostring \<Rightarrow> (gostring \<times> bool) option" where
  "identity_user U explicit v =
     (let low = lower U v in
      if has_prefix low (str ''tel:'') then Some (drop 4 v, True)
      else if has_prefix low (str ''sip:'') then
        (let user = before_byte 64 (drop 4 v) in
         if has_prefix (trim_space user) [43] then Some (user, True) else None)
      else if has_prefix low (str ''sips:'') then
        (let user = before_byte 64 (drop 5 v) in
         if has_prefix (trim_space user) [43] then Some (user, True) else None)
      else if index_byte v 64 \<noteq> None then Some (before_byte 64 v, False)
      else if \<not> explicit then None
      else Some (v, False))"

text \<open>The loop over the runes: \<open>normalized\<close> so far.\<close>

fun number_loop :: "rune list \<Rightarrow> gostring \<Rightarrow> gostring option" where
  "number_loop [] normalized = Some normalized"
| "number_loop (r # rs) normalized =
     (if r = 43 \<and> normalized = [] then number_loop rs (normalized @ [43])
      else if 48 \<le> r \<and> r \<le> 57 then number_loop rs (normalized @ [of_nat r])
      else if is_space r \<or> r = 45 \<or> r = 40 \<or> r = 41 then number_loop rs normalized
      else None)"

definition cut_parameters :: "byte \<Rightarrow> bool \<Rightarrow> gostring \<Rightarrow> gostring option" where
  "cut_parameters c typedURI v =
     (case index_byte v c of
        None \<Rightarrow> Some v
      | Some at \<Rightarrow> if \<not> typedURI then None else Some (take at v))"

definition normalizeAssociatedIdentity :: "unicode_env \<Rightarrow> gostring \<Rightarrow> bool \<Rightarrow> gostring option" where
  "normalizeAssociatedIdentity U raw explicit =
     (let v = trim_cutset [60, 62, 34, 39] (trim_space raw) in
      if v = [] then None
      else Option.bind (identity_user U explicit v) (\<lambda>(v, typedURI).
           Option.bind (cut_parameters 59 typedURI v) (\<lambda>v.
           Option.bind (cut_parameters 63 typedURI v) (\<lambda>v.
             let v = (case path_unescape v of Some decoded \<Rightarrow> decoded | None \<Rightarrow> v) in
             Option.bind (number_loop (runes_of (trim_space v)) []) (\<lambda>number.
               if \<not> has_prefix number [43] then None
               else if \<not> isNDigits (drop 1 number) 5 15 then None
               else Some number)))))"

definition PhoneSourceAssociatedMSISDN :: gostring where
  "PhoneSourceAssociatedMSISDN = str ''ims_associated_msisdn''"

definition PhoneSourcePAssociatedURI :: gostring where
  "PhoneSourcePAssociatedURI = str ''ims_p_associated_uri''"

fun first_number :: "unicode_env \<Rightarrow> gostring list \<Rightarrow> gostring option" where
  "first_number U [] = None"
| "first_number U (uri # uris) =
     (case normalizeAssociatedIdentity U uri False of Some number \<Rightarrow> Some number | None \<Rightarrow> first_number U uris)"

text \<open>The number and where it came from.\<close>

definition ExtractAssociatedMSISDN :: "unicode_env \<Rightarrow> IMSEvidence \<Rightarrow> (gostring \<times> gostring) option" where
  "ExtractAssociatedMSISDN U evidence =
     (case normalizeAssociatedIdentity U (AssociatedMSISDN evidence) True of
        Some number \<Rightarrow> Some (number, PhoneSourceAssociatedMSISDN)
      | None \<Rightarrow> map_option (\<lambda>number. (number, PhoneSourcePAssociatedURI)) (first_number U (PAssociatedURI evidence)))"

end
