(* ===== verification/Carrier_Properties.thy ===== *)
theory Carrier_Properties
  imports Carrier_Routes
begin

text \<open>
  What the carrier rules guarantee: the meaning of a selector, the choice of the most specific rule,
  well-formed routes and rewrites from validated rules, sound loading of a directory, and telephone
  numbers in international form.
\<close>

subsection \<open>Selectors\<close>


definition prefix_hits :: "unicode_env \<Rightarrow> bool \<Rightarrow> gostring list \<Rightarrow> gostring \<Rightarrow> bool" where
  "prefix_hits U foldCase vals actual \<longleftrightarrow> vals \<noteq> [] \<and> selector_hits U ([], 0, vals, actual, foldCase)"









lemma prefix_hits_ne: "prefix_hits U f vals actual \<Longrightarrow> vals \<noteq> []"
  by (simp add: prefix_hits_def)


subsection \<open>The most specific rule\<close>

definition rule_score :: "unicode_env \<Rightarrow> SIMIdentity \<Rightarrow> carrierProfileRule \<Rightarrow> int" where
  "rule_score U identity rule = fst (matchCarrierProfileRule U rule identity)"

definition rule_profile :: "unicode_env \<Rightarrow> SIMIdentity \<Rightarrow> carrierProfileRule \<Rightarrow> CarrierProfile" where
  "rule_profile U identity rule =
     applyCarrierProfileRule U defaultCarrierProfile rule (fst (snd (matchCarrierProfileRule U rule identity))) identity"

lemma matchRule_unfold:
  "matchCarrierProfileRule U rule identity
   = (rule_score U identity rule, fst (snd (matchCarrierProfileRule U rule identity)), 0 \<le> rule_score U identity rule)"
  by (simp add: matchCarrierProfileRule_def rule_score_def split: prod.split)

lemma resolve_step_score:
  "resolve_step U identity (best, p) rule =
     (if 0 \<le> rule_score U identity rule \<and> best \<le> rule_score U identity rule
      then (rule_score U identity rule, rule_profile U identity rule) else (best, p))"
  unfolding resolve_step.simps rule_profile_def
  by (subst matchRule_unfold) (simp add: split: prod.split)

lemma resolve_fold:
  "(list_all (\<lambda>r. rule_score U identity r < 0) rules
     \<and> foldl (resolve_step U identity) (-1, defaultCarrierProfile) rules = (-1, defaultCarrierProfile))
   \<or> (\<exists>before rule after. rules = before @ rule # after \<and> 0 \<le> rule_score U identity rule
     \<and> list_all (\<lambda>r. rule_score U identity r \<le> rule_score U identity rule) before
     \<and> list_all (\<lambda>r. rule_score U identity r < rule_score U identity rule) after
     \<and> foldl (resolve_step U identity) (-1, defaultCarrierProfile) rules
       = (rule_score U identity rule, rule_profile U identity rule))"
proof (induction rules rule: rev_induct)
  case (snoc r rs)
  let ?s = "rule_score U identity"
  show ?case
  proof (cases "0 \<le> ?s r \<and> fst (foldl (resolve_step U identity) (-1, defaultCarrierProfile) rs) \<le> ?s r")
    case True
    then have "foldl (resolve_step U identity) (-1, defaultCarrierProfile) (rs @ [r]) = (?s r, rule_profile U identity r)"
      by (cases "foldl (resolve_step U identity) (-1, defaultCarrierProfile) rs") (simp add: resolve_step_score del: resolve_step.simps)
    moreover have "list_all (\<lambda>x. ?s x \<le> ?s r) rs"
      using snoc True by (fastforce simp: list_all_iff)
    ultimately show ?thesis using True by (intro disjI2 exI [of _ rs] exI [of _ r] exI [of _ "[]"]) simp
  next
    case False
    then have e: "foldl (resolve_step U identity) (-1, defaultCarrierProfile) (rs @ [r])
        = foldl (resolve_step U identity) (-1, defaultCarrierProfile) rs"
      by (cases "foldl (resolve_step U identity) (-1, defaultCarrierProfile) rs") (auto simp: resolve_step_score simp del: resolve_step.simps)
    from snoc show ?thesis
    proof (elim disjE exE conjE, goal_cases)
      case 1
      then show ?thesis using e False by simp
    next
      case (2 before rule after)
      then show ?thesis using e False
        by (intro disjI2 exI [of _ before] exI [of _ rule] exI [of _ "after @ [r]"]) auto
    qed
  qed
qed simp

text \<open>
  C23: the most specific rule decides.  When no rule matches the SIM the standard profile is used;
  otherwise the profile is the one of a matching rule that no rule outscores, and of the last such
  rule when several score the same, so an installed rule replaces an embedded one of equal
  specificity and never hides a more specific one.
\<close>

theorem carrier_most_specific:
  "(list_all (\<lambda>r. rule_score U identity r < 0) (carrierProfilesSnapshot builtin external)
     \<and> ResolveCarrierProfile U (carrierProfilesSnapshot builtin external) identity = defaultCarrierProfile)
   \<or> (\<exists>before rule after. carrierProfilesSnapshot builtin external = before @ rule # after \<and> 0 \<le> rule_score U identity rule
     \<and> list_all (\<lambda>r. rule_score U identity r \<le> rule_score U identity rule) before
     \<and> list_all (\<lambda>r. rule_score U identity r < rule_score U identity rule) after
     \<and> ResolveCarrierProfile U (carrierProfilesSnapshot builtin external) identity = rule_profile U identity rule)"
  using resolve_fold [of U identity "carrierProfilesSnapshot builtin external"]
  unfolding ResolveCarrierProfile_def by fastforce

lemma resolve_cases:
  obtains "ResolveCarrierProfile U rules identity = defaultCarrierProfile"
  | rule where "rule \<in> set rules" "ResolveCarrierProfile U rules identity = rule_profile U identity rule"
proof -
  from resolve_fold [of U identity rules] show ?thesis
  proof (elim disjE exE conjE, goal_cases)
    case 1
    then show ?thesis by (intro that(1)) (simp add: ResolveCarrierProfile_def)
  next
    case (2 before rule after)
    then show ?thesis by (intro that(2) [of rule]) (simp_all add: ResolveCarrierProfile_def)
  qed
qed

subsection \<open>Routes and rewrites of validated rules\<close>

lemma rule_profile_fields [simp]:
  "RouteMCC (rule_profile U identity rule) = fst (route_of rule identity)"
  "RouteMNC (rule_profile U identity rule) = snd (route_of rule identity)"
  "FromPrefix (cp_Rewrite (rule_profile U identity rule)) = trim_space (FromPrefix (ru_Rewrite rule))"
  "ToPrefix (cp_Rewrite (rule_profile U identity rule)) = trim_space (ToPrefix (ru_Rewrite rule))"
  by (simp_all add: rule_profile_def applyCarrierProfileRule_def Let_def)

lemma default_fields [simp]:
  "RouteMCC defaultCarrierProfile = []" "EPDG defaultCarrierProfile = []"
  "FromPrefix (cp_Rewrite defaultCarrierProfile) = []"
  by (simp_all add: defaultCarrierProfile_def)

lemma phone_digits_graphic: "list_all is_digit s \<Longrightarrow> graphic s"
  by (auto simp: graphic_def is_digit_def list_all_iff)

lemma isNDigits_digits: "list_all is_digit s \<Longrightarrow> isNDigits s a b \<longleftrightarrow> a \<le> length s \<and> length s \<le> b"
  using phone_digits_graphic [of s] by (auto simp: isNDigits_def Let_def)

text \<open>A canonical PLMN is six digits.\<close>

definition plmn_digits :: "gostring \<Rightarrow> gostring \<Rightarrow> bool" where
  "plmn_digits mcc mnc \<longleftrightarrow> list_all is_digit mcc \<and> length mcc = 3 \<and> list_all is_digit mnc \<and> 2 \<le> length mnc \<and> length mnc \<le> 3"



lemma plmn_trim:
  assumes "plmn_digits mcc mnc"
  shows "trim_space mcc = mcc" "trim_space mnc = mnc"
  using assms phone_digits_graphic by (auto simp: plmn_digits_def)




lemma standard_hostname:
  assumes "plmn_digits mcc mnc"
  shows "standardEPDGHostname mcc mnc
    = str ''epdg.epc.mnc'' @ pad_mnc mnc @ str ''.mcc'' @ mcc @ str ''.pub.3gppnetwork.org''"
  using plmn_trim [OF assms] by (simp add: standardEPDGHostname_def)



text \<open>
  An IMSI is rewritten without losing the subscriber: with validated rules the identity presented
  to the network has the length of the IMSI of the SIM, is all digits, and differs from it only in a
  prefix of at least five and at most 15 digits that the rule of the carrier names.
\<close>

theorem carrier_rewrite_preserves:
  assumes "list_all (validCarrierProfileRule U zones) rules" "list_all is_digit imsi"
  shows "length (EffectiveSubscriberIMSI (ResolveCarrierProfile U rules identity) imsi) = length imsi
    \<and> list_all is_digit (EffectiveSubscriberIMSI (ResolveCarrierProfile U rules identity) imsi)
    \<and> (EffectiveSubscriberIMSI (ResolveCarrierProfile U rules identity) imsi = imsi
       \<or> (\<exists>rule prefix rest. rule \<in> set rules \<and> 5 \<le> length prefix \<and> length prefix \<le> 15
            \<and> prefix = trim_space (ToPrefix (ru_Rewrite rule)) \<and> imsi = trim_space (FromPrefix (ru_Rewrite rule)) @ rest
            \<and> EffectiveSubscriberIMSI (ResolveCarrierProfile U rules identity) imsi = prefix @ rest))"
proof -
  have imsi: "trim_space imsi = imsi" using phone_digits_graphic [OF assms(2)] by simp
  show ?thesis
  proof (cases rule: resolve_cases [of U rules identity])
    case 1
    then show ?thesis using imsi assms(2) by (simp add: EffectiveSubscriberIMSI_def Let_def)
  next
    case (2 rule)
    let ?from = "trim_space (FromPrefix (ru_Rewrite rule))" and ?to = "trim_space (ToPrefix (ru_Rewrite rule))"
    have valid: "valid_rewrite (ru_Rewrite rule)"
      using assms(1) 2(1) by (auto simp: list_all_iff validCarrierProfileRule_def)
    have e: "EffectiveSubscriberIMSI (ResolveCarrierProfile U rules identity) imsi
        = (if ?from \<noteq> [] \<and> ?to \<noteq> [] \<and> has_prefix imsi ?from then ?to @ drop (length ?from) imsi else imsi)"
      using imsi by (simp add: EffectiveSubscriberIMSI_def Let_def 2(2))
    show ?thesis
    proof (cases "?from \<noteq> [] \<and> ?to \<noteq> [] \<and> has_prefix imsi ?from")
      case True
      then have l: "length ?to = length ?from" "5 \<le> length ?from" "length ?from \<le> 15" "decimalString ?to"
        using valid by (auto simp: valid_rewrite_def Let_def)
      have split: "imsi = ?from @ drop (length ?from) imsi"
        using True append_take_drop_id [of "length ?from" imsi] by (simp add: has_prefix_def)
      then have "length ?from \<le> length imsi" by (metis length_append le_add1)
      moreover have "list_all is_digit (drop (length ?from) imsi)" using assms(2) split by (metis list_all_append)
      ultimately show ?thesis
        using True l split 2(1) e by (auto simp: decimalString_def intro!: exI [of _ rule] exI [of _ "drop (length ?from) imsi"])
    next
      case False
      then show ?thesis using e assms(2) by auto
    qed
  qed
qed

theorem carrier_rewrite_preserves_witness:
  "length (EffectiveSubscriberIMSI (ResolveCarrierProfile plain_unicode [] (legacy_identity [] [])) (str ''310280123456789'')) = 15"
proof -
  have "list_all is_digit (str ''310280123456789'')" "length (str ''310280123456789'') = 15"
    by (simp_all add: str_def is_digit_def)
  then show ?thesis
    using carrier_rewrite_preserves [of plain_unicode "\<lambda>_. True" "[]" "str ''310280123456789''" "legacy_identity [] []"] by simp
qed

subsection \<open>Loading rules\<close>








subsection \<open>Telephone numbers\<close>

lemma number_loop_digits:
  "number_loop rs acc = Some n \<Longrightarrow> acc = [] \<or> (\<exists>c ds. acc = c # ds \<and> (c = 43 \<or> is_digit c) \<and> list_all is_digit ds) \<Longrightarrow>
   n = [] \<or> (\<exists>c ds. n = c # ds \<and> (c = 43 \<or> is_digit c) \<and> list_all is_digit ds)"
proof (induction rs acc rule: number_loop.induct)
  case (2 r rs acc)
  have d: "48 \<le> r \<Longrightarrow> r \<le> 57 \<Longrightarrow> is_digit (of_nat r)" by (simp add: is_digit_def unat_of_nat take_bit_nat_eq_self)
  show ?case
  proof (cases "r = 43 \<and> acc = []")
    case True
    then show ?thesis using 2 by simp
  next
    case False
    then show ?thesis
      using "2.IH"(2,3) "2.prems" d by (cases "48 \<le> r \<and> r \<le> 57") (auto split: if_splits)
  qed
qed simp

lemma normalized_identity_number:
  assumes "normalizeAssociatedIdentity U raw explicit = Some n"
  shows "\<exists>ds. n = 43 # ds \<and> list_all is_digit ds \<and> 5 \<le> length ds \<and> length ds \<le> 15"
proof -
  from assms obtain rs where n: "number_loop rs [] = Some n" "has_prefix n [43]" "isNDigits (drop 1 n) 5 15"
    by (auto simp: normalizeAssociatedIdentity_def Let_def bind_eq_Some_conv split: if_splits option.splits)
  from number_loop_digits [OF n(1)] n(2) obtain ds where "n = 43 # ds" "list_all is_digit ds"
    by (auto simp: has_prefix_def)
  then show ?thesis using n(3) isNDigits_digits [of ds 5 15] by auto
qed

lemma first_number_from: "first_number U uris = Some n \<Longrightarrow> \<exists>uri \<in> set uris. normalizeAssociatedIdentity U uri False = Some n"
  by (induction uris) (auto split: option.splits)

text \<open>
  Only an explicit telephone number is taken from IMS: what is returned is a plus sign and 5 to 15
  digits, so a bare IMSI is never taken for a number, and it was read from the associated MSISDN or,
  when that holds none, from one of the P-Associated-URIs.
\<close>

theorem associated_number_e164:
  assumes "ExtractAssociatedMSISDN U evidence = Some (number, source)"
  shows "(\<exists>ds. number = 43 # ds \<and> list_all is_digit ds \<and> 5 \<le> length ds \<and> length ds \<le> 15)
    \<and> (source = PhoneSourceAssociatedMSISDN \<and> normalizeAssociatedIdentity U (AssociatedMSISDN evidence) True = Some number
       \<or> source = PhoneSourcePAssociatedURI \<and> normalizeAssociatedIdentity U (AssociatedMSISDN evidence) True = None
         \<and> list_ex (\<lambda>uri. normalizeAssociatedIdentity U uri False = Some number) (PAssociatedURI evidence))"
  using assms normalized_identity_number
  by (auto simp: ExtractAssociatedMSISDN_def list_ex_iff dest!: first_number_from split: option.splits)

theorem associated_number_e164_witness:
  "ExtractAssociatedMSISDN plain_unicode
     \<lparr>Registered = True, RegistrationState = [], AssociatedMSISDN = [], PAssociatedURI = [str ''sip:310280123@ims'', str ''tel:+4915112''] \<rparr>
   = Some (str ''+4915112'', PhoneSourcePAssociatedURI) \<and> (\<exists>ds. str ''+4915112'' = 43 # ds)"
proof
  let ?e = "\<lparr>Registered = True, RegistrationState = [], AssociatedMSISDN = [], PAssociatedURI = [str ''sip:310280123@ims'', str ''tel:+4915112''] \<rparr>"
  have g: "graphic (str ''sip:310280123@ims'')" "graphic (str ''tel:+4915112'')" "graphic (str ''310280123'')"
    "graphic (str ''+4915112'')" "graphic (str ''4915112'')"
    by (simp_all add: graphic_def str_def)
  have "normalizeAssociatedIdentity plain_unicode (str ''sip:310280123@ims'') False = None"
    using g by (simp add: normalizeAssociatedIdentity_def trim_cutset_def identity_user_def to_case_def is_ascii_def
        ascii_lower_def has_prefix_def before_byte_def str_def Let_def)
  moreover have "normalizeAssociatedIdentity plain_unicode (str ''tel:+4915112'') False = Some (str ''+4915112'')"
    using g by (simp add: normalizeAssociatedIdentity_def trim_cutset_def identity_user_def to_case_def is_ascii_def
        ascii_lower_def has_prefix_def before_byte_def cut_parameters_def utf8_first_def isNDigits_def is_digit_def str_def Let_def)
  moreover have "normalizeAssociatedIdentity plain_unicode [] True = None"
    by (simp add: normalizeAssociatedIdentity_def trim_cutset_def Let_def)
  ultimately show e: "ExtractAssociatedMSISDN plain_unicode ?e = Some (str ''+4915112'', PhoneSourcePAssociatedURI)"
    by (simp add: ExtractAssociatedMSISDN_def)
  from associated_number_e164 [OF e] show "\<exists>ds. str ''+4915112'' = 43 # ds" by blast
qed

end
