(* ===== verification/Orchestrator.thy ===== *)
theory Orchestrator
  imports Carrier_Routes
begin

text \<open>
  The VoWiFi lifecycle (\<open>orchestrator.go\<close>): state, sessions, and the operations Enable, Disable,
  Retry, Reconnect, the watchers of running sessions and the calls that need a registered session.
  The operation lock makes every operation one step.  The dependencies (radio, SIM, AKA, proxy,
  tunnel and IMS providers, the phone store and the clock) are functions of everything that happened
  before, so they may answer and fail in any way; a cancelled context or an expired deadline is one of
  their answers.  The trace of an orchestrator records its calls and the states it published.
\<close>

subsection \<open>Data\<close>

datatype Phase =
    PhaseIdle | PhaseSIMReady | PhaseAccessReady | PhaseTunnelReady | PhaseIMSReady | PhaseSMSReady
  | PhaseFailed | PhaseStopping

definition phase_text :: "Phase \<Rightarrow> gostring" where
  "phase_text p = (case p of
     PhaseIdle \<Rightarrow> str ''idle'' | PhaseSIMReady \<Rightarrow> str ''sim_ready'' | PhaseAccessReady \<Rightarrow> str ''access_ready''
   | PhaseTunnelReady \<Rightarrow> str ''tunnel_ready'' | PhaseIMSReady \<Rightarrow> str ''ims_ready'' | PhaseSMSReady \<Rightarrow> str ''sms_ready''
   | PhaseFailed \<Rightarrow> str ''failed'' | PhaseStopping \<Rightarrow> str ''stopping'')"

datatype ResponderAUTHStatus =
    ResponderAUTHUnknown | ResponderAUTHVerified | ResponderAUTHMissing | ResponderAUTHInvalid
  | ResponderAUTHOther gostring

record SecurityAudit =
  sa_ResponderAUTH :: ResponderAUTHStatus
  CompatibilityOverride :: bool
  HighRisk :: bool
  Level :: gostring
  Code :: gostring
  Message :: gostring
  sa_IKEEncryption :: gostring
  sa_IKEIntegrity :: gostring
  sa_IKEDHGroup :: gostring
  sa_ESPEncryption :: gostring
  sa_ESPIntegrity :: gostring

record State =
  DeviceID :: gostring
  st_ICCID :: gostring
  st_IMSI :: gostring
  Phase :: Phase
  Enabled :: bool
  Active :: bool
  SIMReady :: bool
  AccessReady :: bool
  TunnelReady :: bool
  IMSReady :: bool
  SMSReady :: bool
  PureAirplanePolicy :: bool
  st_HomeMCC :: gostring
  st_HomeMNC :: gostring
  CarrierProfileID :: gostring
  CarrierProfileFrom :: gostring
  st_EPDG :: gostring
  st_ProxyMode :: gostring
  ProxyID :: gostring
  TunnelName :: gostring
  DataplaneMode :: gostring
  IMSRegistration :: gostring
  PhoneNumber :: gostring
  PhoneNumberSource :: gostring
  LastErrorClass :: gostring
  LastError :: gostring
  LastReason :: gostring
  Warnings :: "gostring list"
  CleanupErrors :: "gostring list"
  Security :: SecurityAudit
  Attempt :: "64 word"
  Sequence :: "64 word"
  StartedAt :: "int option"
  UpdatedAt :: int

record RadioSnapshot =
  CellularDataEnabled :: bool
  OperatingMode :: int
  rs_PureAirplanePolicy :: bool

record ProxyRoute =
  Mode :: gostring
  px_ID :: gostring
  px_Address :: gostring
  Username :: gostring
  Password :: gostring

record ProxyRequest =
  pq_ICCID :: gostring
  pq_HomeMCC :: gostring
  pq_HomeMNC :: gostring
  CountryCode :: gostring

record TunnelRequest =
  tq_Identity :: SIMIdentity
  tq_EPDG :: gostring
  tq_Proxy :: ProxyRoute
  AllowMissing :: bool

record TunnelEvidence =
  Established :: bool
  te_Name :: gostring
  te_DataplaneMode :: gostring
  ResponderAUTH :: ResponderAUTHStatus
  IKEEncryption :: gostring
  IKEIntegrity :: gostring
  IKEDHGroup :: gostring
  ESPEncryption :: gostring
  ESPIntegrity :: gostring

record Options =
  op_DeviceID :: gostring
  AllowMissingResponderAUTH :: bool
  AllowIMSWithoutSMS :: bool

subsection \<open>Calls and the environment\<close>

text \<open>A session is named by the number its provider gave it.\<close>

type_synonym session = nat

datatype dep_call =
    CallSnapshot | CallRFOff | CallStopData | CallReadIdentity | CallCheckReady SIMIdentity | CallReadSMSC
  | CallResolve ProxyRequest | CallTunnelStart TunnelRequest | CallTunnelEvidence session
  | CallIMSStart SIMIdentity session | CallIMSEvidence session | CallSaveNumber gostring gostring gostring
  | CallEnableSMS session | CallCloseIMS session | CallCloseTunnel session | CallRestore RadioSnapshot
  | CallWithSIM | CallSendSMS session | CallUSSI session | CallVoice session

text \<open>
  Besides calls and published states the trace notes when a checkpoint of the radio and a session
  became resources of the orchestrator.
\<close>

datatype event = Called dep_call | Published State | Took RadioSnapshot | TunnelUp session | IMSUp session

type_synonym 'a answer = "event list \<Rightarrow> 'a"

record Dependencies =
  Snapshot :: "(goerror + RadioSnapshot) answer"
  EnterVoWiFiRFOff :: "goerror option answer"
  StopCellularData :: "goerror option answer"
  Restore :: "goerror option answer"
  ReadIdentity :: "(goerror + SIMIdentity) answer"
  ReadSMSCenter :: "(goerror + gostring) answer option"
  CheckReady :: "(goerror + bool) answer"
  Resolve :: "(goerror + ProxyRoute) answer"
  TunnelStart :: "(goerror + session option) answer"
  TunnelEvidenceOf :: "TunnelEvidence answer"
  CloseTunnel :: "goerror option answer"
  IMSStart :: "(goerror + session option) answer"
  IMSEvidenceOf :: "IMSEvidence answer"
  EnableSMS :: "(goerror + bool) answer"
  CloseIMS :: "goerror option answer"
  SaveAssociatedNumber :: "goerror option answer"
  Now :: "int answer"
  Unicode :: unicode_env
  Rules :: "carrierProfileRule list answer"
  SendsSMS :: "session \<Rightarrow> bool"
  SendsUSSI :: "session \<Rightarrow> bool"
  ControlsCalls :: "session \<Rightarrow> bool"

text \<open>\<open>cancelled\<close> is set by the cancel function of the runtime context.\<close>

record runtimeResources =
  cancelled :: bool
  radio :: RadioSnapshot
  radioChanged :: bool
  tunnel :: "session option"
  ims :: "session option"

text \<open>
  \<open>resources\<close> is the pointer to the current resources: which allocation it is, and the record it
  points to.  A subscriber has the capacity of its channel and the states waiting in it.
\<close>

record orchestrator =
  st :: State
  resources :: "(nat \<times> runtimeResources) option"
  subscribers :: "(nat \<times> nat \<times> State list) list"
  nextSubscriber :: nat
  allocations :: nat
  trace :: "event list"

definition ask :: "'a answer \<Rightarrow> dep_call \<Rightarrow> orchestrator \<Rightarrow> 'a \<times> orchestrator" where
  "ask f c w = (let h = Called c # trace w in (f h, w\<lparr>trace := h\<rparr>))"

definition note_event :: "event \<Rightarrow> orchestrator \<Rightarrow> orchestrator" where
  "note_event e w = w\<lparr>trace := e # trace w\<rparr>"

text \<open>The resources of the operation that holds the lock.\<close>

definition no_radio :: RadioSnapshot where
  "no_radio = \<lparr>CellularDataEnabled = False, OperatingMode = 0, rs_PureAirplanePolicy = False\<rparr>"

definition new_resources :: runtimeResources where
  "new_resources = \<lparr>cancelled = False, radio = no_radio, radioChanged = False, tunnel = None, ims = None\<rparr>"

definition own :: "orchestrator \<Rightarrow> runtimeResources" where
  "own w = (case resources w of Some (_, r) \<Rightarrow> r | None \<Rightarrow> new_resources)"

definition with_own :: "(runtimeResources \<Rightarrow> runtimeResources) \<Rightarrow> orchestrator \<Rightarrow> orchestrator" where
  "with_own f w = w\<lparr>resources := map_option (map_prod id f) (resources w)\<rparr>"

subsection \<open>Published states\<close>

text \<open>One subscriber of \<open>mutate\<close>: a full channel loses its oldest state.\<close>

definition offer :: "State \<Rightarrow> nat \<times> State list \<Rightarrow> nat \<times> State list" where
  "offer snapshot sub =
     (case sub of (capacity, waiting) \<Rightarrow>
        if length waiting < capacity then (capacity, waiting @ [snapshot])
        else let waiting = tl waiting in
          if length waiting < capacity then (capacity, waiting @ [snapshot]) else (capacity, waiting))"

definition mutate :: "Dependencies \<Rightarrow> (State \<Rightarrow> State) \<Rightarrow> orchestrator \<Rightarrow> orchestrator" where
  "mutate d change w =
     (let s = change (st w);
          s = s\<lparr>Sequence := Sequence s + 1, UpdatedAt := Now d (trace w)\<rparr>
      in w\<lparr>st := s, subscribers := map (\<lambda>(id, sub). (id, offer s sub)) (subscribers w),
           trace := Published s # trace w\<rparr>)"

definition addWarning :: "Dependencies \<Rightarrow> gostring \<Rightarrow> orchestrator \<Rightarrow> orchestrator" where
  "addWarning d warning = mutate d (\<lambda>s. s\<lparr>Warnings := Warnings s @ [warning]\<rparr>)"

definition no_audit :: SecurityAudit where
  "no_audit =
     \<lparr>sa_ResponderAUTH = ResponderAUTHUnknown, CompatibilityOverride = False, HighRisk = False, Level = [], Code = [],
      Message = [], sa_IKEEncryption = [], sa_IKEIntegrity = [], sa_IKEDHGroup = [], sa_ESPEncryption = [],
      sa_ESPIntegrity = []\<rparr>"

definition blank_state :: "gostring \<Rightarrow> int \<Rightarrow> State" where
  "blank_state device now =
     \<lparr>DeviceID = device, st_ICCID = [], st_IMSI = [], Phase = PhaseIdle, Enabled = False, Active = False,
      SIMReady = False, AccessReady = False, TunnelReady = False, IMSReady = False, SMSReady = False,
      PureAirplanePolicy = False, st_HomeMCC = [], st_HomeMNC = [], CarrierProfileID = [], CarrierProfileFrom = [],
      st_EPDG = [], st_ProxyMode = [], ProxyID = [], TunnelName = [], DataplaneMode = [], IMSRegistration = [],
      PhoneNumber = [], PhoneNumberSource = [], LastErrorClass = [], LastError = [], LastReason = [], Warnings = [],
      CleanupErrors = [], Security = no_audit, Attempt = 0, Sequence = 0, StartedAt = None, UpdatedAt = now\<rparr>"

definition New :: "Dependencies \<Rightarrow> Options \<Rightarrow> orchestrator" where
  "New d opts =
     \<lparr>st = (blank_state (trim_space (op_DeviceID opts)) (Now d []))\<lparr>Sequence := 1\<rparr>, resources = None,
      subscribers = [], nextSubscriber = 0, allocations = 0, trace = []\<rparr>"

subsection \<open>Security evidence\<close>

definition securityAuditFromEvidence :: "TunnelEvidence \<Rightarrow> SecurityAudit" where
  "securityAuditFromEvidence evidence =
     no_audit\<lparr>sa_ResponderAUTH := ResponderAUTH evidence,
       sa_IKEEncryption := trim_space (IKEEncryption evidence), sa_IKEIntegrity := trim_space (IKEIntegrity evidence),
       sa_IKEDHGroup := trim_space (IKEDHGroup evidence), sa_ESPEncryption := trim_space (ESPEncryption evidence),
       sa_ESPIntegrity := trim_space (ESPIntegrity evidence)\<rparr>"

definition validateTunnelEvidence :: "Options \<Rightarrow> TunnelEvidence \<Rightarrow> SecurityAudit \<times> goerror option" where
  "validateTunnelEvidence opts evidence =
     (let audit = securityAuditFromEvidence evidence in
      case ResponderAUTH evidence of
        ResponderAUTHVerified \<Rightarrow> (audit, None)
      | ResponderAUTHMissing \<Rightarrow>
          if \<not> AllowMissingResponderAUTH opts then (audit, Some (sentinel_error ErrResponderAUTHRequired))
          else (audit\<lparr>CompatibilityOverride := True, HighRisk := True, Level := str ''high'',
                  Code := str ''missing_responder_auth_allowed'',
                  Message := str ''IKE responder AUTH was missing and accepted by explicit compatibility policy''\<rparr>, None)
      | ResponderAUTHInvalid \<Rightarrow>
          (audit, Some (wrap_sentinel ErrResponderAUTHRequired (str ''responder AUTH is invalid'')))
      | _ \<Rightarrow> (audit, Some (wrap_sentinel ErrResponderAUTHRequired (str ''responder AUTH evidence is unknown''))))"

definition normalizeProxyRoute :: "ProxyRoute \<Rightarrow> goerror + ProxyRoute" where
  "normalizeProxyRoute route0 =
     (let route = (if Mode route0 = [] then route0\<lparr>Mode := str ''direct''\<rparr> else route0);
          clean = (\<lambda>r. r\<lparr>px_ID := trim_space (px_ID r), px_Address := trim_space (px_Address r)\<rparr>)
      in if Mode route = str ''direct''
         then Inr (clean (route\<lparr>px_Address := [], Username := [], Password := []\<rparr>))
         else if Mode route = str ''socks5''
         then (if trim_space (px_Address route) = [] then Inl (plain_error ''vowifi: SOCKS5 proxy address is empty'')
               else Inr (clean route))
         else Inl (plain_error ''vowifi: unsupported proxy mode''))"

definition classifyError :: "Phase \<Rightarrow> goerror \<Rightarrow> gostring" where
  "classifyError stage err =
     (let is = (\<lambda>e. e \<in> set (err_chain err)) in
      if is Canceled then str ''canceled''
      else if is DeadlineExceeded then str ''timeout''
      else if err_timeout err then str ''network_timeout''
      else if is ErrInvalidIdentity then str ''sim_identity''
      else if is ErrEAPAuthenticationRejected then str ''eap_authentication_rejected''
      else if is ErrResponderAUTHRequired then str ''responder_auth''
      else if is ErrTunnelNotEstablished then str ''tunnel''
      else if is ErrIMSNotRegistered then str ''ims_registration''
      else if is ErrSMSNotReady then str ''sms''
      else phase_text stage)"

subsection \<open>Cleanup\<close>

definition close_error :: "string \<Rightarrow> goerror option \<Rightarrow> gostring list" where
  "close_error what err = (case err of None \<Rightarrow> [] | Some e \<Rightarrow> [str what @ err_text e])"

definition close_ims :: "Dependencies \<Rightarrow> orchestrator \<Rightarrow> gostring list \<times> orchestrator" where
  "close_ims d w =
     (case ims (own w) of
        None \<Rightarrow> ([], w)
      | Some i \<Rightarrow> (case ask (CloseIMS d) (CallCloseIMS i) w of
          (err, w) \<Rightarrow> (close_error ''close IMS: '' err, with_own (\<lambda>r. r\<lparr>ims := None\<rparr>) w)))"

definition close_tunnel :: "Dependencies \<Rightarrow> orchestrator \<Rightarrow> gostring list \<times> orchestrator" where
  "close_tunnel d w =
     (case tunnel (own w) of
        None \<Rightarrow> ([], w)
      | Some t \<Rightarrow> (case ask (CloseTunnel d) (CallCloseTunnel t) w of
          (err, w) \<Rightarrow> (close_error ''close tunnel: '' err, with_own (\<lambda>r. r\<lparr>tunnel := None\<rparr>) w)))"

definition cleanupSessions :: "Dependencies \<Rightarrow> orchestrator \<Rightarrow> gostring list \<times> orchestrator" where
  "cleanupSessions d w =
     (case resources w of
        None \<Rightarrow> ([], w)
      | Some _ \<Rightarrow> (case close_ims d w of (e1, w) \<Rightarrow> (case close_tunnel d w of (e2, w) \<Rightarrow> (e1 @ e2, w))))"

definition cleanup :: "Dependencies \<Rightarrow> orchestrator \<Rightarrow> gostring list \<times> orchestrator" where
  "cleanup d w =
     (case resources w of
        None \<Rightarrow> ([], w)
      | Some _ \<Rightarrow>
          (case cleanupSessions d w of (errs, w) \<Rightarrow>
             if radioChanged (own w) then
               (case ask (Restore d) (CallRestore (radio (own w))) w of
                  (err, w) \<Rightarrow> (errs @ close_error ''restore radio: '' err, with_own (\<lambda>r. r\<lparr>radioChanged := False\<rparr>) w))
             else (errs, w)))"

definition cancel_runtime :: "orchestrator \<Rightarrow> orchestrator" where
  "cancel_runtime = with_own (\<lambda>r. r\<lparr>cancelled := True\<rparr>)"

text \<open>Keep the resources only for the sake of the radio checkpoint.\<close>

definition retain_radio :: "orchestrator \<Rightarrow> orchestrator" where
  "retain_radio w = (if radioChanged (own w) then w else w\<lparr>resources := None\<rparr>)"

subsection \<open>Enable\<close>

text \<open>A stage of Enable ends with a value or with the stage and the error it failed with.\<close>

type_synonym 'a stage = "orchestrator \<Rightarrow> (Phase \<times> goerror + 'a) \<times> orchestrator"

definition sbind :: "'a stage \<Rightarrow> ('a \<Rightarrow> 'b stage) \<Rightarrow> 'b stage" where
  "sbind m f = (\<lambda>w. case m w of (Inl e, w) \<Rightarrow> (Inl e, w) | (Inr x, w) \<Rightarrow> f x w)"

definition done_with :: "'a \<Rightarrow> 'a stage" where
  "done_with x = (\<lambda>w. (Inr x, w))"

definition stop_at :: "Phase \<Rightarrow> goerror \<Rightarrow> 'a stage" where
  "stop_at stage err = (\<lambda>w. (Inl (stage, err), w))"

definition change_state :: "Dependencies \<Rightarrow> (State \<Rightarrow> State) \<Rightarrow> unit stage" where
  "change_state d change = (\<lambda>w. (Inr (), mutate d change w))"

definition call_for :: "Phase \<Rightarrow> (goerror + 'a) answer \<Rightarrow> dep_call \<Rightarrow> 'a stage" where
  "call_for stage f c = (\<lambda>w. case ask f c w of (Inl err, w) \<Rightarrow> (Inl (stage, err), w) | (Inr x, w) \<Rightarrow> (Inr x, w))"

definition call_do :: "Phase \<Rightarrow> goerror option answer \<Rightarrow> dep_call \<Rightarrow> unit stage" where
  "call_do stage f c = (\<lambda>w. case ask f c w of (Some err, w) \<Rightarrow> (Inl (stage, err), w) | (None, w) \<Rightarrow> (Inr (), w))"

definition query :: "'a answer \<Rightarrow> dep_call \<Rightarrow> 'a stage" where
  "query f c = (\<lambda>w. case ask f c w of (x, w) \<Rightarrow> (Inr x, w))"

text \<open>The radio is checkpointed once and switched off before the SIM is touched.\<close>

definition checkpoint_radio :: "Dependencies \<Rightarrow> unit stage" where
  "checkpoint_radio d = (\<lambda>w.
     if radioChanged (own w) then (Inr (), w)
     else sbind (call_for PhaseAccessReady (Snapshot d) CallSnapshot) (\<lambda>snap.
          sbind (change_state d (\<lambda>s. s\<lparr>PureAirplanePolicy := rs_PureAirplanePolicy snap\<rparr>)) (\<lambda>_ w.
            (Inr (), note_event (Took snap) (with_own (\<lambda>r. r\<lparr>radio := snap, radioChanged := True\<rparr>) w)))) w)"

definition radio_off :: "Dependencies \<Rightarrow> unit stage" where
  "radio_off d =
     sbind (checkpoint_radio d) (\<lambda>_.
     sbind (call_do PhaseAccessReady (EnterVoWiFiRFOff d) CallRFOff) (\<lambda>_.
     call_do PhaseAccessReady (StopCellularData d) CallStopData))"

definition read_smsc :: "Dependencies \<Rightarrow> SIMIdentity \<Rightarrow> SIMIdentity stage" where
  "read_smsc d identity =
     (case ReadSMSCenter d of
        None \<Rightarrow> done_with identity
      | Some reader \<Rightarrow>
          sbind (query reader CallReadSMSC) (\<lambda>answer.
            case answer of
              Inr smsc \<Rightarrow> done_with (identity\<lparr>SMSC := trim_space smsc\<rparr>)
            | Inl err \<Rightarrow> (\<lambda>w. (Inr identity, addWarning d
                (str ''SIM SMS service-centre address is unavailable; IMS receive remains available: '' @ err_text err) w))))"

definition read_sim :: "Dependencies \<Rightarrow> SIMIdentity stage" where
  "read_sim d =
     sbind (call_for PhaseSIMReady (ReadIdentity d) CallReadIdentity) (\<lambda>identity.
       case identity_validate identity of
         Some err \<Rightarrow> stop_at PhaseSIMReady err
       | None \<Rightarrow>
           sbind (call_for PhaseSIMReady (CheckReady d) (CallCheckReady identity)) (\<lambda>ready.
             if \<not> ready then stop_at PhaseSIMReady (plain_error ''AKA application is not ready'')
             else read_smsc d identity))"

definition announce_sim :: "Dependencies \<Rightarrow> SIMIdentity \<Rightarrow> unit stage" where
  "announce_sim d identity = (\<lambda>w.
     let carrierProfile = ResolveCarrierProfile (Unicode d) (Rules d (trace w)) identity in
     change_state d (\<lambda>s. s\<lparr>Phase := PhaseSIMReady, st_ICCID := trim_space (id_ICCID identity),
       st_IMSI := trim_space (id_IMSI identity), SIMReady := True, st_HomeMCC := trim_space (HomeMCC identity),
       st_HomeMNC := trim_space (HomeMNC identity), CarrierProfileID := cp_ID carrierProfile,
       CarrierProfileFrom := MatchSource carrierProfile, LastReason := str ''sim_and_aka_ready''\<rparr>) w)"

definition proxy_request :: "Dependencies \<Rightarrow> SIMIdentity \<Rightarrow> ProxyRequest" where
  "proxy_request d identity =
     \<lparr>pq_ICCID = trim_space (id_ICCID identity), pq_HomeMCC = trim_space (HomeMCC identity),
      pq_HomeMNC = trim_space (HomeMNC identity), CountryCode = upper (Unicode d) (trim_space (HomeCountryCode identity))\<rparr>"

definition find_access :: "Dependencies \<Rightarrow> SIMIdentity \<Rightarrow> (gostring \<times> ProxyRoute) stage" where
  "find_access d identity = (\<lambda>w.
     case DeriveEPDG (Unicode d) (Rules d (trace w)) identity of
       Inl err \<Rightarrow> stop_at PhaseAccessReady err w
     | Inr epdg \<Rightarrow>
         sbind (call_for PhaseAccessReady (Resolve d) (CallResolve (proxy_request d identity))) (\<lambda>proxy0.
           case normalizeProxyRoute proxy0 of
             Inl err \<Rightarrow> stop_at PhaseAccessReady err
           | Inr proxy \<Rightarrow>
               sbind (change_state d (\<lambda>s. s\<lparr>Phase := PhaseAccessReady, AccessReady := True, st_EPDG := epdg,
                 st_ProxyMode := Mode proxy, ProxyID := px_ID proxy, LastReason := str ''epdg_access_ready''\<rparr>)) (\<lambda>_.
               done_with (epdg, proxy))) w)"

definition tunnel_request :: "Options \<Rightarrow> SIMIdentity \<Rightarrow> gostring \<times> ProxyRoute \<Rightarrow> TunnelRequest" where
  "tunnel_request opts identity access =
     \<lparr>tq_Identity = identity, tq_EPDG = fst access, tq_Proxy = snd access, AllowMissing = AllowMissingResponderAUTH opts\<rparr>"

text \<open>The evidence of a new tunnel is audited before the tunnel counts as ready.\<close>

definition audit_tunnel :: "Dependencies \<Rightarrow> Options \<Rightarrow> session \<Rightarrow> session stage" where
  "audit_tunnel d opts t =
     sbind (query (TunnelEvidenceOf d) (CallTunnelEvidence t)) (\<lambda>evidence.
       if \<not> Established evidence then
         sbind (change_state d (\<lambda>s. s\<lparr>Security := securityAuditFromEvidence evidence\<rparr>)) (\<lambda>_.
           stop_at PhaseTunnelReady (sentinel_error ErrTunnelNotEstablished))
       else
         (case validateTunnelEvidence opts evidence of (audit, err) \<Rightarrow>
            sbind (change_state d (\<lambda>s. s\<lparr>Security := audit\<rparr>)) (\<lambda>_.
              case err of
                Some e \<Rightarrow> stop_at PhaseTunnelReady e
              | None \<Rightarrow>
                  sbind (change_state d (\<lambda>s. s\<lparr>Phase := PhaseTunnelReady, Active := True, TunnelReady := True,
                    TunnelName := trim_space (te_Name evidence), DataplaneMode := trim_space (te_DataplaneMode evidence),
                    LastReason := str ''ipsec_tunnel_ready''\<rparr>)) (\<lambda>_.
                  done_with t))))"

definition open_tunnel :: "Dependencies \<Rightarrow> Options \<Rightarrow> SIMIdentity \<Rightarrow> gostring \<times> ProxyRoute \<Rightarrow> session stage" where
  "open_tunnel d opts identity access =
     sbind (call_for PhaseTunnelReady (TunnelStart d) (CallTunnelStart (tunnel_request opts identity access))) (\<lambda>started.
       case started of
         None \<Rightarrow> stop_at PhaseTunnelReady (plain_error ''tunnel provider returned a nil session'')
       | Some t \<Rightarrow> (\<lambda>w. audit_tunnel d opts t (note_event (TunnelUp t) (with_own (\<lambda>r. r\<lparr>tunnel := Some t\<rparr>) w))))"

definition audit_ims :: "Dependencies \<Rightarrow> session \<Rightarrow> (session \<times> IMSEvidence) stage" where
  "audit_ims d i =
     sbind (query (IMSEvidenceOf d) (CallIMSEvidence i)) (\<lambda>evidence.
       if \<not> Registered evidence then stop_at PhaseIMSReady (sentinel_error ErrIMSNotRegistered)
       else
         sbind (change_state d (\<lambda>s. s\<lparr>Phase := PhaseIMSReady, IMSReady := True,
           IMSRegistration := trim_space (RegistrationState evidence), LastReason := str ''ims_registered''\<rparr>)) (\<lambda>_.
         done_with (i, evidence)))"

definition open_ims :: "Dependencies \<Rightarrow> SIMIdentity \<Rightarrow> session \<Rightarrow> (session \<times> IMSEvidence) stage" where
  "open_ims d identity t =
     sbind (call_for PhaseIMSReady (IMSStart d) (CallIMSStart identity t)) (\<lambda>started.
       case started of
         None \<Rightarrow> stop_at PhaseIMSReady (plain_error ''IMS provider returned a nil session'')
       | Some i \<Rightarrow> (\<lambda>w. audit_ims d i (note_event (IMSUp i) (with_own (\<lambda>r. r\<lparr>ims := Some i\<rparr>) w))))"

definition save_number :: "Dependencies \<Rightarrow> SIMIdentity \<Rightarrow> IMSEvidence \<Rightarrow> unit stage" where
  "save_number d identity evidence =
     (case ExtractAssociatedMSISDN (Unicode d) evidence of
        None \<Rightarrow> (\<lambda>w. (Inr (), addWarning d
          (str ''IMS did not publish an associated MSISDN; the number was not inferred from IMSI'') w))
      | Some (number, source) \<Rightarrow>
          sbind (query (SaveAssociatedNumber d) (CallSaveNumber (trim_space (id_ICCID identity)) number source)) (\<lambda>answer.
            case answer of
              Some err \<Rightarrow> (\<lambda>w. (Inr (), addWarning d
                (str ''IMS associated number is valid but could not be persisted: '' @ err_text err) w))
            | None \<Rightarrow> change_state d (\<lambda>s. s\<lparr>PhoneNumber := number, PhoneNumberSource := source\<rparr>)))"

definition settle_without_sms :: "Dependencies \<Rightarrow> gostring \<Rightarrow> unit stage" where
  "settle_without_sms d warning = (\<lambda>w. change_state d
     (\<lambda>s. s\<lparr>LastReason := str ''ims_registered_sms_unavailable'', LastError := [], LastErrorClass := [], CleanupErrors := []\<rparr>)
     (addWarning d warning w))"

definition start_sms :: "Dependencies \<Rightarrow> Options \<Rightarrow> session \<Rightarrow> unit stage" where
  "start_sms d opts i =
     sbind (query (EnableSMS d) (CallEnableSMS i)) (\<lambda>answer.
       case answer of
         Inl err \<Rightarrow>
           if AllowIMSWithoutSMS opts
           then settle_without_sms d (str ''IMS is registered but SMS capability was not confirmed: '' @ err_text err)
           else stop_at PhaseSMSReady err
       | Inr ready \<Rightarrow>
           if \<not> ready then
             (if AllowIMSWithoutSMS opts
              then settle_without_sms d (str ''IMS is registered but SMS capability was not confirmed'')
              else stop_at PhaseSMSReady (sentinel_error ErrSMSNotReady))
           else change_state d (\<lambda>s. s\<lparr>Phase := PhaseSMSReady, SMSReady := True, LastReason := str ''sms_ready'',
                  LastError := [], LastErrorClass := [], CleanupErrors := []\<rparr>))"

definition bring_up :: "Dependencies \<Rightarrow> Options \<Rightarrow> unit stage" where
  "bring_up d opts =
     sbind (radio_off d) (\<lambda>_.
     sbind (read_sim d) (\<lambda>identity.
     sbind (announce_sim d identity) (\<lambda>_.
     sbind (find_access d identity) (\<lambda>access.
     sbind (open_tunnel d opts identity access) (\<lambda>t.
     sbind (open_ims d identity t) (\<lambda>(i, evidence).
     sbind (save_number d identity evidence) (\<lambda>_.
     start_sms d opts i)))))))"

text \<open>\<open>fail\<close>: sessions are closed, the radio checkpoint is kept.\<close>

definition stage_error :: "Phase \<Rightarrow> goerror \<Rightarrow> gostring list \<Rightarrow> goerror" where
  "stage_error stage cause cleanupErrors =
     (let text = str ''vowifi '' @ phase_text stage @ str '': '' @ err_text cause in
      cause\<lparr>err_text := (if cleanupErrors = [] then text
        else text @ [10] @ str ''vowifi cleanup: '' @ joined (str ''; '') cleanupErrors)\<rparr>)"

definition failed_state :: "Phase \<Rightarrow> goerror \<Rightarrow> gostring list \<Rightarrow> State \<Rightarrow> State" where
  "failed_state stage cause cleanupErrors s =
     s\<lparr>Phase := PhaseFailed, Active := False, TunnelReady := False, IMSReady := False, SMSReady := False,
       LastErrorClass := classifyError stage cause, LastError := err_text cause, LastReason := str ''enable_failed'',
       CleanupErrors := cleanupErrors\<rparr>"

definition fail_enable :: "Dependencies \<Rightarrow> Phase \<Rightarrow> goerror \<Rightarrow> orchestrator \<Rightarrow> goerror option \<times> orchestrator" where
  "fail_enable d stage cause w =
     (case cleanupSessions d (cancel_runtime w) of (cleanupErrors, w) \<Rightarrow>
        (Some (stage_error stage cause cleanupErrors),
         mutate d (failed_state stage cause cleanupErrors) (retain_radio w)))"

definition begin_enable :: "Dependencies \<Rightarrow> Options \<Rightarrow> orchestrator \<Rightarrow> orchestrator" where
  "begin_enable d opts w =
     (let current = st w;
          now = Now d (trace w);
          w = mutate d (\<lambda>s. (blank_state (trim_space (op_DeviceID opts)) now)\<lparr>Enabled := True, Attempt := Attempt s + 1,
                Sequence := Sequence s, StartedAt := Some now, LastReason := str ''enable_requested''\<rparr>) w;
          r = (case resources w of
                 Some (_, retained) \<Rightarrow>
                   if Phase current = PhaseFailed \<and> radioChanged retained
                   then new_resources\<lparr>radio := radio retained, radioChanged := True\<rparr> else new_resources
               | None \<Rightarrow> new_resources)
      in w\<lparr>resources := Some (allocations w, r), allocations := allocations w + 1\<rparr>)"

definition Enable :: "Dependencies \<Rightarrow> Options \<Rightarrow> orchestrator \<Rightarrow> goerror option \<times> orchestrator" where
  "Enable d opts w =
     (if Phase (st w) \<in> {PhaseSIMReady, PhaseAccessReady, PhaseTunnelReady, PhaseIMSReady, PhaseSMSReady, PhaseStopping}
      then (Some (sentinel_error ErrAlreadyEnabled), w)
      else case bring_up d opts (begin_enable d opts w) of
          (Inl (stage, cause), w) \<Rightarrow> fail_enable d stage cause w
        | (Inr _, w) \<Rightarrow> (None, w))"

subsection \<open>The other operations\<close>

definition stopping_state :: "State \<Rightarrow> State" where
  "stopping_state s =
     s\<lparr>Phase := PhaseStopping, Enabled := False, Active := False, TunnelReady := False, IMSReady := False,
       SMSReady := False, IMSRegistration := [], LastReason := str ''disable_requested''\<rparr>"

definition idle_state :: "gostring \<Rightarrow> gostring \<Rightarrow> gostring \<Rightarrow> gostring list \<Rightarrow> State \<Rightarrow> State" where
  "idle_state errorClass error reason cleanupErrors s =
     s\<lparr>Phase := PhaseIdle, Enabled := False, Active := False, SIMReady := False, AccessReady := False,
       TunnelReady := False, IMSReady := False, SMSReady := False, TunnelName := [], DataplaneMode := [],
       IMSRegistration := [], LastErrorClass := errorClass, LastError := error, LastReason := reason,
       CleanupErrors := cleanupErrors, StartedAt := None\<rparr>"

definition Disable :: "Dependencies \<Rightarrow> orchestrator \<Rightarrow> goerror option \<times> orchestrator" where
  "Disable d w =
     (if resources w = None \<and> Phase (st w) = PhaseIdle then (None, w)
      else case cleanup d (cancel_runtime (mutate d stopping_state w)) of (cleanupErrors, w) \<Rightarrow>
        let w = w\<lparr>resources := None\<rparr> in
        if cleanupErrors \<noteq> [] then
          let cause = wrap_sentinel ErrCleanupIncomplete (joined (str ''; '') cleanupErrors)
          in (Some cause, mutate d (idle_state (str ''cleanup_warning'') (err_text cause)
                (str ''disabled_with_cleanup_errors'') cleanupErrors) w)
        else (None, mutate d (idle_state [] [] (str ''disabled'') []) w))"

text \<open>Retry, and the two critical sections of Reconnect; the checks before the lock see an earlier state.\<close>

definition retry_allowed :: "State \<Rightarrow> bool" where
  "retry_allowed s \<longleftrightarrow> Phase s = PhaseFailed"

definition reconnect_allowed :: "State \<Rightarrow> bool" where
  "reconnect_allowed s \<longleftrightarrow> \<not> (\<not> Enabled s \<and> Phase s = PhaseIdle)"

definition reconnect_teardown :: "Dependencies \<Rightarrow> orchestrator \<Rightarrow> orchestrator" where
  "reconnect_teardown d w =
     (case cleanupSessions d (cancel_runtime w) of (cleanupErrors, w) \<Rightarrow>
        mutate d (\<lambda>s. s\<lparr>Phase := PhaseFailed, Enabled := True, Active := False, TunnelReady := False, IMSReady := False,
          SMSReady := False, LastReason := str ''reconnect_requested'', CleanupErrors := cleanupErrors\<rparr>) w)"

definition Retry :: "Dependencies \<Rightarrow> Options \<Rightarrow> orchestrator \<Rightarrow> goerror option \<times> orchestrator" where
  "Retry d opts w =
     (if \<not> retry_allowed (st w) then (Some (sentinel_error ErrRetryRequiresFailure), w) else Enable d opts w)"

definition Reconnect :: "Dependencies \<Rightarrow> Options \<Rightarrow> orchestrator \<Rightarrow> goerror option \<times> orchestrator" where
  "Reconnect d opts w =
     (if \<not> reconnect_allowed (st w) then (Some (sentinel_error ErrNotRunning), w)
      else Enable d opts (reconnect_teardown d w))"

text \<open>
  A watcher reports that a session of allocation \<open>n\<close> stopped; the report counts only while those
  resources are the current ones.
\<close>

definition runtime_failure ::
  "Dependencies \<Rightarrow> nat \<Rightarrow> goerror option \<Rightarrow> gostring \<Rightarrow> gostring \<Rightarrow> orchestrator \<Rightarrow> orchestrator" where
  "runtime_failure d n cause0 errorClass reason w =
     (let cause = (case cause0 of None \<Rightarrow> plain_error ''VoWiFi runtime session stopped'' | Some e \<Rightarrow> e) in
      if map_option fst (resources w) \<noteq> Some n then w
      else case cleanupSessions d (cancel_runtime w) of (cleanupErrors, w) \<Rightarrow>
        mutate d (\<lambda>s. s\<lparr>Phase := PhaseFailed, Active := False, TunnelReady := False, IMSReady := False,
          SMSReady := False, LastErrorClass := errorClass, LastError := err_text cause, LastReason := reason,
          CleanupErrors := cleanupErrors\<rparr>) (retain_radio w))"

text \<open>The session an operation on a registered session may use.\<close>

definition usable_ims :: "bool \<Rightarrow> orchestrator \<Rightarrow> session option" where
  "usable_ims ready w = (if \<not> ready then None else case resources w of None \<Rightarrow> None | Some (_, r) \<Rightarrow> ims r)"

definition SendSMS :: "Dependencies \<Rightarrow> orchestrator \<Rightarrow> (sentinel + session) \<times> orchestrator" where
  "SendSMS d w =
     (case usable_ims (IMSReady (st w) \<and> SMSReady (st w)) w of
        None \<Rightarrow> (Inl ErrSMSNotReady, w)
      | Some i \<Rightarrow> if \<not> SendsSMS d i then (Inl ErrSMSNotReady, w) else (Inr i, note_event (Called (CallSendSMS i)) w))"

definition SendUSSI :: "Dependencies \<Rightarrow> orchestrator \<Rightarrow> (sentinel + session) \<times> orchestrator" where
  "SendUSSI d w =
     (case usable_ims (IMSReady (st w)) w of
        None \<Rightarrow> (Inl ErrUSSINotReady, w)
      | Some i \<Rightarrow> if \<not> SendsUSSI d i then (Inl ErrUSSINotReady, w) else (Inr i, note_event (Called (CallUSSI i)) w))"

definition callAction :: "Dependencies \<Rightarrow> orchestrator \<Rightarrow> (sentinel + session) \<times> orchestrator" where
  "callAction d w =
     (case usable_ims (IMSReady (st w)) w of
        None \<Rightarrow> (Inl ErrNotRunning, w)
      | Some i \<Rightarrow> if \<not> ControlsCalls d i then (Inl ErrNotRunning, w) else (Inr i, note_event (Called (CallVoice i)) w))"

definition WithSIM :: "Dependencies \<Rightarrow> orchestrator \<Rightarrow> (goerror + SIMIdentity) \<times> orchestrator" where
  "WithSIM d w = ask (ReadIdentity d) CallWithSIM w"

text \<open>Subscribers: a new one gets the current state at once; receiving takes the oldest waiting state.\<close>

definition Subscribe :: "nat \<Rightarrow> orchestrator \<Rightarrow> nat \<times> orchestrator" where
  "Subscribe buffer0 w =
     (let buffer = (if buffer0 < 1 then 1 else buffer0)
      in (nextSubscriber w,
          w\<lparr>subscribers := (nextSubscriber w, buffer, [st w]) # subscribers w, nextSubscriber := nextSubscriber w + 1\<rparr>))"

definition unsubscribe :: "nat \<Rightarrow> orchestrator \<Rightarrow> orchestrator" where
  "unsubscribe n w = w\<lparr>subscribers := filter (\<lambda>(i, _). i \<noteq> n) (subscribers w)\<rparr>"

definition receive :: "nat \<Rightarrow> orchestrator \<Rightarrow> orchestrator" where
  "receive n w =
     w\<lparr>subscribers := map (\<lambda>(i, capacity, waiting). (i, capacity, if i = n then tl waiting else waiting)) (subscribers w)\<rparr>"

end
