(* ===== verification/Orchestrator_Runs.thy ===== *)
theory Orchestrator_Runs
  imports Orchestrator
begin

text \<open>
  The runs of the orchestrator and its abstract protocol.  An automaton over the trace states what the
  orchestrator promises to its providers and subscribers; every reachable orchestrator refines it.
\<close>

subsection \<open>The protocol\<close>

text \<open>An audit that lets a tunnel count as ready.\<close>

definition audit_accepts :: "Options \<Rightarrow> SecurityAudit \<Rightarrow> bool" where
  "audit_accepts opts audit \<longleftrightarrow>
     sa_ResponderAUTH audit = ResponderAUTHVerified \<and> \<not> HighRisk audit
     \<or> sa_ResponderAUTH audit = ResponderAUTHMissing \<and> AllowMissingResponderAUTH opts
       \<and> HighRisk audit \<and> CompatibilityOverride audit"

text \<open>The readiness flags of a state follow its phase.\<close>

definition coherent :: "Options \<Rightarrow> State \<Rightarrow> bool" where
  "coherent opts s \<longleftrightarrow>
     (TunnelReady s \<longleftrightarrow> Phase s \<in> {PhaseTunnelReady, PhaseIMSReady, PhaseSMSReady})
     \<and> (IMSReady s \<longleftrightarrow> Phase s \<in> {PhaseIMSReady, PhaseSMSReady})
     \<and> (SMSReady s \<longleftrightarrow> Phase s = PhaseSMSReady)
     \<and> (Active s \<longleftrightarrow> TunnelReady s)
     \<and> (AccessReady s \<longrightarrow> SIMReady s)
     \<and> (TunnelReady s \<longrightarrow> AccessReady s \<and> Enabled s \<and> audit_accepts opts (Security s))
     \<and> (Phase s = PhaseIdle \<longrightarrow> \<not> SIMReady s)
     \<and> (Phase s = PhaseSIMReady \<longrightarrow> SIMReady s) \<and> (Phase s = PhaseAccessReady \<longrightarrow> AccessReady s)"

text \<open>
  What an observer of the trace knows: the radio checkpoint not yet restored, whether the radio was
  switched off since, the open sessions, and the state shown last.
\<close>

record observed =
  w_checkpoint :: "RadioSnapshot option"
  w_off :: bool
  w_tunnel :: "session option"
  w_ims :: "session option"
  w_shown :: State

fun advance :: "observed \<Rightarrow> event \<Rightarrow> observed" where
  "advance v (Called c) =
     (case c of
        CallRFOff \<Rightarrow> v\<lparr>w_off := True\<rparr>
      | CallCloseIMS i \<Rightarrow> v\<lparr>w_ims := None\<rparr>
      | CallCloseTunnel t \<Rightarrow> v\<lparr>w_tunnel := None\<rparr>
      | CallRestore s \<Rightarrow> v\<lparr>w_checkpoint := None, w_off := False\<rparr>
      | _ \<Rightarrow> v)"
| "advance v (Published s) = v\<lparr>w_shown := s\<rparr>"
| "advance v (Took s) = v\<lparr>w_checkpoint := Some s\<rparr>"
| "advance v (TunnelUp t) = v\<lparr>w_tunnel := Some t\<rparr>"
| "advance v (IMSUp i) = v\<lparr>w_ims := Some i\<rparr>"

text \<open>
  The rules.  A checkpoint is taken only when none is pending and is restored as it was taken, after
  the sessions are closed; the SIM and the network are used only while the radio is off; at most one
  tunnel and one IMS session are open, IMS inside the tunnel, each closed once and IMS first; messages,
  USSI and calls use the open session while the state shown says it is ready; and a state that shows a
  tunnel or a registration is published only while that session is open.
\<close>

fun allowed :: "Options \<Rightarrow> observed \<Rightarrow> event \<Rightarrow> bool" where
  "allowed opts v (Called c) \<longleftrightarrow>
     (case c of
        CallSnapshot \<Rightarrow> w_checkpoint v = None
      | CallRFOff \<Rightarrow> w_checkpoint v \<noteq> None
      | CallStopData \<Rightarrow> w_checkpoint v \<noteq> None \<and> w_off v
      | CallReadIdentity \<Rightarrow> w_checkpoint v \<noteq> None \<and> w_off v
      | CallCheckReady _ \<Rightarrow> w_checkpoint v \<noteq> None \<and> w_off v
      | CallReadSMSC \<Rightarrow> w_checkpoint v \<noteq> None \<and> w_off v
      | CallResolve _ \<Rightarrow> w_checkpoint v \<noteq> None \<and> w_off v \<and> SIMReady (w_shown v)
      | CallTunnelStart request \<Rightarrow> w_checkpoint v \<noteq> None \<and> w_off v \<and> w_tunnel v = None \<and> w_ims v = None
          \<and> AccessReady (w_shown v) \<and> AllowMissing request = AllowMissingResponderAUTH opts
      | CallTunnelEvidence t \<Rightarrow> w_tunnel v = Some t
      | CallIMSStart _ t \<Rightarrow> w_off v \<and> w_tunnel v = Some t \<and> w_ims v = None \<and> TunnelReady (w_shown v)
      | CallIMSEvidence i \<Rightarrow> w_ims v = Some i
      | CallSaveNumber _ _ _ \<Rightarrow> IMSReady (w_shown v)
      | CallEnableSMS i \<Rightarrow> w_ims v = Some i \<and> IMSReady (w_shown v)
      | CallCloseIMS i \<Rightarrow> w_ims v = Some i
      | CallCloseTunnel t \<Rightarrow> w_tunnel v = Some t \<and> w_ims v = None
      | CallRestore s \<Rightarrow> w_checkpoint v = Some s \<and> w_tunnel v = None \<and> w_ims v = None
      | CallWithSIM \<Rightarrow> True
      | CallSendSMS i \<Rightarrow> w_ims v = Some i \<and> SMSReady (w_shown v)
      | CallUSSI i \<Rightarrow> w_ims v = Some i \<and> IMSReady (w_shown v)
      | CallVoice i \<Rightarrow> w_ims v = Some i \<and> IMSReady (w_shown v))"
| "allowed opts v (Published s) \<longleftrightarrow>
     coherent opts s \<and> Sequence s = Sequence (w_shown v) + 1
     \<and> (TunnelReady s \<longrightarrow> w_tunnel v \<noteq> None \<and> w_off v) \<and> (IMSReady s \<longrightarrow> w_ims v \<noteq> None)"
| "allowed opts v (Took s) \<longleftrightarrow> w_checkpoint v = None"
| "allowed opts v (TunnelUp t) \<longleftrightarrow> w_off v \<and> w_tunnel v = None \<and> w_ims v = None"
| "allowed opts v (IMSUp i) \<longleftrightarrow> w_tunnel v \<noteq> None \<and> w_ims v = None"

text \<open>The trace, newest event first, under the rules: what is known at its end, or \<open>None\<close>.\<close>

fun replay :: "Options \<Rightarrow> observed \<Rightarrow> event list \<Rightarrow> observed option" where
  "replay opts v [] = Some v"
| "replay opts v (e # h) =
     (case replay opts v h of None \<Rightarrow> None | Some v' \<Rightarrow> if allowed opts v' e then Some (advance v' e) else None)"

subsection \<open>Steps\<close>

inductive orch_step :: "Dependencies \<Rightarrow> Options \<Rightarrow> orchestrator \<Rightarrow> orchestrator \<Rightarrow> bool" for d opts where
  step_enable: "orch_step d opts w (snd (Enable d opts w))"
| step_disable: "orch_step d opts w (snd (Disable d w))"
| step_teardown: "orch_step d opts w (reconnect_teardown d w)"
| step_failure: "orch_step d opts w (runtime_failure d n cause errorClass reason w)"
| step_sms: "orch_step d opts w (snd (SendSMS d w))"
| step_ussi: "orch_step d opts w (snd (SendUSSI d w))"
| step_call: "orch_step d opts w (snd (callAction d w))"
| step_with_sim: "orch_step d opts w (snd (WithSIM d w))"
| step_cancel: "orch_step d opts w (cancel_runtime w)"
| step_subscribe: "orch_step d opts w (snd (Subscribe n w))"
| step_unsubscribe: "orch_step d opts w (unsubscribe n w)"
| step_receive: "orch_step d opts w (receive n w)"

inductive orch_reachable :: "Dependencies \<Rightarrow> Options \<Rightarrow> orchestrator \<Rightarrow> bool" for d opts where
  reach_new: "orch_reachable d opts (New d opts)"
| reach_step: "orch_reachable d opts w \<Longrightarrow> orch_step d opts w w' \<Longrightarrow> orch_reachable d opts w'"

subsection \<open>Agreement\<close>

definition start :: "Dependencies \<Rightarrow> Options \<Rightarrow> observed" where
  "start d opts = \<lparr>w_checkpoint = None, w_off = False, w_tunnel = None, w_ims = None, w_shown = st (New d opts)\<rparr>"

definition agrees :: "orchestrator \<Rightarrow> observed \<Rightarrow> bool" where
  "agrees w v \<longleftrightarrow> w_shown v = st w
     \<and> w_tunnel v = tunnel (own w) \<and> w_ims v = ims (own w)
     \<and> w_checkpoint v = (if radioChanged (own w) then Some (radio (own w)) else None)"

definition sane :: "Options \<Rightarrow> observed \<Rightarrow> bool" where
  "sane opts v \<longleftrightarrow> (w_off v \<longrightarrow> w_checkpoint v \<noteq> None) \<and> (w_ims v \<noteq> None \<longrightarrow> w_tunnel v \<noteq> None)
     \<and> (w_tunnel v \<noteq> None \<longrightarrow> w_off v) \<and> coherent opts (w_shown v)"

definition holds :: "Dependencies \<Rightarrow> Options \<Rightarrow> orchestrator \<Rightarrow> observed \<Rightarrow> bool" where
  "holds d opts w v \<longleftrightarrow> replay opts (start d opts) (trace w) = Some v \<and> agrees w v \<and> sane opts v"

lemma own_simps [simp]:
  "own (w\<lparr>st := s\<rparr>) = own w" "own (w\<lparr>trace := h\<rparr>) = own w" "own (w\<lparr>subscribers := sb\<rparr>) = own w"
  "own (w\<lparr>resources := None\<rparr>) = new_resources" "own (w\<lparr>resources := Some (n, r)\<rparr>) = r"
  "own (w\<lparr>allocations := k\<rparr>) = own w" "own (w\<lparr>nextSubscriber := k\<rparr>) = own w"
  by (simp_all add: own_def)

lemma own_with_own [simp]: "resources w \<noteq> None \<Longrightarrow> own (with_own f w) = f (own w)"
  by (auto simp: own_def with_own_def)

lemma with_own_fields [simp]:
  "st (with_own f w) = st w" "trace (with_own f w) = trace w" "subscribers (with_own f w) = subscribers w"
  "(resources (with_own f w) = None) = (resources w = None)" "resources w = None \<Longrightarrow> with_own f w = w"
  "own (note_event e w) = own w" "st (note_event e w) = st w" "resources (note_event e w) = resources w"
  "trace (note_event e w) = e # trace w" "subscribers (note_event e w) = subscribers w"
  by (auto simp: with_own_def note_event_def own_def)

lemma new_resources_fields [simp]:
  "radioChanged new_resources = False" "tunnel new_resources = None" "ims new_resources = None"
  by (simp_all add: new_resources_def)

lemma mutate_fields [simp]:
  "resources (mutate d f w) = resources w" "own (mutate d f w) = own w"
  "st (mutate d f w) = (f (st w))\<lparr>Sequence := Sequence (f (st w)) + 1, UpdatedAt := Now d (trace w)\<rparr>"
  "trace (mutate d f w) = Published (st (mutate d f w)) # trace w"
  "allocations (mutate d f w) = allocations w"
  by (simp_all add: mutate_def Let_def own_def)

lemma coherent_stamp [simp]: "coherent opts (s\<lparr>Sequence := k, UpdatedAt := t\<rparr>) = coherent opts s"
  by (simp add: coherent_def)

lemma agrees_trace [simp]: "agrees (w\<lparr>trace := h\<rparr>) v = agrees w v"
  by (simp add: agrees_def)

lemma holds_shown: "holds d opts w v \<Longrightarrow> w_shown v = st w" and holds_sane: "holds d opts w v \<Longrightarrow> sane opts v"
  by (simp_all add: holds_def agrees_def)

lemma agrees_mutate: "agrees w v \<Longrightarrow> agrees (mutate d f w) (v\<lparr>w_shown := st (mutate d f w)\<rparr>)"
  by (simp add: agrees_def)

lemma coherent_other [simp]:
  "coherent opts (s\<lparr>Warnings := ws\<rparr>) = coherent opts s" "coherent opts (s\<lparr>PureAirplanePolicy := b\<rparr>) = coherent opts s"
  "coherent opts (s\<lparr>PhoneNumber := n, PhoneNumberSource := src\<rparr>) = coherent opts s"
  "coherent opts (s\<lparr>LastErrorClass := c, LastError := e, LastReason := r, CleanupErrors := ce\<rparr>) = coherent opts s"
  by (simp_all add: coherent_def)

lemma holds_mutate:
  assumes "holds d opts w v" "coherent opts (f (st w))" "Sequence (f (st w)) = Sequence (st w)"
    and "TunnelReady (f (st w)) \<Longrightarrow> w_tunnel v \<noteq> None" "IMSReady (f (st w)) \<Longrightarrow> w_ims v \<noteq> None"
  shows "holds d opts (mutate d f w) (v\<lparr>w_shown := st (mutate d f w)\<rparr>)"
proof -
  have shown: "w_shown v = st w" by (rule holds_shown [OF assms(1)])
  have "allowed opts v (Published (st (mutate d f w)))"
    using assms shown by (auto simp: holds_def sane_def)
  moreover have "sane opts (v\<lparr>w_shown := st (mutate d f w)\<rparr>)"
    using assms(1,2) by (simp add: holds_def sane_def)
  moreover have "agrees (mutate d f w) (v\<lparr>w_shown := st (mutate d f w)\<rparr>)"
    using assms(1) by (intro agrees_mutate) (simp add: holds_def)
  moreover have "replay opts (start d opts) (trace w) = Some v" using assms(1) by (simp add: holds_def)
  ultimately show ?thesis
    unfolding holds_def mutate_fields(4) replay.simps advance.simps by simp
qed

definition quiet :: "dep_call \<Rightarrow> bool" where
  "quiet c \<longleftrightarrow> (case c of CallCloseIMS _ \<Rightarrow> False | CallCloseTunnel _ \<Rightarrow> False | CallRestore _ \<Rightarrow> False | _ \<Rightarrow> True)"

lemma quiet_advance_eq: "quiet c \<Longrightarrow> advance v (Called c) = (if c = CallRFOff then v\<lparr>w_off := True\<rparr> else v)"
  by (cases c) (simp_all add: quiet_def)

lemma quiet_advance:
  assumes "quiet c"
  shows "agrees w (advance v (Called c)) = agrees w v"
    and "allowed opts v (Called c) \<Longrightarrow> sane opts v \<Longrightarrow> sane opts (advance v (Called c))"
  unfolding quiet_advance_eq [OF assms] by (auto simp: agrees_def sane_def)

lemma holds_quiet:
  assumes "holds d opts w v" "allowed opts v (Called c)" "quiet c"
  shows "holds d opts (w\<lparr>trace := Called c # trace w\<rparr>) (advance v (Called c))"
  using assms quiet_advance by (simp add: holds_def del: allowed.simps advance.simps)

subsection \<open>Triples\<close>

text \<open>
  A stage started by an operation that owns resources keeps the rules, and takes a world that
  satisfies the precondition to one that satisfies the postcondition; failing keeps the rules.
\<close>

definition triple ::
  "Dependencies \<Rightarrow> Options \<Rightarrow> (observed \<Rightarrow> bool) \<Rightarrow> 'a stage \<Rightarrow> ('a \<Rightarrow> observed \<Rightarrow> bool) \<Rightarrow> bool" where
  "triple d opts P m Q \<longleftrightarrow>
     (\<forall>w v. holds d opts w v \<longrightarrow> resources w \<noteq> None \<longrightarrow> P v \<longrightarrow>
        (case m w of
           (Inl e, w') \<Rightarrow> resources w' \<noteq> None \<and> (\<exists>v'. holds d opts w' v')
         | (Inr x, w') \<Rightarrow> resources w' \<noteq> None \<and> (\<exists>v'. holds d opts w' v' \<and> Q x v')))"

lemma tripleI:
  assumes "\<And>w v. holds d opts w v \<Longrightarrow> resources w \<noteq> None \<Longrightarrow> P v \<Longrightarrow>
    (case m w of
       (Inl e, w') \<Rightarrow> resources w' \<noteq> None \<and> (\<exists>v'. holds d opts w' v')
     | (Inr x, w') \<Rightarrow> resources w' \<noteq> None \<and> (\<exists>v'. holds d opts w' v' \<and> Q x v'))"
  shows "triple d opts P m Q"
  using assms by (simp add: triple_def)

lemma triple_sbind:
  assumes "triple d opts P m Q" "\<And>x. triple d opts (Q x) (f x) R"
  shows "triple d opts P (sbind m f) R"
proof (rule tripleI)
  fix w v
  assume pre: "holds d opts w v" "resources w \<noteq> None" "P v"
  note m = assms(1) [unfolded triple_def, rule_format, OF pre]
  show "case sbind m f w of
       (Inl e, w') \<Rightarrow> resources w' \<noteq> None \<and> (\<exists>v'. holds d opts w' v')
     | (Inr x, w') \<Rightarrow> resources w' \<noteq> None \<and> (\<exists>v'. holds d opts w' v' \<and> R x v')"
  proof (cases "m w")
    case (Pair r w')
    show ?thesis
    proof (cases r)
      case (Inl e)
      then show ?thesis using m Pair by (auto simp: sbind_def)
    next
      case (Inr x)
      then obtain v' where "holds d opts w' v'" "resources w' \<noteq> None" "Q x v'" using m Pair by auto
      from assms(2) [unfolded triple_def, rule_format, OF this] show ?thesis
        using Pair Inr by (simp add: sbind_def)
    qed
  qed
qed

lemma triple_done: "(\<And>v. P v \<Longrightarrow> Q x v) \<Longrightarrow> triple d opts P (done_with x) Q"
  by (rule tripleI) (auto simp: done_with_def)

lemma triple_stop: "triple d opts P (stop_at stage err) Q"
  by (rule tripleI) (auto simp: stop_at_def)

lemma triple_pre: "triple d opts P m Q \<Longrightarrow> (\<And>v. P' v \<Longrightarrow> P v) \<Longrightarrow> triple d opts P' m Q"
  by (simp add: triple_def)

lemma triple_post:
  assumes "triple d opts P m Q" "\<And>x v. Q x v \<Longrightarrow> Q' x v"
  shows "triple d opts P m Q'"
proof (rule tripleI)
  fix w v
  assume pre: "holds d opts w v" "resources w \<noteq> None" "P v"
  from assms(1) [unfolded triple_def, rule_format, OF pre] show "case m w of
       (Inl e, w') \<Rightarrow> resources w' \<noteq> None \<and> (\<exists>v'. holds d opts w' v')
     | (Inr x, w') \<Rightarrow> resources w' \<noteq> None \<and> (\<exists>v'. holds d opts w' v' \<and> Q' x v')"
    using assms(2) by (cases "m w"; cases "fst (m w)") auto
qed

text \<open>Calls that open or close nothing, and changes of the state.\<close>

lemma ask_simps [simp]:
  "fst (ask f c w) = f (Called c # trace w)" "snd (ask f c w) = w\<lparr>trace := Called c # trace w\<rparr>"
  by (simp_all add: ask_def Let_def)

lemma ask_pair: "ask f c w = (f (Called c # trace w), w\<lparr>trace := Called c # trace w\<rparr>)"
  by (simp add: ask_def Let_def)

lemma triple_call_for:
  assumes "\<And>v. P v \<Longrightarrow> sane opts v \<Longrightarrow> allowed opts v (Called c)" "quiet c"
    and "\<And>v x. P v \<Longrightarrow> sane opts v \<Longrightarrow> Q x (advance v (Called c))"
  shows "triple d opts P (call_for stage f c) Q"
proof (rule tripleI)
  fix w v
  assume pre: "holds d opts w v" "resources w \<noteq> None" "P v"
  have "sane opts v" by (rule holds_sane [OF pre(1)])
  with pre assms have "holds d opts (w\<lparr>trace := Called c # trace w\<rparr>) (advance v (Called c))" "\<And>x. Q x (advance v (Called c))"
    by (blast intro: holds_quiet)+
  then show "case call_for stage f c w of
       (Inl e, w') \<Rightarrow> resources w' \<noteq> None \<and> (\<exists>v'. holds d opts w' v')
     | (Inr x, w') \<Rightarrow> resources w' \<noteq> None \<and> (\<exists>v'. holds d opts w' v' \<and> Q x v')"
    using pre(2) by (auto simp: call_for_def ask_pair split: sum.split)
qed

lemma triple_call_do:
  assumes "\<And>v. P v \<Longrightarrow> sane opts v \<Longrightarrow> allowed opts v (Called c)" "quiet c"
    and "\<And>v. P v \<Longrightarrow> sane opts v \<Longrightarrow> Q () (advance v (Called c))"
  shows "triple d opts P (call_do stage f c) Q"
proof (rule tripleI)
  fix w v
  assume pre: "holds d opts w v" "resources w \<noteq> None" "P v"
  have "sane opts v" by (rule holds_sane [OF pre(1)])
  with pre assms have "holds d opts (w\<lparr>trace := Called c # trace w\<rparr>) (advance v (Called c))" "Q () (advance v (Called c))"
    by (blast intro: holds_quiet)+
  then show "case call_do stage f c w of
       (Inl e, w') \<Rightarrow> resources w' \<noteq> None \<and> (\<exists>v'. holds d opts w' v')
     | (Inr x, w') \<Rightarrow> resources w' \<noteq> None \<and> (\<exists>v'. holds d opts w' v' \<and> Q x v')"
    using pre(2) by (auto simp: call_do_def ask_pair split: option.split)
qed

lemma triple_query:
  assumes "\<And>v. P v \<Longrightarrow> sane opts v \<Longrightarrow> allowed opts v (Called c)" "quiet c"
    and "\<And>v x. P v \<Longrightarrow> sane opts v \<Longrightarrow> Q x (advance v (Called c))"
  shows "triple d opts P (query f c) Q"
proof (rule tripleI)
  fix w v
  assume pre: "holds d opts w v" "resources w \<noteq> None" "P v"
  have "sane opts v" by (rule holds_sane [OF pre(1)])
  with pre assms have "holds d opts (w\<lparr>trace := Called c # trace w\<rparr>) (advance v (Called c))" "\<And>x. Q x (advance v (Called c))"
    by (blast intro: holds_quiet)+
  then show "case query f c w of
       (Inl e, w') \<Rightarrow> resources w' \<noteq> None \<and> (\<exists>v'. holds d opts w' v')
     | (Inr x, w') \<Rightarrow> resources w' \<noteq> None \<and> (\<exists>v'. holds d opts w' v' \<and> Q x v')"
    using pre(2) by (auto simp: query_def ask_pair)
qed

text \<open>A change of the state that keeps the rules in every world of the precondition.\<close>

definition publishes :: "Options \<Rightarrow> (observed \<Rightarrow> bool) \<Rightarrow> (State \<Rightarrow> State) \<Rightarrow> (observed \<Rightarrow> bool) \<Rightarrow> bool" where
  "publishes opts P f Q \<longleftrightarrow> (\<forall>v. P v \<longrightarrow> sane opts v \<longrightarrow>
     coherent opts (f (w_shown v)) \<and> Sequence (f (w_shown v)) = Sequence (w_shown v)
     \<and> (TunnelReady (f (w_shown v)) \<longrightarrow> w_tunnel v \<noteq> None) \<and> (IMSReady (f (w_shown v)) \<longrightarrow> w_ims v \<noteq> None)
     \<and> (\<forall>k t. Q (v\<lparr>w_shown := (f (w_shown v))\<lparr>Sequence := k, UpdatedAt := t\<rparr>\<rparr>)))"

lemma publishes_holds:
  assumes "publishes opts P f Q" "holds d opts w v" "P v"
  shows "\<exists>v'. holds d opts (mutate d f w) v' \<and> Q v'"
proof -
  have v: "sane opts v" "w_shown v = st w" using assms(2) by (rule holds_sane, rule holds_shown)
  have c: "coherent opts (f (st w))" "Sequence (f (st w)) = Sequence (st w)"
      "TunnelReady (f (st w)) \<Longrightarrow> w_tunnel v \<noteq> None" "IMSReady (f (st w)) \<Longrightarrow> w_ims v \<noteq> None"
      "Q (v\<lparr>w_shown := st (mutate d f w)\<rparr>)"
    using assms(1) [unfolded publishes_def, rule_format, OF assms(3) v(1)] unfolding v(2) by simp_all
  have "holds d opts (mutate d f w) (v\<lparr>w_shown := st (mutate d f w)\<rparr>)"
    by (rule holds_mutate) (fact assms(2) c)+
  with c(5) show ?thesis by blast
qed

lemma triple_change:
  assumes "publishes opts P f (Q ())"
  shows "triple d opts P (change_state d f) Q"
  using publishes_holds [OF assms] by (intro tripleI) (simp add: change_state_def)

subsection \<open>The stages of Enable\<close>

definition no_sessions :: "observed \<Rightarrow> bool" where
  "no_sessions v \<longleftrightarrow> w_tunnel v = None \<and> w_ims v = None"

definition fresh_at :: "observed \<Rightarrow> bool" where
  "fresh_at v \<longleftrightarrow> Phase (w_shown v) = PhaseIdle \<and> Enabled (w_shown v) \<and> no_sessions v"

definition checked_at :: "observed \<Rightarrow> bool" where
  "checked_at v \<longleftrightarrow> fresh_at v \<and> w_checkpoint v \<noteq> None"

definition off_at :: "Phase \<Rightarrow> observed \<Rightarrow> bool" where
  "off_at p v \<longleftrightarrow> Phase (w_shown v) = p \<and> Enabled (w_shown v) \<and> no_sessions v \<and> w_checkpoint v \<noteq> None \<and> w_off v"

definition tunnel_at :: "Phase \<Rightarrow> session \<Rightarrow> observed \<Rightarrow> bool" where
  "tunnel_at p t v \<longleftrightarrow> Phase (w_shown v) = p \<and> Enabled (w_shown v) \<and> w_tunnel v = Some t \<and> w_ims v = None \<and> w_off v"

definition ims_at :: "Phase \<Rightarrow> session \<Rightarrow> observed \<Rightarrow> bool" where
  "ims_at p i v \<longleftrightarrow> Phase (w_shown v) = p \<and> w_tunnel v \<noteq> None \<and> w_ims v = Some i"

lemmas at_defs = fresh_at_def checked_at_def off_at_def tunnel_at_def ims_at_def no_sessions_def

lemma triple_pure:
  assumes "\<And>w v. holds d opts w v \<Longrightarrow> resources w \<noteq> None \<Longrightarrow> P v \<Longrightarrow>
    resources (g w) \<noteq> None \<and> (\<exists>v'. holds d opts (g w) v' \<and> Q x v')"
  shows "triple d opts P (\<lambda>w. (Inr x, g w)) Q"
  using assms by (intro tripleI) auto

lemma sbind_pure: "sbind (\<lambda>w. (Inr x, g w)) f = (\<lambda>w. f x (g w))"
  by (simp add: sbind_def)

text \<open>The flags of a coherent state, by phase.\<close>

lemma coherent_flags:
  "coherent opts s \<Longrightarrow> (TunnelReady s \<longleftrightarrow> Phase s \<in> {PhaseTunnelReady, PhaseIMSReady, PhaseSMSReady})
     \<and> (IMSReady s \<longleftrightarrow> Phase s \<in> {PhaseIMSReady, PhaseSMSReady}) \<and> (SMSReady s \<longleftrightarrow> Phase s = PhaseSMSReady)"
  by (simp add: coherent_def)

lemma triple_warn:
  assumes "\<And>v k t u. P v \<Longrightarrow> sane opts v \<Longrightarrow> Q x (v\<lparr>w_shown := (w_shown v)\<lparr>Warnings := u, Sequence := k, UpdatedAt := t\<rparr>\<rparr>)"
    and "\<And>v. P v \<Longrightarrow> sane opts v \<Longrightarrow> (TunnelReady (w_shown v) \<longrightarrow> w_tunnel v \<noteq> None) \<and> (IMSReady (w_shown v) \<longrightarrow> w_ims v \<noteq> None)"
  shows "triple d opts P (\<lambda>w. (Inr x, addWarning d m w)) Q"
proof (rule triple_pure)
  fix w v
  assume pre: "holds d opts w v" "resources w \<noteq> None" "P v"
  have "publishes opts P (\<lambda>s. s\<lparr>Warnings := Warnings s @ [m]\<rparr>) (Q x)"
    unfolding publishes_def
  proof (intro allI impI)
    fix v
    assume v: "P v" "sane opts v"
    note 1 = assms(1) [OF v] and 2 = assms(2) [OF v]
    have "coherent opts (w_shown v)" using v(2) by (simp add: sane_def)
    then show "coherent opts ((w_shown v)\<lparr>Warnings := Warnings (w_shown v) @ [m]\<rparr>)
       \<and> Sequence ((w_shown v)\<lparr>Warnings := Warnings (w_shown v) @ [m]\<rparr>) = Sequence (w_shown v)
       \<and> (TunnelReady ((w_shown v)\<lparr>Warnings := Warnings (w_shown v) @ [m]\<rparr>) \<longrightarrow> w_tunnel v \<noteq> None)
       \<and> (IMSReady ((w_shown v)\<lparr>Warnings := Warnings (w_shown v) @ [m]\<rparr>) \<longrightarrow> w_ims v \<noteq> None)
       \<and> (\<forall>k t. Q x (v\<lparr>w_shown := ((w_shown v)\<lparr>Warnings := Warnings (w_shown v) @ [m]\<rparr>)\<lparr>Sequence := k, UpdatedAt := t\<rparr>\<rparr>))"
      using 1 2 by simp
  qed
  from publishes_holds [OF this pre(1,3)] show
    "resources (addWarning d m w) \<noteq> None \<and> (\<exists>v'. holds d opts (addWarning d m w) v' \<and> Q x v')"
    using pre(2) by (simp add: addWarning_def)
qed

lemma agrees_up:
  assumes "agrees w v" "resources w \<noteq> None"
  shows "agrees (with_own (\<lambda>r. r\<lparr>tunnel := Some t\<rparr>) w) (v\<lparr>w_tunnel := Some t\<rparr>)"
    and "agrees (with_own (\<lambda>r. r\<lparr>ims := Some t\<rparr>) w) (v\<lparr>w_ims := Some t\<rparr>)"
    and "agrees (with_own (\<lambda>r. r\<lparr>radio := s, radioChanged := True\<rparr>) w) (v\<lparr>w_checkpoint := Some s\<rparr>)"
    and "agrees (with_own (\<lambda>r. r\<lparr>tunnel := None\<rparr>) w) (v\<lparr>w_tunnel := None\<rparr>)"
    and "agrees (with_own (\<lambda>r. r\<lparr>ims := None\<rparr>) w) (v\<lparr>w_ims := None\<rparr>)"
    and "agrees (with_own (\<lambda>r. r\<lparr>radioChanged := False\<rparr>) w) (v\<lparr>w_checkpoint := None, w_off := False\<rparr>)"
    and "agrees (with_own (\<lambda>r. r\<lparr>cancelled := b\<rparr>) w) v"
  using assms by (auto simp: agrees_def)

lemma agrees_note [simp]: "agrees (note_event e w) v = agrees w v"
  by (simp add: agrees_def)

lemma holds_note:
  assumes "holds d opts w v" "allowed opts v e" "agrees w' (advance v e)" "sane opts (advance v e)" "trace w' = trace w"
  shows "holds d opts (note_event e w') (advance v e)"
  using assms by (simp add: holds_def del: allowed.simps advance.simps)

lemma triple_took:
  "triple d opts (\<lambda>v. fresh_at v \<and> w_checkpoint v = None)
     (\<lambda>w. (Inr (), note_event (Took snap) (with_own (\<lambda>r. r\<lparr>radio := snap, radioChanged := True\<rparr>) w))) (\<lambda>_. checked_at)"
proof (rule triple_pure)
  fix w v
  assume pre: "holds d opts w v" "resources w \<noteq> None" "fresh_at v \<and> w_checkpoint v = None"
  let ?w = "with_own (\<lambda>r. r\<lparr>radio := snap, radioChanged := True\<rparr>) w"
  have "holds d opts (note_event (Took snap) ?w) (advance v (Took snap))"
    using pre agrees_up(3) [of w v] holds_sane [OF pre(1)]
    by (intro holds_note [OF pre(1)]) (auto simp: holds_def sane_def at_defs)
  moreover have "checked_at (advance v (Took snap))" using pre(3) by (simp add: at_defs)
  ultimately show "resources (note_event (Took snap) ?w) \<noteq> None \<and> (\<exists>v'. holds d opts (note_event (Took snap) ?w) v' \<and> checked_at v')"
    using pre(2) by auto
qed

lemma checkpoint_radio_triple: "triple d opts fresh_at (checkpoint_radio d) (\<lambda>_. checked_at)"
proof (rule tripleI)
  fix w v
  assume pre: "holds d opts w v" "resources w \<noteq> None" "fresh_at v"
  let ?m = "sbind (call_for PhaseAccessReady (Snapshot d) CallSnapshot) (\<lambda>snap.
          sbind (change_state d (\<lambda>s. s\<lparr>PureAirplanePolicy := rs_PureAirplanePolicy snap\<rparr>)) (\<lambda>_ w.
            (Inr (), note_event (Took snap) (with_own (\<lambda>r. r\<lparr>radio := snap, radioChanged := True\<rparr>) w))))"
  have m: "triple d opts (\<lambda>v. fresh_at v \<and> w_checkpoint v = None) ?m (\<lambda>_. checked_at)"
  proof (rule triple_sbind)
    show "triple d opts (\<lambda>v. fresh_at v \<and> w_checkpoint v = None) (call_for PhaseAccessReady (Snapshot d) CallSnapshot)
        (\<lambda>_ v. fresh_at v \<and> w_checkpoint v = None)"
      by (rule triple_call_for) (simp_all add: quiet_def)
    fix snap :: RadioSnapshot
    have "publishes opts (\<lambda>v. fresh_at v \<and> w_checkpoint v = None) (\<lambda>s. s\<lparr>PureAirplanePolicy := rs_PureAirplanePolicy snap\<rparr>)
        (\<lambda>v. fresh_at v \<and> w_checkpoint v = None)"
      unfolding publishes_def by (auto simp: sane_def at_defs dest: coherent_flags)
    from triple_sbind [OF triple_change [OF this] triple_took]
    show "triple d opts (\<lambda>v. fresh_at v \<and> w_checkpoint v = None)
        (sbind (change_state d (\<lambda>s. s\<lparr>PureAirplanePolicy := rs_PureAirplanePolicy snap\<rparr>)) (\<lambda>_ w.
            (Inr (), note_event (Took snap) (with_own (\<lambda>r. r\<lparr>radio := snap, radioChanged := True\<rparr>) w)))) (\<lambda>_. checked_at)" .
  qed
  show "case checkpoint_radio d w of
       (Inl e, w') \<Rightarrow> resources w' \<noteq> None \<and> (\<exists>v'. holds d opts w' v')
     | (Inr x, w') \<Rightarrow> resources w' \<noteq> None \<and> (\<exists>v'. holds d opts w' v' \<and> checked_at v')"
  proof (cases "radioChanged (own w)")
    case True
    then have "w_checkpoint v \<noteq> None" using pre(1) by (simp add: holds_def agrees_def)
    then show ?thesis using True pre by (auto simp: checkpoint_radio_def checked_at_def)
  next
    case False
    then have "w_checkpoint v = None" using pre(1) by (simp add: holds_def agrees_def)
    then show ?thesis using m [unfolded triple_def, rule_format, OF pre(1,2)] pre(3) False
      by (simp add: checkpoint_radio_def)
  qed
qed

lemma radio_off_triple: "triple d opts fresh_at (radio_off d) (\<lambda>_. off_at PhaseIdle)"
  unfolding radio_off_def
proof (rule triple_sbind [OF checkpoint_radio_triple], rule triple_sbind)
  show "triple d opts checked_at (call_do PhaseAccessReady (EnterVoWiFiRFOff d) CallRFOff) (\<lambda>_. off_at PhaseIdle)"
    by (rule triple_call_do) (auto simp: quiet_def at_defs)
  show "triple d opts (off_at PhaseIdle) (call_do PhaseAccessReady (StopCellularData d) CallStopData) (\<lambda>_. off_at PhaseIdle)" for x
    by (rule triple_call_do) (auto simp: quiet_def at_defs)
qed

lemma off_at_shown:
  "off_at p v \<Longrightarrow> off_at p (v\<lparr>w_shown := (w_shown v)\<lparr>Warnings := u, Sequence := k, UpdatedAt := t\<rparr>\<rparr>)"
  by (simp add: at_defs)

lemma read_sim_triple: "triple d opts (off_at PhaseIdle) (read_sim d) (\<lambda>_. off_at PhaseIdle)"
proof -
  have smsc: "triple d opts (off_at PhaseIdle) (read_smsc d identity) (\<lambda>_. off_at PhaseIdle)" for identity
  proof -
    have w: "triple d opts (off_at PhaseIdle) (\<lambda>w. (Inr identity, addWarning d m w)) (\<lambda>_. off_at PhaseIdle)" for m
      by (rule triple_warn) (auto simp: at_defs sane_def dest: coherent_flags)
    show ?thesis
      unfolding read_smsc_def
      by (cases "ReadSMSCenter d")
        (auto simp: quiet_def at_defs intro!: triple_done triple_sbind [where Q = "\<lambda>_. off_at PhaseIdle"] triple_query w split: sum.split)
  qed
  have aka: "triple d opts (off_at PhaseIdle) (call_for PhaseSIMReady (CheckReady d) (CallCheckReady identity)) (\<lambda>_. off_at PhaseIdle)"
    for identity by (rule triple_call_for) (auto simp: quiet_def at_defs)
  have ident: "triple d opts (off_at PhaseIdle) (call_for PhaseSIMReady (ReadIdentity d) CallReadIdentity) (\<lambda>_. off_at PhaseIdle)"
    by (rule triple_call_for) (auto simp: quiet_def at_defs)
  have ready: "triple d opts (off_at PhaseIdle) (if \<not> ready then stop_at PhaseSIMReady (plain_error ''AKA application is not ready'')
      else read_smsc d identity) (\<lambda>_. off_at PhaseIdle)" for ready identity
    using smsc by (auto intro: triple_stop)
  show ?thesis
    unfolding read_sim_def
    by (rule triple_sbind [OF ident]) (auto split: option.split intro!: triple_stop triple_sbind [OF aka] ready)
qed

lemma announce_sim_triple: "triple d opts (off_at PhaseIdle) (announce_sim d identity) (\<lambda>_. off_at PhaseSIMReady)"
proof (rule tripleI)
  fix w v
  assume pre: "holds d opts w v" "resources w \<noteq> None" "off_at PhaseIdle v"
  let ?p = "ResolveCarrierProfile (Unicode d) (Rules d (trace w)) identity"
  have "triple d opts (off_at PhaseIdle) (change_state d (\<lambda>s. s\<lparr>Phase := PhaseSIMReady, st_ICCID := trim_space (id_ICCID identity),
       st_IMSI := trim_space (id_IMSI identity), SIMReady := True, st_HomeMCC := trim_space (HomeMCC identity),
       st_HomeMNC := trim_space (HomeMNC identity), CarrierProfileID := cp_ID ?p,
       CarrierProfileFrom := MatchSource ?p, LastReason := str ''sim_and_aka_ready''\<rparr>)) (\<lambda>_. off_at PhaseSIMReady)"
    by (rule triple_change) (auto simp: publishes_def sane_def at_defs coherent_def)
  from this [unfolded triple_def, rule_format, OF pre]
  show "case announce_sim d identity w of
       (Inl e, w') \<Rightarrow> resources w' \<noteq> None \<and> (\<exists>v'. holds d opts w' v')
     | (Inr x, w') \<Rightarrow> resources w' \<noteq> None \<and> (\<exists>v'. holds d opts w' v' \<and> off_at PhaseSIMReady v')"
    by (simp add: announce_sim_def Let_def)
qed

lemma find_access_triple: "triple d opts (off_at PhaseSIMReady) (find_access d identity) (\<lambda>_. off_at PhaseAccessReady)"
proof -
  have show_access: "triple d opts (off_at PhaseSIMReady) (change_state d (\<lambda>s. s\<lparr>Phase := PhaseAccessReady, AccessReady := True,
        st_EPDG := epdg, st_ProxyMode := mode, ProxyID := pid, LastReason := str ''epdg_access_ready''\<rparr>))
      (\<lambda>_. off_at PhaseAccessReady)" for epdg mode pid
    by (rule triple_change) (auto simp: publishes_def sane_def at_defs coherent_def)
  have resolve: "triple d opts (off_at PhaseSIMReady) (call_for PhaseAccessReady (Resolve d) (CallResolve request)) (\<lambda>_. off_at PhaseSIMReady)"
    for request by (rule triple_call_for) (auto simp: quiet_def at_defs sane_def coherent_def)
  have inner: "triple d opts (off_at PhaseSIMReady)
       (sbind (call_for PhaseAccessReady (Resolve d) (CallResolve (proxy_request d identity))) (\<lambda>proxy0.
           case normalizeProxyRoute proxy0 of
             Inl err \<Rightarrow> stop_at PhaseAccessReady err
           | Inr proxy \<Rightarrow>
               sbind (change_state d (\<lambda>s. s\<lparr>Phase := PhaseAccessReady, AccessReady := True, st_EPDG := epdg,
                 st_ProxyMode := Mode proxy, ProxyID := px_ID proxy, LastReason := str ''epdg_access_ready''\<rparr>)) (\<lambda>_.
               done_with (epdg, proxy)))) (\<lambda>_. off_at PhaseAccessReady)" for epdg
    by (rule triple_sbind [OF resolve]) (auto split: sum.split intro!: triple_stop triple_sbind [OF show_access] triple_done)
  show ?thesis
  proof (rule tripleI)
    fix w v
    assume pre: "holds d opts w v" "resources w \<noteq> None" "off_at PhaseSIMReady v"
    then show "case find_access d identity w of
       (Inl e, w') \<Rightarrow> resources w' \<noteq> None \<and> (\<exists>v'. holds d opts w' v')
     | (Inr x, w') \<Rightarrow> resources w' \<noteq> None \<and> (\<exists>v'. holds d opts w' v' \<and> off_at PhaseAccessReady v')"
      using inner [unfolded triple_def, rule_format, OF pre]
      by (auto simp: find_access_def stop_at_def split: sum.split)
  qed
qed

lemma accepted_audit:
  "validateTunnelEvidence opts evidence = (audit, None) \<Longrightarrow> audit_accepts opts audit"
  by (auto simp: validateTunnelEvidence_def Let_def audit_accepts_def securityAuditFromEvidence_def no_audit_def
      split: ResponderAUTHStatus.splits if_splits)

text \<open>The tunnel of an operation before it counts as ready: its audit is the one shown.\<close>

definition audited_at :: "Options \<Rightarrow> session \<Rightarrow> observed \<Rightarrow> bool" where
  "audited_at opts t v \<longleftrightarrow> tunnel_at PhaseAccessReady t v \<and> audit_accepts opts (Security (w_shown v))"

lemma audit_tunnel_triple:
  "triple d opts (tunnel_at PhaseAccessReady t) (audit_tunnel d opts t) (\<lambda>t. tunnel_at PhaseTunnelReady t)"
proof -
  have ev: "triple d opts (tunnel_at PhaseAccessReady t) (query (TunnelEvidenceOf d) (CallTunnelEvidence t)) (\<lambda>_. tunnel_at PhaseAccessReady t)"
    by (rule triple_query) (auto simp: quiet_def at_defs)
  have sec: "triple d opts (tunnel_at PhaseAccessReady t) (change_state d (\<lambda>s. s\<lparr>Security := a\<rparr>))
      (\<lambda>_ v. tunnel_at PhaseAccessReady t v \<and> Security (w_shown v) = a)" for a
    by (rule triple_change) (auto simp: publishes_def sane_def at_defs coherent_def)
  have ready: "triple d opts (audited_at opts t) (change_state d (\<lambda>s. s\<lparr>Phase := PhaseTunnelReady, Active := True, TunnelReady := True,
        TunnelName := nm, DataplaneMode := md, LastReason := str ''ipsec_tunnel_ready''\<rparr>)) (\<lambda>_. tunnel_at PhaseTunnelReady t)" for nm md
    by (rule triple_change) (auto simp: publishes_def audited_at_def sane_def at_defs coherent_def)
  have checked: "triple d opts (tunnel_at PhaseAccessReady t)
       (case validateTunnelEvidence opts evidence of (audit, err) \<Rightarrow>
            sbind (change_state d (\<lambda>s. s\<lparr>Security := audit\<rparr>)) (\<lambda>_.
              case err of
                Some e \<Rightarrow> stop_at PhaseTunnelReady e
              | None \<Rightarrow>
                  sbind (change_state d (\<lambda>s. s\<lparr>Phase := PhaseTunnelReady, Active := True, TunnelReady := True,
                    TunnelName := trim_space (te_Name evidence), DataplaneMode := trim_space (te_DataplaneMode evidence),
                    LastReason := str ''ipsec_tunnel_ready''\<rparr>)) (\<lambda>_.
                  done_with t))) (\<lambda>t. tunnel_at PhaseTunnelReady t)" for evidence
  proof (cases "validateTunnelEvidence opts evidence")
    case (Pair audit err)
    show ?thesis
    proof (cases err)
      case None
      have "audit_accepts opts audit" using Pair None accepted_audit by simp
      then have "triple d opts (\<lambda>v. tunnel_at PhaseAccessReady t v \<and> Security (w_shown v) = audit)
          (sbind (change_state d (\<lambda>s. s\<lparr>Phase := PhaseTunnelReady, Active := True, TunnelReady := True,
                    TunnelName := trim_space (te_Name evidence), DataplaneMode := trim_space (te_DataplaneMode evidence),
                    LastReason := str ''ipsec_tunnel_ready''\<rparr>)) (\<lambda>_. done_with t)) (\<lambda>t. tunnel_at PhaseTunnelReady t)"
        by (intro triple_pre [OF triple_sbind [OF ready triple_done]]) (auto simp: audited_at_def)
      then show ?thesis using Pair None by (auto intro: triple_sbind [OF sec])
    next
      case (Some e)
      then show ?thesis using Pair by (auto intro: triple_sbind [OF sec] triple_stop)
    qed
  qed
  show ?thesis
    unfolding audit_tunnel_def
    by (rule triple_sbind [OF ev]) (auto intro!: triple_sbind [OF sec] triple_stop simp: checked)
qed

lemma up_pure:
  "(\<lambda>w. audit_tunnel d opts t (note_event (TunnelUp t) (with_own f w)))
   = sbind (\<lambda>w. (Inr (), note_event (TunnelUp t) (with_own f w))) (\<lambda>_. audit_tunnel d opts t)"
  "(\<lambda>w. audit_ims d i (note_event (IMSUp i) (with_own f w)))
   = sbind (\<lambda>w. (Inr (), note_event (IMSUp i) (with_own f w))) (\<lambda>_. audit_ims d i)"
  by (simp_all add: sbind_pure)

lemma tunnel_up_triple:
  "triple d opts (off_at PhaseAccessReady) (\<lambda>w. (Inr (), note_event (TunnelUp t) (with_own (\<lambda>r. r\<lparr>tunnel := Some t\<rparr>) w)))
     (\<lambda>_. tunnel_at PhaseAccessReady t)"
proof (rule triple_pure)
  fix w v
  assume pre: "holds d opts w v" "resources w \<noteq> None" "off_at PhaseAccessReady v"
  let ?w = "with_own (\<lambda>r. r\<lparr>tunnel := Some t\<rparr>) w"
  have "holds d opts (note_event (TunnelUp t) ?w) (advance v (TunnelUp t))"
    using pre agrees_up(1) [of w v] holds_sane [OF pre(1)]
    by (intro holds_note [OF pre(1)]) (auto simp: holds_def sane_def at_defs)
  moreover have "tunnel_at PhaseAccessReady t (advance v (TunnelUp t))" using pre(3) by (simp add: at_defs)
  ultimately show "resources (note_event (TunnelUp t) ?w) \<noteq> None
      \<and> (\<exists>v'. holds d opts (note_event (TunnelUp t) ?w) v' \<and> tunnel_at PhaseAccessReady t v')"
    using pre(2) by auto
qed

lemma open_tunnel_triple:
  "triple d opts (off_at PhaseAccessReady) (open_tunnel d opts identity access) (\<lambda>t. tunnel_at PhaseTunnelReady t)"
proof -
  have "triple d opts (off_at PhaseAccessReady) (call_for PhaseTunnelReady (TunnelStart d) (CallTunnelStart (tunnel_request opts identity access)))
      (\<lambda>_. off_at PhaseAccessReady)"
    by (rule triple_call_for) (auto simp: quiet_def at_defs sane_def coherent_def tunnel_request_def)
  then show ?thesis
    unfolding open_tunnel_def up_pure
    by (rule triple_sbind) (auto split: option.split intro!: triple_stop triple_sbind [OF tunnel_up_triple audit_tunnel_triple])
qed

lemma ims_up_triple:
  "triple d opts (tunnel_at PhaseTunnelReady t) (\<lambda>w. (Inr (), note_event (IMSUp i) (with_own (\<lambda>r. r\<lparr>ims := Some i\<rparr>) w)))
     (\<lambda>_. ims_at PhaseTunnelReady i)"
proof (rule triple_pure)
  fix w v
  assume pre: "holds d opts w v" "resources w \<noteq> None" "tunnel_at PhaseTunnelReady t v"
  let ?w = "with_own (\<lambda>r. r\<lparr>ims := Some i\<rparr>) w"
  have "holds d opts (note_event (IMSUp i) ?w) (advance v (IMSUp i))"
    using pre agrees_up(2) [of w v] holds_sane [OF pre(1)]
    by (intro holds_note [OF pre(1)]) (auto simp: holds_def sane_def at_defs)
  moreover have "ims_at PhaseTunnelReady i (advance v (IMSUp i))" using pre(3) by (simp add: at_defs)
  ultimately show "resources (note_event (IMSUp i) ?w) \<noteq> None
      \<and> (\<exists>v'. holds d opts (note_event (IMSUp i) ?w) v' \<and> ims_at PhaseTunnelReady i v')"
    using pre(2) by auto
qed

lemma audit_ims_triple: "triple d opts (ims_at PhaseTunnelReady i) (audit_ims d i) (\<lambda>(i, _). ims_at PhaseIMSReady i)"
proof -
  have ev: "triple d opts (ims_at PhaseTunnelReady i) (query (IMSEvidenceOf d) (CallIMSEvidence i)) (\<lambda>_. ims_at PhaseTunnelReady i)"
    by (rule triple_query) (auto simp: quiet_def at_defs)
  have ready: "triple d opts (ims_at PhaseTunnelReady i) (change_state d (\<lambda>s. s\<lparr>Phase := PhaseIMSReady, IMSReady := True,
           IMSRegistration := r, LastReason := str ''ims_registered''\<rparr>)) (\<lambda>_. ims_at PhaseIMSReady i)" for r
    by (rule triple_change) (auto simp: publishes_def sane_def at_defs coherent_def)
  show ?thesis
    unfolding audit_ims_def
    by (rule triple_sbind [OF ev]) (auto intro!: triple_stop triple_sbind [OF ready] triple_done)
qed

lemma open_ims_triple: "triple d opts (tunnel_at PhaseTunnelReady t) (open_ims d identity t) (\<lambda>(i, _). ims_at PhaseIMSReady i)"
proof -
  have "triple d opts (tunnel_at PhaseTunnelReady t) (call_for PhaseIMSReady (IMSStart d) (CallIMSStart identity t)) (\<lambda>_. tunnel_at PhaseTunnelReady t)"
    by (rule triple_call_for) (auto simp: quiet_def at_defs sane_def coherent_def)
  then show ?thesis
    unfolding open_ims_def up_pure
    by (rule triple_sbind) (auto split: option.split intro!: triple_stop triple_sbind [OF ims_up_triple audit_ims_triple])
qed

lemma ims_warn: "triple d opts (ims_at PhaseIMSReady i) (\<lambda>w. (Inr x, addWarning d m w)) (\<lambda>_. ims_at PhaseIMSReady i)"
  by (rule triple_warn) (auto simp: at_defs sane_def coherent_def)

lemma save_number_triple: "triple d opts (ims_at PhaseIMSReady i) (save_number d identity evidence) (\<lambda>_. ims_at PhaseIMSReady i)"
proof -
  have call: "triple d opts (ims_at PhaseIMSReady i) (query (SaveAssociatedNumber d) (CallSaveNumber a n s)) (\<lambda>_. ims_at PhaseIMSReady i)" for a n s
    by (rule triple_query) (auto simp: quiet_def at_defs sane_def coherent_def)
  have num: "triple d opts (ims_at PhaseIMSReady i) (change_state d (\<lambda>s. s\<lparr>PhoneNumber := n, PhoneNumberSource := src\<rparr>)) (\<lambda>_. ims_at PhaseIMSReady i)" for n src
    by (rule triple_change) (auto simp: publishes_def sane_def at_defs coherent_def)
  show ?thesis
    unfolding save_number_def
    by (auto split: option.split prod.split intro!: ims_warn triple_sbind [OF call] num)
qed

definition ready_at :: "Options \<Rightarrow> observed \<Rightarrow> bool" where
  "ready_at opts v \<longleftrightarrow> w_tunnel v \<noteq> None \<and> w_ims v \<noteq> None
     \<and> (Phase (w_shown v) = PhaseSMSReady \<or> Phase (w_shown v) = PhaseIMSReady \<and> AllowIMSWithoutSMS opts)"

lemma start_sms_triple: "triple d opts (ims_at PhaseIMSReady i) (start_sms d opts i) (\<lambda>_. ready_at opts)"
proof -
  have call: "triple d opts (ims_at PhaseIMSReady i) (query (EnableSMS d) (CallEnableSMS i)) (\<lambda>_. ims_at PhaseIMSReady i)"
    by (rule triple_query) (auto simp: quiet_def at_defs sane_def coherent_def)
  have quiet_end: "triple d opts (ims_at PhaseIMSReady i) (change_state d (\<lambda>s. s\<lparr>LastReason := str ''ims_registered_sms_unavailable'',
      LastError := [], LastErrorClass := [], CleanupErrors := []\<rparr>)) (\<lambda>_ v. ims_at PhaseIMSReady i v)"
    by (rule triple_change) (auto simp: publishes_def sane_def at_defs coherent_def)
  have settle: "triple d opts (ims_at PhaseIMSReady i) (settle_without_sms d m) (\<lambda>_. ready_at opts)" if "AllowIMSWithoutSMS opts" for m
  proof -
    have e: "settle_without_sms d m = sbind (\<lambda>w. (Inr (), addWarning d m w)) (\<lambda>_. change_state d
       (\<lambda>s. s\<lparr>LastReason := str ''ims_registered_sms_unavailable'', LastError := [], LastErrorClass := [], CleanupErrors := []\<rparr>))"
      by (simp add: settle_without_sms_def sbind_pure)
    have "triple d opts (ims_at PhaseIMSReady i) (settle_without_sms d m) (\<lambda>_. ims_at PhaseIMSReady i)"
      unfolding e by (rule triple_sbind [OF ims_warn quiet_end])
    then show ?thesis by (rule triple_post) (use that in \<open>auto simp: at_defs ready_at_def\<close>)
  qed
  have ready: "triple d opts (ims_at PhaseIMSReady i) (change_state d (\<lambda>s. s\<lparr>Phase := PhaseSMSReady, SMSReady := True,
      LastReason := str ''sms_ready'', LastError := [], LastErrorClass := [], CleanupErrors := []\<rparr>)) (\<lambda>_. ready_at opts)"
    by (rule triple_change) (auto simp: publishes_def sane_def at_defs coherent_def ready_at_def)
  show ?thesis
    unfolding start_sms_def
    by (rule triple_sbind [OF call]) (auto split: sum.split intro!: triple_stop settle ready)
qed

lemma bring_up_triple: "triple d opts fresh_at (bring_up d opts) (\<lambda>_. ready_at opts)"
  unfolding bring_up_def
  by (intro triple_sbind [OF radio_off_triple] triple_sbind [OF read_sim_triple] triple_sbind [OF announce_sim_triple]
      triple_sbind [OF find_access_triple] triple_sbind [OF open_tunnel_triple] triple_sbind [OF open_ims_triple])
    (auto intro!: triple_sbind [OF save_number_triple] start_sms_triple)

subsection \<open>Operations\<close>

lemma cancel_runtime_fields [simp]:
  "st (cancel_runtime w) = st w" "trace (cancel_runtime w) = trace w" "(resources (cancel_runtime w) = None) = (resources w = None)"
  "map_option fst (resources (cancel_runtime w)) = map_option fst (resources w)"
  by (auto simp: cancel_runtime_def with_own_def option.map_comp o_def)

lemma cancel_runtime_holds:
  assumes "holds d opts w v"
  shows "holds d opts (cancel_runtime w) v"
proof (cases "resources w = None")
  case True
  then show ?thesis using assms by (simp add: cancel_runtime_def)
next
  case False
  then have "agrees (cancel_runtime w) v" using assms agrees_up(7) by (simp add: cancel_runtime_def holds_def)
  then show ?thesis using assms by (simp add: holds_def)
qed

text \<open>Closing the sessions changes nothing else that is observed.\<close>

definition same_radio :: "observed \<Rightarrow> observed \<Rightarrow> bool" where
  "same_radio v v' \<longleftrightarrow> w_checkpoint v' = w_checkpoint v \<and> w_off v' = w_off v \<and> w_shown v' = w_shown v"

lemma close_ims_holds:
  assumes "holds d opts w v" "resources w \<noteq> None"
  shows "\<exists>v'. holds d opts (snd (close_ims d w)) v' \<and> w_ims v' = None \<and> same_radio v v' \<and> resources (snd (close_ims d w)) \<noteq> None"
proof (cases "ims (own w)")
  case None
  then show ?thesis using assms by (auto simp: close_ims_def same_radio_def holds_def agrees_def)
next
  case (Some i)
  let ?w = "with_own (\<lambda>r. r\<lparr>ims := None\<rparr>) w"
  have v: "w_ims v = Some i" using Some assms(1) by (simp add: holds_def agrees_def)
  have "holds d opts (note_event (Called (CallCloseIMS i)) ?w) (advance v (Called (CallCloseIMS i)))"
    using assms agrees_up(5) [of w v] holds_sane [OF assms(1)] v
    by (intro holds_note [OF assms(1)]) (auto simp: holds_def sane_def)
  moreover have "snd (close_ims d w) = note_event (Called (CallCloseIMS i)) ?w"
    using Some by (simp add: close_ims_def ask_pair note_event_def with_own_def)
  ultimately show ?thesis using assms(2) by (auto simp: same_radio_def)
qed

lemma close_tunnel_holds:
  assumes "holds d opts w v" "resources w \<noteq> None" "w_ims v = None"
  shows "\<exists>v'. holds d opts (snd (close_tunnel d w)) v' \<and> no_sessions v' \<and> same_radio v v' \<and> resources (snd (close_tunnel d w)) \<noteq> None"
proof (cases "tunnel (own w)")
  case None
  then show ?thesis using assms by (auto simp: close_tunnel_def same_radio_def no_sessions_def holds_def agrees_def)
next
  case (Some t)
  let ?w = "with_own (\<lambda>r. r\<lparr>tunnel := None\<rparr>) w"
  have v: "w_tunnel v = Some t" using Some assms(1) by (simp add: holds_def agrees_def)
  have "holds d opts (note_event (Called (CallCloseTunnel t)) ?w) (advance v (Called (CallCloseTunnel t)))"
    using assms agrees_up(4) [of w v] holds_sane [OF assms(1)] v
    by (intro holds_note [OF assms(1)]) (auto simp: holds_def sane_def)
  moreover have "snd (close_tunnel d w) = note_event (Called (CallCloseTunnel t)) ?w"
    using Some by (simp add: close_tunnel_def ask_pair note_event_def with_own_def)
  ultimately show ?thesis using assms(2,3) by (auto simp: same_radio_def no_sessions_def)
qed

lemma cleanupSessions_holds:
  assumes "holds d opts w v"
  shows "\<exists>v'. holds d opts (snd (cleanupSessions d w)) v' \<and> no_sessions v' \<and> same_radio v v'
    \<and> (resources (snd (cleanupSessions d w)) = None) = (resources w = None)"
proof (cases "resources w = None")
  case True
  then have "no_sessions v" using assms by (simp add: holds_def agrees_def no_sessions_def own_def)
  then show ?thesis using True assms by (auto simp: cleanupSessions_def same_radio_def)
next
  case False
  from close_ims_holds [OF assms False] obtain v1 where 1: "holds d opts (snd (close_ims d w)) v1" "w_ims v1 = None"
      "same_radio v v1" "resources (snd (close_ims d w)) \<noteq> None" by blast
  from close_tunnel_holds [OF 1(1,4,2)] 1(3) False show ?thesis
    by (auto simp: cleanupSessions_def same_radio_def split: prod.split)
qed

lemma retain_radio_holds:
  assumes "holds d opts w v" "no_sessions v"
  shows "holds d opts (retain_radio w) v"
  using assms by (auto simp: retain_radio_def holds_def agrees_def no_sessions_def)

lemma retain_radio_fields [simp]: "st (retain_radio w) = st w" "trace (retain_radio w) = trace w"
  by (simp_all add: retain_radio_def)

text \<open>Between operations the state tells which sessions are open.\<close>

definition settled :: "Dependencies \<Rightarrow> Options \<Rightarrow> orchestrator \<Rightarrow> observed \<Rightarrow> bool" where
  "settled d opts w v \<longleftrightarrow> holds d opts w v
     \<and> (TunnelReady (w_shown v) \<longleftrightarrow> w_tunnel v \<noteq> None) \<and> (IMSReady (w_shown v) \<longleftrightarrow> w_ims v \<noteq> None)
     \<and> (Phase (w_shown v) = PhaseIdle \<longrightarrow> resources w = None)
     \<and> Phase (w_shown v) \<in> {PhaseIdle, PhaseFailed, PhaseIMSReady, PhaseSMSReady}"

lemma settled_failed:
  assumes "holds d opts w v" "no_sessions v"
    and "\<And>s. Phase (f s) = PhaseFailed \<and> \<not> TunnelReady (f s) \<and> \<not> IMSReady (f s) \<and> \<not> SMSReady (f s) \<and> \<not> Active (f s)
      \<and> SIMReady (f s) = SIMReady s \<and> AccessReady (f s) = AccessReady s \<and> Sequence (f s) = Sequence s"
  shows "\<exists>v'. settled d opts (mutate d f w) v'"
proof -
  have "coherent opts (st w)" using holds_sane [OF assms(1)] holds_shown [OF assms(1)] by (simp add: sane_def)
  then have "coherent opts (f (st w))" using assms(3) [of "st w"] by (simp add: coherent_def)
  then have "holds d opts (mutate d f w) (v\<lparr>w_shown := st (mutate d f w)\<rparr>)"
    using assms(3) by (intro holds_mutate [OF assms(1)]) simp_all
  then show ?thesis using assms(2,3) by (auto simp: settled_def no_sessions_def)
qed

lemma fail_enable_settled:
  assumes "holds d opts w v"
  shows "\<exists>v'. settled d opts (snd (fail_enable d stage cause w)) v'"
proof -
  from cleanupSessions_holds [OF cancel_runtime_holds [OF assms]] obtain v1 where
    1: "holds d opts (snd (cleanupSessions d (cancel_runtime w))) v1" "no_sessions v1" by blast
  from settled_failed [OF retain_radio_holds [OF 1] 1(2), of "failed_state stage cause e" for e]
  show ?thesis by (auto simp: fail_enable_def failed_state_def split: prod.split)
qed

lemma begin_enable_holds:
  assumes "settled d opts w v" "Phase (st w) \<in> {PhaseIdle, PhaseFailed}"
  shows "\<exists>v'. holds d opts (begin_enable d opts w) v' \<and> fresh_at v' \<and> resources (begin_enable d opts w) \<noteq> None"
proof -
  have h: "holds d opts w v" using assms(1) by (simp add: settled_def)
  have shown: "w_shown v = st w" by (rule holds_shown [OF h])
  have coh: "coherent opts (w_shown v)" using holds_sane [OF h] by (simp add: sane_def)
  have "\<not> TunnelReady (w_shown v)" "\<not> IMSReady (w_shown v)"
    using coherent_flags [OF coh] assms(2) shown by auto
  then have none: "no_sessions v" using assms(1) by (simp add: settled_def no_sessions_def)
  let ?now = "Now d (trace w)"
  let ?f = "\<lambda>s. (blank_state (trim_space (op_DeviceID opts)) ?now)\<lparr>Enabled := True, Attempt := Attempt s + 1,
                Sequence := Sequence s, StartedAt := Some ?now, LastReason := str ''enable_requested''\<rparr>"
  let ?w = "mutate d ?f w"
  let ?v = "v\<lparr>w_shown := st ?w\<rparr>"
  have m: "holds d opts ?w ?v"
    by (rule holds_mutate [OF h]) (simp_all add: blank_state_def coherent_def)
  obtain n r where r: "resources (begin_enable d opts w) = Some (n, r)"
    by (simp add: begin_enable_def Let_def)
  have other: "st (begin_enable d opts w) = st ?w" "trace (begin_enable d opts w) = trace ?w"
    by (simp_all add: begin_enable_def Let_def)
  have res: "tunnel r = None \<and> ims r = None \<and> w_checkpoint v = (if radioChanged r then Some (radio r) else None)"
  proof (cases "resources w")
    case None
    then have "r = new_resources" using r by (simp add: begin_enable_def Let_def)
    then show ?thesis using h None by (simp add: holds_def agrees_def own_def)
  next
    case (Some p)
    then have "Phase (st w) = PhaseFailed" using assms shown by (auto simp: settled_def)
    moreover have "own w = snd p" using Some by (cases p) (simp add: own_def)
    ultimately show ?thesis using h Some r
      by (cases p) (auto simp: holds_def agrees_def begin_enable_def Let_def split: if_splits)
  qed
  have own: "own (begin_enable d opts w) = r" using r by (simp add: own_def)
  have "agrees (begin_enable d opts w) ?v"
    unfolding agrees_def own other using none res by (simp add: no_sessions_def)
  then have "holds d opts (begin_enable d opts w) ?v" using m other by (simp add: holds_def del: mutate_fields)
  moreover have "fresh_at ?v" using none by (simp add: fresh_at_def no_sessions_def blank_state_def)
  ultimately show ?thesis using r by blast
qed

lemma Enable_settled:
  assumes "settled d opts w v"
  shows "\<exists>v'. settled d opts (snd (Enable d opts w)) v' \<and>
    (fst (Enable d opts w) = None \<longrightarrow> Phase (w_shown v') = PhaseSMSReady \<or> Phase (w_shown v') = PhaseIMSReady \<and> AllowIMSWithoutSMS opts)"
proof (cases "Phase (st w) \<in> {PhaseSIMReady, PhaseAccessReady, PhaseTunnelReady, PhaseIMSReady, PhaseSMSReady, PhaseStopping}")
  case True
  then show ?thesis using assms by (auto simp: Enable_def)
next
  case False
  then have "Phase (st w) \<in> {PhaseIdle, PhaseFailed}" by (cases "Phase (st w)") simp_all
  from begin_enable_holds [OF assms this] obtain v1 where
    1: "holds d opts (begin_enable d opts w) v1" "resources (begin_enable d opts w) \<noteq> None" "fresh_at v1" by blast
  note b = bring_up_triple [of d opts, unfolded triple_def, rule_format, OF 1]
  show ?thesis
  proof (cases "bring_up d opts (begin_enable d opts w)")
    case (Pair r w')
    show ?thesis
    proof (cases r)
      case (Inl e)
      then obtain v' where "holds d opts w' v'" using b Pair by auto
      from fail_enable_settled [OF this] show ?thesis
        using Inl Pair False by (cases e) (auto simp: Enable_def fail_enable_def split: prod.splits)
    next
      case (Inr x)
      then obtain v' where v': "holds d opts w' v'" "ready_at opts v'" "resources w' \<noteq> None" using b Pair by auto
      have coh: "coherent opts (w_shown v')" using holds_sane [OF v'(1)] by (simp add: sane_def)
      have "settled d opts w' v'"
        using coherent_flags [OF coh] v'(1,2) unfolding settled_def ready_at_def by (elim conjE disjE) simp_all
      moreover have "Enable d opts w = (None, w')" using False Pair Inr by (simp add: Enable_def)
      ultimately show ?thesis using v'(2) by (auto simp: ready_at_def)
    qed
  qed
qed

lemma holds_drop:
  "holds d opts w v \<Longrightarrow> no_sessions v \<Longrightarrow> w_checkpoint v = None \<Longrightarrow> holds d opts (w\<lparr>resources := None\<rparr>) v"
  by (simp add: holds_def agrees_def no_sessions_def)

lemma Disable_effect:
  assumes "settled d opts w v" "\<not> (resources w = None \<and> Phase (st w) = PhaseIdle)"
  shows "\<exists>v'. settled d opts (snd (Disable d w)) v' \<and> w_checkpoint v' = None \<and> no_sessions v'
    \<and> Phase (w_shown v') = PhaseIdle \<and> \<not> Enabled (w_shown v') \<and> resources (snd (Disable d w)) = None"
proof -
  have h: "holds d opts w v" using assms(1) by (simp add: settled_def)
  have coh: "coherent opts (st w)" using holds_sane [OF h] holds_shown [OF h] by (simp add: sane_def)
  let ?w = "cancel_runtime (mutate d stopping_state w)"
  have "coherent opts (stopping_state (st w))" using coh by (simp add: coherent_def stopping_state_def)
  from holds_mutate [OF h, of stopping_state, OF this] have m: "holds d opts (mutate d stopping_state w) (v\<lparr>w_shown := st (mutate d stopping_state w)\<rparr>)"
    by (simp add: stopping_state_def)
  from cleanupSessions_holds [OF cancel_runtime_holds [OF m]] obtain v1 where
    1: "holds d opts (snd (cleanupSessions d ?w)) v1" "no_sessions v1"
       "(resources (snd (cleanupSessions d ?w)) = None) = (resources w = None)" by auto
  have "\<exists>v2. holds d opts ((snd (cleanup d ?w))\<lparr>resources := None\<rparr>) v2 \<and> no_sessions v2 \<and> w_checkpoint v2 = None"
  proof (cases "resources w = None")
    case True
    then have none: "resources ?w = None" by simp
    then have e: "cleanup d ?w = ([], ?w)" unfolding cleanup_def none by simp
    have drop: "resources x = None \<Longrightarrow> x\<lparr>resources := None\<rparr> = x" for x :: orchestrator by simp
    note same = drop [OF none]
    have own: "own ?w = new_resources" unfolding own_def none by simp
    note h' = cancel_runtime_holds [OF m]
    let ?v = "v\<lparr>w_shown := st (mutate d stopping_state w)\<rparr>"
    have a: "agrees ?w ?v" using h' by (simp only: holds_def)
    have "no_sessions ?v \<and> w_checkpoint ?v = None"
      using a unfolding agrees_def own no_sessions_def by simp
    with h' show ?thesis unfolding e snd_conv same by blast
  next
    case False
    let ?c = "snd (cleanupSessions d ?w)"
    obtain p where p: "resources ?w = Some p" using False by (cases "resources ?w") simp_all
    show ?thesis
    proof (cases "radioChanged (own ?c)")
      case True
      let ?r = "with_own (\<lambda>r. r\<lparr>radioChanged := False\<rparr>) ?c"
      have check: "w_checkpoint v1 = Some (radio (own ?c))" using 1(1) True by (simp add: holds_def agrees_def)
      let ?v = "advance v1 (Called (CallRestore (radio (own ?c))))"
      have restored: "holds d opts (note_event (Called (CallRestore (radio (own ?c)))) ?r) ?v"
        using 1 False agrees_up(6) [of ?c v1] holds_sane [OF 1(1)] check
        by (intro holds_note [OF 1(1)]) (auto simp: holds_def sane_def no_sessions_def)
      have e: "snd (cleanup d ?w) = note_event (Called (CallRestore (radio (own ?c)))) ?r"
        using p True by (auto simp: cleanup_def ask_pair note_event_def with_own_def split: prod.split)
      have v: "no_sessions ?v" "w_checkpoint ?v = None" using 1(2) by (simp_all add: no_sessions_def)
      from holds_drop [OF restored v] v show ?thesis unfolding e by blast
    next
      case unchanged: False
      then have "w_checkpoint v1 = None" using 1(1) by (simp add: holds_def agrees_def)
      moreover have "snd (cleanup d ?w) = ?c" using p unchanged by (auto simp: cleanup_def split: prod.split)
      ultimately show ?thesis using 1(1,2) by (auto simp: holds_def agrees_def no_sessions_def)
    qed
  qed
  then obtain v2 where 2: "holds d opts ((snd (cleanup d ?w))\<lparr>resources := None\<rparr>) v2" "no_sessions v2" "w_checkpoint v2 = None" by blast
  have idle: "\<exists>v'. settled d opts (mutate d (idle_state ec e r ce) ((snd (cleanup d ?w))\<lparr>resources := None\<rparr>)) v' \<and> w_checkpoint v' = None
      \<and> no_sessions v' \<and> Phase (w_shown v') = PhaseIdle \<and> \<not> Enabled (w_shown v')" for ec e r ce
  proof -
    let ?x = "(snd (cleanup d ?w))\<lparr>resources := None\<rparr>"
    have "holds d opts (mutate d (idle_state ec e r ce) ?x) (v2\<lparr>w_shown := st (mutate d (idle_state ec e r ce) ?x)\<rparr>)"
      by (rule holds_mutate [OF 2(1)]) (simp_all add: idle_state_def coherent_def)
    then show ?thesis using 2 by (auto simp: settled_def no_sessions_def idle_state_def)
  qed
  obtain errs c where c: "cleanup d ?w = (errs, c)" by fastforce
  show ?thesis
    using idle assms(2) unfolding Disable_def if_not_P [OF assms(2)] c by (auto simp: Let_def c)
qed

lemma Disable_settled: "settled d opts w v \<Longrightarrow> \<exists>v'. settled d opts (snd (Disable d w)) v'"
  using Disable_effect [of d opts w v] by (cases "resources w = None \<and> Phase (st w) = PhaseIdle") (auto simp: Disable_def)

lemma reconnect_teardown_settled: "settled d opts w v \<Longrightarrow> \<exists>v'. settled d opts (reconnect_teardown d w) v'"
proof -
  assume s: "settled d opts w v"
  then have "holds d opts w v" by (simp add: settled_def)
  from cleanupSessions_holds [OF cancel_runtime_holds [OF this]] obtain v1 where
    "holds d opts (snd (cleanupSessions d (cancel_runtime w))) v1" "no_sessions v1" by blast
  then show ?thesis by (auto simp: reconnect_teardown_def intro!: settled_failed split: prod.split)
qed

lemma runtime_failure_settled: "settled d opts w v \<Longrightarrow> \<exists>v'. settled d opts (runtime_failure d n cause errorClass reason w) v'"
proof -
  assume s: "settled d opts w v"
  then have h: "holds d opts w v" by (simp add: settled_def)
  from cleanupSessions_holds [OF cancel_runtime_holds [OF h]] obtain v1 where
    1: "holds d opts (snd (cleanupSessions d (cancel_runtime w))) v1" "no_sessions v1" by blast
  note r = retain_radio_holds [OF this]
  show ?thesis
  proof (cases "map_option fst (resources w) = Some n")
    case True
    then show ?thesis using r 1(2) by (auto simp: runtime_failure_def Let_def intro!: settled_failed split: prod.split)
  next
    case False
    then show ?thesis using s by (auto simp: runtime_failure_def)
  qed
qed

text \<open>A call on the registered session.\<close>

lemma settled_note:
  assumes "settled d opts w v" "allowed opts v (Called c)" "quiet c" "c \<noteq> CallRFOff"
  shows "settled d opts (note_event (Called c) w) v"
proof -
  have "holds d opts (w\<lparr>trace := Called c # trace w\<rparr>) v"
    using holds_quiet [OF _ assms(2,3)] assms(1,4) quiet_advance_eq [OF assms(3)] by (simp add: settled_def del: allowed.simps)
  then show ?thesis using assms(1) by (simp add: settled_def note_event_def)
qed

lemma usable_ims_open:
  assumes "settled d opts w v" "usable_ims b w = Some i"
  shows "w_ims v = Some i" "b"
  using assms by (auto simp: settled_def holds_def agrees_def usable_ims_def own_def split: if_splits option.splits)

lemma settled_send:
  assumes "settled d opts w v"
  shows "settled d opts (snd (SendSMS d w)) v" "settled d opts (snd (SendUSSI d w)) v" "settled d opts (snd (callAction d w)) v"
proof -
  have shown: "w_shown v = st w" using assms holds_shown [of d opts w v] by (simp add: settled_def)
  show "settled d opts (snd (SendSMS d w)) v"
    using assms shown
    by (auto simp: SendSMS_def quiet_def intro!: settled_note dest: usable_ims_open [OF assms] split: option.split)
  show "settled d opts (snd (SendUSSI d w)) v"
    using assms shown
    by (auto simp: SendUSSI_def quiet_def intro!: settled_note dest: usable_ims_open [OF assms] split: option.split)
  show "settled d opts (snd (callAction d w)) v"
    using assms shown
    by (auto simp: callAction_def quiet_def intro!: settled_note dest: usable_ims_open [OF assms] split: option.split)
qed

lemma settled_same:
  assumes "settled d opts w v" "st w' = st w" "trace w' = trace w" "resources w' = resources w"
  shows "settled d opts w' v"
proof -
  have "own w' = own w" using assms(4) by (simp add: own_def)
  with assms(2) have "agrees w' v = agrees w v" by (simp add: agrees_def)
  then have "holds d opts w' v = holds d opts w v" using assms(3) by (simp add: holds_def)
  then show ?thesis using assms(1,4) by (simp add: settled_def)
qed

lemma settled_cancel: "settled d opts w v \<Longrightarrow> settled d opts (cancel_runtime w) v"
  using cancel_runtime_holds [of d opts w v] by (simp add: settled_def)

lemma orch_step_settled: "orch_step d opts w w' \<Longrightarrow> settled d opts w v \<Longrightarrow> \<exists>v'. settled d opts w' v'"
proof (induction rule: orch_step.induct)
  case (step_enable w)
  then show ?case using Enable_settled by blast
next
  case (step_disable w)
  then show ?case by (rule Disable_settled)
next
  case (step_teardown w)
  then show ?case by (rule reconnect_teardown_settled)
next
  case (step_failure w n cause errorClass reason)
  then show ?case by (rule runtime_failure_settled)
next
  case (step_with_sim w)
  then show ?case using settled_note [of d opts w v CallWithSIM]
    by (auto simp: WithSIM_def note_event_def quiet_def)
next
  case (step_cancel w)
  then show ?case using settled_cancel by blast
next
  case (step_subscribe w n)
  then show ?case using settled_same [of d opts w v "snd (Subscribe n w)"] by (auto simp: Subscribe_def Let_def)
next
  case (step_unsubscribe w n)
  then show ?case using settled_same [of d opts w v "unsubscribe n w"] by (auto simp: unsubscribe_def)
next
  case (step_receive w n)
  then show ?case using settled_same [of d opts w v "receive n w"] by (auto simp: receive_def)
qed (blast intro: settled_send)+

lemma New_settled: "settled d opts (New d opts) (start d opts)"
  by (simp add: settled_def holds_def agrees_def sane_def start_def New_def own_def blank_state_def coherent_def)

lemma reachable_settled: "orch_reachable d opts w \<Longrightarrow> \<exists>v. settled d opts w v"
  by (induction rule: orch_reachable.induct) (use New_settled orch_step_settled in blast)+

end
