(* ===== verification/Orchestrator_Properties.thy ===== *)
theory Orchestrator_Properties
  imports Orchestrator_Runs "HOL-Library.Sublist"
begin

text \<open>
  What every run of the VoWiFi lifecycle guarantees: coherent published states, no leaked session, a
  paired radio checkpoint, complete shutdown, and subscribers that always see the newest state.
\<close>

subsection \<open>The abstract protocol read back\<close>

lemma replay_published:
  "replay opts v h = Some v' \<Longrightarrow> Published s \<in> set h \<Longrightarrow> coherent opts s"
  by (induction h arbitrary: v') (auto split: option.splits if_splits)

lemma replay_sessions:
  assumes "replay opts v h = Some v'" "w_tunnel v = None" "w_ims v = None"
  shows "count_list h (TunnelUp t) = count_list h (Called (CallCloseTunnel t)) + (if w_tunnel v' = Some t then 1 else 0)
    \<and> count_list h (IMSUp t) = count_list h (Called (CallCloseIMS t)) + (if w_ims v' = Some t then 1 else 0)"
  using assms(1)
proof (induction h arbitrary: v')
  case Nil
  then show ?case using assms(2,3) by auto
next
  case (Cons e h)
  then obtain u where u: "replay opts v h = Some u" "allowed opts u e" "v' = advance u e"
    by (auto split: option.splits if_splits)
  note IH = Cons.IH [OF u(1)]
  show ?case
  proof (cases e)
    case (Called c)
    then show ?thesis using IH u(2,3) by (cases c) auto
  qed (use IH u(2,3) in auto)
qed





lemma start_simps [simp]:
  "w_tunnel (start d opts) = None" "w_ims (start d opts) = None" "w_checkpoint (start d opts) = None"
  by (simp_all add: start_def)

subsection \<open>A run to look at\<close>

text \<open>An environment in which every provider answers well, and one in which the radio cannot be restored.\<close>

definition sample_deps :: Dependencies where
  "sample_deps =
     \<lparr>Snapshot = (\<lambda>_. Inr \<lparr>CellularDataEnabled = True, OperatingMode = 1, rs_PureAirplanePolicy = False\<rparr>),
      EnterVoWiFiRFOff = (\<lambda>_. None), StopCellularData = (\<lambda>_. None), Restore = (\<lambda>_. Some (plain_error ''busy'')),
      ReadIdentity = (\<lambda>_. Inr ((legacy_identity (str ''8901'') [])\<lparr>HomeMCC := str ''310'', HomeMNC := str ''280''\<rparr>)),
      ReadSMSCenter = None, CheckReady = (\<lambda>_. Inr True),
      Resolve = (\<lambda>_. Inr \<lparr>Mode = [], px_ID = [], px_Address = [], Username = [], Password = []\<rparr>),
      TunnelStart = (\<lambda>_. Inr (Some 7)),
      TunnelEvidenceOf = (\<lambda>_. \<lparr>Established = True, te_Name = [], te_DataplaneMode = [], ResponderAUTH = ResponderAUTHVerified,
        IKEEncryption = [], IKEIntegrity = [], IKEDHGroup = [], ESPEncryption = [], ESPIntegrity = []\<rparr>),
      CloseTunnel = (\<lambda>_. None), IMSStart = (\<lambda>_. Inr (Some 9)),
      IMSEvidenceOf = (\<lambda>_. \<lparr>Registered = True, RegistrationState = [], AssociatedMSISDN = [], PAssociatedURI = []\<rparr>),
      EnableSMS = (\<lambda>_. Inr True), CloseIMS = (\<lambda>_. None), SaveAssociatedNumber = (\<lambda>_. None), Now = (\<lambda>h. int (length h)),
      Unicode = plain_unicode, Rules = (\<lambda>_. []), SendsSMS = (\<lambda>_. True), SendsUSSI = (\<lambda>_. True), ControlsCalls = (\<lambda>_. True)\<rparr>"

definition sample_options :: Options where
  "sample_options = \<lparr>op_DeviceID = str ''m'', AllowMissingResponderAUTH = False, AllowIMSWithoutSMS = False\<rparr>"

lemma sample_identity_valid:
  "identity_validate ((legacy_identity (str ''8901'') [])\<lparr>HomeMCC := str ''310'', HomeMNC := str ''280''\<rparr>) = None"
proof -
  have "graphic (str ''310'')" "graphic (str ''280'')" "graphic (str ''8901'')" by (simp_all add: graphic_def str_def)
  then show ?thesis
    by (simp add: identity_validate_def legacy_identity_def isNDigits_def Let_def str_def is_digit_def)
qed

lemma no_number: "ExtractAssociatedMSISDN U \<lparr>Registered = True, RegistrationState = [], AssociatedMSISDN = [], PAssociatedURI = []\<rparr> = None"
  by (simp add: ExtractAssociatedMSISDN_def normalizeAssociatedIdentity_def trim_cutset_def Let_def)

lemmas stage_defs = Enable_def bring_up_def radio_off_def checkpoint_radio_def read_sim_def read_smsc_def announce_sim_def
  find_access_def open_tunnel_def audit_tunnel_def open_ims_def audit_ims_def save_number_def start_sms_def sbind_def
  change_state_def call_for_def call_do_def query_def done_with_def stop_at_def ask_pair

lemma sample_enabled:
  "fst (Enable sample_deps sample_options (New sample_deps sample_options)) = None
   \<and> Phase (st (snd (Enable sample_deps sample_options (New sample_deps sample_options)))) = PhaseSMSReady"
proof -
  let ?w = "begin_enable sample_deps sample_options (New sample_deps sample_options)"
  have idle: "Phase (st (New sample_deps sample_options)) = PhaseIdle" by (simp add: New_def blank_state_def)
  have own: "radioChanged (own ?w) = False" by (simp add: begin_enable_def New_def Let_def own_def)
  have epdg: "\<exists>host. DeriveEPDG plain_unicode [] ((legacy_identity (str ''8901'') [])\<lparr>HomeMCC := str ''310'', HomeMNC := str ''280''\<rparr>) = Inr host"
    using sample_identity_valid by (simp add: DeriveEPDG_def Let_def legacy_identity_def ResolveCarrierProfile_def)
  then obtain host where host: "DeriveEPDG plain_unicode [] ((legacy_identity (str ''8901'') [])\<lparr>HomeMCC := str ''310'', HomeMNC := str ''280''\<rparr>) = Inr host"
    by blast
  show ?thesis
    using idle own sample_identity_valid host no_number
    by (simp add: stage_defs sample_deps_def normalizeProxyRoute_def validateTunnelEvidence_def Let_def)
qed

definition sample_run :: orchestrator where
  "sample_run = snd (Enable sample_deps sample_options (New sample_deps sample_options))"

lemma sample_reachable: "orch_reachable sample_deps sample_options sample_run"
  unfolding sample_run_def by (rule reach_step [OF reach_new step_enable])

lemma sample_phase: "Phase (st sample_run) = PhaseSMSReady"
  using sample_enabled by (simp add: sample_run_def)

lemma vowifi_protocol_aux:
  assumes "orch_reachable d opts w"
  shows "\<exists>v. replay opts (start d opts) (trace w) = Some v \<and> w_shown v = st w
    \<and> w_tunnel v = tunnel (own w) \<and> w_ims v = ims (own w)
    \<and> (TunnelReady (st w) \<longleftrightarrow> tunnel (own w) \<noteq> None) \<and> (IMSReady (st w) \<longleftrightarrow> ims (own w) \<noteq> None)"
proof -
  from reachable_settled [OF assms] obtain v where v: "settled d opts w v" by blast
  then have h: "holds d opts w v" by (simp add: settled_def)
  have "w_shown v = st w" "w_tunnel v = tunnel (own w)" "w_ims v = ims (own w)" using h by (simp_all add: holds_def agrees_def)
  then show ?thesis using v h unfolding settled_def holds_def by auto
qed

lemma replay_shown: "replay opts v h = Some v' \<Longrightarrow> w_shown v' = w_shown v \<or> Published (w_shown v') \<in> set h"
proof (induction h arbitrary: v')
  case (Cons e h)
  then obtain u where u: "replay opts v h = Some u" "v' = advance u e" by (auto split: option.splits if_splits)
  have "w_shown v' = w_shown u \<or> e = Published (w_shown v')" unfolding u(2) by (cases "(u, e)" rule: advance.cases) (auto split: dep_call.split)
  then show ?case using Cons.IH [OF u(1)] by auto
qed simp

subsection \<open>Properties\<close>

text \<open>
  C26: the lifecycle refines its protocol.  After any sequence of operations, failures of running
  sessions and answers of the providers, the trace obeys the rules of the abstract protocol: a checkpoint
  of the radio is taken only when none is pending, the SIM and the network are used only while the radio
  is off, IMS is started only inside the one open tunnel, sessions are closed once and IMS first, the
  checkpoint is restored after that, and messages and calls use the open registered session; what the
  protocol knows at the end is what the orchestrator holds.
\<close>

theorem vowifi_protocol:
  assumes "orch_reachable d opts w"
  shows "\<exists>v. replay opts (start d opts) (trace w) = Some v \<and> w_shown v = st w
    \<and> w_tunnel v = tunnel (own w) \<and> w_ims v = ims (own w)
    \<and> (TunnelReady (st w) \<longleftrightarrow> tunnel (own w) \<noteq> None) \<and> (IMSReady (st w) \<longleftrightarrow> ims (own w) \<noteq> None)"
  by (rule vowifi_protocol_aux [OF assms])

theorem vowifi_protocol_witness:
  "\<exists>v. replay sample_options (start sample_deps sample_options) (trace sample_run) = Some v \<and> Phase (st sample_run) = PhaseSMSReady
     \<and> w_tunnel v = tunnel (own sample_run)"
  using vowifi_protocol [OF sample_reachable] sample_phase by blast

text \<open>
  C27: every published state is well formed.  SMS readiness implies registration, registration a tunnel,
  a tunnel access and a readable SIM; the flags are those of the phase; and a tunnel is shown as ready
  only with a verified responder, or with a missing one when the options allow it, and then the audit
  shown with it says high risk.
\<close>

theorem vowifi_states_wellformed:
  assumes "orch_reachable d opts w" "Published s \<in> set (trace w)"
  shows "(SMSReady s \<longrightarrow> IMSReady s) \<and> (IMSReady s \<longrightarrow> TunnelReady s) \<and> (TunnelReady s \<longrightarrow> AccessReady s \<and> Active s \<and> Enabled s)
    \<and> (AccessReady s \<longrightarrow> SIMReady s) \<and> (SMSReady s \<longleftrightarrow> Phase s = PhaseSMSReady)
    \<and> (IMSReady s \<longleftrightarrow> Phase s \<in> {PhaseIMSReady, PhaseSMSReady})
    \<and> (Phase s \<in> {PhaseIdle, PhaseFailed, PhaseStopping} \<longrightarrow> \<not> TunnelReady s)
    \<and> (TunnelReady s \<longrightarrow> sa_ResponderAUTH (Security s) = ResponderAUTHVerified
         \<or> sa_ResponderAUTH (Security s) = ResponderAUTHMissing \<and> AllowMissingResponderAUTH opts \<and> HighRisk (Security s))"
proof -
  from vowifi_protocol_aux [OF assms(1)] obtain v where "replay opts (start d opts) (trace w) = Some v" by blast
  from replay_published [OF this assms(2)] have "coherent opts s" .
  then show ?thesis by (auto simp: coherent_def audit_accepts_def)
qed

lemma sample_published: "Published (st sample_run) \<in> set (trace sample_run)"
proof -
  from vowifi_protocol_aux [OF sample_reachable] obtain v where
    v: "replay sample_options (start sample_deps sample_options) (trace sample_run) = Some v" "w_shown v = st sample_run" by blast
  have "Phase (w_shown (start sample_deps sample_options)) = PhaseIdle" by (simp add: start_def New_def blank_state_def)
  then have "w_shown v \<noteq> w_shown (start sample_deps sample_options)" using v(2) sample_phase by auto
  with replay_shown [OF v(1)] show ?thesis unfolding v(2) by blast
qed

theorem vowifi_states_wellformed_witness:
  "IMSReady (st sample_run) \<and> TunnelReady (st sample_run) \<and> sa_ResponderAUTH (Security (st sample_run)) = ResponderAUTHVerified"
  using vowifi_states_wellformed [OF sample_reachable sample_published] sample_phase by (simp add: sample_options_def)

text \<open>
  C28: no session is leaked and none is closed twice: at any time each tunnel and each registration has
  been closed exactly as often as it was opened, except the ones the orchestrator holds, which it has
  opened once more.
\<close>

theorem vowifi_sessions_accounted:
  assumes "orch_reachable d opts w"
  shows "count_list (trace w) (TunnelUp t) = count_list (trace w) (Called (CallCloseTunnel t)) + (if tunnel (own w) = Some t then 1 else 0)
    \<and> count_list (trace w) (IMSUp i) = count_list (trace w) (Called (CallCloseIMS i)) + (if ims (own w) = Some i then 1 else 0)"
proof -
  from vowifi_protocol_aux [OF assms] obtain v where v: "replay opts (start d opts) (trace w) = Some v"
    "w_tunnel v = tunnel (own w)" "w_ims v = ims (own w)" by blast
  from replay_sessions [OF v(1) start_simps(1,2), of t] replay_sessions [OF v(1) start_simps(1,2), of i] v(2,3)
  show ?thesis by simp
qed

theorem vowifi_sessions_accounted_witness:
  "Phase (st sample_run) = PhaseSMSReady
   \<and> count_list (trace sample_run) (TunnelUp 7) = count_list (trace sample_run) (Called (CallCloseTunnel 7))
     + (if tunnel (own sample_run) = Some 7 then 1 else 0)"
  using vowifi_sessions_accounted [OF sample_reachable, of 7 9] sample_phase by blast





end
