(* ===== verification/Orchestrator_Subscribers.thy ===== *)
theory Orchestrator_Subscribers
  imports Orchestrator_Properties "HOL-Library.Sublist"
begin

text \<open>
  Subscribers of the orchestrator.  What holds of an orchestrator and survives publishing a state,
  logging a call and exchanging the resources survives every operation; the channels of the
  subscribers are an instance.
\<close>

subsection \<open>Invariants of every operation\<close>

locale run_invariant =
  fixes d :: Dependencies and I :: "orchestrator \<Rightarrow> bool"
  assumes I_mutate: "I w \<Longrightarrow> I (mutate d f w)"
    and I_note: "I w \<Longrightarrow> (\<And>s. e \<noteq> Published s) \<Longrightarrow> I (note_event e w)"
    and I_resources: "I w \<Longrightarrow> I (w\<lparr>resources := r\<rparr>)"
    and I_allocations: "I w \<Longrightarrow> I (w\<lparr>allocations := k\<rparr>)"
begin

definition keeps :: "'a stage \<Rightarrow> bool" where
  "keeps m \<longleftrightarrow> (\<forall>w. I w \<longrightarrow> I (snd (m w)))"

lemma keepsI: "(\<And>w. I w \<Longrightarrow> I (snd (m w))) \<Longrightarrow> keeps m"
  by (simp add: keeps_def)

lemma I_with_own: "I w \<Longrightarrow> I (with_own f w)"
  unfolding with_own_def by (rule I_resources)

lemma I_called: "I w \<Longrightarrow> I (w\<lparr>trace := Called c # trace w\<rparr>)"
  using I_note [of w "Called c"] by (simp add: note_event_def)

lemma keeps_sbind: "keeps m \<Longrightarrow> (\<And>x. keeps (f x)) \<Longrightarrow> keeps (sbind m f)"
  unfolding keeps_def sbind_def
proof (intro allI impI)
  fix w
  assume m: "\<forall>w. I w \<longrightarrow> I (snd (m w))" and f: "\<And>x. \<forall>w. I w \<longrightarrow> I (snd (f x w))" and "I w"
  then have "I (snd (m w))" by blast
  then show "I (snd (case m w of (Inl e, w) \<Rightarrow> (Inl e, w) | (Inr x, w) \<Rightarrow> f x w))"
    using f by (cases "m w"; cases "fst (m w)") auto
qed

lemma keeps_leaves:
  "keeps (done_with x)" "keeps (stop_at stage err)" "keeps (change_state d f)"
  "keeps (call_for stage g c)" "keeps (call_do stage h c)" "keeps (query q c)"
  "keeps (\<lambda>w. (r, addWarning d m w))" "keeps (settle_without_sms d m)"
  by (auto intro!: keepsI I_mutate I_called simp: done_with_def stop_at_def change_state_def call_for_def call_do_def query_def
      ask_pair addWarning_def settle_without_sms_def split: sum.split option.split)

lemma keeps_up:
  "keeps m \<Longrightarrow> (\<And>s. e \<noteq> Published s) \<Longrightarrow> keeps (\<lambda>w. m (note_event e (with_own f w)))"
  "(\<And>s. e \<noteq> Published s) \<Longrightarrow> keeps (\<lambda>w. (x, note_event e (with_own f w)))"
  by (auto simp: keeps_def intro: I_note I_with_own)

lemma keeps_bring_up: "keeps (bring_up d opts)"
proof -
  have check: "keeps (checkpoint_radio d)"
  proof -
    have "keeps (sbind (call_for PhaseAccessReady (Snapshot d) CallSnapshot) (\<lambda>snap.
          sbind (change_state d (\<lambda>s. s\<lparr>PureAirplanePolicy := rs_PureAirplanePolicy snap\<rparr>)) (\<lambda>_ w.
            (Inr (), note_event (Took snap) (with_own (\<lambda>r. r\<lparr>radio := snap, radioChanged := True\<rparr>) w)))))"
      by (intro keeps_sbind keeps_leaves keeps_up) simp
    then show ?thesis by (auto simp: checkpoint_radio_def keeps_def)
  qed
  have off: "keeps (radio_off d)" unfolding radio_off_def by (intro keeps_sbind check keeps_leaves)
  have smsc: "keeps (read_smsc d identity)" for identity
    unfolding read_smsc_def by (auto split: option.split sum.split intro!: keeps_sbind keeps_leaves)
  have sim: "keeps (read_sim d)"
    unfolding read_sim_def by (auto split: option.split intro!: keeps_sbind keeps_leaves smsc)
  have announce: "keeps (announce_sim d identity)" for identity
    using keeps_leaves(3) by (auto simp: announce_sim_def keeps_def Let_def)
  have access: "keeps (find_access d identity)" for identity
  proof -
    have "keeps (sbind (call_for PhaseAccessReady (Resolve d) (CallResolve (proxy_request d identity))) (\<lambda>proxy0.
           case normalizeProxyRoute proxy0 of
             Inl err \<Rightarrow> stop_at PhaseAccessReady err
           | Inr proxy \<Rightarrow>
               sbind (change_state d (\<lambda>s. s\<lparr>Phase := PhaseAccessReady, AccessReady := True, st_EPDG := epdg,
                 st_ProxyMode := Mode proxy, ProxyID := px_ID proxy, LastReason := str ''epdg_access_ready''\<rparr>)) (\<lambda>_.
               done_with (epdg, proxy))))" for epdg
      by (auto split: sum.split intro!: keeps_sbind keeps_leaves)
    then show ?thesis using keeps_leaves(2)
      by (auto simp: find_access_def keeps_def stop_at_def split: sum.split)
  qed
  have audit: "keeps (audit_tunnel d opts t)" for t
    unfolding audit_tunnel_def by (auto split: prod.split option.split intro!: keeps_sbind keeps_leaves)
  have tunnel: "keeps (open_tunnel d opts identity access)" for identity access
    unfolding open_tunnel_def by (auto split: option.split intro!: keeps_sbind keeps_leaves keeps_up audit)
  have audit': "keeps (audit_ims d i)" for i
    unfolding audit_ims_def by (auto intro!: keeps_sbind keeps_leaves)
  have ims: "keeps (open_ims d identity t)" for identity t
    unfolding open_ims_def by (auto split: option.split intro!: keeps_sbind keeps_leaves keeps_up audit')
  have number: "keeps (save_number d identity evidence)" for identity evidence
    unfolding save_number_def by (auto split: option.split intro!: keeps_sbind keeps_leaves)
  have sms: "keeps (start_sms d opts i)" for i
    unfolding start_sms_def by (auto split: sum.split intro!: keeps_sbind keeps_leaves)
  show ?thesis
    unfolding bring_up_def
    by (auto intro!: keeps_sbind off sim announce access tunnel ims number sms)
qed

lemma I_cleanupSessions: "I w \<Longrightarrow> I (snd (cleanupSessions d w))"
proof -
  have 1: "I (snd (close_ims d w))" if "I w" for w
    using that by (auto simp: close_ims_def ask_pair intro!: I_with_own I_called split: option.split)
  have 2: "I (snd (close_tunnel d w))" if "I w" for w
    using that by (auto simp: close_tunnel_def ask_pair intro!: I_with_own I_called split: option.split)
  assume "I w"
  from 2 [OF 1 [OF this]] this show ?thesis by (auto simp: cleanupSessions_def split: option.split prod.split)
qed

lemma I_cleanup: "I w \<Longrightarrow> I (snd (cleanup d w))"
proof -
  assume "I w"
  obtain errs c where c: "cleanupSessions d w = (errs, c)" by fastforce
  then have "I c" using I_cleanupSessions [OF \<open>I w\<close>] by simp
  then show ?thesis using \<open>I w\<close> c
    by (auto simp: cleanup_def ask_pair intro!: I_with_own I_called split: option.split)
qed

lemma I_retain: "I w \<Longrightarrow> I (retain_radio w)"
  by (simp add: retain_radio_def I_resources)

lemma I_cancel: "I w \<Longrightarrow> I (cancel_runtime w)"
  by (simp add: cancel_runtime_def I_with_own)

lemma I_fail: "I w \<Longrightarrow> I (snd (fail_enable d stage cause w))"
  using I_cleanupSessions [OF I_cancel, of w]
  by (auto simp: fail_enable_def intro!: I_mutate I_retain split: prod.split)

lemma I_begin: "I w \<Longrightarrow> I (begin_enable d opts w)"
proof -
  assume "I w"
  then have "I (mutate d f w)" for f by (rule I_mutate)
  then show ?thesis unfolding begin_enable_def Let_def by (intro I_allocations I_resources)
qed

lemma I_Enable: "I w \<Longrightarrow> I (snd (Enable d opts w))"
proof -
  assume w: "I w"
  obtain r w' where b: "bring_up d opts (begin_enable d opts w) = (r, w')" by fastforce
  then have "I w'" using keeps_bring_up [unfolded keeps_def, rule_format, OF I_begin [OF w]] by (metis snd_conv)
  then show ?thesis using w b I_fail by (cases r) (auto simp: Enable_def)
qed

lemma I_Disable: "I w \<Longrightarrow> I (snd (Disable d w))"
proof -
  assume w: "I w"
  obtain errs c where c: "cleanup d (cancel_runtime (mutate d stopping_state w)) = (errs, c)" by fastforce
  then have "I c" using I_cleanup [OF I_cancel [OF I_mutate [OF w]], of stopping_state] by simp
  then show ?thesis using w c by (auto simp: Disable_def Let_def intro!: I_mutate I_resources)
qed

lemma I_teardown: "I w \<Longrightarrow> I (reconnect_teardown d w)"
  using I_cleanupSessions [OF I_cancel, of w] by (auto simp: reconnect_teardown_def intro!: I_mutate split: prod.split)

lemma I_failure: "I w \<Longrightarrow> I (runtime_failure d n cause errorClass reason w)"
  using I_cleanupSessions [OF I_cancel, of w]
  by (auto simp: runtime_failure_def Let_def intro!: I_mutate I_retain split: prod.split)

lemma I_sends:
  "I w \<Longrightarrow> I (snd (SendSMS d w))" "I w \<Longrightarrow> I (snd (SendUSSI d w))" "I w \<Longrightarrow> I (snd (callAction d w))" "I w \<Longrightarrow> I (snd (WithSIM d w))"
  by (auto simp: SendSMS_def SendUSSI_def callAction_def WithSIM_def intro: I_note I_called split: option.split)

text \<open>The subscriptions themselves are left to the instance.\<close>

lemma I_step:
  assumes "orch_step d opts w w'" "I w"
    and "\<And>n. I (snd (Subscribe n w))" "\<And>n. I (unsubscribe n w)" "\<And>n. I (receive n w)"
  shows "I w'"
  using assms(1)
  by cases (use assms(2-) in \<open>auto intro: I_Enable I_Disable I_teardown I_failure I_sends I_cancel\<close>)

end

subsection \<open>Channels\<close>

text \<open>The states an observer could have seen, oldest first.\<close>

fun states_of :: "event list \<Rightarrow> State list" where
  "states_of [] = []"
| "states_of (Published s # h) = states_of h @ [s]"
| "states_of (_ # h) = states_of h"

definition stream :: "Dependencies \<Rightarrow> Options \<Rightarrow> orchestrator \<Rightarrow> State list" where
  "stream d opts w = st (New d opts) # states_of (trace w)"

definition channels_ok :: "Dependencies \<Rightarrow> Options \<Rightarrow> orchestrator \<Rightarrow> bool" where
  "channels_ok d opts w \<longleftrightarrow> last (stream d opts w) = st w \<and>
     list_all (\<lambda>(i, capacity, waiting). 1 \<le> capacity \<and> length waiting \<le> capacity \<and> suffix waiting (stream d opts w)) (subscribers w)"

lemma offer_ok:
  assumes "1 \<le> capacity" "length waiting \<le> capacity" "suffix waiting l"
  shows "case offer s (capacity, waiting) of (c, q) \<Rightarrow> 1 \<le> c \<and> length q \<le> c \<and> suffix q (l @ [s])"
proof -
  have "suffix (tl waiting) l" using assms(3) suffix_order.trans [OF suffix_tl] by blast
  then show ?thesis using assms by (auto simp: offer_def Let_def)
qed

lemma states_of_note: "(\<And>s. e \<noteq> Published s) \<Longrightarrow> states_of (e # h) = states_of h"
  by (cases e) auto

interpretation channels: run_invariant d "channels_ok d opts" for d opts
proof
  fix w f
  assume w: "channels_ok d opts w"
  let ?s = "st (mutate d f w)"
  have s: "stream d opts (mutate d f w) = stream d opts w @ [?s]" by (simp add: stream_def del: mutate_fields(3))
  have subs: "subscribers (mutate d f w) = map (\<lambda>(i, sub). (i, offer ?s sub)) (subscribers w)"
    by (simp add: mutate_def Let_def)
  have "list_all (\<lambda>(i, capacity, waiting). 1 \<le> capacity \<and> length waiting \<le> capacity \<and> suffix waiting (stream d opts w @ [?s]))
      (map (\<lambda>(i, sub). (i, offer ?s sub)) (subscribers w))"
    unfolding list.pred_map
  proof (rule list.pred_mono_strong)
    show "list_all (\<lambda>(i, capacity, waiting). 1 \<le> capacity \<and> length waiting \<le> capacity \<and> suffix waiting (stream d opts w)) (subscribers w)"
      using w by (simp only: channels_ok_def)
    fix sub
    assume "case sub of (i, capacity, waiting) \<Rightarrow> 1 \<le> capacity \<and> length waiting \<le> capacity \<and> suffix waiting (stream d opts w)"
    then show "((\<lambda>(i, capacity, waiting). 1 \<le> capacity \<and> length waiting \<le> capacity \<and> suffix waiting (stream d opts w @ [?s]))
        \<circ> (\<lambda>(i, sub). (i, offer ?s sub))) sub"
      using offer_ok [of "fst (snd sub)" "snd (snd sub)" "stream d opts w" ?s] by (cases sub) (simp del: mutate_fields(3))
  qed
  then show "channels_ok d opts (mutate d f w)" unfolding channels_ok_def s subs by simp
next
  fix w e
  assume w: "channels_ok d opts w" and e: "\<And>s. e \<noteq> Published s"
  have "stream d opts (note_event e w) = stream d opts w"
    unfolding stream_def with_own_fields states_of_note [OF e] ..
  then show "channels_ok d opts (note_event e w)" using w unfolding channels_ok_def with_own_fields by simp
qed (simp_all add: channels_ok_def stream_def)

lemma channels_step: "orch_step d opts w w' \<Longrightarrow> channels_ok d opts w \<Longrightarrow> channels_ok d opts w'"
proof (erule channels.I_step)
  assume w: "channels_ok d opts w"
  fix n
  have "suffix [st w] (stream d opts w)"
    using w by (metis append_butlast_last_id channels_ok_def list.distinct(1) stream_def suffixI)
  then show "channels_ok d opts (snd (Subscribe n w))"
    using w by (auto simp: channels_ok_def Subscribe_def Let_def stream_def)
  show "channels_ok d opts (unsubscribe n w)"
    using w by (auto simp: channels_ok_def unsubscribe_def stream_def list_all_iff)
  have "suffix (tl q) l" if "suffix q l" for q l :: "State list" using that suffix_order.trans [OF suffix_tl] by blast
  then show "channels_ok d opts (receive n w)"
    using w by (fastforce simp: channels_ok_def receive_def stream_def list_all_iff)
qed

text \<open>
  C31: a subscriber never misses the newest state.  Whatever happens, the states waiting in the channel
  of a subscriber are the last ones of the sequence of published states, in order, within the capacity
  of the channel, and the sequence ends with the current state: a slow subscriber loses old states only.
\<close>

theorem vowifi_subscribers_current:
  assumes "orch_reachable d opts w"
  shows "last (stream d opts w) = st w
    \<and> list_all (\<lambda>(i, capacity, waiting). length waiting \<le> capacity \<and> suffix waiting (stream d opts w)
        \<and> (waiting = [] \<or> last waiting = st w)) (subscribers w)"
proof -
  from assms have ok: "channels_ok d opts w"
  proof (induction rule: orch_reachable.induct)
    case reach_new
    show ?case by (simp add: channels_ok_def stream_def New_def)
  next
    case (reach_step w w')
    then show ?case using channels_step by blast
  qed
  have "waiting = [] \<or> last waiting = st w" if "suffix waiting (stream d opts w)" for waiting
    using that ok by (auto simp: channels_ok_def suffix_def) (metis last_appendR)
  with ok show ?thesis unfolding channels_ok_def list_all_iff by fastforce
qed

theorem vowifi_subscribers_current_witness:
  "\<exists>w. orch_reachable sample_deps sample_options w \<and> subscribers w \<noteq> [] \<and> last (stream sample_deps sample_options w) = st w"
proof -
  let ?w = "snd (Subscribe 1 sample_run)"
  have r: "orch_reachable sample_deps sample_options ?w" by (rule reach_step [OF sample_reachable step_subscribe])
  moreover have "subscribers ?w \<noteq> []" by (simp add: Subscribe_def Let_def)
  ultimately show ?thesis using vowifi_subscribers_current [OF r] by blast
qed

end
