(* ===== verification/Go_Ip.thy ===== *)
theory Go_Ip
  imports Go_Net Go_Parse
begin

text \<open>
  Addresses as text: \<open>net.ParseIP\<close> and \<open>net.IP.String\<close> (with the parts of net/netip they are made
  of), the classes of addresses the code asks for, and the source address of a datagram.
\<close>

subsection \<open>Comparing and classifying\<close>

definition ip_equal :: "net_ip \<Rightarrow> net_ip \<Rightarrow> bool" where
  "ip_equal a b \<longleftrightarrow>
     a = b \<or> length a = 4 \<and> length b = 16 \<and> take 12 b = v4_prefix \<and> drop 12 b = a
     \<or> length a = 16 \<and> length b = 4 \<and> take 12 a = v4_prefix \<and> drop 12 a = b"

definition ip_unspecified :: "net_ip \<Rightarrow> bool" where
  "ip_unspecified a \<longleftrightarrow> ip_equal a [0, 0, 0, 0] \<or> ip_equal a (replicate 16 0)"

definition ip_multicast :: "net_ip \<Rightarrow> bool" where
  "ip_multicast a =
     (case To4 a of
        Some v4 \<Rightarrow> (v4 ! 0) AND 0xf0 = 0xe0
      | None \<Rightarrow> length a = 16 \<and> a ! 0 = 0xff)"

definition ip_broadcast4 :: net_ip where
  "ip_broadcast4 = v4_prefix @ [255, 255, 255, 255]"

subsection \<open>Reading\<close>

text \<open>Four decimal fields without leading zeros.\<close>

definition v4_field :: "gostring \<Rightarrow> byte option" where
  "v4_field s =
     (if s = [] \<or> 1 < length s \<and> hd s = 48 then None
      else case digits_value 0 s of
        None \<Rightarrow> None
      | Some n \<Rightarrow> if n < 256 then Some (of_nat n) else None)"

definition parse_v4 :: "gostring \<Rightarrow> net_ip option" where
  "parse_v4 s =
     (case split_byte 46 s of
        [a, b, c, d] \<Rightarrow>
          (case (v4_field a, v4_field b, v4_field c, v4_field d) of
             (Some a, Some b, Some c, Some d) \<Rightarrow> Some [a, b, c, d]
           | _ \<Rightarrow> None)
      | _ \<Rightarrow> None)"

text \<open>
  The loop of \<open>parseIPv6\<close>: the rest of the text, the octets so far and the position of the ellipsis.
  A group is at most four hexadecimal digits; the last four octets may be written as IPv4.
\<close>

definition is_hex :: "byte \<Rightarrow> bool" where
  "is_hex b \<longleftrightarrow> hex_val b \<noteq> None"

definition hex_number :: "gostring \<Rightarrow> nat" where
  "hex_number s = foldl (\<lambda>v b. 16 * v + the (hex_val b)) 0 s"

definition group_octets :: "nat \<Rightarrow> net_ip" where
  "group_octets n = [of_nat (n div 256), of_nat (n mod 256)]"

lemma rest_shorter:
  "dropWhile P s \<noteq> [] \<Longrightarrow> length (tl (dropWhile P s)) < length s"
  "dropWhile P s \<noteq> [] \<Longrightarrow> length (tl (tl (dropWhile P s))) < length s"
  "dropWhile P s \<noteq> [] \<Longrightarrow> length (dropWhile P s) - Suc 0 < length s"
  "dropWhile P s \<noteq> [] \<Longrightarrow> length (dropWhile P s) - Suc 0 - Suc 0 < length s"
  "dropWhile P s \<noteq> [] \<Longrightarrow> length (dropWhile P s) - Suc (Suc 0) < length s"
proof -
  have l: "length (dropWhile P s) \<le> length s" by (rule length_dropWhile_le)
  assume "dropWhile P s \<noteq> []"
  then have "0 < length (dropWhile P s)" by simp
  with l show "length (tl (dropWhile P s)) < length s" "length (tl (tl (dropWhile P s))) < length s"
    "length (dropWhile P s) - Suc 0 < length s" "length (dropWhile P s) - Suc 0 - Suc 0 < length s"
    "length (dropWhile P s) - Suc (Suc 0) < length s"
    unfolding length_tl by linarith+
qed

function v6_groups :: "gostring \<Rightarrow> net_ip \<Rightarrow> nat option \<Rightarrow> (net_ip \<times> nat option) option" where
  "v6_groups s ip ellipsis =
     (if 16 \<le> length ip then (if s = [] then Some (ip, ellipsis) else None)
      else
        let group = takeWhile is_hex s; rest = dropWhile is_hex s in
        if group = [] \<or> 4 < length group then None
        else if rest \<noteq> [] \<and> hd rest = 46 then
          (if ellipsis = None \<and> length ip \<noteq> 12 then None
           else if 16 < length ip + 4 then None
           else case parse_v4 s of None \<Rightarrow> None | Some v4 \<Rightarrow> Some (ip @ v4, ellipsis))
        else
          let ip = ip @ group_octets (hex_number group) in
          if rest = [] then Some (ip, ellipsis)
          else if hd rest \<noteq> 58 \<or> tl rest = [] then None
          else if hd (tl rest) = 58 then
            (if ellipsis \<noteq> None then None
             else if tl (tl rest) = [] then Some (ip, Some (length ip))
             else v6_groups (tl (tl rest)) ip (Some (length ip)))
          else v6_groups (tl rest) ip ellipsis)"
  by pat_completeness auto
termination
  by (relation "measure (\<lambda>(s, _). length s)") (auto intro: rest_shorter)

declare v6_groups.simps [simp del]

text \<open>An ellipsis stands for at least one group of zeros.\<close>

definition expand_ellipsis :: "net_ip \<times> nat option \<Rightarrow> net_ip option" where
  "expand_ellipsis p =
     (case p of (ip, ellipsis) \<Rightarrow>
        if length ip < 16 then
          map_option (\<lambda>at. take at ip @ replicate (16 - length ip) 0 @ drop at ip) ellipsis
        else if ellipsis \<noteq> None then None
        else Some ip)"

definition parse_v6 :: "gostring \<Rightarrow> net_ip option" where
  "parse_v6 s =
     (if take 2 s = [58, 58] then
        (if length s = 2 then Some (replicate 16 0)
         else Option.bind (v6_groups (drop 2 s) [] (Some 0)) expand_ellipsis)
      else Option.bind (v6_groups s [] None) expand_ellipsis)"

text \<open>
  \<open>net.ParseIP\<close>: the first point, colon or percent sign decides the form; addresses with a zone are
  refused; the result has 16 octets, the empty list is nil.
\<close>

definition ParseIP :: "gostring \<Rightarrow> net_ip" where
  "ParseIP s =
     (case find (\<lambda>b. b \<in> {46, 58, 37}) s of
        None \<Rightarrow> []
      | Some b \<Rightarrow>
          if b = 46 then (case parse_v4 s of None \<Rightarrow> [] | Some v4 \<Rightarrow> v4_prefix @ v4)
          else if b = 58 \<and> 37 \<notin> set s then (case parse_v6 s of None \<Rightarrow> [] | Some ip \<Rightarrow> ip)
          else [])"

subsection \<open>Writing\<close>

fun hex_text_of :: "nat \<Rightarrow> gostring" where
  "hex_text_of n = (if n < 16 then [hex_digit n] else hex_text_of (n div 16) @ [hex_digit (n mod 16)])"

declare hex_text_of.simps [simp del]

definition v6_group :: "net_ip \<Rightarrow> nat \<Rightarrow> nat" where
  "v6_group ip i = unat (ip ! (2 * i)) * 256 + unat (ip ! (2 * i + 1))"

text \<open>The first longest run of at least two zero groups, as its start and its end.\<close>

definition zero_run :: "net_ip \<Rightarrow> nat \<times> nat" where
  "zero_run ip =
     fold (\<lambda>i (a, e).
        let l = length (takeWhile (\<lambda>j. v6_group ip j = 0) [i..<8]) in
        if 2 \<le> l \<and> e - a < l then (i, i + l) else (a, e))
      [0..<8] (255, 255)"

definition v6_text :: "net_ip \<Rightarrow> gostring" where
  "v6_text ip =
     (let (a, e) = zero_run ip in
      concat (map (\<lambda>i.
        if i = a then [58, 58]
        else if a < i \<and> i < e then []
        else (if 0 < i \<and> i \<noteq> e then [58] else []) @ hex_text_of (v6_group ip i)) [0..<8]))"

definition ip_text :: "net_ip \<Rightarrow> gostring" where
  "ip_text ip =
     (if ip = [] then str ''<nil>''
      else if length ip \<noteq> 4 \<and> length ip \<noteq> 16 then 63 # hex_encode ip
      else case To4 ip of
        Some v4 \<Rightarrow> itoa (unat (v4 ! 0)) @ [46] @ itoa (unat (v4 ! 1)) @ [46] @ itoa (unat (v4 ! 2)) @ [46] @ itoa (unat (v4 ! 3))
      | None \<Rightarrow> v6_text ip)"

text \<open>\<open>net.JoinHostPort\<close> with a decimal port.\<close>

definition join_host_port :: "gostring \<Rightarrow> nat \<Rightarrow> gostring" where
  "join_host_port host port =
     (if 58 \<in> set host then [91] @ host @ [93, 58] @ itoa port else host @ [58] @ itoa port)"

subsection \<open>Datagram addresses\<close>

text \<open>A \<open>*net.UDPAddr\<close>; a nil pointer is \<open>None\<close> where the code allows one.\<close>

record udp_addr =
  ua_ip :: net_ip
  ua_port :: nat
  ua_zone :: gostring

end
