(* ===== verification/Sip_Message.thy ===== *)
theory Sip_Message
  imports Vowifi_Types Go_Ip
begin

text \<open>
  SIP messages of the gateway, \<open>internal/cellbridge/sip/message.go\<close>: the parser of datagrams, the
  parameters of header values, the responses, and the key of a server transaction.  \<open>U\<close> holds Go's
  Unicode tables.
\<close>

datatype sip_err = BadMessage | BadSDP | BadDigest | Setup string

subsection \<open>Header values\<close>

text \<open>
  \<open>headerParam\<close> searches the lower-case form of the value and slices the value itself at the offset
  found.  The two have the same length when the value is ASCII; otherwise lower-casing may lengthen
  the text (every invalid byte becomes the three bytes of U+FFFD) and the slice can be out of range.
\<close>

definition headerParam :: "unicode_env \<Rightarrow> gostring \<Rightarrow> gostring \<Rightarrow> ('e, gostring) res" where
  "headerParam U v name =
     (let key = [59] @ lower U name @ [61] in
      case index_sub (lower U v) key of
        None \<Rightarrow> Inr []
      | Some at \<Rightarrow>
          rbind (slice v (at + length key) (length v)) (\<lambda>rest.
            if has_prefix rest [34] then
              (case index_byte (drop 1 rest) 34 of
                 Some e \<Rightarrow> Inr (take e (drop 1 rest))
               | None \<Rightarrow> Inr [])
            else
              (case index_any rest [59, 44, 32, 62] of
                 Some e \<Rightarrow> Inr (trim_space (take e rest))
               | None \<Rightarrow> Inr (trim_space rest))))"

definition uriUser :: "unicode_env \<Rightarrow> gostring \<Rightarrow> gostring" where
  "uriUser U uri0 =
     (let uri = trim_space uri0;
          uri = (case index_byte uri 59 of Some i \<Rightarrow> take i uri | None \<Rightarrow> uri);
          low = lower U uri;
          uri = (if has_prefix low (str ''sip:'') \<or> has_prefix low (str ''sips:'') \<or> has_prefix low (str ''tel:'')
                 then (case index_byte uri 58 of Some i \<Rightarrow> drop (i + 1) uri | None \<Rightarrow> uri)
                 else uri)
      in case index_byte uri 64 of Some i \<Rightarrow> take i uri | None \<Rightarrow> uri)"

text \<open>The user of the URI and the tag.\<close>

definition parseNameAddr :: "unicode_env \<Rightarrow> gostring \<Rightarrow> ('e, gostring \<times> gostring) res" where
  "parseNameAddr U v =
     rbind (headerParam U v (str ''tag'')) (\<lambda>tag.
       let uri = trim_space v;
           uri = (case index_byte v 60 of
                    Some start \<Rightarrow>
                      (case index_byte (drop start v) 62 of
                         Some e \<Rightarrow> take (e - 1) (drop (start + 1) v)
                       | None \<Rightarrow> uri)
                  | None \<Rightarrow> (case index_byte uri 59 of Some semi \<Rightarrow> take semi uri | None \<Rightarrow> uri))
       in Inr (uriUser U uri, tag))"

definition dialogURI :: "unicode_env \<Rightarrow> gostring \<Rightarrow> gostring" where
  "dialogURI U v =
     (let uri = trim_space v;
          inner = (case index_byte uri 60 of
                     Some start \<Rightarrow>
                       (case index_byte (drop start uri) 62 of
                          None \<Rightarrow> None
                        | Some e \<Rightarrow> Some (take (e - 1) (drop (start + 1) uri)))
                   | None \<Rightarrow> (case index_byte uri 59 of Some semi \<Rightarrow> Some (take semi uri) | None \<Rightarrow> Some uri))
      in case inner of
           None \<Rightarrow> []
         | Some inner \<Rightarrow>
             let uri = trim_space inner; low = lower U uri in
             if uri = [] \<or> contains_any uri [32, 9, 13, 10, 60, 62, 34] then []
             else if \<not> has_prefix low (str ''sip:'') \<and> \<not> has_prefix low (str ''sips:'') then []
             else uri)"

definition contactExpires :: "unicode_env \<Rightarrow> gostring \<Rightarrow> ('e, int option) res" where
  "contactExpires U contact =
     (if contact = [] then Inr None
      else rbind (headerParam U contact (str ''expires'')) (\<lambda>raw.
             if raw = [] then Inr None else Inr (atoi raw)))"

definition ensureTag :: "unicode_env \<Rightarrow> gostring \<Rightarrow> gostring \<Rightarrow> ('e, gostring) res" where
  "ensureTag U v tag =
     (if tag = [] then Inr v
      else rbind (headerParam U v (str ''tag'')) (\<lambda>present.
             if present \<noteq> [] then Inr v else Inr (trim_space v @ str '';tag='' @ tag)))"

subsection \<open>Messages\<close>

text \<open>A Go map from names to the values in order is a function; a missing key has no values.\<close>

record sipMessage =
  m_isResponse :: bool
  m_method :: gostring
  m_requestURI :: gostring
  m_status :: int
  m_reason :: gostring
  m_headers :: "(gostring \<times> gostring) list"
  m_values :: "gostring \<Rightarrow> gostring list"
  m_body :: gostring
  m_callID :: gostring
  m_cseqNum :: int
  m_cseqMethod :: gostring
  m_from :: gostring
  m_fromUser :: gostring
  m_fromTag :: gostring
  m_to :: gostring
  m_toUser :: gostring
  m_toTag :: gostring
  m_vias :: "gostring list"
  m_branch :: gostring
  m_contact :: gostring
  m_expires :: int
  m_expiresSet :: bool

definition blank_message :: "gostring \<Rightarrow> sipMessage" where
  "blank_message body =
     \<lparr>m_isResponse = False, m_method = [], m_requestURI = [], m_status = 0, m_reason = [], m_headers = [],
      m_values = (\<lambda>_. []), m_body = body, m_callID = [], m_cseqNum = 0, m_cseqMethod = [], m_from = [],
      m_fromUser = [], m_fromTag = [], m_to = [], m_toUser = [], m_toTag = [], m_vias = [], m_branch = [],
      m_contact = [], m_expires = 0, m_expiresSet = False\<rparr>"

definition compactHeaders :: "(string \<times> string) list" where
  "compactHeaders =
     [(''i'', ''call-id''), (''m'', ''contact''), (''e'', ''content-encoding''), (''l'', ''content-length''),
      (''c'', ''content-type''), (''f'', ''from''), (''s'', ''subject''), (''k'', ''supported''), (''t'', ''to''),
      (''v'', ''via'')]"

definition canonicalHeader :: "unicode_env \<Rightarrow> gostring \<Rightarrow> gostring" where
  "canonicalHeader U name0 =
     (let name = lower U (trim_space name0) in
      case find (\<lambda>(short, _). str short = name) compactHeaders of
        Some (_, full) \<Rightarrow> str full
      | None \<Rightarrow> name)"

definition first_value :: "unicode_env \<Rightarrow> sipMessage \<Rightarrow> gostring \<Rightarrow> gostring option" where
  "first_value U msg name = (case m_values msg (canonicalHeader U name) of [] \<Rightarrow> None | v # _ \<Rightarrow> Some v)"

definition firstValue :: "unicode_env \<Rightarrow> sipMessage \<Rightarrow> gostring \<Rightarrow> gostring" where
  "firstValue U msg name = (case first_value U msg name of Some v \<Rightarrow> v | None \<Rightarrow> [])"

definition splitHeadBody :: "gostring \<Rightarrow> gostring \<times> gostring" where
  "splitHeadBody raw =
     (case index_sub raw [13, 10, 13, 10] of
        Some i \<Rightarrow> (take i raw, drop (i + 4) raw)
      | None \<Rightarrow>
          (case index_sub raw [10, 10] of
             Some i \<Rightarrow> (take i raw, drop (i + 2) raw)
           | None \<Rightarrow> (raw, [])))"

definition trim_returns :: "gostring \<Rightarrow> gostring" where
  "trim_returns s = rev (dropWhile (\<lambda>b. b = 13) (rev s))"

fun unfold_lines :: "gostring list \<Rightarrow> gostring list \<Rightarrow> gostring list" where
  "unfold_lines [] acc = acc"
| "unfold_lines (line # rest) acc =
     (if acc \<noteq> [] \<and> (has_prefix line [32] \<or> has_prefix line [9])
      then unfold_lines rest (butlast acc @ [last acc @ [32] @ trim_space line])
      else unfold_lines rest (acc @ [trim_returns line]))"

definition unfold_head :: "gostring \<Rightarrow> gostring list" where
  "unfold_head head = unfold_lines (split_byte 10 (unix_lines head)) []"

definition parseStartLine :: "unicode_env \<Rightarrow> gostring \<Rightarrow> sipMessage \<Rightarrow> (sip_err, sipMessage) res" where
  "parseStartLine U line msg =
     (let fs = split_fields line in
      if length fs < 3 then Inl (Fail BadMessage)
      else if has_prefix (upper U (fs ! 0)) (str ''SIP/'') then
        (case atoi (fs ! 1) of
           None \<Rightarrow> Inl (Fail BadMessage)
         | Some code \<Rightarrow>
             if code < 100 \<or> code > 699 then Inl (Fail BadMessage)
             else Inr (msg\<lparr>m_isResponse := True, m_status := code, m_reason := joined [32] (drop 2 fs)\<rparr>))
      else if \<not> has_prefix (upper U (fs ! 2)) (str ''SIP/'') then Inl (Fail BadMessage)
      else Inr (msg\<lparr>m_method := upper U (fs ! 0), m_requestURI := fs ! 1\<rparr>))"

text \<open>The loop over the header lines.\<close>

fun parse_headers :: "unicode_env \<Rightarrow> gostring list \<Rightarrow> sipMessage \<Rightarrow> (sip_err, sipMessage) res" where
  "parse_headers U [] msg = Inr msg"
| "parse_headers U (line # rest) msg =
     (if trim_space line = [] then parse_headers U rest msg
      else case cut_byte 58 line of
        None \<Rightarrow> Inl (Fail BadMessage)
      | Some (name0, value0) \<Rightarrow>
          let name = canonicalHeader U name0; v = trim_space value0 in
          if name = [] \<or> contains_any v [13, 10] then Inl (Fail BadMessage)
          else
            let msg = msg\<lparr>m_headers := m_headers msg @ [(name, v)],
                          m_values := (m_values msg)(name := m_values msg name @ [v])\<rparr> in
            if 64 < length (m_headers msg) then Inl (Fail BadMessage)
            else parse_headers U rest msg)"

definition apply_content_length :: "unicode_env \<Rightarrow> sipMessage \<Rightarrow> (sip_err, sipMessage) res" where
  "apply_content_length U msg =
     (case first_value U msg (str ''content-length'') of
        None \<Rightarrow> Inr msg
      | Some raw \<Rightarrow>
          (case atoi (trim_space raw) of
             None \<Rightarrow> Inl (Fail BadMessage)
           | Some n \<Rightarrow>
               if n < 0 \<or> int (length (m_body msg)) < n then Inl (Fail BadMessage)
               else Inr (msg\<lparr>m_body := take (nat n) (m_body msg)\<rparr>)))"

definition apply_cseq :: "unicode_env \<Rightarrow> sipMessage \<Rightarrow> (sip_err, sipMessage) res" where
  "apply_cseq U msg =
     (let cseq = firstValue U msg (str ''cseq''); fs = split_fields cseq in
      if cseq = [] then Inr msg
      else if length fs \<noteq> 2 then Inl (Fail BadMessage)
      else case atoi (fs ! 0) of
        None \<Rightarrow> Inl (Fail BadMessage)
      | Some n \<Rightarrow>
          if n < 0 then Inl (Fail BadMessage)
          else Inr (msg\<lparr>m_cseqNum := n, m_cseqMethod := upper U (fs ! 1)\<rparr>))"

definition apply_addresses :: "unicode_env \<Rightarrow> sipMessage \<Rightarrow> (sip_err, sipMessage) res" where
  "apply_addresses U msg =
     (let from = firstValue U msg (str ''from''); to = firstValue U msg (str ''to'');
          vias = m_values msg (str ''via'') in
      rbind (parseNameAddr U from) (\<lambda>(fromUser, fromTag).
      rbind (parseNameAddr U to) (\<lambda>(toUser, toTag).
      rbind (case vias of [] \<Rightarrow> Inr [] | via # _ \<Rightarrow> headerParam U via (str ''branch'')) (\<lambda>branch.
        Inr (msg\<lparr>m_from := from, m_fromUser := fromUser, m_fromTag := fromTag, m_to := to, m_toUser := toUser,
                 m_toTag := toTag, m_vias := vias, m_branch := branch,
                 m_contact := firstValue U msg (str ''contact'')\<rparr>)))))"

definition apply_expires :: "unicode_env \<Rightarrow> sipMessage \<Rightarrow> (sip_err, sipMessage) res" where
  "apply_expires U msg =
     (let e = firstValue U msg (str ''expires'') in
      rbind (if e = [] then Inr msg
             else case atoi (trim_space e) of
               None \<Rightarrow> Inl (Fail BadMessage)
             | Some n \<Rightarrow> Inr (msg\<lparr>m_expires := n, m_expiresSet := True\<rparr>)) (\<lambda>msg.
      rbind (contactExpires U (m_contact msg)) (\<lambda>c.
        case c of
          Some n \<Rightarrow> Inr (msg\<lparr>m_expires := n, m_expiresSet := True\<rparr>)
        | None \<Rightarrow> Inr msg)))"

definition parseMessage :: "unicode_env \<Rightarrow> byte list \<Rightarrow> (sip_err, sipMessage) res" where
  "parseMessage U packet =
     (if packet = [] then Inl (Fail BadMessage)
      else case splitHeadBody packet of
        (head, body) \<Rightarrow>
          (case unfold_head head of
             [] \<Rightarrow> Inl (Fail BadMessage)
           | line # lines \<Rightarrow>
               if trim_space line = [] then Inl (Fail BadMessage)
               else
                 rbind (parseStartLine U (trim_space line) (blank_message body)) (\<lambda>msg.
                 rbind (parse_headers U lines msg) (\<lambda>msg.
                 rbind (apply_content_length U msg) (\<lambda>msg.
                 let msg = msg\<lparr>m_callID := firstValue U msg (str ''call-id'')\<rparr> in
                 rbind (apply_cseq U msg) (\<lambda>msg.
                 rbind (apply_addresses U msg) (apply_expires U)))))))"

subsection \<open>Responses\<close>

definition crlf :: gostring where
  "crlf = [13, 10]"

definition header_line :: "string \<Rightarrow> gostring \<Rightarrow> gostring" where
  "header_line name v = str name @ str '': '' @ v @ crlf"

definition response_head :: "unicode_env \<Rightarrow> sipMessage \<Rightarrow> nat \<Rightarrow> gostring \<Rightarrow> gostring \<Rightarrow> ('e, gostring) res" where
  "response_head U msg code reason toTag =
     rbind (if m_to msg = [] then Inr []
            else rbind (ensureTag U (m_to msg) toTag) (\<lambda>to. Inr (header_line ''To'' to))) (\<lambda>to_line.
       Inr (str ''SIP/2.0 '' @ itoa code @ [32] @ reason @ crlf
            @ (if m_vias msg = [] then header_line ''Via'' (str ''SIP/2.0/UDP 0.0.0.0;branch=z9hG4bK0'') else [])
            @ concat (map (header_line ''Via'') (m_vias msg))
            @ (if m_from msg = [] then [] else header_line ''From'' (m_from msg))
            @ to_line
            @ (if m_callID msg = [] then [] else header_line ''Call-ID'' (m_callID msg))
            @ (if firstValue U msg (str ''cseq'') = [] then []
               else header_line ''CSeq'' (firstValue U msg (str ''cseq'')))))"

definition response_tail :: "gostring list \<Rightarrow> gostring \<Rightarrow> gostring" where
  "response_tail extra body =
     concat (map (\<lambda>line. if line = [] then [] else line @ crlf) extra)
     @ str ''Content-Length: '' @ itoa (length body) @ crlf @ crlf @ body"

definition buildResponse ::
    "unicode_env \<Rightarrow> sipMessage \<Rightarrow> nat \<Rightarrow> gostring \<Rightarrow> gostring \<Rightarrow> gostring list \<Rightarrow> gostring \<Rightarrow> ('e, byte list) res" where
  "buildResponse U msg code reason toTag extra body =
     rbind (response_head U msg code reason toTag) (\<lambda>head. Inr (head @ response_tail extra body))"

subsection \<open>Transactions\<close>

record txKey =
  tk_ip :: gostring
  tk_zone :: gostring
  tk_port :: nat
  tk_callID :: gostring
  tk_branch :: gostring
  tk_cseq :: int
  tk_method :: gostring
  tk_uri :: gostring

definition normalizeIP :: "net_ip \<Rightarrow> net_ip" where
  "normalizeIP ip = (case To4 ip of Some v4 \<Rightarrow> v4 | None \<Rightarrow> ip)"

definition makeTxKey :: "unicode_env \<Rightarrow> sipMessage \<Rightarrow> udp_addr \<Rightarrow> txKey option" where
  "makeTxKey U msg remote =
     (if m_branch msg = [] \<or> m_callID msg = [] \<or> m_cseqNum msg < 0 then None
      else
        let method = upper U (if m_method msg = [] then m_cseqMethod msg else m_method msg);
            ip = normalizeIP (ua_ip remote) in
        if method = [] then None
        else Some \<lparr>tk_ip = (if ip = [] then [] else ip_text ip), tk_zone = ua_zone remote, tk_port = ua_port remote,
                   tk_callID = m_callID msg, tk_branch = m_branch msg, tk_cseq = m_cseqNum msg,
                   tk_method = method, tk_uri = m_requestURI msg\<rparr>)"

end
