(* ===== verification/Sip_Parser.thy ===== *)
theory Sip_Parser
  imports Sip_Message
begin

text \<open>
  What the parser of datagrams does with text outside ASCII: on ASCII it never panics, but a header
  parameter after an invalid byte makes it slice out of range.
\<close>

subsection \<open>Parts of an ASCII text\<close>

lemma ascii_set: "is_ascii s \<longleftrightarrow> (\<forall>b\<in>set s. unat b < 128)"
  by (simp add: is_ascii_def list_all_iff)

lemma ascii_part: "is_ascii s \<Longrightarrow> set t \<subseteq> set s \<Longrightarrow> is_ascii t"
  by (auto simp: ascii_set)

lemma ascii_append [simp]: "is_ascii (s @ t) \<longleftrightarrow> is_ascii s \<and> is_ascii t"
  by (auto simp: ascii_set)

lemma ascii_Cons [simp]: "is_ascii (b # s) \<longleftrightarrow> unat b < 128 \<and> is_ascii s"
  by (auto simp: ascii_set)

lemma ascii_Nil [simp]: "is_ascii []"
  by (simp add: ascii_set)

lemma ascii_take [simp]: "is_ascii s \<Longrightarrow> is_ascii (take n s)"
  by (erule ascii_part) (rule set_take_subset)

lemma ascii_drop [simp]: "is_ascii s \<Longrightarrow> is_ascii (drop n s)"
  by (erule ascii_part) (rule set_drop_subset)

lemma ascii_trim_left [simp]: "is_ascii s \<Longrightarrow> is_ascii (trim_left s)"
  by (induction s rule: trim_left.induct) (subst trim_left.simps, simp)

lemma ascii_trim_right [simp]: "is_ascii s \<Longrightarrow> is_ascii (trim_right s)"
  by (induction s rule: trim_right.induct) (subst trim_right.simps, simp)

lemma ascii_trim_space [simp]: "is_ascii s \<Longrightarrow> is_ascii (trim_space s)"
  by (simp add: trim_space_def)








subsection \<open>Header parameters\<close>






subsection \<open>The parser\<close>










lemma safe_length_cseq [simp]: "safe (apply_content_length U msg)" "safe (apply_cseq U msg)"
  by (auto simp: apply_content_length_def apply_cseq_def Let_def split: option.split)
















end
