(* ===== verification/Sip_Media.thy ===== *)
theory Sip_Media
  imports Sip_Message
begin

text \<open>
  The media of a gateway call, \<open>internal/cellbridge/sip/rtp.go\<close> and \<open>pcm.go\<close>: RTP packets, the
  session description of the peer with the address its audio may go to, and the \<mu>-law codec.
\<close>

subsection \<open>RTP packets\<close>

definition rtpHeaderLen :: nat where
  "rtpHeaderLen = 12"

definition rtpMaxAudio :: nat where
  "rtpMaxAudio = 320"

definition rtpFrame :: nat where
  "rtpFrame = 160"

text \<open>The end of the header after its extension, \<open>None\<close> when the packet is too short.\<close>

definition rtp_extension_end :: "byte list \<Rightarrow> nat \<Rightarrow> (sip_err, nat option) res" where
  "rtp_extension_end packet header =
     (if length packet < header + 4 then Inr None
      else rbind (u16_at packet (header + 2)) (\<lambda>words.
             let header = header + (4 + unat words * 4) in
             if length packet < header then Inr None else Inr (Some header)))"

text \<open>The end of the payload before its padding.\<close>

definition rtp_payload_end :: "byte list \<Rightarrow> nat \<Rightarrow> (sip_err, nat option) res" where
  "rtp_payload_end packet header =
     (if length packet = 0 then Inr None
      else rbind (idx packet (length packet - 1)) (\<lambda>last.
             let pad = unat last in
             if pad < 1 \<or> length packet < header + pad then Inr None else Inr (Some (length packet - pad))))"

text \<open>The payload type, the sequence number and the payload; \<open>None\<close> is \<open>ok = false\<close>.\<close>

definition parseRTP :: "byte list \<Rightarrow> (sip_err, (byte \<times> 16 word \<times> byte list) option) res" where
  "parseRTP packet =
     (if length packet < rtpHeaderLen then Inr None
      else rbind (idx packet 0) (\<lambda>b0.
        if drop_bit 6 b0 \<noteq> 2 then Inr None
        else
          let padding = b0 AND 0x20 \<noteq> 0; extension = b0 AND 0x10 \<noteq> 0; csrc = unat (b0 AND 0x0f) in
          rbind (idx packet 1) (\<lambda>b1.
          rbind (u16_at packet 2) (\<lambda>sequence.
            let header = rtpHeaderLen + csrc * 4 in
            if length packet < header then Inr None
            else
              rbind (if extension then rtp_extension_end packet header else Inr (Some header)) (\<lambda>h.
                case h of
                  None \<Rightarrow> Inr None
                | Some header \<Rightarrow>
                    rbind (if padding then rtp_payload_end packet header else Inr (Some (length packet))) (\<lambda>e.
                      case e of
                        None \<Rightarrow> Inr None
                      | Some e \<Rightarrow>
                          if e < header then Inr None
                          else rbind (slice packet header e) (\<lambda>payload.
                                 Inr (Some (b1 AND 0x7f, sequence, payload)))))))))"

definition buildRTP :: "16 word \<Rightarrow> 32 word \<Rightarrow> 32 word \<Rightarrow> byte list \<Rightarrow> byte list" where
  "buildRTP sequence timestamp ssrc payload =
     [0x80, 0] @ put_be16 sequence @ put_be32 timestamp @ put_be32 ssrc @ payload"

subsection \<open>Session descriptions\<close>

definition sameIP :: "net_ip \<Rightarrow> net_ip \<Rightarrow> bool" where
  "sameIP a b =
     (let a = normalizeIP a; b = normalizeIP b in
      if a = [] \<or> b = [] then False else ip_equal a b)"

text \<open>
  \<open>pinMediaIP\<close>: the address declared by the peer must be the source of its datagrams, unspecified, or
  a benchmark address (198.18.0.0/15) of a peer in 100.64.0.0/10; the result is always the source.
\<close>

definition pinMediaIP :: "net_ip \<Rightarrow> net_ip \<Rightarrow> net_ip option" where
  "pinMediaIP declared source0 =
     (if declared = [] \<or> source0 = [] \<or> ip_multicast declared \<or> ip_equal declared ip_broadcast4 then None
      else
        let source = normalizeIP source0 in
        if ip_unspecified declared then Some source
        else if \<not> sameIP declared source then
          (case (To4 declared, To4 source) of
             (Some tun, Some peer) \<Rightarrow>
               if tun ! 0 \<noteq> 198 \<or> (tun ! 1) AND 0xfe \<noteq> 18 \<or> peer ! 0 \<noteq> 100 \<or> (peer ! 1) AND 0xc0 \<noteq> 64
               then None else Some source
           | _ \<Rightarrow> None)
        else Some source)"

definition pcmu8k :: "gostring \<Rightarrow> bool" where
  "pcmu8k spec =
     (let parts = split_byte 47 spec in
      if length parts < 2 \<or> length parts > 3 \<or> parts ! 0 \<noteq> str ''PCMU'' \<or> parts ! 1 \<noteq> str ''8000'' then False
      else length parts = 2 \<or> parts ! 2 = str ''1'')"

fun offerHasPCMU :: "gostring list \<Rightarrow> (int \<Rightarrow> gostring) \<Rightarrow> bool" where
  "offerHasPCMU [] mappings = False"
| "offerHasPCMU (format # formats) mappings =
     (if atoi format \<noteq> Some 0 then offerHasPCMU formats mappings
      else if mappings 0 = [] \<or> pcmu8k (mappings 0) then True
      else offerHasPCMU formats mappings)"

text \<open>The variables of the loop over the lines.\<close>

record sdp_scan =
  sd_session :: net_ip
  sd_media :: net_ip
  sd_port :: int
  sd_formats :: "gostring list"
  sd_mappings :: "int \<Rightarrow> gostring"
  sd_inAudio :: bool
  sd_sawAudio :: bool

definition sdp_start :: sdp_scan where
  "sdp_start =
     \<lparr>sd_session = [], sd_media = [], sd_port = 0, sd_formats = [], sd_mappings = (\<lambda>_. []), sd_inAudio = False,
      sd_sawAudio = False\<rparr>"

definition sdp_media_line :: "unicode_env \<Rightarrow> gostring \<Rightarrow> sdp_scan \<Rightarrow> (sip_err, sdp_scan) res" where
  "sdp_media_line U line d =
     (let fs = split_fields (trim_prefix line (str ''m=''));
          audio = 4 \<le> length fs \<and> equal_fold U (fs ! 0) (str ''audio'')
                  \<and> (equal_fold U (fs ! 2) (str ''RTP/AVP'') \<or> equal_fold U (fs ! 2) (str ''RTP/AVPF''));
          d = d\<lparr>sd_inAudio := audio\<rparr>
      in if \<not> audio then Inr d
         else case atoi (hd (split_byte 47 (fs ! 1))) of
           None \<Rightarrow> Inl (Fail BadSDP)
         | Some port \<Rightarrow> Inr (d\<lparr>sd_sawAudio := True, sd_port := port, sd_formats := drop 3 fs\<rparr>))"

definition sdp_address_line :: "gostring \<Rightarrow> sdp_scan \<Rightarrow> sdp_scan" where
  "sdp_address_line line d =
     (let fs = split_fields (trim_prefix line (str ''c='')) in
      if length fs < 3 then d
      else
        let ip = ParseIP (hd (split_byte 47 (fs ! 2))) in
        if sd_inAudio d then d\<lparr>sd_media := ip\<rparr>
        else if \<not> sd_sawAudio d then d\<lparr>sd_session := ip\<rparr> else d)"

definition sdp_mapping_line :: "unicode_env \<Rightarrow> gostring \<Rightarrow> sdp_scan \<Rightarrow> sdp_scan" where
  "sdp_mapping_line U line d =
     (let fs = split_fields (trim_prefix (drop 2 line) (str ''rtpmap:'')) in
      if length fs < 2 then d
      else case atoi (fs ! 0) of
        None \<Rightarrow> d
      | Some pt \<Rightarrow> d\<lparr>sd_mappings := (sd_mappings d)(pt := upper U (fs ! 1))\<rparr>)"

fun sdp_lines :: "unicode_env \<Rightarrow> gostring list \<Rightarrow> sdp_scan \<Rightarrow> (sip_err, sdp_scan) res" where
  "sdp_lines U [] d = Inr d"
| "sdp_lines U (raw # rest) d =
     (let line = trim_space raw in
      if has_prefix line (str ''m='') then rbind (sdp_media_line U line d) (sdp_lines U rest)
      else if has_prefix line (str ''c='') then sdp_lines U rest (sdp_address_line line d)
      else if sd_inAudio d \<and> has_prefix (lower U line) (str ''a=rtpmap:'')
      then sdp_lines U rest (sdp_mapping_line U line d)
      else sdp_lines U rest d)"

definition validateAudioSDP :: "unicode_env \<Rightarrow> gostring \<Rightarrow> net_ip \<Rightarrow> (sip_err, net_ip \<times> int) res" where
  "validateAudioSDP U body source =
     rbind (sdp_lines U (split_byte 10 (unix_lines body)) sdp_start) (\<lambda>d.
       if \<not> sd_sawAudio d \<or> sd_port d = 0 \<or> sd_formats d = [] then Inl (Fail BadSDP)
       else if sd_port d < 1 \<or> sd_port d > 65535 then Inl (Fail BadSDP)
       else if \<not> offerHasPCMU (sd_formats d) (sd_mappings d) then Inl (Fail BadSDP)
       else
         let ip = (if sd_media d = [] then sd_session d else sd_media d) in
         if ip = [] then Inl (Fail BadSDP)
         else case pinMediaIP ip source of
           None \<Rightarrow> Inl (Fail BadSDP)
         | Some pinned \<Rightarrow> Inr (pinned, sd_port d))"

subsection \<open>The codec\<close>

text \<open>
  A sample is a 16-bit word read as a signed integer.  The scan for the segment stops at the first
  endpoint above the value.
\<close>

definition pcmuSegmentEndpoints :: "int list" where
  "pcmuSegmentEndpoints = [0, 256, 512, 1024, 2048, 4096, 8192, 16384]"

function pcmu_segment :: "int \<Rightarrow> nat \<Rightarrow> nat" where
  "pcmu_segment v segment =
     (if segment < length pcmuSegmentEndpoints - 1 \<and> pcmuSegmentEndpoints ! (segment + 1) \<le> v
      then pcmu_segment v (segment + 1)
      else segment)"
  by pat_completeness auto
termination
  by (relation "measure (\<lambda>(_, segment). length pcmuSegmentEndpoints - segment)") auto

declare pcmu_segment.simps [simp del]

definition encodePCMUSample :: "16 word \<Rightarrow> byte" where
  "encodePCMUSample sample =
     (let sign = (if sint sample < 0 then 0x80 else 0 :: byte);
          v = (if sint sample < 0 then - sint sample else sint sample);
          v = (if 32635 < v then 32635 else v) + 132;
          segment = pcmu_segment v 0;
          mantissa = (v div 2 ^ (segment + 3)) mod 16
      in NOT (sign OR word_of_int (int segment * 16) OR word_of_int mantissa))"

definition decodePCMUSample :: "byte \<Rightarrow> 16 word" where
  "decodePCMUSample b =
     (let v = NOT b;
          segment = unat (drop_bit 4 v AND 0x07);
          mantissa = uint (v AND 0x0f);
          sample = (mantissa * 8 + 132) * 2 ^ segment
      in if v AND 0x80 \<noteq> 0 then word_of_int (132 - sample) else word_of_int (sample - 132))"

definition encodePCMU :: "16 word list \<Rightarrow> byte list" where
  "encodePCMU samples = map encodePCMUSample samples"

definition decodePCMU :: "byte list \<Rightarrow> 16 word list" where
  "decodePCMU payload = map decodePCMUSample payload"

end
