(* ===== verification/Sip_Server.thy ===== *)
theory Sip_Server
  imports Sip_Media "HOL-Library.AList"
begin

text \<open>
  The state of the SIP gateway and everything before calls, \<open>internal/cellbridge/sip/server.go\<close> and
  \<open>digest.go\<close>: transactions with their cached responses, digest authentication, and registration.
  Handlers are functions on the world of the gateway; the critical sections of the server's mutex
  begin with \<open>lock\<close>, where the steps of the other goroutines that come first are applied.
\<close>

subsection \<open>State\<close>

record nonceState =
  ns_peer :: udp_addr
  ns_expires :: int
  ns_created :: int
  ns_maxNC :: "((gostring \<times> gostring) \<times> nat) list"

record registration =
  rg_username :: gostring
  rg_addr :: udp_addr
  rg_contact :: gostring
  rg_requestURI :: gostring
  rg_expires :: int

record serverTx =
  tx_remote :: udp_addr
  tx_last :: "byte list"
  tx_created :: int
  tx_touched :: int

datatype direction = Outbound | Inbound

text \<open>\<open>endReason\<close>; the empty reason is \<open>NoReason\<close>.\<close>

datatype end_reason =
    NoReason | EndBye | EndCancel | EndTimeout | EndAckTimeout | EndCodec | EndBadSDP | EndReject | EndExternal
  | EndRemoteGone | EndFailed | EndShutdown

text \<open>
  A session (\<open>call.go\<close>).  The context of the session and its dial are flags that tell whether they
  are cancelled, a channel of capacity one tells whether it holds its token, and a zero time is
  \<open>None\<close>.
\<close>

record sip_session =
  ss_direction :: direction
  ss_sipCallID :: gostring
  ss_backendID :: gostring
  ss_owner :: gostring
  ss_number :: gostring
  ss_peer :: udp_addr
  ss_localTag :: gostring
  ss_remoteTag :: gostring
  ss_localFrom :: gostring
  ss_localTo :: gostring
  ss_initialInviteURI :: gostring
  ss_remoteDialogTarget :: gostring
  ss_inviteCSeq :: int
  ss_inviteBranch :: gostring
  ss_inviteVia :: "gostring list"
  ss_inviteFrom :: gostring
  ss_inviteTo :: gostring
  ss_txKey :: "txKey option"
  ss_inviteRaw :: "byte list"
  ss_lastResp :: "byte list"
  ss_rtpRemote :: "udp_addr option"
  ss_media :: bool
  ss_release :: bool
  ss_mediaOn :: bool
  ss_rtpInit :: bool
  ss_ssrc :: "32 word"
  ss_txSeq :: "16 word"
  ss_txTS :: "32 word"
  ss_seqInit :: bool
  ss_lastSeq :: "16 word"
  ss_cancelled :: bool
  ss_dialCancelled :: bool
  ss_created :: int
  ss_acceptedAt :: "int option"
  ss_deadAt :: int
  ss_nextInvite :: "int option"
  ss_next200 :: "int option"
  ss_inviteDelay :: int
  ss_finalDelay :: int
  ss_nextCSeq :: int
  ss_ackCh :: bool
  ss_proceed :: bool
  ss_dead :: bool
  ss_finalSent :: bool
  ss_dialogConfirmed :: bool
  ss_answerStarted :: bool
  ss_ownAnswered :: bool
  ss_ackSent :: bool
  ss_pendingBye :: bool
  ss_ackSeen :: bool
  ss_peerBye :: bool
  ss_byeSent :: bool
  ss_cancelSent :: bool
  ss_gotProvisional :: bool
  ss_endReason :: end_reason
  ss_finished :: bool

text \<open>What the gateway did that the outside can see, with the decisions behind it.\<close>

datatype sip_event =
    Sent udp_addr "byte list"
  | Issued gostring udp_addr
  | Accepted udp_addr gostring gostring gostring nat sipMessage
  | Bound registration
  | Unbound

text \<open>What became of the calls: a session is named by its index.\<close>

datatype call_event =
    Dialled nat gostring
  | Took nat gostring
  | Final nat nat
  | PhoneAccepted nat
  | AnswerCall nat
  | HangupCall gostring
  | AckOut nat
  | ByeOut nat

text \<open>
  The server.  A pointer to a session is its index in \<open>sv_store\<close>, which only grows; Go's maps are
  association lists with distinct keys; \<open>sv_ended\<close> tells whether the context of the run is cancelled.
  \<open>sv_trace\<close> and \<open>sv_log\<close> are no fields of the code: they record the events.
\<close>

record sipServer =
  sv_username :: gostring
  sv_password :: gostring
  sv_realm :: gostring
  sv_advertised :: gostring
  sv_dialTimeout :: int
  sv_pollEvery :: int
  sv_nonceLife :: int
  sv_ackWait :: int
  sv_inviteWait :: int
  sv_t1 :: int
  sv_t2 :: int
  sv_port :: nat
  sv_rtpPort :: nat
  sv_closed :: bool
  sv_running :: bool
  sv_ended :: bool
  sv_stopping :: bool
  sv_reg :: "registration option"
  sv_store :: "sip_session list"
  sv_sessions :: "(gostring \<times> nat) list"
  sv_byBackend :: "(gostring \<times> nat) list"
  sv_txs :: "(txKey \<times> serverTx) list"
  sv_nonces :: "(gostring \<times> nonceState) list"
  sv_hung :: "gostring list"
  sv_rtpSess :: "nat option"
  sv_trace :: "sip_event list"
  sv_log :: "call_event list"

text \<open>
  The surroundings of the gateway: Go's tables and MD5, the successive readings of the clock, the
  random reader (\<open>None\<close>: it fails), the text of a time, and what other goroutines do before the
  \<open>k\<close>-th critical section of the handlers.
\<close>

record sip_env =
  se_unicode :: unicode_env
  se_md5 :: "byte list \<Rightarrow> byte list"
  se_clock :: "nat \<Rightarrow> int"
  se_random :: "nat \<Rightarrow> nat \<Rightarrow> byte list option"
  se_time_text :: "int \<Rightarrow> gostring"
  se_others :: "nat \<Rightarrow> sipServer \<Rightarrow> sipServer"

record sipWorld =
  sw_server :: sipServer
  sw_ticks :: nat
  sw_drawn :: nat
  sw_locks :: nat

abbreviation on_server :: "(sipServer \<Rightarrow> sipServer) \<Rightarrow> sipWorld \<Rightarrow> sipWorld" where
  "on_server f w \<equiv> w\<lparr>sw_server := f (sw_server w)\<rparr>"

definition emit :: "sip_event \<Rightarrow> sipWorld \<Rightarrow> sipWorld" where
  "emit ev w = on_server (\<lambda>s. s\<lparr>sv_trace := sv_trace s @ [ev]\<rparr>) w"

definition now :: "sip_env \<Rightarrow> sipWorld \<Rightarrow> int \<times> sipWorld" where
  "now e w = (se_clock e (sw_ticks w), w\<lparr>sw_ticks := sw_ticks w + 1\<rparr>)"

definition lock :: "sip_env \<Rightarrow> sipWorld \<Rightarrow> sipWorld" where
  "lock e w = w\<lparr>sw_server := se_others e (sw_locks w) (sw_server w), sw_locks := sw_locks w + 1\<rparr>"

definition seconds :: "int \<Rightarrow> int" where
  "seconds n = n * 1000000000"

subsection \<open>Addresses\<close>

definition cloneAddr :: "udp_addr \<Rightarrow> udp_addr" where
  "cloneAddr a = a\<lparr>ua_ip := normalizeIP (ua_ip a)\<rparr>"

definition addrEqual :: "udp_addr \<Rightarrow> udp_addr \<Rightarrow> bool" where
  "addrEqual a b = (if ua_port a \<noteq> ua_port b then False else sameIP (ua_ip a) (ua_ip b))"

subsection \<open>Transactions\<close>

text \<open>The scan for the oldest entry: the entry found so far, if any.\<close>

fun oldest_tx :: "(txKey \<times> serverTx) list \<Rightarrow> (txKey \<times> int) option \<Rightarrow> (txKey \<times> int) option" where
  "oldest_tx [] found = found"
| "oldest_tx ((key, tx) # rest) found =
     oldest_tx rest
       (case found of
          None \<Rightarrow> Some (key, tx_created tx)
        | Some (_, at) \<Rightarrow> if tx_created tx < at then Some (key, tx_created tx) else found)"

lemma oldest_tx_key:
  "oldest_tx txs found = Some (key, at) \<Longrightarrow> key \<in> fst ` set txs \<or> found = Some (key, at)"
proof (induction txs found rule: oldest_tx.induct)
  case (2 key' tx rest found)
  from "2.IH" "2.prems" show ?case by (cases found) (auto split: if_splits)
qed simp

lemma length_delete_key: "key \<in> fst ` set xs \<Longrightarrow> length (AList.delete key xs) < length xs"
  by (auto simp: AList.delete_eq intro: length_filter_less)

function drop_oldest_txs :: "(txKey \<times> serverTx) list \<Rightarrow> (txKey \<times> serverTx) list" where
  "drop_oldest_txs txs =
     (if length txs > 128 then
        (case oldest_tx txs None of
           None \<Rightarrow> txs
         | Some (key, _) \<Rightarrow> drop_oldest_txs (AList.delete key txs))
      else txs)"
  by pat_completeness auto
termination
  by (relation "measure length") (auto dest!: oldest_tx_key intro: length_delete_key)

declare drop_oldest_txs.simps [simp del]

definition evictTxs :: "int \<Rightarrow> (txKey \<times> serverTx) list \<Rightarrow> (txKey \<times> serverTx) list" where
  "evictTxs t txs = drop_oldest_txs (filter (\<lambda>(_, tx). \<not> t - tx_touched tx > seconds 64) txs)"

definition evictTxLocked :: "sip_env \<Rightarrow> sipWorld \<Rightarrow> sipWorld" where
  "evictTxLocked e w =
     (let (t, w) = now e w in on_server (\<lambda>s. s\<lparr>sv_txs := evictTxs t (sv_txs s)\<rparr>) w)"

definition put_tx :: "txKey \<Rightarrow> serverTx \<Rightarrow> sipWorld \<Rightarrow> sipWorld" where
  "put_tx key tx w = on_server (\<lambda>s. s\<lparr>sv_txs := AList.update key tx (sv_txs s)\<rparr>) w"

definition storeTxLocked :: "sip_env \<Rightarrow> txKey \<Rightarrow> udp_addr \<Rightarrow> byte list \<Rightarrow> sipWorld \<Rightarrow> sipWorld" where
  "storeTxLocked e key remote raw w =
     (if tk_callID key = [] \<or> tk_branch key = [] \<or> tk_method key = [] then w
      else case map_of (sv_txs (sw_server w)) key of
        Some tx \<Rightarrow>
          if \<not> addrEqual (tx_remote tx) remote then w
          else
            let (t, w) = now e w in
            evictTxLocked e (put_tx key (tx\<lparr>tx_last := raw, tx_touched := t\<rparr>) w)
      | None \<Rightarrow>
          let (created, w) = now e w; (t, w) = now e w in
          evictTxLocked e (put_tx key \<lparr>tx_remote = cloneAddr remote, tx_last = raw, tx_created = created, tx_touched = t\<rparr> w))"

definition remember :: "sip_env \<Rightarrow> sipMessage \<Rightarrow> udp_addr \<Rightarrow> byte list \<Rightarrow> sipWorld \<Rightarrow> sipWorld" where
  "remember e msg remote raw w =
     (if m_method msg = [] \<or> m_method msg = str ''ACK'' then w
      else case makeTxKey (se_unicode e) msg remote of
        None \<Rightarrow> w
      | Some key \<Rightarrow> storeTxLocked e key remote raw (lock e w))"

definition writeTo :: "udp_addr \<Rightarrow> byte list \<Rightarrow> sipWorld \<Rightarrow> sipWorld" where
  "writeTo addr raw w = (if raw = [] then w else emit (Sent addr raw) w)"

text \<open>Whether a cached response answered the request.\<close>

definition resendCached :: "sip_env \<Rightarrow> sipMessage \<Rightarrow> udp_addr \<Rightarrow> sipWorld \<Rightarrow> bool \<times> sipWorld" where
  "resendCached e msg remote w =
     (case makeTxKey (se_unicode e) msg remote of
        None \<Rightarrow> (False, w)
      | Some key \<Rightarrow>
          if m_method msg = [] \<or> m_method msg = str ''ACK'' then (False, w)
          else
            let w = lock e w in
            case map_of (sv_txs (sw_server w)) key of
              None \<Rightarrow> (False, w)
            | Some tx \<Rightarrow>
                if \<not> addrEqual (tx_remote tx) remote \<or> tx_last tx = [] then (False, w)
                else (True, writeTo remote (tx_last tx) w))"

text \<open>\<open>reject\<close> is \<open>sip_reply\<close>.  The tag passed is empty, so the response never fails.\<close>

definition sip_reply ::
    "sip_env \<Rightarrow> sipMessage \<Rightarrow> udp_addr \<Rightarrow> nat \<Rightarrow> string \<Rightarrow> gostring list \<Rightarrow> sipWorld \<Rightarrow> (sip_err, sipWorld) res" where
  "sip_reply e msg remote code reason extra w =
     rbind (buildResponse (se_unicode e) msg code (str reason) [] extra []) (\<lambda>raw.
       Inr (writeTo remote raw (remember e msg remote raw w)))"

subsection \<open>Digest credentials\<close>

record digestCreds =
  dc_username :: gostring
  dc_realm :: gostring
  dc_nonce :: gostring
  dc_uri :: gostring
  dc_response :: gostring
  dc_algorithm :: gostring
  dc_cnonce :: gostring
  dc_nc :: gostring
  dc_qop :: gostring

text \<open>A quoted value up to its closing quote, and the rest; \<open>None\<close>: it is not closed.\<close>

fun quoted_value :: "gostring \<Rightarrow> gostring \<Rightarrow> (gostring \<times> gostring) option" where
  "quoted_value [] v = None"
| "quoted_value (c # s) v =
     (if c = 92 then (case s of [] \<Rightarrow> None | d # s \<Rightarrow> quoted_value s (v @ [d]))
      else if c = 34 then Some (v, s)
      else quoted_value s (v @ [c]))"

lemma quoted_value_shorter: "quoted_value s v = Some (v', rest) \<Longrightarrow> length rest < length s"
  by (induction s v rule: quoted_value.induct) (auto split: list.splits if_splits)

text \<open>One directive: its name, its value and the rest of the text.\<close>

definition directive :: "unicode_env \<Rightarrow> gostring \<Rightarrow> (gostring \<times> gostring \<times> gostring) option" where
  "directive U s =
     (let name = takeWhile (\<lambda>b. b \<noteq> 61 \<and> b \<noteq> 44) s; rest = dropWhile (\<lambda>b. b \<noteq> 61 \<and> b \<noteq> 44) s in
      if rest = [] \<or> hd rest \<noteq> 61 then None
      else
        let key = lower U (trim_space name); body = dropWhile (\<lambda>b. b = 32 \<or> b = 9) (tl rest) in
        case (if body \<noteq> [] \<and> hd body = 34 then quoted_value (tl body) []
              else Some (trim_space (takeWhile (\<lambda>b. b \<noteq> 44) body), dropWhile (\<lambda>b. b \<noteq> 44) body)) of
          None \<Rightarrow> None
        | Some (v, rest) \<Rightarrow> if key = [] then None else Some (key, v, rest))"

lemma directive_shorter:
  assumes "directive U s = Some (key, v, rest)"
  shows "length rest < length s"
proof -
  let ?after = "dropWhile (\<lambda>b. b \<noteq> 61 \<and> b \<noteq> 44) s"
  let ?body = "dropWhile (\<lambda>b. b = 32 \<or> b = 9) (tl ?after)"
  have a: "length ?after \<le> length s" "length ?body \<le> length (tl ?after)" "length (dropWhile (\<lambda>b. b \<noteq> 44) ?body) \<le> length ?body"
    by (rule length_dropWhile_le)+
  have ne: "?after \<noteq> []"
    using assms unfolding directive_def Let_def by (cases "?after = []") simp_all
  then have "length (tl ?after) < length ?after" by simp
  then have body: "length ?body < length s" using a by linarith
  have "(if ?body \<noteq> [] \<and> hd ?body = 34 then quoted_value (tl ?body) []
         else Some (trim_space (takeWhile (\<lambda>b. b \<noteq> 44) ?body), dropWhile (\<lambda>b. b \<noteq> 44) ?body)) = Some (v, rest)"
    using assms unfolding directive_def Let_def by (simp only: split: if_splits option.splits prod.splits) auto
  then consider "quoted_value (tl ?body) [] = Some (v, rest)" "?body \<noteq> []"
    | "rest = dropWhile (\<lambda>b. b \<noteq> 44) ?body"
    by (simp only: split: if_splits) auto
  then show ?thesis
  proof cases
    case 1
    from quoted_value_shorter [OF 1(1)] have "length rest < length (tl ?body)" .
    with body show ?thesis by simp
  next
    case 2
    with a(3) body show ?thesis by (simp only:)
  qed
qed

definition skip_separators :: "gostring \<Rightarrow> gostring" where
  "skip_separators s = dropWhile (\<lambda>b. b = 32 \<or> b = 9 \<or> b = 44) s"

text \<open>The loop of \<open>parseDirectives\<close>; a name that is missing maps to the empty string, as a Go map does.\<close>

function parse_directives :: "unicode_env \<Rightarrow> gostring \<Rightarrow> (gostring \<Rightarrow> gostring) \<Rightarrow> (sip_err, gostring \<Rightarrow> gostring) res" where
  "parse_directives U s out =
     (if skip_separators s = [] then Inr out
      else case directive U (skip_separators s) of
        None \<Rightarrow> Inl (Fail BadDigest)
      | Some (key, v, rest) \<Rightarrow> parse_directives U rest (out(key := v)))"
  by pat_completeness auto
termination
proof (relation "measure (\<lambda>(_, s, _). length s)", goal_cases)
  case (2 U s out p key q v rest)
  then have "length rest < length (skip_separators s)" by (auto dest: directive_shorter)
  also have "\<dots> \<le> length s" by (simp add: skip_separators_def length_dropWhile_le)
  finally show ?case by simp
qed simp

declare parse_directives.simps [simp del]

definition parseDigest :: "unicode_env \<Rightarrow> gostring \<Rightarrow> (sip_err, digestCreds) res" where
  "parseDigest U v =
     (case cut_byte 32 (trim_space v) of
        None \<Rightarrow> Inl (Fail BadDigest)
      | Some (scheme, rest) \<Rightarrow>
          if \<not> equal_fold U scheme (str ''Digest'') then Inl (Fail BadDigest)
          else rbind (parse_directives U rest (\<lambda>_. [])) (\<lambda>items.
            let creds = \<lparr>dc_username = items (str ''username''), dc_realm = items (str ''realm''),
                         dc_nonce = items (str ''nonce''), dc_uri = items (str ''uri''),
                         dc_response = items (str ''response''), dc_algorithm = items (str ''algorithm''),
                         dc_cnonce = items (str ''cnonce''), dc_nc = items (str ''nc''), dc_qop = items (str ''qop'')\<rparr> in
            if dc_username creds = [] \<or> dc_realm creds = [] \<or> dc_nonce creds = [] \<or> dc_uri creds = []
               \<or> dc_response creds = []
            then Inl (Fail BadDigest)
            else Inr creds))"

definition md5hex :: "sip_env \<Rightarrow> gostring \<Rightarrow> gostring" where
  "md5hex e v = hex_encode (se_md5 e v)"

definition digestResponse ::
    "sip_env \<Rightarrow> gostring \<Rightarrow> gostring \<Rightarrow> gostring \<Rightarrow> gostring \<Rightarrow> gostring \<Rightarrow> gostring \<Rightarrow> gostring \<Rightarrow> gostring \<Rightarrow> gostring \<Rightarrow> gostring" where
  "digestResponse e username realm password nonce nc cnonce qop method uri =
     (let ha1 = md5hex e (username @ [58] @ realm @ [58] @ password);
          ha2 = md5hex e (method @ [58] @ uri)
      in md5hex e (ha1 @ [58] @ nonce @ [58] @ nc @ [58] @ cnonce @ [58] @ qop @ [58] @ ha2))"

definition validNC :: "gostring \<Rightarrow> bool" where
  "validNC v \<longleftrightarrow>
     (if length v \<noteq> 8 then False
      else list_all (\<lambda>r. 48 \<le> r \<and> r \<le> 57 \<or> 97 \<le> r \<and> r \<le> 102) (runes_of v))"

definition parseNC :: "gostring \<Rightarrow> nat option" where
  "parseNC v =
     (if \<not> validNC v then None
      else if hex_number v = 0 then None
      else Some (hex_number v))"

text \<open>The constant-time comparisons, as the bit they return.\<close>

definition constEqual :: "gostring \<Rightarrow> gostring \<Rightarrow> bool" where
  "constEqual a b = (if length a \<noteq> length b then False else a = b)"

definition constHexEqual :: "gostring \<Rightarrow> gostring \<Rightarrow> bool" where
  "constHexEqual got wanted =
     (case (hex_decode got, hex_decode wanted) of
        (Some g, Some d) \<Rightarrow> if length g \<noteq> length d \<or> length d \<noteq> 16 then False else g = d
      | _ \<Rightarrow> False)"

subsection \<open>Nonces\<close>

fun newest_nonce :: "int \<Rightarrow> udp_addr \<Rightarrow> (gostring \<times> nonceState) list \<Rightarrow> (gostring \<times> nonceState) option \<Rightarrow> (gostring \<times> nonceState) option" where
  "newest_nonce t remote [] best = best"
| "newest_nonce t remote ((v, state) # rest) best =
     newest_nonce t remote rest
       (if \<not> t < ns_expires state \<or> \<not> addrEqual (ns_peer state) remote then best
        else case best of
          None \<Rightarrow> Some (v, state)
        | Some (_, b) \<Rightarrow> if ns_created state > ns_created b then Some (v, state) else best)"

definition reusableNonceLocked :: "sip_env \<Rightarrow> udp_addr \<Rightarrow> sipWorld \<Rightarrow> gostring option \<times> sipWorld" where
  "reusableNonceLocked e remote w =
     (let (t, w) = now e w in
      (map_option fst (newest_nonce t remote (sv_nonces (sw_server w)) None), w))"

fun oldest_nonce :: "(gostring \<times> nonceState) list \<Rightarrow> gostring \<Rightarrow> int \<Rightarrow> gostring" where
  "oldest_nonce [] oldest at = oldest"
| "oldest_nonce ((key, state) # rest) oldest at =
     (if oldest = [] \<or> ns_created state < at then oldest_nonce rest key (ns_created state)
      else oldest_nonce rest oldest at)"

lemma oldest_nonce_key: "oldest_nonce ns oldest at \<in> fst ` set ns \<or> oldest_nonce ns oldest at = oldest"
  by (induction ns oldest at rule: oldest_nonce.induct) auto

lemma oldest_nonce_in: "ns \<noteq> [] \<Longrightarrow> oldest_nonce ns [] at \<in> fst ` set ns"
proof (cases ns)
  case (Cons p rest)
  obtain key state where p: "p = (key, state)" by fastforce
  show ?thesis using oldest_nonce_key [of rest key "ns_created state"] by (auto simp: Cons p)
qed simp

function drop_oldest_nonces :: "(gostring \<times> nonceState) list \<Rightarrow> (gostring \<times> nonceState) list" where
  "drop_oldest_nonces ns =
     (if length ns > 16 then drop_oldest_nonces (AList.delete (oldest_nonce ns [] 0) ns) else ns)"
  by pat_completeness auto
termination
proof (relation "measure length", goal_cases)
  case (2 ns)
  then have "ns \<noteq> []" by auto
  then show ?case using length_delete_key [OF oldest_nonce_in] by simp
qed simp

declare drop_oldest_nonces.simps [simp del]

definition evictNonces :: "int \<Rightarrow> (gostring \<times> nonceState) list \<Rightarrow> (gostring \<times> nonceState) list" where
  "evictNonces t ns = drop_oldest_nonces (filter (\<lambda>(_, state). \<not> t > ns_expires state) ns)"

definition evictNoncesLocked :: "sip_env \<Rightarrow> sipWorld \<Rightarrow> sipWorld" where
  "evictNoncesLocked e w =
     (let (t, w) = now e w in on_server (\<lambda>s. s\<lparr>sv_nonces := evictNonces t (sv_nonces s)\<rparr>) w)"

definition put_nonce :: "gostring \<Rightarrow> nonceState \<Rightarrow> sipWorld \<Rightarrow> sipWorld" where
  "put_nonce v state w = on_server (\<lambda>s. s\<lparr>sv_nonces := AList.update v state (sv_nonces s)\<rparr>) w"

text \<open>A new nonce; when the random reader fails it is made from the time.\<close>

definition nonce_bytes :: "sip_env \<Rightarrow> sipWorld \<Rightarrow> byte list \<times> sipWorld" where
  "nonce_bytes e w =
     (case se_random e (sw_drawn w) 16 of
        Some bytes \<Rightarrow> (bytes, w\<lparr>sw_drawn := sw_drawn w + 1\<rparr>)
      | None \<Rightarrow> (let (t, w) = now e (w\<lparr>sw_drawn := sw_drawn w + 1\<rparr>) in (se_time_text e t, w)))"

definition insert_nonce :: "sip_env \<Rightarrow> udp_addr \<Rightarrow> gostring \<Rightarrow> sipWorld \<Rightarrow> sipWorld" where
  "insert_nonce e remote v w =
     (let (t, w) = now e w;
          (created, w) = now e w;
          state = \<lparr>ns_peer = cloneAddr remote, ns_expires = t + sv_nonceLife (sw_server w), ns_created = created,
                   ns_maxNC = []\<rparr>
      in evictNoncesLocked e (emit (Issued v (cloneAddr remote)) (put_nonce v state w)))"

definition new_nonce :: "sip_env \<Rightarrow> udp_addr \<Rightarrow> sipWorld \<Rightarrow> gostring \<times> sipWorld" where
  "new_nonce e remote w =
     (let (buf, w) = nonce_bytes e w; v = hex_encode buf in (v, insert_nonce e remote v w))"

definition freshNonce :: "sip_env \<Rightarrow> udp_addr \<Rightarrow> bool \<Rightarrow> sipWorld \<Rightarrow> gostring \<times> sipWorld" where
  "freshNonce e remote forceNew w =
     (let w = lock e w in
      if forceNew then new_nonce e remote w
      else
        let (reusable, w) = reusableNonceLocked e remote w in
        case reusable of Some v \<Rightarrow> (v, w) | None \<Rightarrow> new_nonce e remote w)"

definition dquoted :: "gostring \<Rightarrow> gostring" where
  "dquoted v = [34] @ v @ [34]"

definition challenge :: "sip_env \<Rightarrow> sipMessage \<Rightarrow> udp_addr \<Rightarrow> bool \<Rightarrow> sipWorld \<Rightarrow> (sip_err, sipWorld) res" where
  "challenge e msg remote stale w =
     (let (nonce, w) = freshNonce e remote stale w;
          header = str ''WWW-Authenticate: Digest realm='' @ dquoted (sv_realm (sw_server w)) @ str '', nonce=''
                   @ dquoted nonce @ str '', algorithm=MD5, qop='' @ dquoted (str ''auth'')
                   @ (if stale then str '', stale=true'' else [])
      in sip_reply e msg remote 401 ''Unauthorized'' [header] w)"

subsection \<open>Authentication\<close>

text \<open>Whether the request is authenticated; every refusal has been answered.\<close>

definition refused :: "(sip_err, sipWorld) res \<Rightarrow> (sip_err, bool \<times> sipWorld) res" where
  "refused r = rbind r (\<lambda>w. Inr (False, w))"

definition forbidden :: "sip_env \<Rightarrow> sipMessage \<Rightarrow> udp_addr \<Rightarrow> sipWorld \<Rightarrow> (sip_err, bool \<times> sipWorld) res" where
  "forbidden e msg remote w = refused (sip_reply e msg remote 403 ''Forbidden'' [] w)"

definition fields_ok :: "sip_env \<Rightarrow> sipServer \<Rightarrow> sipMessage \<Rightarrow> digestCreds \<Rightarrow> gostring \<Rightarrow> bool" where
  "fields_ok e s msg creds nc \<longleftrightarrow>
     constEqual (dc_username creds) (sv_username s) \<and> constEqual (dc_realm creds) (sv_realm s)
     \<and> constEqual (dc_uri creds) (m_requestURI msg)
     \<and> (dc_algorithm creds = [] \<or> equal_fold (se_unicode e) (dc_algorithm creds) (str ''MD5''))
     \<and> equal_fold (se_unicode e) (dc_qop creds) (str ''auth'')
     \<and> dc_cnonce creds \<noteq> [] \<and> \<not> contains_any (dc_cnonce creds) [34, 13, 10]
     \<and> constHexEqual (dc_response creds)
         (digestResponse e (sv_username s) (sv_realm s) (sv_password s) (dc_nonce creds) nc (dc_cnonce creds)
            (str ''auth'') (m_method msg) (m_requestURI msg))"

definition commitNonce ::
    "sip_env \<Rightarrow> sipMessage \<Rightarrow> udp_addr \<Rightarrow> digestCreds \<Rightarrow> nat \<Rightarrow> sipWorld \<Rightarrow> (sip_err, bool \<times> sipWorld) res" where
  "commitNonce e msg remote creds ncValue w =
     (let w = lock e w in
      case map_of (sv_nonces (sw_server w)) (dc_nonce creds) of
        None \<Rightarrow> refused (challenge e msg remote True w)
      | Some state \<Rightarrow>
          let (t, w) = now e w in
          if \<not> t < ns_expires state then refused (challenge e msg remote True w)
          else if \<not> addrEqual (ns_peer state) remote then forbidden e msg remote w
          else
            let key = (dc_username creds, dc_cnonce creds) in
            case map_of (ns_maxNC state) key of
              Some prev \<Rightarrow>
                if ncValue \<le> prev then forbidden e msg remote w
                else Inr (True,
                  emit (Accepted remote (dc_nonce creds) (dc_username creds) (dc_cnonce creds) ncValue msg)
                    (put_nonce (dc_nonce creds) (state\<lparr>ns_maxNC := AList.update key ncValue (ns_maxNC state)\<rparr>) w))
            | None \<Rightarrow>
                if 64 \<le> length (ns_maxNC state) then refused (challenge e msg remote True w)
                else Inr (True,
                  emit (Accepted remote (dc_nonce creds) (dc_username creds) (dc_cnonce creds) ncValue msg)
                    (put_nonce (dc_nonce creds) (state\<lparr>ns_maxNC := AList.update key ncValue (ns_maxNC state)\<rparr>) w)))"

definition check_credentials ::
    "sip_env \<Rightarrow> sipMessage \<Rightarrow> udp_addr \<Rightarrow> digestCreds \<Rightarrow> sipWorld \<Rightarrow> (sip_err, bool \<times> sipWorld) res" where
  "check_credentials e msg remote creds w =
     (let nc = lower (se_unicode e) (dc_nc creds);
          w = lock e w;
          s = sw_server w;
          state = map_of (sv_nonces s) (dc_nonce creds);
          peerOK = (case state of None \<Rightarrow> False | Some state \<Rightarrow> addrEqual (ns_peer state) remote);
          (fresh, w) = (case state of
             None \<Rightarrow> (False, w)
           | Some state \<Rightarrow> (let (t, w) = now e w in (t < ns_expires state, w)))
      in
      if state = None \<or> \<not> fresh then refused (challenge e msg remote True w)
      else case parseNC nc of
        None \<Rightarrow> forbidden e msg remote w
      | Some ncValue \<Rightarrow>
          if \<not> fields_ok e s msg creds nc then forbidden e msg remote w
          else if m_method msg = str ''REGISTER''
                  \<and> (m_toUser msg \<noteq> sv_username s \<or> m_fromUser msg \<noteq> sv_username s)
          then forbidden e msg remote w
          else if m_method msg = str ''INVITE'' \<and> m_fromUser msg \<noteq> sv_username s
          then forbidden e msg remote w
          else if \<not> peerOK then forbidden e msg remote w
          else commitNonce e msg remote creds ncValue w)"

definition authenticate :: "sip_env \<Rightarrow> sipMessage \<Rightarrow> udp_addr \<Rightarrow> sipWorld \<Rightarrow> (sip_err, bool \<times> sipWorld) res" where
  "authenticate e msg remote w =
     (case first_value (se_unicode e) msg (str ''authorization'') of
        None \<Rightarrow> refused (challenge e msg remote False w)
      | Some raw \<Rightarrow>
          if trim_space raw = [] then refused (challenge e msg remote False w)
          else case parseDigest (se_unicode e) raw of
            Inl _ \<Rightarrow> forbidden e msg remote w
          | Inr creds \<Rightarrow> check_credentials e msg remote creds w)"

subsection \<open>Registration\<close>

definition registeredPeer :: "sip_env \<Rightarrow> udp_addr \<Rightarrow> sipWorld \<Rightarrow> bool \<times> sipWorld" where
  "registeredPeer e remote w =
     (let w = lock e w in
      case sv_reg (sw_server w) of
        None \<Rightarrow> (False, w)
      | Some reg \<Rightarrow>
          let (t, w) = now e w in
          if \<not> t < rg_expires reg then (False, w) else (addrEqual (rg_addr reg) remote, w))"

definition register_expires :: "sipMessage \<Rightarrow> int" where
  "register_expires msg =
     (let n = (if m_expiresSet msg then m_expires msg else 3600);
          n = (if n < 0 then 0 else n)
      in if n > 3600 then 3600 else n)"

text \<open>The registration of an authenticated request: its critical section, and the whole.\<close>

definition bind_peer :: "sip_env \<Rightarrow> udp_addr \<Rightarrow> gostring \<Rightarrow> gostring \<Rightarrow> int \<Rightarrow> sipWorld \<Rightarrow> sipWorld" where
  "bind_peer e remote contact target n w =
     (let w = lock e w in
      if n = 0 then emit Unbound (on_server (\<lambda>s. s\<lparr>sv_reg := None\<rparr>) w)
      else
        let (t, w) = now e w;
            reg = \<lparr>rg_username = sv_username (sw_server w), rg_addr = cloneAddr remote, rg_contact = contact,
                   rg_requestURI = target, rg_expires = t + seconds n\<rparr>
        in emit (Bound reg) (on_server (\<lambda>s. s\<lparr>sv_reg := Some reg\<rparr>) w))"

definition register_lines :: "gostring \<Rightarrow> int \<Rightarrow> gostring list" where
  "register_lines contact n =
     (if contact \<noteq> [] then [str ''Contact: '' @ contact] else []) @ [str ''Expires: '' @ int_text n]"

definition apply_register :: "sip_env \<Rightarrow> sipMessage \<Rightarrow> udp_addr \<Rightarrow> sipWorld \<Rightarrow> (sip_err, sipWorld) res" where
  "apply_register e msg remote w =
     (let n = register_expires msg; contact = m_contact msg in
      if n > 0 \<and> (contact = [] \<or> trim_space contact = [42]) then sip_reply e msg remote 400 ''Bad Request'' [] w
      else rbind (parseNameAddr (se_unicode e) contact) (\<lambda>(user, _).
        let target = dialogURI (se_unicode e) contact in
        if n > 0 \<and> (user \<noteq> sv_username (sw_server w) \<or> target = []) then sip_reply e msg remote 403 ''Forbidden'' [] w
        else sip_reply e msg remote 200 ''OK'' (register_lines contact n) (bind_peer e remote contact target n w)))"

definition handleRegister :: "sip_env \<Rightarrow> sipMessage \<Rightarrow> udp_addr \<Rightarrow> sipWorld \<Rightarrow> (sip_err, sipWorld) res" where
  "handleRegister e msg remote w =
     (let (answered, w) = resendCached e msg remote w in
      if answered then Inr w
      else if m_branch msg = [] \<or> m_callID msg = [] \<or> m_cseqMethod msg \<noteq> str ''REGISTER'' \<or> m_vias msg = []
      then sip_reply e msg remote 400 ''Bad Request'' [] w
      else rbind (authenticate e msg remote w) (\<lambda>(ok, w).
             if \<not> ok then Inr w else apply_register e msg remote w))"

text \<open>The beginning of \<open>handleInvite\<close>, up to the check of the registration: whether the request goes on.\<close>

definition invite_admission :: "sip_env \<Rightarrow> sipMessage \<Rightarrow> udp_addr \<Rightarrow> sipWorld \<Rightarrow> (sip_err, bool \<times> sipWorld) res" where
  "invite_admission e msg remote w =
     (let (answered, w) = resendCached e msg remote w in
      if answered then Inr (False, w)
      else if m_branch msg = [] \<or> m_callID msg = [] \<or> m_fromTag msg = [] \<or> m_cseqMethod msg \<noteq> str ''INVITE'' \<or> m_vias msg = []
      then refused (sip_reply e msg remote 400 ''Bad Request'' [] w)
      else rbind (authenticate e msg remote w) (\<lambda>(ok, w).
             if \<not> ok then Inr (False, w)
             else
               let (registered, w) = registeredPeer e remote w in
               if \<not> registered then forbidden e msg remote w else Inr (True, w)))"

subsection \<open>Datagrams\<close>

text \<open>
  What became of a datagram: the server dealt with it, or it belongs to a call and goes to the
  handlers of \<open>call.go\<close>.
\<close>

datatype routed = Dropped | Handled | ForCall sipMessage

definition methods_allowed :: gostring where
  "methods_allowed = str ''Allow: REGISTER, INVITE, ACK, BYE, CANCEL, OPTIONS''"

definition reply_once ::
    "sip_env \<Rightarrow> sipMessage \<Rightarrow> udp_addr \<Rightarrow> nat \<Rightarrow> string \<Rightarrow> sipWorld \<Rightarrow> (sip_err, routed \<times> sipWorld) res" where
  "reply_once e msg remote code reason w =
     (let (answered, w) = resendCached e msg remote w in
      if answered then Inr (Handled, w)
      else rbind (sip_reply e msg remote code reason [methods_allowed] w) (\<lambda>w. Inr (Handled, w)))"

text \<open>\<open>handlePacket\<close>: the message of the datagram, and what is done with a message.\<close>

definition handleMessage :: "sip_env \<Rightarrow> sipMessage \<Rightarrow> udp_addr \<Rightarrow> sipWorld \<Rightarrow> (sip_err, routed \<times> sipWorld) res" where
  "handleMessage e msg remote w =
     (if m_isResponse msg then Inr (ForCall msg, w)
      else if m_method msg = str ''REGISTER'' then rbind (handleRegister e msg remote w) (\<lambda>w. Inr (Handled, w))
      else if m_method msg \<in> {str ''INVITE'', str ''ACK'', str ''BYE'', str ''CANCEL''} then Inr (ForCall msg, w)
      else if m_method msg = str ''OPTIONS'' then reply_once e msg remote 200 ''OK'' w
      else reply_once e msg remote 501 ''Not Implemented'' w)"

definition handlePacket :: "sip_env \<Rightarrow> byte list \<Rightarrow> udp_addr \<Rightarrow> sipWorld \<Rightarrow> (sip_err, routed \<times> sipWorld) res" where
  "handlePacket e packet remote w =
     (if packet = [] \<or> 20000 < int (length packet) then Inr (Dropped, w)
      else case parseMessage (se_unicode e) packet of
        Inl (Fail _) \<Rightarrow> Inr (Dropped, w)
      | Inl Panic \<Rightarrow> Inl Panic
      | Inl Hang \<Rightarrow> Inl Hang
      | Inr msg \<Rightarrow> handleMessage e msg remote w)"

subsection \<open>Construction\<close>

record sipOptions =
  so_AdvertisedIP :: gostring
  so_Username :: gostring
  so_Password :: gostring
  so_HasBackend :: bool
  so_DialTimeout :: int
  so_PollInterval :: int

text \<open>
  \<open>New\<close>, given the addresses the two sockets are bound to (\<open>None\<close>: binding failed); the waiting times
  are the defaults of \<open>init\<close>.
\<close>

definition sip_New :: "sipOptions \<Rightarrow> (udp_addr \<times> udp_addr) option \<Rightarrow> (sip_err, sipServer) res" where
  "sip_New opts bound =
     (let username = trim_space (so_Username opts) in
      if \<not> so_HasBackend opts then Inl (Fail (Setup ''sip: backend is required''))
      else if username = [] \<or> so_Password opts = [] then Inl (Fail (Setup ''sip: username and password are required''))
      else if contains_any username [32, 9, 13, 10, 34, 60, 62] \<or> contains_any (so_Password opts) [13, 10]
      then Inl (Fail (Setup ''sip: invalid credentials''))
      else if so_DialTimeout opts < 0 \<or> so_PollInterval opts < 0 then Inl (Fail (Setup ''sip: negative timeout''))
      else case bound of
        None \<Rightarrow> Inl (Fail (Setup ''sip: listen''))
      | Some (sip_addr, rtp_addr) \<Rightarrow>
          let given = trim_space (so_AdvertisedIP opts) in
          if given = [] \<and> (ua_ip sip_addr = [] \<or> ip_unspecified (ua_ip sip_addr))
          then Inl (Fail (Setup ''sip: advertised IP is required''))
          else
            let advertised = (if given = [] then ip_text (normalizeIP (ua_ip sip_addr)) else given) in
            if ParseIP advertised = [] then Inl (Fail (Setup ''sip: advertised IP is invalid''))
            else Inr
              \<lparr>sv_username = username, sv_password = so_Password opts, sv_realm = str ''halo'', sv_advertised = advertised,
               sv_dialTimeout = (if so_DialTimeout opts = 0 then seconds 45 else so_DialTimeout opts),
               sv_pollEvery = (if so_PollInterval opts = 0 then 200000000 else so_PollInterval opts),
               sv_nonceLife = seconds 300, sv_ackWait = seconds 32, sv_inviteWait = seconds 32, sv_t1 = 500000000,
               sv_t2 = seconds 4, sv_port = ua_port sip_addr, sv_rtpPort = ua_port rtp_addr,
               sv_closed = False, sv_running = False, sv_ended = False, sv_stopping = False,
               sv_reg = None, sv_store = [], sv_sessions = [], sv_byBackend = [], sv_txs = [], sv_nonces = [],
               sv_hung = [], sv_rtpSess = None, sv_trace = [], sv_log = []\<rparr>)"

end
