(* ===== verification/Sip_Auth.thy ===== *)
theory Sip_Auth
  imports Sip_Server
begin

text \<open>
  What digest authentication guarantees over a run of the gateway.  The trace of a server says which
  nonces were issued and which requests were accepted; the invariant \<open>auth_ok\<close> ties both to the table
  of nonces, and every handler keeps it whatever the other goroutines do between its critical sections.
\<close>

subsection \<open>The guarantee\<close>

text \<open>
  An accepted request carries a response for the password, over the nonce, the count and its own
  method and URI.
\<close>

definition answers_challenge :: "sip_env \<Rightarrow> gostring \<times> gostring \<times> gostring \<Rightarrow> gostring \<Rightarrow> gostring \<Rightarrow> gostring \<Rightarrow> nat \<Rightarrow> sipMessage \<Rightarrow> bool" where
  "answers_challenge e c nonce user cnonce n msg \<longleftrightarrow>
     (case c of (username, realm, password) \<Rightarrow>
        \<exists>raw creds. first_value (se_unicode e) msg (str ''authorization'') = Some raw
          \<and> parseDigest (se_unicode e) raw = Inr creds
          \<and> dc_nonce creds = nonce \<and> dc_cnonce creds = cnonce \<and> user = username \<and> dc_uri creds = m_requestURI msg
          \<and> parseNC (lower (se_unicode e) (dc_nc creds)) = Some n
          \<and> hex_decode (dc_response creds)
            = hex_decode (digestResponse e username realm password nonce (lower (se_unicode e) (dc_nc creds)) cnonce
                (str ''auth'') (m_method msg) (m_requestURI msg)))"

definition issued :: "sip_event list \<Rightarrow> gostring list" where
  "issued evs = concat (map (\<lambda>ev. case ev of Issued v _ \<Rightarrow> [v] | _ \<Rightarrow> []) evs)"

text \<open>
  A trace in order: each acceptance was preceded by its nonce, sent to the same address, and by no
  acceptance of the same nonce and client nonce with the same or a higher count.
\<close>

fun accept_ok :: "sip_env \<Rightarrow> gostring \<times> gostring \<times> gostring \<Rightarrow> sip_event list \<Rightarrow> sip_event \<Rightarrow> bool" where
  "accept_ok e c before (Accepted remote v user cnonce n msg) \<longleftrightarrow>
     (\<exists>peer. Issued v peer \<in> set before \<and> addrEqual peer remote)
     \<and> (\<forall>remote' n' msg'. Accepted remote' v user cnonce n' msg' \<in> set before \<longrightarrow> n' < n)
     \<and> answers_challenge e c v user cnonce n msg"
| "accept_ok e c before ev \<longleftrightarrow> True"

definition ordered :: "(sip_event list \<Rightarrow> sip_event \<Rightarrow> bool) \<Rightarrow> sip_event list \<Rightarrow> bool" where
  "ordered P evs \<longleftrightarrow> (\<forall>before ev after. evs = before @ ev # after \<longrightarrow> P before ev)"

abbreviation trace_ok :: "sip_env \<Rightarrow> gostring \<times> gostring \<times> gostring \<Rightarrow> sip_event list \<Rightarrow> bool" where
  "trace_ok e c \<equiv> ordered (accept_ok e c)"

lemma ordered_Nil [simp]: "ordered P []"
  by (simp add: ordered_def)

lemma ordered_snoc: "ordered P (evs @ [ev]) \<longleftrightarrow> ordered P evs \<and> P evs ev"
proof
  assume "ordered P (evs @ [ev])"
  then show "ordered P evs \<and> P evs ev"
    unfolding ordered_def by (metis append.assoc append_Cons)
next
  assume a: "ordered P evs \<and> P evs ev"
  show "ordered P (evs @ [ev])"
    unfolding ordered_def
  proof (intro allI impI)
    fix before ev' after
    assume "evs @ [ev] = before @ ev' # after"
    then show "P before ev'"
      using a by (cases after rule: rev_cases) (auto simp: ordered_def)
  qed
qed

text \<open>A registration comes from an accepted REGISTER of the same address with the same contact.\<close>

fun binding_ok :: "sip_event list \<Rightarrow> sip_event \<Rightarrow> bool" where
  "binding_ok before (Bound reg) \<longleftrightarrow>
     (\<exists>remote v user cnonce n msg. Accepted remote v user cnonce n msg \<in> set before
        \<and> m_method msg = str ''REGISTER'' \<and> rg_addr reg = cloneAddr remote \<and> rg_contact reg = m_contact msg)"
| "binding_ok before ev \<longleftrightarrow> True"

lemma issued_simps [simp]:
  "issued [] = []"
  "issued (evs @ evs') = issued evs @ issued evs'"
  "issued (ev # evs) = (case ev of Issued v _ \<Rightarrow> [v] | _ \<Rightarrow> []) @ issued evs"
  by (simp_all add: issued_def)

lemma issued_set: "v \<in> set (issued evs) \<longleftrightarrow> (\<exists>peer. Issued v peer \<in> set evs)"
  by (induction evs) (auto split: sip_event.split)

subsection \<open>The invariant\<close>

text \<open>The counts accepted for a nonce are bounded by its table, as long as it has one.\<close>

definition counted :: "sip_event list \<Rightarrow> gostring \<Rightarrow> nonceState \<Rightarrow> bool" where
  "counted evs v state \<longleftrightarrow>
     (\<forall>remote user cnonce n msg. Accepted remote v user cnonce n msg \<in> set evs \<longrightarrow>
        (\<exists>m. map_of (ns_maxNC state) (user, cnonce) = Some m \<and> n \<le> m))"

definition nonces_ok :: "sip_event list \<Rightarrow> (gostring \<times> nonceState) list \<Rightarrow> bool" where
  "nonces_ok evs ns \<longleftrightarrow>
     distinct (map fst ns)
     \<and> (\<forall>(v, state) \<in> set ns. Issued v (ns_peer state) \<in> set evs \<and> counted evs v state)"

definition auth_ok :: "sip_env \<Rightarrow> gostring \<times> gostring \<times> gostring \<Rightarrow> sipServer \<Rightarrow> bool" where
  "auth_ok e c s \<longleftrightarrow>
     (sv_username s, sv_realm s, sv_password s) = c
     \<and> ordered binding_ok (sv_trace s) \<and> (\<forall>reg. sv_reg s = Some reg \<longrightarrow> Bound reg \<in> set (sv_trace s))
     \<and> (distinct (issued (sv_trace s)) \<longrightarrow> trace_ok e c (sv_trace s) \<and> nonces_ok (sv_trace s) (sv_nonces s))"

lemma auth_ok_unrelated [simp]:
  "auth_ok e c (s\<lparr>sv_txs := txs\<rparr>) = auth_ok e c s"
  "auth_ok e c (s\<lparr>sv_stopping := b\<rparr>) = auth_ok e c s"
  "auth_ok e c (s\<lparr>sv_log := l\<rparr>) = auth_ok e c s"
  "auth_ok e c (s\<lparr>sv_store := st\<rparr>) = auth_ok e c s"
  "auth_ok e c (s\<lparr>sv_sessions := ss\<rparr>) = auth_ok e c s"
  "auth_ok e c (s\<lparr>sv_byBackend := bs\<rparr>) = auth_ok e c s"
  "auth_ok e c (s\<lparr>sv_hung := h\<rparr>) = auth_ok e c s"
  "auth_ok e c (s\<lparr>sv_rtpSess := r\<rparr>) = auth_ok e c s"
  by (simp_all add: auth_ok_def)

fun acceptance :: "sip_event \<Rightarrow> bool" where
  "acceptance (Accepted remote v user cnonce n msg) = True"
| "acceptance ev = False"

lemma counted_snoc: "\<not> acceptance ev \<Longrightarrow> counted (evs @ [ev]) v state = counted evs v state"
  by (cases ev) (auto simp: counted_def)

lemma nonces_ok_snoc: "\<not> acceptance ev \<Longrightarrow> nonces_ok evs ns \<Longrightarrow> nonces_ok (evs @ [ev]) ns"
  by (auto simp: nonces_ok_def counted_snoc)

lemma accept_ok_plain: "\<not> acceptance ev \<Longrightarrow> accept_ok e c before ev"
  by (cases ev) simp_all

lemma auth_ok_event:
  assumes "auth_ok e c s" "\<not> acceptance ev" "issued [ev] = []" "binding_ok (sv_trace s) ev"
  shows "auth_ok e c (s\<lparr>sv_trace := sv_trace s @ [ev]\<rparr>)"
  using assms by (simp add: auth_ok_def ordered_snoc nonces_ok_snoc accept_ok_plain del: issued_simps(3))

text \<open>Removing nonces, and listing them in another order, keeps it.\<close>

definition fewer_nonces :: "(gostring \<times> nonceState) list \<Rightarrow> (gostring \<times> nonceState) list \<Rightarrow> bool" where
  "fewer_nonces ns' ns \<longleftrightarrow> distinct (map fst ns') \<and> set ns' \<subseteq> set ns"

lemma nonces_ok_fewer: "nonces_ok evs ns \<Longrightarrow> fewer_nonces ns' ns \<Longrightarrow> nonces_ok evs ns'"
  by (fastforce simp: nonces_ok_def fewer_nonces_def)

lemma nonces_ok_distinct: "nonces_ok evs ns \<Longrightarrow> distinct (map fst ns)"
  by (simp add: nonces_ok_def)

lemma fewer_nonces_trans: "fewer_nonces ns'' ns' \<Longrightarrow> fewer_nonces ns' ns \<Longrightarrow> fewer_nonces ns'' ns"
  by (auto simp: fewer_nonces_def)

lemma distinct_keys_filter: "distinct (map fst ns) \<Longrightarrow> distinct (map fst (filter P ns))"
  by (simp add: distinct_map_filter)

lemma fewer_drop_oldest: "distinct (map fst ns) \<Longrightarrow> fewer_nonces (drop_oldest_nonces ns) ns"
proof (induction ns rule: drop_oldest_nonces.induct)
  case (1 ns)
  let ?less = "AList.delete (oldest_nonce ns [] 0) ns"
  have less: "fewer_nonces ?less ns"
    using 1(2) by (simp add: fewer_nonces_def AList.delete_eq distinct_keys_filter)
  show ?case
  proof (cases "length ns > 16")
    case True
    from 1(1) [OF True] less have "fewer_nonces (drop_oldest_nonces ?less) ?less" by (simp add: fewer_nonces_def)
    with less True show ?thesis by (subst drop_oldest_nonces.simps) (simp add: fewer_nonces_trans)
  next
    case False
    with 1(2) show ?thesis by (subst drop_oldest_nonces.simps) (simp add: fewer_nonces_def)
  qed
qed

lemma fewer_evict: "distinct (map fst ns) \<Longrightarrow> fewer_nonces (evictNonces t ns) ns"
  unfolding evictNonces_def
  by (rule fewer_nonces_trans [OF fewer_drop_oldest]) (auto simp: fewer_nonces_def distinct_keys_filter)

lemma auth_ok_evict: "auth_ok e c s \<Longrightarrow> auth_ok e c (s\<lparr>sv_nonces := evictNonces t (sv_nonces s)\<rparr>)"
  unfolding auth_ok_def using nonces_ok_fewer [OF _ fewer_evict] nonces_ok_distinct by auto

subsection \<open>Steps of the other goroutines\<close>

text \<open>
  Between two critical sections of the reader, the poll loop may expire nonces, transactions and the
  registration (\<open>expire_section\<close>, the first section of \<open>maintain\<close>), and sessions may change everything
  that belongs to calls and send datagrams.  Go's maps have no order, so an entry may move.
\<close>

definition expire_section :: "int \<Rightarrow> int \<Rightarrow> int \<Rightarrow> sipServer \<Rightarrow> sipServer" where
  "expire_section t1 t2 t3 s =
     s\<lparr>sv_nonces := evictNonces t1 (sv_nonces s), sv_txs := evictTxs t2 (sv_txs s),
       sv_reg := (case sv_reg s of
          None \<Rightarrow> None
        | Some reg \<Rightarrow> if \<not> t3 < rg_expires reg then None else Some reg)\<rparr>"

inductive other_step :: "sipServer \<Rightarrow> sipServer \<Rightarrow> bool" where
  expire: "other_step s (expire_section t1 t2 t3 s)"
| reorder: "set ns = set (sv_nonces s) \<Longrightarrow> length ns = length (sv_nonces s) \<Longrightarrow> other_step s (s\<lparr>sv_nonces := ns\<rparr>)"
| calls: "other_step s
    (s\<lparr>sv_closed := closed, sv_running := running, sv_ended := ended, sv_stopping := stopping, sv_store := store, sv_sessions := sessions, sv_byBackend := by_backend, sv_txs := txs,
       sv_hung := hung, sv_rtpSess := rtp, sv_trace := sv_trace s @ map (\<lambda>(addr, raw). Sent addr raw) sent,
       sv_log := log\<rparr>)"

definition interferes :: "sip_env \<Rightarrow> bool" where
  "interferes e \<longleftrightarrow> (\<forall>k s. other_step\<^sup>*\<^sup>* s (se_others e k s))"

lemma auth_ok_sent:
  "auth_ok e c s \<Longrightarrow> auth_ok e c (s\<lparr>sv_trace := sv_trace s @ map (\<lambda>(addr, raw). Sent addr raw) sent\<rparr>)"
proof (induction sent rule: rev_induct)
  case (snoc p sent)
  obtain addr raw where "p = (addr, raw)" by fastforce
  with auth_ok_event [OF snoc.IH [OF snoc.prems], of "Sent addr raw"] show ?case by simp
qed simp

lemma distinct_keys_reorder: "set ns = set ns' \<Longrightarrow> length ns = length ns' \<Longrightarrow> distinct (map fst ns') \<Longrightarrow> distinct (map fst ns)"
proof -
  assume s: "set ns = set ns'" "length ns = length ns'" "distinct (map fst ns')"
  then have "card (set (map fst ns)) = card (set (map fst ns'))" by simp
  also have "\<dots> = length (map fst ns)" using s(2) distinct_card [OF s(3)] by simp
  finally show ?thesis by (simp add: card_distinct)
qed

lemma auth_ok_other: "other_step s s' \<Longrightarrow> auth_ok e c s \<Longrightarrow> auth_ok e c s'"
proof (induction rule: other_step.induct)
  case (expire s t1 t2 t3)
  then show ?case using auth_ok_evict [of e c s t1] by (auto simp: expire_section_def auth_ok_def split: option.split)
next
  case (reorder ns s)
  then have "nonces_ok evs (sv_nonces s) \<Longrightarrow> nonces_ok evs ns" for evs
    using distinct_keys_reorder [OF reorder(1,2)] by (simp add: nonces_ok_def)
  with reorder show ?case by (simp add: auth_ok_def)
next
  case calls
  from auth_ok_sent [OF calls] show ?case by (simp add: auth_ok_def)
qed

lemma auth_ok_lock: "interferes e \<Longrightarrow> auth_ok e c (sw_server w) \<Longrightarrow> auth_ok e c (sw_server (lock e w))"
proof -
  assume "interferes e"
  then have "other_step\<^sup>*\<^sup>* (sw_server w) (sw_server (lock e w))" by (simp add: interferes_def lock_def)
  moreover assume "auth_ok e c (sw_server w)"
  ultimately show ?thesis by (induction rule: rtranclp_induct) (auto intro: auth_ok_other)
qed

subsection \<open>The handlers keep it\<close>

lemma server_emit [simp]: "sw_server (emit ev w) = (sw_server w)\<lparr>sv_trace := sv_trace (sw_server w) @ [ev]\<rparr>"
  by (simp add: emit_def)

lemma server_put_nonce [simp]:
  "sw_server (put_nonce v state w) = (sw_server w)\<lparr>sv_nonces := AList.update v state (sv_nonces (sw_server w))\<rparr>"
  by (simp add: put_nonce_def)

lemma server_evictNoncesLocked:
  "\<exists>t. sw_server (evictNoncesLocked e w) = (sw_server w)\<lparr>sv_nonces := evictNonces t (sv_nonces (sw_server w))\<rparr>"
  by (auto simp: evictNoncesLocked_def now_def)

lemma server_evictTxLocked: "\<exists>txs. sw_server (evictTxLocked e w) = (sw_server w)\<lparr>sv_txs := txs\<rparr>"
  by (auto simp: evictTxLocked_def now_def)

lemma auth_ok_storeTx: "auth_ok e c (sw_server w) \<Longrightarrow> auth_ok e c (sw_server (storeTxLocked e key remote raw w))"
  by (auto simp: storeTxLocked_def put_tx_def evictTxLocked_def now_def split: option.split)

lemma auth_ok_writeTo: "auth_ok e c (sw_server w) \<Longrightarrow> auth_ok e c (sw_server (writeTo addr raw w))"
  by (simp add: writeTo_def auth_ok_event)

lemma keeps_remember:
  "interferes e \<Longrightarrow> auth_ok e c (sw_server w) \<Longrightarrow> auth_ok e c (sw_server (remember e msg remote raw w))"
  by (auto simp: remember_def auth_ok_lock auth_ok_storeTx split: option.split)

lemma keeps_resend:
  "interferes e \<Longrightarrow> auth_ok e c (sw_server w) \<Longrightarrow> auth_ok e c (sw_server (snd (resendCached e msg remote w)))"
  by (auto simp: resendCached_def Let_def auth_ok_lock auth_ok_writeTo split: option.split)

lemma keeps_reply:
  "interferes e \<Longrightarrow> auth_ok e c (sw_server w) \<Longrightarrow> sip_reply e msg remote code reason extra w = Inr w' \<Longrightarrow> auth_ok e c (sw_server w')"
  by (auto simp: sip_reply_def res_simps intro: auth_ok_writeTo keeps_remember)

text \<open>Issuing a nonce that was never issued before.\<close>

lemma nonces_ok_iff:
  "nonces_ok evs ns \<longleftrightarrow>
     distinct (map fst ns)
     \<and> (\<forall>v state. map_of ns v = Some state \<longrightarrow> Issued v (ns_peer state) \<in> set evs \<and> counted evs v state)"
  by (auto simp: nonces_ok_def)

lemma accepted_issued:
  assumes "trace_ok e c evs" "Accepted remote v user cnonce n msg \<in> set evs"
  shows "v \<in> set (issued evs)"
proof -
  from assms(2) obtain before after where evs: "evs = before @ Accepted remote v user cnonce n msg # after"
    by (auto dest: split_list)
  from assms(1) evs have "accept_ok e c before (Accepted remote v user cnonce n msg)" unfolding ordered_def by blast
  then show ?thesis by (auto simp: issued_set evs)
qed

lemma nonces_ok_issue:
  assumes "trace_ok e c evs" "nonces_ok evs ns" "v \<notin> set (issued evs)" "ns_peer state = peer"
  shows "nonces_ok (evs @ [Issued v peer]) (AList.update v state ns)"
proof -
  from assms(3) accepted_issued [OF assms(1)] have "counted evs v state" unfolding counted_def by blast
  with assms(2,4) show ?thesis
    by (auto simp: nonces_ok_iff update_conv' distinct_update counted_snoc split: if_splits)
qed

lemma auth_ok_issue:
  assumes "auth_ok e c s" "ns_peer state = peer"
  shows "auth_ok e c (s\<lparr>sv_nonces := AList.update v state (sv_nonces s), sv_trace := sv_trace s @ [Issued v peer]\<rparr>)"
  using assms nonces_ok_issue [of e c "sv_trace s" "sv_nonces s" v state peer]
  by (auto simp: auth_ok_def ordered_snoc)

lemma auth_ok_issue_evict:
  assumes "auth_ok e c s" "ns_peer state = peer"
  shows "auth_ok e c (s\<lparr>sv_trace := sv_trace s @ [Issued v peer], sv_nonces := evictNonces t (AList.update v state (sv_nonces s))\<rparr>)"
  using auth_ok_evict [OF auth_ok_issue [OF assms, of v], of t] by simp

lemma keeps_insert_nonce: "auth_ok e c (sw_server w) \<Longrightarrow> auth_ok e c (sw_server (insert_nonce e remote v w))"
  by (simp add: insert_nonce_def evictNoncesLocked_def now_def Let_def auth_ok_issue_evict)

lemma server_nonce_bytes: "sw_server (snd (nonce_bytes e w)) = sw_server w"
  by (simp add: nonce_bytes_def now_def split: option.split)

lemma keeps_new_nonce: "auth_ok e c (sw_server w) \<Longrightarrow> auth_ok e c (sw_server (snd (new_nonce e remote w)))"
  using server_nonce_bytes [of e w] by (cases "nonce_bytes e w") (simp add: new_nonce_def Let_def keeps_insert_nonce)

lemma keeps_fresh:
  "interferes e \<Longrightarrow> auth_ok e c (sw_server w) \<Longrightarrow> auth_ok e c (sw_server (snd (freshNonce e remote forceNew w)))"
  by (auto simp: freshNonce_def Let_def reusableNonceLocked_def now_def auth_ok_lock keeps_new_nonce split: option.split)

lemma keeps_challenge:
  "interferes e \<Longrightarrow> auth_ok e c (sw_server w) \<Longrightarrow> challenge e msg remote stale w = Inr w' \<Longrightarrow> auth_ok e c (sw_server w')"
  using keeps_fresh [of e c w remote stale]
  by (auto simp: challenge_def split: prod.splits intro: keeps_reply)

text \<open>Accepting a request whose count is above every earlier one.\<close>

lemma auth_ok_accept:
  assumes ok: "auth_ok e c s" and state: "map_of (sv_nonces s) v = Some state"
    and peer: "addrEqual (ns_peer state) remote"
    and higher: "\<And>m. map_of (ns_maxNC state) (user, cnonce) = Some m \<Longrightarrow> m < n"
    and auth: "answers_challenge e c v user cnonce n msg"
  shows "auth_ok e c (s\<lparr>sv_nonces := AList.update v (state\<lparr>ns_maxNC := AList.update (user, cnonce) n (ns_maxNC state)\<rparr>) (sv_nonces s),
                        sv_trace := sv_trace s @ [Accepted remote v user cnonce n msg]\<rparr>)"
    (is "auth_ok e c (s\<lparr>sv_nonces := ?ns, sv_trace := _ @ [?ev]\<rparr>)")
proof -
  let ?evs = "sv_trace s"
  have "trace_ok e c (?evs @ [?ev]) \<and> nonces_ok (?evs @ [?ev]) ?ns"
    if t: "trace_ok e c ?evs" and ns: "nonces_ok ?evs (sv_nonces s)"
  proof
    from ns state have s: "Issued v (ns_peer state) \<in> set ?evs" "counted ?evs v state" by (auto simp: nonces_ok_iff)
    have lower: "n' < n" if "Accepted remote' v user cnonce n' msg' \<in> set ?evs" for remote' n' msg'
    proof -
      from s(2) that obtain m where "map_of (ns_maxNC state) (user, cnonce) = Some m" "n' \<le> m"
        unfolding counted_def by blast
      with higher show ?thesis by fastforce
    qed
    with s(1) peer auth have "accept_ok e c ?evs ?ev" by auto
    with t show "trace_ok e c (?evs @ [?ev])" by (simp add: ordered_snoc)
    have "counted (?evs @ [?ev]) v (state\<lparr>ns_maxNC := AList.update (user, cnonce) n (ns_maxNC state)\<rparr>)"
      using s(2) lower unfolding counted_def by (fastforce simp: update_conv' less_imp_le)
    moreover have "counted (?evs @ [?ev]) v' state' = counted ?evs v' state'" if "v' \<noteq> v" for v' state'
      using that by (auto simp: counted_def)
    ultimately show "nonces_ok (?evs @ [?ev]) ?ns"
      using ns s(1) by (auto simp: nonces_ok_iff update_conv' distinct_update)
  qed
  with ok show ?thesis by (simp add: auth_ok_def ordered_snoc)
qed

subsection \<open>Authentication keeps it\<close>

lemma keeps_forbidden:
  "interferes e \<Longrightarrow> auth_ok e c (sw_server w) \<Longrightarrow> forbidden e msg remote w = Inr (b, w') \<Longrightarrow> auth_ok e c (sw_server w')"
  by (auto simp: forbidden_def refused_def res_simps intro: keeps_reply)

lemma keeps_refused:
  "interferes e \<Longrightarrow> auth_ok e c (sw_server w) \<Longrightarrow> refused (challenge e msg remote stale w) = Inr (b, w')
   \<Longrightarrow> auth_ok e c (sw_server w')"
  by (auto simp: refused_def res_simps intro: keeps_challenge)

lemma server_ticks [simp]: "sw_server (w\<lparr>sw_ticks := n\<rparr>) = sw_server w"
  by simp

lemma keeps_commit:
  assumes "interferes e" "auth_ok e c (sw_server w)"
    and "answers_challenge e c (dc_nonce creds) (dc_username creds) (dc_cnonce creds) n msg"
    and "commitNonce e msg remote creds n w = Inr (b, w')"
  shows "auth_ok e c (sw_server w')"
proof -
  let ?w = "lock e w"
  have ok: "auth_ok e c (sw_server ?w)" by (rule auth_ok_lock [OF assms(1,2)])
  show ?thesis
  proof (cases "map_of (sv_nonces (sw_server ?w)) (dc_nonce creds)")
    case None
    with assms(4) keeps_refused [OF assms(1) ok] show ?thesis by (simp add: commitNonce_def Let_def)
  next
    case (Some state)
    let ?t = "?w\<lparr>sw_ticks := Suc (sw_ticks ?w)\<rparr>"
    have ok': "auth_ok e c (sw_server ?t)" using ok by simp
    from assms(4) Some consider
        "refused (challenge e msg remote True ?t) = Inr (b, w')"
      | "forbidden e msg remote ?t = Inr (b, w')"
      | "addrEqual (ns_peer state) remote"
        "\<And>m. map_of (ns_maxNC state) (dc_username creds, dc_cnonce creds) = Some m \<Longrightarrow> m < n"
        "sw_server w' = (sw_server ?w)\<lparr>
           sv_nonces := AList.update (dc_nonce creds)
             (state\<lparr>ns_maxNC := AList.update (dc_username creds, dc_cnonce creds) n (ns_maxNC state)\<rparr>) (sv_nonces (sw_server ?w)),
           sv_trace := sv_trace (sw_server ?w) @ [Accepted remote (dc_nonce creds) (dc_username creds) (dc_cnonce creds) n msg]\<rparr>"
      unfolding commitNonce_def Let_def now_def
      by (auto split: if_splits option.splits)
    then show ?thesis
    proof cases
      case 1
      then show ?thesis by (rule keeps_refused [OF assms(1) ok'])
    next
      case 2
      then show ?thesis by (rule keeps_forbidden [OF assms(1) ok'])
    next
      case 3
      show ?thesis unfolding 3(3) by (rule auth_ok_accept [OF ok Some 3(1,2) assms(3)])
    qed
  qed
qed

lemma constHexEqual_True: "constHexEqual a b \<Longrightarrow> hex_decode a = hex_decode b"
  by (auto simp: constHexEqual_def split: option.splits if_splits)

lemma constEqual_iff: "constEqual a b \<longleftrightarrow> a = b"
  by (auto simp: constEqual_def)

lemma fields_ok_authentic:
  assumes "fields_ok e s msg creds (lower (se_unicode e) (dc_nc creds))"
    and "(sv_username s, sv_realm s, sv_password s) = c"
    and "first_value (se_unicode e) msg (str ''authorization'') = Some raw" "parseDigest (se_unicode e) raw = Inr creds"
    and "parseNC (lower (se_unicode e) (dc_nc creds)) = Some n"
  shows "answers_challenge e c (dc_nonce creds) (dc_username creds) (dc_cnonce creds) n msg"
  using assms by (auto simp: answers_challenge_def fields_ok_def constEqual_iff dest: constHexEqual_True)

lemma keeps_check:
  assumes "interferes e" "auth_ok e c (sw_server w)"
    and parsed: "first_value (se_unicode e) msg (str ''authorization'') = Some raw" "parseDigest (se_unicode e) raw = Inr creds"
    and run: "check_credentials e msg remote creds w = Inr (b, w')"
  shows "auth_ok e c (sw_server w')"
proof -
  let ?w = "lock e w" and ?nc = "lower (se_unicode e) (dc_nc creds)"
  have ok: "auth_ok e c (sw_server ?w)" by (rule auth_ok_lock [OF assms(1,2)])
  then have c: "(sv_username (sw_server ?w), sv_realm (sw_server ?w), sv_password (sw_server ?w)) = c" by (simp add: auth_ok_def)
  have ok': "auth_ok e c (sw_server (?w\<lparr>sw_ticks := k\<rparr>))" for k using ok by simp
  from run consider (refused) k where "refused (challenge e msg remote True (?w\<lparr>sw_ticks := k\<rparr>)) = Inr (b, w')"
    | (forbidden) k where "forbidden e msg remote (?w\<lparr>sw_ticks := k\<rparr>) = Inr (b, w')"
    | (commit) k n where "parseNC ?nc = Some n" "fields_ok e (sw_server ?w) msg creds ?nc"
        "commitNonce e msg remote creds n (?w\<lparr>sw_ticks := k\<rparr>) = Inr (b, w')"
  proof (cases "map_of (sv_nonces (sw_server ?w)) (dc_nonce creds)")
    case None
    with run have "refused (challenge e msg remote True (?w\<lparr>sw_ticks := sw_ticks ?w\<rparr>)) = Inr (b, w')"
      by (simp add: check_credentials_def Let_def)
    then show ?thesis by (rule that(1))
  next
    case (Some state)
    with run show ?thesis
      using that(1) [of "Suc (sw_ticks ?w)"] that(2) [of "Suc (sw_ticks ?w)"] that(3) [of _ "Suc (sw_ticks ?w)"]
      by (auto simp: check_credentials_def Let_def now_def split: if_splits option.splits)
  qed
  then show ?thesis
  proof cases
    case refused
    then show ?thesis by (rule keeps_refused [OF assms(1) ok'])
  next
    case forbidden
    then show ?thesis by (rule keeps_forbidden [OF assms(1) ok'])
  next
    case commit
    then show ?thesis
      by (intro keeps_commit [OF assms(1) ok' fields_ok_authentic [OF commit(2) c parsed commit(1)]])
  qed
qed

lemma keeps_authenticate:
  assumes "interferes e" "auth_ok e c (sw_server w)" "authenticate e msg remote w = Inr (b, w')"
  shows "auth_ok e c (sw_server w')"
  using assms(3) keeps_refused [OF assms(1,2)] keeps_forbidden [OF assms(1,2)] keeps_check [OF assms(1,2)]
  by (auto simp: authenticate_def split: option.splits if_splits sum.splits)

text \<open>A request that passes authentication is recorded, and stays recorded.\<close>

definition admitted :: "udp_addr \<Rightarrow> sipMessage \<Rightarrow> sipServer \<Rightarrow> bool" where
  "admitted remote msg s \<longleftrightarrow> (\<exists>v user cnonce n. Accepted remote v user cnonce n msg \<in> set (sv_trace s))"

lemma refused_False: "refused r \<noteq> Inr (True, w)"
  by (simp add: refused_def res_simps)

lemma forbidden_False: "forbidden e msg remote w \<noteq> Inr (True, w')"
  by (simp add: forbidden_def refused_False)

lemma admitted_last [simp]:
  "admitted remote msg (s\<lparr>sv_nonces := ns, sv_trace := evs @ [Accepted remote v user cnonce n msg]\<rparr>)"
  unfolding admitted_def by (intro exI) (simp, blast)

lemma commit_admits: "commitNonce e msg remote creds n w = Inr (True, w') \<Longrightarrow> admitted remote msg (sw_server w')"
  by (auto simp: commitNonce_def Let_def now_def refused_False forbidden_False split: option.splits if_splits)

lemma authenticate_admits: "authenticate e msg remote w = Inr (True, w') \<Longrightarrow> admitted remote msg (sw_server w')"
  by (auto simp: authenticate_def check_credentials_def Let_def refused_False forbidden_False commit_admits
      split: option.splits if_splits sum.splits prod.splits)

lemma other_step_trace: "other_step s s' \<Longrightarrow> set (sv_trace s) \<subseteq> set (sv_trace s')"
  by (induction rule: other_step.induct) (auto simp: expire_section_def)

lemma admitted_lock: "interferes e \<Longrightarrow> admitted remote msg (sw_server w) \<Longrightarrow> admitted remote msg (sw_server (lock e w))"
proof -
  assume "interferes e"
  then have "other_step\<^sup>*\<^sup>* (sw_server w) (sw_server (lock e w))" by (simp add: interferes_def lock_def)
  then have "set (sv_trace (sw_server w)) \<subseteq> set (sv_trace (sw_server (lock e w)))"
    by (induction rule: rtranclp_induct) (auto dest: other_step_trace)
  moreover assume "admitted remote msg (sw_server w)"
  ultimately show ?thesis unfolding admitted_def by blast
qed

subsection \<open>Registration keeps it\<close>

lemma auth_ok_bind:
  assumes "auth_ok e c s" "admitted remote msg s" "m_method msg = str ''REGISTER''"
    and "rg_addr reg = cloneAddr remote" "rg_contact reg = m_contact msg"
  shows "auth_ok e c (s\<lparr>sv_reg := Some reg, sv_trace := sv_trace s @ [Bound reg]\<rparr>)"
proof -
  have "binding_ok (sv_trace s) (Bound reg)" using assms(2-5) unfolding admitted_def binding_ok.simps by blast
  from auth_ok_event [OF assms(1) _ _ this] show ?thesis by (simp add: auth_ok_def)
qed

lemma auth_ok_unbind: "auth_ok e c s \<Longrightarrow> auth_ok e c (s\<lparr>sv_reg := None, sv_trace := sv_trace s @ [Unbound]\<rparr>)"
  using auth_ok_event [of e c s Unbound] by (simp add: auth_ok_def)

lemma keeps_bind_peer:
  assumes "interferes e" "auth_ok e c (sw_server w)" "admitted remote msg (sw_server w)" "m_method msg = str ''REGISTER''"
  shows "auth_ok e c (sw_server (bind_peer e remote (m_contact msg) target n w))"
proof -
  let ?w = "lock e w"
  have ok: "auth_ok e c (sw_server ?w)" "admitted remote msg (sw_server ?w)"
    using assms(1-3) by (simp_all add: auth_ok_lock admitted_lock)
  have "auth_ok e c ((sw_server ?w)\<lparr>sv_reg := Some reg, sv_trace := sv_trace (sw_server ?w) @ [Bound reg]\<rparr>)"
    if "rg_addr reg = cloneAddr remote" "rg_contact reg = m_contact msg" for reg
    by (rule auth_ok_bind [OF ok assms(4) that])
  then show ?thesis
    using auth_ok_unbind [OF ok(1)] by (cases "n = 0") (simp_all add: bind_peer_def now_def Let_def)
qed

lemma rbind_pair: "rbind m (\<lambda>(a, b). f a b) = Inr y \<longleftrightarrow> (\<exists>a b. m = Inr (a, b) \<and> f a b = Inr y)"
  by (cases m) auto

lemma keeps_apply_register:
  assumes "interferes e" "auth_ok e c (sw_server w)" "admitted remote msg (sw_server w)" "m_method msg = str ''REGISTER''"
    and "apply_register e msg remote w = Inr w'"
  shows "auth_ok e c (sw_server w')"
proof -
  have "\<exists>w1 code reason extra. sip_reply e msg remote code reason extra w1 = Inr w' \<and> auth_ok e c (sw_server w1)"
    using assms(5,2) keeps_bind_peer [OF assms(1-4)]
    unfolding apply_register_def Let_def
    by (simp add: rbind_pair split: if_splits) blast+
  then show ?thesis using keeps_reply [OF assms(1)] by blast
qed

lemma resend_cases:
  assumes "interferes e" "auth_ok e c (sw_server w)"
  obtains answered w1 where "resendCached e msg remote w = (answered, w1)" "auth_ok e c (sw_server w1)"
  using keeps_resend [OF assms, of msg remote] by (cases "resendCached e msg remote w") simp

lemma keeps_register:
  assumes "interferes e" "auth_ok e c (sw_server w)" "m_method msg = str ''REGISTER''" "handleRegister e msg remote w = Inr w'"
  shows "auth_ok e c (sw_server w')"
proof -
  from resend_cases [OF assms(1,2)] obtain answered w1 where r: "resendCached e msg remote w = (answered, w1)"
    and ok: "auth_ok e c (sw_server w1)" by blast
  note run = assms(4) [unfolded handleRegister_def r Let_def prod.case]
  let ?bad = "m_branch msg = [] \<or> m_callID msg = [] \<or> m_cseqMethod msg \<noteq> str ''REGISTER'' \<or> m_vias msg = []"
  consider "answered" | "\<not> answered" "?bad" | "\<not> answered" "\<not> ?bad" by blast
  then show ?thesis
  proof cases
    case 1
    with run ok show ?thesis by simp
  next
    case 2
    with run have "sip_reply e msg remote 400 ''Bad Request'' [] w1 = Inr w'" by (simp only: if_True if_False)
    then show ?thesis by (rule keeps_reply [OF assms(1) ok])
  next
    case 3
    with run have "rbind (authenticate e msg remote w1)
        (\<lambda>(ok, w). if \<not> ok then Inr w else apply_register e msg remote w) = Inr w'" by (simp only: if_False)
    then obtain passed w2 where a: "authenticate e msg remote w1 = Inr (passed, w2)"
      and rest: "(if \<not> passed then Inr w2 else apply_register e msg remote w2) = Inr w'" unfolding rbind_pair by blast
    have ok2: "auth_ok e c (sw_server w2)" by (rule keeps_authenticate [OF assms(1) ok a])
    show ?thesis
    proof (cases passed)
      case True
      with a have "admitted remote msg (sw_server w2)" by (simp add: authenticate_admits)
      with rest True show ?thesis by (simp add: keeps_apply_register [OF assms(1) ok2 _ assms(3)])
    qed (use rest ok2 in simp)
  qed
qed

lemma keeps_registeredPeer:
  "interferes e \<Longrightarrow> auth_ok e c (sw_server w) \<Longrightarrow> auth_ok e c (sw_server (snd (registeredPeer e remote w)))"
  by (auto simp: registeredPeer_def Let_def now_def auth_ok_lock split: option.split)

lemma keeps_admission:
  assumes "interferes e" "auth_ok e c (sw_server w)" "invite_admission e msg remote w = Inr (b, w')"
  shows "auth_ok e c (sw_server w')"
proof -
  from resend_cases [OF assms(1,2)] obtain answered w1 where r: "resendCached e msg remote w = (answered, w1)"
    and ok: "auth_ok e c (sw_server w1)" by blast
  note run = assms(3) [unfolded invite_admission_def r Let_def prod.case]
  let ?bad = "m_branch msg = [] \<or> m_callID msg = [] \<or> m_fromTag msg = [] \<or> m_cseqMethod msg \<noteq> str ''INVITE'' \<or> m_vias msg = []"
  consider "answered" | "\<not> answered" "?bad" | "\<not> answered" "\<not> ?bad" by blast
  then show ?thesis
  proof cases
    case 1
    with run ok show ?thesis by simp
  next
    case 2
    with run have "refused (sip_reply e msg remote 400 ''Bad Request'' [] w1) = Inr (b, w')" by (simp only: if_True if_False)
    then show ?thesis by (auto simp: refused_def res_simps intro: keeps_reply [OF assms(1) ok])
  next
    case 3
    with run have "rbind (authenticate e msg remote w1) (\<lambda>(ok, w). if \<not> ok then Inr (False, w)
        else case registeredPeer e remote w of (registered, w) \<Rightarrow>
          if \<not> registered then forbidden e msg remote w else Inr (True, w)) = Inr (b, w')" by (simp only: if_False)
    then obtain passed w2 where a: "authenticate e msg remote w1 = Inr (passed, w2)"
      and rest: "(if \<not> passed then Inr (False, w2) else case registeredPeer e remote w2 of (registered, w) \<Rightarrow>
          if \<not> registered then forbidden e msg remote w else Inr (True, w)) = Inr (b, w')" unfolding rbind_pair by blast
    have ok2: "auth_ok e c (sw_server w2)" by (rule keeps_authenticate [OF assms(1) ok a])
    obtain registered w3 where p: "registeredPeer e remote w2 = (registered, w3)" by fastforce
    with keeps_registeredPeer [OF assms(1) ok2, of remote] have "auth_ok e c (sw_server w3)" by simp
    with rest p ok2 keeps_forbidden [OF assms(1)] show ?thesis by (cases passed; cases registered) auto
  qed
qed

lemma keeps_once:
  assumes "interferes e" "auth_ok e c (sw_server w)" "reply_once e msg remote code reason w = Inr (routed, w')"
  shows "auth_ok e c (sw_server w')"
proof -
  from resend_cases [OF assms(1,2)] obtain answered w1 where r: "resendCached e msg remote w = (answered, w1)"
    and ok: "auth_ok e c (sw_server w1)" by blast
  from assms(3) r ok show ?thesis
    by (auto simp: reply_once_def res_simps split: if_splits intro: keeps_reply [OF assms(1) ok])
qed

lemma keeps_message:
  assumes "interferes e" "auth_ok e c (sw_server w)" "handleMessage e msg remote w = Inr (routed, w')"
  shows "auth_ok e c (sw_server w')"
proof -
  from assms(3) consider "w' = w"
    | "m_method msg = str ''REGISTER''" "handleRegister e msg remote w = Inr w'"
    | code reason where "reply_once e msg remote code reason w = Inr (routed, w')"
    by (auto simp: handleMessage_def res_simps split: if_splits)
  then show ?thesis using assms(2) keeps_register [OF assms(1,2)] keeps_once [OF assms(1,2)] by cases blast+
qed

subsection \<open>Runs\<close>

text \<open>
  A run of the gateway: it is constructed, its reader takes the messages of datagrams one after the
  other, and between them too the other goroutines take their steps.  Any message may arrive, whether
  or not some datagram parses to it.
\<close>

definition sip_start :: "sipServer \<Rightarrow> sipWorld" where
  "sip_start s = \<lparr>sw_server = s, sw_ticks = 0, sw_drawn = 0, sw_locks = 0\<rparr>"

inductive gateway_run :: "sip_env \<Rightarrow> sipOptions \<Rightarrow> sipWorld \<Rightarrow> bool" for e opts where
  start: "sip_New opts bound = Inr s \<Longrightarrow> gateway_run e opts (sip_start s)"
| message: "gateway_run e opts w \<Longrightarrow> handleMessage e msg remote w = Inr (routed, w') \<Longrightarrow> gateway_run e opts w'"
| invite: "gateway_run e opts w \<Longrightarrow> m_method msg = str ''INVITE'' \<Longrightarrow> invite_admission e msg remote w = Inr (go, w')
    \<Longrightarrow> gateway_run e opts w'"
| others: "gateway_run e opts w \<Longrightarrow> other_step (sw_server w) s \<Longrightarrow> gateway_run e opts (w\<lparr>sw_server := s\<rparr>)"

lemma gateway_run_packet:
  "gateway_run e opts w \<Longrightarrow> handlePacket e packet remote w = Inr (routed, w') \<Longrightarrow> gateway_run e opts w'"
  by (auto simp: handlePacket_def split: if_splits sum.splits fault.splits intro: gateway_run.message)

definition sip_credentials :: "sipOptions \<Rightarrow> gostring \<times> gostring \<times> gostring" where
  "sip_credentials opts = (trim_space (so_Username opts), str ''halo'', so_Password opts)"

lemma auth_ok_start: "sip_New opts bound = Inr s \<Longrightarrow> auth_ok e (sip_credentials opts) s"
  by (auto simp: sip_New_def Let_def auth_ok_def nonces_ok_def sip_credentials_def split: if_splits option.splits)

lemma gateway_run_auth_ok:
  assumes "gateway_run e opts w" "interferes e"
  shows "auth_ok e (sip_credentials opts) (sw_server w)"
  using assms
proof (induction rule: gateway_run.induct)
  case (start bound s)
  then show ?case by (simp add: sip_start_def auth_ok_start)
next
  case (message w msg remote routed w')
  then show ?case by (blast intro: keeps_message)
next
  case (invite w msg remote go w')
  then show ?case by (blast intro: keeps_admission)
next
  case (others w s)
  then show ?case by (simp add: auth_ok_other)
qed

end
