(* ===== verification/Sip_Media_Properties.thy ===== *)
theory Sip_Media_Properties
  imports Sip_Auth
begin

text \<open>
  Properties of the gateway's media: RTP packets, the pinned address of the peer, and the error of the
  \<mu>-law codec.
\<close>

subsection \<open>RTP\<close>

lemma safe_rtp_extension_end [simp]: "safe (rtp_extension_end packet header)"
  by (auto simp: rtp_extension_end_def Let_def)

lemma safe_rtp_payload_end [simp]: "safe (rtp_payload_end packet header)"
  by (auto simp: rtp_payload_end_def Let_def)

lemma rtp_payload_end_bound: "rtp_payload_end packet header = Inr (Some e) \<Longrightarrow> e \<le> length packet"
  by (auto simp: rtp_payload_end_def Let_def res_simps split: if_splits)

lemma rtp_rest_safe:
  "safe (rbind (if padding then rtp_payload_end packet header else Inr (Some (length packet)))
     (\<lambda>e. case e of None \<Rightarrow> Inr None
        | Some e \<Rightarrow> if e < header then Inr None else rbind (slice packet header e) (\<lambda>payload. Inr (Some (f payload)))))"
  by (auto split: option.split dest: rtp_payload_end_bound)

lemma safe_parseRTP [simp]: "safe (parseRTP packet)"
proof (cases "length packet < rtpHeaderLen")
  case False
  then have n: "0 < length packet" "Suc 0 < length packet" "4 \<le> length packet" by (auto simp: rtpHeaderLen_def)
  show ?thesis
    using False n by (simp add: parseRTP_def Let_def rtp_rest_safe split: option.split)
qed (simp add: parseRTP_def)

lemma parse_build_RTP: "parseRTP (buildRTP sequence timestamp ssrc payload) = Inr (Some (0, sequence, payload))"
  by (simp add: parseRTP_def buildRTP_def rtpHeaderLen_def put_be16_def put_be32_def Let_def)

subsection \<open>The pinned address\<close>

lemma normalizeIP_ne: "ip \<noteq> [] \<Longrightarrow> normalizeIP ip \<noteq> []"
  by (auto simp: normalizeIP_def To4_def split: option.split)

lemma pinMediaIP_source: "pinMediaIP declared source = Some pinned \<Longrightarrow> source \<noteq> [] \<and> pinned = normalizeIP source"
  by (auto simp: pinMediaIP_def Let_def split: if_splits option.splits)

subsection \<open>The codec\<close>

lemma pcmu_segment_scan:
  "segment \<le> 7 \<Longrightarrow> pcmuSegmentEndpoints ! segment \<le> v \<Longrightarrow>
   segment \<le> pcmu_segment v segment \<and> pcmu_segment v segment \<le> 7 \<and> pcmuSegmentEndpoints ! pcmu_segment v segment \<le> v
   \<and> (pcmu_segment v segment < 7 \<longrightarrow> v < pcmuSegmentEndpoints ! (pcmu_segment v segment + 1))"
proof (induction v segment rule: pcmu_segment.induct)
  case (1 v segment)
  have l: "length pcmuSegmentEndpoints - 1 = 7" by (simp add: pcmuSegmentEndpoints_def)
  show ?case
  proof (cases "segment < 7 \<and> pcmuSegmentEndpoints ! (segment + 1) \<le> v")
    case True
    with 1(1) l have "segment + 1 \<le> pcmu_segment v (segment + 1) \<and> pcmu_segment v (segment + 1) \<le> 7
        \<and> pcmuSegmentEndpoints ! pcmu_segment v (segment + 1) \<le> v
        \<and> (pcmu_segment v (segment + 1) < 7 \<longrightarrow> v < pcmuSegmentEndpoints ! (pcmu_segment v (segment + 1) + 1))" by simp
    moreover have "pcmu_segment v segment = pcmu_segment v (segment + 1)"
      using True l by (subst pcmu_segment.simps) simp
    ultimately show ?thesis by simp
  next
    case False
    then have "pcmu_segment v segment = segment" using l by (subst pcmu_segment.simps) auto
    with False 1(2,3) show ?thesis by auto
  qed
qed

lemma endpoint_power: "segment \<le> 7 \<Longrightarrow> pcmuSegmentEndpoints ! segment = (if segment = 0 then 0 else 2 ^ (segment + 7))"
proof -
  assume "segment \<le> 7"
  then have "segment \<in> {0, 1, 2, 3, 4, 5, 6, 7}" by auto
  then show ?thesis by (auto simp: pcmuSegmentEndpoints_def)
qed

text \<open>The segment is the position of the leading bit above the seventh.\<close>

lemma pcmu_segment_range:
  assumes "132 \<le> v" "v < 32768"
  shows "pcmu_segment v 0 \<le> 7" "2 ^ (pcmu_segment v 0 + 7) \<le> v" "v < 2 ^ (pcmu_segment v 0 + 8)"
proof -
  let ?s = "pcmu_segment v 0"
  have z: "pcmuSegmentEndpoints ! 0 \<le> v" using assms(1) by (simp add: pcmuSegmentEndpoints_def)
  have s: "?s \<le> 7" "pcmuSegmentEndpoints ! ?s \<le> v" "?s < 7 \<longrightarrow> v < pcmuSegmentEndpoints ! (?s + 1)"
    using pcmu_segment_scan [OF _ z] by simp_all
  show "?s \<le> 7" by (rule s(1))
  show "2 ^ (?s + 7) \<le> v"
  proof (cases "?s = 0")
    case False
    then show ?thesis using s(2) unfolding endpoint_power [OF s(1)] by simp
  qed (use assms(1) in simp)
  show "v < 2 ^ (?s + 8)"
  proof (cases "?s < 7")
    case True
    with s(3) show ?thesis by (simp add: endpoint_power add.commute)
  next
    case False
    with s(1) have "?s = 7" by simp
    with assms(2) show ?thesis by simp
  qed
qed

text \<open>A sample with its sign and magnitude; what the decoder makes of the byte.\<close>

definition pcmu_clip :: "16 word \<Rightarrow> int" where
  "pcmu_clip sample = (if 32635 < \<bar>sint sample\<bar> then 32635 else \<bar>sint sample\<bar>)"

lemma pcmu_byte:
  assumes "segment \<le> 7" "0 \<le> mantissa" "mantissa < 16"
  shows "unat (drop_bit 4 ((if negative then 0x80 else 0 :: byte) OR word_of_int (int segment * 16) OR word_of_int mantissa) AND 0x07) = segment"
    "uint (((if negative then 0x80 else 0 :: byte) OR word_of_int (int segment * 16) OR word_of_int mantissa) AND 0x0f) = mantissa"
    "(((if negative then 0x80 else 0 :: byte) OR word_of_int (int segment * 16) OR word_of_int mantissa) AND 0x80 \<noteq> 0) = negative"
proof -
  have "segment \<in> {0, 1, 2, 3, 4, 5, 6, 7}" using assms(1) by auto
  moreover have "mantissa \<in> {0, 1, 2, 3, 4, 5, 6, 7, 8, 9, 10, 11, 12, 13, 14, 15}"
    using assms(2,3) unfolding insert_iff empty_iff by presburger
  ultimately show "unat (drop_bit 4 ((if negative then 0x80 else 0 :: byte) OR word_of_int (int segment * 16) OR word_of_int mantissa) AND 0x07) = segment"
    "uint (((if negative then 0x80 else 0 :: byte) OR word_of_int (int segment * 16) OR word_of_int mantissa) AND 0x0f) = mantissa"
    "(((if negative then 0x80 else 0 :: byte) OR word_of_int (int segment * 16) OR word_of_int mantissa) AND 0x80 \<noteq> 0) = negative"
    by (cases negative; auto)+
qed

text \<open>Decoding gives the middle of the interval the magnitude falls into, with the sign of the sample.\<close>

lemma decode_encode_sample:
  fixes sample :: "16 word"
  defines "v \<equiv> pcmu_clip sample + 132"
  defines "segment \<equiv> pcmu_segment v 0"
  defines "magnitude \<equiv> ((v div 2 ^ (segment + 3)) mod 16 * 8 + 132) * 2 ^ segment - 132"
  shows "decodePCMUSample (encodePCMUSample sample) = word_of_int (if sint sample < 0 then - magnitude else magnitude)"
proof -
  have v: "132 \<le> v" "v < 32768" by (auto simp: v_def pcmu_clip_def)
  let ?m = "(v div 2 ^ (segment + 3)) mod 16"
  have bits: "segment \<le> 7" "0 \<le> ?m" "?m < 16" using pcmu_segment_range(1) [OF v] by (simp_all add: segment_def)
  let ?b = "(if sint sample < 0 then 0x80 else 0 :: byte) OR word_of_int (int segment * 16) OR word_of_int ?m"
  have encoded: "encodePCMUSample sample = NOT ?b"
    by (simp add: encodePCMUSample_def Let_def segment_def v_def pcmu_clip_def abs_if)
  have "decodePCMUSample (encodePCMUSample sample)
      = (if sint sample < 0 then word_of_int (132 - (?m * 8 + 132) * 2 ^ segment)
         else word_of_int ((?m * 8 + 132) * 2 ^ segment - 132))"
    unfolding decodePCMUSample_def Let_def encoded bit.double_compl pcmu_byte [OF bits] by (rule refl)
  then show ?thesis by (simp add: magnitude_def)
qed

lemma shift_16: "16 \<le> (q :: int) \<Longrightarrow> q < 32 \<Longrightarrow> q = q mod 16 + 16"
  by presburger

lemma thirty_two: "(a :: int) \<le> b \<Longrightarrow> 32 * b \<le> v \<Longrightarrow> 32 * a \<le> v"
  by linarith

lemma in_interval:
  "(v :: int) = q * p + r \<Longrightarrow> 0 \<le> r \<Longrightarrow> r < p \<Longrightarrow> q = m + 16 \<Longrightarrow> (m + 16) * p \<le> v"
  "(v :: int) = q * p + r \<Longrightarrow> 0 \<le> r \<Longrightarrow> r < p \<Longrightarrow> q = m + 16 \<Longrightarrow> v < (m + 17) * p"
  by (simp_all add: algebra_simps)

lemma mantissa_interval:
  fixes v :: int
  assumes "132 \<le> v" "v < 32768"
  defines "segment \<equiv> pcmu_segment v 0"
  defines "m \<equiv> (v div 2 ^ (segment + 3)) mod 16"
  shows "(m + 16) * 2 ^ (segment + 3) \<le> v" "v < (m + 17) * 2 ^ (segment + 3)" "32 * 2 ^ (segment + 2) \<le> v"
proof -
  have r: "2 ^ (segment + 7) \<le> v" "v < 2 ^ (segment + 8)"
    using pcmu_segment_range [OF assms(1,2)] by (simp_all add: segment_def)
  let ?p = "2 ^ (segment + 3) :: int" and ?q = "v div 2 ^ (segment + 3)"
  have p: "0 < ?p" by simp
  have e: "(2 :: int) ^ (segment + 7) = 16 * ?p" "(2 :: int) ^ (segment + 8) = 32 * ?p" "(2 :: int) ^ (segment + 2) * 2 = ?p"
    by (simp_all add: power_add)
  have "16 \<le> ?q" using zdiv_mono1 [OF r(1) p] unfolding e(1) by simp
  moreover have "?q < 32"
  proof (rule ccontr)
    assume "\<not> ?q < 32"
    then have "32 * ?p \<le> ?q * ?p" by (intro mult_right_mono) simp_all
    also have "\<dots> \<le> v" using p by (simp add: minus_mod_eq_div_mult [symmetric])
    finally show False using r(2) e(2) by simp
  qed
  ultimately have m: "?q = m + 16" unfolding m_def by (rule shift_16)
  have "v = ?q * ?p + v mod ?p" by (rule div_mult_mod_eq [symmetric])
  moreover have "0 \<le> v mod ?p" "v mod ?p < ?p" using p by simp_all
  ultimately show "(m + 16) * ?p \<le> v" "v < (m + 17) * ?p" by (rule in_interval [OF _ _ _ m])+
  show "32 * 2 ^ (segment + 2) \<le> v" using r(1) e by linarith
qed

lemma sint_small: "- 32768 \<le> k \<Longrightarrow> k < 32768 \<Longrightarrow> sint (word_of_int k :: 16 word) = k"
  by (simp add: int_word_sint)

lemma signed_error:
  fixes a b :: int
  assumes "32 * \<bar>a - b\<bar> \<le> b + 132" "0 \<le> b" "0 \<le> a"
  shows "32 * \<bar>(if n then - a else a) - (if n then - b else b)\<bar> \<le> \<bar>if n then - b else b\<bar> + 132
    \<and> 0 \<le> (if n then - a else a) * (if n then - b else b)"
  using assms by (cases n) (simp_all add: abs_if split: if_splits)

text \<open>
  C36: \<mu>-law speech stays close to what was spoken: a sample that is encoded and decoded again keeps its
  sign and differs from the sample, clipped to 32635, by at most a 32nd of its biased magnitude.
\<close>

theorem pcmu_error_bounded:
  "(let sample' = sint (decodePCMUSample (encodePCMUSample sample));
        spoken = (if sint sample < 0 then - pcmu_clip sample else pcmu_clip sample)
    in 32 * \<bar>sample' - spoken\<bar> \<le> \<bar>spoken\<bar> + 132 \<and> 0 \<le> sample' * spoken)"
proof -
  let ?v = "pcmu_clip sample + 132"
  let ?s = "pcmu_segment ?v 0"
  let ?m = "(?v div 2 ^ (?s + 3)) mod 16"
  let ?mag = "(?m * 8 + 132) * 2 ^ ?s - 132 :: int"
  have v: "132 \<le> ?v" "?v < 32768" by (auto simp: pcmu_clip_def)
  note i = mantissa_interval [OF v] and r = pcmu_segment_range [OF v]
  have e: "?mag + 132 = (?m + 16) * 2 ^ (?s + 3) + 2 ^ (?s + 2)"
    by (simp add: power_add algebra_simps)
  have half: "(2 :: int) ^ (?s + 3) = 2 * 2 ^ (?s + 2)" by (simp add: power_add)
  have b: "\<bar>?mag + 132 - ?v\<bar> \<le> 2 ^ (?s + 2)"
    using i(1,2) unfolding e half by (simp add: algebra_simps)
  have low: "(4 :: int) \<le> 2 ^ (?s + 2)" by (simp add: power_add)
  have mag: "0 \<le> ?mag" 
  proof -
    have "0 \<le> ?m" by simp
    then have "132 \<le> (?m * 8 + 132) * 1" by simp
    also have "\<dots> \<le> (?m * 8 + 132) * 2 ^ ?s" by (intro mult_left_mono) simp_all
    finally show ?thesis by simp
  qed
  have "?mag + 132 - ?v = ?mag - pcmu_clip sample" by simp
  with b have "\<bar>?mag - pcmu_clip sample\<bar> \<le> 2 ^ (?s + 2)" by (simp only:)
  from thirty_two [OF this i(3)] have close: "32 * \<bar>?mag - pcmu_clip sample\<bar> \<le> ?v" .
  have small: "?mag < 32768"
  proof -
    have "?m \<le> 15" by simp
    then have "(?m * 8 + 132) * 2 ^ ?s \<le> (15 * 8 + 132) * 2 ^ 7"
      using r(1) by (intro mult_mono power_increasing) simp_all
    then show ?thesis by simp
  qed
  have result: "sint (decodePCMUSample (encodePCMUSample sample)) = (if sint sample < 0 then - ?mag else ?mag)"
    unfolding decode_encode_sample using mag small by (simp add: sint_small)
  have clip: "0 \<le> pcmu_clip sample" by (simp add: pcmu_clip_def)
  show ?thesis
    unfolding Let_def result using signed_error [OF close clip mag] by simp
qed

subsection \<open>Where the media goes\<close>

text \<open>
  C35: audio is only ever sent to the host the request came from: whatever addresses a session
  description declares, if it is accepted the address is the source of the datagram, and the port is
  a UDP port.
\<close>

theorem sip_media_pinned:
  assumes "validateAudioSDP U body source = Inr (ip, port)"
  shows "source \<noteq> [] \<and> ip = normalizeIP source \<and> 1 \<le> port \<and> port \<le> 65535"
proof -
  from assms obtain d where d: "sdp_lines U (split_byte 10 (unix_lines body)) sdp_start = Inr d"
    "pinMediaIP (if sd_media d = [] then sd_session d else sd_media d) source = Some ip" "port = sd_port d"
    "\<not> (sd_port d < 1 \<or> sd_port d > 65535)"
    by (auto simp: validateAudioSDP_def res_simps Let_def split: if_splits option.splits)
  from pinMediaIP_source [OF d(2)] d(3,4) show ?thesis by simp
qed

lemma offer_lines:
  "sdp_lines plain_unicode [str ''c=IN IP4 192.0.2.9'', str ''m=audio 9 RTP/AVP 0''] sdp_start
     = Inr (sdp_start\<lparr>sd_session := v4_prefix @ [192, 0, 2, 9], sd_inAudio := True, sd_sawAudio := True, sd_port := 9,
                      sd_formats := [str ''0'']\<rparr>)"
proof -
  let ?c = "str ''c=IN IP4 192.0.2.9''" and ?m = "str ''m=audio 9 RTP/AVP 0''"
  have t: "trim_space ?c = ?c" "trim_space ?m = ?m"
    by (rule trim_space_visible; simp add: str_def visible_def)+
  have p: "\<not> has_prefix ?c (str ''m='')" "has_prefix ?c (str ''c='')" "has_prefix ?m (str ''m='')"
    by (simp_all add: has_prefix_def str_def)
  have g: "graphic (str ''IN'')" "graphic (str ''IP4'')" "graphic (str ''192.0.2.9'')" "graphic (str ''audio'')" "graphic (str ''9'')"
    "graphic (str ''RTP/AVP'')" "graphic (str ''0'')" by (simp_all add: graphic_def str_def)
  have rest: "trim_prefix ?c (str ''c='') = str ''IN'' @ 32 # str ''IP4'' @ 32 # str ''192.0.2.9''"
    "trim_prefix ?m (str ''m='') = str ''audio'' @ 32 # str ''9'' @ 32 # str ''RTP/AVP'' @ 32 # str ''0''"
    by (simp_all add: trim_prefix_def has_prefix_def str_def)
  have f: "split_fields (trim_prefix ?c (str ''c='')) = [str ''IN'', str ''IP4'', str ''192.0.2.9'']"
    "split_fields (trim_prefix ?m (str ''m='')) = [str ''audio'', str ''9'', str ''RTP/AVP'', str ''0'']"
    unfolding rest by (simp_all add: fields_words fields_word g str_eq_iff [of _ "[]", simplified str_def list.map, folded str_def])
  have ip: "ParseIP (hd (split_byte 47 (str ''192.0.2.9''))) = v4_prefix @ [192, 0, 2, 9]"
    by (simp add: str_def ParseIP_def parse_v4_def v4_field_def is_digit_def)
  have port: "atoi (hd (split_byte 47 (str ''9''))) = Some 9"
    by (simp add: str_def atoi_def is_digit_def)
  have same: "equal_fold plain_unicode s s" for s by (simp add: equal_fold_def plain_unicode_def list.rel_refl)
  show ?thesis
    using t p f ip port same by (simp add: sdp_address_line_def sdp_media_line_def sdp_start_def Let_def)
qed

theorem sip_media_pinned_witness:
  "normalizeIP [192, 0, 2, 9] = [192, 0, 2, 9]
   \<and> validateAudioSDP plain_unicode (str ''c=IN IP4 192.0.2.9'' @ 10 # str ''m=audio 9 RTP/AVP 0'') [192, 0, 2, 9]
       = Inr ([192, 0, 2, 9], 9) \<and> (1 :: int) \<le> 9"
proof -
  let ?body = "str ''c=IN IP4 192.0.2.9'' @ 10 # str ''m=audio 9 RTP/AVP 0''"
  have l: "split_byte 10 (unix_lines ?body) = [str ''c=IN IP4 192.0.2.9'', str ''m=audio 9 RTP/AVP 0'']"
    by (simp add: str_def)
  have n: "normalizeIP [192, 0, 2, 9] = [192, 0, 2, 9]" by (simp add: normalizeIP_def To4_def)
  have z: "v4_prefix = [0, 0, 0, 0, 0, 0, 0, 0, 0, 0, 255, 255]"
    "replicate 16 (0 :: byte) = [0, 0, 0, 0, 0, 0, 0, 0, 0, 0, 0, 0, 0, 0, 0, 0]"
    by (simp_all add: v4_prefix_def eval_nat_numeral)
  have "pinMediaIP (v4_prefix @ [192, 0, 2, 9]) [192, 0, 2, 9] = Some [192, 0, 2, 9]"
    unfolding pinMediaIP_def ip_unspecified_def z Let_def
    by (simp add: ip_multicast_def ip_equal_def ip_broadcast4_def sameIP_def normalizeIP_def To4_def z)
  moreover have "offerHasPCMU [str ''0''] (\<lambda>_. [])" by (simp add: atoi_def is_digit_def str_def)
  ultimately have v: "validateAudioSDP plain_unicode ?body [192, 0, 2, 9] = Inr ([192, 0, 2, 9], 9)"
    unfolding validateAudioSDP_def l offer_lines by (simp add: sdp_start_def v4_prefix_def)
  from sip_media_pinned [OF v] n v show ?thesis by simp
qed

end
