(* ===== verification/Sip_Call.thy ===== *)
theory Sip_Call
  imports Sip_Server
begin

text \<open>
  The calls of the SIP gateway, \<open>internal/cellbridge/sip/call.go\<close>, and the parts of \<open>server.go\<close> that
  belong to them.  A session is named by its index in the store.  Every critical section begins with
  \<open>lock\<close>; goroutines started by a handler are functions of their own (\<open>outbound_worker\<close>,
  \<open>inbound_worker\<close>, \<open>late_dial\<close>).  The mutex of a session that orders its ACK and its BYE is left out:
  the model has more interleavings.
\<close>

subsection \<open>The backend\<close>

text \<open>The fields of \<open>vowifi.Call\<close> the gateway reads, and an error as \<open>errors.Is\<close> and its text see it.\<close>

record backendCall =
  bc_ID :: gostring
  bc_Number :: gostring
  bc_Direction :: gostring
  bc_State :: gostring
  bc_MediaReady :: bool
  bc_Codec :: gostring
  bc_Ended :: bool

record call_error =
  ce_canceled :: bool
  ce_deadline :: bool
  ce_text :: gostring

text \<open>
  What \<open>select\<close> takes when several channels are ready: the result of the dial, the timer or the end
  of the session's context, with whether the dial's slot is filled by then; and the ACK, the timer or
  the context.
\<close>

datatype dial_wait = DialFinished | DialTimer bool | DialDone bool

datatype ack_wait = AckCame | AckTimer | AckDone

text \<open>The answers of the backend and the choices of the scheduler, by the number of observations so far.\<close>

record backend_env =
  be_Calls :: "nat \<Rightarrow> backendCall list option"
  be_Dial :: "nat \<Rightarrow> gostring \<Rightarrow> backendCall \<times> call_error option"
  be_Answer :: "nat \<Rightarrow> gostring \<Rightarrow> call_error option"
  be_OpenMedia :: "nat \<Rightarrow> gostring \<Rightarrow> gostring option \<times> bool \<times> call_error option"
  be_ReadPCM :: "nat \<Rightarrow> 16 word list option"
  be_DialWait :: "nat \<Rightarrow> dial_wait"
  be_AckWait :: "nat \<Rightarrow> ack_wait"
  be_Proceeds :: "nat \<Rightarrow> bool"

definition observe :: "sipWorld \<Rightarrow> nat \<times> sipWorld" where
  "observe w = (sw_ticks w, w\<lparr>sw_ticks := sw_ticks w + 1\<rparr>)"

definition backendCalls :: "backend_env \<Rightarrow> sipWorld \<Rightarrow> backendCall list option \<times> sipWorld" where
  "backendCalls b w = (let (k, w) = observe w in (be_Calls b k, w))"

definition normState :: "unicode_env \<Rightarrow> gostring \<Rightarrow> gostring" where
  "normState U v = lower U (trim_space v)"

definition callLive :: "unicode_env \<Rightarrow> backendCall \<Rightarrow> bool" where
  "callLive U call \<longleftrightarrow>
     (if bc_Ended call then False
      else normState U (bc_State call) \<notin> {[], str ''ended'', str ''failed'', str ''idle''})"

definition ringingState :: "unicode_env \<Rightarrow> gostring \<Rightarrow> bool" where
  "ringingState U state \<longleftrightarrow> normState U state \<in> {str ''ringing'', str ''incoming'', str ''early'', str ''alerting''}"

definition incomingRinging :: "unicode_env \<Rightarrow> backendCall \<Rightarrow> bool" where
  "incomingRinging U call \<longleftrightarrow>
     (if \<not> callLive U call then False
      else if normState U (bc_Direction call) \<notin> {str ''incoming'', str ''inbound'', str ''in''} then False
      else ringingState U (bc_State call))"

definition supportedCodec :: "unicode_env \<Rightarrow> gostring \<Rightarrow> bool" where
  "supportedCodec U v \<longleftrightarrow> upper U (trim_space v) \<in> {str ''PCMU'', str ''PCMA''}"

text \<open>The runes with their positions: only the first may be a plus.\<close>

definition validNumber :: "gostring \<Rightarrow> bool" where
  "validNumber v \<longleftrightarrow>
     (if length v < 2 \<or> 32 < length v then False
      else case runes_of v of
        [] \<Rightarrow> True
      | r # rs \<Rightarrow>
          (48 \<le> r \<and> r \<le> 57 \<or> r = 42 \<or> r = 35 \<or> r = 43)
          \<and> list_all (\<lambda>r. 48 \<le> r \<and> r \<le> 57 \<or> r = 42 \<or> r = 35) rs)"

definition sanitizeUser :: "gostring \<Rightarrow> gostring" where
  "sanitizeUser v =
     (let v = trim_space v in
      if v = [] \<or> contains_any v [32, 9, 13, 10, 34, 60, 62, 64, 59, 44] then str ''unknown'' else v)"

definition findCall :: "unicode_env \<Rightarrow> backendCall list \<Rightarrow> gostring \<Rightarrow> gostring \<times> bool" where
  "findCall U calls ident =
     (case find (\<lambda>call. bc_ID call = ident) calls of
        Some call \<Rightarrow> (bc_State call, callLive U call)
      | None \<Rightarrow> ([], False))"

text \<open>\<open>None\<close> is an error; a call that is not listed is not live.\<close>

definition lookupCall ::
    "unicode_env \<Rightarrow> backend_env \<Rightarrow> gostring \<Rightarrow> sipWorld \<Rightarrow> (backendCall option \<times> bool) option \<times> sipWorld" where
  "lookupCall U b ident w =
     (let (calls, w) = backendCalls b w in
      (map_option (\<lambda>calls. case find (\<lambda>call. bc_ID call = ident) calls of
          Some call \<Rightarrow> (Some call, callLive U call)
        | None \<Rightarrow> (None, False)) calls, w))"

text \<open>The state, whether the call is live, and whether the backend could be asked.\<close>

definition lookupState :: "unicode_env \<Rightarrow> backend_env \<Rightarrow> gostring \<Rightarrow> sipWorld \<Rightarrow> (gostring \<times> bool \<times> bool) \<times> sipWorld" where
  "lookupState U b ident w =
     (case lookupCall U b ident w of
        (None, w) \<Rightarrow> (([], False, False), w)
      | (Some (Some call, live), w) \<Rightarrow> ((bc_State call, live, True), w)
      | (Some (None, live), w) \<Rightarrow> (([], live, True), w))"

text \<open>Whether a call is live, and whether that is unknown.\<close>

definition backendBusy :: "unicode_env \<Rightarrow> backend_env \<Rightarrow> sipWorld \<Rightarrow> (bool \<times> bool) \<times> sipWorld" where
  "backendBusy U b w =
     (case backendCalls b w of
        (None, w) \<Rightarrow> ((False, True), w)
      | (Some calls, w) \<Rightarrow> ((list_ex (callLive U) calls, False), w))"

subsection \<open>Sessions\<close>

definition sess :: "sipWorld \<Rightarrow> nat \<Rightarrow> sip_session" where
  "sess w i = sv_store (sw_server w) ! i"

definition on_session :: "nat \<Rightarrow> (sip_session \<Rightarrow> sip_session) \<Rightarrow> sipWorld \<Rightarrow> sipWorld" where
  "on_session i f w = on_server (\<lambda>s. s\<lparr>sv_store := (sv_store s)[i := f (sv_store s ! i)]\<rparr>) w"

definition log_call :: "call_event \<Rightarrow> sipWorld \<Rightarrow> sipWorld" where
  "log_call ev w = on_server (\<lambda>s. s\<lparr>sv_log := sv_log s @ [ev]\<rparr>) w"

text \<open>The error of the session's context: its own cancellation or the end of the run.\<close>

definition ctx_done :: "sipWorld \<Rightarrow> nat \<Rightarrow> bool" where
  "ctx_done w i \<longleftrightarrow> ss_cancelled (sess w i) \<or> sv_ended (sw_server w)"

definition reason_of :: "sip_env \<Rightarrow> nat \<Rightarrow> sipWorld \<Rightarrow> end_reason \<times> sipWorld" where
  "reason_of e i w = (let w = lock e w in (ss_endReason (sess w i), w))"

definition noteReason :: "sip_env \<Rightarrow> nat \<Rightarrow> end_reason \<Rightarrow> sipWorld \<Rightarrow> sipWorld" where
  "noteReason e i r w =
     (let w = lock e w in
      if ss_endReason (sess w i) = NoReason then on_session i (\<lambda>c. c\<lparr>ss_endReason := r\<rparr>) w else w)"

definition cancelSession :: "sip_env \<Rightarrow> nat \<Rightarrow> sipWorld \<Rightarrow> sipWorld" where
  "cancelSession e i w = on_session i (\<lambda>c. c\<lparr>ss_dialCancelled := True, ss_cancelled := True\<rparr>) (lock e w)"

definition stop_session :: "sip_env \<Rightarrow> nat \<Rightarrow> end_reason \<Rightarrow> sipWorld \<Rightarrow> sipWorld" where
  "stop_session e i r w = cancelSession e i (noteReason e i r w)"

definition localBusyLocked :: "sipWorld \<Rightarrow> bool" where
  "localBusyLocked w \<longleftrightarrow> list_ex (\<lambda>(_, i). \<not> ss_dead (sess w i)) (sv_sessions (sw_server w))"

definition localBusy :: "sip_env \<Rightarrow> sipWorld \<Rightarrow> bool \<times> sipWorld" where
  "localBusy e w = (let w = lock e w in (localBusyLocked w, w))"

text \<open>Whether a goroutine may be started.\<close>

definition worker :: "sip_env \<Rightarrow> sipWorld \<Rightarrow> bool \<times> sipWorld" where
  "worker e w = (let w = lock e w in (\<not> (sv_stopping (sw_server w) \<or> sv_closed (sw_server w)), w))"

definition dialogMatch :: "sip_session \<Rightarrow> sipMessage \<Rightarrow> udp_addr \<Rightarrow> bool" where
  "dialogMatch c msg remote \<longleftrightarrow>
     (if ss_localTag c = [] \<or> ss_remoteTag c = [] \<or> \<not> addrEqual (ss_peer c) remote then False
      else m_fromTag msg = ss_remoteTag c \<and> m_toTag msg = ss_localTag c)"

text \<open>
  The table \<open>hung\<close> keeps a call from being hung up twice; it starts again when it has grown above 512.
\<close>

definition hangupCall :: "sip_env \<Rightarrow> gostring \<Rightarrow> sipWorld \<Rightarrow> sipWorld" where
  "hangupCall e ident w =
     (if ident = [] then w
      else
        let w = lock e w; hung = sv_hung (sw_server w) in
        if ident \<in> set hung then w
        else
          let hung = (if 512 < length (ident # hung) then [ident] else ident # hung) in
          log_call (HangupCall ident) (on_server (\<lambda>s. s\<lparr>sv_hung := hung\<rparr>) w))"

fun shouldHangup :: "direction \<Rightarrow> bool \<Rightarrow> end_reason \<Rightarrow> bool \<Rightarrow> bool" where
  "shouldHangup dir answered reason ringing =
     (if reason \<in> {EndExternal, EndRemoteGone} then False
      else if dir = Outbound \<or> answered then True
      else if \<not> ringing then False
      else reason \<in> {EndReject, EndTimeout, EndBadSDP, EndCancel, EndShutdown, EndBye, EndFailed, EndAckTimeout, EndCodec})"

subsection \<open>Texts\<close>

text \<open>
  Random octets in hexadecimal; when the reader fails the time goes into the first eight octets of the
  buffer, which panics if it is shorter.
\<close>

definition put_le64 :: "int \<Rightarrow> byte list" where
  "put_le64 t = map (\<lambda>k. word_of_int (t div 256 ^ k)) [0..<8]"

definition randomHex :: "sip_env \<Rightarrow> nat \<Rightarrow> sipWorld \<Rightarrow> (sip_err, gostring \<times> sipWorld) res" where
  "randomHex e n w =
     (let drawn = se_random e (sw_drawn w) n; w = w\<lparr>sw_drawn := sw_drawn w + 1\<rparr> in
      case drawn of
        Some bytes \<Rightarrow> Inr (hex_encode bytes, w)
      | None \<Rightarrow>
          if n < 8 then Inl Panic
          else (let (t, w) = now e w in Inr (hex_encode (put_le64 t @ replicate (n - 8) 0), w)))"

definition randomUint32 :: "sip_env \<Rightarrow> sipWorld \<Rightarrow> 32 word \<times> sipWorld" where
  "randomUint32 e w =
     ((case se_random e (sw_drawn w) 4 of
         Some bytes \<Rightarrow> foldl (\<lambda>v b. v * 256 + ucast b) 0 (take 4 bytes)
       | None \<Rightarrow> 0), w\<lparr>sw_drawn := sw_drawn w + 1\<rparr>)"

definition viaHost :: "sipServer \<Rightarrow> gostring" where
  "viaHost s = join_host_port (sv_advertised s) (if sv_port s \<noteq> 0 then sv_port s else 5060)"

definition contact_uri :: "sipServer \<Rightarrow> gostring" where
  "contact_uri s = str ''<sip:'' @ sv_username s @ [64] @ viaHost s @ str ''>''"

definition contactLine :: "sipServer \<Rightarrow> gostring" where
  "contactLine s = str ''Contact: '' @ contact_uri s"

definition offerSDP :: "sipServer \<Rightarrow> gostring" where
  "offerSDP s =
     (let ip = ParseIP (sv_advertised s);
          family = (if ip \<noteq> [] \<and> To4 ip = None then str ''IP6'' else str ''IP4'');
          address = str ''IN '' @ family @ [32] @ sv_advertised s
      in concat (map (\<lambda>line. line @ crlf)
           [str ''v=0'', str ''o=- 0 1 '' @ address, str ''s=Halo'', str ''c='' @ address, str ''t=0 0'',
            str ''m=audio '' @ itoa (sv_rtpPort s) @ str '' RTP/AVP 0'', str ''a=rtpmap:0 PCMU/8000'', str ''a=ptime:20'',
            str ''a=sendrecv'']))"

text \<open>A request line, a header line with a number, and the end of a message.\<close>

definition request_line :: "string \<Rightarrow> gostring \<Rightarrow> gostring" where
  "request_line method uri = str method @ [32] @ uri @ str '' SIP/2.0'' @ crlf"

definition via_line :: "sipServer \<Rightarrow> gostring \<Rightarrow> gostring" where
  "via_line s branch = header_line ''Via'' (str ''SIP/2.0/UDP '' @ viaHost s @ str '';branch='' @ branch @ str '';rport'')"

definition cseq_line :: "int \<Rightarrow> string \<Rightarrow> gostring" where
  "cseq_line n method = header_line ''CSeq'' (int_text n @ [32] @ str method)"

definition body_lines :: "gostring \<Rightarrow> gostring" where
  "body_lines body = header_line ''Content-Length'' (itoa (length body)) @ crlf @ body"

definition renderInviteResponse ::
    "unicode_env \<Rightarrow> sipServer \<Rightarrow> sip_session \<Rightarrow> nat \<Rightarrow> string \<Rightarrow> gostring list \<Rightarrow> gostring \<Rightarrow> (sip_err, byte list) res" where
  "renderInviteResponse U s c code reason extra body =
     rbind (ensureTag U (ss_inviteTo c) (ss_localTag c)) (\<lambda>to.
       Inr (str ''SIP/2.0 '' @ itoa code @ [32] @ str reason @ crlf
            @ (if ss_inviteVia c = []
               then header_line ''Via'' (str ''SIP/2.0/UDP '' @ viaHost s @ str '';branch='' @ ss_inviteBranch c) else [])
            @ concat (map (header_line ''Via'') (ss_inviteVia c))
            @ header_line ''From'' (ss_inviteFrom c) @ header_line ''To'' to
            @ header_line ''Call-ID'' (ss_sipCallID c) @ cseq_line (ss_inviteCSeq c) ''INVITE''
            @ concat (map (\<lambda>line. if trim_space line = [] then [] else line @ crlf) extra)
            @ body_lines body))"

definition buildInviteLocked :: "unicode_env \<Rightarrow> sipServer \<Rightarrow> sip_session \<Rightarrow> (sip_err, byte list) res" where
  "buildInviteLocked U s c =
     rbind (ensureTag U (ss_localFrom c) (ss_localTag c)) (\<lambda>from.
       Inr (request_line ''INVITE'' (ss_initialInviteURI c) @ via_line s (ss_inviteBranch c)
            @ header_line ''Max-Forwards'' (str ''70'') @ header_line ''From'' from @ header_line ''To'' (ss_localTo c)
            @ header_line ''Call-ID'' (ss_sipCallID c) @ cseq_line (ss_inviteCSeq c) ''INVITE''
            @ header_line ''Contact'' (contact_uri s) @ header_line ''Content-Type'' (str ''application/sdp'')
            @ body_lines (offerSDP s)))"

definition buildDialogRequestLocked ::
    "unicode_env \<Rightarrow> sipServer \<Rightarrow> sip_session \<Rightarrow> string \<Rightarrow> int \<Rightarrow> gostring \<Rightarrow> gostring \<Rightarrow> (sip_err, byte list) res" where
  "buildDialogRequestLocked U s c method cseq branch uri =
     rbind (ensureTag U (ss_localFrom c) (ss_localTag c)) (\<lambda>from.
     rbind (ensureTag U (ss_localTo c) (ss_remoteTag c)) (\<lambda>to.
       Inr (request_line method uri @ via_line s branch @ header_line ''Max-Forwards'' (str ''70'')
            @ header_line ''From'' from @ header_line ''To'' to @ header_line ''Call-ID'' (ss_sipCallID c)
            @ cseq_line cseq method
            @ (if method \<noteq> ''ACK'' then header_line ''Contact'' (contact_uri s) else [])
            @ body_lines [])))"

subsection \<open>Sending\<close>

text \<open>The response of the INVITE transaction, remembered for retransmissions.\<close>

definition store_response :: "sip_env \<Rightarrow> nat \<Rightarrow> byte list \<Rightarrow> sipWorld \<Rightarrow> sipWorld" where
  "store_response e i raw w =
     (let w = on_session i (\<lambda>c. c\<lparr>ss_lastResp := raw\<rparr>) w; c = sess w i in
      case ss_txKey c of
        None \<Rightarrow> w
      | Some key \<Rightarrow>
          (case map_of (sv_txs (sw_server w)) key of
             Some tx \<Rightarrow> (let (t, w) = now e w in put_tx key (tx\<lparr>tx_last := raw, tx_touched := t\<rparr>) w)
           | None \<Rightarrow> storeTxLocked e key (ss_peer c) raw w))"

text \<open>A 2xx response confirms the dialog and starts its retransmissions.\<close>

definition confirm_dialog :: "sip_env \<Rightarrow> nat \<Rightarrow> sipWorld \<Rightarrow> sipWorld" where
  "confirm_dialog e i w =
     (let (accepted, w) = now e w; (t, w) = now e w; t1 = sv_t1 (sw_server w) in
      on_session i (\<lambda>c. c\<lparr>ss_dialogConfirmed := True, ss_acceptedAt := Some accepted, ss_finalDelay := t1,
                         ss_next200 := Some (t + t1)\<rparr>) w)"

definition decide_final :: "nat \<Rightarrow> nat \<Rightarrow> sipWorld \<Rightarrow> sipWorld" where
  "decide_final i code w = log_call (Final i code) (on_session i (\<lambda>c. c\<lparr>ss_finalSent := True\<rparr>) w)"

definition sendSession ::
    "sip_env \<Rightarrow> nat \<Rightarrow> nat \<Rightarrow> string \<Rightarrow> gostring list \<Rightarrow> gostring \<Rightarrow> bool \<Rightarrow> sipWorld \<Rightarrow> (sip_err, bool \<times> sipWorld) res" where
  "sendSession e i code reason extra body final w =
     (let w = lock e w; c = sess w i in
      if final \<and> (ss_finalSent c \<or> ss_dead c \<or> ss_endReason c = EndCancel) then Inr (False, w)
      else if final \<and> ss_endReason c \<noteq> NoReason \<and> code < 400 then Inr (False, w)
      else rbind (renderInviteResponse (se_unicode e) (sw_server w) c code reason extra body) (\<lambda>raw.
             let w = (if final then decide_final i code w else w);
                 w = (if 200 \<le> code \<and> code < 300 then confirm_dialog e i w else w);
                 w = store_response e i raw w
             in Inr (True, writeTo (cloneAddr (ss_peer (sess w i))) raw w)))"

definition sendProgress :: "sip_env \<Rightarrow> nat \<Rightarrow> nat \<Rightarrow> string \<Rightarrow> sipWorld \<Rightarrow> (sip_err, bool \<times> sipWorld) res" where
  "sendProgress e i code reason w = sendSession e i code reason [contactLine (sw_server w)] [] False w"

definition sendFinal :: "sip_env \<Rightarrow> nat \<Rightarrow> nat \<Rightarrow> string \<Rightarrow> sipWorld \<Rightarrow> (sip_err, bool \<times> sipWorld) res" where
  "sendFinal e i code reason w =
     (let s = sw_server w in
      sendSession e i code reason
        ([contactLine s, methods_allowed] @ (if code = 200 then [str ''Content-Type: application/sdp''] else []))
        (if code = 200 then offerSDP s else []) True w)"

definition send487 :: "sip_env \<Rightarrow> nat \<Rightarrow> sipWorld \<Rightarrow> (sip_err, sipWorld) res" where
  "send487 e i w =
     rbind (renderInviteResponse (se_unicode e) (sw_server w) (sess w i) 487 ''Request Terminated''
              [contactLine (sw_server w)] []) (\<lambda>raw.
       let w = store_response e i raw (lock e w)
       in Inr (writeTo (cloneAddr (ss_peer (sess w i))) raw w))"

definition dialog_target :: "sip_session \<Rightarrow> gostring" where
  "dialog_target c = (if ss_remoteDialogTarget c = [] then ss_initialInviteURI c else ss_remoteDialogTarget c)"

text \<open>Addition on 64 bits.\<close>

definition wrap64 :: "int \<Rightarrow> int" where
  "wrap64 n = (n + 2 ^ 63) mod 2 ^ 64 - 2 ^ 63"

text \<open>A dialog of an incoming call is only ended after its 2xx was acknowledged.\<close>

definition sendBYE :: "sip_env \<Rightarrow> nat \<Rightarrow> sipWorld \<Rightarrow> (sip_err, sipWorld) res" where
  "sendBYE e i w =
     (let w = lock e w; c = sess w i in
      if ss_direction c = Inbound \<and> \<not> ss_ackSent c then Inr (on_session i (\<lambda>c. c\<lparr>ss_pendingBye := True\<rparr>) w)
      else if ss_byeSent c \<or> ss_remoteTag c = [] \<or> ss_localTag c = [] then Inr w
      else
        let n = wrap64 (ss_inviteCSeq c + 1);
            cseq = (if ss_nextCSeq c > n then ss_nextCSeq c else n);
            w = log_call (ByeOut i) (on_session i (\<lambda>c. c\<lparr>ss_byeSent := True, ss_nextCSeq := wrap64 (cseq + 1)\<rparr>) w)
        in rbind (randomHex e 6 w) (\<lambda>(branch, w).
           rbind (buildDialogRequestLocked (se_unicode e) (sw_server w) c ''BYE'' cseq (str ''z9hG4bK'' @ branch) (dialog_target c))
             (\<lambda>raw. Inr (writeTo (cloneAddr (ss_peer c)) raw w))))"

definition sendAck :: "sip_env \<Rightarrow> nat \<Rightarrow> bool \<Rightarrow> sipWorld \<Rightarrow> (sip_err, sipWorld) res" where
  "sendAck e i non2xx w =
     rbind (randomHex e 6 (lock e w)) (\<lambda>(branch, w).
       let c = sess w i in
       rbind (buildDialogRequestLocked (se_unicode e) (sw_server w) c ''ACK'' (ss_inviteCSeq c)
                (if non2xx then ss_inviteBranch c else str ''z9hG4bK'' @ branch)
                (if non2xx then ss_initialInviteURI c else dialog_target c)) (\<lambda>raw.
         let w = writeTo (cloneAddr (ss_peer c)) raw w;
             w = (if non2xx then w else log_call (AckOut i) w);
             w = lock e w;
             w = (if non2xx then w else on_session i (\<lambda>c. c\<lparr>ss_ackSent := True\<rparr>) w)
         in if ss_pendingBye (sess w i) \<and> ss_ackSent (sess w i) then sendBYE e i w else Inr w))"

definition sendCancel :: "sip_env \<Rightarrow> nat \<Rightarrow> sipWorld \<Rightarrow> (sip_err, sipWorld) res" where
  "sendCancel e i w =
     (let w = lock e w; c = sess w i; s = sw_server w in
      if ss_cancelSent c \<or> ss_dialogConfirmed c \<or> ss_dead c then Inr w
      else
        let w = on_session i (\<lambda>c. c\<lparr>ss_cancelSent := True\<rparr>) w in
        rbind (if ss_remoteTag c = [] then Inr (ss_localTo c) else ensureTag (se_unicode e) (ss_localTo c) (ss_remoteTag c)) (\<lambda>to.
        rbind (ensureTag (se_unicode e) (ss_localFrom c) (ss_localTag c)) (\<lambda>from.
          Inr (writeTo (cloneAddr (ss_peer c))
                 (request_line ''CANCEL'' (ss_initialInviteURI c) @ via_line s (ss_inviteBranch c)
                  @ header_line ''Max-Forwards'' (str ''70'') @ header_line ''From'' from @ header_line ''To'' to
                  @ header_line ''Call-ID'' (ss_sipCallID c) @ cseq_line (ss_inviteCSeq c) ''CANCEL'' @ body_lines []) w))))"

definition cancelUnanswered :: "sip_env \<Rightarrow> nat \<Rightarrow> end_reason \<Rightarrow> sipWorld \<Rightarrow> (sip_err, sipWorld) res" where
  "cancelUnanswered e i r w =
     (let w = lock e w; c = sess w i in
      if ss_dead c \<or> ss_answerStarted c \<or> ss_endReason c \<noteq> NoReason then Inr w
      else rbind (sendCancel e i (on_session i (\<lambda>c. c\<lparr>ss_endReason := r\<rparr>) w)) (\<lambda>w.
             Inr (cancelSession e i w)))"

subsection \<open>The end of a session\<close>

text \<open>The critical section of \<open>finishSession\<close>.\<close>

definition close_session :: "sip_env \<Rightarrow> nat \<Rightarrow> sipWorld \<Rightarrow> sipWorld" where
  "close_session e i w =
     (let w = lock e w;
          w = on_server (\<lambda>s. s\<lparr>sv_rtpSess := (if sv_rtpSess s = Some i then None else sv_rtpSess s)\<rparr>) w;
          r = (if ss_endReason (sess w i) \<noteq> NoReason then ss_endReason (sess w i)
               else if sv_ended (sw_server w) then EndShutdown else EndFailed);
          (t, w) = now e w
      in on_session i (\<lambda>c. c\<lparr>ss_release := False, ss_media := False, ss_mediaOn := False, ss_endReason := r, ss_dead := True,
                            ss_deadAt := t\<rparr>) w)"

text \<open>Whether the call rings at the backend, and the hang-up of a call by a session that ended as \<open>c\<close>.\<close>

definition still_ringing :: "unicode_env \<Rightarrow> backend_env \<Rightarrow> gostring \<Rightarrow> sipWorld \<Rightarrow> bool \<times> sipWorld" where
  "still_ringing U b ident w =
     (if ident = [] then (False, w)
      else case lookupState U b ident w of ((state, live, ok), w) \<Rightarrow> (ok \<and> live \<and> ringingState U state, w))"

definition hang_up_ended :: "sip_env \<Rightarrow> sip_session \<Rightarrow> bool \<Rightarrow> sipWorld \<Rightarrow> sipWorld" where
  "hang_up_ended e c ringing w =
     (if ss_backendID c \<noteq> [] \<and> shouldHangup (ss_direction c) (ss_ownAnswered c) (ss_endReason c) ringing
      then hangupCall e (ss_backendID c) w else w)"

definition finishSession :: "sip_env \<Rightarrow> backend_env \<Rightarrow> nat \<Rightarrow> sipWorld \<Rightarrow> (sip_err, sipWorld) res" where
  "finishSession e b i w =
     (let w = lock e w in
      if ss_finished (sess w i) then Inr w
      else
        let w = close_session e i (on_session i (\<lambda>c. c\<lparr>ss_finished := True, ss_cancelled := True\<rparr>) w);
            c = sess w i;
            (ringing, w) = still_ringing (se_unicode e) b (ss_backendID c) w;
            w = hang_up_ended e c ringing w
        in if ss_dialogConfirmed c \<and> \<not> ss_peerBye c then sendBYE e i w else Inr w)"

subsection \<open>An outgoing call: the request\<close>

definition newOutbound ::
    "sip_env \<Rightarrow> sipMessage \<Rightarrow> udp_addr \<Rightarrow> gostring \<Rightarrow> net_ip \<Rightarrow> int \<Rightarrow> sipWorld \<Rightarrow> (sip_err, sip_session \<times> sipWorld) res" where
  "newOutbound e msg remote number ip port w =
     rbind (randomHex e 6 w) (\<lambda>(tag, w).
       let target = dialogURI (se_unicode e) (m_contact msg); (t, w) = now e w in
       Inr (\<lparr>ss_direction = Outbound, ss_sipCallID = m_callID msg, ss_backendID = [],
             ss_owner = str ''cellbridge-sip/'' @ m_callID msg, ss_number = number, ss_peer = cloneAddr remote,
             ss_localTag = tag, ss_remoteTag = m_fromTag msg, ss_localFrom = m_to msg, ss_localTo = m_from msg,
             ss_initialInviteURI = m_requestURI msg,
             ss_remoteDialogTarget = (if target = [] then m_requestURI msg else target),
             ss_inviteCSeq = m_cseqNum msg, ss_inviteBranch = m_branch msg, ss_inviteVia = m_vias msg,
             ss_inviteFrom = m_from msg, ss_inviteTo = m_to msg, ss_txKey = makeTxKey (se_unicode e) msg remote,
             ss_inviteRaw = [], ss_lastResp = [],
             ss_rtpRemote = Some \<lparr>ua_ip = ip, ua_port = nat port, ua_zone = []\<rparr>,
             ss_media = False, ss_release = False, ss_mediaOn = False, ss_rtpInit = False, ss_ssrc = 0, ss_txSeq = 0,
             ss_txTS = 0, ss_seqInit = False, ss_lastSeq = 0, ss_cancelled = False, ss_dialCancelled = False,
             ss_created = t, ss_acceptedAt = None, ss_deadAt = 0, ss_nextInvite = None, ss_next200 = None,
             ss_inviteDelay = 0, ss_finalDelay = 0, ss_nextCSeq = 0, ss_ackCh = False, ss_proceed = False, ss_dead = False,
             ss_finalSent = False, ss_dialogConfirmed = False, ss_answerStarted = False, ss_ownAnswered = False,
             ss_ackSent = False, ss_pendingBye = False, ss_ackSeen = False, ss_peerBye = False, ss_byeSent = False,
             ss_cancelSent = False, ss_gotProvisional = False, ss_endReason = NoReason, ss_finished = False\<rparr>, w))"

text \<open>The session is entered into the maps; its index.\<close>

definition add_session :: "sip_session \<Rightarrow> sipWorld \<Rightarrow> nat \<times> sipWorld" where
  "add_session c w =
     (let i = length (sv_store (sw_server w)) in
      (i, on_server (\<lambda>s. s\<lparr>sv_store := sv_store s @ [c], sv_sessions := AList.update (ss_sipCallID c) i (sv_sessions s)\<rparr>) w))"

text \<open>\<open>100 Trying\<close>, and the goroutine of the call; when none may be started the session ends at once.\<close>

definition start_outbound :: "sip_env \<Rightarrow> backend_env \<Rightarrow> nat \<Rightarrow> sipWorld \<Rightarrow> (sip_err, sipWorld) res" where
  "start_outbound e b i w =
     rbind (sendSession e i 100 ''Trying'' [] [] False w) (\<lambda>(_, w).
       let (ok, w) = worker e w in if ok then Inr w else finishSession e b i w)"

definition place_call ::
    "sip_env \<Rightarrow> backend_env \<Rightarrow> sipMessage \<Rightarrow> udp_addr \<Rightarrow> net_ip \<Rightarrow> int \<Rightarrow> sipWorld \<Rightarrow> (sip_err, sipWorld) res" where
  "place_call e b msg remote ip port w =
     (let number = uriUser (se_unicode e) (m_requestURI msg) in
      if \<not> validNumber number then sip_reply e msg remote 400 ''Bad Request'' [] w
      else
        let (busy, w) = localBusy e w in
        if busy then sip_reply e msg remote 486 ''Busy Here'' [] w
        else
          let ((busy, unknown), w) = backendBusy (se_unicode e) b w in
          if busy then sip_reply e msg remote 486 ''Busy Here'' [] w
          else if unknown then sip_reply e msg remote 480 ''Temporarily Unavailable'' [] w
          else rbind (newOutbound e msg remote number ip port w) (\<lambda>(c, w).
            let w = lock e w in
            if sv_stopping (sw_server w) \<or> localBusyLocked w then sip_reply e msg remote 486 ''Busy Here'' [] w
            else if map_of (sv_sessions (sw_server w)) (ss_sipCallID c) \<noteq> None
            then sip_reply e msg remote 486 ''Busy Here'' [] w
            else (let (i, w) = add_session c w in start_outbound e b i w)))"

definition handleInvite :: "sip_env \<Rightarrow> backend_env \<Rightarrow> sipMessage \<Rightarrow> udp_addr \<Rightarrow> sipWorld \<Rightarrow> (sip_err, sipWorld) res" where
  "handleInvite e b msg remote w =
     rbind (invite_admission e msg remote w) (\<lambda>(go, w).
       if \<not> go then Inr w
       else
         let w = lock e w in
         case map_of (sv_sessions (sw_server w)) (m_callID msg) of
           Some i \<Rightarrow>
             let c = sess w i in
             if addrEqual (ss_peer c) remote \<and> ss_lastResp c \<noteq> [] then Inr (writeTo remote (ss_lastResp c) w)
             else sip_reply e msg remote 403 ''Forbidden'' [] w
         | None \<Rightarrow>
             (case validateAudioSDP (se_unicode e) (m_body msg) (ua_ip remote) of
                Inl (Fail _) \<Rightarrow> sip_reply e msg remote 488 ''Not Acceptable Here'' [] w
              | Inl Panic \<Rightarrow> Inl Panic
              | Inl Hang \<Rightarrow> Inl Hang
              | Inr (ip, port) \<Rightarrow> place_call e b msg remote ip port w))"

subsection \<open>An outgoing call: the dial\<close>

definition interrupted :: "call_error option \<Rightarrow> bool" where
  "interrupted err \<longleftrightarrow> (case err of None \<Rightarrow> False | Some err \<Rightarrow> ce_canceled err \<or> ce_deadline err)"

text \<open>The backend has returned a call.\<close>

definition dial_returned :: "nat \<Rightarrow> backendCall \<Rightarrow> sipWorld \<Rightarrow> sipWorld" where
  "dial_returned i call w = (if bc_ID call = [] then w else log_call (Dialled i (bc_ID call)) w)"

definition settleLateDial :: "sip_env \<Rightarrow> backendCall \<Rightarrow> call_error option \<Rightarrow> sipWorld \<Rightarrow> sipWorld" where
  "settleLateDial e call err w =
     (if bc_ID call = [] then w
      else if err \<noteq> None \<and> \<not> interrupted err then w
      else hangupCall e (bc_ID call) w)"

definition fail_with :: "sip_env \<Rightarrow> nat \<Rightarrow> nat \<Rightarrow> string \<Rightarrow> end_reason \<Rightarrow> sipWorld \<Rightarrow> (sip_err, sipWorld) res" where
  "fail_with e i code reason r w = rbind (sendFinal e i code reason w) (\<lambda>(_, w). Inr (noteReason e i r w))"

definition sendExpired :: "sip_env \<Rightarrow> nat \<Rightarrow> sipWorld \<Rightarrow> (sip_err, sipWorld) res" where
  "sendExpired e i w =
     (let (r, w) = reason_of e i w in
      if r \<noteq> NoReason \<or> ctx_done w i then Inr w else fail_with e i 504 ''Server Time-out'' EndFailed w)"

definition failExpiredDial ::
    "sip_env \<Rightarrow> nat \<Rightarrow> backendCall \<Rightarrow> call_error option \<Rightarrow> sipWorld \<Rightarrow> (sip_err, sipWorld) res" where
  "failExpiredDial e i call err w = sendExpired e i (settleLateDial e call err w)"

text \<open>The response for a dial that failed.\<close>

definition dial_failure :: "unicode_env \<Rightarrow> call_error \<Rightarrow> nat \<times> string" where
  "dial_failure U err =
     (if index_sub (lower U (ce_text err)) (str ''busy'') \<noteq> None then (486, ''Busy Here'')
      else if ce_deadline err then (504, ''Server Time-out'')
      else (500, ''Server Error''))"

subsection \<open>Media\<close>

datatype readiness = Ready | WaitCancelled | WaitTimeout | WaitGone | WaitCodec

text \<open>One look at the call: \<open>None\<close> is another round.\<close>

definition call_readiness :: "unicode_env \<Rightarrow> (backendCall option \<times> bool) option \<Rightarrow> readiness option" where
  "call_readiness U found =
     (case found of
        None \<Rightarrow> None
      | Some (None, live) \<Rightarrow> Some WaitGone
      | Some (Some call, live) \<Rightarrow>
          if \<not> live \<or> bc_Ended call \<or> normState U (bc_State call) \<in> {str ''failed'', str ''ended''} then Some WaitGone
          else if normState U (bc_State call) = str ''active'' \<and> bc_MediaReady call
          then Some (if supportedCodec U (bc_Codec call) then Ready else WaitCodec)
          else None)"

text \<open>The rounds of \<open>waitReady\<close>; between two of them the goroutine sleeps.\<close>

partial_function (option) wait_rounds ::
    "sip_env \<Rightarrow> backend_env \<Rightarrow> nat \<Rightarrow> int \<Rightarrow> sipWorld \<Rightarrow> (readiness \<times> sipWorld) option" where
  "wait_rounds e b i deadline w =
     (let w = lock e w in
      if ctx_done w i then Some (WaitCancelled, w)
      else
        let (t, w) = now e w in
        if t > deadline then Some (WaitTimeout, w)
        else
          let (found, w) = lookupCall (se_unicode e) b (ss_backendID (sess w i)) w in
          case call_readiness (se_unicode e) found of
            Some r \<Rightarrow> Some (r, w)
          | None \<Rightarrow> wait_rounds e b i deadline w)"

definition waitReady ::
    "sip_env \<Rightarrow> backend_env \<Rightarrow> nat \<Rightarrow> int option \<Rightarrow> sipWorld \<Rightarrow> (sip_err, readiness \<times> sipWorld) res" where
  "waitReady e b i deadline w =
     (let (deadline, w) = (case deadline of
         Some d \<Rightarrow> (d, w)
       | None \<Rightarrow> let (t, w) = now e w in (t + sv_dialTimeout (sw_server w), w))
      in of_loop (wait_rounds e b i deadline w))"

definition writeRTP :: "sip_env \<Rightarrow> nat \<Rightarrow> byte list \<Rightarrow> sipWorld \<Rightarrow> sipWorld" where
  "writeRTP e i payload w =
     (let w = lock e w; c = sess w i in
      case ss_rtpRemote c of
        None \<Rightarrow> w
      | Some remote \<Rightarrow>
          if ss_dead c \<or> \<not> ss_mediaOn c then w
          else
            let seq = ss_txSeq c + 1; ts = ss_txTS c + 160 in
            writeTo (cloneAddr remote) (buildRTP seq ts (ss_ssrc c) payload)
              (on_session i (\<lambda>c. c\<lparr>ss_txSeq := seq, ss_txTS := ts\<rparr>) w))"

text \<open>Whole frames of the samples read are sent, the rest is kept.\<close>

function send_frames :: "sip_env \<Rightarrow> nat \<Rightarrow> 16 word list \<Rightarrow> sipWorld \<Rightarrow> 16 word list \<times> sipWorld" where
  "send_frames e i pending w =
     (if rtpFrame \<le> length pending
      then send_frames e i (drop rtpFrame pending) (writeRTP e i (encodePCMU (take rtpFrame pending)) w)
      else (pending, w))"
  by pat_completeness auto
termination
  by (relation "measure (\<lambda>(_, _, pending, _). length pending)") (auto simp: rtpFrame_def)

declare send_frames.simps [simp del]

partial_function (option) pumpDown :: "sip_env \<Rightarrow> backend_env \<Rightarrow> nat \<Rightarrow> 16 word list \<Rightarrow> sipWorld \<Rightarrow> sipWorld option" where
  "pumpDown e b i pending w =
     (let (k, w) = observe w in
      case be_ReadPCM b k of
        None \<Rightarrow> Some w
      | Some samples \<Rightarrow> (case send_frames e i (pending @ samples) w of (pending, w) \<Rightarrow> pumpDown e b i pending w))"

definition media_error :: call_error where
  "media_error = \<lparr>ce_canceled = False, ce_deadline = False, ce_text = str ''sip''\<rparr>"

definition canceled_error :: call_error where
  "canceled_error = \<lparr>ce_canceled = True, ce_deadline = False, ce_text = str ''context canceled''\<rparr>"

text \<open>The first packet of a session draws its numbers.\<close>

definition init_rtp :: "sip_env \<Rightarrow> nat \<Rightarrow> sipWorld \<Rightarrow> sipWorld" where
  "init_rtp e i w =
     (if ss_rtpInit (sess w i) then w
      else
        let (ssrc, w) = randomUint32 e w; (seq, w) = randomUint32 e w; (ts, w) = randomUint32 e w in
        on_session i (\<lambda>c. c\<lparr>ss_ssrc := (if ssrc = 0 \<or> ssrc = 0x12345678 then 0xA1B2C3D4 else ssrc), ss_txSeq := ucast seq,
                           ss_txTS := ts, ss_rtpInit := True\<rparr>) w)"

definition open_media :: "nat \<Rightarrow> bool \<Rightarrow> sipWorld \<Rightarrow> sipWorld" where
  "open_media i release w =
     on_server (\<lambda>s. s\<lparr>sv_rtpSess := Some i\<rparr>)
       (on_session i (\<lambda>c. c\<lparr>ss_media := True, ss_release := release, ss_mediaOn := True\<rparr>) w)"

text \<open>The error of \<open>bridge\<close>; it returns when the media ends.\<close>

definition bridge :: "sip_env \<Rightarrow> backend_env \<Rightarrow> nat \<Rightarrow> sipWorld \<Rightarrow> (sip_err, call_error option \<times> sipWorld) res" where
  "bridge e b i w =
     (let w = lock e w in
      if ctx_done w i then Inr (Some canceled_error, w)
      else
        let (k, w) = observe w in
        case be_OpenMedia b k (ss_backendID (sess w i)) of
          (media, release, Some err) \<Rightarrow> Inr (Some err, w)
        | (media, release, None) \<Rightarrow>
            (case media of
               None \<Rightarrow> Inr (Some media_error, w)
             | Some codec \<Rightarrow>
                 if \<not> supportedCodec (se_unicode e) codec then Inr (Some media_error, w)
                 else
                   let w = lock e w; c = sess w i in
                   if ss_dead c \<or> ctx_done w i \<or> ss_endReason c \<noteq> NoReason then Inr (Some media_error, w)
                   else rbind (of_loop (pumpDown e b i [] (init_rtp e i (open_media i release w)))) (\<lambda>w.
                          let w = lock e w in
                          Inr (if ctx_done w i then Some canceled_error else None, w))))"

definition bridge_call :: "sip_env \<Rightarrow> backend_env \<Rightarrow> nat \<Rightarrow> sipWorld \<Rightarrow> (sip_err, sipWorld) res" where
  "bridge_call e b i w =
     rbind (bridge e b i w) (\<lambda>(err, w).
       case err of
         None \<Rightarrow> Inr w
       | Some err \<Rightarrow>
           let (r, w) = reason_of e i w in
           if r = NoReason \<and> \<not> ce_canceled err then Inr (noteReason e i EndFailed w) else Inr w)"

subsection \<open>An outgoing call: its goroutine\<close>

text \<open>After the 200: the ACK, then the media.  A goroutine whose channels are not ready is blocked.\<close>

definition await_ack :: "sip_env \<Rightarrow> backend_env \<Rightarrow> nat \<Rightarrow> sipWorld \<Rightarrow> (sip_err, sipWorld) res" where
  "await_ack e b i w =
     (let (k, w) = observe w; w = lock e w in
      case be_AckWait b k of
        AckCame \<Rightarrow>
          if \<not> ss_ackCh (sess w i) then Inl Hang
          else bridge_call e b i (on_session i (\<lambda>c. c\<lparr>ss_ackCh := False\<rparr>) w)
      | AckTimer \<Rightarrow> Inr (noteReason e i EndAckTimeout w)
      | AckDone \<Rightarrow> if ctx_done w i then Inr w else Inl Hang)"

text \<open>The wait for the call failed.\<close>

definition not_ready :: "sip_env \<Rightarrow> nat \<Rightarrow> gostring \<Rightarrow> readiness \<Rightarrow> sipWorld \<Rightarrow> (sip_err, sipWorld) res" where
  "not_ready e i ident outcome w =
     (let (r, w) = reason_of e i w in
      if r = EndCancel \<or> ctx_done w i then Inr (hangupCall e ident w)
      else case outcome of
        WaitCodec \<Rightarrow> fail_with e i 488 ''Not Acceptable Here'' EndCodec w
      | WaitGone \<Rightarrow> fail_with e i 480 ''Temporarily Unavailable'' EndRemoteGone w
      | _ \<Rightarrow> fail_with e i 408 ''Request Timeout'' EndTimeout w)"

definition answer_caller :: "sip_env \<Rightarrow> backend_env \<Rightarrow> nat \<Rightarrow> gostring \<Rightarrow> sipWorld \<Rightarrow> (sip_err, sipWorld) res" where
  "answer_caller e b i ident w =
     (let (r, w) = reason_of e i w in
      if r \<noteq> NoReason \<or> ctx_done w i then Inr (hangupCall e ident w)
      else rbind (sendFinal e i 200 ''OK'' w) (\<lambda>(sent, w).
             if \<not> sent then Inr (hangupCall e ident w) else await_ack e b i w))"

definition bind_backend :: "nat \<Rightarrow> gostring \<Rightarrow> sipWorld \<Rightarrow> sipWorld" where
  "bind_backend i ident w =
     on_server (\<lambda>s. s\<lparr>sv_byBackend := AList.update ident i (sv_byBackend s)\<rparr>)
       (on_session i (\<lambda>c. c\<lparr>ss_backendID := ident\<rparr>) w)"

definition dialled_call ::
    "sip_env \<Rightarrow> backend_env \<Rightarrow> nat \<Rightarrow> gostring \<Rightarrow> int \<Rightarrow> sipWorld \<Rightarrow> (sip_err, sipWorld) res" where
  "dialled_call e b i ident deadline w =
     (let w = bind_backend i ident (lock e w) in
      rbind (sendProgress e i 180 ''Ringing'' w) (\<lambda>(_, w).
      rbind (waitReady e b i (Some deadline) w) (\<lambda>(outcome, w).
        if outcome \<noteq> Ready then not_ready e i ident outcome w else answer_caller e b i ident w)))"

definition acceptDial ::
    "sip_env \<Rightarrow> backend_env \<Rightarrow> nat \<Rightarrow> backendCall \<Rightarrow> call_error option \<Rightarrow> int \<Rightarrow> sipWorld \<Rightarrow> (sip_err, sipWorld) res" where
  "acceptDial e b i call err deadline w =
     (let (late, w) = (if err = None then (let (t, w) = now e w in (\<not> t < deadline, w)) else (False, w)) in
      if late then failExpiredDial e i call None w
      else
        let (r, w) = reason_of e i w in
        if r \<noteq> NoReason \<or> ctx_done w i then Inr (settleLateDial e call err w)
        else case err of
          Some err \<Rightarrow>
            let w = (if bc_ID call \<noteq> [] \<and> interrupted (Some err) then hangupCall e (bc_ID call) w else w);
                (code, text) = dial_failure (se_unicode e) err
            in if ce_canceled err then Inr w else fail_with e i code text EndFailed w
        | None \<Rightarrow>
            if bc_ID call = [] then fail_with e i 500 ''Server Error'' EndFailed w
            else dialled_call e b i (bc_ID call) deadline w)"

text \<open>
  The goroutine of an outgoing call, and what remains of the goroutine of its dial when the result
  comes too late.
\<close>

definition await_dial ::
    "sip_env \<Rightarrow> backend_env \<Rightarrow> nat \<Rightarrow> int \<Rightarrow> backendCall \<Rightarrow> call_error option \<Rightarrow> sipWorld \<Rightarrow> (sip_err, sipWorld) res" where
  "await_dial e b i deadline call err w =
     (let (k, w) = observe w; w = lock e w in
      case be_DialWait b k of
        DialFinished \<Rightarrow>
          let w = dial_returned i call w; (t, w) = now e w in
          if \<not> t < deadline then failExpiredDial e i call err w else acceptDial e b i call err deadline w
      | DialTimer filled \<Rightarrow>
          if filled then failExpiredDial e i call err (dial_returned i call w) else sendExpired e i w
      | DialDone filled \<Rightarrow>
          if \<not> ctx_done w i then Inl Hang
          else if filled then acceptDial e b i call err deadline (dial_returned i call w)
          else Inr w)"

definition end_dial :: "nat \<Rightarrow> sipWorld \<Rightarrow> sipWorld" where
  "end_dial i w = on_session i (\<lambda>c. c\<lparr>ss_dialCancelled := True\<rparr>) w"

definition runOutbound :: "sip_env \<Rightarrow> backend_env \<Rightarrow> nat \<Rightarrow> sipWorld \<Rightarrow> (sip_err, sipWorld) res" where
  "runOutbound e b i w =
     (let (t, w) = now e w; deadline = t + sv_dialTimeout (sw_server w);
          w = on_session i (\<lambda>c. c\<lparr>ss_dialCancelled := False\<rparr>) (lock e w);
          (ok, w) = worker e w
      in rbind (if \<not> ok then Inr w
                else
                  let (k, w) = observe w; (call, err) = be_Dial b k (ss_number (sess w i))
                  in await_dial e b i deadline call err w)
           (\<lambda>w. Inr (end_dial i w)))"

definition outbound_worker :: "sip_env \<Rightarrow> backend_env \<Rightarrow> nat \<Rightarrow> sipWorld \<Rightarrow> (sip_err, sipWorld) res" where
  "outbound_worker e b i w = rbind (runOutbound e b i w) (finishSession e b i)"

definition late_dial :: "sip_env \<Rightarrow> nat \<Rightarrow> backendCall \<Rightarrow> call_error option \<Rightarrow> sipWorld \<Rightarrow> sipWorld" where
  "late_dial e i call err w = settleLateDial e call err (dial_returned i call w)"

subsection \<open>Requests and responses of a call\<close>

definition handleAck :: "sip_env \<Rightarrow> sipMessage \<Rightarrow> udp_addr \<Rightarrow> sipWorld \<Rightarrow> sipWorld" where
  "handleAck e msg remote w =
     (let w = lock e w in
      case map_of (sv_sessions (sw_server w)) (m_callID msg) of
        None \<Rightarrow> w
      | Some i \<Rightarrow>
          let c = sess w i in
          if ss_direction c \<noteq> Outbound then w
          else if \<not> addrEqual (ss_peer c) remote \<or> m_cseqNum msg \<noteq> ss_inviteCSeq c then w
          else if m_toTag msg \<noteq> ss_localTag c \<or> m_fromTag msg \<noteq> ss_remoteTag c then w
          else if ss_ackSeen c then w
          else on_session i (\<lambda>c. c\<lparr>ss_ackSeen := True, ss_ackCh := True\<rparr>) w)"

definition no_such_call :: "sip_env \<Rightarrow> sipMessage \<Rightarrow> udp_addr \<Rightarrow> sipWorld \<Rightarrow> (sip_err, sipWorld) res" where
  "no_such_call e msg remote w = sip_reply e msg remote 481 ''Call/Transaction Does Not Exist'' [] w"

definition handleBye :: "sip_env \<Rightarrow> sipMessage \<Rightarrow> udp_addr \<Rightarrow> sipWorld \<Rightarrow> (sip_err, sipWorld) res" where
  "handleBye e msg remote w =
     (let (answered, w) = resendCached e msg remote w in
      if answered then Inr w
      else
        let w = lock e w in
        case map_of (sv_sessions (sw_server w)) (m_callID msg) of
          None \<Rightarrow> no_such_call e msg remote w
        | Some i \<Rightarrow>
            if \<not> dialogMatch (sess w i) msg remote then no_such_call e msg remote w
            else
              let w = on_session i (\<lambda>c. c\<lparr>ss_peerBye := True,
                         ss_endReason := (if ss_endReason c = NoReason then EndBye else ss_endReason c)\<rparr>) w
              in rbind (sip_reply e msg remote 200 ''OK'' [] w) (\<lambda>w.
                   Inr (on_session i (\<lambda>c. c\<lparr>ss_cancelled := True\<rparr>) (lock e w))))"

definition handleCancel :: "sip_env \<Rightarrow> sipMessage \<Rightarrow> udp_addr \<Rightarrow> sipWorld \<Rightarrow> (sip_err, sipWorld) res" where
  "handleCancel e msg remote w =
     (let (answered, w) = resendCached e msg remote w in
      if answered then Inr w
      else
        let w = lock e w in
        case map_of (sv_sessions (sw_server w)) (m_callID msg) of
          None \<Rightarrow> no_such_call e msg remote w
        | Some i \<Rightarrow>
            let c = sess w i in
            if ss_direction c \<noteq> Outbound \<or> ss_dead c then no_such_call e msg remote w
            else if \<not> addrEqual (ss_peer c) remote \<or> m_branch msg \<noteq> ss_inviteBranch c \<or> m_cseqNum msg \<noteq> ss_inviteCSeq c
            then no_such_call e msg remote w
            else if ss_dialogConfirmed c \<or> ss_finalSent c then sip_reply e msg remote 200 ''OK'' [] w
            else
              let w = decide_final i 487 w;
                  w = on_session i (\<lambda>c. c\<lparr>ss_endReason := (if ss_endReason c = NoReason then EndCancel else ss_endReason c)\<rparr>) w
              in rbind (sip_reply e msg remote 200 ''OK'' [] w) (\<lambda>w.
                 rbind (send487 e i w) (\<lambda>w. Inr (cancelSession e i w))))"

text \<open>The response of the phone to the INVITE of an incoming call: a 2xx.\<close>

definition learn_tag :: "sipMessage \<Rightarrow> sip_session \<Rightarrow> sip_session" where
  "learn_tag msg c = (if m_toTag msg \<noteq> [] \<and> ss_remoteTag c = [] then c\<lparr>ss_remoteTag := m_toTag msg\<rparr> else c)"

definition phone_answered :: "sip_env \<Rightarrow> nat \<Rightarrow> sipMessage \<Rightarrow> udp_addr \<Rightarrow> sipWorld \<Rightarrow> (sip_err, sipWorld) res" where
  "phone_answered e i msg remote w =
     (let target = dialogURI (se_unicode e) (m_contact msg);
          w = on_session i (learn_tag msg) w;
          w = on_session i (\<lambda>c. if target = [] then c else c\<lparr>ss_remoteDialogTarget := target\<rparr>) w;
          c = sess w i;
          late = (\<not> ss_answerStarted c \<and> (ss_dead c \<or> ss_endReason c \<noteq> NoReason))
      in
      if ss_answerStarted c \<or> late
      then rbind (sendAck e i False w) (\<lambda>w. if late then sendBYE e i w else Inr w)
      else case validateAudioSDP (se_unicode e) (m_body msg) (ua_ip remote) of
        Inl Panic \<Rightarrow> Inl Panic
      | Inl Hang \<Rightarrow> Inl Hang
      | Inl (Fail _) \<Rightarrow>
          let w = on_session i (\<lambda>c. c\<lparr>ss_dialogConfirmed := True,
                     ss_endReason := (if ss_endReason c = NoReason then EndBadSDP else ss_endReason c)\<rparr>) w
          in rbind (sendAck e i False w) (\<lambda>w. Inr (on_session i (\<lambda>c. c\<lparr>ss_cancelled := True\<rparr>) (lock e w)))
      | Inr (ip, port) \<Rightarrow>
          let w = log_call (PhoneAccepted i) (on_session i (\<lambda>c. c\<lparr>ss_dialogConfirmed := True, ss_answerStarted := True,
                     ss_gotProvisional := True, ss_rtpRemote := Some \<lparr>ua_ip = ip, ua_port = nat port, ua_zone = []\<rparr>\<rparr>) w)
          in rbind (sendAck e i False w) (\<lambda>w. Inr (on_session i (\<lambda>c. c\<lparr>ss_proceed := True\<rparr>) (lock e w))))"

definition handleResponse :: "sip_env \<Rightarrow> sipMessage \<Rightarrow> udp_addr \<Rightarrow> sipWorld \<Rightarrow> (sip_err, sipWorld) res" where
  "handleResponse e msg remote w =
     (if m_cseqMethod msg \<notin> {str ''INVITE'', str ''BYE'', str ''CANCEL''} then Inr w
      else
        let w = lock e w in
        case map_of (sv_sessions (sw_server w)) (m_callID msg) of
          None \<Rightarrow> Inr w
        | Some i \<Rightarrow>
            let c = sess w i in
            if \<not> addrEqual (ss_peer c) remote \<or> ss_direction c \<noteq> Inbound then Inr w
            else if m_cseqMethod msg \<noteq> str ''INVITE'' \<or> m_cseqNum msg \<noteq> ss_inviteCSeq c then Inr w
            else if m_branch msg \<noteq> [] \<and> ss_inviteBranch c \<noteq> [] \<and> m_branch msg \<noteq> ss_inviteBranch c then Inr w
            else if m_status msg < 200 then Inr (on_session i (\<lambda>c. c\<lparr>ss_gotProvisional := True\<rparr>) w)
            else if 300 \<le> m_status msg then
              rbind (sendAck e i True (on_session i (learn_tag msg) w)) (\<lambda>w.
                Inr (cancelSession e i (noteReason e i EndReject w)))
            else phone_answered e i msg remote w)"

subsection \<open>An incoming call\<close>

definition newInbound ::
    "sip_env \<Rightarrow> backendCall \<Rightarrow> udp_addr \<Rightarrow> gostring \<Rightarrow> sipWorld \<Rightarrow> (sip_err, sip_session \<times> sipWorld) res" where
  "newInbound e call peer target w =
     (let s = sw_server w; number = sanitizeUser (bc_Number call);
          target = (if target = [] then str ''sip:'' @ sv_username s @ [64] @ viaHost s else target)
      in
      rbind (randomHex e 8 w) (\<lambda>(ident, w).
      rbind (randomHex e 6 w) (\<lambda>(tag, w).
      rbind (randomHex e 8 w) (\<lambda>(branch, w).
        let callID = ident @ [64] @ sv_advertised s; (t, w) = now e w in
        Inr (\<lparr>ss_direction = Inbound, ss_sipCallID = callID, ss_backendID = bc_ID call,
              ss_owner = str ''cellbridge-sip/'' @ callID, ss_number = number, ss_peer = peer,
              ss_localTag = tag, ss_remoteTag = [],
              ss_localFrom = str ''<sip:'' @ number @ [64] @ sv_advertised s @ str ''>'',
              ss_localTo = str ''<sip:'' @ sv_username s @ [64] @ sv_advertised s @ str ''>'',
              ss_initialInviteURI = target, ss_remoteDialogTarget = target, ss_inviteCSeq = 1,
              ss_inviteBranch = str ''z9hG4bK'' @ branch, ss_inviteVia = [], ss_inviteFrom = [], ss_inviteTo = [],
              ss_txKey = None, ss_inviteRaw = [], ss_lastResp = [], ss_rtpRemote = None,
              ss_media = False, ss_release = False, ss_mediaOn = False, ss_rtpInit = False, ss_ssrc = 0, ss_txSeq = 0,
              ss_txTS = 0, ss_seqInit = False, ss_lastSeq = 0, ss_cancelled = False, ss_dialCancelled = False,
              ss_created = t, ss_acceptedAt = None, ss_deadAt = 0, ss_nextInvite = None, ss_next200 = None,
              ss_inviteDelay = 0, ss_finalDelay = 0, ss_nextCSeq = 0, ss_ackCh = False, ss_proceed = False, ss_dead = False,
              ss_finalSent = False, ss_dialogConfirmed = False, ss_answerStarted = False, ss_ownAnswered = False,
              ss_ackSent = False, ss_pendingBye = False, ss_ackSeen = False, ss_peerBye = False, ss_byeSent = False,
              ss_cancelSent = False, ss_gotProvisional = False, ss_endReason = NoReason, ss_finished = False\<rparr>, w)))))"

text \<open>The critical section that enters the session, and the INVITE to the phone.\<close>

definition start_inbound :: "sip_env \<Rightarrow> backend_env \<Rightarrow> sip_session \<Rightarrow> sipWorld \<Rightarrow> (sip_err, sipWorld) res" where
  "start_inbound e b c w =
     (let w = lock e w in
      if sv_stopping (sw_server w) \<or> localBusyLocked w then Inr w
      else if map_of (sv_byBackend (sw_server w)) (ss_backendID c) \<noteq> None then Inr w
      else
        let (i, w) = add_session c w;
            w = log_call (Took i (ss_backendID c))
                  (on_server (\<lambda>s. s\<lparr>sv_byBackend := AList.update (ss_backendID c) i (sv_byBackend s)\<rparr>) w)
        in rbind (buildInviteLocked (se_unicode e) (sw_server w) c) (\<lambda>raw.
             let (t, w) = now e w; t1 = sv_t1 (sw_server w);
                 w = on_session i (\<lambda>c. c\<lparr>ss_inviteRaw := raw, ss_inviteDelay := t1, ss_nextInvite := Some (t + t1)\<rparr>) w;
                 w = writeTo (ss_peer c) raw w;
                 (ok, w) = worker e w
             in if ok then Inr w else finishSession e b i w))"

definition maybeInbound :: "sip_env \<Rightarrow> backend_env \<Rightarrow> backendCall list \<Rightarrow> sipWorld \<Rightarrow> (sip_err, sipWorld) res" where
  "maybeInbound e b calls w =
     (let w = lock e w in
      case sv_reg (sw_server w) of
        None \<Rightarrow> Inr w
      | Some reg \<Rightarrow>
          let (t, w) = now e w in
          if sv_stopping (sw_server w) \<or> \<not> t < rg_expires reg \<or> localBusyLocked w then Inr w
          else case find (incomingRinging (se_unicode e)) calls of
            None \<Rightarrow> Inr w
          | Some call \<Rightarrow>
              rbind (newInbound e call (cloneAddr (rg_addr reg)) (rg_requestURI reg) w) (\<lambda>(c, w). start_inbound e b c w))"

text \<open>The error of \<open>Answer\<close> is explained by the state of the call.\<close>

definition answer_failed :: "sip_env \<Rightarrow> backend_env \<Rightarrow> nat \<Rightarrow> sipWorld \<Rightarrow> sipWorld" where
  "answer_failed e b i w =
     (case lookupState (se_unicode e) b (ss_backendID (sess w i)) w of
        ((state, live, ok), w) \<Rightarrow>
          noteReason e i
            (if ok \<and> live \<and> normState (se_unicode e) state = str ''active'' then EndExternal
             else if ok \<and> \<not> live then EndRemoteGone
             else EndFailed) w)"

definition own_answer :: "sip_env \<Rightarrow> nat \<Rightarrow> sipWorld \<Rightarrow> sipWorld" where
  "own_answer e i w = on_session i (\<lambda>c. c\<lparr>ss_ownAnswered := True\<rparr>) (lock e w)"

definition answered_call :: "sip_env \<Rightarrow> backend_env \<Rightarrow> nat \<Rightarrow> sipWorld \<Rightarrow> (sip_err, sipWorld) res" where
  "answered_call e b i w =
     rbind (waitReady e b i None (own_answer e i w)) (\<lambda>(outcome, w).
       if outcome = Ready then bridge_call e b i w
       else
         let w = lock e w in
         if ctx_done w i then Inr w
         else Inr (noteReason e i
                (case outcome of WaitCodec \<Rightarrow> EndCodec | WaitGone \<Rightarrow> EndRemoteGone | _ \<Rightarrow> EndTimeout) w))"

definition runInbound :: "sip_env \<Rightarrow> backend_env \<Rightarrow> nat \<Rightarrow> sipWorld \<Rightarrow> (sip_err, sipWorld) res" where
  "runInbound e b i w =
     (let (k, w) = observe w; w = lock e w in
      if \<not> (ss_proceed (sess w i) \<and> be_Proceeds b k) then (if ctx_done w i then Inr w else Inl Hang)
      else
        let w = on_session i (\<lambda>c. c\<lparr>ss_proceed := False\<rparr>) w; (r, w) = reason_of e i w in
        if r \<noteq> NoReason then Inr w
        else
          let (k, w) = observe w; err = be_Answer b k (ss_backendID (sess w i));
              w = log_call (AnswerCall i) w; (r, w) = reason_of e i w
          in
          if r \<noteq> NoReason \<or> ctx_done w i then Inr (if err = None then own_answer e i w else w)
          else if err \<noteq> None then Inr (answer_failed e b i w)
          else answered_call e b i w)"

definition inbound_worker :: "sip_env \<Rightarrow> backend_env \<Rightarrow> nat \<Rightarrow> sipWorld \<Rightarrow> (sip_err, sipWorld) res" where
  "inbound_worker e b i w = rbind (runInbound e b i w) (finishSession e b i)"

subsection \<open>The audio of the phone\<close>

text \<open>The samples given to the media of the call, if the packet is taken.\<close>

definition onRTP ::
    "sip_env \<Rightarrow> udp_addr \<Rightarrow> byte list \<Rightarrow> sipWorld \<Rightarrow> (sip_err, 16 word list option \<times> sipWorld) res" where
  "onRTP e addr packet w =
     rbind (parseRTP packet) (\<lambda>parsed.
       case parsed of
         None \<Rightarrow> Inr (None, w)
       | Some (pt, seq, payload) \<Rightarrow>
           if pt \<noteq> 0 \<or> payload = [] \<or> rtpMaxAudio < length payload then Inr (None, w)
           else
             let w = lock e w in
             case sv_rtpSess (sw_server w) of
               None \<Rightarrow> Inr (None, w)
             | Some i \<Rightarrow>
                 let c = sess w i in
                 case ss_rtpRemote c of
                   None \<Rightarrow> Inr (None, w)
                 | Some remote \<Rightarrow>
                     if ss_dead c \<or> \<not> ss_mediaOn c \<or> \<not> ss_media c \<or> \<not> addrEqual remote addr then Inr (None, w)
                     else if ss_seqInit c \<and> sint (seq - ss_lastSeq c) \<le> 0 then Inr (None, w)
                     else Inr (Some (decodePCMU payload), on_session i (\<lambda>c. c\<lparr>ss_seqInit := True, ss_lastSeq := seq\<rparr>) w))"

subsection \<open>The poll loop\<close>

definition doubled_delay :: "sipServer \<Rightarrow> int \<Rightarrow> int" where
  "doubled_delay s delay = (let d = delay * 2 in if d \<le> 0 \<or> d > sv_t2 s then sv_t2 s else d)"

text \<open>The loop's own retransmission of an INVITE, and of a 200 without an ACK.\<close>

definition resend_invite :: "sip_env \<Rightarrow> nat \<Rightarrow> sip_session \<Rightarrow> int \<Rightarrow> sipWorld \<Rightarrow> sipWorld" where
  "resend_invite e i c t w =
     (case ss_nextInvite c of
        Some at \<Rightarrow>
          if \<not> ss_gotProvisional c \<and> t > at then
            let w = lock e (writeTo (cloneAddr (ss_peer c)) (ss_inviteRaw c) w);
                delay = doubled_delay (sw_server w) (ss_inviteDelay (sess w i))
            in on_session i (\<lambda>c. c\<lparr>ss_inviteDelay := delay, ss_nextInvite := Some (t + delay)\<rparr>) w
          else w
      | None \<Rightarrow> w)"

definition resend_200 :: "sip_env \<Rightarrow> nat \<Rightarrow> sip_session \<Rightarrow> int \<Rightarrow> sipWorld \<Rightarrow> sipWorld" where
  "resend_200 e i c t w =
     (case ss_next200 c of
        Some at \<Rightarrow>
          if ss_direction c = Outbound \<and> ss_dialogConfirmed c \<and> \<not> ss_ackSeen c \<and> ss_lastResp c \<noteq> [] \<and> t > at then
            let w = lock e (writeTo (cloneAddr (ss_peer c)) (ss_lastResp c) w);
                delay = doubled_delay (sw_server w) (ss_finalDelay (sess w i))
            in on_session i (\<lambda>c. c\<lparr>ss_finalDelay := delay, ss_next200 := Some (t + delay)\<rparr>) w
          else w
      | None \<Rightarrow> w)"

text \<open>A dead session is removed eight seconds later.\<close>

definition forget_session :: "nat \<Rightarrow> int \<Rightarrow> sipWorld \<Rightarrow> sipWorld" where
  "forget_session i t w =
     (let c = sess w i; ident = ss_backendID c in
      if t - ss_deadAt c > seconds 8 then
        on_server (\<lambda>s. s\<lparr>sv_sessions := AList.delete (ss_sipCallID c) (sv_sessions s),
                         sv_byBackend := (if ident \<noteq> [] \<and> map_of (sv_byBackend s) ident = Some i
                                          then AList.delete ident (sv_byBackend s) else sv_byBackend s)\<rparr>) w
      else w)"

text \<open>The last part of \<open>maintainSession\<close>, for a session whose fields were \<open>c\<close>.\<close>

definition maintain_dialog ::
    "sip_env \<Rightarrow> nat \<Rightarrow> sip_session \<Rightarrow> backendCall list option \<Rightarrow> int \<Rightarrow> sipWorld \<Rightarrow> (sip_err, sipWorld) res" where
  "maintain_dialog e i c calls t w =
     (let w = resend_200 e i c t w in
      if ss_direction c = Outbound \<and> ss_dialogConfirmed c \<and> \<not> ss_ackSeen c
         \<and> (case ss_acceptedAt c of None \<Rightarrow> False | Some at \<Rightarrow> t - at > sv_ackWait (sw_server w))
      then Inr (stop_session e i EndAckTimeout w)
      else case calls of
        None \<Rightarrow> Inr w
      | Some calls \<Rightarrow>
          if ss_dialogConfirmed c \<and> ss_backendID c \<noteq> [] \<and> (ss_answerStarted c \<or> ss_direction c = Outbound)
             \<and> \<not> snd (findCall (se_unicode e) calls (ss_backendID c))
          then Inr (stop_session e i EndRemoteGone w)
          else Inr w)"

text \<open>Whether an unanswered incoming call is over for the backend, and with which reason.\<close>

definition lost_reason :: "unicode_env \<Rightarrow> sip_session \<Rightarrow> backendCall list option \<Rightarrow> end_reason option" where
  "lost_reason U c calls =
     (case calls of
        None \<Rightarrow> None
      | Some calls \<Rightarrow>
          if ss_direction c = Inbound \<and> \<not> ss_answerStarted c then
            (case findCall U calls (ss_backendID c) of
               (state, live) \<Rightarrow>
                 if \<not> live then Some EndRemoteGone
                 else if normState U state = str ''active'' then Some EndExternal
                 else None)
          else None)"

definition maintainSession ::
    "sip_env \<Rightarrow> nat \<Rightarrow> backendCall list option \<Rightarrow> int \<Rightarrow> sipWorld \<Rightarrow> (sip_err, sipWorld) res" where
  "maintainSession e i calls t w =
     (let w = lock e w; c = sess w i in
      if ss_dead c then Inr (forget_session i t w)
      else if ss_endReason c \<noteq> NoReason then Inr w
      else case lost_reason (se_unicode e) c calls of
        Some r \<Rightarrow> cancelUnanswered e i r w
      | None \<Rightarrow>
          if ss_direction c = Inbound \<and> \<not> ss_answerStarted c \<and> \<not> ss_dialogConfirmed c \<and> ss_inviteRaw c \<noteq> [] then
            let w = resend_invite e i c t w in
            if t - ss_created c > sv_inviteWait (sw_server w) then cancelUnanswered e i EndTimeout w
            else maintain_dialog e i c calls t w
          else maintain_dialog e i c calls t w)"

fun maintain_sessions ::
    "sip_env \<Rightarrow> nat list \<Rightarrow> backendCall list option \<Rightarrow> int \<Rightarrow> sipWorld \<Rightarrow> (sip_err, sipWorld) res" where
  "maintain_sessions e [] calls t w = Inr w"
| "maintain_sessions e (i # rest) calls t w =
     rbind (maintainSession e i calls t w) (maintain_sessions e rest calls t)"

definition expire_reg :: "sip_env \<Rightarrow> sipWorld \<Rightarrow> sipWorld" where
  "expire_reg e w =
     (case sv_reg (sw_server w) of
        None \<Rightarrow> w
      | Some reg \<Rightarrow>
          let (t, w) = now e w in
          if \<not> t < rg_expires reg then on_server (\<lambda>s. s\<lparr>sv_reg := None\<rparr>) w else w)"

definition maintain :: "sip_env \<Rightarrow> backend_env \<Rightarrow> sipWorld \<Rightarrow> (sip_err, sipWorld) res" where
  "maintain e b w =
     (let w = expire_reg e (evictTxLocked e (evictNoncesLocked e (lock e w)));
          sessions = map snd (sv_sessions (sw_server w));
          (calls, w) = backendCalls b w;
          (t, w) = now e w
      in rbind (maintain_sessions e sessions calls t w) (\<lambda>w.
           case calls of None \<Rightarrow> Inr w | Some calls \<Rightarrow> maybeInbound e b calls w))"

subsection \<open>The life of the server\<close>

text \<open>\<open>Run\<close> up to the start of its loops, and \<open>Close\<close> up to the wait for them.\<close>

definition sip_Run :: "sip_env \<Rightarrow> sipWorld \<Rightarrow> (sip_err, sipWorld) res" where
  "sip_Run e w =
     (let w = lock e w; s = sw_server w in
      if sv_closed s then Inl (Fail (Setup ''sip: server is closed''))
      else if sv_running s then Inl (Fail (Setup ''sip: server is already running''))
      else Inr (on_server (\<lambda>s. s\<lparr>sv_running := True\<rparr>) w))"

definition end_run :: "sipWorld \<Rightarrow> sipWorld" where
  "end_run w = on_server (\<lambda>s. s\<lparr>sv_ended := True\<rparr>) w"

definition sip_Close :: "sip_env \<Rightarrow> sipWorld \<Rightarrow> sipWorld" where
  "sip_Close e w =
     (let w = on_server (\<lambda>s. s\<lparr>sv_closed := True\<rparr>) (lock e w) in
      if sv_running (sw_server w) then end_run w else w)"

text \<open>\<open>finishRun\<close> before it waits for the goroutines, and \<open>sweep\<close> after.\<close>

definition finish_loops :: "sip_env \<Rightarrow> sipWorld \<Rightarrow> sipWorld" where
  "finish_loops e w = end_run (on_server (\<lambda>s. s\<lparr>sv_stopping := True\<rparr>) (lock e w))"

fun sweep_sessions :: "sip_env \<Rightarrow> backend_env \<Rightarrow> nat list \<Rightarrow> sipWorld \<Rightarrow> (sip_err, sipWorld) res" where
  "sweep_sessions e b [] w = Inr w"
| "sweep_sessions e b (i # left) w =
     rbind (finishSession e b i (noteReason e i EndShutdown w)) (sweep_sessions e b left)"

definition sweep :: "sip_env \<Rightarrow> backend_env \<Rightarrow> sipWorld \<Rightarrow> (sip_err, sipWorld) res" where
  "sweep e b w =
     (let w = lock e w in
      sweep_sessions e b (filter (\<lambda>i. \<not> ss_dead (sess w i)) (map snd (sv_sessions (sw_server w)))) w)"

text \<open>What \<open>Status\<close> shows of the registration and the dialogs.\<close>

definition sip_Status :: "sip_env \<Rightarrow> sipWorld \<Rightarrow> (registration option \<times> nat) \<times> sipWorld" where
  "sip_Status e w =
     (let w = lock e w; s = sw_server w;
          active = length (filter (\<lambda>(_, i). \<not> ss_dead (sess w i)) (sv_sessions s))
      in case sv_reg s of
           None \<Rightarrow> ((None, active), w)
         | Some reg \<Rightarrow> (let (t, w) = now e w in ((if t < rg_expires reg then Some reg else None, active), w)))"

text \<open>A datagram, with the handlers of calls.\<close>

definition serve_message :: "sip_env \<Rightarrow> backend_env \<Rightarrow> sipMessage \<Rightarrow> udp_addr \<Rightarrow> sipWorld \<Rightarrow> (sip_err, sipWorld) res" where
  "serve_message e b msg remote w =
     rbind (handleMessage e msg remote w) (\<lambda>(what, w).
       case what of
         ForCall msg \<Rightarrow>
           if m_isResponse msg then handleResponse e msg remote w
           else if m_method msg = str ''INVITE'' then handleInvite e b msg remote w
           else if m_method msg = str ''ACK'' then Inr (handleAck e msg remote w)
           else if m_method msg = str ''BYE'' then handleBye e msg remote w
           else handleCancel e msg remote w
       | _ \<Rightarrow> Inr w)"

definition serve_packet :: "sip_env \<Rightarrow> backend_env \<Rightarrow> byte list \<Rightarrow> udp_addr \<Rightarrow> sipWorld \<Rightarrow> (sip_err, sipWorld) res" where
  "serve_packet e b packet remote w =
     (if packet = [] \<or> 20000 < int (length packet) then Inr w
      else case parseMessage (se_unicode e) packet of
        Inl (Fail _) \<Rightarrow> Inr w
      | Inl Panic \<Rightarrow> Inl Panic
      | Inl Hang \<Rightarrow> Inl Hang
      | Inr msg \<Rightarrow> serve_message e b msg remote w)"

end
