(* ===== verification/Sip_Call_Protocol.thy ===== *)
theory Sip_Call_Protocol
  imports Sip_Call
begin

text \<open>
  The calls of the gateway as an abstract protocol: what a session looks like from outside, the steps
  the whole program may take on the sessions and their log, and what holds in every state these steps
  lead to.  Sip_Call_Runs shows that the operations of Sip_Call take only such steps.
\<close>

subsection \<open>The protocol\<close>

record call_core =
  cc_direction :: direction
  cc_backend :: gostring
  cc_reason :: end_reason
  cc_final :: bool
  cc_acked :: bool
  cc_bye :: bool
  cc_accepted :: bool
  cc_proceed :: bool

definition fresh_core :: "direction \<Rightarrow> gostring \<Rightarrow> call_core" where
  "fresh_core dir ident =
     \<lparr>cc_direction = dir, cc_backend = ident, cc_reason = NoReason, cc_final = False, cc_acked = False, cc_bye = False,
      cc_accepted = False, cc_proceed = False\<rparr>"

type_synonym call_view = "call_core list \<times> call_event list"

text \<open>
  A call may be hung up when the gateway dialled it, or when a session of the gateway took it and ended
  for a reason other than that the call was answered elsewhere or is gone.
\<close>

definition hangable :: "gostring \<Rightarrow> call_view \<Rightarrow> bool" where
  "hangable ident v \<longleftrightarrow>
     (case v of (cs, l) \<Rightarrow>
        (\<exists>i. Dialled i ident \<in> set l)
        \<or> (\<exists>i<length cs. cc_direction (cs ! i) = Inbound \<and> cc_backend (cs ! i) = ident
             \<and> cc_reason (cs ! i) \<notin> {NoReason, EndExternal, EndRemoteGone}))"

inductive protocol :: "call_view \<Rightarrow> call_view \<Rightarrow> bool" where
  outgoing: "protocol (cs, l) (cs @ [fresh_core Outbound []], l)"
| incoming: "protocol (cs, l) (cs @ [fresh_core Inbound ident], l @ [Took (length cs) ident])"
| dialled: "protocol (cs, l) (cs, l @ [Dialled i ident])"
| bound: "i < length cs \<Longrightarrow> cc_direction (cs ! i) = Outbound \<Longrightarrow> Dialled i ident \<in> set l \<Longrightarrow> ident \<noteq> []
    \<Longrightarrow> protocol (cs, l) (cs[i := (cs ! i)\<lparr>cc_backend := ident\<rparr>], l)"
| over: "i < length cs \<Longrightarrow> cc_reason (cs ! i) = NoReason \<Longrightarrow> protocol (cs, l) (cs[i := (cs ! i)\<lparr>cc_reason := r\<rparr>], l)"
| decided: "i < length cs \<Longrightarrow> \<not> cc_final (cs ! i)
    \<Longrightarrow> 400 \<le> code \<or> cc_reason (cs ! i) = NoReason \<and> cc_direction (cs ! i) = Outbound \<and> cc_backend (cs ! i) \<noteq> []
    \<Longrightarrow> protocol (cs, l) (cs[i := (cs ! i)\<lparr>cc_final := True\<rparr>], l @ [Final i code])"
| accepted: "i < length cs \<Longrightarrow> cc_direction (cs ! i) = Inbound \<Longrightarrow> \<not> cc_accepted (cs ! i) \<Longrightarrow> cc_reason (cs ! i) = NoReason
    \<Longrightarrow> protocol (cs, l) (cs[i := (cs ! i)\<lparr>cc_accepted := True\<rparr>], l @ [PhoneAccepted i])"
| proceeds: "i < length cs \<Longrightarrow> PhoneAccepted i \<in> set l \<Longrightarrow> protocol (cs, l) (cs[i := (cs ! i)\<lparr>cc_proceed := True\<rparr>], l)"
| taken: "i < length cs \<Longrightarrow> protocol (cs, l) (cs[i := (cs ! i)\<lparr>cc_proceed := False\<rparr>], l)"
| answered: "PhoneAccepted i \<in> set l \<Longrightarrow> protocol (cs, l) (cs, l @ [AnswerCall i])"
| ack_out: "protocol (cs, l) (cs, l @ [AckOut i])"
| acked: "i < length cs \<Longrightarrow> AckOut i \<in> set l \<Longrightarrow> protocol (cs, l) (cs[i := (cs ! i)\<lparr>cc_acked := True\<rparr>], l)"
| bye: "i < length cs \<Longrightarrow> \<not> cc_bye (cs ! i) \<Longrightarrow> cc_direction (cs ! i) = Outbound \<or> cc_acked (cs ! i)
    \<Longrightarrow> protocol (cs, l) (cs[i := (cs ! i)\<lparr>cc_bye := True\<rparr>], l @ [ByeOut i])"
| hung: "hangable ident (cs, l) \<Longrightarrow> protocol (cs, l) (cs, l @ [HangupCall ident])"

subsection \<open>What only grows\<close>

definition kept :: "call_core \<Rightarrow> call_core \<Rightarrow> bool" where
  "kept c c' \<longleftrightarrow>
     cc_direction c' = cc_direction c \<and> (cc_direction c = Inbound \<longrightarrow> cc_backend c' = cc_backend c)
     \<and> (cc_backend c \<noteq> [] \<longrightarrow> cc_backend c' \<noteq> [])
     \<and> (cc_reason c \<noteq> NoReason \<longrightarrow> cc_reason c' = cc_reason c)"

definition grows :: "call_view \<Rightarrow> call_view \<Rightarrow> bool" where
  "grows v v' \<longleftrightarrow>
     (\<exists>more. snd v' = snd v @ more) \<and> length (fst v) \<le> length (fst v')
     \<and> (\<forall>i<length (fst v). kept (fst v ! i) (fst v' ! i))"

lemma kept_refl [simp]: "kept c c"
  by (simp add: kept_def)

lemma kept_trans: "kept a b \<Longrightarrow> kept b c \<Longrightarrow> kept a c"
  by (auto simp: kept_def)

lemma grows_refl [simp]: "grows v v"
  by (simp add: grows_def)

lemma grows_trans:
  assumes "grows u v" "grows v w"
  shows "grows u w"
proof -
  from assms obtain m1 m2 where "snd v = snd u @ m1" "snd w = snd v @ m2" by (auto simp: grows_def)
  then have "snd w = snd u @ m1 @ m2" by simp
  moreover have "kept (fst u ! i) (fst w ! i)" if "i < length (fst u)" for i
    using assms that kept_trans [of "fst u ! i" "fst v ! i" "fst w ! i"] by (simp add: grows_def)
  moreover have "length (fst u) \<le> length (fst w)" using assms by (simp add: grows_def)
  ultimately show ?thesis unfolding grows_def by blast
qed

lemma grows_log: "grows (cs, l) (cs, l @ [ev])"
  by (simp add: grows_def)

lemma grows_update: "i < length cs \<Longrightarrow> kept (cs ! i) c \<Longrightarrow> grows (cs, l) (cs[i := c], l)"
  "i < length cs \<Longrightarrow> kept (cs ! i) c \<Longrightarrow> grows (cs, l) (cs[i := c], l @ [ev])"
  by (simp_all add: grows_def nth_list_update)

lemma grows_new: "grows (cs, l) (cs @ [c], l)" "grows (cs, l) (cs @ [c], l @ [ev])"
  by (simp_all add: grows_def nth_append)

lemma protocol_grows: "protocol v v' \<Longrightarrow> grows v v'"
  by (induction rule: protocol.induct) (auto intro!: grows_log grows_update grows_new simp: kept_def)

lemma path_grows: "protocol\<^sup>*\<^sup>* v v' \<Longrightarrow> grows v v'"
  by (induction rule: rtranclp_induct) (auto intro: grows_trans protocol_grows)

lemma grows_events: "grows (cs, l) (cs', l') \<Longrightarrow> set l \<subseteq> set l'"
  by (auto simp: grows_def)

lemma hangable_grows:
  assumes "grows (cs, l) (cs', l')" "hangable ident (cs, l)"
  shows "hangable ident (cs', l')"
proof (cases "\<exists>i. Dialled i ident \<in> set l")
  case True
  with grows_events [OF assms(1)] show ?thesis by (auto simp: hangable_def)
next
  case False
  with assms(2) obtain i where i: "i < length cs" "cc_direction (cs ! i) = Inbound" "cc_backend (cs ! i) = ident"
    "cc_reason (cs ! i) \<notin> {NoReason, EndExternal, EndRemoteGone}" by (auto simp: hangable_def)
  with assms(1) have "i < length cs'" "kept (cs ! i) (cs' ! i)" by (auto simp: grows_def)
  with i show ?thesis by (auto simp: hangable_def kept_def)
qed

subsection \<open>The invariant\<close>

definition finals :: "nat \<Rightarrow> call_event list \<Rightarrow> call_event list" where
  "finals i l = filter (\<lambda>ev. case ev of Final j _ \<Rightarrow> j = i | _ \<Rightarrow> False) l"

definition byes :: "nat \<Rightarrow> call_event list \<Rightarrow> call_event list" where
  "byes i l = filter (\<lambda>ev. ev = ByeOut i) l"

text \<open>What must have happened before an event.\<close>

fun preceded :: "call_core list \<Rightarrow> call_event list \<Rightarrow> call_event \<Rightarrow> bool" where
  "preceded cs before (Final i code) \<longleftrightarrow> 400 \<le> code \<or> (\<exists>ident. Dialled i ident \<in> set before)"
| "preceded cs before (AnswerCall i) \<longleftrightarrow> PhoneAccepted i \<in> set before"
| "preceded cs before (ByeOut i) \<longleftrightarrow> cc_direction (cs ! i) = Outbound \<or> AckOut i \<in> set before"
| "preceded cs before (HangupCall ident) \<longleftrightarrow>
     (\<exists>i. Dialled i ident \<in> set before)
     \<or> (\<exists>i<length cs. Took i ident \<in> set before \<and> cc_reason (cs ! i) \<notin> {NoReason, EndExternal, EndRemoteGone})"
| "preceded cs before ev \<longleftrightarrow> True"

definition core_ok :: "call_event list \<Rightarrow> nat \<Rightarrow> call_core \<Rightarrow> bool" where
  "core_ok l i c \<longleftrightarrow>
     (if cc_direction c = Outbound then cc_backend c \<noteq> [] \<longrightarrow> Dialled i (cc_backend c) \<in> set l
      else Took i (cc_backend c) \<in> set l)
     \<and> (cc_acked c \<longrightarrow> AckOut i \<in> set l) \<and> (cc_proceed c \<longrightarrow> PhoneAccepted i \<in> set l)
     \<and> length (finals i l) \<le> of_bool (cc_final c) \<and> length (byes i l) \<le> of_bool (cc_bye c)"

fun names :: "call_event \<Rightarrow> nat option" where
  "names (Final i code) = Some i"
| "names (ByeOut i) = Some i"
| "names ev = None"

definition calls_inv :: "call_view \<Rightarrow> bool" where
  "calls_inv v \<longleftrightarrow>
     (case v of (cs, l) \<Rightarrow>
        (\<forall>i<length cs. core_ok l i (cs ! i))
        \<and> (\<forall>ev\<in>set l. \<forall>i. names ev = Some i \<longrightarrow> i < length cs)
        \<and> (\<forall>before ev after. l = before @ ev # after \<longrightarrow> preceded cs before ev))"

lemma preceded_grows:
  assumes "grows (cs, l) (cs', l')" "\<forall>i. names ev = Some i \<longrightarrow> i < length cs" "preceded cs before ev"
  shows "preceded cs' before ev"
proof -
  have k: "kept (cs ! i) (cs' ! i)" "i < length cs'" if "i < length cs" for i
    using assms(1) that by (auto simp: grows_def)
  show ?thesis
  proof (cases ev)
    case (ByeOut i)
    with assms(2,3) k [of i] show ?thesis by (auto simp: kept_def)
  next
    case (HangupCall ident)
    show ?thesis
    proof (cases "\<exists>i. Dialled i ident \<in> set before")
      case False
      with assms(3) HangupCall obtain i where "i < length cs" "Took i ident \<in> set before"
        "cc_reason (cs ! i) \<notin> {NoReason, EndExternal, EndRemoteGone}" by auto
      with k [of i] HangupCall show ?thesis by (auto simp: kept_def)
    qed (use HangupCall in simp)
  qed (use assms(3) in simp_all)
qed

lemma snoc_split: "l @ [x] = before @ ev # after \<Longrightarrow> (before = l \<and> ev = x) \<or> (\<exists>after'. l = before @ ev # after')"
  by (cases after rule: rev_cases) auto

text \<open>A step keeps the order of the log if the events it adds are preceded by what they need.\<close>

lemma calls_inv_step:
  assumes "calls_inv (cs, l)" "grows (cs, l) (cs', l')" "l' = l \<or> (\<exists>ev. l' = l @ [ev] \<and> preceded cs' l ev \<and> (\<forall>i. names ev = Some i \<longrightarrow> i < length cs'))"
    and "\<And>i. i < length cs' \<Longrightarrow> core_ok l' i (cs' ! i)"
  shows "calls_inv (cs', l')"
proof -
  from assms(1) have order: "\<And>before ev after. l = before @ ev # after \<Longrightarrow> preceded cs before ev"
    and named: "\<And>ev i. ev \<in> set l \<Longrightarrow> names ev = Some i \<Longrightarrow> i < length cs" by (auto simp: calls_inv_def)
  from assms(2) have len: "length cs \<le> length cs'" by (simp add: grows_def)
  have old: "preceded cs' before ev" if "l = before @ ev # after" for before ev after
    using preceded_grows [OF assms(2)] order [OF that] named that by (metis in_set_conv_decomp)
  have "preceded cs' before ev" if "l' = before @ ev # after" for before ev after
    using assms(3)
  proof (elim disjE exE conjE)
    fix x
    assume "l' = l @ [x]" "preceded cs' l x"
    with snoc_split [of l x before ev after] that old show ?thesis by auto
  next
    assume "l' = l"
    with that have "l = before @ ev # after" by simp
    then show ?thesis by (rule old)
  qed
  moreover have "i < length cs'" if "ev \<in> set l'" "names ev = Some i" for ev i
    using assms(3) that less_le_trans [OF named len] by auto
  ultimately show ?thesis unfolding calls_inv_def prod.case using assms(4) by blast
qed

lemma core_ok_more:
  "core_ok l i c \<Longrightarrow> names ev \<noteq> Some i \<Longrightarrow> core_ok (l @ [ev]) i c"
  by (cases ev) (auto simp: core_ok_def finals_def byes_def split: if_splits)

lemma finals_empty: "\<forall>ev\<in>set l. names ev \<noteq> Some i \<Longrightarrow> finals i l = []"
  by (induction l) (auto simp: finals_def split: call_event.split)

lemma byes_empty: "\<forall>ev\<in>set l. names ev \<noteq> Some i \<Longrightarrow> byes i l = []"
  by (induction l) (auto simp: byes_def)

lemma core_ok_fresh:
  assumes "\<forall>ev\<in>set l. names ev \<noteq> Some i" "dir = Outbound \<and> ident = [] \<or> dir = Inbound \<and> Took i ident \<in> set l"
  shows "core_ok l i (fresh_core dir ident)"
  using assms(2) finals_empty [OF assms(1)] byes_empty [OF assms(1)] by (auto simp: core_ok_def fresh_core_def)

lemma calls_inv_core: "calls_inv (cs, l) \<Longrightarrow> i < length cs \<Longrightarrow> core_ok l i (cs ! i)"
  by (simp add: calls_inv_def)

lemma calls_inv_unnamed: "calls_inv (cs, l) \<Longrightarrow> \<forall>ev\<in>set l. names ev \<noteq> Some (length cs)"
  by (auto simp: calls_inv_def)

text \<open>A step on one session, with or without an event.\<close>

lemma calls_inv_update:
  assumes "calls_inv (cs, l)" "i < length cs" "kept (cs ! i) c" "core_ok l i c"
  shows "calls_inv (cs[i := c], l)"
  using assms(2,4) calls_inv_core [OF assms(1)]
  by (intro calls_inv_step [OF assms(1) grows_update(1) [OF assms(2,3)]]) (auto simp: nth_list_update)

lemma calls_inv_event:
  assumes "calls_inv (cs, l)" "names ev = None" "preceded cs l ev"
  shows "calls_inv (cs, l @ [ev])"
  using assms(2,3) calls_inv_core [OF assms(1)]
  by (intro calls_inv_step [OF assms(1) grows_log]) (auto intro: core_ok_more)

lemma calls_inv_both:
  assumes "calls_inv (cs, l)" "i < length cs" "kept (cs ! i) c" "core_ok (l @ [ev]) i c"
    and "\<forall>j. names ev = Some j \<longrightarrow> j = i" "preceded (cs[i := c]) l ev"
  shows "calls_inv (cs[i := c], l @ [ev])"
  using assms(2,4-6) calls_inv_core [OF assms(1)]
  by (intro calls_inv_step [OF assms(1) grows_update(2) [OF assms(2,3)]]) (auto simp: nth_list_update intro!: core_ok_more)

lemma preceded_hangup:
  assumes "calls_inv (cs, l)" "hangable ident (cs, l)"
  shows "preceded cs l (HangupCall ident)"
proof (cases "\<exists>i. Dialled i ident \<in> set l")
  case False
  with assms(2) obtain i where i: "i < length cs" "cc_direction (cs ! i) = Inbound" "cc_backend (cs ! i) = ident"
    "cc_reason (cs ! i) \<notin> {NoReason, EndExternal, EndRemoteGone}" by (auto simp: hangable_def)
  with calls_inv_core [OF assms(1) i(1)] have "Took i ident \<in> set l" by (simp add: core_ok_def)
  with i show ?thesis by auto
qed simp

lemma protocol_inv: "protocol v v' \<Longrightarrow> calls_inv v \<Longrightarrow> calls_inv v'"
proof (induction rule: protocol.induct)
  case (outgoing cs l)
  then show ?case
    using calls_inv_unnamed [OF outgoing] calls_inv_core [OF outgoing]
    by (intro calls_inv_step [OF outgoing grows_new(1)]) (auto simp: nth_append less_Suc_eq core_ok_fresh)
next
  case (incoming cs l ident)
  then show ?case
    using calls_inv_unnamed [OF incoming] calls_inv_core [OF incoming]
    by (intro calls_inv_step [OF incoming grows_new(2)]) (auto simp: nth_append less_Suc_eq core_ok_fresh core_ok_more)
next
  case (bound i cs ident l)
  from calls_inv_core [OF bound(5,1)] bound show ?case by (intro calls_inv_update) (auto simp: kept_def core_ok_def)
next
  case (over i cs l r)
  from calls_inv_core [OF over(3,1)] over show ?case by (intro calls_inv_update) (auto simp: kept_def core_ok_def)
next
  case (decided i cs code l)
  from calls_inv_core [OF decided(4,1)] decided show ?case
    by (intro calls_inv_both) (auto simp: kept_def core_ok_def finals_def byes_def)
next
  case (accepted i cs l)
  from calls_inv_core [OF accepted(5,1)] accepted show ?case
    by (intro calls_inv_both) (auto simp: kept_def core_ok_def finals_def byes_def)
next
  case (proceeds i cs l)
  from calls_inv_core [OF proceeds(3,1)] proceeds show ?case by (intro calls_inv_update) (auto simp: kept_def core_ok_def)
next
  case (taken i cs l)
  from calls_inv_core [OF taken(2,1)] taken show ?case by (intro calls_inv_update) (auto simp: kept_def core_ok_def)
next
  case (acked i cs l)
  from calls_inv_core [OF acked(3,1)] acked show ?case by (intro calls_inv_update) (auto simp: kept_def core_ok_def)
next
  case (bye i cs l)
  from calls_inv_core [OF bye(4,1)] bye show ?case
    by (intro calls_inv_both) (auto simp: kept_def core_ok_def finals_def byes_def)
next
  case (hung ident cs l)
  from preceded_hangup [OF hung(2,1)] show ?case by (intro calls_inv_event [OF hung(2)]) simp_all
qed (auto intro: calls_inv_event)

lemma path_inv: "protocol\<^sup>*\<^sup>* v v' \<Longrightarrow> calls_inv v \<Longrightarrow> calls_inv v'"
  by (induction rule: rtranclp_induct) (auto intro: protocol_inv)

lemma calls_inv_start [simp]: "calls_inv ([], [])"
  by (simp add: calls_inv_def)

end
