(* ===== verification/Sip_Call_Runs.thy ===== *)
theory Sip_Call_Runs
  imports Sip_Call_Protocol
begin

text \<open>
  The operations of the gateway follow the protocol of calls: whatever protocol steps the other
  goroutines take at the critical sections, an operation takes the sessions and the log from one state
  to the other by protocol steps.
\<close>

subsection \<open>Following the protocol\<close>

definition core :: "sip_session \<Rightarrow> call_core" where
  "core c =
     \<lparr>cc_direction = ss_direction c, cc_backend = ss_backendID c, cc_reason = ss_endReason c, cc_final = ss_finalSent c,
      cc_acked = ss_ackSent c, cc_bye = ss_byeSent c, cc_accepted = ss_answerStarted c, cc_proceed = ss_proceed c\<rparr>"

definition view :: "sipServer \<Rightarrow> call_view" where
  "view s = (map core (sv_store s), sv_log s)"

text \<open>The map of sessions only has sessions of the store.\<close>

definition indexed :: "sipServer \<Rightarrow> bool" where
  "indexed s \<longleftrightarrow> (\<forall>(_, i)\<in>set (sv_sessions s). i < length (sv_store s))"

definition call_step :: "sipServer \<Rightarrow> sipServer \<Rightarrow> bool" where
  "call_step s s' \<longleftrightarrow> protocol\<^sup>*\<^sup>* (view s) (view s') \<and> (indexed s \<longrightarrow> indexed s')"

text \<open>The other goroutines follow the protocol.\<close>

definition orderly :: "sip_env \<Rightarrow> bool" where
  "orderly e \<longleftrightarrow> (\<forall>k s. call_step s (se_others e k s))"

definition goes :: "sipWorld \<Rightarrow> sipWorld \<Rightarrow> bool" where
  "goes w w' \<longleftrightarrow> call_step (sw_server w) (sw_server w')"

definition steps :: "sipWorld \<Rightarrow> ('a \<Rightarrow> sipWorld) \<Rightarrow> ('e, 'a) res \<Rightarrow> bool" where
  "steps w f r \<longleftrightarrow> (\<forall>x. r = Inr x \<longrightarrow> goes w (f x))"

text \<open>A world in which the invariant holds and the session exists.\<close>

definition has_session :: "nat \<Rightarrow> sipWorld \<Rightarrow> bool" where
  "has_session i w \<longleftrightarrow> indexed (sw_server w) \<and> calls_inv (view (sw_server w)) \<and> i < length (sv_store (sw_server w))"

lemma call_step_refl [simp]: "call_step s s"
  by (simp add: call_step_def)

lemma call_step_trans: "call_step s s' \<Longrightarrow> call_step s' s'' \<Longrightarrow> call_step s s''"
  by (auto simp: call_step_def)

lemma goes_refl [simp]: "goes w w"
  by (simp add: goes_def)

lemma goes_trans: "goes w w' \<Longrightarrow> goes w' w'' \<Longrightarrow> goes w w''"
  unfolding goes_def by (rule call_step_trans)

lemma goes_same: "goes w0 w \<Longrightarrow> sw_server w' = sw_server w \<Longrightarrow> goes w0 w'"
  by (simp add: goes_def)

lemma goes_ticks [simp]:
  "goes w0 (w\<lparr>sw_ticks := k\<rparr>) = goes w0 w" "goes w0 (w\<lparr>sw_drawn := k\<rparr>) = goes w0 w" "goes w0 (w\<lparr>sw_locks := k\<rparr>) = goes w0 w"
  by (simp_all add: goes_def)

lemma steps_simps [simp]:
  "steps w f (Inr x) \<longleftrightarrow> goes w (f x)" "steps w f (Inl y)"
  by (simp_all add: steps_def)

lemma steps_bind:
  assumes "steps w f m" "\<And>x. m = Inr x \<Longrightarrow> goes w (f x) \<Longrightarrow> steps w g (k x)"
  shows "steps w g (rbind m k)"
  using assms by (auto simp: steps_def res_simps)

lemma goes_view:
  "goes w0 w \<Longrightarrow> view s = view (sw_server w) \<Longrightarrow> sv_sessions s = sv_sessions (sw_server w) \<Longrightarrow> goes w0 (w\<lparr>sw_server := s\<rparr>)"
proof -
  assume v: "view s = view (sw_server w)" "sv_sessions s = sv_sessions (sw_server w)" and g: "goes w0 w"
  then have "length (sv_store s) = length (sv_store (sw_server w))" by (metis Pair_inject length_map view_def)
  with v have "indexed s = indexed (sw_server w)" by (simp add: indexed_def)
  with v g show ?thesis by (simp add: goes_def call_step_def)
qed

lemma goes_lock: "orderly e \<Longrightarrow> goes w0 w \<Longrightarrow> goes w0 (lock e w)"
  unfolding goes_def lock_def orderly_def by (auto intro: call_step_trans)

text \<open>What does not touch the calls.\<close>

lemma view_simps [simp]:
  "view (s\<lparr>sv_txs := a\<rparr>) = view s" "view (s\<lparr>sv_nonces := b\<rparr>) = view s" "view (s\<lparr>sv_reg := c\<rparr>) = view s"
  "view (s\<lparr>sv_trace := d\<rparr>) = view s" "view (s\<lparr>sv_hung := h\<rparr>) = view s" "view (s\<lparr>sv_rtpSess := r\<rparr>) = view s"
  "view (s\<lparr>sv_byBackend := g\<rparr>) = view s" "view (s\<lparr>sv_sessions := j\<rparr>) = view s" "view (s\<lparr>sv_closed := k\<rparr>) = view s"
  "view (s\<lparr>sv_running := k\<rparr>) = view s" "view (s\<lparr>sv_ended := k\<rparr>) = view s" "view (s\<lparr>sv_stopping := k\<rparr>) = view s"
  by (simp_all add: view_def)

lemma goes_emit: "goes w0 w \<Longrightarrow> goes w0 (emit ev w)"
  unfolding emit_def by (rule goes_view) simp_all

lemma goes_writeTo: "goes w0 w \<Longrightarrow> goes w0 (writeTo a raw w)"
  by (simp add: writeTo_def goes_emit)

lemma goes_put: "goes w0 w \<Longrightarrow> goes w0 (put_tx key tx w)" "goes w0 w \<Longrightarrow> goes w0 (put_nonce v state w)"
  unfolding put_tx_def put_nonce_def by (rule goes_view; simp)+

lemma goes_evict: "goes w0 w \<Longrightarrow> goes w0 (evictTxLocked e w)" "goes w0 w \<Longrightarrow> goes w0 (evictNoncesLocked e w)"
  unfolding evictTxLocked_def evictNoncesLocked_def now_def Let_def prod.case by (rule goes_view; simp)+

lemma goes_storeTx: "goes w0 w \<Longrightarrow> goes w0 (storeTxLocked e key remote raw w)"
  by (auto simp: storeTxLocked_def now_def Let_def intro!: goes_evict goes_put split: option.split)

lemma goes_remember: "orderly e \<Longrightarrow> goes w0 w \<Longrightarrow> goes w0 (remember e msg remote raw w)"
  by (auto simp: remember_def intro!: goes_storeTx goes_lock split: option.split)

lemma goes_resend: "orderly e \<Longrightarrow> goes w0 w \<Longrightarrow> goes w0 (snd (resendCached e msg remote w))"
  by (auto simp: resendCached_def Let_def intro!: goes_writeTo goes_lock split: option.split)

lemma steps_reply: "orderly e \<Longrightarrow> goes w0 w \<Longrightarrow> steps w0 (\<lambda>w. w) (sip_reply e msg remote code reason extra w)"
  by (auto simp: sip_reply_def steps_def res_simps intro!: goes_writeTo goes_remember)

lemma steps_refused: "steps w0 (\<lambda>w. w) r \<Longrightarrow> steps w0 snd (refused r)"
  by (auto simp: refused_def steps_def res_simps)

lemma steps_forbidden: "orderly e \<Longrightarrow> goes w0 w \<Longrightarrow> steps w0 snd (forbidden e msg remote w)"
  unfolding forbidden_def by (intro steps_refused steps_reply)

lemma goes_nonce_bytes: "goes w0 w \<Longrightarrow> goes w0 (snd (nonce_bytes e w))"
  by (auto simp: nonce_bytes_def now_def split: option.split)

lemma goes_insert_nonce: "goes w0 w \<Longrightarrow> goes w0 (insert_nonce e remote v w)"
  by (auto simp: insert_nonce_def now_def Let_def intro!: goes_evict goes_emit goes_put)

lemma goes_new_nonce: "goes w0 w \<Longrightarrow> goes w0 (snd (new_nonce e remote w))"
  using goes_nonce_bytes [of w0 w e] by (auto simp: new_nonce_def Let_def intro!: goes_insert_nonce split: prod.split)

lemma goes_fresh: "orderly e \<Longrightarrow> goes w0 w \<Longrightarrow> goes w0 (snd (freshNonce e remote forceNew w))"
  by (auto simp: freshNonce_def Let_def reusableNonceLocked_def now_def intro!: goes_new_nonce goes_lock split: option.split)

lemma steps_challenge: "orderly e \<Longrightarrow> goes w0 w \<Longrightarrow> steps w0 (\<lambda>w. w) (challenge e msg remote stale w)"
  using goes_fresh [of e w0 w remote stale] by (auto simp: challenge_def Let_def intro!: steps_reply split: prod.split)

lemmas steps_refusal = steps_refused [OF steps_challenge] steps_forbidden

lemma steps_commit: "orderly e \<Longrightarrow> goes w0 w \<Longrightarrow> steps w0 snd (commitNonce e msg remote creds n w)"
  by (auto simp: commitNonce_def Let_def now_def intro!: steps_refusal goes_emit goes_put goes_lock split: option.split)

lemma steps_check: "orderly e \<Longrightarrow> goes w0 w \<Longrightarrow> steps w0 snd (check_credentials e msg remote creds w)"
  by (auto simp: check_credentials_def Let_def now_def intro!: steps_refusal steps_commit goes_lock split: option.split)

lemma steps_authenticate: "orderly e \<Longrightarrow> goes w0 w \<Longrightarrow> steps w0 snd (authenticate e msg remote w)"
  by (auto simp: authenticate_def intro!: steps_refusal steps_check split: option.split sum.split)

lemma goes_registeredPeer: "orderly e \<Longrightarrow> goes w0 w \<Longrightarrow> goes w0 (snd (registeredPeer e remote w))"
  by (auto simp: registeredPeer_def Let_def now_def intro!: goes_lock split: option.split)

lemma steps_pair:
  assumes "steps w snd m" "\<And>a w'. m = Inr (a, w') \<Longrightarrow> goes w w' \<Longrightarrow> steps w g (k a w')"
  shows "steps w g (rbind m (\<lambda>(a, w). k a w))"
  using assms by (auto simp: steps_def res_simps)

lemma resend_pair:
  "orderly e \<Longrightarrow> goes w0 w \<Longrightarrow> resendCached e msg remote w = (answered, w') \<Longrightarrow> goes w0 w'"
  using goes_resend [of e w0 w msg remote] by simp

lemma registered_pair:
  "orderly e \<Longrightarrow> goes w0 w \<Longrightarrow> registeredPeer e remote w = (registered, w') \<Longrightarrow> goes w0 w'"
  using goes_registeredPeer [of e w0 w remote] by simp

lemma goes_bind_peer: "orderly e \<Longrightarrow> goes w0 w \<Longrightarrow> goes w0 (bind_peer e remote contact target n w)"
  by (auto simp: bind_peer_def now_def Let_def intro!: goes_emit goes_view goes_lock)

lemma steps_apply_register: "orderly e \<Longrightarrow> goes w0 w \<Longrightarrow> steps w0 (\<lambda>w. w) (apply_register e msg remote w)"
  by (auto simp: apply_register_def Let_def steps_def res_simps rbind_Inr_iff dest!: steps_reply [unfolded steps_def, rule_format, rotated 2]
     intro: goes_bind_peer split: if_splits)

lemma steps_register: "orderly e \<Longrightarrow> goes w0 w \<Longrightarrow> steps w0 (\<lambda>w. w) (handleRegister e msg remote w)"
  by (auto simp: handleRegister_def Let_def intro!: steps_reply steps_pair steps_authenticate steps_apply_register
      dest: resend_pair split: prod.split)

lemma steps_admission: "orderly e \<Longrightarrow> goes w0 w \<Longrightarrow> steps w0 snd (invite_admission e msg remote w)"
  by (auto simp: invite_admission_def Let_def intro!: steps_refused steps_reply steps_pair steps_authenticate steps_forbidden
      dest: resend_pair registered_pair split: prod.split)

lemma steps_once: "orderly e \<Longrightarrow> goes w0 w \<Longrightarrow> steps w0 snd (reply_once e msg remote code reason w)"
  by (auto simp: reply_once_def Let_def intro!: steps_reply steps_bind dest: resend_pair split: prod.split)

lemma steps_message: "orderly e \<Longrightarrow> goes w0 w \<Longrightarrow> steps w0 snd (handleMessage e msg remote w)"
  by (auto simp: handleMessage_def intro!: steps_register steps_once steps_bind)

subsection \<open>Steps of a session\<close>

lemma view_on_session:
  "view (sw_server (on_session i f w))
   = ((map core (sv_store (sw_server w)))[i := core (f (sess w i))], sv_log (sw_server w))"
  by (simp add: on_session_def view_def sess_def map_update)

lemma view_log_call: "view (sw_server (log_call ev w)) = (fst (view (sw_server w)), snd (view (sw_server w)) @ [ev])"
  by (simp add: log_call_def view_def)

lemma sessions_kept [simp]:
  "sv_sessions (sw_server (on_session i f w)) = sv_sessions (sw_server w)"
  "length (sv_store (sw_server (on_session i f w))) = length (sv_store (sw_server w))"
  "sv_sessions (sw_server (log_call ev w)) = sv_sessions (sw_server w)"
  "sv_store (sw_server (log_call ev w)) = sv_store (sw_server w)"
  "sv_log (sw_server (on_session i f w)) = sv_log (sw_server w)"
  "sv_log (sw_server (log_call ev w)) = sv_log (sw_server w) @ [ev]"
  by (simp_all add: on_session_def log_call_def)

lemma indexed_kept [simp]: "indexed (sw_server (on_session i f w)) = indexed (sw_server w)"
  "indexed (sw_server (log_call ev w)) = indexed (sw_server w)"
  by (simp_all add: indexed_def)

lemma goes_step:
  assumes "goes w0 w" "protocol (view (sw_server w)) (view (sw_server w'))" "indexed (sw_server w) \<Longrightarrow> indexed (sw_server w')"
  shows "goes w0 w'"
proof -
  from assms(2,3) have "goes w w'" by (auto simp: goes_def call_step_def)
  with assms(1) show ?thesis by (rule goes_trans)
qed

lemma goes_quiet: "goes w0 w \<Longrightarrow> core (f (sess w i)) = core (sess w i) \<Longrightarrow> goes w0 (on_session i f w)"
proof -
  assume g: "goes w0 w" and c: "core (f (sess w i)) = core (sess w i)"
  have "(map core (sv_store (sw_server w)))[i := core (sess w i)] = map core (sv_store (sw_server w))"
    by (cases "i < length (sv_store (sw_server w))") (simp_all add: sess_def list_update_same_conv list_update_beyond)
  with c have "view (sw_server (on_session i f w)) = view (sw_server w)" by (simp only: view_on_session) (simp add: view_def)
  with g show ?thesis by (simp add: goes_def call_step_def)
qed

lemma has_session_goes:
  assumes "has_session i w0" "goes w0 w"
  shows "has_session i w"
proof -
  from assms(2) have p: "protocol\<^sup>*\<^sup>* (view (sw_server w0)) (view (sw_server w))" "indexed (sw_server w0) \<longrightarrow> indexed (sw_server w)"
    by (simp_all add: goes_def call_step_def)
  from path_grows [OF p(1)] have "length (sv_store (sw_server w0)) \<le> length (sv_store (sw_server w))"
    by (simp add: grows_def view_def)
  with assms(1) p path_inv [OF p(1)] show ?thesis by (auto simp: has_session_def)
qed

lemma session_kept:
  assumes "has_session i w0" "goes w0 w"
  shows "kept (core (sess w0 i)) (core (sess w i))"
proof -
  from assms(2) have "grows (view (sw_server w0)) (view (sw_server w))" by (auto simp: goes_def call_step_def intro: path_grows)
  moreover from has_session_goes [OF assms] have "i < length (sv_store (sw_server w))" by (simp add: has_session_def)
  ultimately show ?thesis using assms(1) by (auto simp: grows_def view_def has_session_def sess_def)
qed

lemma log_kept: "goes w0 w \<Longrightarrow> ev \<in> set (sv_log (sw_server w0)) \<Longrightarrow> ev \<in> set (sv_log (sw_server w))"
  by (auto simp: goes_def call_step_def view_def dest!: path_grows grows_events)

text \<open>What the invariant says of a session.\<close>

lemma session_inv:
  assumes "has_session i w0" "goes w0 w"
  shows "core_ok (sv_log (sw_server w)) i (core (sess w i))"
  using has_session_goes [OF assms] calls_inv_core [of "map core (sv_store (sw_server w))" "sv_log (sw_server w)" i]
  by (simp add: has_session_def view_def sess_def)

text \<open>The steps of the protocol.\<close>

lemma view_nth: "has_session i w \<Longrightarrow> map core (sv_store (sw_server w)) ! i = core (sess w i) \<and> i < length (map core (sv_store (sw_server w)))"
  by (simp add: has_session_def sess_def)

lemma goes_update:
  assumes "has_session i w0" "goes w0 w"
    and p: "\<And>cs l. i < length cs \<Longrightarrow> cs ! i = core (sess w i) \<Longrightarrow> l = sv_log (sw_server w) \<Longrightarrow> protocol (cs, l) (cs[i := core (f (sess w i))], l @ evs)"
    and s: "view (sw_server w') = (fst (view (sw_server (on_session i f w))), sv_log (sw_server w) @ evs)"
      "indexed (sw_server w') = indexed (sw_server w)"
  shows "goes w0 w'"
proof (rule goes_step [OF assms(2)])
  show "protocol (view (sw_server w)) (view (sw_server w'))"
    using p [of "map core (sv_store (sw_server w))" "sv_log (sw_server w)"] view_nth [OF has_session_goes [OF assms(1,2)]]
    unfolding s(1) view_on_session by (simp add: view_def)
qed (simp add: s(2))

lemma goes_quietly:
  assumes "has_session i w0" "goes w0 w"
    and "\<And>cs l. i < length cs \<Longrightarrow> cs ! i = core (sess w i) \<Longrightarrow> l = sv_log (sw_server w) \<Longrightarrow> protocol (cs, l) (cs[i := core (f (sess w i))], l)"
  shows "goes w0 (on_session i f w)"
  using assms(3) by (intro goes_update [OF assms(1,2), of f "[]"]) (simp_all add: view_on_session)

lemma goes_noting:
  assumes "has_session i w0" "goes w0 w"
    and "\<And>cs l. i < length cs \<Longrightarrow> cs ! i = core (sess w i) \<Longrightarrow> l = sv_log (sw_server w) \<Longrightarrow> protocol (cs, l) (cs[i := core (f (sess w i))], l @ [ev])"
  shows "goes w0 (log_call ev (on_session i f w))"
  using assms(3) by (intro goes_update [OF assms(1,2), of f "[ev]"]) (simp_all add: view_on_session view_log_call)

text \<open>The rules of the protocol for the session itself.\<close>

lemma protocol_session:
  assumes "i < length cs" "cs ! i = c"
  shows "cc_reason c = NoReason \<Longrightarrow> c' = c\<lparr>cc_reason := r\<rparr> \<Longrightarrow> protocol (cs, l) (cs[i := c'], l)"
    and "\<not> cc_final c \<Longrightarrow> 400 \<le> code \<or> cc_reason c = NoReason \<and> cc_direction c = Outbound \<and> cc_backend c \<noteq> [] \<Longrightarrow> c' = c\<lparr>cc_final := True\<rparr>
         \<Longrightarrow> protocol (cs, l) (cs[i := c'], l @ [Final i code])"
    and "\<not> cc_bye c \<Longrightarrow> cc_direction c = Outbound \<or> cc_acked c \<Longrightarrow> c' = c\<lparr>cc_bye := True\<rparr>
         \<Longrightarrow> protocol (cs, l) (cs[i := c'], l @ [ByeOut i])"
    and "AckOut i \<in> set l \<Longrightarrow> c' = c\<lparr>cc_acked := True\<rparr> \<Longrightarrow> protocol (cs, l) (cs[i := c'], l)"
    and "PhoneAccepted i \<in> set l \<Longrightarrow> c' = c\<lparr>cc_proceed := True\<rparr> \<Longrightarrow> protocol (cs, l) (cs[i := c'], l)"
    and "c' = c\<lparr>cc_proceed := False\<rparr> \<Longrightarrow> protocol (cs, l) (cs[i := c'], l)"
    and "cc_direction c = Inbound \<Longrightarrow> \<not> cc_accepted c \<Longrightarrow> cc_reason c = NoReason \<Longrightarrow> c' = c\<lparr>cc_accepted := True\<rparr>
         \<Longrightarrow> protocol (cs, l) (cs[i := c'], l @ [PhoneAccepted i])"
    and "cc_direction c = Outbound \<Longrightarrow> Dialled i ident \<in> set l \<Longrightarrow> ident \<noteq> [] \<Longrightarrow> c' = c\<lparr>cc_backend := ident\<rparr>
         \<Longrightarrow> protocol (cs, l) (cs[i := c'], l)"
  using assms by (auto intro: protocol.intros)

lemma goes_over:
  assumes "has_session i w0" "goes w0 w" "ss_endReason (sess w i) = NoReason" "core (f (sess w i)) = (core (sess w i))\<lparr>cc_reason := r\<rparr>"
  shows "goes w0 (on_session i f w)"
  using assms(3) by (intro goes_quietly [OF assms(1,2)] protocol_session(1) [OF _ _ _ assms(4)]) (simp_all add: core_def)

text \<open>The session of an outgoing call that has a call of the backend: it may be answered.\<close>

definition connected :: "nat \<Rightarrow> sipWorld \<Rightarrow> bool" where
  "connected i w \<longleftrightarrow> ss_direction (sess w i) = Outbound \<and> ss_backendID (sess w i) \<noteq> []"

lemma connected_goes: "connected i w \<Longrightarrow> has_session i w \<Longrightarrow> goes w w' \<Longrightarrow> connected i w'"
  by (drule (1) session_kept) (simp add: connected_def kept_def core_def)

lemma goes_decide:
  assumes "has_session i w0" "goes w0 w" "\<not> ss_finalSent (sess w i)"
    "400 \<le> code \<or> ss_endReason (sess w i) = NoReason \<and> connected i w"
  shows "goes w0 (decide_final i code w)"
  unfolding decide_final_def
  using assms(3,4)
  by (intro goes_noting [OF assms(1,2)] protocol_session(2) [where c = "core (sess w i)"]) (simp_all add: core_def connected_def)

lemma goes_bye:
  assumes "has_session i w0" "goes w0 w" "\<not> ss_byeSent (sess w i)" "ss_direction (sess w i) = Inbound \<longrightarrow> ss_ackSent (sess w i)"
    and "core (f (sess w i)) = (core (sess w i))\<lparr>cc_bye := True\<rparr>"
  shows "goes w0 (log_call (ByeOut i) (on_session i f w))"
proof -
  have "ss_direction (sess w i) = Outbound \<or> ss_ackSent (sess w i)" using assms(4) by (cases "ss_direction (sess w i)") simp_all
  with assms(3) show ?thesis
    by (intro goes_noting [OF assms(1,2)] protocol_session(3) [OF _ _ _ _ assms(5)]) (simp_all add: core_def)
qed

lemma goes_acked:
  assumes "has_session i w0" "goes w0 w" "AckOut i \<in> set (sv_log (sw_server w))"
  shows "goes w0 (on_session i (\<lambda>c. c\<lparr>ss_ackSent := True\<rparr>) w)"
  using assms(3) by (intro goes_quietly [OF assms(1,2)] protocol_session(4) [where c = "core (sess w i)"]) (simp_all add: core_def)

lemma goes_proceeds:
  assumes "has_session i w0" "goes w0 w" "PhoneAccepted i \<in> set (sv_log (sw_server w))"
  shows "goes w0 (on_session i (\<lambda>c. c\<lparr>ss_proceed := True\<rparr>) w)"
  using assms(3) by (intro goes_quietly [OF assms(1,2)] protocol_session(5) [where c = "core (sess w i)"]) (simp_all add: core_def)

lemma goes_taken:
  assumes "has_session i w0" "goes w0 w"
  shows "goes w0 (on_session i (\<lambda>c. c\<lparr>ss_proceed := False\<rparr>) w)"
  by (intro goes_quietly [OF assms] protocol_session(6) [where c = "core (sess w i)"]) (simp_all add: core_def)

lemma goes_accepted:
  assumes "has_session i w0" "goes w0 w" "ss_direction (sess w i) = Inbound" "\<not> ss_answerStarted (sess w i)"
    "ss_endReason (sess w i) = NoReason" "core (f (sess w i)) = (core (sess w i))\<lparr>cc_accepted := True\<rparr>"
  shows "goes w0 (log_call (PhoneAccepted i) (on_session i f w))"
  using assms(3-5)
  by (intro goes_noting [OF assms(1,2)] protocol_session(7) [OF _ _ _ _ _ assms(6)]) (simp_all add: core_def)

lemma goes_bound:
  assumes "has_session i w0" "goes w0 w" "ss_direction (sess w i) = Outbound" "Dialled i ident \<in> set (sv_log (sw_server w))" "ident \<noteq> []"
  shows "goes w0 (bind_backend i ident w)"
proof -
  let ?w = "on_session i (\<lambda>c. c\<lparr>ss_backendID := ident\<rparr>) w"
  have "goes w0 ?w"
    using assms(3-5) by (intro goes_quietly [OF assms(1,2)] protocol_session(8) [where c = "core (sess w i)"]) (simp_all add: core_def)
  then show ?thesis unfolding bind_backend_def by (rule goes_view) simp_all
qed

lemma goes_ack_out: "goes w0 w \<Longrightarrow> goes w0 (log_call (AckOut i) w)"
  by (rule goes_step) (auto simp: view_log_call view_def intro: protocol.ack_out)

lemma goes_dialled: "goes w0 w \<Longrightarrow> goes w0 (log_call (Dialled i ident) w)"
  by (rule goes_step) (auto simp: view_log_call view_def intro: protocol.dialled)

lemma goes_answer: "goes w0 w \<Longrightarrow> PhoneAccepted i \<in> set (sv_log (sw_server w)) \<Longrightarrow> goes w0 (log_call (AnswerCall i) w)"
  by (rule goes_step) (auto simp: view_log_call view_def intro: protocol.answered)

lemma goes_hangup:
  assumes "orderly e" "goes w0 w" "hangable ident (view (sw_server w))"
  shows "goes w0 (hangupCall e ident w)"
proof -
  have l: "goes w0 (lock e w)" "goes w (lock e w)" using assms(1,2) by (simp_all add: goes_lock)
  then have "grows (view (sw_server w)) (view (sw_server (lock e w)))" by (auto simp: goes_def call_step_def intro: path_grows)
  with assms(3) have h: "hangable ident (view (sw_server (lock e w)))" by (cases "view (sw_server w)"; cases "view (sw_server (lock e w))") (auto intro: hangable_grows)
  have "goes w0 (log_call (HangupCall ident) (on_server (\<lambda>s. s\<lparr>sv_hung := hung\<rparr>) (lock e w)))" for hung
  proof (rule goes_step [OF l(1)])
    show "protocol (view (sw_server (lock e w)))
        (view (sw_server (log_call (HangupCall ident) (on_server (\<lambda>s. s\<lparr>sv_hung := hung\<rparr>) (lock e w)))))"
      using protocol.hung [of ident "fst (view (sw_server (lock e w)))" "snd (view (sw_server (lock e w)))"] h
      by (simp add: view_log_call)
  qed (simp add: indexed_def)
  with l show ?thesis using assms(2) by (simp add: hangupCall_def Let_def)
qed

subsection \<open>Sending\<close>

lemma steps_pure: "(\<And>x. m = Inr x \<Longrightarrow> steps w g (k x)) \<Longrightarrow> steps w g (rbind m k)"
  by (auto simp: steps_def res_simps)

lemma steps_after: "goes w0 w \<Longrightarrow> steps w f m \<Longrightarrow> steps w0 f m"
  by (auto simp: steps_def intro: goes_trans)

lemmas steps_world = steps_bind [where f = "\<lambda>w. w"]

lemma goes_noteReason:
  "orderly e \<Longrightarrow> has_session i w0 \<Longrightarrow> goes w0 w \<Longrightarrow> goes w0 (noteReason e i r w)"
  by (auto simp: noteReason_def Let_def core_def intro!: goes_lock goes_over)

lemma goes_reason_of: "orderly e \<Longrightarrow> goes w0 w \<Longrightarrow> reason_of e i w = (r, w') \<Longrightarrow> goes w0 w'"
  by (auto simp: reason_of_def Let_def intro: goes_lock)

lemma goes_cancelSession: "orderly e \<Longrightarrow> goes w0 w \<Longrightarrow> goes w0 (cancelSession e i w)"
  unfolding cancelSession_def by (rule goes_quiet) (simp_all add: goes_lock core_def)

lemma goes_stop_session: "orderly e \<Longrightarrow> has_session i w0 \<Longrightarrow> goes w0 w \<Longrightarrow> goes w0 (stop_session e i r w)"
  by (simp add: stop_session_def goes_cancelSession goes_noteReason)

lemma steps_randomHex: "goes w0 w \<Longrightarrow> steps w0 snd (randomHex e n w)"
  by (auto simp: randomHex_def now_def Let_def split: option.split)

lemma steps_random:
  "goes w0 w \<Longrightarrow> (\<And>v w'. goes w0 w' \<Longrightarrow> steps w0 g (k v w')) \<Longrightarrow> steps w0 g (rbind (randomHex e n w) (\<lambda>(v, w). k v w))"
  by (rule steps_pair [OF steps_randomHex])

lemmas steps_texts =
  steps_pure [where m = "buildDialogRequestLocked U s c name cseq branch uri" for U s c name cseq branch uri]
  steps_pure [where m = "renderInviteResponse U s c code reason extra body" for U s c code reason extra body]
  steps_pure [where m = "buildInviteLocked U s c" for U s c]
  steps_pure [where m = "ensureTag U v tag" for U v tag]

lemma goes_store_response: "goes w0 w \<Longrightarrow> goes w0 (store_response e i raw w)"
proof -
  assume "goes w0 w"
  then have "goes w0 (on_session i (\<lambda>c. c\<lparr>ss_lastResp := raw\<rparr>) w)" by (rule goes_quiet) (simp add: core_def)
  then show ?thesis by (auto simp: store_response_def Let_def now_def intro!: goes_put goes_storeTx split: option.split)
qed

lemma goes_confirm: "goes w0 w \<Longrightarrow> goes w0 (confirm_dialog e i w)"
  unfolding confirm_dialog_def now_def Let_def prod.case by (rule goes_quiet) (simp_all add: core_def)

lemma steps_sendSession:
  assumes "orderly e" "has_session i w0" "goes w0 w" "\<not> final \<or> 400 \<le> code \<or> connected i w"
  shows "steps w0 snd (sendSession e i code reason extra body final w)"
proof -
  let ?w = "lock e w"
  have g: "goes w0 ?w" using assms by (simp add: goes_lock)
  have "goes w0 (if final then decide_final i code ?w else ?w)"
    if "\<not> (final \<and> (ss_finalSent (sess ?w i) \<or> ss_dead (sess ?w i) \<or> ss_endReason (sess ?w i) = EndCancel))"
      "\<not> (final \<and> ss_endReason (sess ?w i) \<noteq> NoReason \<and> code < 400)"
  proof (cases final)
    case True
    have "connected i w \<Longrightarrow> connected i ?w"
      using connected_goes [OF _ has_session_goes [OF assms(2,3)] goes_lock [OF assms(1) goes_refl]] .
    with True that assms(4) show ?thesis using goes_decide [OF assms(2) g, of code] by auto
  qed (simp add: g)
  then show ?thesis
    using g by (cases final)
      (auto simp: sendSession_def Let_def intro!: steps_pure goes_writeTo goes_store_response goes_confirm)
qed

lemma steps_sendProgress:
  "orderly e \<Longrightarrow> has_session i w0 \<Longrightarrow> goes w0 w \<Longrightarrow> steps w0 snd (sendProgress e i code reason w)"
  unfolding sendProgress_def by (rule steps_sendSession) simp_all

lemma steps_sendFinal:
  "orderly e \<Longrightarrow> has_session i w0 \<Longrightarrow> goes w0 w \<Longrightarrow> 400 \<le> code \<or> connected i w
   \<Longrightarrow> steps w0 snd (sendFinal e i code reason w)"
  unfolding sendFinal_def Let_def by (rule steps_sendSession) simp_all

lemma steps_fail_with:
  "orderly e \<Longrightarrow> has_session i w0 \<Longrightarrow> goes w0 w \<Longrightarrow> 400 \<le> code \<Longrightarrow> steps w0 (\<lambda>w. w) (fail_with e i code reason r w)"
  unfolding fail_with_def by (intro steps_pair [OF steps_sendFinal]) (simp_all add: goes_noteReason)

lemma steps_send487: "orderly e \<Longrightarrow> goes w0 w \<Longrightarrow> steps w0 (\<lambda>w. w) (send487 e i w)"
  by (auto simp: send487_def Let_def intro!: steps_pure goes_writeTo goes_store_response goes_lock)

lemma steps_sendBYE:
  assumes "orderly e" "has_session i w0" "goes w0 w"
  shows "steps w0 (\<lambda>w. w) (sendBYE e i w)"
proof -
  let ?w = "lock e w" and ?c = "sess (lock e w) i"
  have g: "goes w0 ?w" using assms by (simp add: goes_lock)
  have pending: "goes w0 (on_session i (\<lambda>c. c\<lparr>ss_pendingBye := True\<rparr>) ?w)" by (rule goes_quiet [OF g]) (simp add: core_def)
  have bye: "goes w0 (log_call (ByeOut i) (on_session i (\<lambda>c. c\<lparr>ss_byeSent := True, ss_nextCSeq := n\<rparr>) ?w))"
    if "\<not> (ss_direction ?c = Inbound \<and> \<not> ss_ackSent ?c)" "\<not> ss_byeSent ?c" for n
    using that by (intro goes_bye [OF assms(2) g]) (simp_all add: core_def)
  show ?thesis
    unfolding sendBYE_def Let_def
    using g pending bye by (auto intro!: steps_random steps_texts goes_writeTo)
qed

lemma steps_sendAck:
  assumes "orderly e" "has_session i w0" "goes w0 w"
  shows "steps w0 (\<lambda>w. w) (sendAck e i non2xx w)"
proof -
  have acked: "goes w0 (on_session i (\<lambda>c. c\<lparr>ss_ackSent := True\<rparr>) (lock e (log_call (AckOut i) w1)))" if "goes w0 w1" for w1
  proof -
    have g: "goes w0 (log_call (AckOut i) w1)" using that by (rule goes_ack_out)
    have "AckOut i \<in> set (sv_log (sw_server (log_call (AckOut i) w1)))" by simp
    then have "AckOut i \<in> set (sv_log (sw_server (lock e (log_call (AckOut i) w1))))"
      by (rule log_kept [OF goes_lock [OF assms(1) goes_refl]])
    with g assms show ?thesis by (intro goes_acked) (simp_all add: goes_lock)
  qed
  have rest: "steps w0 (\<lambda>w. w) (if b then sendBYE e i w2 else Inr w2)" if "goes w0 w2" for b w2
    using that steps_sendBYE [OF assms(1,2)] by simp
  have g: "goes w0 (writeTo a raw w1)" "goes w0 (lock e (writeTo a raw w1))" if "goes w0 w1" for a raw w1
    using that assms(1) by (simp_all add: goes_writeTo goes_lock)
  show ?thesis
    unfolding sendAck_def Let_def
  proof (rule steps_random [OF goes_lock [OF assms(1,3)]], rule steps_texts(1))
    fix branch w1 raw
    assume w1: "goes w0 w1"
    let ?a = "cloneAddr (ss_peer (sess w1 i))"
    let ?w2 = "if non2xx then lock e (if non2xx then writeTo ?a raw w1 else log_call (AckOut i) (writeTo ?a raw w1))
      else on_session i (\<lambda>c. c\<lparr>ss_ackSent := True\<rparr>)
        (lock e (if non2xx then writeTo ?a raw w1 else log_call (AckOut i) (writeTo ?a raw w1)))"
    have "goes w0 ?w2" using g [OF w1] acked by (cases non2xx) simp_all
    from rest [OF this] show "steps w0 (\<lambda>w. w)
        (if ss_pendingBye (sess ?w2 i) \<and> ss_ackSent (sess ?w2 i) then sendBYE e i ?w2 else Inr ?w2)" .
  qed
qed

lemma steps_sendCancel:
  assumes "orderly e" "goes w0 w"
  shows "steps w0 (\<lambda>w. w) (sendCancel e i w)"
proof -
  have "goes w0 (on_session i (\<lambda>c. c\<lparr>ss_cancelSent := True\<rparr>) (lock e w))"
    by (rule goes_quiet [OF goes_lock [OF assms]]) (simp add: core_def)
  then show ?thesis
    unfolding sendCancel_def Let_def using assms by (auto intro!: steps_pure goes_writeTo goes_lock)
qed

lemma steps_cancelUnanswered:
  assumes "orderly e" "has_session i w0" "goes w0 w"
  shows "steps w0 (\<lambda>w. w) (cancelUnanswered e i r w)"
proof -
  have g: "goes w0 (lock e w)" using assms by (simp add: goes_lock)
  have "goes w0 (on_session i (\<lambda>c. c\<lparr>ss_endReason := r\<rparr>) (lock e w))" if "ss_endReason (sess (lock e w) i) = NoReason"
    using that by (intro goes_over [OF assms(2) g]) (simp_all add: core_def)
  then show ?thesis
    unfolding cancelUnanswered_def Let_def
    using g assms(1) by (auto intro!: steps_world steps_sendCancel goes_cancelSession)
qed

subsection \<open>The end of a session\<close>

lemma hangable_session:
  assumes "has_session i w0" "goes w0 w" "ss_backendID (sess w i) \<noteq> []"
    and "ss_direction (sess w i) = Outbound \<or> ss_endReason (sess w i) \<notin> {NoReason, EndExternal, EndRemoteGone}"
  shows "hangable (ss_backendID (sess w i)) (view (sw_server w))"
proof (cases "ss_direction (sess w i)")
  case Outbound
  with session_inv [OF assms(1,2)] assms(3) have "Dialled i (ss_backendID (sess w i)) \<in> set (sv_log (sw_server w))"
    by (simp add: core_ok_def core_def)
  then show ?thesis by (auto simp: hangable_def view_def)
next
  case Inbound
  with assms(4) view_nth [OF has_session_goes [OF assms(1,2)]] show ?thesis
    unfolding hangable_def view_def prod.case by (intro disjI2 exI [of _ i]) (simp add: core_def)
qed

lemma hangable_dialled: "Dialled i ident \<in> set (sv_log (sw_server w)) \<Longrightarrow> hangable ident (view (sw_server w))"
  by (auto simp: hangable_def view_def)

lemma sess_on_session [simp]: "i < length (sv_store (sw_server w)) \<Longrightarrow> sess (on_session i f w) i = f (sess w i)"
  by (simp add: sess_def on_session_def)

lemma server_lookupCall: "sw_server (snd (lookupCall U b ident w)) = sw_server w"
  by (auto simp: lookupCall_def backendCalls_def observe_def Let_def)

lemma server_lookupState: "sw_server (snd (lookupState U b ident w)) = sw_server w"
  using server_lookupCall [of U b ident w]
  by (auto simp: lookupState_def split: prod.splits option.splits)

lemma sess_same: "sw_server w' = sw_server w \<Longrightarrow> sess w' i = sess w i"
  by (simp add: sess_def)

lemma goes_close:
  assumes "orderly e" "has_session i w0" "goes w0 w"
  shows "goes w0 (close_session e i w)" "ss_endReason (sess (close_session e i w) i) \<noteq> NoReason"
proof -
  let ?w = "on_server (\<lambda>s. s\<lparr>sv_rtpSess := (if sv_rtpSess s = Some i then None else sv_rtpSess s)\<rparr>) (lock e w)"
  let ?w1 = "?w\<lparr>sw_ticks := sw_ticks ?w + 1\<rparr>"
  let ?r = "if ss_endReason (sess ?w i) \<noteq> NoReason then ss_endReason (sess ?w i)
     else if sv_ended (sw_server ?w) then EndShutdown else EndFailed"
  let ?f = "\<lambda>t c. c\<lparr>ss_release := False, ss_media := False, ss_mediaOn := False, ss_endReason := ?r, ss_dead := True, ss_deadAt := t\<rparr>"
  have same: "sess ?w1 i = sess ?w i" by (rule sess_same) simp
  have g: "goes w0 ?w1" using goes_view [OF goes_lock [OF assms(1,3)]] by simp
  from has_session_goes [OF assms(2) this] have len: "i < length (sv_store (sw_server ?w1))" by (simp add: has_session_def)
  have e: "close_session e i w = on_session i (?f (se_clock e (sw_ticks ?w))) ?w1"
    by (simp add: close_session_def now_def Let_def)
  show "goes w0 (close_session e i w)"
  proof (cases "ss_endReason (sess ?w i) = NoReason")
    case True
    then show ?thesis
      unfolding e by (intro goes_over [OF assms(2) g, where r = ?r]) (simp_all only: same, simp_all add: core_def)
  next
    case False
    then show ?thesis unfolding e by (intro goes_quiet [OF g]) (simp only: same, simp add: core_def)
  qed
  show "ss_endReason (sess (close_session e i w) i) \<noteq> NoReason"
    unfolding e sess_on_session [OF len] by simp
qed

lemma server_still_ringing: "sw_server (snd (still_ringing U b ident w)) = sw_server w"
  using server_lookupState [of U b ident w] by (auto simp: still_ringing_def split: prod.split)

lemma steps_finish:
  assumes "orderly e" "has_session i w0" "goes w0 w"
  shows "steps w0 (\<lambda>w. w) (finishSession e b i w)"
proof -
  let ?w1 = "on_session i (\<lambda>c. c\<lparr>ss_finished := True, ss_cancelled := True\<rparr>) (lock e w)"
  let ?w2 = "close_session e i ?w1"
  let ?c = "sess ?w2 i"
  have g: "goes w0 (lock e w)" using assms by (simp add: goes_lock)
  have "goes w0 ?w1" by (rule goes_quiet [OF g]) (simp add: core_def)
  then have g2: "goes w0 ?w2" and r: "ss_endReason ?c \<noteq> NoReason" using goes_close [OF assms(1,2)] by blast+
  obtain ringing w3 where l: "still_ringing (se_unicode e) b (ss_backendID ?c) ?w2 = (ringing, w3)" by fastforce
  then have s: "sw_server w3 = sw_server ?w2" using server_still_ringing [of "se_unicode e" b "ss_backendID ?c" ?w2] by simp
  have "hangable (ss_backendID ?c) (view (sw_server w3))"
    if "ss_backendID ?c \<noteq> []" "shouldHangup (ss_direction ?c) (ss_ownAnswered ?c) (ss_endReason ?c) ringing"
  proof -
    from that(2) r have "ss_endReason ?c \<notin> {NoReason, EndExternal, EndRemoteGone}" by (auto split: if_splits)
    with hangable_session [OF assms(2) g2 that(1)] s show ?thesis by simp
  qed
  with goes_hangup [OF assms(1) goes_same [OF g2 s]] goes_same [OF g2 s]
  have "goes w0 (hang_up_ended e ?c ringing w3)" by (simp add: hang_up_ended_def del: shouldHangup.simps)
  with steps_sendBYE [OF assms(1,2)] g show ?thesis
    unfolding finishSession_def Let_def l prod.case by simp
qed

subsection \<open>Waiting and media\<close>

lemma goes_wait_rounds:
  assumes "wait_rounds e b i deadline w = Some y" "orderly e" "goes w0 w"
  shows "goes w0 (snd y)"
proof -
  have "orderly e \<longrightarrow> goes w0 w \<longrightarrow> goes w0 (snd y)"
  proof (rule wait_rounds.raw_induct [where P = "\<lambda>e b i deadline w y. orderly e \<longrightarrow> goes w0 w \<longrightarrow> goes w0 (snd y)", OF _ assms(1)], intro impI)
    fix rec e b i deadline w y
    assume IH: "\<And>e b i deadline w y. rec e b i deadline w = Some y \<Longrightarrow> orderly e \<longrightarrow> goes w0 w \<longrightarrow> goes w0 (snd y)"
      and body: "(let w = lock e w in
          if ctx_done w i then Some (WaitCancelled, w)
          else let (t, w) = now e w in
            if t > deadline then Some (WaitTimeout, w)
            else let (found, w) = lookupCall (se_unicode e) b (ss_backendID (sess w i)) w in
              case call_readiness (se_unicode e) found of Some r \<Rightarrow> Some (r, w) | None \<Rightarrow> rec e b i deadline w) = Some y"
      and o: "orderly e" and "goes w0 w"
    let ?w = "lock e w"
    let ?w1 = "?w\<lparr>sw_ticks := sw_ticks ?w + 1\<rparr>"
    have g: "goes w0 ?w" using o \<open>goes w0 w\<close> by (rule goes_lock)
    obtain found w2 where l: "lookupCall (se_unicode e) b (ss_backendID (sess ?w1 i)) ?w1 = (found, w2)" by fastforce
    have "goes w0 w2"
      using server_lookupCall [of "se_unicode e" b "ss_backendID (sess ?w1 i)" ?w1] l g by (auto intro: goes_same [of w0 ?w1])
    with IH body o g l show "goes w0 (snd y)" by (auto simp: now_def Let_def split: if_splits option.splits)
  qed
  with assms(2,3) show ?thesis by simp
qed

lemma steps_of_loop: "(\<And>x. m = Some x \<Longrightarrow> goes w (f x)) \<Longrightarrow> steps w f (of_loop m)"
  by (auto simp: steps_def of_loop_def split: option.splits)

lemma steps_waitReady:
  assumes "orderly e" "goes w0 w"
  shows "steps w0 snd (waitReady e b i deadline w)"
proof -
  have "steps w0 snd (of_loop (wait_rounds e b i d (w\<lparr>sw_ticks := k\<rparr>)) :: (sip_err, _) res)"
    "steps w0 snd (of_loop (wait_rounds e b i d w) :: (sip_err, _) res)" for d k
    by (rule steps_of_loop, erule goes_wait_rounds [OF _ assms(1)], use assms(2) in simp)+
  then show ?thesis by (simp add: waitReady_def now_def Let_def split: option.split)
qed

lemma goes_writeRTP: "orderly e \<Longrightarrow> goes w0 w \<Longrightarrow> goes w0 (writeRTP e i payload w)"
proof -
  assume "orderly e" "goes w0 w"
  then have g: "goes w0 (lock e w)" by (rule goes_lock)
  have "goes w0 (on_session i (\<lambda>c. c\<lparr>ss_txSeq := a, ss_txTS := t\<rparr>) (lock e w))" for a t
    by (rule goes_quiet [OF g]) (simp add: core_def)
  with g show ?thesis by (auto simp: writeRTP_def Let_def intro!: goes_writeTo split: option.split)
qed

lemma goes_send_frames: "orderly e \<Longrightarrow> goes w0 w \<Longrightarrow> goes w0 (snd (send_frames e i pending w))"
proof (induction e i pending w rule: send_frames.induct)
  case (1 e i pending w)
  then show ?case by (subst send_frames.simps) (simp add: goes_writeRTP)
qed

lemma goes_pumpDown:
  assumes "pumpDown e b i pending w = Some w'" "orderly e" "goes w0 w"
  shows "goes w0 w'"
proof -
  have "orderly e \<longrightarrow> goes w0 w \<longrightarrow> goes w0 w'"
  proof (rule pumpDown.raw_induct [where P = "\<lambda>e b i pending w w'. orderly e \<longrightarrow> goes w0 w \<longrightarrow> goes w0 w'", OF _ assms(1)], intro impI)
    fix rec e b i pending w w'
    assume IH: "\<And>e b i pending w w'. rec e b i pending w = Some w' \<Longrightarrow> orderly e \<longrightarrow> goes w0 w \<longrightarrow> goes w0 w'"
      and body: "(let (k, w) = observe w in
          case be_ReadPCM b k of
            None \<Rightarrow> Some w
          | Some samples \<Rightarrow> (case send_frames e i (pending @ samples) w of (pending, w) \<Rightarrow> rec e b i pending w)) = Some w'"
      and o: "orderly e" and g: "goes w0 w"
    show "goes w0 w'"
    proof (cases "be_ReadPCM b (sw_ticks w)")
      case None
      with body g show ?thesis by (auto simp: observe_def)
    next
      case (Some samples)
      let ?w1 = "w\<lparr>sw_ticks := sw_ticks w + 1\<rparr>"
      obtain p w2 where s: "send_frames e i (pending @ samples) ?w1 = (p, w2)" by fastforce
      have "goes w0 ?w1" using g by simp
      from goes_send_frames [OF o this, of i "pending @ samples"] s have "goes w0 w2" by simp
      with IH body Some s o show ?thesis by (simp add: observe_def)
    qed
  qed
  with assms(2,3) show ?thesis by simp
qed

lemma goes_open_media: "goes w0 w \<Longrightarrow> goes w0 (open_media i release w)"
proof -
  assume g: "goes w0 w"
  have "goes w0 (on_session i (\<lambda>c. c\<lparr>ss_media := True, ss_release := release, ss_mediaOn := True\<rparr>) w)"
    by (rule goes_quiet [OF g]) (simp add: core_def)
  then show ?thesis unfolding open_media_def by (rule goes_view) simp_all
qed

lemma goes_init_rtp: "goes w0 w \<Longrightarrow> goes w0 (init_rtp e i w)"
  by (auto simp: init_rtp_def randomUint32_def Let_def core_def intro!: goes_quiet)

lemma steps_bridge: "orderly e \<Longrightarrow> goes w0 w \<Longrightarrow> steps w0 snd (bridge e b i w)"
proof -
  assume o: "orderly e" and g: "goes w0 w"
  let ?w = "lock e w"
  have g1: "goes w0 ?w" "goes w0 (lock e (?w\<lparr>sw_ticks := k\<rparr>))" for k using o g by (simp_all add: goes_lock)
  have pump: "steps w0 snd (rbind (of_loop (pumpDown e b i [] (init_rtp e i (open_media i release w1))))
      (\<lambda>w. Inr (if ctx_done (lock e w) i then Some canceled_error else None, lock e w)))" if "goes w0 w1" for release w1
  proof (rule steps_world [OF steps_of_loop])
    show "goes w0 x" if "pumpDown e b i [] (init_rtp e i (open_media i release w1)) = Some x" for x
      using goes_pumpDown [OF that o] goes_init_rtp [OF goes_open_media [OF \<open>goes w0 w1\<close>]] .
  qed (simp add: goes_lock o)
  show ?thesis
    unfolding bridge_def Let_def using g1 pump by (auto simp: observe_def split: option.split prod.split)
qed

lemma steps_bridge_call: "orderly e \<Longrightarrow> has_session i w0 \<Longrightarrow> goes w0 w \<Longrightarrow> steps w0 (\<lambda>w. w) (bridge_call e b i w)"
  unfolding bridge_call_def
  by (intro steps_pair [OF steps_bridge]) (auto simp: Let_def intro!: goes_noteReason intro: goes_reason_of split: option.split prod.split)

end
