(* ===== verification/Sip_Call_Steps.thy ===== *)
theory Sip_Call_Steps
  imports Sip_Call_Runs
begin

text \<open>
  The goroutines and handlers of calls follow the protocol: the goroutine of an outgoing call and its
  dial, the requests and responses of the phone, incoming calls, the poll loop, and the end of the run.
\<close>

subsection \<open>The goroutine of an outgoing call\<close>

text \<open>The call of a dial is known to the log, unless it has no name.\<close>

definition dial_known :: "backendCall \<Rightarrow> sipWorld \<Rightarrow> bool" where
  "dial_known call w \<longleftrightarrow> bc_ID call = [] \<or> (\<exists>i. Dialled i (bc_ID call) \<in> set (sv_log (sw_server w)))"

lemma dial_known_goes: "dial_known call w \<Longrightarrow> goes w w' \<Longrightarrow> dial_known call w'"
  by (auto simp: dial_known_def dest: log_kept)

lemma goes_dial_returned: "goes w0 w \<Longrightarrow> goes w0 (dial_returned i call w)"
  by (simp add: dial_returned_def goes_dialled)

lemma dial_returned_known: "dial_known call (dial_returned i call w)"
  by (auto simp: dial_known_def dial_returned_def)

lemma goes_hangup_dialled:
  "orderly e \<Longrightarrow> goes w0 w \<Longrightarrow> Dialled i ident \<in> set (sv_log (sw_server w)) \<Longrightarrow> goes w0 (hangupCall e ident w)"
  by (rule goes_hangup) (auto intro: hangable_dialled)

lemma goes_settle: "orderly e \<Longrightarrow> goes w0 w \<Longrightarrow> dial_known call w \<Longrightarrow> goes w0 (settleLateDial e call err w)"
  by (auto simp: settleLateDial_def dial_known_def intro: goes_hangup_dialled)

lemma steps_sendExpired: "orderly e \<Longrightarrow> has_session i w0 \<Longrightarrow> goes w0 w \<Longrightarrow> steps w0 (\<lambda>w. w) (sendExpired e i w)"
  by (auto simp: sendExpired_def Let_def intro!: steps_fail_with dest: goes_reason_of split: prod.split)

lemma steps_failExpired:
  "orderly e \<Longrightarrow> has_session i w0 \<Longrightarrow> goes w0 w \<Longrightarrow> dial_known call w \<Longrightarrow> steps w0 (\<lambda>w. w) (failExpiredDial e i call err w)"
  unfolding failExpiredDial_def by (intro steps_sendExpired goes_settle)

lemma steps_await_ack: "orderly e \<Longrightarrow> has_session i w0 \<Longrightarrow> goes w0 w \<Longrightarrow> steps w0 (\<lambda>w. w) (await_ack e b i w)"
proof -
  assume a: "orderly e" "has_session i w0" "goes w0 w"
  let ?w = "lock e (w\<lparr>sw_ticks := sw_ticks w + 1\<rparr>)"
  have g: "goes w0 ?w" using a by (simp add: goes_lock)
  have "goes w0 (on_session i (\<lambda>c. c\<lparr>ss_ackCh := False\<rparr>) ?w)" by (rule goes_quiet [OF g]) (simp add: core_def)
  with g a show ?thesis
    by (auto simp: await_ack_def observe_def Let_def intro!: steps_bridge_call goes_noteReason split: ack_wait.split)
qed

text \<open>What a goroutine knows about the call it dialled.\<close>

definition dials :: "nat \<Rightarrow> gostring \<Rightarrow> sipWorld \<Rightarrow> bool" where
  "dials i ident w \<longleftrightarrow> Dialled i ident \<in> set (sv_log (sw_server w))"

lemma dials_goes: "dials i ident w \<Longrightarrow> goes w w' \<Longrightarrow> dials i ident w'"
  by (auto simp: dials_def intro: log_kept)

lemma goes_hangup_dials: "orderly e \<Longrightarrow> goes w0 w \<Longrightarrow> dials i ident w \<Longrightarrow> goes w0 (hangupCall e ident w)"
  unfolding dials_def by (rule goes_hangup_dialled)

lemma dials_reason: "orderly e \<Longrightarrow> dials i ident w \<Longrightarrow> reason_of e i w = (r, w') \<Longrightarrow> dials i ident w'"
  by (rule dials_goes) (auto intro: goes_reason_of [OF _ goes_refl])

lemma steps_not_ready:
  "orderly e \<Longrightarrow> has_session i w0 \<Longrightarrow> goes w0 w \<Longrightarrow> dials i ident w \<Longrightarrow> steps w0 (\<lambda>w. w) (not_ready e i ident outcome w)"
  by (auto simp: not_ready_def Let_def intro!: steps_fail_with intro: goes_hangup_dials dials_reason goes_reason_of
      split: prod.split readiness.split)

lemma steps_answer_caller:
  assumes "orderly e" "has_session i w0" "goes w0 w" "dials i ident w" "connected i w"
  shows "steps w0 (\<lambda>w. w) (answer_caller e b i ident w)"
proof -
  obtain r w1 where r: "reason_of e i w = (r, w1)" by fastforce
  from assms r have g1: "goes w0 w1" and d1: "dials i ident w1" by (auto intro: goes_reason_of dials_reason)
  have "steps w0 (\<lambda>w. w) (if \<not> sent then Inr (hangupCall e ident w2) else await_ack e b i w2)"
    if "sendFinal e i 200 ''OK'' w1 = Inr (sent, w2)" for sent w2
  proof -
    have s: "has_session i w1" by (rule has_session_goes [OF assms(2) g1])
    have "connected i w1"
      using connected_goes [OF assms(5) has_session_goes [OF assms(2,3)] goes_reason_of [OF assms(1) goes_refl r]] .
    with steps_sendFinal [OF assms(1) s goes_refl] that have "goes w1 w2" by (force simp: steps_def)
    then have "goes w0 w2" "dials i ident w2" using g1 d1 by (auto intro: goes_trans dials_goes)
    then show ?thesis using assms(1,2) by (simp add: goes_hangup_dials steps_await_ack)
  qed
  then show ?thesis
    unfolding answer_caller_def r Let_def prod.case
    using g1 d1 assms(1) by (auto simp: steps_def res_simps goes_hangup_dials)
qed

lemma steps_dialled_call:
  assumes "orderly e" "has_session i w0" "goes w0 w" "dials i ident w" "ss_direction (sess w i) = Outbound" "ident \<noteq> []"
  shows "steps w0 (\<lambda>w. w) (dialled_call e b i ident deadline w)"
proof -
  have l: "goes w (lock e w)" using assms(1) by (simp add: goes_lock)
  have s: "has_session i w" by (rule has_session_goes [OF assms(2,3)])
  have dir: "ss_direction (sess (lock e w) i) = Outbound" using session_kept [OF s l] assms(5) by (simp add: kept_def core_def)
  let ?w = "bind_backend i ident (lock e w)"
  have g1: "goes w ?w"
    using goes_bound [OF s l dir _ assms(6)] dials_goes [OF assms(4) l] by (simp add: dials_def)
  have "i < length (sv_store (sw_server (lock e w)))" using has_session_goes [OF s l] by (simp add: has_session_def)
  with dir assms(6) have c: "connected i ?w" by (simp add: connected_def bind_backend_def sess_def on_session_def)
  have s1: "has_session i ?w" by (rule has_session_goes [OF s g1])
  have "steps ?w (\<lambda>w. w) (rbind (sendProgress e i 180 ''Ringing'' ?w) (\<lambda>(_, w).
      rbind (waitReady e b i (Some deadline) w) (\<lambda>(outcome, w).
        if outcome \<noteq> Ready then not_ready e i ident outcome w else answer_caller e b i ident w)))"
  proof (rule steps_pair [OF steps_sendProgress [OF assms(1) s1 goes_refl]], rule steps_pair [OF steps_waitReady [OF assms(1)]], assumption)
    fix outcome w1
    assume g2: "goes ?w w1"
    then have "goes w w1" using g1 by (blast intro: goes_trans)
    with assms(4) have "dials i ident w1" by (rule dials_goes)
    with g2 assms(1) s1 connected_goes [OF c s1 g2]
    show "steps ?w (\<lambda>w. w) (if outcome \<noteq> Ready then not_ready e i ident outcome w1 else answer_caller e b i ident w1)"
      by (simp add: steps_not_ready steps_answer_caller)
  qed
  from steps_after [OF goes_trans [OF assms(3) g1] this] show ?thesis
    unfolding dialled_call_def Let_def .
qed
lemma dial_failure_code: "400 \<le> fst (dial_failure U err)"
  by (simp add: dial_failure_def)

lemma steps_acceptDial:
  assumes "orderly e" "has_session i w0" "goes w0 w" "bc_ID call = [] \<or> dials i (bc_ID call) w" "ss_direction (sess w i) = Outbound"
  shows "steps w0 (\<lambda>w. w) (acceptDial e b i call err deadline w)"
proof -
  obtain late w1 where t: "(if err = None then (let (t, w) = now e w in (\<not> t < deadline, w)) else (False, w)) = (late, w1)" by fastforce
  then have same: "sw_server w1 = sw_server w" by (auto simp: now_def split: if_splits)
  have g1: "goes w0 w1" by (rule goes_same [OF assms(3) same])
  have k1: "dial_known call w1" using assms(4) by (auto simp: dial_known_def dials_def same)
  obtain r w2 where r: "reason_of e i w1 = (r, w2)" by fastforce
  have g12: "goes w1 w2" using goes_reason_of [OF assms(1) goes_refl r] .
  have g2: "goes w0 w2" using g1 g12 by (rule goes_trans)
  have k2: "dial_known call w2" by (rule dial_known_goes [OF k1 g12])
  have d2: "bc_ID call \<noteq> [] \<Longrightarrow> dials i (bc_ID call) w2" using assms(4) g12 same by (auto simp: dials_def intro: log_kept)
  have s: "has_session i w1" by (rule has_session_goes [OF assms(2) g1])
  have dir: "ss_direction (sess w2 i) = Outbound"
    using session_kept [OF s g12] assms(5) same by (simp add: kept_def core_def sess_def)
  have hang: "goes w0 (hangupCall e (bc_ID call) w2)" if "bc_ID call \<noteq> []"
    using goes_hangup_dials [OF assms(1) g2 d2 [OF that]] .
  have failed: "steps w0 (\<lambda>w. w) (if ce_canceled x then Inr w3 else fail_with e i code reason EndFailed w3)"
    if "goes w0 w3" "400 \<le> code" for x code reason w3
    using that assms(1,2) by (simp add: steps_fail_with)
  have expired: "steps w0 (\<lambda>w. w) (failExpiredDial e i call None w1)" by (rule steps_failExpired [OF assms(1,2) g1 k1])
  have answer: "steps w0 (\<lambda>w. w) (case err of
      Some err \<Rightarrow>
        let w = (if bc_ID call \<noteq> [] \<and> interrupted (Some err) then hangupCall e (bc_ID call) w2 else w2);
            (code, text) = dial_failure (se_unicode e) err
        in if ce_canceled err then Inr w else fail_with e i code text EndFailed w
    | None \<Rightarrow>
        if bc_ID call = [] then fail_with e i 500 ''Server Error'' EndFailed w2
        else dialled_call e b i (bc_ID call) deadline w2)"
  proof (cases err)
    case None
    then show ?thesis
      using steps_fail_with [OF assms(1,2) g2] steps_dialled_call [OF assms(1,2) g2 _ dir] d2 by simp
  next
    case (Some x)
    have "goes w0 (if bc_ID call \<noteq> [] \<and> interrupted (Some x) then hangupCall e (bc_ID call) w2 else w2)" (is "goes w0 ?w")
      using hang g2 by simp
    from failed [OF this dial_failure_code] have "steps w0 (\<lambda>w. w) (if ce_canceled x then Inr ?w
        else fail_with e i (fst (dial_failure (se_unicode e) x)) (snd (dial_failure (se_unicode e) x)) EndFailed ?w)"
      by assumption
    then show ?thesis
      unfolding Some option.case Let_def by (cases "dial_failure (se_unicode e) x") (simp only: prod.case fst_conv snd_conv)
  qed
  show ?thesis
    unfolding acceptDial_def t
    unfolding Let_def prod.case r
    using answer [unfolded Let_def] expired goes_settle [OF assms(1) g2 k2, of err]
    by (simp only: steps_simps split: if_split) blast
qed

lemma steps_await_dial:
  assumes "orderly e" "has_session i w0" "goes w0 w" "ss_direction (sess w0 i) = Outbound"
  shows "steps w0 (\<lambda>w. w) (await_dial e b i deadline call err w)"
proof -
  let ?w = "lock e (w\<lparr>sw_ticks := sw_ticks w + 1\<rparr>)"
  let ?d = "dial_returned i call ?w"
  have g: "goes w0 ?w" using assms by (simp add: goes_lock)
  then have gd: "goes w0 ?d" by (rule goes_dial_returned)
  have k: "dial_known call ?d" by (rule dial_returned_known)
  have d: "bc_ID call = [] \<or> dials i (bc_ID call) ?d" by (auto simp: dials_def dial_returned_def)
  have dir: "ss_direction (sess ?d i) = Outbound" using session_kept [OF assms(2) gd] assms(4) by (simp add: kept_def core_def)
  have timed: "goes w0 (?d\<lparr>sw_ticks := n\<rparr>)" "dial_known call (?d\<lparr>sw_ticks := n\<rparr>)" "bc_ID call = [] \<or> dials i (bc_ID call) (?d\<lparr>sw_ticks := n\<rparr>)"
    "ss_direction (sess (?d\<lparr>sw_ticks := n\<rparr>) i) = Outbound" for n
    using gd k d dir by (simp_all add: dial_known_def dials_def sess_def)
  show ?thesis
    unfolding await_dial_def observe_def Let_def prod.case now_def
    using steps_failExpired [OF assms(1,2)] steps_acceptDial [OF assms(1,2)] steps_sendExpired [OF assms(1,2) g] g gd k d dir timed
    by (auto split: dial_wait.split)
qed

lemma steps_runOutbound:
  assumes "orderly e" "has_session i w0" "goes w0 w" "ss_direction (sess w0 i) = Outbound"
  shows "steps w0 (\<lambda>w. w) (runOutbound e b i w)"
proof -
  let ?w = "lock e (w\<lparr>sw_ticks := sw_ticks w + 1\<rparr>)"
  have g: "goes w0 ?w" using assms by (simp add: goes_lock)
  have "goes w0 (on_session i (\<lambda>c. c\<lparr>ss_dialCancelled := False\<rparr>) ?w)" by (rule goes_quiet [OF g]) (simp add: core_def)
  then have "goes w0 (lock e (on_session i (\<lambda>c. c\<lparr>ss_dialCancelled := False\<rparr>) ?w))" by (rule goes_lock [OF assms(1)])
  moreover have "goes w0 (end_dial i w1)" if "goes w0 w1" for w1
    unfolding end_dial_def by (rule goes_quiet [OF that]) (simp add: core_def)
  ultimately show ?thesis
    unfolding runOutbound_def now_def Let_def prod.case worker_def observe_def
    using steps_await_dial [OF assms(1,2) _ assms(4)] by (auto intro!: steps_world split: prod.split)
qed

lemma steps_outbound_worker:
  "orderly e \<Longrightarrow> has_session i w0 \<Longrightarrow> goes w0 w \<Longrightarrow> ss_direction (sess w0 i) = Outbound \<Longrightarrow> steps w0 (\<lambda>w. w) (outbound_worker e b i w)"
  unfolding outbound_worker_def by (rule steps_world [OF steps_runOutbound]) (auto intro: steps_finish)

lemma goes_late_dial: "orderly e \<Longrightarrow> goes w0 w \<Longrightarrow> goes w0 (late_dial e i call err w)"
  unfolding late_dial_def by (intro goes_settle goes_dial_returned dial_returned_known)

subsection \<open>Requests and responses of a call\<close>

definition sound :: "sipWorld \<Rightarrow> bool" where
  "sound w \<longleftrightarrow> indexed (sw_server w) \<and> calls_inv (view (sw_server w))"

lemma sound_goes: "sound w0 \<Longrightarrow> goes w0 w \<Longrightarrow> sound w"
  by (auto simp: sound_def goes_def call_step_def intro: path_inv)

lemma found_session:
  assumes "sound w0" "goes w0 w" "map_of (sv_sessions (sw_server w)) k = Some i"
  shows "has_session i w"
proof -
  have "sound w" by (rule sound_goes [OF assms(1,2)])
  with assms(3) show ?thesis by (auto simp: sound_def has_session_def indexed_def dest: map_of_SomeD)
qed

lemma goes_handleAck: "orderly e \<Longrightarrow> goes w0 w \<Longrightarrow> goes w0 (handleAck e msg remote w)"
proof -
  assume "orderly e" "goes w0 w"
  then have g: "goes w0 (lock e w)" by (rule goes_lock)
  have "goes w0 (on_session i (\<lambda>c. c\<lparr>ss_ackSeen := True, ss_ackCh := True\<rparr>) (lock e w))" for i
    by (rule goes_quiet [OF g]) (simp add: core_def)
  with g show ?thesis by (simp add: handleAck_def Let_def split: option.split)
qed

lemma steps_no_such_call: "orderly e \<Longrightarrow> goes w0 w \<Longrightarrow> steps w0 (\<lambda>w. w) (no_such_call e msg remote w)"
  unfolding no_such_call_def by (rule steps_reply)

lemma goes_cancelled: "orderly e \<Longrightarrow> goes w0 w \<Longrightarrow> goes w0 (on_session i (\<lambda>c. c\<lparr>ss_cancelled := True\<rparr>) (lock e w))"
  by (rule goes_quiet) (simp_all add: goes_lock core_def)

text \<open>A session that is over from now on, if it was not before.\<close>

lemma goes_over_unless:
  assumes "has_session i w0" "goes w0 w"
    and "core (f (sess w i))
      = (core (sess w i))\<lparr>cc_reason := (if ss_endReason (sess w i) = NoReason then r else ss_endReason (sess w i))\<rparr>"
  shows "goes w0 (on_session i f w)"
proof (cases "ss_endReason (sess w i) = NoReason")
  case True
  with assms show ?thesis by (intro goes_over [OF assms(1,2)]) simp_all
next
  case False
  with assms(3) show ?thesis by (intro goes_quiet [OF assms(2)]) (simp add: core_def)
qed

lemma steps_handleBye:
  assumes "orderly e" "sound w0" "goes w0 w"
  shows "steps w0 (\<lambda>w. w) (handleBye e msg remote w)"
proof -
  obtain answered w1 where r: "resendCached e msg remote w = (answered, w1)" by fastforce
  let ?w = "lock e w1"
  have g1: "goes w0 w1" by (rule resend_pair [OF assms(1,3) r])
  then have g: "goes w0 ?w" by (rule goes_lock [OF assms(1)])
  have ended: "steps w0 (\<lambda>w. w) (rbind (sip_reply e msg remote 200 ''OK'' [] (on_session i (\<lambda>c. c\<lparr>ss_peerBye := True,
        ss_endReason := (if ss_endReason c = NoReason then EndBye else ss_endReason c)\<rparr>) ?w)) (\<lambda>w.
        Inr (on_session i (\<lambda>c. c\<lparr>ss_cancelled := True\<rparr>) (lock e w))))"
    if m: "map_of (sv_sessions (sw_server ?w)) k = Some i" for i k
  proof (rule steps_after [OF g], rule steps_world [OF steps_reply [OF assms(1)]])
    show "goes ?w (on_session i (\<lambda>c. c\<lparr>ss_peerBye := True, ss_endReason := (if ss_endReason c = NoReason then EndBye else ss_endReason c)\<rparr>) ?w)"
      by (rule goes_over_unless [OF found_session [OF assms(2) g m] goes_refl]) (simp add: core_def)
  qed (simp add: goes_cancelled assms(1))
  show ?thesis
    unfolding handleBye_def r Let_def prod.case
    using g1 steps_no_such_call [OF assms(1) g] ended by (simp split: option.split)
qed

lemma steps_handleCancel:
  assumes "orderly e" "sound w0" "goes w0 w"
  shows "steps w0 (\<lambda>w. w) (handleCancel e msg remote w)"
proof -
  obtain answered w1 where r: "resendCached e msg remote w = (answered, w1)" by fastforce
  let ?w = "lock e w1"
  have g1: "goes w0 w1" by (rule resend_pair [OF assms(1,3) r])
  then have g: "goes w0 ?w" by (rule goes_lock [OF assms(1)])
  have cancelled: "steps w0 (\<lambda>w. w) (rbind (sip_reply e msg remote 200 ''OK'' [] (on_session i (\<lambda>c. c\<lparr>
        ss_endReason := (if ss_endReason c = NoReason then EndCancel else ss_endReason c)\<rparr>) (decide_final i 487 ?w))) (\<lambda>w.
        rbind (send487 e i w) (\<lambda>w. Inr (cancelSession e i w))))"
    if m: "map_of (sv_sessions (sw_server ?w)) k = Some i" and f: "\<not> ss_finalSent (sess ?w i)" for i k
  proof (rule steps_after [OF g], rule steps_world [OF steps_reply [OF assms(1)]])
    have s: "has_session i ?w" by (rule found_session [OF assms(2) g m])
    have "goes ?w (decide_final i 487 ?w)" using f by (intro goes_decide [OF s goes_refl]) simp_all
    then show "goes ?w (on_session i (\<lambda>c. c\<lparr>ss_endReason := (if ss_endReason c = NoReason then EndCancel else ss_endReason c)\<rparr>)
        (decide_final i 487 ?w))"
      by (rule goes_over_unless [OF s]) (simp add: core_def)
  qed (rule steps_world [OF steps_send487 [OF assms(1)]], simp_all add: goes_cancelSession assms(1))
  show ?thesis
    unfolding handleCancel_def r Let_def prod.case
    using g1 steps_no_such_call [OF assms(1) g] steps_reply [OF assms(1) g] cancelled by (simp split: option.split)
qed

lemma core_learn_tag [simp]: "core (learn_tag msg c) = core c"
  by (simp add: learn_tag_def core_def)

lemma steps_phone_answered:
  assumes "orderly e" "has_session i w0" "goes w0 w" "ss_direction (sess w i) = Inbound"
  shows "steps w0 (\<lambda>w. w) (phone_answered e i msg remote w)"
proof -
  let ?t = "dialogURI (se_unicode e) (m_contact msg)"
  let ?w = "on_session i (\<lambda>c. if ?t = [] then c else c\<lparr>ss_remoteDialogTarget := ?t\<rparr>) (on_session i (learn_tag msg) w)"
  have g1: "goes w0 (on_session i (learn_tag msg) w)" by (rule goes_quiet [OF assms(3)]) simp
  then have g: "goes w0 ?w" by (rule goes_quiet) (simp add: core_def)
  have i: "i < length (sv_store (sw_server w))" using has_session_goes [OF assms(2,3)] by (simp add: has_session_def)
  then have "sess ?w i = (let c = learn_tag msg (sess w i) in if ?t = [] then c else c\<lparr>ss_remoteDialogTarget := ?t\<rparr>)"
    by (simp add: Let_def)
  then have dir: "ss_direction (sess ?w i) = Inbound" using assms(4) by (simp add: learn_tag_def Let_def)
  have late: "steps w0 (\<lambda>w. w) (rbind (sendAck e i False ?w) (\<lambda>w. if late then sendBYE e i w else Inr w))" for late
    by (rule steps_world [OF steps_sendAck [OF assms(1,2) g]]) (simp add: steps_sendBYE assms)
  have bad: "steps w0 (\<lambda>w. w) (rbind (sendAck e i False (on_session i (\<lambda>c. c\<lparr>ss_dialogConfirmed := True,
      ss_endReason := (if ss_endReason c = NoReason then EndBadSDP else ss_endReason c)\<rparr>) ?w)) (\<lambda>w.
      Inr (on_session i (\<lambda>c. c\<lparr>ss_cancelled := True\<rparr>) (lock e w))))"
  proof (rule steps_world [OF steps_sendAck [OF assms(1,2)]])
    show "goes w0 (on_session i (\<lambda>c. c\<lparr>ss_dialogConfirmed := True,
        ss_endReason := (if ss_endReason c = NoReason then EndBadSDP else ss_endReason c)\<rparr>) ?w)"
      by (rule goes_over_unless [OF assms(2) g]) (simp add: core_def)
  qed (simp add: goes_cancelled assms(1))
  have taken: "steps w0 (\<lambda>w. w) (rbind (sendAck e i False (log_call (PhoneAccepted i) (on_session i (\<lambda>c. c\<lparr>ss_dialogConfirmed := True,
      ss_answerStarted := True, ss_gotProvisional := True, ss_rtpRemote := Some a\<rparr>) ?w))) (\<lambda>w.
      Inr (on_session i (\<lambda>c. c\<lparr>ss_proceed := True\<rparr>) (lock e w))))" (is "steps _ _ (rbind (sendAck e i False ?w1) ?k)")
    if "\<not> ss_answerStarted (sess ?w i)" "ss_endReason (sess ?w i) = NoReason" for a
  proof -
    have g1: "goes w0 ?w1"
      by (rule goes_accepted [OF assms(2) g dir that]) (simp add: core_def)
    have "steps ?w1 (\<lambda>w. w) (rbind (sendAck e i False ?w1) ?k)"
    proof (rule steps_world [OF steps_sendAck [OF assms(1) has_session_goes [OF assms(2) g1] goes_refl]])
      fix w2
      assume g2: "goes ?w1 w2"
      have "PhoneAccepted i \<in> set (sv_log (sw_server ?w1))" by simp
      then have "PhoneAccepted i \<in> set (sv_log (sw_server (lock e w2)))" by (rule log_kept [OF goes_lock [OF assms(1) g2]])
      with goes_proceeds [OF has_session_goes [OF assms(2) g1] goes_lock [OF assms(1) g2]]
      show "steps ?w1 (\<lambda>w. w) (?k w2)" by simp
    qed
    with g1 show ?thesis by (rule steps_after)
  qed
  show ?thesis
  proof (cases "ss_answerStarted (sess ?w i) \<or> ss_dead (sess ?w i) \<or> ss_endReason (sess ?w i) \<noteq> NoReason")
    case True
    then have c: "(ss_answerStarted (sess ?w i) \<or> \<not> ss_answerStarted (sess ?w i) \<and> (ss_dead (sess ?w i) \<or> ss_endReason (sess ?w i) \<noteq> NoReason)) = True"
      by blast
    show ?thesis unfolding phone_answered_def Let_def c if_True by (rule late)
  next
    case False
    then have c: "(ss_answerStarted (sess ?w i) \<or> \<not> ss_answerStarted (sess ?w i) \<and> (ss_dead (sess ?w i) \<or> ss_endReason (sess ?w i) \<noteq> NoReason)) = False"
      and n: "\<not> ss_answerStarted (sess ?w i)" "ss_endReason (sess ?w i) = NoReason"
      by blast+
    show ?thesis
      unfolding phone_answered_def Let_def c if_False
      using bad taken [OF n]
      by (cases "validateAudioSDP (se_unicode e) (m_body msg) (ua_ip remote)" rule: sum.exhaust)
        (simp_all only: sum.case steps_simps split: fault.split prod.split, blast+)
  qed
qed

lemma steps_handleResponse:
  assumes "orderly e" "sound w0" "goes w0 w"
  shows "steps w0 (\<lambda>w. w) (handleResponse e msg remote w)"
proof -
  let ?w = "lock e w"
  have g: "goes w0 ?w" using assms by (simp add: goes_lock)
  have early: "goes w0 (on_session i (\<lambda>c. c\<lparr>ss_gotProvisional := True\<rparr>) ?w)" for i
    by (rule goes_quiet [OF g]) (simp add: core_def)
  have rejected: "steps w0 (\<lambda>w. w) (rbind (sendAck e i True (on_session i (learn_tag msg) ?w)) (\<lambda>w.
      Inr (cancelSession e i (noteReason e i EndReject w))))"
    if "map_of (sv_sessions (sw_server ?w)) k = Some i" for i k
  proof (rule steps_after [OF g], rule steps_world [OF steps_sendAck [OF assms(1)]])
    show s: "has_session i ?w" by (rule found_session [OF assms(2) g that])
    show "goes ?w (on_session i (learn_tag msg) ?w)" by (rule goes_quiet) simp_all
    show "steps ?w (\<lambda>w. w) (Inr (cancelSession e i (noteReason e i EndReject w1)))" if "goes ?w w1" for w1
      using that s assms(1) by (simp add: goes_cancelSession goes_noteReason)
  qed
  have answered: "steps w0 (\<lambda>w. w) (phone_answered e i msg remote ?w)"
    if "map_of (sv_sessions (sw_server ?w)) k = Some i" "ss_direction (sess ?w i) = Inbound" for i k
    by (rule steps_after [OF g steps_phone_answered [OF assms(1) found_session [OF assms(2) g that(1)] goes_refl that(2)]])
  show ?thesis
    unfolding handleResponse_def Let_def
    using assms(3) g early rejected answered by (auto split: option.split)
qed

subsection \<open>New sessions\<close>

lemma update_subset: "set (AList.update k v al) \<subseteq> insert (k, v) (set al)"
  by (induction al) auto

lemma indexed_add:
  assumes "indexed s"
  shows "indexed (s\<lparr>sv_store := sv_store s @ [c], sv_sessions := AList.update k (length (sv_store s)) (sv_sessions s)\<rparr>)"
  using assms update_subset [of k "length (sv_store s)" "sv_sessions s"] by (fastforce simp: indexed_def)

lemma steps_newOutbound: "goes w0 w \<Longrightarrow> steps w0 snd (newOutbound e msg remote number ip port w)"
  by (auto simp: newOutbound_def now_def Let_def intro!: steps_random)

lemma newOutbound_core:
  "newOutbound e msg remote number ip port w = Inr (c, w') \<Longrightarrow> core c = fresh_core Outbound []"
  by (auto simp: newOutbound_def now_def Let_def res_simps core_def fresh_core_def)

lemma steps_newInbound: "goes w0 w \<Longrightarrow> steps w0 snd (newInbound e call peer target w)"
  by (auto simp: newInbound_def now_def Let_def intro!: steps_random)

lemma newInbound_core:
  "newInbound e call peer target w = Inr (c, w') \<Longrightarrow> core c = fresh_core Inbound (bc_ID call) \<and> ss_backendID c = bc_ID call"
  by (auto simp: newInbound_def now_def Let_def res_simps core_def fresh_core_def)

lemma goes_localBusy: "orderly e \<Longrightarrow> goes w0 w \<Longrightarrow> localBusy e w = (busy, w') \<Longrightarrow> goes w0 w'"
  by (auto simp: localBusy_def Let_def intro: goes_lock)

lemma server_backendCalls: "sw_server (snd (backendCalls b w)) = sw_server w"
  by (simp add: backendCalls_def observe_def)

lemma server_backendBusy: "sw_server (snd (backendBusy U b w)) = sw_server w"
  using server_backendCalls [of b w] by (auto simp: backendBusy_def split: prod.split option.split)

lemma goes_worker: "orderly e \<Longrightarrow> goes w0 w \<Longrightarrow> worker e w = (ok, w') \<Longrightarrow> goes w0 w'"
  by (auto simp: worker_def Let_def intro: goes_lock)

lemma goes_outgoing:
  assumes "goes w0 w" "core c = fresh_core Outbound []"
  shows "goes w0 (snd (add_session c w))"
proof (rule goes_step [OF assms(1)])
  show "protocol (view (sw_server w)) (view (sw_server (snd (add_session c w))))"
    using protocol.outgoing [of "map core (sv_store (sw_server w))"] assms(2) by (simp add: add_session_def view_def Let_def)
qed (simp add: add_session_def Let_def indexed_add)

lemma has_session_added:
  assumes "sound w0" "goes w0 w'" "length (sv_store (sw_server w')) = Suc i"
  shows "has_session i w'"
  using sound_goes [OF assms(1,2)] assms(3) by (simp add: sound_def has_session_def)

lemma steps_start_outbound:
  assumes "orderly e" "has_session i w0" "goes w0 w"
  shows "steps w0 (\<lambda>w. w) (start_outbound e b i w)"
  unfolding start_outbound_def
proof (rule steps_pair [OF steps_sendSession [OF assms]], simp)
  fix x w1
  assume g: "goes w0 w1"
  obtain ok w2 where r: "worker e w1 = (ok, w2)" by fastforce
  with g assms(1) have "goes w0 w2" by (blast intro: goes_worker)
  then show "steps w0 (\<lambda>w. w) (let (ok, w) = worker e w1 in if ok then Inr w else finishSession e b i w)"
    using steps_finish [OF assms(1,2)] unfolding r by simp
qed

lemma steps_outgoing:
  assumes "orderly e" "sound w0" "goes w0 w" "core c = fresh_core Outbound []"
  shows "steps w0 (\<lambda>w. w) (let (i, w) = add_session c w in start_outbound e b i w)"
proof -
  let ?w = "snd (add_session c w)" and ?i = "length (sv_store (sw_server w))"
  have g: "goes w0 ?w" by (rule goes_outgoing [OF assms(3,4)])
  have "has_session ?i ?w" by (rule has_session_added [OF assms(2) g]) (simp add: add_session_def Let_def)
  from steps_after [OF g steps_start_outbound [OF assms(1) this goes_refl]] show ?thesis
    by (simp add: add_session_def Let_def)
qed

lemma steps_place_call:
  assumes "orderly e" "sound w0" "goes w0 w"
  shows "steps w0 (\<lambda>w. w) (place_call e b msg remote ip port w)"
proof -
  obtain busy w1 where l: "localBusy e w = (busy, w1)" by fastforce
  have g1: "goes w0 w1" by (rule goes_localBusy [OF assms(1,3) l])
  obtain answer w2 where q: "backendBusy (se_unicode e) b w1 = (answer, w2)" by fastforce
  have g2: "goes w0 w2" using server_backendBusy [of "se_unicode e" b w1] q by (auto intro: goes_same [OF g1])
  have new: "steps w0 (\<lambda>w. w) (rbind (newOutbound e msg remote number ip port w2) (\<lambda>(c, w).
      let w = lock e w in
      if sv_stopping (sw_server w) \<or> localBusyLocked w then sip_reply e msg remote 486 ''Busy Here'' [] w
      else if map_of (sv_sessions (sw_server w)) (ss_sipCallID c) \<noteq> None
      then sip_reply e msg remote 486 ''Busy Here'' [] w
      else (let (i, w) = add_session c w in start_outbound e b i w)))" for number
  proof (rule steps_pair [OF steps_newOutbound [OF g2]])
    fix c w3
    assume c: "newOutbound e msg remote number ip port w2 = Inr (c, w3)" and "goes w0 w3"
    then have g: "goes w0 (lock e w3)" using assms(1) by (simp add: goes_lock)
    from steps_outgoing [OF assms(1,2) g newOutbound_core [OF c]] steps_reply [OF assms(1) g]
    show "steps w0 (\<lambda>w. w) (let w = lock e w3 in
      if sv_stopping (sw_server w) \<or> localBusyLocked w then sip_reply e msg remote 486 ''Busy Here'' [] w
      else if map_of (sv_sessions (sw_server w)) (ss_sipCallID c) \<noteq> None
      then sip_reply e msg remote 486 ''Busy Here'' [] w
      else (let (i, w) = add_session c w in start_outbound e b i w))"
      unfolding Let_def by simp
  qed
  show ?thesis
    unfolding place_call_def Let_def l prod.case q
    using new [unfolded Let_def] steps_reply [OF assms(1) g1] steps_reply [OF assms(1) g2] steps_reply [OF assms(1,3)]
    by (cases answer) (simp only: prod.case split: if_split, blast)
qed

lemma steps_handleInvite:
  assumes "orderly e" "sound w0" "goes w0 w"
  shows "steps w0 (\<lambda>w. w) (handleInvite e b msg remote w)"
  unfolding handleInvite_def
proof (rule steps_pair [OF steps_admission [OF assms(1,3)]])
  fix go w1
  assume g1: "goes w0 w1"
  then have g: "goes w0 (lock e w1)" by (rule goes_lock [OF assms(1)])
  show "steps w0 (\<lambda>w. w) (if \<not> go then Inr w1
       else let w = lock e w1 in
         case map_of (sv_sessions (sw_server w)) (m_callID msg) of
           Some i \<Rightarrow>
             let c = sess w i in
             if addrEqual (ss_peer c) remote \<and> ss_lastResp c \<noteq> [] then Inr (writeTo remote (ss_lastResp c) w)
             else sip_reply e msg remote 403 ''Forbidden'' [] w
         | None \<Rightarrow>
             (case validateAudioSDP (se_unicode e) (m_body msg) (ua_ip remote) of
                Inl (Fail _) \<Rightarrow> sip_reply e msg remote 488 ''Not Acceptable Here'' [] w
              | Inl Panic \<Rightarrow> Inl Panic
              | Inl Hang \<Rightarrow> Inl Hang
              | Inr (ip, port) \<Rightarrow> place_call e b msg remote ip port w))"
    using g1 steps_reply [OF assms(1) g] goes_writeTo [OF g] steps_place_call [OF assms(1,2) g]
    by (auto simp: Let_def split: option.split sum.split fault.split)
qed

text \<open>An incoming call is taken in one critical section.\<close>

definition take_call :: "sip_session \<Rightarrow> sipWorld \<Rightarrow> sipWorld" where
  "take_call c w =
     (let (i, w) = add_session c w in
      log_call (Took i (ss_backendID c))
        (on_server (\<lambda>s. s\<lparr>sv_byBackend := AList.update (ss_backendID c) i (sv_byBackend s)\<rparr>) w))"

lemma goes_take_call:
  assumes "goes w0 w" "core c = fresh_core Inbound ident" "ss_backendID c = ident"
  shows "goes w0 (take_call c w)"
proof (rule goes_step [OF assms(1)])
  show "protocol (view (sw_server w)) (view (sw_server (take_call c w)))"
    using protocol.incoming [of "map core (sv_store (sw_server w))" "sv_log (sw_server w)" ident] assms(2,3)
    by (simp add: take_call_def add_session_def view_log_call view_def Let_def)
  show "indexed (sw_server w) \<Longrightarrow> indexed (sw_server (take_call c w))"
    using indexed_add [of "sw_server w"] by (simp add: take_call_def add_session_def Let_def indexed_def)
qed

lemma steps_start_inbound:
  assumes "orderly e" "sound w0" "goes w0 w" "core c = fresh_core Inbound ident" "ss_backendID c = ident"
  shows "steps w0 (\<lambda>w. w) (start_inbound e b c w)"
proof -
  let ?w = "lock e w"
  let ?w1 = "take_call c ?w" and ?i = "length (sv_store (sw_server ?w))"
  have g: "goes w0 ?w" by (rule goes_lock [OF assms(1,3)])
  then have g1: "goes w0 ?w1" by (rule goes_take_call [OF _ assms(4,5)])
  have s: "has_session ?i ?w1" by (rule has_session_added [OF assms(2) g1]) (simp add: take_call_def add_session_def Let_def)
  let ?send = "\<lambda>w1 raw. let (t, w) = now e w1; t1 = sv_t1 (sw_server w);
                 w = on_session ?i (\<lambda>c. c\<lparr>ss_inviteRaw := raw, ss_inviteDelay := t1, ss_nextInvite := Some (t + t1)\<rparr>) w;
                 w = writeTo (ss_peer c) raw w;
                 (ok, w) = worker e w
             in if ok then Inr w else finishSession e b ?i w :: (sip_err, sipWorld) res"
  have send: "steps ?w1 (\<lambda>w. w) (?send ?w1 raw)" for raw
  proof -
    let ?w2 = "?w1\<lparr>sw_ticks := sw_ticks ?w1 + 1\<rparr>"
    let ?t1 = "sv_t1 (sw_server ?w2)"
    let ?w3 = "writeTo (ss_peer c) raw (on_session ?i (\<lambda>c. c\<lparr>ss_inviteRaw := raw, ss_inviteDelay := ?t1,
        ss_nextInvite := Some (se_clock e (sw_ticks ?w1) + ?t1)\<rparr>) ?w2)"
    have "goes ?w1 ?w2" by simp
    then have "goes ?w1 ?w3" by (rule goes_writeTo [OF goes_quiet]) (simp add: core_def)
    moreover obtain ok w4 where r: "worker e ?w3 = (ok, w4)" by fastforce
    ultimately have "goes ?w1 w4" by (blast intro: goes_worker [OF assms(1)])
    with steps_finish [OF assms(1) s] r show ?thesis by (simp add: now_def Let_def)
  qed
  have "steps ?w1 (\<lambda>w. w) (rbind (buildInviteLocked (se_unicode e) (sw_server ?w1) c) (?send ?w1))"
    by (rule steps_texts(3)) (rule send)
  from steps_after [OF g1 this] show ?thesis
    using g by (simp add: start_inbound_def take_call_def add_session_def Let_def)
qed

lemma steps_maybeInbound:
  assumes "orderly e" "sound w0" "goes w0 w"
  shows "steps w0 (\<lambda>w. w) (maybeInbound e b calls w)"
proof -
  let ?w = "lock e w"
  have g: "goes w0 ?w" by (rule goes_lock [OF assms(1,3)])
  have new: "steps w0 (\<lambda>w. w) (rbind (newInbound e call peer target (?w\<lparr>sw_ticks := k\<rparr>)) (\<lambda>(c, w). start_inbound e b c w))"
    for call peer target k
  proof (rule steps_pair [OF steps_newInbound])
    show "goes w0 (?w\<lparr>sw_ticks := k\<rparr>)" using g by simp
    show "steps w0 (\<lambda>w. w) (start_inbound e b c w1)"
      if "newInbound e call peer target (?w\<lparr>sw_ticks := k\<rparr>) = Inr (c, w1)" "goes w0 w1" for c w1
      using newInbound_core [OF that(1)] by (intro steps_start_inbound [OF assms(1,2) that(2)]) simp_all
  qed
  show ?thesis
    unfolding maybeInbound_def Let_def now_def prod.case
    using g new by (simp split: option.split)
qed

subsection \<open>The goroutine of an incoming call\<close>

lemma goes_lookupState: "goes w0 w \<Longrightarrow> lookupState U b ident w = (x, w') \<Longrightarrow> goes w0 w'"
  using server_lookupState [of U b ident w] by (auto intro: goes_same)

lemma goes_answer_failed:
  "orderly e \<Longrightarrow> has_session i w0 \<Longrightarrow> goes w0 w \<Longrightarrow> goes w0 (answer_failed e b i w)"
  unfolding answer_failed_def
  by (cases "lookupState (se_unicode e) b (ss_backendID (sess w i)) w")
    (auto intro!: goes_noteReason dest: goes_lookupState)

lemma goes_own_answer: "orderly e \<Longrightarrow> goes w0 w \<Longrightarrow> goes w0 (own_answer e i w)"
  unfolding own_answer_def by (rule goes_quiet) (simp_all add: goes_lock core_def)

lemma steps_answered_call:
  assumes "orderly e" "has_session i w0" "goes w0 w"
  shows "steps w0 (\<lambda>w. w) (answered_call e b i w)"
  unfolding answered_call_def Let_def
proof (rule steps_pair [OF steps_waitReady [OF assms(1) goes_own_answer [OF assms(1,3)]]])
  fix outcome w1
  assume "goes w0 w1"
  then show "steps w0 (\<lambda>w. w) (if outcome = Ready then bridge_call e b i w1
       else if ctx_done (lock e w1) i then Inr (lock e w1)
         else Inr (noteReason e i
                (case outcome of WaitCodec \<Rightarrow> EndCodec | WaitGone \<Rightarrow> EndRemoteGone | _ \<Rightarrow> EndTimeout) (lock e w1)))"
    using assms(1,2) by (simp add: steps_bridge_call goes_noteReason goes_lock)
qed

lemma steps_runInbound:
  assumes "orderly e" "has_session i w0" "goes w0 w"
  shows "steps w0 (\<lambda>w. w) (runInbound e b i w)"
proof -
  let ?w = "lock e (w\<lparr>sw_ticks := sw_ticks w + 1\<rparr>)"
  let ?w1 = "on_session i (\<lambda>c. c\<lparr>ss_proceed := False\<rparr>) ?w"
  have g: "goes w0 ?w" using assms by (simp add: goes_lock)
  then have g1: "goes w0 ?w1" by (rule goes_taken [OF assms(2)])
  show ?thesis
  proof (cases "ss_proceed (sess ?w i) \<and> be_Proceeds b (sw_ticks w)")
    case False
    with g show ?thesis unfolding runInbound_def observe_def Let_def prod.case by simp
  next
    case True
    then have "PhoneAccepted i \<in> set (sv_log (sw_server ?w))" using session_inv [OF assms(2) g] by (simp add: core_ok_def core_def)
    then have p1: "PhoneAccepted i \<in> set (sv_log (sw_server ?w1))" by simp
    obtain r w2 where r: "reason_of e i ?w1 = (r, w2)" by fastforce
    have g12: "goes ?w1 w2" by (rule goes_reason_of [OF assms(1) goes_refl r])
    have g2: "goes w0 w2" by (rule goes_trans [OF g1 g12])
    have p2: "PhoneAccepted i \<in> set (sv_log (sw_server w2))" by (rule log_kept [OF g12 p1])
    let ?w3 = "log_call (AnswerCall i) (w2\<lparr>sw_ticks := sw_ticks w2 + 1\<rparr>)"
    have g3: "goes w0 ?w3" using g2 p2 by (intro goes_answer) simp_all
    obtain r' w4 where r': "reason_of e i ?w3 = (r', w4)" by fastforce
    have g4: "goes w0 w4" by (rule goes_reason_of [OF assms(1) g3 r'])
    show ?thesis
      unfolding runInbound_def observe_def Let_def prod.case r r'
      using True g2 g4 goes_own_answer [OF assms(1) g4] goes_answer_failed [OF assms(1,2) g4] steps_answered_call [OF assms(1,2) g4]
      by simp
  qed
qed

lemma steps_inbound_worker:
  "orderly e \<Longrightarrow> has_session i w0 \<Longrightarrow> goes w0 w \<Longrightarrow> steps w0 (\<lambda>w. w) (inbound_worker e b i w)"
  unfolding inbound_worker_def by (rule steps_world [OF steps_runInbound]) (auto intro: steps_finish)

subsection \<open>Audio, the poll loop and the life of the server\<close>

lemma steps_onRTP: "orderly e \<Longrightarrow> goes w0 w \<Longrightarrow> steps w0 snd (onRTP e addr packet w)"
proof -
  assume o: "orderly e" and g: "goes w0 w"
  then have l: "goes w0 (lock e w)" by (simp add: goes_lock)
  have "goes w0 (on_session i (\<lambda>c. c\<lparr>ss_seqInit := True, ss_lastSeq := q\<rparr>) (lock e w))" for i q
    by (rule goes_quiet [OF l]) (simp add: core_def)
  with g l show ?thesis
    unfolding onRTP_def by (intro steps_pure) (simp add: Let_def split: option.split prod.split)
qed

lemma goes_resend_invite:
  assumes "orderly e" "goes w0 w"
  shows "goes w0 (resend_invite e i c t w)"
proof -
  have "goes w0 (lock e (writeTo (cloneAddr (ss_peer c)) (ss_inviteRaw c) w))" using assms by (simp add: goes_lock goes_writeTo)
  from goes_quiet [OF this] assms(2) show ?thesis
    by (auto simp: resend_invite_def Let_def core_def split: option.split)
qed

lemma goes_resend_200:
  assumes "orderly e" "goes w0 w"
  shows "goes w0 (resend_200 e i c t w)"
proof -
  have "goes w0 (lock e (writeTo (cloneAddr (ss_peer c)) (ss_lastResp c) w))" using assms by (simp add: goes_lock goes_writeTo)
  from goes_quiet [OF this] assms(2) show ?thesis
    by (auto simp: resend_200_def Let_def core_def split: option.split)
qed

lemma goes_forget: "goes w0 w \<Longrightarrow> goes w0 (forget_session i t w)"
proof -
  assume g: "goes w0 w"
  have "indexed (s\<lparr>sv_sessions := AList.delete k (sv_sessions s), sv_byBackend := m\<rparr>)" if "indexed s" for s k m
    using that by (auto simp: indexed_def AList.delete_eq)
  then have d: "goes w0 (w\<lparr>sw_server := (sw_server w)\<lparr>sv_sessions := AList.delete k (sv_sessions (sw_server w)), sv_byBackend := m\<rparr>\<rparr>)" for k m
    using g by (simp add: goes_def call_step_def)
  show ?thesis
    unfolding forget_session_def Let_def by (simp only: d g if_split simp_thms)
qed

lemma steps_maintain_dialog:
  assumes "orderly e" "has_session i w0" "goes w0 w"
  shows "steps w0 (\<lambda>w. w) (maintain_dialog e i c calls t w)"
  unfolding maintain_dialog_def Let_def
  using goes_resend_200 [OF assms(1,3)] goes_stop_session [OF assms(1,2)] by (simp split: option.split)

lemma steps_maintainSession:
  assumes "orderly e" "has_session i w0" "goes w0 w"
  shows "steps w0 (\<lambda>w. w) (maintainSession e i calls t w)"
proof -
  have g: "goes w0 (lock e w)" by (rule goes_lock [OF assms(1,3)])
  then have g1: "goes w0 (resend_invite e i c t (lock e w))" for c by (rule goes_resend_invite [OF assms(1)])
  show ?thesis
    unfolding maintainSession_def Let_def
    using g g1 goes_forget [OF g] steps_cancelUnanswered [OF assms(1,2)] steps_maintain_dialog [OF assms(1,2)]
    by (simp split: option.split)
qed

lemma steps_maintain_sessions:
  assumes "orderly e" "\<forall>i\<in>set is. has_session i w0" "goes w0 w"
  shows "steps w0 (\<lambda>w. w) (maintain_sessions e is calls t w)"
  using assms(2,3)
proof (induction "is" arbitrary: w)
  case (Cons i rest)
  then show ?case by (simp add: steps_world [OF steps_maintainSession [OF assms(1)]])
qed simp

lemma sessions_exist:
  assumes "sound w0" "goes w0 w" "i \<in> snd ` set (sv_sessions (sw_server w))"
  shows "has_session i w"
  using sound_goes [OF assms(1,2)] assms(3) by (force simp: sound_def has_session_def indexed_def)

lemma goes_expire_reg: "goes w0 w \<Longrightarrow> goes w0 (expire_reg e w)"
  by (auto simp: expire_reg_def now_def Let_def intro!: goes_view split: option.split)

lemma steps_maintain:
  assumes "orderly e" "sound w0" "goes w0 w"
  shows "steps w0 (\<lambda>w. w) (maintain e b w)"
proof -
  let ?w = "expire_reg e (evictTxLocked e (evictNoncesLocked e (lock e w)))"
  have g: "goes w0 ?w" using assms by (intro goes_expire_reg goes_evict goes_lock)
  obtain calls w1 where q: "backendCalls b ?w = (calls, w1)" by fastforce
  have same: "sw_server w1 = sw_server ?w" using server_backendCalls [of b ?w] q by simp
  then have g1: "goes ?w w1" by (simp add: goes_def)
  have "\<forall>i\<in>set (map snd (sv_sessions (sw_server ?w))). has_session i ?w"
    using sessions_exist [OF assms(2) g] by simp
  then have "steps ?w (\<lambda>w. w) (maintain_sessions e (map snd (sv_sessions (sw_server ?w))) calls t (w1\<lparr>sw_ticks := k\<rparr>))" for t k
    using g1 by (intro steps_maintain_sessions [OF assms(1)]) simp_all
  then have "steps w0 (\<lambda>w. w) (rbind (maintain_sessions e (map snd (sv_sessions (sw_server ?w))) calls t (w1\<lparr>sw_ticks := k\<rparr>))
      (\<lambda>w. case calls of None \<Rightarrow> Inr w | Some calls \<Rightarrow> maybeInbound e b calls w))" for t k
    by (rule steps_world [OF steps_after [OF g]]) (simp add: steps_maybeInbound [OF assms(1,2)] split: option.split)
  then show ?thesis unfolding maintain_def Let_def q prod.case now_def by simp
qed

lemma steps_Run: "orderly e \<Longrightarrow> goes w0 w \<Longrightarrow> steps w0 (\<lambda>w. w) (sip_Run e w)"
  by (auto simp: sip_Run_def Let_def intro!: goes_view goes_lock)

lemma goes_end_run: "goes w0 w \<Longrightarrow> goes w0 (end_run w)"
  by (auto simp: end_run_def intro: goes_view)

lemma goes_Close: "orderly e \<Longrightarrow> goes w0 w \<Longrightarrow> goes w0 (sip_Close e w)"
  by (auto simp: sip_Close_def Let_def intro!: goes_end_run goes_view goes_lock)

lemma goes_finish_loops: "orderly e \<Longrightarrow> goes w0 w \<Longrightarrow> goes w0 (finish_loops e w)"
  by (auto simp: finish_loops_def intro!: goes_end_run goes_view goes_lock)

lemma steps_sweep_sessions:
  assumes "orderly e" "\<forall>i\<in>set is. has_session i w0" "goes w0 w"
  shows "steps w0 (\<lambda>w. w) (sweep_sessions e b is w)"
  using assms(2,3)
proof (induction "is" arbitrary: w)
  case (Cons i rest)
  then have "goes w0 (noteReason e i EndShutdown w)" by (intro goes_noteReason [OF assms(1)]) simp_all
  with Cons show ?case by (simp add: steps_world [OF steps_finish [OF assms(1)]])
qed simp

lemma steps_sweep:
  assumes "orderly e" "sound w0" "goes w0 w"
  shows "steps w0 (\<lambda>w. w) (sweep e b w)"
proof -
  have g: "goes w0 (lock e w)" by (rule goes_lock [OF assms(1,3)])
  show ?thesis
    unfolding sweep_def Let_def
    using sessions_exist [OF assms(2) g] by (intro steps_after [OF g] steps_sweep_sessions [OF assms(1)]) auto
qed

lemma goes_Status: "orderly e \<Longrightarrow> goes w0 w \<Longrightarrow> goes w0 (snd (sip_Status e w))"
  by (auto simp: sip_Status_def now_def Let_def intro: goes_lock split: option.split)

lemma steps_serve_message:
  assumes "orderly e" "sound w0" "goes w0 w"
  shows "steps w0 (\<lambda>w. w) (serve_message e b msg remote w)"
  unfolding serve_message_def
proof (rule steps_pair [OF steps_message [OF assms(1,3)]])
  fix what w1
  assume "goes w0 w1"
  then show "steps w0 (\<lambda>w. w) (case what of
         ForCall msg \<Rightarrow>
           if m_isResponse msg then handleResponse e msg remote w1
           else if m_method msg = str ''INVITE'' then handleInvite e b msg remote w1
           else if m_method msg = str ''ACK'' then Inr (handleAck e msg remote w1)
           else if m_method msg = str ''BYE'' then handleBye e msg remote w1
           else handleCancel e msg remote w1
       | _ \<Rightarrow> Inr w1)"
    using assms(1,2) steps_handleResponse steps_handleInvite goes_handleAck steps_handleBye steps_handleCancel
    by (cases what) simp_all
qed

lemma steps_serve_packet:
  "orderly e \<Longrightarrow> sound w0 \<Longrightarrow> goes w0 w \<Longrightarrow> steps w0 (\<lambda>w. w) (serve_packet e b packet remote w)"
  by (simp add: serve_packet_def steps_serve_message split: sum.split fault.split)

end
