(* ===== verification/Sip_Properties.thy ===== *)
theory Sip_Properties
  imports Sip_Auth
begin

text \<open>
  Properties of the SIP gateway's authentication and of its message parser, with a run that registers
  a phone.
\<close>

subsection \<open>Authentication\<close>

text \<open>
  C32: nobody gets past the gateway's authentication without the password, and no request twice.  In any
  run, with any steps of the other goroutines in between, and as long as the random reader does not
  repeat a nonce: an accepted request was preceded by its nonce, sent to the same address; its response
  is the digest of the password over that nonce, the count, and its own method and URI; and every
  earlier acceptance of the same nonce, user and client nonce had a lower count.
\<close>

theorem sip_requests_authenticated:
  assumes "gateway_run e opts w" "interferes e" "distinct (issued (sv_trace (sw_server w)))"
    and "sv_trace (sw_server w) = before @ Accepted remote v user cnonce n msg # after"
  shows "(\<exists>peer. Issued v peer \<in> set before \<and> addrEqual peer remote)
    \<and> answers_challenge e (sip_credentials opts) v user cnonce n msg
    \<and> (\<forall>remote' n' msg'. Accepted remote' v user cnonce n' msg' \<in> set before \<longrightarrow> n' < n)"
proof -
  from gateway_run_auth_ok [OF assms(1,2)] assms(3) have "trace_ok e (sip_credentials opts) (sv_trace (sw_server w))"
    by (simp add: auth_ok_def)
  with assms(4) have "accept_ok e (sip_credentials opts) before (Accepted remote v user cnonce n msg)"
    unfolding ordered_def by blast
  then show ?thesis by auto
qed

text \<open>
  C33: the phone that calls go to is an authenticated one: at any time in any run, the registration comes
  from a REGISTER request that was accepted before it was made, from the registered address and with the
  registered contact.
\<close>

theorem sip_registration_authenticated:
  assumes "gateway_run e opts w" "interferes e" "sv_reg (sw_server w) = Some reg"
  shows "\<exists>before after remote v user cnonce n msg. sv_trace (sw_server w) = before @ Bound reg # after
    \<and> Accepted remote v user cnonce n msg \<in> set before \<and> m_method msg = str ''REGISTER''
    \<and> rg_addr reg = cloneAddr remote \<and> rg_contact reg = m_contact msg"
proof -
  from gateway_run_auth_ok [OF assms(1,2)] assms(3)
  have o: "ordered binding_ok (sv_trace (sw_server w))" and b: "Bound reg \<in> set (sv_trace (sw_server w))"
    by (simp_all add: auth_ok_def)
  from b obtain before after where t: "sv_trace (sw_server w) = before @ Bound reg # after" by (auto dest: split_list)
  with o have "binding_ok before (Bound reg)" unfolding ordered_def by blast
  with t show ?thesis by (simp only: binding_ok.simps) blast
qed

subsection \<open>A run\<close>

definition sample_env :: sip_env where
  "sample_env =
     \<lparr>se_unicode = plain_unicode, se_md5 = (\<lambda>s. replicate 16 0), se_clock = (\<lambda>k. 0),
      se_random = (\<lambda>k n. Some [of_nat k]), se_time_text = (\<lambda>t. []), se_others = (\<lambda>k s. s)\<rparr>"

definition sample_sip_options :: sipOptions where
  "sample_sip_options =
     \<lparr>so_AdvertisedIP = str ''192.0.2.1'', so_Username = str ''u'', so_Password = str ''pw'', so_HasBackend = True,
      so_DialTimeout = 0, so_PollInterval = 0\<rparr>"

definition sample_phone :: udp_addr where
  "sample_phone = \<lparr>ua_ip = [192, 0, 2, 9], ua_port = 7, ua_zone = []\<rparr>"

definition sample_response :: gostring where
  "sample_response = str ''00000000000000000000000000000000''"

definition register_message :: "(gostring \<times> gostring) list \<Rightarrow> string \<Rightarrow> sipMessage" where
  "register_message headers branch =
     (blank_message [])\<lparr>m_method := str ''REGISTER'', m_requestURI := str ''sip:h'', m_headers := headers,
       m_values := (\<lambda>name. map snd (filter (\<lambda>(n, _). n = name) headers)), m_callID := str ''1'', m_cseqNum := 1,
       m_cseqMethod := str ''REGISTER'', m_fromUser := str ''u'', m_toUser := str ''u'', m_vias := [str ''SIP/2.0/UDP x''],
       m_branch := str branch, m_contact := str ''<sip:u@h>''\<rparr>"

definition sample_start :: sipWorld where
  "sample_start =
     (case sip_New sample_sip_options (Some (sample_phone, sample_phone)) of Inr s \<Rightarrow> sip_start s | Inl _ \<Rightarrow> undefined)"

lemma ip: "ParseIP (str ''192.0.2.1'') = v4_prefix @ [192, 0, 2, 1]"
  by (simp add: str_def ParseIP_def parse_v4_def v4_field_def is_digit_def)

lemma sample_New:
  "sip_New sample_sip_options (Some (sample_phone, sample_phone)) =
     Inr \<lparr>sv_username = str ''u'', sv_password = str ''pw'', sv_realm = str ''halo'', sv_advertised = str ''192.0.2.1'',
               sv_dialTimeout = seconds 45, sv_pollEvery = 200000000,
               sv_nonceLife = seconds 300, sv_ackWait = seconds 32, sv_inviteWait = seconds 32, sv_t1 = 500000000,
               sv_t2 = seconds 4, sv_port = 7, sv_rtpPort = 7,
               sv_closed = False, sv_running = False, sv_ended = False, sv_stopping = False,
               sv_reg = None, sv_store = [], sv_sessions = [], sv_byBackend = [], sv_txs = [], sv_nonces = [],
               sv_hung = [], sv_rtpSess = None, sv_trace = [], sv_log = []\<rparr>"
proof -
  have "trim_space (str ''u'') = str ''u''" by (rule trim_space_graphic) (simp add: graphic_def str_def)
  moreover have "trim_space (str ''192.0.2.1'') = str ''192.0.2.1''" by (rule trim_space_graphic) (simp add: graphic_def str_def)
  moreover have "\<not> contains_any (str ''u'') [32, 9, 13, 10, 34, 60, 62]" "\<not> contains_any (str ''pw'') [13, 10]"
    "str ''u'' \<noteq> []" "str ''pw'' \<noteq> []" "str ''192.0.2.1'' \<noteq> []"
    by (simp_all add: contains_any_def str_def)
  ultimately show ?thesis
    by (simp add: sip_New_def sample_sip_options_def sample_phone_def ip v4_prefix_def Let_def)
qed

text \<open>Credentials written as plain tokens are read back.\<close>

definition token :: "gostring \<Rightarrow> bool" where
  "token s \<longleftrightarrow> s \<noteq> [] \<and> graphic s \<and> 44 \<notin> set s \<and> hd s \<noteq> 34"

fun write_items :: "(gostring \<times> gostring) list \<Rightarrow> gostring" where
  "write_items [] = []"
| "write_items [(k, v)] = k @ 61 # v"
| "write_items ((k, v) # items) = k @ 61 # v @ 44 # write_items items"

lemma token_head: "token (b # s) \<Longrightarrow> 32 < unat b \<and> b \<noteq> 44 \<and> b \<noteq> 34"
  by (simp add: token_def graphic_def)

lemma dropWhile_stop: "xs = [] \<or> \<not> P (hd xs) \<Longrightarrow> dropWhile P xs = xs"
  by (cases xs) auto

lemma span_stop:
  assumes "\<forall>b\<in>set k. P b" "s = [] \<or> \<not> P (hd s)"
  shows "takeWhile P (k @ s) = k" "dropWhile P (k @ s) = s"
  using assms by (induction k) (cases s; auto)+

lemma directive_plain:
  assumes "token k" "61 \<notin> set k" "lower U k = k" "token v" "rest = [] \<or> hd rest = 44"
  shows "directive U (k @ 61 # v @ rest) = Some (k, v, rest)"
proof -
  have k: "takeWhile (\<lambda>b. b \<noteq> 61 \<and> b \<noteq> 44) (k @ 61 # v @ rest) = k"
    "dropWhile (\<lambda>b. b \<noteq> 61 \<and> b \<noteq> 44) (k @ 61 # v @ rest) = 61 # v @ rest"
    by (rule span_stop; use assms(1,2) in \<open>auto simp: token_def\<close>)+
  obtain c v' where v: "v = c # v'" using assms(4) by (cases v) (simp_all add: token_def)
  then have "32 < unat c" using token_head assms(4) by blast
  then have body: "dropWhile (\<lambda>b. b = 32 \<or> b = 9) (v @ rest) = v @ rest"
    by (intro dropWhile_stop) (auto simp: v)
  have w: "takeWhile (\<lambda>b. b \<noteq> 44) (v @ rest) = v" "dropWhile (\<lambda>b. b \<noteq> 44) (v @ rest) = rest"
    by (rule span_stop; use assms(4,5) in \<open>auto simp: token_def\<close>)+
  from assms(1,4) have "trim_space k = k" "trim_space v = v" "k \<noteq> []" "hd v \<noteq> 34" "v \<noteq> []" by (simp_all add: token_def)
  then show ?thesis
    unfolding directive_def k Let_def list.sel body w using assms(3) by simp
qed

definition plain_items :: "unicode_env \<Rightarrow> (gostring \<times> gostring) list \<Rightarrow> bool" where
  "plain_items U items \<longleftrightarrow> list_all (\<lambda>(k, v). token k \<and> 61 \<notin> set k \<and> lower U k = k \<and> token v) items"

lemma skip_token: "token k \<Longrightarrow> skip_separators (k @ s) = k @ s"
  unfolding skip_separators_def
  by (rule dropWhile_stop) (cases k; auto simp: token_def graphic_def)

lemma skip_comma: "skip_separators (44 # s) = skip_separators s"
  by (simp add: skip_separators_def)

lemma parse_directives_comma: "parse_directives U (44 # s) out = parse_directives U s out"
  by (subst (1 2) parse_directives.simps) (simp add: skip_comma)

fun put_item :: "gostring \<times> gostring \<Rightarrow> (gostring \<Rightarrow> gostring) \<Rightarrow> gostring \<Rightarrow> gostring" where
  "put_item (k, v) out = out(k := v)"

lemma parse_items: "plain_items U items \<Longrightarrow> parse_directives U (write_items items) out = Inr (fold put_item items out)"
proof (induction items arbitrary: out rule: write_items.induct)
  case 1
  then show ?case by (subst parse_directives.simps) (simp add: skip_separators_def)
next
  case (2 k v)
  then have p: "token k" "61 \<notin> set k" "lower U k = k" "token v" by (simp_all add: plain_items_def)
  have d: "directive U (k @ 61 # v) = Some (k, v, [])" using directive_plain [OF p, of "[]"] by simp
  have "parse_directives U [] (out(k := v)) = Inr (out(k := v))"
    by (subst parse_directives.simps) (simp add: skip_separators_def)
  with p d show ?case by (subst parse_directives.simps) (simp add: skip_token)
next
  case (3 k v item items)
  then have p: "token k" "61 \<notin> set k" "lower U k = k" "token v" by (simp_all add: plain_items_def)
  have d: "directive U (k @ 61 # v @ 44 # write_items (item # items)) = Some (k, v, 44 # write_items (item # items))"
    using directive_plain [OF p, of "44 # write_items (item # items)"] by simp
  have "plain_items U (item # items)" using 3(2) by (simp add: plain_items_def)
  from 3(1) [OF this] d p show ?case
    by (subst parse_directives.simps) (simp add: skip_token parse_directives_comma)
qed

definition sample_items :: "(gostring \<times> gostring) list" where
  "sample_items =
     [(str ''username'', str ''u''), (str ''realm'', str ''halo''), (str ''nonce'', str ''00''), (str ''uri'', str ''sip:h''),
      (str ''response'', sample_response), (str ''cnonce'', str ''c''), (str ''nc'', str ''00000001''), (str ''qop'', str ''auth'')]"

lemma sample_items_plain: "plain_items plain_unicode sample_items"
  by (simp add: plain_items_def sample_items_def sample_response_def token_def graphic_def str_def to_case_def is_ascii_def
      ascii_lower_def)

lemma sample_digest:
  "parseDigest plain_unicode (str ''Digest'' @ 32 # write_items sample_items) =
     Inr \<lparr>dc_username = str ''u'', dc_realm = str ''halo'', dc_nonce = str ''00'', dc_uri = str ''sip:h'',
          dc_response = sample_response, dc_algorithm = [], dc_cnonce = str ''c'', dc_nc = str ''00000001'',
          dc_qop = str ''auth''\<rparr>"
proof -
  let ?s = "str ''Digest'' @ 32 # write_items sample_items"
  have t: "trim_space ?s = ?s"
    by (rule trim_space_visible) (simp_all add: sample_items_def str_def visible_def)
  have "32 \<notin> set (str ''Digest'')" by (simp add: str_def)
  from cut_byte_append [OF this] have c: "cut_byte 32 ?s = Some (str ''Digest'', write_items sample_items)" .
  have f: "equal_fold plain_unicode (str ''Digest'') (str ''Digest'')"
    by (simp add: equal_fold_def plain_unicode_def list.rel_refl)
  show ?thesis
    unfolding parseDigest_def t c option.case prod.case using f parse_items [OF sample_items_plain]
    by (simp add: sample_items_def str_eq_iff sample_response_def Let_def) (simp add: str_def)
qed

lemma register_message_fields [simp]:
  "m_isResponse (register_message headers branch) = False"
  "m_method (register_message headers branch) = str ''REGISTER''"
  "m_requestURI (register_message headers branch) = str ''sip:h''"
  "m_values (register_message headers branch) = (\<lambda>name. map snd (filter (\<lambda>(n, _). n = name) headers))"
  "m_callID (register_message headers branch) = str ''1''"
  "m_cseqMethod (register_message headers branch) = str ''REGISTER''"
  "m_fromUser (register_message headers branch) = str ''u''"
  "m_toUser (register_message headers branch) = str ''u''"
  "m_vias (register_message headers branch) = [str ''SIP/2.0/UDP x'']"
  "m_branch (register_message headers branch) = str branch"
  "m_contact (register_message headers branch) = str ''<sip:u@h>''"
  "m_expiresSet (register_message headers branch) = False"
  by (simp_all add: register_message_def blank_message_def)

lemma str_Cons_ne [simp]: "str (c # s) \<noteq> []"
  by (simp add: str_def)

text \<open>A reply, when no other goroutine interferes.\<close>

lemma server_storeTx: "\<exists>txs. sw_server (storeTxLocked e key remote raw w) = (sw_server w)\<lparr>sv_txs := txs\<rparr>"
proof -
  have same: "\<exists>txs. s = s\<lparr>sv_txs := txs\<rparr>" for s :: sipServer by (rule exI [of _ "sv_txs s"]) simp
  show ?thesis
    using same by (auto simp: storeTxLocked_def put_tx_def evictTxLocked_def now_def split: option.split)
qed

lemma reply_quiet:
  assumes "se_others e = (\<lambda>k s. s)"
  obtains w' txs sent where "sip_reply e msg remote code reason extra w = Inr w'"
    "sw_server w' = (sw_server w)\<lparr>sv_txs := txs, sv_trace := sv_trace (sw_server w) @ map (\<lambda>(a, raw). Sent a raw) sent\<rparr>"
proof -
  obtain raw where raw: "buildResponse (se_unicode e) msg code (str reason) [] extra [] = (Inr raw :: (sip_err, byte list) res)"
    by (cases "m_to msg = []") (auto simp: buildResponse_def response_head_def ensureTag_def)
  have "\<exists>txs. sw_server (remember e msg remote raw w) = (sw_server w)\<lparr>sv_txs := txs\<rparr>"
  proof (cases "m_method msg = [] \<or> m_method msg = str ''ACK'' \<or> makeTxKey (se_unicode e) msg remote = None")
    case True
    then show ?thesis by (intro exI [of _ "sv_txs (sw_server w)"]) (auto simp: remember_def)
  next
    case False
    then obtain key where "makeTxKey (se_unicode e) msg remote = Some key" by auto
    with False server_storeTx [of e key remote raw "lock e w"] show ?thesis
      by (simp add: remember_def lock_def assms)
  qed
  then obtain txs where t: "sw_server (remember e msg remote raw w) = (sw_server w)\<lparr>sv_txs := txs\<rparr>" by blast
  let ?sent = "if raw = [] then [] else [(remote, raw)]"
  have "sw_server (writeTo remote raw (remember e msg remote raw w))
      = (sw_server w)\<lparr>sv_txs := txs, sv_trace := sv_trace (sw_server w) @ map (\<lambda>(a, raw). Sent a raw) ?sent\<rparr>"
    using t by (cases "raw = []") (simp_all add: writeTo_def)
  then show ?thesis by (rule that [rotated]) (simp add: sip_reply_def raw)
qed

lemma sample_others [simp]: "se_others sample_env = (\<lambda>k s. s)"
  by (simp add: sample_env_def)

lemma sample_interferes: "interferes sample_env"
  by (simp add: interferes_def)

lemma resend_quiet:
  assumes "se_others e = (\<lambda>k s. s)" "sv_txs (sw_server w) = []"
  obtains w1 where "resendCached e msg remote w = (False, w1)" "sw_server w1 = sw_server w" "sw_ticks w1 = sw_ticks w"
    "sw_drawn w1 = sw_drawn w"
proof -
  have "\<exists>w1. resendCached e msg remote w = (False, w1) \<and> sw_server w1 = sw_server w \<and> sw_ticks w1 = sw_ticks w
      \<and> sw_drawn w1 = sw_drawn w"
    using assms by (simp add: resendCached_def lock_def Let_def split: option.split)
  with that show ?thesis by blast
qed

text \<open>The first request is challenged; before the second, the cached response has expired.\<close>

definition sample_nonce :: nonceState where
  "sample_nonce = \<lparr>ns_peer = sample_phone, ns_expires = seconds 300, ns_created = 0, ns_maxNC = []\<rparr>"

lemma sample_challenged:
  obtains w where "gateway_run sample_env sample_sip_options w" "sv_nonces (sw_server w) = [(str ''00'', sample_nonce)]"
    "sv_txs (sw_server w) = []" "issued (sv_trace (sw_server w)) = [str ''00'']" "sv_username (sw_server w) = str ''u''"
    "sv_password (sw_server w) = str ''pw''" "sv_realm (sw_server w) = str ''halo''"
    "Issued (str ''00'') sample_phone \<in> set (sv_trace (sw_server w))"
proof -
  obtain s where s: "sip_New sample_sip_options (Some (sample_phone, sample_phone)) = Inr s"
    "sv_nonces s = []" "sv_trace s = []" "sv_txs s = []" "sv_username s = str ''u''" "sv_password s = str ''pw''"
    "sv_realm s = str ''halo''" "sv_nonceLife s = seconds 300" unfolding sample_New by simp
  have c: "cloneAddr sample_phone = sample_phone" by (simp add: cloneAddr_def sample_phone_def normalizeIP_def To4_def)
  have z: "hex_encode [0 :: byte] = str ''00''" by (simp add: hex_encode_def hex_digit_def str_def)
  let ?w = "sip_start s" and ?msg = "register_message [] ''b1''"
  obtain w1 where w1: "resendCached sample_env ?msg sample_phone ?w = (False, w1)" "sw_server w1 = s"
    "sw_ticks w1 = 0" "sw_drawn w1 = 0"
    using resend_quiet [OF sample_others, of ?w ?msg sample_phone] s(4) by (auto simp: sip_start_def)
  let ?s2 = "s\<lparr>sv_trace := [Issued (str ''00'') sample_phone], sv_nonces := [(str ''00'', sample_nonce)]\<rparr>"
  obtain w2 where w2: "freshNonce sample_env sample_phone False w1 = (str ''00'', w2)" "sw_server w2 = ?s2"
    using s w1(2-4)
    by (simp add: freshNonce_def lock_def reusableNonceLocked_def now_def new_nonce_def nonce_bytes_def insert_nonce_def
        put_nonce_def emit_def evictNoncesLocked_def evictNonces_def drop_oldest_nonces.simps sample_env_def c z
        sample_nonce_def seconds_def Let_def)
  obtain w3 txs sent where w3: "challenge sample_env ?msg sample_phone False w1 = Inr w3"
    "sw_server w3 = ?s2\<lparr>sv_txs := txs, sv_trace := sv_trace ?s2 @ map (\<lambda>(a, raw). Sent a raw) sent\<rparr>"
    using reply_quiet [OF sample_others] w2 unfolding challenge_def w2(1) Let_def prod.case by metis
  have "first_value (se_unicode sample_env) ?msg (str ''authorization'') = None"
    by (simp add: first_value_def)
  then have "handleRegister sample_env ?msg sample_phone ?w = Inr w3"
    using w3(1) by (simp add: handleRegister_def w1(1) authenticate_def refused_def)
  then have "handleMessage sample_env ?msg sample_phone ?w = Inr (Handled, w3)"
    by (simp add: handleMessage_def)
  then have run: "gateway_run sample_env sample_sip_options w3"
    by (rule gateway_run.message [OF gateway_run.start [OF s(1)]])
  let ?s4 = "(sw_server w3)\<lparr>sv_txs := []\<rparr>"
  have "other_step (sw_server w3) ?s4"
    using other_step.calls [where s = "sw_server w3" and closed = "sv_closed (sw_server w3)" and running = "sv_running (sw_server w3)"
        and ended = "sv_ended (sw_server w3)" and log = "sv_log (sw_server w3)" and stopping = "sv_stopping (sw_server w3)" and store = "sv_store (sw_server w3)"
        and sessions = "sv_sessions (sw_server w3)" and by_backend = "sv_byBackend (sw_server w3)" and txs = "[]"
        and hung = "sv_hung (sw_server w3)" and rtp = "sv_rtpSess (sw_server w3)" and sent = "[]"] by simp
  from gateway_run.others [OF run this] have run4: "gateway_run sample_env sample_sip_options (w3\<lparr>sw_server := ?s4\<rparr>)" .
  have i: "issued (map (\<lambda>(a, raw). Sent a raw) sent) = []" by (induction sent) auto
  show ?thesis
    by (rule that [OF run4]) (simp_all add: w3(2) s i)
qed

text \<open>The second request answers the challenge and is accepted, and its contact is registered.\<close>

definition sample_registration :: registration where
  "sample_registration =
     \<lparr>rg_username = str ''u'', rg_addr = sample_phone, rg_contact = str ''<sip:u@h>'', rg_requestURI = str ''sip:u@h'',
      rg_expires = seconds 3600\<rparr>"

definition answer_message :: sipMessage where
  "answer_message = register_message [(str ''authorization'', str ''Digest'' @ 32 # write_items sample_items)] ''b2''"

lemma sample_contact:
  "parseNameAddr plain_unicode (str ''<sip:u@h>'') = Inr (str ''u'', [])"
  "dialogURI plain_unicode (str ''<sip:u@h>'') = str ''sip:u@h''"
proof -
  have t: "trim_space (str ''<sip:u@h>'') = str ''<sip:u@h>''" "trim_space (str ''sip:u@h'') = str ''sip:u@h''"
    by (rule trim_space_visible; simp add: str_def visible_def)+
  have h: "headerParam plain_unicode (str ''<sip:u@h>'') (str ''tag'') = Inr []"
    by (simp add: headerParam_def Let_def str_def to_case_def is_ascii_def ascii_lower_def has_prefix_def)
  show "parseNameAddr plain_unicode (str ''<sip:u@h>'') = Inr (str ''u'', [])"
    unfolding parseNameAddr_def h
    using t by (simp add: Let_def uriUser_def str_def to_case_def is_ascii_def ascii_lower_def has_prefix_def)
  show "dialogURI plain_unicode (str ''<sip:u@h>'') = str ''sip:u@h''"
    using t by (simp add: dialogURI_def Let_def str_def to_case_def is_ascii_def ascii_lower_def has_prefix_def contains_any_def)
qed

lemma sample_phone_equal: "addrEqual sample_phone sample_phone"
  by (simp add: addrEqual_def sameIP_def normalizeIP_def To4_def sample_phone_def ip_equal_def)

lemma sample_fields:
  assumes "sv_username s = str ''u''" "sv_realm s = str ''halo''"
  shows "fields_ok sample_env s answer_message
    \<lparr>dc_username = str ''u'', dc_realm = str ''halo'', dc_nonce = str ''00'', dc_uri = str ''sip:h'',
     dc_response = sample_response, dc_algorithm = [], dc_cnonce = str ''c'', dc_nc = str ''00000001'', dc_qop = str ''auth''\<rparr> nc"
proof -
  have r: "hex_decode sample_response = Some (replicate 16 0)"
    by (simp add: sample_response_def str_def hex_val_def) (simp add: eval_nat_numeral)
  have z: "md5hex sample_env v = sample_response" for v
  proof -
    have "replicate 16 (0 :: byte) = [0, 0, 0, 0, 0, 0, 0, 0, 0, 0, 0, 0, 0, 0, 0, 0]" by (simp add: eval_nat_numeral)
    then show ?thesis
      by (simp add: md5hex_def sample_env_def sample_response_def hex_encode_def hex_digit_def str_def)
  qed
  have "digestResponse sample_env a b c d k l m n u = sample_response" for a b c d k l m n u
    by (simp add: digestResponse_def z Let_def)
  then show ?thesis
    using assms r
    by (simp add: fields_ok_def constEqual_def answer_message_def sample_env_def equal_fold_def plain_unicode_def list.rel_refl
        constHexEqual_def contains_any_def) (simp add: str_def)
qed

lemma sample_nc: "parseNC (lower plain_unicode (str ''00000001'')) = Some 1"
proof -
  have "lower plain_unicode (str ''00000001'') = str ''00000001''"
    by (simp add: to_case_def is_ascii_def ascii_lower_def str_def)
  moreover have "validNC (str ''00000001'')"
    unfolding validNC_def
    by (subst runes_of_ascii) (simp_all add: is_ascii_def str_def)
  moreover have "hex_number (str ''00000001'') = 1"
    by (simp add: hex_number_def hex_val_def str_def)
  ultimately show ?thesis by (simp add: parseNC_def)
qed

lemma sample_accepted:
  obtains w before sent where "gateway_run sample_env sample_sip_options w" "sv_reg (sw_server w) = Some sample_registration"
    "sv_trace (sw_server w) = before @ Accepted sample_phone (str ''00'') (str ''u'') (str ''c'') 1 answer_message # Bound sample_registration
       # map (\<lambda>(a, raw). Sent a raw) sent"
    "issued (sv_trace (sw_server w)) = [str ''00'']" "Issued (str ''00'') sample_phone \<in> set before"
proof -
  obtain w where w: "gateway_run sample_env sample_sip_options w" "sv_nonces (sw_server w) = [(str ''00'', sample_nonce)]"
    "sv_txs (sw_server w) = []" "issued (sv_trace (sw_server w)) = [str ''00'']" "sv_username (sw_server w) = str ''u''"
    "sv_password (sw_server w) = str ''pw''" "sv_realm (sw_server w) = str ''halo''"
    "Issued (str ''00'') sample_phone \<in> set (sv_trace (sw_server w))" by (rule sample_challenged)
  obtain w1 where w1: "resendCached sample_env answer_message sample_phone w = (False, w1)" "sw_server w1 = sw_server w"
    by (rule resend_quiet [OF sample_others w(3)])
  have uc: "se_unicode sample_env = plain_unicode" "\<And>k. se_clock sample_env k = 0" by (simp_all add: sample_env_def)
  have canon: "canonicalHeader plain_unicode (str ''authorization'') = str ''authorization''" 
  proof -
    have "trim_space (str ''authorization'') = str ''authorization''" by (rule trim_space_visible) (simp_all add: str_def visible_def)
    moreover have "lower plain_unicode (str ''authorization'') = str ''authorization''"
      by (simp add: to_case_def is_ascii_def ascii_lower_def str_def)
    ultimately show ?thesis by (simp add: canonicalHeader_def compactHeaders_def str_eq_iff)
  qed
  let ?raw = "str ''Digest'' @ 32 # write_items sample_items"
  have v: "first_value plain_unicode answer_message (str ''authorization'') = Some ?raw"
    by (simp add: first_value_def canon answer_message_def)
  have ne: "trim_space ?raw \<noteq> []"
    by (subst trim_space_visible) (simp_all add: sample_items_def str_def visible_def)
  let ?ev = "Accepted sample_phone (str ''00'') (str ''u'') (str ''c'') 1 answer_message"
  have p: "addrEqual (ns_peer sample_nonce) sample_phone" "(0 :: int) < ns_expires sample_nonce" "ns_maxNC sample_nonce = []"
    using sample_phone_equal by (simp_all add: sample_nonce_def seconds_def)
  let ?creds = "\<lparr>dc_username = str ''u'', dc_realm = str ''halo'', dc_nonce = str ''00'', dc_uri = str ''sip:h'',
     dc_response = sample_response, dc_algorithm = [], dc_cnonce = str ''c'', dc_nc = str ''00000001'', dc_qop = str ''auth''\<rparr>"
  let ?ns = "[(str ''00'', sample_nonce\<lparr>ns_maxNC := [((str ''u'', str ''c''), 1)]\<rparr>)]"
  have committed: "\<exists>w2. commitNonce sample_env answer_message sample_phone ?creds 1 w0 = Inr (True, w2)
      \<and> sw_server w2 = (sw_server w)\<lparr>sv_nonces := ?ns, sv_trace := sv_trace (sw_server w) @ [?ev]\<rparr>"
    if "sw_server w0 = sw_server w" for w0
    using p w(2) that by (simp add: commitNonce_def lock_def now_def uc put_nonce_def emit_def Let_def)
  let ?w0 = "snd (now sample_env (lock sample_env w1))"
  have quiet: "sw_server (lock sample_env w1) = sw_server w" "sw_server ?w0 = sw_server w"
    using w1(2) by (simp_all add: lock_def now_def)
  obtain w2 where c: "commitNonce sample_env answer_message sample_phone ?creds 1 ?w0 = Inr (True, w2)"
    and s2: "sw_server w2 = (sw_server w)\<lparr>sv_nonces := ?ns, sv_trace := sv_trace (sw_server w) @ [?ev]\<rparr>"
    using committed [OF quiet(2)] by blast
  have users: "m_toUser answer_message = str ''u''" "m_fromUser answer_message = str ''u''"
    "m_method answer_message \<noteq> str ''INVITE''" by (simp_all add: answer_message_def str_eq_iff)
  have checked: "check_credentials sample_env answer_message sample_phone ?creds w1 = Inr (True, w2)"
    unfolding check_credentials_def Let_def quiet digestCreds.simps
    using c p sample_fields [OF w(5,7)]
    by (simp add: w(2,5) users uc sample_nc now_def)
  have w2: "authenticate sample_env answer_message sample_phone w1 = Inr (True, w2)"
    "sw_server w2 = (sw_server w)\<lparr>sv_nonces := ?ns, sv_trace := sv_trace (sw_server w) @ [?ev]\<rparr>"
    using ne checked s2 by (simp_all add: authenticate_def uc v sample_digest)
  have e: "register_expires answer_message = 3600" by (simp add: register_expires_def answer_message_def)
  have contact: "m_contact answer_message = str ''<sip:u@h>''" by (simp add: answer_message_def)
  have not_star: "trim_space (str ''<sip:u@h>'') \<noteq> [42]"
    by (subst trim_space_visible) (simp_all add: str_def visible_def)
  let ?w3 = "bind_peer sample_env sample_phone (str ''<sip:u@h>'') (str ''sip:u@h'') 3600 w2"
  have w3: "sw_server ?w3 = (sw_server w)\<lparr>sv_nonces := ?ns, sv_reg := Some sample_registration,
      sv_trace := sv_trace (sw_server w) @ [?ev, Bound sample_registration]\<rparr>"
    using w2(2) w(5) by (simp add: bind_peer_def lock_def now_def emit_def uc sample_registration_def Let_def cloneAddr_def
        normalizeIP_def To4_def sample_phone_def)
  obtain w4 txs sent where w4: "sip_reply sample_env answer_message sample_phone 200 ''OK'' (register_lines (str ''<sip:u@h>'') 3600) ?w3 = Inr w4"
    "sw_server w4 = (sw_server ?w3)\<lparr>sv_txs := txs, sv_trace := sv_trace (sw_server ?w3) @ map (\<lambda>(a, raw). Sent a raw) sent\<rparr>"
    by (rule reply_quiet [OF sample_others])
  have "apply_register sample_env answer_message sample_phone w2 = Inr w4"
    using w4(1) w2(2) w(5) not_star by (simp add: apply_register_def e contact uc sample_contact)
  then have "handleRegister sample_env answer_message sample_phone w = Inr w4"
    using w2(1) by (simp add: handleRegister_def w1(1)) (simp add: answer_message_def)
  then have "handleMessage sample_env answer_message sample_phone w = Inr (Handled, w4)"
    by (simp add: handleMessage_def) (simp add: answer_message_def)
  from gateway_run.message [OF w(1) this] have run: "gateway_run sample_env sample_sip_options w4" .
  have i: "issued (map (\<lambda>(a, raw). Sent a raw) sent) = []" by (induction sent) auto
  show ?thesis
    by (rule that [OF run, of "sv_trace (sw_server w)" sent]) (simp_all add: w4(2) w3 w(4,8) i)
qed

theorem sip_requests_authenticated_witness:
  "\<exists>w before msg. gateway_run sample_env sample_sip_options w
    \<and> Issued (str ''00'') sample_phone \<in> set before \<and> sv_reg (sw_server w) = Some sample_registration
    \<and> answers_challenge sample_env (sip_credentials sample_sip_options) (str ''00'') (str ''u'') (str ''c'') 1 msg"
proof -
  obtain w before sent where w: "gateway_run sample_env sample_sip_options w" "sv_reg (sw_server w) = Some sample_registration"
    "sv_trace (sw_server w) = before @ Accepted sample_phone (str ''00'') (str ''u'') (str ''c'') 1 answer_message # Bound sample_registration
       # map (\<lambda>(a, raw). Sent a raw) sent"
    "issued (sv_trace (sw_server w)) = [str ''00'']" "Issued (str ''00'') sample_phone \<in> set before" by (rule sample_accepted)
  have "distinct (issued (sv_trace (sw_server w)))" by (simp add: w(4))
  from sip_requests_authenticated [OF w(1) sample_interferes this w(3)] w(1,2,5) show ?thesis by blast
qed

theorem sip_registration_authenticated_witness:
  "\<exists>w before after remote v user cnonce n msg. gateway_run sample_env sample_sip_options w
    \<and> sv_trace (sw_server w) = before @ Bound sample_registration # after
    \<and> Accepted remote v user cnonce n msg \<in> set before"
proof -
  obtain w where w: "gateway_run sample_env sample_sip_options w" "sv_reg (sw_server w) = Some sample_registration"
    by (rule sample_accepted)
  from sip_registration_authenticated [OF w(1) sample_interferes w(2)] w(1) show ?thesis by blast
qed

end
