(* ===== verification/Sip_Call_Properties.thy ===== *)
theory Sip_Call_Properties
  imports Sip_Call_Steps Sip_Properties
begin

text \<open>
  The runs of the gateway with its calls, what holds in all of them, and a run in which a call is
  cancelled and another answered and ended.
\<close>

subsection \<open>Runs of the gateway\<close>

text \<open>
  The entry points of the gateway: a datagram or a message, the goroutines of calls, an audio packet,
  the poll loop, and the operations of the server's life.  Inside each of them the other goroutines
  take their steps at every critical section.
\<close>

inductive call_operation :: "sip_env \<Rightarrow> backend_env \<Rightarrow> sipWorld \<Rightarrow> sipWorld \<Rightarrow> bool" for e b where
  datagram: "serve_packet e b packet remote w = Inr w' \<Longrightarrow> call_operation e b w w'"
| message: "serve_message e b msg remote w = Inr w' \<Longrightarrow> call_operation e b w w'"
| outgoing_call: "i < length (sv_store (sw_server w)) \<Longrightarrow> ss_direction (sess w i) = Outbound
    \<Longrightarrow> outbound_worker e b i w = Inr w' \<Longrightarrow> call_operation e b w w'"
| dial_result: "i < length (sv_store (sw_server w)) \<Longrightarrow> ss_direction (sess w i) = Outbound
    \<Longrightarrow> call_operation e b w (late_dial e i call err w)"
| incoming_call: "i < length (sv_store (sw_server w)) \<Longrightarrow> ss_direction (sess w i) = Inbound
    \<Longrightarrow> inbound_worker e b i w = Inr w' \<Longrightarrow> call_operation e b w w'"
| audio: "onRTP e addr packet w = Inr (samples, w') \<Longrightarrow> call_operation e b w w'"
| poll: "maintain e b w = Inr w' \<Longrightarrow> call_operation e b w w'"
| running: "sip_Run e w = Inr w' \<Longrightarrow> call_operation e b w w'"
| closing: "call_operation e b w (sip_Close e w)"
| finishing: "call_operation e b w (finish_loops e w)"
| sweeping: "sweep e b w = Inr w' \<Longrightarrow> call_operation e b w w'"
| status: "call_operation e b w (snd (sip_Status e w))"

inductive call_run :: "sip_env \<Rightarrow> backend_env \<Rightarrow> sipOptions \<Rightarrow> sipWorld \<Rightarrow> bool" for e b opts where
  start: "sip_New opts bound = Inr s \<Longrightarrow> call_run e b opts (sip_start s)"
| operation: "call_run e b opts w \<Longrightarrow> call_operation e b w w' \<Longrightarrow> call_run e b opts w'"

lemma operation_goes:
  assumes "orderly e" "sound w" "call_operation e b w w'"
  shows "goes w w'"
proof -
  have s: "has_session i w" if "i < length (sv_store (sw_server w))" for i
    using that assms(2) by (simp add: has_session_def sound_def)
  note g = goes_refl [of w]
  from assms(3) show ?thesis
  proof cases
    case (datagram packet remote)
    with steps_serve_packet [OF assms(1,2) g] show ?thesis by (force simp: steps_def)
  next
    case (message msg remote)
    with steps_serve_message [OF assms(1,2) g] show ?thesis by (force simp: steps_def)
  next
    case (outgoing_call i)
    with steps_outbound_worker [OF assms(1) s g] show ?thesis by (force simp: steps_def)
  next
    case (dial_result i call err)
    with goes_late_dial [OF assms(1) g] show ?thesis by simp
  next
    case (incoming_call i)
    with steps_inbound_worker [OF assms(1) s g] show ?thesis by (force simp: steps_def)
  next
    case (audio addr packet samples)
    with steps_onRTP [OF assms(1) g, of addr packet] show ?thesis by (simp add: steps_def)
  next
    case poll
    with steps_maintain [OF assms(1,2) g] show ?thesis by (force simp: steps_def)
  next
    case running
    with steps_Run [OF assms(1) g] show ?thesis by (force simp: steps_def)
  next
    case closing
    with goes_Close [OF assms(1) g] show ?thesis by simp
  next
    case finishing
    with goes_finish_loops [OF assms(1) g] show ?thesis by simp
  next
    case sweeping
    with steps_sweep [OF assms(1,2) g] show ?thesis by (force simp: steps_def)
  next
    case status
    with goes_Status [OF assms(1) g] show ?thesis by simp
  qed
qed

lemma start_view: "sip_New opts bound = Inr s \<Longrightarrow> view s = ([], []) \<and> indexed s"
  by (auto simp: sip_New_def Let_def view_def indexed_def split: if_splits option.splits)

lemma run_sound:
  assumes "call_run e b opts w" "orderly e"
  shows "protocol\<^sup>*\<^sup>* ([], []) (view (sw_server w)) \<and> sound w"
  using assms
proof (induction rule: call_run.induct)
  case (start bound s)
  with start_view [of opts bound s] show ?case by (simp add: sip_start_def sound_def)
next
  case (operation w w')
  then have g: "goes w w'" by (blast intro: operation_goes)
  with operation sound_goes show ?case by (auto simp: goes_def call_step_def intro: rtranclp_trans)
qed

lemma run_inv: "call_run e b opts w \<Longrightarrow> orderly e \<Longrightarrow> calls_inv (map core (sv_store (sw_server w)), sv_log (sw_server w))"
  using run_sound [of e b opts w] by (simp add: sound_def view_def)

lemma run_preceded:
  "call_run e b opts w \<Longrightarrow> orderly e \<Longrightarrow> sv_log (sw_server w) = before @ ev # after
   \<Longrightarrow> preceded (map core (sv_store (sw_server w))) before ev"
  using run_inv [of e b opts w] by (simp add: calls_inv_def)

subsection \<open>Properties\<close>

text \<open>
  C37: the calls of the SIP gateway refine an abstract protocol.  Whatever the phone, the backend, the
  clock and the scheduler do, and as long as the other goroutines follow the protocol at the critical
  sections, every operation takes the sessions and the log of calls from one state to the next by steps
  of the protocol; so every run is a path of it from the empty state.
\<close>

theorem call_gateway_protocol:
  assumes "orderly e" "call_run e b opts w"
  shows "protocol\<^sup>*\<^sup>* ([], []) (view (sw_server w))
    \<and> (\<forall>w'. call_operation e b w w' \<longrightarrow> protocol\<^sup>*\<^sup>* (view (sw_server w)) (view (sw_server w')))"
proof -
  from run_sound [OF assms(2,1)] have p: "protocol\<^sup>*\<^sup>* ([], []) (view (sw_server w))" and s: "sound w" by blast+
  from operation_goes [OF assms(1) s] p show ?thesis by (auto simp: goes_def call_step_def)
qed

text \<open>
  C38: however CANCEL, the answer of the backend, timers and the end of the run race, an INVITE of the
  phone gets at most one final response and a dialog at most one BYE; and the phone is only told that
  its call is answered when the backend had dialled it.
\<close>

theorem call_one_final_response:
  assumes "orderly e" "call_run e b opts w"
  shows "length (finals i (sv_log (sw_server w))) \<le> 1 \<and> length (byes i (sv_log (sw_server w))) \<le> 1
    \<and> (\<forall>code. Final i code \<in> set (sv_log (sw_server w)) \<longrightarrow> code < 400 \<longrightarrow> (\<exists>ident. Dialled i ident \<in> set (sv_log (sw_server w))))"
proof -
  let ?l = "sv_log (sw_server w)"
  note inv = run_inv [OF assms(2,1)]
  have "length (finals i ?l) \<le> 1 \<and> length (byes i ?l) \<le> 1"
  proof (cases "i < length (sv_store (sw_server w))")
    case True
    with calls_inv_core [OF inv, of i] show ?thesis by (auto simp: core_ok_def of_bool_def split: if_splits)
  next
    case False
    with inv have "\<forall>ev\<in>set ?l. names ev \<noteq> Some i" by (auto simp: calls_inv_def)
    then show ?thesis by (simp add: finals_empty byes_empty)
  qed
  moreover have "\<exists>ident. Dialled i ident \<in> set ?l" if "Final i code \<in> set ?l" "code < 400" for code
  proof -
    from that(1) obtain before after where l: "?l = before @ Final i code # after" by (auto dest: split_list)
    with run_preceded [OF assms(2,1) l] that(2) show ?thesis by auto
  qed
  ultimately show ?thesis by blast
qed

text \<open>
  C39: the gateway hangs up no call that is not its own: a call it hangs up was dialled for the phone, or
  was taken by a session that has ended for another reason than that the call was answered elsewhere or
  is gone.
\<close>

theorem call_hangups_justified:
  assumes "orderly e" "call_run e b opts w" "sv_log (sw_server w) = before @ HangupCall ident # after"
  shows "(\<exists>i. Dialled i ident \<in> set before)
    \<or> (\<exists>i<length (sv_store (sw_server w)). Took i ident \<in> set before
         \<and> ss_endReason (sess w i) \<notin> {NoReason, EndExternal, EndRemoteGone})"
  using run_preceded [OF assms(2,1,3)] by (auto simp: core_def sess_def)

text \<open>
  C40: the order of answering and ending: the backend is told to answer an incoming call only after the
  phone has accepted it, and a dialog the gateway opened is ended with BYE only after its ACK was sent.
\<close>

theorem call_answer_order:
  assumes "orderly e" "call_run e b opts w" "sv_log (sw_server w) = before @ ev # after"
  shows "(\<forall>i. ev = AnswerCall i \<longrightarrow> PhoneAccepted i \<in> set before)
    \<and> (\<forall>i. ev = ByeOut i \<longrightarrow> ss_direction (sess w i) = Inbound \<longrightarrow> AckOut i \<in> set before)"
proof -
  have "i < length (sv_store (sw_server w))" if "ev = ByeOut i" for i
    using run_inv [OF assms(2,1)] that assms(3) by (auto simp: calls_inv_def)
  with run_preceded [OF assms(2,1,3)] show ?thesis by (auto simp: core_def sess_def)
qed

subsection \<open>A run\<close>

text \<open>
  While the first operation waits for the lock, the other goroutines open an outgoing call, take an
  incoming one that the phone accepts, and end the run.
\<close>

definition sample_session :: sip_session where
  "sample_session =
     \<lparr>ss_direction = Outbound, ss_sipCallID = str ''1'', ss_backendID = [], ss_owner = [], ss_number = str ''10'',
      ss_peer = sample_phone, ss_localTag = str ''a'', ss_remoteTag = str ''b'', ss_localFrom = str ''x'',
      ss_localTo = str ''y'', ss_initialInviteURI = [], ss_remoteDialogTarget = [], ss_inviteCSeq = 1, ss_inviteBranch = [],
      ss_inviteVia = [], ss_inviteFrom = str ''y'', ss_inviteTo = str ''x'', ss_txKey = None, ss_inviteRaw = [],
      ss_lastResp = [], ss_rtpRemote = None, ss_media = False, ss_release = False, ss_mediaOn = False, ss_rtpInit = False,
      ss_ssrc = 0, ss_txSeq = 0, ss_txTS = 0, ss_seqInit = False, ss_lastSeq = 0, ss_cancelled = False,
      ss_dialCancelled = False, ss_created = 0, ss_acceptedAt = None, ss_deadAt = 0, ss_nextInvite = None,
      ss_next200 = None, ss_inviteDelay = 0, ss_finalDelay = 0, ss_nextCSeq = 0, ss_ackCh = False, ss_proceed = False,
      ss_dead = False, ss_finalSent = False, ss_dialogConfirmed = False, ss_answerStarted = False,
      ss_ownAnswered = False, ss_ackSent = False, ss_pendingBye = False, ss_ackSeen = False, ss_peerBye = False,
      ss_byeSent = False, ss_cancelSent = False, ss_gotProvisional = False, ss_endReason = NoReason, ss_finished = False\<rparr>"

definition taken_session :: sip_session where
  "taken_session =
     sample_session\<lparr>ss_direction := Inbound, ss_sipCallID := str ''2'', ss_backendID := str ''7'', ss_dialogConfirmed := True,
       ss_answerStarted := True, ss_ackSent := True, ss_proceed := True\<rparr>"

definition sample_server :: sipServer where
  "sample_server = (case sip_New sample_sip_options (Some (sample_phone, sample_phone)) of Inr s \<Rightarrow> s | Inl _ \<Rightarrow> undefined)"

definition busy_server :: sipServer where
  "busy_server =
     sample_server\<lparr>sv_store := [sample_session, taken_session], sv_sessions := [(str ''1'', 0), (str ''2'', 1)],
       sv_ended := True, sv_log := [Took 1 (str ''7''), PhoneAccepted 1, AckOut 1]\<rparr>"

definition call_env :: sip_env where
  "call_env = sample_env\<lparr>se_others := (\<lambda>k s. if k = 0 \<and> s = sample_server then busy_server else s)\<rparr>"

definition sample_backend :: backend_env where
  "sample_backend =
     \<lparr>be_Calls = (\<lambda>k. Some []), be_Dial = (\<lambda>k number. undefined), be_Answer = (\<lambda>k ident. None),
      be_OpenMedia = (\<lambda>k ident. (None, False, None)), be_ReadPCM = (\<lambda>k. None), be_DialWait = (\<lambda>k. DialFinished),
      be_AckWait = (\<lambda>k. AckCame), be_Proceeds = (\<lambda>k. True)\<rparr>"

definition cancel_message :: sipMessage where
  "cancel_message = (blank_message [])\<lparr>m_method := str ''CANCEL'', m_callID := str ''1'', m_cseqNum := 1, m_cseqMethod := str ''CANCEL''\<rparr>"

lemma sample_server_fields:
  "sip_New sample_sip_options (Some (sample_phone, sample_phone)) = Inr sample_server"
  "sv_store sample_server = []" "sv_log sample_server = []" "sv_sessions sample_server = []" "sv_reg sample_server = None"
  "sv_hung sample_server = []"
  by (simp_all add: sample_server_def sample_New)

lemma busy_view:
  "view busy_server = ([core sample_session, core taken_session], [Took 1 (str ''7''), PhoneAccepted 1, AckOut 1])"
  "indexed busy_server"
  by (simp_all add: view_def busy_server_def indexed_def)

lemma call_env_orderly: "orderly call_env"
proof -
  let ?o = "core sample_session" and ?c = "fresh_core Inbound (str ''7'')"
  let ?t = "[Took 1 (str ''7'')]"
  have o: "?o = fresh_core Outbound []" by (simp add: core_def sample_session_def fresh_core_def)
  have t: "core taken_session = ?c\<lparr>cc_accepted := True, cc_acked := True, cc_proceed := True\<rparr>"
    by (simp add: core_def taken_session_def sample_session_def fresh_core_def)
  have s1: "protocol ([], []) ([?o], [])" using protocol.outgoing [of "[]" "[]"] o by simp
  have s2: "protocol ([?o], []) ([?o, ?c], ?t)" using protocol.incoming [of "[?o]" "[]" "str ''7''"] by simp
  have s3: "protocol ([?o, ?c], ?t) ([?o, ?c\<lparr>cc_accepted := True\<rparr>], ?t @ [PhoneAccepted 1])"
    using protocol.accepted [of 1 "[?o, ?c]" ?t] by (simp add: fresh_core_def)
  have s4: "protocol ([?o, ?c\<lparr>cc_accepted := True\<rparr>], ?t @ [PhoneAccepted 1]) ([?o, ?c\<lparr>cc_accepted := True\<rparr>], ?t @ [PhoneAccepted 1, AckOut 1])"
    using protocol.ack_out [of "[?o, ?c\<lparr>cc_accepted := True\<rparr>]" "?t @ [PhoneAccepted 1]" 1] by simp
  have s5: "protocol ([?o, ?c\<lparr>cc_accepted := True\<rparr>], ?t @ [PhoneAccepted 1, AckOut 1])
      ([?o, ?c\<lparr>cc_accepted := True, cc_acked := True\<rparr>], ?t @ [PhoneAccepted 1, AckOut 1])"
    using protocol.acked [of 1 "[?o, ?c\<lparr>cc_accepted := True\<rparr>]" "?t @ [PhoneAccepted 1, AckOut 1]"] by simp
  have s6: "protocol ([?o, ?c\<lparr>cc_accepted := True, cc_acked := True\<rparr>], ?t @ [PhoneAccepted 1, AckOut 1])
      ([?o, core taken_session], ?t @ [PhoneAccepted 1, AckOut 1])"
    using protocol.proceeds [of 1 "[?o, ?c\<lparr>cc_accepted := True, cc_acked := True\<rparr>]" "?t @ [PhoneAccepted 1, AckOut 1]"] t by simp
  note path = converse_rtranclp_into_rtranclp [where r = protocol]
  from path [OF s1 path [OF s2 path [OF s3 path [OF s4 path [OF s5 r_into_rtranclp [of protocol, OF s6]]]]]]
  have "protocol\<^sup>*\<^sup>* ([], []) (view busy_server)" by (simp add: busy_view)
  then have "call_step sample_server busy_server"
    by (simp add: call_step_def busy_view(2)) (simp add: view_def sample_server_fields)
  then show ?thesis by (simp add: orderly_def call_env_def)
qed

lemma lock_later: "0 < sw_locks w \<Longrightarrow> lock call_env w = w\<lparr>sw_locks := sw_locks w + 1\<rparr>"
  by (simp add: lock_def call_env_def)


definition sample_world :: sipWorld where
  "sample_world = \<lparr>sw_server = busy_server, sw_ticks = 0, sw_drawn = 0, sw_locks = 1\<rparr>"

lemma run_started: "call_run call_env sample_backend sample_sip_options sample_world"
proof -
  have "snd (sip_Status call_env (sip_start sample_server)) = sample_world"
    by (simp add: sip_Status_def lock_def call_env_def sip_start_def sample_world_def Let_def busy_server_def sample_server_fields)
  then show ?thesis
    using call_run.operation [OF call_run.start [OF sample_server_fields(1)] call_operation.status, of call_env sample_backend] by simp
qed

lemma sample_texts:
  "cloneAddr sample_phone = sample_phone" "addrEqual sample_phone sample_phone"
  by (simp_all add: cloneAddr_def sample_phone_def normalizeIP_def To4_def addrEqual_def sameIP_def ip_equal_def)

lemma no_tag [simp]: "headerParam plain_unicode (str ''x'') (str ''tag'') = Inr []" "headerParam plain_unicode (str ''y'') (str ''tag'') = Inr []"
  by (simp_all add: headerParam_def Let_def str_def to_case_def is_ascii_def ascii_lower_def has_prefix_def)

lemma call_env_simps [simp]: "se_unicode call_env = plain_unicode" "se_clock call_env = (\<lambda>k. 0)" "se_random call_env = (\<lambda>k n. Some [of_nat k])"
  by (simp_all add: call_env_def sample_env_def)

lemma sample_rendered:
  obtains raw where "renderInviteResponse plain_unicode s sample_session code reason extra body = Inr raw"
proof -
  have "trim_space (str ''x'') = str ''x''" by (rule trim_space_visible) (simp_all add: str_def visible_def)
  then show ?thesis
    using that by (simp add: renderInviteResponse_def ensureTag_def sample_session_def)
qed

definition cancelled_session :: sip_session where
  "cancelled_session = sample_session\<lparr>ss_finalSent := True, ss_endReason := EndCancel\<rparr>"

lemma reply_later:
  assumes "0 < sw_locks w" "m_branch msg = []"
  obtains w' where "sip_reply call_env msg remote code reason extra w = Inr w'" "0 < sw_locks w'"
    "sv_store (sw_server w') = sv_store (sw_server w)" "sv_sessions (sw_server w') = sv_sessions (sw_server w)"
    "sv_log (sw_server w') = sv_log (sw_server w)" "sv_hung (sw_server w') = sv_hung (sw_server w)"
    "sv_ended (sw_server w') = sv_ended (sw_server w)"
proof -
  obtain raw where raw: "buildResponse plain_unicode msg code (str reason) [] extra [] = (Inr raw :: (sip_err, byte list) res)"
    by (cases "m_to msg = []") (auto simp: buildResponse_def response_head_def ensureTag_def)
  show ?thesis
    by (rule that [of "writeTo remote raw w"])
      (use assms in \<open>simp_all add: sip_reply_def raw remember_def makeTxKey_def writeTo_def emit_def\<close>)
qed

lemma run_cancelled:
  obtains w store where "call_run call_env sample_backend sample_sip_options w" "0 < sw_locks w"
    "sv_store (sw_server w) = [store, taken_session]" "sv_ended (sw_server w)" "sv_hung (sw_server w) = []"
    "sv_log (sw_server w) = [Took 1 (str ''7''), PhoneAccepted 1, AckOut 1, Final 0 487]"
proof -
  let ?w1 = "lock call_env sample_world"
  let ?w2 = "on_session 0 (\<lambda>c. c\<lparr>ss_endReason := (if ss_endReason c = NoReason then EndCancel else ss_endReason c)\<rparr>)
    (decide_final 0 487 ?w1)"
  have l1: "?w1 = sample_world\<lparr>sw_locks := 2\<rparr>" by (subst lock_later) (simp_all add: sample_world_def)
  have f2: "0 < sw_locks ?w2" "sv_store (sw_server ?w2) = [cancelled_session, taken_session]" "sv_ended (sw_server ?w2)"
    "sv_log (sw_server ?w2) = [Took 1 (str ''7''), PhoneAccepted 1, AckOut 1, Final 0 487]" "sv_hung (sw_server ?w2) = []"
    unfolding l1
    by (simp_all add: decide_final_def on_session_def log_call_def sample_world_def busy_server_def sample_server_fields
        cancelled_session_def sample_session_def)
  have mb: "m_branch cancel_message = []" by (simp add: cancel_message_def blank_message_def)
  obtain w3 where r3: "sip_reply call_env cancel_message sample_phone 200 ''OK'' [] ?w2 = Inr w3" "0 < sw_locks w3"
    "sv_store (sw_server w3) = sv_store (sw_server ?w2)" "sv_sessions (sw_server w3) = sv_sessions (sw_server ?w2)"
    "sv_log (sw_server w3) = sv_log (sw_server ?w2)" "sv_hung (sw_server w3) = sv_hung (sw_server ?w2)"
    "sv_ended (sw_server w3) = sv_ended (sw_server ?w2)" by (rule reply_later [OF f2(1) mb])
  note w3 = r3(1,2) r3(3) [unfolded f2] r3(5) [unfolded f2] r3(7) [unfolded eqTrueI [OF f2(3)] eq_True] r3(6) [unfolded f2]
  have "renderInviteResponse plain_unicode (sw_server w3) cancelled_session 487 ''Request Terminated'' [contactLine (sw_server w3)] []
      = renderInviteResponse plain_unicode (sw_server w3) sample_session 487 ''Request Terminated'' [contactLine (sw_server w3)] []"
    by (simp add: renderInviteResponse_def cancelled_session_def)
  then obtain raw where raw: "renderInviteResponse plain_unicode (sw_server w3) (sess w3 0) 487 ''Request Terminated'' [contactLine (sw_server w3)] [] = Inr raw"
    using sample_rendered [of "sw_server w3" 487 "''Request Terminated''"] w3(3) by (metis nth_Cons_0 sess_def)
  let ?s4 = "store_response call_env 0 raw (lock call_env w3)"
  let ?w4 = "writeTo (cloneAddr (ss_peer (sess ?s4 0))) raw ?s4"
  have s4: "?s4 = on_session 0 (\<lambda>c. c\<lparr>ss_lastResp := raw\<rparr>) (w3\<lparr>sw_locks := sw_locks w3 + 1\<rparr>)"
    using w3(3) by (simp add: store_response_def lock_later [OF w3(2)] on_session_def sess_def Let_def cancelled_session_def sample_session_def)
  have e4: "send487 call_env 0 w3 = Inr ?w4" by (simp add: send487_def raw Let_def)
  have w4: "0 < sw_locks ?w4" "sv_store (sw_server ?w4) = [cancelled_session\<lparr>ss_lastResp := raw\<rparr>, taken_session]"
    "sv_log (sw_server ?w4) = [Took 1 (str ''7''), PhoneAccepted 1, AckOut 1, Final 0 487]" "sv_ended (sw_server ?w4)" "sv_hung (sw_server ?w4) = []"
    unfolding s4 using w3(2-) by (simp_all add: on_session_def writeTo_def emit_def)
  let ?w5 = "cancelSession call_env 0 ?w4"
  have r: "resendCached call_env cancel_message sample_phone sample_world = (False, sample_world)"
    by (simp add: resendCached_def makeTxKey_def cancel_message_def blank_message_def)
  have found: "map_of (sv_sessions (sw_server ?w1)) (m_callID cancel_message) = Some 0" "sess ?w1 0 = sample_session"
    unfolding l1 by (simp_all add: sample_world_def busy_server_def cancel_message_def sess_def)
  have c: "ss_direction sample_session = Outbound" "ss_dead sample_session = False" "addrEqual (ss_peer sample_session) sample_phone"
    "m_branch cancel_message = ss_inviteBranch sample_session" "m_cseqNum cancel_message = ss_inviteCSeq sample_session"
    "ss_dialogConfirmed sample_session = False" "ss_finalSent sample_session = False"
    by (simp_all add: sample_session_def cancel_message_def blank_message_def sample_texts)
  have h: "handleCancel call_env cancel_message sample_phone sample_world = Inr ?w5"
    using w3(1) e4 unfolding handleCancel_def Let_def r prod.case found option.case by (simp add: c)
  then have "serve_message call_env sample_backend cancel_message sample_phone sample_world = Inr ?w5"
    by (simp add: serve_message_def handleMessage_def cancel_message_def blank_message_def str_def)
  from call_run.operation [OF run_started call_operation.message [OF this]]
  have "call_run call_env sample_backend sample_sip_options ?w5" .
  then show ?thesis
    by (rule that) (use w4 in \<open>simp_all add: cancelSession_def lock_later on_session_def\<close>)
qed


definition taking :: "sip_session \<Rightarrow> sip_session \<Rightarrow> gostring list \<Rightarrow> call_event list \<Rightarrow> sipWorld \<Rightarrow> bool" where
  "taking c0 c hung l w \<longleftrightarrow> 0 < sw_locks w \<and> sv_store (sw_server w) = [c0, c] \<and> sv_ended (sw_server w)
     \<and> sv_hung (sw_server w) = hung \<and> sv_log (sw_server w) = l"

lemma taking_steps:
  assumes "taking c0 c hung l w"
  shows "taking c0 c hung l (lock call_env w)" "taking c0 c hung l (w\<lparr>sw_ticks := k\<rparr>)" "taking c0 c hung l (w\<lparr>sw_drawn := k\<rparr>)"
    "taking c0 (f c) hung l (on_session 1 f w)" "taking c0 c hung (l @ [ev]) (log_call ev w)"
    "taking c0 c hung l (writeTo a raw w)" "sess w 1 = c" "ctx_done w 1"
    "taking c0 c hung l (on_server (\<lambda>s. s\<lparr>sv_rtpSess := r\<rparr>) w)"
    "hungs = str ''7'' # hung \<Longrightarrow> taking c0 c hungs l (on_server (\<lambda>s. s\<lparr>sv_hung := hungs\<rparr>) w)"
  using assms
  by (simp_all add: taking_def lock_later on_session_def log_call_def writeTo_def emit_def sess_def ctx_done_def)

lemma taking_runInbound:
  assumes "taking c0 c hung l w" "ss_proceed c" "ss_endReason c = NoReason"
  obtains w' where "runInbound call_env sample_backend 1 w = Inr w'"
    "taking c0 (c\<lparr>ss_proceed := False, ss_ownAnswered := True\<rparr>) hung (l @ [AnswerCall 1]) w'"
proof -
  note step = taking_steps(1-6,9)
  let ?w1 = "lock call_env (w\<lparr>sw_ticks := sw_ticks w + 1\<rparr>)"
  let ?w2 = "lock call_env (on_session 1 (\<lambda>c. c\<lparr>ss_proceed := False\<rparr>) ?w1)"
  let ?w3 = "lock call_env (log_call (AnswerCall 1) (?w2\<lparr>sw_ticks := sw_ticks ?w2 + 1\<rparr>))"
  have t1: "taking c0 c hung l ?w1" by (rule step(1) [OF step(2) [OF assms(1)]])
  have t2: "taking c0 (c\<lparr>ss_proceed := False\<rparr>) hung l ?w2" by (rule step(1) [OF step(4) [OF t1]])
  have t3: "taking c0 (c\<lparr>ss_proceed := False\<rparr>) hung (l @ [AnswerCall 1]) ?w3" by (rule step(1) [OF step(5) [OF step(2) [OF t2]]])
  show ?thesis
  proof (rule that)
    show "runInbound call_env sample_backend 1 w = Inr (own_answer call_env 1 ?w3)"
      unfolding runInbound_def observe_def Let_def prod.case reason_of_def taking_steps(7) [OF t1] taking_steps(7) [OF t2] taking_steps(7) [OF t3]
      using taking_steps(8) [OF t3] assms(2,3) by (simp add: sample_backend_def)
    show "taking c0 (c\<lparr>ss_proceed := False, ss_ownAnswered := True\<rparr>) hung (l @ [AnswerCall 1]) (own_answer call_env 1 ?w3)"
      using step(4) [OF step(1) [OF t3], of "\<lambda>c. c\<lparr>ss_ownAnswered := True\<rparr>"] unfolding own_answer_def .
  qed
qed

definition shut :: "sip_session \<Rightarrow> sip_session" where
  "shut c = c\<lparr>ss_release := False, ss_media := False, ss_mediaOn := False, ss_endReason := EndShutdown, ss_dead := True, ss_deadAt := 0\<rparr>"

lemma taking_close:
  assumes "taking c0 c hung l w" "ss_endReason c = NoReason"
  shows "taking c0 (shut c) hung l (close_session call_env 1 w)"
proof -
  define w2 where "w2 = on_server (\<lambda>s. s\<lparr>sv_rtpSess := (if sv_rtpSess s = Some 1 then None else sv_rtpSess s)\<rparr>) (lock call_env w)"
  have t: "taking c0 c hung l w2" unfolding w2_def by (rule taking_steps(9) [OF taking_steps(1) [OF assms(1)]])
  then have r: "ss_endReason (sess w2 1) = NoReason" "sv_ended (sw_server w2) = True"
    using taking_steps(7) [OF t] assms(2) by (simp_all add: taking_def)
  have "close_session call_env 1 w = on_session 1 shut (w2\<lparr>sw_ticks := sw_ticks w2 + 1\<rparr>)"
    unfolding close_session_def Let_def now_def prod.case w2_def [symmetric] r by (simp add: shut_def [abs_def])
  with taking_steps(4) [OF taking_steps(2) [OF t], of shut] show ?thesis by simp
qed

lemma taking_hangup:
  assumes "taking c0 c [] l w"
  shows "taking c0 c [str ''7''] (l @ [HangupCall (str ''7'')]) (hangupCall call_env (str ''7'') w)"
proof -
  have t: "taking c0 c [] l (lock call_env w)" by (rule taking_steps(1) [OF assms])
  then have h: "sv_hung (sw_server (lock call_env w)) = []" by (simp add: taking_def)
  have "str ''7'' \<noteq> []" by (simp add: str_def)
  then show ?thesis
    using taking_steps(5) [OF taking_steps(10) [OF t refl]] by (simp add: hangupCall_def Let_def h)
qed

lemma taking_bye:
  assumes "taking c0 c hung l w" "ss_ackSent c" "\<not> ss_byeSent c" "ss_remoteTag c = str ''b''" "ss_localTag c = str ''a''"
    "ss_localFrom c = str ''x''" "ss_localTo c = str ''y''"
  obtains w' c' where "sendBYE call_env 1 w = Inr w'" "taking c0 c' hung (l @ [ByeOut 1]) w'"
    "ss_direction c' = ss_direction c" "ss_endReason c' = ss_endReason c"
proof -
  have x: "trim_space (str ''x'') = str ''x''" "trim_space (str ''y'') = str ''y''"
    by (rule trim_space_visible; simp add: str_def visible_def)+
  have ne: "str ''a'' \<noteq> []" "str ''b'' \<noteq> []" by (simp_all add: str_def)
  have t1: "taking c0 c hung l (lock call_env w)" by (rule taking_steps(1) [OF assms(1)])
  define n where "n = wrap64 (ss_inviteCSeq c + 1)"
  define q where "q = (if ss_nextCSeq c > n then ss_nextCSeq c else n)"
  define w2 where "w2 = log_call (ByeOut 1) (on_session 1 (\<lambda>c. c\<lparr>ss_byeSent := True, ss_nextCSeq := wrap64 (q + 1)\<rparr>) (lock call_env w))"
  let ?c = "c\<lparr>ss_byeSent := True, ss_nextCSeq := wrap64 (q + 1)\<rparr>"
  have t2: "taking c0 ?c hung (l @ [ByeOut 1]) w2" unfolding w2_def by (rule taking_steps(5) [OF taking_steps(4) [OF t1]])
  obtain v where v: "(randomHex call_env 6 w2 :: (sip_err, _) res) = Inr (v, w2\<lparr>sw_drawn := sw_drawn w2 + 1\<rparr>)" by (simp add: randomHex_def Let_def)
  obtain raw where raw: "buildDialogRequestLocked plain_unicode (sw_server w2) c ''BYE'' q (str ''z9hG4bK'' @ v) (dialog_target c) = (Inr raw :: (sip_err, _) res)"
    using x ne by (simp add: buildDialogRequestLocked_def ensureTag_def assms(4-7))
  have "sendBYE call_env 1 w = Inr (writeTo (cloneAddr (ss_peer c)) raw (w2\<lparr>sw_drawn := sw_drawn w2 + 1\<rparr>))"
    unfolding sendBYE_def Let_def taking_steps(7) [OF t1] n_def [symmetric] q_def [symmetric] w2_def [symmetric]
    using raw assms(2-5) ne by (simp add: v)
  then show ?thesis by (rule that [OF _ taking_steps(6) [OF taking_steps(3) [OF t2]]]) simp_all
qed

lemma taking_finish:
  assumes "taking c0 c [] l w" "\<not> ss_finished c" "ss_endReason c = NoReason" "ss_backendID c = str ''7''" "ss_ownAnswered c"
    "ss_dialogConfirmed c" "\<not> ss_peerBye c" "ss_ackSent c" "\<not> ss_byeSent c" "ss_remoteTag c = str ''b''" "ss_localTag c = str ''a''"
    "ss_localFrom c = str ''x''" "ss_localTo c = str ''y''"
  obtains w' c' where "finishSession call_env sample_backend 1 w = Inr w'"
    "taking c0 c' [str ''7''] (l @ [HangupCall (str ''7''), ByeOut 1]) w'" "ss_direction c' = ss_direction c" "ss_endReason c' = EndShutdown"
proof -
  have ne: "str ''7'' \<noteq> []" by (simp add: str_def)
  have t1: "taking c0 c [] l (lock call_env w)" by (rule taking_steps(1) [OF assms(1)])
  define c2 where "c2 = shut (c\<lparr>ss_finished := True, ss_cancelled := True\<rparr>)"
  define w2 where "w2 = close_session call_env 1 (on_session 1 (\<lambda>c. c\<lparr>ss_finished := True, ss_cancelled := True\<rparr>) (lock call_env w))"
  have t2: "taking c0 c2 [] l w2"
    unfolding c2_def w2_def by (rule taking_close [OF taking_steps(4) [OF t1]]) (simp add: assms(3))
  have f: "ss_backendID c2 = str ''7''" "ss_ownAnswered c2" "ss_endReason c2 = EndShutdown" "ss_dialogConfirmed c2" "\<not> ss_peerBye c2"
    "ss_direction c2 = ss_direction c" "ss_ackSent c2" "\<not> ss_byeSent c2" "ss_remoteTag c2 = str ''b''" "ss_localTag c2 = str ''a''"
    "ss_localFrom c2 = str ''x''" "ss_localTo c2 = str ''y''"
    using assms(4-) by (simp_all add: c2_def shut_def)
  have r: "still_ringing plain_unicode sample_backend (str ''7'') w2 = (False, w2\<lparr>sw_ticks := sw_ticks w2 + 1\<rparr>)"
    using ne by (simp add: still_ringing_def lookupState_def lookupCall_def backendCalls_def observe_def sample_backend_def)
  let ?w3 = "hangupCall call_env (str ''7'') (w2\<lparr>sw_ticks := sw_ticks w2 + 1\<rparr>)"
  have t3: "taking c0 c2 [str ''7''] (l @ [HangupCall (str ''7'')]) ?w3" by (rule taking_hangup [OF taking_steps(2) [OF t2]])
  obtain w' c' where b: "sendBYE call_env 1 ?w3 = Inr w'" "taking c0 c' [str ''7''] ((l @ [HangupCall (str ''7'')]) @ [ByeOut 1]) w'"
    "ss_direction c' = ss_direction c2" "ss_endReason c' = ss_endReason c2" by (rule taking_bye [OF t3 f(7-12)])
  have h: "hang_up_ended call_env c2 False (w2\<lparr>sw_ticks := sw_ticks w2 + 1\<rparr>) = ?w3"
    using ne f by (simp add: hang_up_ended_def)
  have "finishSession call_env sample_backend 1 w = Inr w'"
    unfolding finishSession_def Let_def taking_steps(7) [OF t1] w2_def [symmetric] taking_steps(7) [OF t2] call_env_simps f(1) r prod.case h
    using assms(2) f b(1) by simp
  then show ?thesis by (rule that) (use b f in simp_all)
qed

lemma run_answered:
  obtains w where "call_run call_env sample_backend sample_sip_options w"
    "sv_log (sw_server w) = [Took 1 (str ''7''), PhoneAccepted 1, AckOut 1, Final 0 487, AnswerCall 1, HangupCall (str ''7''), ByeOut 1]"
    "length (sv_store (sw_server w)) = 2" "ss_direction (sess w 1) = Inbound" "ss_endReason (sess w 1) = EndShutdown"
proof -
  let ?l = "[Took 1 (str ''7''), PhoneAccepted 1, AckOut 1, Final 0 487]"
  obtain w c0 where w: "call_run call_env sample_backend sample_sip_options w" "0 < sw_locks w"
    "sv_store (sw_server w) = [c0, taken_session]" "sv_ended (sw_server w)" "sv_hung (sw_server w) = []"
    "sv_log (sw_server w) = ?l" by (rule run_cancelled)
  then have t: "taking c0 taken_session [] ?l w" by (simp add: taking_def)
  let ?c = "taken_session\<lparr>ss_proceed := False, ss_ownAnswered := True\<rparr>"
  have f: "ss_proceed taken_session" "ss_endReason taken_session = NoReason"
    by (simp_all add: taken_session_def sample_session_def)
  obtain w1 where w1: "runInbound call_env sample_backend 1 w = Inr w1" "taking c0 ?c [] (?l @ [AnswerCall 1]) w1"
    by (rule taking_runInbound [OF t f])
  have c: "\<not> ss_finished ?c" "ss_endReason ?c = NoReason" "ss_backendID ?c = str ''7''" "ss_ownAnswered ?c"
    "ss_dialogConfirmed ?c" "\<not> ss_peerBye ?c" "ss_ackSent ?c" "\<not> ss_byeSent ?c" "ss_remoteTag ?c = str ''b''" "ss_localTag ?c = str ''a''"
    "ss_localFrom ?c = str ''x''" "ss_localTo ?c = str ''y''"
    by (simp_all add: taken_session_def sample_session_def)
  obtain w2 c' where w2: "finishSession call_env sample_backend 1 w1 = Inr w2"
    "taking c0 c' [str ''7''] ((?l @ [AnswerCall 1]) @ [HangupCall (str ''7''), ByeOut 1]) w2" "ss_direction c' = ss_direction ?c" "ss_endReason c' = EndShutdown"
    by (rule taking_finish [OF w1(2) c])
  have "inbound_worker call_env sample_backend 1 w = Inr w2" by (simp add: inbound_worker_def w1(1) w2(1) del: One_nat_def)
  then have "call_operation call_env sample_backend w w2"
    by (rule call_operation.incoming_call [rotated 2]) (simp_all add: w(3) sess_def taken_session_def)
  with w(1) have "call_run call_env sample_backend sample_sip_options w2" by (rule call_run.operation)
  then show ?thesis
    by (rule that) (use w2(2-) in \<open>simp_all add: taking_def sess_def taken_session_def\<close>)
qed


abbreviation answered_log :: "call_event list" where
  "answered_log \<equiv> [Took 1 (str ''7''), PhoneAccepted 1, AckOut 1, Final 0 487, AnswerCall 1, HangupCall (str ''7''), ByeOut 1]"

subsection \<open>The properties on this run\<close>

theorem call_gateway_protocol_witness:
  "\<exists>w :: sipWorld. sv_log (sw_server w) = answered_log \<and> protocol\<^sup>*\<^sup>* ([], []) (view (sw_server w))"
proof -
  obtain w where w: "call_run call_env sample_backend sample_sip_options w" "sv_log (sw_server w) = answered_log"
    by (rule run_answered)
  from w(2) conjunct1 [OF call_gateway_protocol [OF call_env_orderly w(1)]] show ?thesis by (intro exI [of _ w] conjI)
qed

theorem call_one_final_response_witness:
  "\<exists>w :: sipWorld. sv_log (sw_server w) = answered_log \<and> length (finals 0 (sv_log (sw_server w))) \<le> 1 \<and> length (byes 1 (sv_log (sw_server w))) \<le> 1"
proof -
  obtain w where w: "call_run call_env sample_backend sample_sip_options w" "sv_log (sw_server w) = answered_log"
    by (rule run_answered)
  note p = call_one_final_response [OF call_env_orderly w(1)]
  from w(2) conjunct1 [OF p, of 0] conjunct1 [OF conjunct2 [OF p], of 1] show ?thesis by (intro exI [of _ w] conjI)
qed

theorem call_hangups_justified_witness:
  "\<exists>w :: sipWorld. sv_log (sw_server w) = answered_log \<and> Took 1 (str ''7'') \<in> set (sv_log (sw_server w))
     \<and> (\<exists>i<length (sv_store (sw_server w)). ss_endReason (sess w i) \<notin> {NoReason, EndExternal, EndRemoteGone})"
proof -
  obtain w where w: "call_run call_env sample_backend sample_sip_options w" "sv_log (sw_server w) = answered_log"
    by (rule run_answered)
  then have "sv_log (sw_server w) = [Took 1 (str ''7''), PhoneAccepted 1, AckOut 1, Final 0 487, AnswerCall 1] @ HangupCall (str ''7'') # [ByeOut 1]"
    by simp
  from call_hangups_justified [OF call_env_orderly w(1) this] w(2) show ?thesis by (intro exI [of _ w]) auto
qed

theorem call_answer_order_witness:
  "\<exists>w :: sipWorld. sv_log (sw_server w) = answered_log \<and> PhoneAccepted 1 \<in> set [Took 1 (str ''7''), PhoneAccepted 1, AckOut 1, Final 0 487]"
proof -
  obtain w where w: "call_run call_env sample_backend sample_sip_options w" "sv_log (sw_server w) = answered_log"
    by (rule run_answered)
  then have "sv_log (sw_server w) = [Took 1 (str ''7''), PhoneAccepted 1, AckOut 1, Final 0 487] @ AnswerCall 1 # [HangupCall (str ''7''), ByeOut 1]"
    by simp
  from conjunct1 [OF call_answer_order [OF call_env_orderly w(1) this]] have "PhoneAccepted 1 \<in> set [Took 1 (str ''7''), PhoneAccepted 1, AckOut 1, Final 0 487]"
    by blast
  with w(2) show ?thesis by (intro exI [of _ w] conjI)
qed

end
