(* ===== verification/Spec2Isabelle.thy ===== *)
theory Spec2Isabelle
  imports Sms_Properties Sms_Rate Esp_Runs Ike_Sk_Roundtrip Eap_Runs Esim_Properties Carrier_Properties Orchestrator_Subscribers
    Sip_Parser Sip_Media_Properties Sip_Call_Properties
begin

text \<open>
  A verification development for VoCat, a Go program that drives cellular modems: it sends and
  receives SMS, manages eSIM profiles, bridges calls to a SIP phone, and registers with an operator
  over VoWiFi (an IKEv2 tunnel to the operator's gateway, with IMS inside).  The development models
  the parts whose correctness is their own logic: the codecs, the state that keeps messages together,
  the security protocols that carry VoWiFi, the orchestrator that drives a session of it, and the
  SIP gateway.

  \<^bold>\<open>Conventions.\<close>  A Go function that returns a value and an error becomes a function into
  \<open>('e, 'a) res\<close> (\<open>Prelude\<close>): a value, an error \<open>Fail e\<close>, a \<open>Panic\<close> of an index, slice or
  \<open>FillBytes\<close> out of range, or a \<open>Hang\<close>.  Go strings and slices are byte lists, integers of a fixed
  width are machine words where the code's arithmetic can wrap and nat or int otherwise, maps are
  association lists or partial functions.  A method that changes its receiver returns the new
  state.  A mutex makes the operation under it one step.

  \<^bold>\<open>Foundations.\<close>
  \<^item> \<open>Prelude\<close>: results, checked indexing, big-endian integers.  \<open>Go_Strings\<close>, \<open>Go_Text\<close>: UTF-8,
    UTF-16, hexadecimal and the string functions of Go's library that the code calls.  The Unicode
    tables and GB18030 are the parameter \<open>text_env\<close>.
  \<^item> \<open>Go_Net\<close>, \<open>Go_Ip\<close>: the functions of Go's packages net and net/netip, and octet strings as
    numbers.  \<open>Go_Parse\<close>: the parts of strconv and strings that the text protocols call.
  \<^item> \<open>Crypto_Env\<close>: HMAC, SHA-1 and AES-CBC as a parameter, with the laws the code relies on
    (\<open>crypto_ok\<close>: sizes, and that decryption inverts encryption).  Nothing is assumed about secrecy.
  \<^item> \<open>Segments\<close>: the locale of a cutter that splits a list without breaking pairs, interpreted for
    GSM-7 escapes and for UTF-16 surrogates.

  \<^bold>\<open>Text messages\<close> (\<open>internal/device/sms_pdu.go\<close>, \<open>internal/smsdecode\<close>, \<open>internal/store\<close>).
  \<^item> \<open>Gsm7\<close>, \<open>Sms_Types\<close>, \<open>Sms_Septets\<close>: alphabets and septet packing.
  \<^item> \<open>Sms_Submit\<close>: normalising the recipient, choosing the encoding, splitting and encoding
    SMS-SUBMIT PDUs.  \<open>Sms_Decode\<close>: decoding DELIVER, SUBMIT and STATUS-REPORT PDUs.
  \<^item> \<open>Sms_Roundtrip\<close>, \<open>Sms_Messages\<close>, \<open>Sms_Delivery\<close>, \<open>Sms_Properties\<close>: what is prepared decodes to
    the text that was sent; the sizes of submissions; no received PDU makes the decoder panic.
  \<^item> \<open>Sms_Wap\<close>: WAP push, service indications and MMS notifications.
  \<^item> \<open>Sms_Store\<close>: the merge of concatenated segments with its document; any order and repetition of
    the segments rebuilds the text.  \<open>Sms_Rate\<close>: the limit of sends in a rolling hour, over runs of
    reservations whose database steps may fail.

  \<^bold>\<open>IKEv2, EAP-AKA and ESP\<close> (\<open>internal/vowifi/ike\<close>).
  \<^item> \<open>Ike_Wire\<close> (\<open>wire.go\<close>): header, payload chain, proposals, suite selection, notifications.
    \<open>Ike_Child\<close> (\<open>child.go\<close>, \<open>ike3gpp.go\<close>): ESP suites, traffic selectors, configuration, identity.
  \<^item> \<open>Ike_Keys\<close>, \<open>Ike_Sk\<close>, \<open>Ike_Sk_Roundtrip\<close> (\<open>crypto.go\<close>): PRF+ and the key derivations against
    RFC 7296, Diffie-Hellman, the encrypted payload, fragmentation and reassembly.
  \<^item> \<open>Eap_Aka\<close>, \<open>Eap_Data\<close>, \<open>Eap_Runs\<close> (\<open>eap.go\<close>): EAP packets and AKA attributes, the generator of
    FIPS 186-2, and the client as a state machine driven by packets and the answers of the SIM; runs
    are the inductive relation \<open>aka_run\<close>.
  \<^item> \<open>Esp_Window\<close>, \<open>Esp_Packet\<close>, \<open>Esp\<close>, \<open>Esp_Runs\<close> (\<open>esp.go\<close>): the replay window as a refinement of
    the set of accepted numbers (locale \<open>replay_guard\<close>), inner packets and the selector policy,
    sealing and opening, and the reachable states of a tunnel (\<open>esp_run\<close>).

  \<^bold>\<open>eSIM profiles\<close> (\<open>internal/device/esim*.go\<close>).
  \<^item> \<open>Esim_Der\<close>: BER-TLV elements.  \<open>Esim_Profiles\<close>: ICCIDs, the ES10c requests that name a profile,
    their results and the list of profiles.  \<open>Esim_Install\<close>: loading a profile package.
    \<open>Esim_Notify\<close>: the notifications a card keeps and their delivery.
  \<^item> \<open>Esim_Properties\<close>: requests and trees come back from their encodings, a package is cut without
    loss at the borders of its elements, no answer of a card makes a parser panic, notifications of
    one receiver never overtake each other.

  \<^bold>\<open>Carriers and the orchestrator\<close> (\<open>internal/vowifi/carrier_compat.go\<close>, \<open>orchestrator.go\<close>).
  \<^item> \<open>Carrier\<close>: the rules of the embedded and installed documents, their validation, and the choice
    of the most specific rule for a SIM.  \<open>Carrier_Routes\<close>: the routes, ePDG names and telephone number
    that follow from a profile.  \<open>Carrier_Properties\<close>: what a validated document guarantees of them.
  \<^item> \<open>Vowifi_Types\<close>, \<open>Orchestrator\<close>: the state machine with its operations and watchers, every provider
    a function of all that happened before, and the trace of calls and published states.
    \<open>Orchestrator_Runs\<close>: the abstract automaton of the protocol (\<open>allowed\<close>, \<open>advance\<close>, \<open>replay\<close>), triples
    over the operations, and the invariant \<open>settled\<close> of every run.  \<open>Orchestrator_Properties\<close>: every run
    refines the protocol; what was opened is closed.  \<open>Orchestrator_Subscribers\<close>: what survives
    publishing survives every operation (locale \<open>run_invariant\<close>, interpreted on the channels).

  \<^bold>\<open>SIP gateway\<close> (\<open>internal/cellbridge/sip\<close>).
  \<^item> \<open>Sip_Message\<close>, \<open>Sip_Parser\<close> (\<open>message.go\<close>): the parser and printer of SIP messages; what text
    outside ASCII does to it.  \<open>Sip_Media\<close>, \<open>Sip_Media_Properties\<close> (\<open>rtp.go\<close>, \<open>pcm.go\<close>): RTP, the session
    description with the pinned address of the peer, and the error of the mu-law codec.
  \<^item> \<open>Sip_Server\<close>, \<open>Sip_Auth\<close> (\<open>server.go\<close>, \<open>digest.go\<close>): the state of the gateway, transactions with
    their cached responses, digest authentication and registration; the invariant \<open>auth_ok\<close>.
    \<open>Sip_Properties\<close>: over any run of messages, with any other step of the gateway (\<open>other_step\<close>)
    between them, a request is only accepted with an answer to a fresh challenge.
  \<^item> \<open>Sip_Call\<close> (\<open>call.go\<close>): sessions, requests and responses of a call, the goroutines of outgoing and
    incoming calls, their media, the poll loop and the end of a run.  Every critical section begins with
    \<open>lock\<close>, where the other goroutines take their steps; the backend, the clock, the scheduler's choices
    and the random reader are functions of the observations so far.  \<open>Sip_Call_Protocol\<close>: the abstract
    protocol of calls and its invariant \<open>calls_inv\<close>.  \<open>Sip_Call_Runs\<close>, \<open>Sip_Call_Steps\<close>: every operation
    follows the protocol if the other goroutines do (rely and guarantee).  \<open>Sip_Call_Properties\<close>: the runs,
    with what the protocol implies for responses, hang-ups, answers and BYE.

  \<^bold>\<open>How the parts meet.\<close>  The suite chosen by \<open>parseIKESuite\<close> is the premise of the key derivation and
  of the encrypted payload; the selectors of \<open>parseTrafficSelectors\<close> are the policy of the tunnel;
  the window's locale gives the invariant of every run of the tunnel; the decoder of \<open>Sms_Wap\<close>
  shows the merged text of \<open>Sms_Store\<close>; the orchestrator resolves the profile of \<open>Carrier\<close> and derives
  its gateway with \<open>Carrier_Routes\<close>; calls pass the admission of \<open>Sip_Server\<close>, take their media address
  from \<open>Sip_Media\<close>, and their texts and tags from \<open>Sip_Message\<close>.

  \<^bold>\<open>Loops.\<close>  Loops over indices are functions with a measure.  Loops that need an argument are
  \<open>partial_function (option)\<close>: the segmentation loop, and the join of fragments, whose 16-bit counter
  wraps at 65535 fragments, and that these return is proved; and two loops of calls that end when the
  backend says so (\<open>wait_rounds\<close>, \<open>pumpDown\<close>), whose guarantees hold of every return.  No fuel is used.

  \<^bold>\<open>Not modelled.\<close>  What is left is code whose result is decided outside it: sockets, HTTP handlers and
  the Telegram bot, the database apart from the statements of the rate limit and of the merge, modem
  and smart-card transports, the voice devices, the installers of kernel state, the simulators and the
  wiring of \<open>main.go\<close>, certificate checks (\<open>auth.go\<close> of IKE calls Go's x509), the resolution of the EAP
  identity through the embedded carrier table (\<open>permanentAKAIdentity\<close>; the identity is an argument),
  the IKE client that strings the modelled exchanges together over a socket, IMS (its provider,
  registration and SMS runtime are goroutines over network connections, and would need the model of a
  second SIP stack), and the web front end, which is another language.
\<close>

subsection \<open>Input from outside\<close>


end
